(* ===== verification/Prelude.thy ===== *)
theory Prelude
  imports Main "HOL-Library.AList" "HOL-Library.Multiset" "HOL-Library.Sublist"
begin

text \<open>
  The shared vocabulary of the development: Python exceptions as values, dictionaries in
  insertion order, the Python sort, and the generic lemmas and interfaces the component
  theories rest on.
  \<^item> \<open>py_exn\<close> and \<open>'a res\<close>: an operation that may raise returns \<open>Inl\<close> of the exception.
  \<^item> \<open>('k, 'v) dict\<close>: a Python dictionary keeps insertion order, so it is an association
    list with distinct keys; assignment replaces in place or appends (\<open>AList.update\<close>).
  \<^item> locale \<open>keyed_store\<close>: what the registries rely on when they read after a write.
  \<^item> locale \<open>guarded_steps\<close>: an invariant kept by every operation is kept by every run.
  \<^item> locale \<open>logged_calls\<close>: an entry point that logs each call that returns keeps a complete history.
\<close>

named_theorems py_defs \<open>definitions of the modelled Python library functions\<close>
named_theorems frame_simps \<open>fields an operation leaves unchanged\<close>

section \<open>Exceptions\<close>

datatype py_exn =
    KeyError string
  | ValueError string
  | PermissionError string
  | TypeError string
  | FileNotFoundError string
  | OtherError string string \<comment> \<open>class name and message\<close>

type_synonym 'a res = "py_exn + 'a"

definition res_map :: "('a \<Rightarrow> 'b) \<Rightarrow> 'a res \<Rightarrow> 'b res" where
  "res_map f r = (case r of Inl x \<Rightarrow> Inl x | Inr a \<Rightarrow> Inr (f a))"

definition res_bind :: "'a res \<Rightarrow> ('a \<Rightarrow> 'b res) \<Rightarrow> 'b res" where
  "res_bind r f = (case r of Inl x \<Rightarrow> Inl x | Inr a \<Rightarrow> f a)"

lemma res_map_Inr [simp]: "res_map f r = Inr y \<longleftrightarrow> (\<exists>x. r = Inr x \<and> y = f x)"
  by (auto simp: res_map_def split: sum.splits)

lemma res_bind_Inr [simp]: "res_bind r f = Inr y \<longleftrightarrow> (\<exists>x. r = Inr x \<and> f x = Inr y)"
  by (auto simp: res_bind_def split: sum.splits)

lemma res_step [simp]: "res_map f (Inr x) = Inr (f x)" "res_bind (Inr x) g = g x"
  "res_map f (Inl e) = Inl e" "res_bind (Inl e) g = Inl e"
  by (simp_all add: res_map_def res_bind_def)

lemma res_bind_assoc: "res_bind (res_bind r f) g = res_bind r (\<lambda>x. res_bind (f x) g)"
  by (cases r) simp_all

text \<open>A call that runs foreign code may also never come back.\<close>

datatype 'a outcome = Returns 'a | Raises py_exn | Diverges

section \<open>Dictionaries in insertion order\<close>

type_synonym ('k, 'v) dict = "('k \<times> 'v) list"

abbreviation dict_get :: "('k, 'v) dict \<Rightarrow> 'k \<Rightarrow> 'v option" where
  "dict_get d k \<equiv> map_of d k"

abbreviation dict_set :: "'k \<Rightarrow> 'v \<Rightarrow> ('k, 'v) dict \<Rightarrow> ('k, 'v) dict" where
  "dict_set k v d \<equiv> AList.update k v d"

abbreviation dict_del :: "'k \<Rightarrow> ('k, 'v) dict \<Rightarrow> ('k, 'v) dict" where
  "dict_del k d \<equiv> AList.delete k d"

abbreviation dict_keys :: "('k, 'v) dict \<Rightarrow> 'k list" where
  "dict_keys d \<equiv> map fst d"

abbreviation dict_values :: "('k, 'v) dict \<Rightarrow> 'v list" where
  "dict_values d \<equiv> map snd d"

abbreviation dict_ok :: "('k, 'v) dict \<Rightarrow> bool" where
  "dict_ok d \<equiv> distinct (map fst d)"

text \<open>\<open>d.get(k, default)\<close>.\<close>

definition dict_get_default :: "('k, 'v) dict \<Rightarrow> 'k \<Rightarrow> 'v \<Rightarrow> 'v" where
  "dict_get_default d k v = (case dict_get d k of None \<Rightarrow> v | Some x \<Rightarrow> x)"

text \<open>Lookups stay lookups: membership in the list of items is used only where asked for.\<close>

declare map_of_eq_Some_iff [simp del] Some_eq_map_of_iff [simp del]

lemma dict_get_set [simp]:
  "dict_get (dict_set k v d) k' = (if k' = k then Some v else dict_get d k')"
  by (simp add: update_conv')

lemma dict_get_del [simp]:
  "dict_get (dict_del k d) k' = (if k' = k then None else dict_get d k')"
  by (simp add: delete_conv')

lemma dict_ok_set [simp]: "dict_ok d \<Longrightarrow> dict_ok (dict_set k v d)"
  by (simp add: distinct_update)

lemma dict_ok_del [simp]: "dict_ok d \<Longrightarrow> dict_ok (dict_del k d)"
  by (simp add: distinct_delete)

lemma dict_keys_set:
  "dict_keys (dict_set k v d) = (if k \<in> set (dict_keys d) then dict_keys d else dict_keys d @ [k])"
  by (induction d) auto

lemma keys_set: "fst ` set (dict_set k v d) = insert k (fst ` set d)"
  by (auto simp: dom_update)

lemma keys_del: "fst ` set (dict_del k d) = fst ` set d - {k}"
  by (metis delete_keys set_removeAll set_map)

lemma length_dict_set:
  "length (dict_set k v d) = (if k \<in> set (dict_keys d) then length d else Suc (length d))"
  by (induction d) auto

lemma dict_set_fresh: "k \<notin> set (dict_keys d) \<Longrightarrow> dict_set k v d = d @ [(k, v)]"
  by (induction d) auto

lemma dict_get_SomeD: "dict_get d k = Some v \<Longrightarrow> (k, v) \<in> set d \<and> v \<in> set (dict_values d)"
  by (force dest: map_of_SomeD)

lemma dict_get_None_iff: "dict_get d k = None \<longleftrightarrow> k \<notin> set (dict_keys d)"
  by (simp add: map_of_eq_None_iff)

lemma dict_mem_iff: "dict_ok d \<Longrightarrow> (k, v) \<in> set d \<longleftrightarrow> dict_get d k = Some v"
  by (auto dest: map_of_SomeD)

lemma dict_items_set:
  "dict_ok d \<Longrightarrow> (a, b) \<in> set (dict_set k v d) \<longleftrightarrow>
     (if a = k then b = v else (a, b) \<in> set d)"
  using dict_mem_iff [OF dict_ok_set, of d a b k v] dict_mem_iff [of d a b] by auto

lemma dict_del_absent: "k \<notin> set (dict_keys d) \<Longrightarrow> dict_del k d = d"
  by (induction d) auto

lemma dict_set_same: "dict_get d k = Some v \<Longrightarrow> dict_set k v d = d"
  by (induction d) (auto split: if_splits)

lemma dict_get_filter: "dict_get (filter (\<lambda>(k, v). k \<noteq> q) d) k = (if k = q then None else dict_get d k)"
  by (induction d) auto

section \<open>Reading after writing\<close>

text \<open>
  The contract a registry relies on: a read returns what was last written under its key,
  and writes under other keys do not disturb it.
\<close>

locale keyed_store =
  fixes get :: "'s \<Rightarrow> 'k \<Rightarrow> 'v option"
    and put :: "'k \<Rightarrow> 'v \<Rightarrow> 's \<Rightarrow> 's"
  assumes get_put: "get (put k v s) k' = (if k' = k then Some v else get s k')"
begin

text \<open>Writing a list of items in order leaves, under each key, the last value written.\<close>

lemma get_put_all:
  "get (fold (\<lambda>x. put (key x) (val x)) xs s) k =
     (case filter (\<lambda>x. key x = k) (rev xs) of [] \<Rightarrow> get s k | x # _ \<Rightarrow> Some (val x))"
proof (induction xs arbitrary: s)
  case Nil
  then show ?case by simp
next
  case (Cons x xs)
  then show ?case
    by (auto simp: get_put split: list.splits)
qed

lemma put_twice: "get (put k v (put k w s)) = get (put k v s)"
  by (auto simp: get_put)

lemma put_commute: "k \<noteq> k' \<Longrightarrow> get (put k v (put k' w s)) = get (put k' w (put k v s))"
  by (auto simp: get_put)

end

interpretation dict: keyed_store dict_get dict_set
  by unfold_locales simp

section \<open>Runs of operations\<close>

text \<open>
  A component is a state and a step function over its operations; a step that raises
  leaves the state it returns. What every step keeps, every run keeps.
\<close>

locale guarded_steps =
  fixes step :: "'op \<Rightarrow> 's \<Rightarrow> 's"
    and inv :: "'s \<Rightarrow> bool"
  assumes step_inv: "inv s \<Longrightarrow> inv (step x s)"
begin

lemma run_inv: "inv s \<Longrightarrow> inv (fold step xs s)"
  by (induction xs arbitrary: s) (auto intro: step_inv)

end

section \<open>Calls that keep a log\<close>

text \<open>
  A sequence of calls, with the outcome of each; a call that never comes back has been given up.
\<close>

fun run_calls :: "('c \<Rightarrow> 's \<Rightarrow> 'r outcome \<times> 's) \<Rightarrow> 'c list \<Rightarrow> 's \<Rightarrow> 'r outcome list \<times> 's" where
  "run_calls call [] s = ([], s)"
| "run_calls call (c # cs) s =
     (let (out, s1) = call c s; (outs, s2) = run_calls call cs s1 in (out # outs, s2))"

fun returned :: "'r outcome list \<Rightarrow> 'r list" where
  "returned [] = []"
| "returned (Returns r # outs) = r # returned outs"
| "returned (_ # outs) = returned outs"

text \<open>
  The contract of an audited entry point: a call that returns logs the entry of its result, and one
  that does not return logs nothing. Then the log of any run is the list of the results the callers saw.
\<close>

locale logged_calls =
  fixes call :: "'c \<Rightarrow> 's \<Rightarrow> 'r outcome \<times> 's"
    and log_of :: "'s \<Rightarrow> 'e list"
    and entry :: "'r \<Rightarrow> 'e"
  assumes returns_logged: "call c s = (Returns r, s') \<Longrightarrow> log_of s' = log_of s @ [entry r]"
    and failure_silent: "call c s = (out, s') \<Longrightarrow> \<forall>r. out \<noteq> Returns r \<Longrightarrow> log_of s' = log_of s"
begin

lemma run_log:
  "log_of (snd (run_calls call cs s)) = log_of s @ map entry (returned (fst (run_calls call cs s)))"
proof (induction cs arbitrary: s)
  case (Cons c cs)
  obtain out s1 where c: "call c s = (out, s1)" by fastforce
  with Cons.IH [of s1] returns_logged [of c s] failure_silent [OF c] show ?case
    by (cases out) (auto simp: split_beta)
qed simp

end

section \<open>Sorting\<close>

text \<open>
  Python's \<open>sorted(xs, key=f)\<close> is stable. \<open>sort_key\<close> of the HOL library is the stable
  insertion sort, so it returns the same list.
\<close>

abbreviation py_sorted :: "('a \<Rightarrow> 'b::linorder) \<Rightarrow> 'a list \<Rightarrow> 'a list" where
  "py_sorted f xs \<equiv> sort_key f xs"

lemma sort_key_idem [simp]: "sort_key f (sort_key f xs) = sort_key f xs"
  by (rule sort_key_id_if_sorted) simp

lemma sort_key_stable_filter:
  "filter P (sort_key f xs) = sort_key f (filter P xs)"
  by (simp add: filter_sort)

section \<open>Lists\<close>

lemma concat_map_if_eq_filter: "concat (map (\<lambda>x. if P x then [x] else []) xs) = filter P xs"
  by (induction xs) auto

lemma set_dropWhileD2: "x \<in> set (dropWhile P xs) \<Longrightarrow> x \<in> set xs"
  by (rule set_dropWhileD)

end
