(* ===== verification/Py_Str.thy ===== *)
theory Py_Str
  imports Prelude
begin

text \<open>
  The string operations of Python that the program uses, on \<open>string\<close> (a list of
  characters). A Python \<open>str\<close> is a sequence of code points; the model keeps the code
  points below 256 (\<open>char\<close>), and whitespace, case and letter tests follow Unicode there
  (Latin-1). Slices, \<open>strip\<close>, \<open>split\<close>, \<open>replace\<close>, \<open>join\<close> and decimal printing are the
  definitions Python documents; the lemmas are the laws the components use.
\<close>

section \<open>Characters\<close>

definition code :: "char \<Rightarrow> nat" where
  "code c = of_char c"

text \<open>\<open>str.isspace\<close> of one character.\<close>

definition is_space :: "char \<Rightarrow> bool" where
  "is_space c = (let n = code c in (9 \<le> n \<and> n \<le> 13) \<or> (28 \<le> n \<and> n \<le> 32) \<or> n = 133 \<or> n = 160)"

text \<open>\<open>str.isalpha\<close> of one character.\<close>

definition is_alpha :: "char \<Rightarrow> bool" where
  "is_alpha c = (let n = code c in
     (65 \<le> n \<and> n \<le> 90) \<or> (97 \<le> n \<and> n \<le> 122) \<or> n = 170 \<or> n = 181 \<or> n = 186 \<or>
     (192 \<le> n \<and> n \<noteq> 215 \<and> n \<noteq> 247))"

definition is_digit :: "char \<Rightarrow> bool" where
  "is_digit c = (48 \<le> code c \<and> code c \<le> 57)"

text \<open>\<open>str.lower\<close> of one character.\<close>

definition lower_char :: "char \<Rightarrow> char" where
  "lower_char c = (let n = code c in
     if (65 \<le> n \<and> n \<le> 90) \<or> (192 \<le> n \<and> n \<le> 222 \<and> n \<noteq> 215) then char_of (n + 32) else c)"

definition lower :: "string \<Rightarrow> string" where
  "lower s = map lower_char s"

abbreviation nl :: char where
  "nl \<equiv> CHR 0x0A"

text \<open>\<open>str.upper\<close>; the two letters whose capital lies above 255 are kept.\<close>

definition upper_char :: "char \<Rightarrow> string" where
  "upper_char c = (let n = code c in
     if n = 223 then ''SS''
     else if (97 \<le> n \<and> n \<le> 122) \<or> (224 \<le> n \<and> n \<le> 254 \<and> n \<noteq> 247) then [char_of (n - 32)] else [c])"

definition upper :: "string \<Rightarrow> string" where
  "upper s = concat (map upper_char s)"

lemma code_lt: "code c < 256"
  by (simp add: code_def)

lemma code_char_of [simp]: "n < 256 \<Longrightarrow> code (char_of n) = n"
  by (simp add: code_def)

lemma code_inj: "code c = code d \<longleftrightarrow> c = d"
  by (simp add: code_def)

lemma lower_char_idem [simp]: "lower_char (lower_char c) = lower_char c"
proof -
  have "code c < 256" by (rule code_lt)
  then show ?thesis by (auto simp: lower_char_def Let_def)
qed

lemma lower_idem [simp]: "lower (lower s) = lower s"
  by (simp add: lower_def comp_def)

lemma length_lower [simp]: "length (lower s) = length s"
  by (simp add: lower_def)

lemma is_space_lower_char [simp]: "is_space (lower_char c) = is_space c"
proof -
  have "code c < 256" by (rule code_lt)
  then show ?thesis by (auto simp: lower_char_def is_space_def Let_def)
qed

section \<open>Stripping\<close>

definition lstrip :: "string \<Rightarrow> string" where
  "lstrip s = dropWhile is_space s"

definition rstrip :: "string \<Rightarrow> string" where
  "rstrip s = rev (dropWhile is_space (rev s))"

definition strip :: "string \<Rightarrow> string" where
  "strip s = rstrip (lstrip s)"

text \<open>\<open>s.lstrip(c)\<close> and \<open>s.rstrip(c)\<close> for a single character.\<close>

definition lstrip_char :: "char \<Rightarrow> string \<Rightarrow> string" where
  "lstrip_char c s = dropWhile ((=) c) s"

definition rstrip_char :: "char \<Rightarrow> string \<Rightarrow> string" where
  "rstrip_char c s = rev (dropWhile ((=) c) (rev s))"

lemmas strip_defs = lstrip_def rstrip_def strip_def

lemma length_lstrip_le: "length (lstrip s) \<le> length s"
  by (simp add: lstrip_def length_dropWhile_le)

lemma length_rstrip_le: "length (rstrip s) \<le> length s"
  using length_dropWhile_le [of is_space "rev s"] by (simp add: rstrip_def)

lemma length_strip_le: "length (strip s) \<le> length s"
  using length_rstrip_le [of "lstrip s"] length_lstrip_le [of s] by (simp add: strip_def)

lemma rstrip_eq_prefix: "\<exists>ws. s = rstrip s @ ws \<and> (\<forall>c \<in> set ws. is_space c)"
proof -
  have "rev s = takeWhile is_space (rev s) @ dropWhile is_space (rev s)" by simp
  then have "s = rstrip s @ rev (takeWhile is_space (rev s))"
    by (metis rev_append rev_rev_ident rstrip_def)
  moreover have "\<forall>c \<in> set (rev (takeWhile is_space (rev s))). is_space c"
    by (auto dest: set_takeWhileD)
  ultimately show ?thesis by blast
qed

lemma rstrip_last: "rstrip s \<noteq> [] \<Longrightarrow> \<not> is_space (last (rstrip s))"
  using hd_dropWhile [of is_space "rev s"] by (simp add: rstrip_def last_rev)

lemma hd_append_eq: "xs \<noteq> [] \<Longrightarrow> hd (xs @ ys) = hd xs"
  by simp

lemma strip_hd: "strip s \<noteq> [] \<Longrightarrow> \<not> is_space (hd (strip s))"
proof -
  assume ne: "strip s \<noteq> []"
  obtain ws where ws: "lstrip s = strip s @ ws"
    using rstrip_eq_prefix [of "lstrip s"] by (auto simp: strip_def)
  with ne have "lstrip s \<noteq> []" and "hd (lstrip s) = hd (strip s)" by (metis append_is_Nil_conv, metis hd_append2)
  then show ?thesis using hd_dropWhile [of is_space s] by (simp add: lstrip_def)
qed

lemma strip_last: "strip s \<noteq> [] \<Longrightarrow> \<not> is_space (last (strip s))"
  by (simp add: strip_def rstrip_last)

lemma rstrip_id: "s = [] \<or> \<not> is_space (last s) \<Longrightarrow> rstrip s = s"
  by (cases s rule: rev_cases) (auto simp: rstrip_def)

lemma lstrip_id: "s = [] \<or> \<not> is_space (hd s) \<Longrightarrow> lstrip s = s"
  by (cases s) (auto simp: lstrip_def)

lemma strip_idem [simp]: "strip (strip s) = strip s"
proof (cases "strip s = []")
  case True
  then show ?thesis by (simp only: True) (simp add: strip_defs)
next
  case False
  then have "lstrip (strip s) = strip s" by (intro lstrip_id) (simp add: strip_hd)
  moreover have "rstrip (strip s) = strip s" using False by (intro rstrip_id) (simp add: strip_last)
  ultimately show ?thesis by (simp add: strip_def)
qed

lemma lstrip_lower: "lstrip (lower s) = lower (lstrip s)"
  by (induction s) (auto simp: lstrip_def lower_def)

lemma rstrip_lower: "rstrip (lower s) = lower (rstrip s)"
  using lstrip_lower [of "rev s"] by (simp add: rstrip_def lstrip_def lower_def rev_map)

lemma strip_lower: "strip (lower s) = lower (strip s)"
  by (simp add: strip_def lstrip_lower rstrip_lower)

section \<open>Searching and replacing\<close>

text \<open>\<open>sub in s\<close>.\<close>

fun contains :: "string \<Rightarrow> string \<Rightarrow> bool" where
  "contains sub [] = (sub = [])"
| "contains sub (c # cs) = (prefix sub (c # cs) \<or> contains sub cs)"

lemma contains_iff: "contains sub s \<longleftrightarrow> (\<exists>us vs. s = us @ sub @ vs)"
proof (induction s)
  case Nil
  then show ?case by auto
next
  case (Cons c cs)
  show ?case
  proof
    assume "contains sub (c # cs)"
    then consider "prefix sub (c # cs)" | "contains sub cs" by auto
    then show "\<exists>us vs. c # cs = us @ sub @ vs"
    proof cases
      case 1
      then show ?thesis by (metis append_Nil prefix_def)
    next
      case 2
      then show ?thesis using Cons.IH by (metis append_Cons)
    qed
  next
    assume "\<exists>us vs. c # cs = us @ sub @ vs"
    then obtain us vs where eq: "c # cs = us @ sub @ vs" by blast
    then show "contains sub (c # cs)"
    proof (cases us)
      case Nil
      with eq have "prefix sub (c # cs)" by (simp add: prefix_def)
      then show ?thesis by simp
    next
      case (Cons a us')
      with eq have "cs = us' @ sub @ vs" by simp
      then show ?thesis using Cons.IH by (simp only: contains.simps) blast
    qed
  qed
qed

lemma contains_append: "contains sub s \<Longrightarrow> contains sub (s @ t)"
  by (metis append.assoc contains_iff)

lemma contains_appendr: "contains sub s \<Longrightarrow> contains sub (t @ s)"
  by (metis append.assoc contains_iff)

lemma contains_refl [simp]: "contains s s"
  by (metis append_Nil append_Nil2 contains_iff)

text \<open>\<open>s.replace(old, new)\<close>: leftmost, non-overlapping.\<close>

function replace_from :: "string \<Rightarrow> string \<Rightarrow> string \<Rightarrow> string" where
  "replace_from old new [] = []"
| "replace_from old new (c # cs) =
     (if old \<noteq> [] \<and> prefix old (c # cs)
      then new @ replace_from old new (drop (length old) (c # cs))
      else c # replace_from old new cs)"
  by pat_completeness auto
termination
  by (relation "measure (\<lambda>(old, new, s). length s)") auto

definition replace :: "string \<Rightarrow> string \<Rightarrow> string \<Rightarrow> string" where
  "replace old new s =
     (if old = [] then new @ concat (map (\<lambda>c. c # new) s) else replace_from old new s)"

lemma replace_from_id: "\<not> contains old s \<Longrightarrow> replace_from old new s = s"
  by (induction old new s rule: replace_from.induct) auto

lemma replace_id: "\<not> contains old s \<Longrightarrow> old \<noteq> [] \<Longrightarrow> replace old new s = s"
  by (simp add: replace_def replace_from_id)

text \<open>Replacing one character by another is a map.\<close>

lemma replace_char_concat: "replace [a] new s = concat (map (\<lambda>c. if c = a then new else [c]) s)"
proof -
  have "replace_from [a] new s = concat (map (\<lambda>c. if c = a then new else [c]) s)"
    by (induction s) auto
  then show ?thesis by (simp add: replace_def)
qed

lemma replace_char_map: "replace [a] [b] s = map (\<lambda>c. if c = a then b else c) s"
proof -
  have "replace_from [a] [b] s = map (\<lambda>c. if c = a then b else c) s"
    by (induction s) auto
  then show ?thesis by (simp add: replace_def)
qed

section \<open>Splitting and joining\<close>

text \<open>\<open>s.split(sep, 1)\<close>: the parts before and after the first separator, if there is one.\<close>

fun split_once :: "string \<Rightarrow> string \<Rightarrow> (string \<times> string) option" where
  "split_once sep [] = None"
| "split_once sep (c # cs) =
     (if prefix sep (c # cs) then Some ([], drop (length sep) (c # cs))
      else map_option (\<lambda>(a, b). (c # a, b)) (split_once sep cs))"

lemma split_once_Some: "split_once sep s = Some (a, b) \<Longrightarrow> s = a @ sep @ b"
proof (induction s arbitrary: a)
  case Nil
  then show ?case by simp
next
  case (Cons c cs)
  show ?case
  proof (cases "prefix sep (c # cs)")
    case True
    with Cons.prems show ?thesis by (auto simp: prefix_def)
  next
    case False
    with Cons.prems obtain a' where "split_once sep cs = Some (a', b)" and "a = c # a'" by auto
    with Cons.IH show ?thesis by simp
  qed
qed

lemma split_once_None: "sep \<noteq> [] \<Longrightarrow> split_once sep s = None \<longleftrightarrow> \<not> contains sep s"
  by (induction s) auto

text \<open>\<open>s.split()\<close>: maximal runs of non-whitespace.\<close>

function split_ws :: "string \<Rightarrow> string list" where
  "split_ws s = (case lstrip s of
       [] \<Rightarrow> []
     | c # cs \<Rightarrow> takeWhile (\<lambda>x. \<not> is_space x) (c # cs)
                 # split_ws (dropWhile (\<lambda>x. \<not> is_space x) (c # cs)))"
  by pat_completeness auto
termination
proof (relation "measure length")
  fix s c cs
  assume eq: "lstrip s = c # cs"
  then have "\<not> is_space c" using hd_dropWhile [of is_space s] by (simp add: lstrip_def)
  then have "length (dropWhile (\<lambda>x. \<not> is_space x) (c # cs)) \<le> length cs"
    by (simp add: length_dropWhile_le)
  also have "length cs < length s" using length_lstrip_le [of s] eq by simp
  finally show "(dropWhile (\<lambda>x. \<not> is_space x) (c # cs), s) \<in> measure length" by simp
qed simp

declare split_ws.simps [simp del]

text \<open>\<open>sep.join(xs)\<close>.\<close>

fun join :: "string \<Rightarrow> string list \<Rightarrow> string" where
  "join sep [] = []"
| "join sep [x] = x"
| "join sep (x # y # xs) = x @ sep @ join sep (y # xs)"

text \<open>\<open>s.split(c)\<close> for a one-character separator.\<close>

fun split_char :: "char \<Rightarrow> string \<Rightarrow> string list" where
  "split_char c [] = [[]]"
| "split_char c (x # xs) =
     (if x = c then [] # split_char c xs
      else (case split_char c xs of [] \<Rightarrow> [[x]] | y # ys \<Rightarrow> (x # y) # ys))"

lemma split_char_ne [simp]: "split_char c s \<noteq> []"
  by (induction s) (auto split: list.splits)

lemma split_char_no: "c \<notin> set s \<Longrightarrow> split_char c s = [s]"
  by (induction s) auto

lemma split_char_append: "c \<notin> set s \<Longrightarrow> split_char c (s @ c # t) = s # split_char c t"
  by (induction s) auto

text \<open>Splitting what was joined gives the parts back, when no part contains the separator.\<close>

lemma split_join:
  "xs \<noteq> [] \<Longrightarrow> \<forall>x \<in> set xs. c \<notin> set x \<Longrightarrow> split_char c (join [c] xs) = xs"
  by (induction "[c]" xs rule: join.induct) (auto simp: split_char_no split_char_append)

lemma join_split: "join [c] (split_char c s) = s"
proof (induction s)
  case Nil
  then show ?case by simp
next
  case (Cons x xs)
  show ?case
  proof (cases "split_char c xs")
    case Nil
    then show ?thesis by simp
  next
    case (Cons y ys)
    with Cons.IH show ?thesis by (cases ys) auto
  qed
qed

lemma split_char_parts: "p \<in> set (split_char c s) \<Longrightarrow> c \<notin> set p"
proof (induction s arbitrary: p)
  case Nil
  then show ?case by simp
next
  case (Cons x xs)
  then show ?case by (cases "split_char c xs") (auto split: if_splits)
qed

lemma join_append:
  "xs \<noteq> [] \<Longrightarrow> ys \<noteq> [] \<Longrightarrow> join sep (xs @ ys) = join sep xs @ sep @ join sep ys"
proof (induction sep xs rule: join.induct)
  case (2 sep x)
  then show ?case by (cases ys) auto
qed auto

lemma set_join: "set (join sep xs) \<subseteq> set sep \<union> \<Union> (set ` set xs)"
  by (induction sep xs rule: join.induct) auto

section \<open>Slices\<close>

text \<open>\<open>s[-n:]\<close>: the last \<open>n\<close> characters; for \<open>n = 0\<close> this is \<open>s[0:]\<close>, the whole string.\<close>

definition last_slice :: "nat \<Rightarrow> 'a list \<Rightarrow> 'a list" where
  "last_slice n s = (if n = 0 then s else drop (length s - n) s)"

lemma length_last_slice: "0 < n \<Longrightarrow> length (last_slice n s) = min n (length s)"
  by (simp add: last_slice_def)

section \<open>Decimal printing\<close>

fun nat_str :: "nat \<Rightarrow> string" where
  "nat_str n = (if n < 10 then [char_of (48 + n)] else nat_str (n div 10) @ [char_of (48 + n mod 10)])"

declare nat_str.simps [simp del]

definition int_str :: "int \<Rightarrow> string" where
  "int_str i = (if i < 0 then ''-'' @ nat_str (nat (- i)) else nat_str (nat i))"

lemma nat_str_ne [simp]: "nat_str n \<noteq> []"
  by (subst nat_str.simps) auto

lemma nat_str_digits: "c \<in> set (nat_str n) \<Longrightarrow> is_digit c"
proof (induction n arbitrary: c rule: nat_str.induct)
  case (1 n)
  show ?case
  proof (cases "n < 10")
    case True
    with "1.prems" show ?thesis by (auto simp: nat_str.simps [of n] is_digit_def)
  next
    case False
    with "1.prems" consider "c \<in> set (nat_str (n div 10))" | "c = char_of (48 + n mod 10)"
      by (auto simp: nat_str.simps [of n])
    then show ?thesis
    proof cases
      case 1
      with "1.IH" False show ?thesis by blast
    next
      case 2
      then show ?thesis by (auto simp: is_digit_def)
    qed
  qed
qed

text \<open>Reading the decimal digits back.\<close>

definition digits_val :: "string \<Rightarrow> nat" where
  "digits_val s = foldl (\<lambda>a c. 10 * a + (code c - 48)) 0 s"

lemma digits_val_nat_str: "digits_val (nat_str n) = n"
proof (induction n rule: nat_str.induct)
  case (1 n)
  show ?case
  proof (cases "n < 10")
    case True
    then show ?thesis by (simp add: nat_str.simps [of n] digits_val_def)
  next
    case False
    with "1.IH" show ?thesis by (simp add: nat_str.simps [of n] digits_val_def)
  qed
qed

lemma nat_str_inj [simp]: "nat_str m = nat_str n \<longleftrightarrow> m = n"
  by (metis digits_val_nat_str)

lemma int_str_inj: "int_str i = int_str j \<longleftrightarrow> i = j"
proof -
  have no_minus: "nat_str n \<noteq> CHR ''-'' # t" for n t
    using nat_str_digits [of "CHR ''-''" n] by (auto simp: is_digit_def code_def)
  show ?thesis
    using no_minus no_minus [symmetric] by (auto simp: int_str_def)
qed

section \<open>Replacing as splitting and joining\<close>

lemma contains_sep:
  assumes "c \<notin> set s" and "s \<noteq> []" and "contains s (x @ c # y)"
  shows "contains s x \<or> contains s y"
proof -
  obtain u v where e: "x @ c # y = u @ s @ v" using assms(3) by (auto simp: contains_iff)
  from e consider w where "x = u @ w" "w @ c # y = s @ v" | w where "u = x @ w" "c # y = w @ s @ v"
    by (auto simp: append_eq_append_conv2)
  then show ?thesis
  proof cases
    case 1
    from 1(2) consider z where "w = s @ z" | z where "s = w @ z" "c # y = z @ v"
      by (auto simp: append_eq_append_conv2)
    then show ?thesis
    proof cases
      case (1 z)
      with \<open>x = u @ w\<close> show ?thesis by (auto simp: contains_iff)
    next
      case (2 z)
      then have "z = []" using assms(1) by (cases z) auto
      with 2 \<open>x = u @ w\<close> show ?thesis using contains_appendr [of s s u] by simp
    qed
  next
    case 2
    then obtain w' where "w = c # w'" "y = w' @ s @ v"
      using assms(1,2) by (cases w) (auto simp: Cons_eq_append_conv)
    then show ?thesis by (auto simp: contains_iff)
  qed
qed

text \<open>The pieces of a text between the occurrences of another.\<close>

function split_by :: "string \<Rightarrow> string \<Rightarrow> string list" where
  "split_by old [] = [[]]"
| "split_by old (c # cs) =
     (if old \<noteq> [] \<and> prefix old (c # cs) then [] # split_by old (drop (length old) (c # cs))
      else (case split_by old cs of [] \<Rightarrow> [[c]] | p # ps \<Rightarrow> (c # p) # ps))"
  by pat_completeness auto
termination
  by (relation "measure (\<lambda>(old, s). length s)") auto

lemma split_by_ne [simp]: "split_by old s \<noteq> []"
  by (cases "(old, s)" rule: split_by.cases) (auto split: list.splits)

lemma join_Cons: "ps \<noteq> [] \<Longrightarrow> join sep (p # ps) = p @ sep @ join sep ps"
  by (cases ps) simp_all

lemma join_Cons_hd: "join sep ((c # p) # ps) = c # join sep (p # ps)"
  by (cases ps) simp_all

lemma replace_from_join: "replace_from old new s = join new (split_by old s)"
proof (induction old new s rule: replace_from.induct)
  case (2 old new c cs)
  then show ?case
    by (cases "split_by old cs") (auto simp: join_Cons join_Cons_hd)
qed simp

lemma split_by_hd: "prefix (hd (split_by old s)) s"
  by (induction old s rule: split_by.induct) (auto split: list.splits)

lemma split_by_sub: "p \<in> set (split_by old s) \<Longrightarrow> contains x p \<Longrightarrow> contains x s"
proof (induction old s arbitrary: p rule: split_by.induct)
  case (2 old c cs)
  show ?case
  proof (cases "old \<noteq> [] \<and> prefix old (c # cs)")
    case True
    then obtain z where z: "c # cs = old @ z" by (auto simp: prefix_def)
    from 2 True consider "p = []" | "p \<in> set (split_by old (drop (length old) (c # cs)))" by auto
    then show ?thesis
    proof cases
      case 1
      with 2(4) show ?thesis by simp
    next
      case 2
      with "2.IH"(1) True \<open>contains x p\<close> have "contains x (drop (length old) (c # cs))" by blast
      then show ?thesis using z contains_appendr by simp
    qed
  next
    case False
    obtain q qs where q: "split_by old cs = q # qs" by (cases "split_by old cs") auto
    from 2 False q consider "p = c # q" | "p \<in> set (split_by old cs)" by auto
    then show ?thesis
    proof cases
      case 1
      have "prefix q cs" using split_by_hd [of old cs] q by simp
      with 1 \<open>contains x p\<close> show ?thesis by (metis contains_append append_Cons prefix_def)
    next
      case 2
      with "2.IH"(2) False \<open>contains x p\<close> have "contains x cs" by blast
      then show ?thesis using contains_appendr [of x cs "[c]"] by simp
    qed
  qed
qed simp

lemma split_by_free: "old \<noteq> [] \<Longrightarrow> p \<in> set (split_by old s) \<Longrightarrow> \<not> contains old p"
proof (induction old s arbitrary: p rule: split_by.induct)
  case (2 old c cs)
  obtain q qs where q: "split_by old cs = q # qs" by (cases "split_by old cs") auto
  have pq: "prefix q cs" using split_by_hd [of old cs] q by simp
  show ?case
  proof (cases "prefix old (c # cs)")
    case True
    with 2 show ?thesis by auto
  next
    case False
    with 2 q consider "p = c # q" | "p \<in> set (split_by old cs)" by auto
    then show ?thesis
    proof cases
      case 1
      have "\<not> prefix old (c # q)" using False pq by (metis append_Cons prefix_def prefix_order.trans)
      moreover have "\<not> contains old q" using 2 False q by simp
      ultimately show ?thesis using 1 by simp
    qed (use 2 False in auto)
  qed
qed auto

end
