(* ===== verification/Py_Float.thy ===== *)
theory Py_Float
  imports Complex_Main Prelude "HOL-Library.Log_Nat"
begin

text \<open>
  Python floats. A finite float is the rational number it denotes, and every operation is the
  exact result rounded to 53 significant bits, ties to even (\<open>fl\<close>), as IEEE 754 binary64
  requires. The exponent range is unbounded here, so overflow to infinity, subnormals and NaN
  are outside the model. \<open>round_he\<close> rounds to an integer, ties to even, and \<open>py_round\<close> is
  \<open>round(x, n)\<close>: the float nearest to the correctly rounded decimal.

  The locale \<open>rounding\<close> is the contract the components use: rounding is monotone, keeps zero
  and one, and keeps the sign. It is interpreted on \<open>fl\<close>.
\<close>

section \<open>Rounding to integers\<close>

definition round_he :: "rat \<Rightarrow> int" where
  "round_he x = (let f = \<lfloor>x\<rfloor>; d = x - of_int f in
     if d < 1/2 then f else if 1/2 < d then f + 1 else if even f then f else f + 1)"

lemma round_he_bounds: "of_int (round_he x) \<le> x + 1/2" "x - 1/2 \<le> of_int (round_he x)"
proof -
  have f: "of_int \<lfloor>x\<rfloor> \<le> x" "x < of_int \<lfloor>x\<rfloor> + 1" by linarith+
  then have "of_int (round_he x) \<le> x + 1/2 \<and> x - 1/2 \<le> of_int (round_he x)"
    unfolding round_he_def Let_def by (simp split: if_split) linarith
  then show "of_int (round_he x) \<le> x + 1/2" "x - 1/2 \<le> of_int (round_he x)" by simp_all
qed

lemma round_he_cases: "round_he x = \<lfloor>x\<rfloor> \<or> round_he x = \<lfloor>x\<rfloor> + 1"
  by (auto simp: round_he_def Let_def)

lemma round_he_of_int [simp]: "round_he (of_int n) = n"
  by (simp add: round_he_def)

lemma round_he_mono: "x \<le> y \<Longrightarrow> round_he x \<le> round_he y"
proof -
  assume xy: "x \<le> y"
  then have fl: "\<lfloor>x\<rfloor> \<le> \<lfloor>y\<rfloor>" by (rule floor_mono)
  show ?thesis
  proof (cases "\<lfloor>x\<rfloor> = \<lfloor>y\<rfloor>")
    case True
    with xy show ?thesis by (auto simp: round_he_def Let_def)
  next
    case False
    with fl have "\<lfloor>x\<rfloor> + 1 \<le> \<lfloor>y\<rfloor>" by simp
    with round_he_cases [of x] round_he_cases [of y] show ?thesis by linarith
  qed
qed

lemma round_he_near:
  assumes "\<bar>x - of_int n\<bar> < 1/2"
  shows "round_he x = n"
proof -
  have "of_int (round_he x) < (of_int n + 1 :: rat)" "(of_int n - 1 :: rat) < of_int (round_he x)"
    using round_he_bounds [of x] assms unfolding abs_less_iff by linarith+
  then have "round_he x < n + 1" "n - 1 < round_he x" by linarith+
  then show ?thesis by simp
qed

lemma round_he_tie_even:
  assumes "x = of_int n - 1/2" and "even n"
  shows "round_he x = n"
proof -
  have "\<lfloor>x\<rfloor> = n - 1" using assms(1) by (simp add: floor_unique)
  with assms show ?thesis by (simp add: round_he_def)
qed

section \<open>Powers of two and binary exponents\<close>

definition pow2 :: "int \<Rightarrow> rat" where
  "pow2 e = (if 0 \<le> e then 2 ^ nat e else 1 / 2 ^ nat (- e))"

lemma pow2_powi: "pow2 e = 2 powi e"
  unfolding pow2_def power_int_def by (auto simp: power_one_over inverse_eq_divide)

lemma pow2_pos [simp]: "0 < pow2 e"
  by (simp add: pow2_def)

lemma pow2_nonneg [simp]: "0 \<le> pow2 e"
  by (rule less_imp_le) simp

lemma pow2_ne_0 [simp]: "pow2 e \<noteq> 0"
  using pow2_pos [of e] by linarith

lemma pow2_not_neg [simp]: "\<not> pow2 e < 0"
  by (simp add: not_less)

lemma pow2_add: "pow2 (a + b) = pow2 a * pow2 b"
  by (simp add: pow2_powi power_int_add)

lemma pow2_diff: "pow2 (a - b) = pow2 a / pow2 b"
  by (simp add: pow2_powi power_int_diff)

lemma pow2_0 [simp]: "pow2 0 = 1"
  by (simp add: pow2_def)

lemma pow2_mono: "a \<le> b \<Longrightarrow> pow2 a \<le> pow2 b"
  by (simp add: pow2_powi power_int_increasing)

lemma pow2_less_cancel: "pow2 a < pow2 b \<Longrightarrow> a < b"
  using pow2_mono [of b a] by linarith

text \<open>The exponent \<open>e\<close> with \<open>2^e \<le> x < 2^(e+1)\<close>, for positive \<open>x\<close>.\<close>

definition ilog2 :: "rat \<Rightarrow> int" where
  "ilog2 x = (let (a, b) = quotient_of x; e = bitlen a - bitlen b in
     if pow2 e \<le> x then e else e - 1)"

lemma bitlen_pow2:
  assumes "0 < a"
  shows "pow2 (bitlen a - 1) \<le> of_int a" and "of_int a < pow2 (bitlen a)"
proof -
  have len: "0 < bitlen a" using assms bitlen_eq_zero_iff bitlen_nonneg by (metis less_le not_le)
  from bitlen_bounds [OF assms] have *: "2 ^ nat (bitlen a - 1) \<le> a" "a < 2 ^ nat (bitlen a)"
    by auto
  from *(1) have "(of_int (2 ^ nat (bitlen a - 1)) :: rat) \<le> of_int a" by (simp only: of_int_le_iff)
  then show "pow2 (bitlen a - 1) \<le> of_int a" using len by (simp add: pow2_def)
  from *(2) have "of_int a < (of_int (2 ^ nat (bitlen a)) :: rat)" by (simp only: of_int_less_iff)
  then show "of_int a < pow2 (bitlen a)" using len by (simp add: pow2_def)
qed

lemma ilog2_bounds:
  assumes "0 < x"
  shows "pow2 (ilog2 x) \<le> x" and "x < pow2 (ilog2 x + 1)"
proof -
  obtain a b where q: "quotient_of x = (a, b)" by (cases "quotient_of x")
  have b: "0 < b" using q by (rule quotient_of_denom_pos)
  have x: "x = of_int a / of_int b" using q by (rule quotient_of_div)
  with assms b have a: "0 < a" by (simp add: zero_less_divide_iff)
  let ?e = "bitlen a - bitlen b"
  have "x * pow2 (bitlen b - 1) \<le> x * of_int b"
    using bitlen_pow2(1) [OF b] assms by (intro mult_left_mono) auto
  also have "\<dots> = of_int a" using x b by simp
  also have "\<dots> < pow2 (bitlen a)" by (rule bitlen_pow2(2) [OF a])
  also have "\<dots> = pow2 (?e + 1) * pow2 (bitlen b - 1)" by (simp flip: pow2_add)
  finally have up: "x < pow2 (?e + 1)" by simp
  have "pow2 (?e - 1) * of_int b \<le> pow2 (?e - 1) * pow2 (bitlen b)"
    using bitlen_pow2(2) [OF b] by (intro mult_left_mono) auto
  also have "\<dots> = pow2 (bitlen a - 1)" by (simp flip: pow2_add)
  also have "\<dots> \<le> of_int a" by (rule bitlen_pow2(1) [OF a])
  also have "\<dots> = x * of_int b" using x b by simp
  finally have lo: "pow2 (?e - 1) \<le> x" using b by simp
  show "pow2 (ilog2 x) \<le> x" "x < pow2 (ilog2 x + 1)"
    using up lo by (auto simp: ilog2_def q not_le Let_def)
qed

lemma ilog2_unique:
  assumes "pow2 e \<le> x" and "x < pow2 (e + 1)"
  shows "ilog2 x = e"
proof -
  have x: "0 < x" using assms(1) pow2_pos [of e] by linarith
  from ilog2_bounds [OF x] assms have "pow2 (ilog2 x) < pow2 (e + 1)" "pow2 e < pow2 (ilog2 x + 1)"
    by linarith+
  then have "ilog2 x < e + 1" "e < ilog2 x + 1" by (blast intro: pow2_less_cancel)+
  then show ?thesis by simp
qed

lemma ilog2_mono: "0 < x \<Longrightarrow> x \<le> y \<Longrightarrow> ilog2 x \<le> ilog2 y"
proof -
  assume "0 < x" "x \<le> y"
  with ilog2_bounds [of x] ilog2_bounds [of y] have "pow2 (ilog2 x) < pow2 (ilog2 y + 1)" by linarith
  then have "ilog2 x < ilog2 y + 1" by (rule pow2_less_cancel)
  then show ?thesis by simp
qed

section \<open>Rounding to binary64\<close>

text \<open>\<open>ulp x\<close> is the spacing of the 53-bit numbers in the binade of \<open>x\<close>.\<close>

definition ulp :: "rat \<Rightarrow> rat" where
  "ulp x = pow2 (ilog2 x - 52)"

definition flp :: "rat \<Rightarrow> rat" where
  "flp x = of_int (round_he (x / ulp x)) * ulp x"

definition fl :: "rat \<Rightarrow> rat" where
  "fl x = (if x = 0 then 0 else if x < 0 then - flp (- x) else flp x)"

lemma ulp_pos [simp]: "0 < ulp x"
  by (simp add: ulp_def)

lemma flp_ge_binade: "0 < x \<Longrightarrow> pow2 (ilog2 x) \<le> flp x"
proof -
  assume x: "0 < x"
  have "pow2 (ilog2 x) / ulp x = of_int (2 ^ 52)"
    by (simp add: ulp_def pow2_diff) (simp add: pow2_def)
  moreover have "pow2 (ilog2 x) / ulp x \<le> x / ulp x"
    using ilog2_bounds(1) [OF x] by (simp add: divide_right_mono less_imp_le)
  ultimately have "round_he (of_int (2 ^ 52)) \<le> round_he (x / ulp x)"
    by (metis round_he_mono)
  then have "(2 ^ 52 :: int) \<le> round_he (x / ulp x)" by (simp only: round_he_of_int)
  then have "(of_int (2 ^ 52) :: rat) * ulp x \<le> flp x"
    unfolding flp_def by (intro mult_right_mono) (simp_all only: of_int_le_iff less_imp_le [OF ulp_pos])
  moreover have "(of_int (2 ^ 52) :: rat) * ulp x = pow2 (ilog2 x)"
    by (simp add: ulp_def pow2_diff) (simp add: pow2_def)
  ultimately show ?thesis by simp
qed

lemma flp_le_binade: "0 < x \<Longrightarrow> flp x \<le> pow2 (ilog2 x + 1)"
proof -
  assume x: "0 < x"
  have "pow2 (ilog2 x + 1) / ulp x = of_int (2 ^ 53)"
    by (simp add: ulp_def pow2_diff pow2_add) (simp add: pow2_def)
  moreover have "x / ulp x \<le> pow2 (ilog2 x + 1) / ulp x"
    using ilog2_bounds(2) [OF x] by (simp add: divide_right_mono less_imp_le)
  ultimately have "round_he (x / ulp x) \<le> round_he (of_int (2 ^ 53))"
    by (metis round_he_mono)
  then have "round_he (x / ulp x) \<le> (2 ^ 53 :: int)" by (simp only: round_he_of_int)
  then have "flp x \<le> (of_int (2 ^ 53) :: rat) * ulp x"
    unfolding flp_def by (intro mult_right_mono) (simp_all only: of_int_le_iff less_imp_le [OF ulp_pos])
  moreover have "(of_int (2 ^ 53) :: rat) * ulp x = pow2 (ilog2 x + 1)"
    by (simp add: ulp_def pow2_diff pow2_add) (simp add: pow2_def)
  ultimately show ?thesis by simp
qed

lemma flp_pos: "0 < x \<Longrightarrow> 0 < flp x"
  using flp_ge_binade [of x] pow2_pos [of "ilog2 x"] by linarith

lemma flp_mono: "0 < x \<Longrightarrow> x \<le> y \<Longrightarrow> flp x \<le> flp y"
proof -
  assume x: "0 < x" and xy: "x \<le> y"
  then have y: "0 < y" by simp
  have le: "ilog2 x \<le> ilog2 y" using x xy by (rule ilog2_mono)
  show ?thesis
  proof (cases "ilog2 x = ilog2 y")
    case True
    then have u: "ulp x = ulp y" by (simp add: ulp_def)
    have "x / ulp y \<le> y / ulp y" using xy by (simp add: divide_right_mono less_imp_le)
    then have "round_he (x / ulp y) \<le> round_he (y / ulp y)" by (rule round_he_mono)
    with u show ?thesis
      unfolding flp_def by (auto intro!: mult_right_mono simp: less_imp_le)
  next
    case False
    with le have "ilog2 x + 1 \<le> ilog2 y" by simp
    then have "pow2 (ilog2 x + 1) \<le> pow2 (ilog2 y)" by (rule pow2_mono)
    with flp_le_binade [OF x] flp_ge_binade [OF y] show ?thesis by linarith
  qed
qed

theorem fl_mono: "x \<le> y \<Longrightarrow> fl x \<le> fl y"
proof -
  assume xy: "x \<le> y"
  consider "0 < x" | "y < 0" | "x \<le> 0" "0 \<le> y" by linarith
  then show ?thesis
  proof cases
    case 1
    with xy show ?thesis by (simp add: fl_def flp_mono)
  next
    case 2
    with xy have "flp (- y) \<le> flp (- x)" by (intro flp_mono) auto
    with 2 xy show ?thesis by (simp add: fl_def)
  next
    case 3
    have "fl x \<le> 0" using 3 flp_pos [of "- x"] by (auto simp: fl_def)
    moreover have "0 \<le> fl y" using 3 flp_pos [of y] by (auto simp: fl_def)
    ultimately show ?thesis by simp
  qed
qed

lemma fl_0 [simp]: "fl 0 = 0"
  by (simp add: fl_def)

lemma fl_uminus: "fl (- x) = - fl x"
  by (auto simp: fl_def)

text \<open>A number with at most 53 significant bits is kept.\<close>

lemma flp_exact:
  assumes "0 < m" and "m < 2 ^ 53"
  shows "flp (of_int m * pow2 k) = of_int m * pow2 k"
proof -
  let ?x = "of_int m * pow2 k :: rat"
  have x: "0 < ?x" using assms by simp
  have "?x < pow2 (53 + k)"
  proof -
    have "(of_int m :: rat) < of_int (2 ^ 53)" using assms(2) by (simp only: of_int_less_iff)
    then have "?x < of_int (2 ^ 53) * pow2 k" by (intro mult_strict_right_mono) auto
    also have "\<dots> = pow2 (53 + k)" by (simp add: pow2_add) (simp add: pow2_def)
    finally show ?thesis .
  qed
  with ilog2_bounds(1) [OF x] have "pow2 (ilog2 ?x) < pow2 (53 + k)" by linarith
  then have le: "ilog2 ?x - 52 \<le> k" using pow2_less_cancel by fastforce
  define j where "j = nat (k - (ilog2 ?x - 52))"
  have j: "pow2 k = 2 ^ j * ulp ?x"
  proof -
    have "k = int j + (ilog2 ?x - 52)" using le by (simp add: j_def)
    then have "pow2 k = pow2 (int j) * ulp ?x" by (metis pow2_add ulp_def)
    then show ?thesis by (simp add: pow2_def)
  qed
  have "?x = of_int (m * 2 ^ j) * ulp ?x" using j by simp
  then have "?x / ulp ?x = of_int (m * 2 ^ j)"
    by (simp add: nonzero_divide_eq_eq less_imp_neq [symmetric])
  then have "flp ?x = of_int (m * 2 ^ j) * ulp ?x" by (metis flp_def round_he_of_int)
  also have "\<dots> = ?x" using j by simp
  finally show ?thesis .
qed

lemma fl_exact:
  assumes "\<bar>m\<bar> < 2 ^ 53"
  shows "fl (of_int m * pow2 k) = of_int m * pow2 k"
proof -
  consider "m = 0" | "0 < m" | "m < 0" by linarith
  then show ?thesis
  proof cases
    case 2
    with assms show ?thesis by (simp add: fl_def flp_exact mult_less_0_iff)
  next
    case 3
    then have "flp (of_int (- m) * pow2 k) = of_int (- m) * pow2 k"
      using assms by (intro flp_exact) auto
    with 3 show ?thesis by (simp add: fl_def mult_less_0_iff)
  qed simp
qed

lemma fl_of_int: "\<bar>m\<bar> < 2 ^ 53 \<Longrightarrow> fl (of_int m) = of_int m"
  using fl_exact [of m 0] by simp

lemma fl_1 [simp]: "fl 1 = 1"
  using fl_of_int [of 1] by simp

section \<open>Quotients of floats\<close>

lemma float_multiple: "0 < a \<Longrightarrow> fl a = a \<Longrightarrow> \<exists>m. a = of_int m * ulp a"
  by (rule exI [of _ "round_he (a / ulp a)"]) (simp add: fl_def flp_def)

lemma pow2_Suc: "pow2 (e + 1) = 2 * pow2 e"
  by (simp add: pow2_add) (simp add: pow2_def)

lemma grid_gap:
  assumes "0 < u" and "of_int m * u < (of_int n * u :: rat)"
  shows "u \<le> of_int n * u - of_int m * u"
proof -
  from assms have "m < n" by (simp add: mult_less_cancel_right)
  then have "1 \<le> (of_int (n - m) :: rat)" by simp
  then have "1 * u \<le> of_int (n - m) * u" using assms(1) by (intro mult_right_mono) auto
  then show ?thesis by (simp add: algebra_simps)
qed

lemma binade_ulp: "pow2 (ilog2 b) = of_int (2 ^ 52) * ulp b"
  by (simp add: ulp_def pow2_diff) (simp add: pow2_def)

text \<open>Two floats below one another are at least \<open>2^-53\<close> apart, relative to the larger.\<close>

lemma float_gap:
  assumes a: "0 < a" "fl a = a" and b: "fl b = b" and ab: "a < b"
  shows "b / 2 ^ 53 \<le> b - a"
proof -
  have b0: "0 < b" using a ab by simp
  obtain m where m: "a = of_int m * ulp a" using float_multiple a by blast
  obtain n where n: "b = of_int n * ulp b" using float_multiple b0 b by blast
  have top: "b < 2 ^ 53 * ulp b"
    using ilog2_bounds(2) [OF b0] binade_ulp [of b] by (simp add: pow2_add) (simp add: pow2_def)
  have le: "ilog2 a \<le> ilog2 b" using a ab by (intro ilog2_mono) auto
  show ?thesis
  proof (cases "ilog2 a = ilog2 b")
    case True
    then have "ulp a = ulp b" by (simp add: ulp_def)
    with m n ab grid_gap [of "ulp b" m n] have "ulp b \<le> b - a" by simp
    with top show ?thesis by (simp add: field_simps)
  next
    case False
    with le have le1: "ilog2 a + 1 \<le> ilog2 b" by simp
    have aP: "a < pow2 (ilog2 b)"
      using ilog2_bounds(2) [OF a(1)] pow2_mono [OF le1] by linarith
    show ?thesis
    proof (cases "b = pow2 (ilog2 b)")
      case False
      then have "of_int (2 ^ 52) * ulp b < of_int n * ulp b"
        using ilog2_bounds(1) [OF b0] binade_ulp [of b] n by (metis less_le)
      then have "ulp b \<le> b - pow2 (ilog2 b)"
        using grid_gap [of "ulp b" "2 ^ 52" n] n binade_ulp [of b] by simp
      with aP top show ?thesis by (simp add: field_simps)
    next
      case True
      show ?thesis
      proof (cases "ilog2 a + 1 = ilog2 b")
        case True
        then have "ilog2 b - 52 = (ilog2 a - 52) + 1" by simp
        then have ub: "ulp b = 2 * ulp a" by (metis ulp_def pow2_Suc)
        have bb: "b = of_int (2 ^ 53) * ulp a"
          using \<open>b = pow2 (ilog2 b)\<close> binade_ulp [of b] ub by simp
        with m ab grid_gap [of "ulp a" m "2 ^ 53"] have "ulp a \<le> b - a" by simp
        with bb show ?thesis by simp
      next
        case False
        with le1 have "ilog2 a + 1 \<le> ilog2 b - 1" by simp
        then have "pow2 (ilog2 a + 1) \<le> pow2 (ilog2 b) / 2"
          using pow2_mono [of "ilog2 a + 1" "ilog2 b - 1"] by (simp add: pow2_diff) (simp add: pow2_def)
        with ilog2_bounds(2) [OF a(1)] \<open>b = pow2 (ilog2 b)\<close> have "a < b / 2" by simp
        with b0 show ?thesis by (simp add: field_simps)
      qed
    qed
  qed
qed

text \<open>So a computed quotient of two floats reaches one only when the numerator reaches the
  denominator.\<close>

theorem fl_quotient_ge_1_iff:
  assumes a: "fl a = a" and b: "fl b = b" "0 < b"
  shows "1 \<le> fl (a / b) \<longleftrightarrow> b \<le> a"
proof
  assume "b \<le> a"
  with b show "1 \<le> fl (a / b)" using fl_mono [of 1 "a / b"] by (simp add: le_divide_eq)
next
  assume ge: "1 \<le> fl (a / b)"
  show "b \<le> a"
  proof (rule ccontr)
    assume "\<not> b \<le> a"
    then have ab: "a < b" by simp
    show False
    proof (cases "0 < a")
      case False
      then have "a / b \<le> 0" using b by (simp add: divide_nonpos_pos)
      then have "fl (a / b) \<le> 0" using fl_mono [of "a / b" 0] by simp
      with ge show False by simp
    next
      case True
      have "b / 2 ^ 53 \<le> b - a" using True a b ab by (intro float_gap)
      then have "a / b \<le> of_int (2 ^ 53 - 1) * pow2 (- 53)"
        using b by (simp add: pow2_def field_simps)
      then have "fl (a / b) \<le> of_int (2 ^ 53 - 1) * pow2 (- 53)"
        using fl_mono fl_exact [of "2 ^ 53 - 1" "- 53"] by fastforce
      with ge show False by (simp add: pow2_def)
    qed
  qed
qed

section \<open>The contract of a rounding\<close>

locale rounding =
  fixes rnd :: "rat \<Rightarrow> rat"
  assumes rnd_mono: "x \<le> y \<Longrightarrow> rnd x \<le> rnd y"
    and rnd_0: "rnd 0 = 0"
    and rnd_1: "rnd 1 = 1"
begin

lemma rnd_nonneg: "0 \<le> x \<Longrightarrow> 0 \<le> rnd x"
  using rnd_mono [of 0 x] by (simp add: rnd_0)

lemma rnd_nonpos: "x \<le> 0 \<Longrightarrow> rnd x \<le> 0"
  using rnd_mono [of x 0] by (simp add: rnd_0)

text \<open>A computed quotient reaches one as soon as the numerator reaches the denominator.\<close>

lemma rnd_quotient_ge_1: "0 < b \<Longrightarrow> b \<le> a \<Longrightarrow> 1 \<le> rnd (a / b)"
  using rnd_mono [of 1 "a / b"] by (simp add: rnd_1 le_divide_eq)

lemma rnd_quotient_mono: "0 < b \<Longrightarrow> a \<le> a' \<Longrightarrow> rnd (a / b) \<le> rnd (a' / b)"
  by (rule rnd_mono) (simp add: divide_right_mono)

lemma rnd_add_mono: "0 \<le> d \<Longrightarrow> rnd a = a \<Longrightarrow> a \<le> rnd (a + d)"
  using rnd_mono [of a "a + d"] by simp

end

interpretation ieee: rounding fl
  by unfold_locales (simp_all add: fl_mono)

section \<open>Decimal rounding\<close>

definition py_round :: "rat \<Rightarrow> nat \<Rightarrow> rat" where
  "py_round x n = fl (of_int (round_he (x * 10 ^ n)) / 10 ^ n)"

lemma py_round_mono: "x \<le> y \<Longrightarrow> py_round x n \<le> py_round y n"
  unfolding py_round_def
  by (intro fl_mono divide_right_mono) (auto intro!: round_he_mono mult_right_mono)

lemma py_round_0 [simp]: "py_round 0 n = 0"
  using round_he_of_int [of 0] by (simp add: py_round_def)

lemma py_round_nonneg: "0 \<le> x \<Longrightarrow> 0 \<le> py_round x n"
  using py_round_mono [of 0 x n] by simp

end
