(* ===== verification/Py_Json.thy ===== *)
theory Py_Json
  imports Py_Str Py_Float
begin

text \<open>
  The Python values that travel in payloads, parameters and log contexts: \<open>None\<close>, booleans,
  integers, floats, strings, lists, tuples and dictionaries with string keys. Values of other
  classes are outside the model. \<open>json_dumps\<close> is \<open>json.dumps(v, ensure_ascii=False)\<close>. The text of a
  float, and \<open>str\<close> of a container, are an argument (\<open>rp\<close>): no component depends on their form
  beyond the hypothesis stated where it is used.
\<close>

datatype pyval =
    PNone
  | PBool bool
  | PInt int
  | PFloat rat
  | PStr string
  | PList "pyval list"
  | PTuple "pyval list"
  | PDict "(string \<times> pyval) list"

type_synonym payload = "(string, pyval) dict"

text \<open>What a call reads from its surroundings: the clock, a fresh \<open>uuid4().hex\<close>, the milliseconds the
  performance counter measured for the call, and the printing function above.\<close>

record py_env =
  env_now :: int
  env_uuid :: string
  env_elapsed_ms :: int
  env_repr :: "pyval \<Rightarrow> string"

section \<open>Printing\<close>

fun py_bool_str :: "bool \<Rightarrow> string" where
  "py_bool_str True = ''True''"
| "py_bool_str False = ''False''"

text \<open>\<open>str(v)\<close>.\<close>

fun py_str :: "(pyval \<Rightarrow> string) \<Rightarrow> pyval \<Rightarrow> string" where
  "py_str rp PNone = ''None''"
| "py_str rp (PBool b) = py_bool_str b"
| "py_str rp (PInt i) = int_str i"
| "py_str rp (PStr s) = s"
| "py_str rp v = rp v"

text \<open>\<open>bool(v)\<close>.\<close>

fun py_truthy :: "pyval \<Rightarrow> bool" where
  "py_truthy PNone = False"
| "py_truthy (PBool b) = b"
| "py_truthy (PInt i) = (i \<noteq> 0)"
| "py_truthy (PFloat r) = (r \<noteq> 0)"
| "py_truthy (PStr s) = (s \<noteq> [])"
| "py_truthy (PList vs) = (vs \<noteq> [])"
| "py_truthy (PTuple vs) = (vs \<noteq> [])"
| "py_truthy (PDict kvs) = (kvs \<noteq> [])"

fun hex_digit :: "nat \<Rightarrow> char" where
  "hex_digit n = (if n < 10 then char_of (48 + n) else char_of (87 + n))"

definition json_char :: "char \<Rightarrow> string" where
  "json_char c =
     (if c = CHR 0x22 then [CHR 0x5C, CHR 0x22]
      else if c = CHR 0x5C then [CHR 0x5C, CHR 0x5C]
      else if c = CHR 0x0A then [CHR 0x5C, CHR ''n'']
      else if c = CHR 0x0D then [CHR 0x5C, CHR ''r'']
      else if c = CHR 0x09 then [CHR 0x5C, CHR ''t'']
      else if c = CHR 0x0C then [CHR 0x5C, CHR ''f'']
      else if c = CHR 0x08 then [CHR 0x5C, CHR ''b'']
      else if code c < 32 then
        [CHR 0x5C] @ ''u00'' @ [hex_digit (code c div 16), hex_digit (code c mod 16)]
      else [c])"

definition json_string :: "string \<Rightarrow> string" where
  "json_string s = [CHR 0x22] @ concat (map json_char s) @ [CHR 0x22]"

fun json_dumps :: "(pyval \<Rightarrow> string) \<Rightarrow> pyval \<Rightarrow> string" where
  "json_dumps rp PNone = ''null''"
| "json_dumps rp (PBool b) = (if b then ''true'' else ''false'')"
| "json_dumps rp (PInt i) = int_str i"
| "json_dumps rp (PFloat r) = rp (PFloat r)"
| "json_dumps rp (PStr s) = json_string s"
| "json_dumps rp (PList vs) = ''['' @ join '', '' (map (json_dumps rp) vs) @ '']''"
| "json_dumps rp (PTuple vs) = ''['' @ join '', '' (map (json_dumps rp) vs) @ '']''"
| "json_dumps rp (PDict kvs) =
     ''{'' @ join '', '' (map (\<lambda>(k, v). json_string k @ '': '' @ json_dumps rp v) kvs) @ ''}''"

section \<open>One line\<close>

text \<open>A printed value has no line break of its own.\<close>

lemma hex_digit_no_nl: "n < 16 \<Longrightarrow> hex_digit n \<noteq> nl"
  by (auto simp: code_inj [symmetric]) (auto simp: code_def)

lemma json_char_no_nl: "nl \<notin> set (json_char c)"
proof -
  have "hex_digit (code c div 16) \<noteq> nl" "hex_digit (code c mod 16) \<noteq> nl"
    using code_lt [of c] by (simp_all add: hex_digit_no_nl del: hex_digit.simps)
  then show ?thesis
    by (auto simp: json_char_def simp del: hex_digit.simps dest: sym)
qed

lemma json_string_no_nl: "nl \<notin> set (json_string s)"
  using json_char_no_nl by (auto simp: json_string_def)

lemma int_str_no_nl: "nl \<notin> set (int_str i)"
  by (auto simp: int_str_def is_digit_def code_def dest: nat_str_digits)

lemma join_no: "c \<notin> set sep \<Longrightarrow> \<forall>x \<in> set xs. c \<notin> set x \<Longrightarrow> c \<notin> set (join sep xs)"
  using set_join [of sep xs] by blast

definition one_line_repr :: "(pyval \<Rightarrow> string) \<Rightarrow> bool" where
  "one_line_repr rp \<longleftrightarrow> (\<forall>r. nl \<notin> set (rp (PFloat r)))"

lemma json_dumps_no_nl: "one_line_repr rp \<Longrightarrow> nl \<notin> set (json_dumps rp v)"
proof (induction rp v rule: json_dumps.induct)
  case (8 rp kvs)
  then have "\<forall>x \<in> set (map (\<lambda>(k, v). json_string k @ '': '' @ json_dumps rp v) kvs). nl \<notin> set x"
    by (force simp: json_string_no_nl)
  then have "nl \<notin> set (join '', '' (map (\<lambda>(k, v). json_string k @ '': '' @ json_dumps rp v) kvs))"
    by (intro join_no) auto
  then show ?case by simp
qed (auto simp: json_string_no_nl int_str_no_nl one_line_repr_def dest!: set_mp [OF set_join])

end
