(* ===== verification/Events.thy ===== *)
theory Events
  imports Py_Json
begin

text \<open>
  The events of the agent: \<open>events/event.py\<close> and the classes under \<open>events/action\<close> and
  \<open>events/observation\<close>. An event has a class, its dataclass fields, other attributes set on the object,
  and the underscore attributes the stream gives it. A class is a table of its fields with their
  defaults, its \<open>runnable\<close> flag and its \<open>message\<close> property. Members of string and integer enums are their
  values; nested dataclasses and pydantic models are dictionaries. Metrics are left out.
\<close>

section \<open>Enumerations\<close>

datatype event_source = AGENT_SOURCE | USER_SOURCE | ENVIRONMENT_SOURCE

fun event_source_value :: "event_source \<Rightarrow> string" where
  "event_source_value AGENT_SOURCE = ''agent''"
| "event_source_value USER_SOURCE = ''user''"
| "event_source_value ENVIRONMENT_SOURCE = ''environment''"

definition event_source_of :: "string \<Rightarrow> event_source res" where
  "event_source_of s =
     (case find (\<lambda>x. event_source_value x = s) [AGENT_SOURCE, USER_SOURCE, ENVIRONMENT_SOURCE] of
        None \<Rightarrow> Inl (ValueError (s @ '' is not a valid EventSource'')) | Some x \<Rightarrow> Inr x)"

datatype agent_state =
    LOADING | RUNNING | AWAITING_USER_INPUT | PAUSED | STOPPED | FINISHED | REJECTED_STATE | ERROR_STATE
  | AWAITING_USER_CONFIRMATION | USER_CONFIRMED | USER_REJECTED | RATE_LIMITED

fun agent_state_value :: "agent_state \<Rightarrow> string" where
  "agent_state_value LOADING = ''loading''"
| "agent_state_value RUNNING = ''running''"
| "agent_state_value AWAITING_USER_INPUT = ''awaiting_user_input''"
| "agent_state_value PAUSED = ''paused''"
| "agent_state_value STOPPED = ''stopped''"
| "agent_state_value FINISHED = ''finished''"
| "agent_state_value REJECTED_STATE = ''rejected''"
| "agent_state_value ERROR_STATE = ''error''"
| "agent_state_value AWAITING_USER_CONFIRMATION = ''awaiting_user_confirmation''"
| "agent_state_value USER_CONFIRMED = ''user_confirmed''"
| "agent_state_value USER_REJECTED = ''user_rejected''"
| "agent_state_value RATE_LIMITED = ''rate_limited''"

text \<open>The values of \<open>ActionConfirmationStatus\<close> and \<open>ActionSecurityRisk\<close>.\<close>

definition CONFIRMED_ACTION :: pyval where "CONFIRMED_ACTION = PStr ''confirmed''"
definition REJECTED_ACTION :: pyval where "REJECTED_ACTION = PStr ''rejected''"
definition AWAITING_CONFIRMATION :: pyval where "AWAITING_CONFIRMATION = PStr ''awaiting_confirmation''"

definition RISK_UNKNOWN :: pyval where "RISK_UNKNOWN = PInt (- 1)"
definition RISK_HIGH :: pyval where "RISK_HIGH = PInt 2"

section \<open>Classes\<close>

datatype action_class =
    ChangeAgentStateAction | AgentFinishAction | AgentThinkAction | AgentRejectAction | AgentDelegateAction
  | RecallAction | CondensationAction | CondensationRequestAction | TaskTrackingAction | LoopRecoveryAction
  | BrowseURLAction | BrowseInteractiveAction | CmdRunAction | IPythonRunCellAction | NullAction
  | FileReadAction | FileWriteAction | FileEditAction | MCPAction | MessageAction | SystemMessageAction

datatype observation_class =
    AgentStateChangedObservation | AgentCondensationObservation | AgentThinkObservation | RecallObservation
  | BrowserOutputObservation | CmdOutputObservation | IPythonRunCellObservation | AgentDelegateObservation
  | NullObservation | ErrorObservation | FileDownloadObservation | FileReadObservation
  | FileWriteObservation | FileEditObservation | LoopDetectionObservation | MCPObservation
  | UserRejectObservation | SuccessObservation | TaskTrackingObservation

datatype event_class = Act action_class | Obs observation_class

record dataclass_spec =
  ds_fields :: "(string \<times> pyval option) list"
  ds_runnable :: bool
  ds_message :: "(pyval \<Rightarrow> string) \<Rightarrow> payload \<Rightarrow> string res"

text \<open>Reading typed fields.\<close>

definition field_of :: "payload \<Rightarrow> string \<Rightarrow> pyval" where
  "field_of fs k = dict_get_default fs k PNone"

fun text_val :: "pyval \<Rightarrow> string" where
  "text_val (PStr s) = s"
| "text_val _ = []"

fun list_val :: "pyval \<Rightarrow> pyval list" where
  "list_val (PList vs) = vs"
| "list_val _ = []"

fun dict_val :: "pyval \<Rightarrow> payload" where
  "dict_val (PDict kvs) = kvs"
| "dict_val _ = []"

fun int_val :: "pyval \<Rightarrow> int" where
  "int_val (PInt i) = i"
| "int_val _ = 0"

definition text_of :: "payload \<Rightarrow> string \<Rightarrow> string" where
  "text_of fs k = text_val (field_of fs k)"

definition list_of :: "payload \<Rightarrow> string \<Rightarrow> pyval list" where
  "list_of fs k = list_val (field_of fs k)"

definition dict_of :: "payload \<Rightarrow> string \<Rightarrow> payload" where
  "dict_of fs k = dict_val (field_of fs k)"

definition is_none :: "payload \<Rightarrow> string \<Rightarrow> bool" where
  "is_none fs k \<longleftrightarrow> field_of fs k = PNone"

text \<open>\<open>list(range(a, b + 1))\<close> is \<open>[a..b]\<close>.\<close>

definition validate_field_polymorphism :: "payload \<Rightarrow> bool" where
  "validate_field_polymorphism fs =
     (let using_event_ids = (\<not> is_none fs ''forgotten_event_ids'');
          using_event_range = (\<not> is_none fs ''forgotten_events_start_id'' \<and> \<not> is_none fs ''forgotten_events_end_id'')
      in using_event_ids \<noteq> using_event_range \<and> (is_none fs ''summary'' \<longleftrightarrow> is_none fs ''summary_offset''))"

text \<open>\<open>__post_init__\<close>: a condensation action in an invalid configuration cannot be built.\<close>

definition post_init :: "event_class \<Rightarrow> payload \<Rightarrow> bool" where
  "post_init c fs \<longleftrightarrow> (c = Act CondensationAction \<longrightarrow> validate_field_polymorphism fs)"

definition forgotten_of :: "payload \<Rightarrow> int list res" where
  "forgotten_of fs =
     (if \<not> validate_field_polymorphism fs then Inl (ValueError ''Invalid configuration of the optional fields.'')
      else if \<not> is_none fs ''forgotten_event_ids'' then Inr (map int_val (list_of fs ''forgotten_event_ids''))
      else Inr [int_val (field_of fs ''forgotten_events_start_id'')..int_val (field_of fs ''forgotten_events_end_id'')])"

definition fenced :: "string \<Rightarrow> string" where
  "fenced s = [nl] @ replicate 3 (CHR 0x60) @ [nl] @ s @ [nl] @ replicate 3 (CHR 0x60)"

definition default_metadata :: payload where
  "default_metadata =
     [(''exit_code'', PInt (- 1)), (''pid'', PInt (- 1)), (''username'', PNone), (''hostname'', PNone),
      (''working_dir'', PNone), (''py_interpreter_path'', PNone), (''prefix'', PStr []), (''suffix'', PStr [])]"

section \<open>The tables\<close>

definition ChangeAgentStateAction_spec :: "dataclass_spec" where
  "ChangeAgentStateAction_spec = \<lparr>
     ds_fields =
       [(''agent_state'', None), (''thought'', Some (PStr [])),
        (''action'', Some (PStr ''change_agent_state''))],
     ds_runnable = False,
     ds_message = (\<lambda>_ fs. Inr (''Agent state changed to '' @ text_of fs ''agent_state''))\<rparr>"

definition AgentFinishAction_spec :: "dataclass_spec" where
  "AgentFinishAction_spec = \<lparr>
     ds_fields =
       [(''final_thought'', Some (PStr [])), (''outputs'', Some (PDict [])), (''thought'', Some (PStr [])),
        (''action'', Some (PStr ''finish''))],
     ds_runnable = False,
     ds_message = (\<lambda>_ fs. Inr (if text_of fs ''thought'' \<noteq> [] then text_of fs ''thought''
        else ''All done! What'' @ [CHR 0x27] @ ''s next on the agenda?''))\<rparr>"

definition AgentThinkAction_spec :: "dataclass_spec" where
  "AgentThinkAction_spec = \<lparr>
     ds_fields =
       [(''thought'', Some (PStr [])), (''action'', Some (PStr ''think''))],
     ds_runnable = False,
     ds_message = (\<lambda>_ fs. Inr (''I am thinking...: '' @ text_of fs ''thought''))\<rparr>"

definition AgentRejectAction_spec :: "dataclass_spec" where
  "AgentRejectAction_spec = \<lparr>
     ds_fields =
       [(''outputs'', Some (PDict [])), (''thought'', Some (PStr [])), (''action'', Some (PStr ''reject''))],
     ds_runnable = False,
     ds_message = (\<lambda>_ fs. (case dict_get (dict_of fs ''outputs'') ''reason'' of
        None \<Rightarrow> Inr ''Task is rejected by the agent.''
      | Some (PStr s) \<Rightarrow> Inr (''Task is rejected by the agent. Reason: '' @ s)
      | Some _ \<Rightarrow> Inl (TypeError ''can only concatenate str'')))\<rparr>"

definition AgentDelegateAction_spec :: "dataclass_spec" where
  "AgentDelegateAction_spec = \<lparr>
     ds_fields =
       [(''agent'', None), (''inputs'', None), (''thought'', Some (PStr [])),
        (''action'', Some (PStr ''delegate''))],
     ds_runnable = False,
     ds_message = (\<lambda>_ fs. Inr (''I'' @ [CHR 0x27] @ ''m asking '' @ text_of fs ''agent'' @ '' for help with this task.''))\<rparr>"

definition RecallAction_spec :: "dataclass_spec" where
  "RecallAction_spec = \<lparr>
     ds_fields =
       [(''recall_type'', None), (''query'', Some (PStr [])), (''thought'', Some (PStr [])),
        (''action'', Some (PStr ''recall''))],
     ds_runnable = False,
     ds_message = (\<lambda>_ fs. Inr (''Retrieving content for: '' @ take 50 (text_of fs ''query'')))\<rparr>"

definition CondensationAction_spec :: "dataclass_spec" where
  "CondensationAction_spec = \<lparr>
     ds_fields =
       [(''action'', Some (PStr ''condensation'')), (''forgotten_event_ids'', Some PNone),
        (''forgotten_events_start_id'', Some PNone), (''forgotten_events_end_id'', Some PNone),
        (''summary'', Some PNone), (''summary_offset'', Some PNone)],
     ds_runnable = False,
     ds_message = (\<lambda>rp fs. (if text_of fs ''summary'' \<noteq> [] then Inr (''Summary: '' @ text_of fs ''summary'')
      else res_map (\<lambda>ids. ''Condenser is dropping the events: '' @ rp (PList (map PInt ids)) @ ''.'') (forgotten_of fs)))\<rparr>"

definition CondensationRequestAction_spec :: "dataclass_spec" where
  "CondensationRequestAction_spec = \<lparr>
     ds_fields =
       [(''action'', Some (PStr ''condensation_request''))],
     ds_runnable = False,
     ds_message = (\<lambda>_ _. Inr ''Requesting a condensation of the conversation history.'')\<rparr>"

definition TaskTrackingAction_spec :: "dataclass_spec" where
  "TaskTrackingAction_spec = \<lparr>
     ds_fields =
       [(''command'', Some (PStr ''view'')), (''task_list'', Some (PList [])), (''thought'', Some (PStr [])),
        (''action'', Some (PStr ''task_tracking''))],
     ds_runnable = False,
     ds_message = (\<lambda>_ fs. Inr (case list_of fs ''task_list'' of [] \<Rightarrow> ''Clearing the task list.'' | [_] \<Rightarrow> ''Managing 1 task item.''
        | ts \<Rightarrow> ''Managing '' @ int_str (int (length ts)) @ '' task items.''))\<rparr>"

definition LoopRecoveryAction_spec :: "dataclass_spec" where
  "LoopRecoveryAction_spec = \<lparr>
     ds_fields =
       [(''option'', Some (PInt 1)), (''action'', Some (PStr ''loop_recovery''))],
     ds_runnable = False,
     ds_message = (\<lambda>_ _. Inr [])\<rparr>"

definition BrowseURLAction_spec :: "dataclass_spec" where
  "BrowseURLAction_spec = \<lparr>
     ds_fields =
       [(''url'', None), (''thought'', Some (PStr [])), (''action'', Some (PStr ''browse'')),
        (''security_risk'', Some (PInt (- 1))), (''return_axtree'', Some (PBool False))],
     ds_runnable = True,
     ds_message = (\<lambda>_ fs. Inr (''I am browsing the URL: '' @ text_of fs ''url''))\<rparr>"

definition BrowseInteractiveAction_spec :: "dataclass_spec" where
  "BrowseInteractiveAction_spec = \<lparr>
     ds_fields =
       [(''browser_actions'', None), (''thought'', Some (PStr [])),
        (''browsergym_send_msg_to_user'', Some (PStr [])), (''action'', Some (PStr ''browse_interactive'')),
        (''security_risk'', Some (PInt (- 1))), (''return_axtree'', Some (PBool False))],
     ds_runnable = True,
     ds_message = (\<lambda>_ fs. Inr (''I am interacting with the browser:'' @ fenced (text_of fs ''browser_actions'')))\<rparr>"

definition CmdRunAction_spec :: "dataclass_spec" where
  "CmdRunAction_spec = \<lparr>
     ds_fields =
       [(''command'', None), (''is_input'', Some (PBool False)), (''thought'', Some (PStr [])),
        (''blocking'', Some (PBool False)), (''is_static'', Some (PBool False)), (''cwd'', Some PNone),
        (''hidden'', Some (PBool False)), (''action'', Some (PStr ''run'')),
        (''confirmation_state'', Some (PStr ''confirmed'')), (''security_risk'', Some (PInt (- 1)))],
     ds_runnable = True,
     ds_message = (\<lambda>_ fs. Inr (''Running command: '' @ text_of fs ''command''))\<rparr>"

definition IPythonRunCellAction_spec :: "dataclass_spec" where
  "IPythonRunCellAction_spec = \<lparr>
     ds_fields =
       [(''code'', None), (''thought'', Some (PStr [])), (''include_extra'', Some (PBool True)),
        (''action'', Some (PStr ''run_ipython'')), (''confirmation_state'', Some (PStr ''confirmed'')),
        (''security_risk'', Some (PInt (- 1))), (''kernel_init_code'', Some (PStr []))],
     ds_runnable = True,
     ds_message = (\<lambda>_ fs. Inr (''Running Python code interactively: '' @ text_of fs ''code''))\<rparr>"

definition NullAction_spec :: "dataclass_spec" where
  "NullAction_spec = \<lparr>
     ds_fields =
       [(''action'', Some (PStr ''null''))],
     ds_runnable = False,
     ds_message = (\<lambda>_ _. Inr ''No action'')\<rparr>"

definition FileReadAction_spec :: "dataclass_spec" where
  "FileReadAction_spec = \<lparr>
     ds_fields =
       [(''path'', None), (''start'', Some (PInt 0)), (''end'', Some (PInt (- 1))),
        (''thought'', Some (PStr [])), (''action'', Some (PStr ''read'')),
        (''security_risk'', Some (PInt (- 1))), (''impl_source'', Some (PStr ''default'')),
        (''view_range'', Some PNone)],
     ds_runnable = True,
     ds_message = (\<lambda>_ fs. Inr (''Reading file: '' @ text_of fs ''path''))\<rparr>"

definition FileWriteAction_spec :: "dataclass_spec" where
  "FileWriteAction_spec = \<lparr>
     ds_fields =
       [(''path'', None), (''content'', None), (''start'', Some (PInt 0)), (''end'', Some (PInt (- 1))),
        (''thought'', Some (PStr [])), (''action'', Some (PStr ''write'')),
        (''security_risk'', Some (PInt (- 1)))],
     ds_runnable = True,
     ds_message = (\<lambda>_ fs. Inr (''Writing file: '' @ text_of fs ''path''))\<rparr>"

definition FileEditAction_spec :: "dataclass_spec" where
  "FileEditAction_spec = \<lparr>
     ds_fields =
       [(''path'', None), (''command'', Some (PStr [])), (''file_text'', Some PNone),
        (''old_str'', Some PNone), (''new_str'', Some PNone), (''insert_line'', Some PNone),
        (''content'', Some (PStr [])), (''start'', Some (PInt 1)), (''end'', Some (PInt (- 1))),
        (''thought'', Some (PStr [])), (''action'', Some (PStr ''edit'')),
        (''security_risk'', Some (PInt (- 1))), (''impl_source'', Some (PStr ''oh_aci''))],
     ds_runnable = True,
     ds_message = (\<lambda>_ _. Inr [])\<rparr>"

definition MCPAction_spec :: "dataclass_spec" where
  "MCPAction_spec = \<lparr>
     ds_fields =
       [(''name'', None), (''arguments'', Some (PDict [])), (''thought'', Some (PStr [])),
        (''action'', Some (PStr ''call_tool_mcp'')), (''security_risk'', Some (PInt (- 1)))],
     ds_runnable = True,
     ds_message = (\<lambda>rp fs. Inr (''I am interacting with the MCP server with name:'' @ fenced (text_of fs ''name'')
        @ [nl] @ ''and arguments:'' @ fenced (py_str rp (field_of fs ''arguments''))))\<rparr>"

definition MessageAction_spec :: "dataclass_spec" where
  "MessageAction_spec = \<lparr>
     ds_fields =
       [(''content'', None), (''file_urls'', Some PNone), (''image_urls'', Some PNone),
        (''wait_for_response'', Some (PBool False)), (''action'', Some (PStr ''message'')),
        (''security_risk'', Some (PInt (- 1)))],
     ds_runnable = False,
     ds_message = (\<lambda>_ fs. Inr (text_of fs ''content''))\<rparr>"

definition SystemMessageAction_spec :: "pyval \<Rightarrow> dataclass_spec" where
  "SystemMessageAction_spec ver = \<lparr>
     ds_fields =
       [(''content'', None), (''tools'', Some PNone), (''openhands_version'', Some ver),
        (''agent_class'', Some PNone), (''action'', Some (PStr ''system''))],
     ds_runnable = False,
     ds_message = (\<lambda>_ fs. Inr (text_of fs ''content''))\<rparr>"

definition AgentStateChangedObservation_spec :: "dataclass_spec" where
  "AgentStateChangedObservation_spec = \<lparr>
     ds_fields =
       [(''content'', None), (''agent_state'', None), (''reason'', Some (PStr [])),
        (''observation'', Some (PStr ''agent_state_changed''))],
     ds_runnable = False,
     ds_message = (\<lambda>_ _. Inr [])\<rparr>"

definition AgentCondensationObservation_spec :: "dataclass_spec" where
  "AgentCondensationObservation_spec = \<lparr>
     ds_fields =
       [(''content'', None), (''observation'', Some (PStr ''condense''))],
     ds_runnable = False,
     ds_message = (\<lambda>_ fs. Inr (text_of fs ''content''))\<rparr>"

definition AgentThinkObservation_spec :: "dataclass_spec" where
  "AgentThinkObservation_spec = \<lparr>
     ds_fields =
       [(''content'', None), (''observation'', Some (PStr ''think''))],
     ds_runnable = False,
     ds_message = (\<lambda>_ fs. Inr (text_of fs ''content''))\<rparr>"

definition RecallObservation_spec :: "dataclass_spec" where
  "RecallObservation_spec = \<lparr>
     ds_fields =
       [(''content'', None), (''recall_type'', None), (''observation'', Some (PStr ''recall'')),
        (''repo_name'', Some (PStr [])), (''repo_directory'', Some (PStr [])),
        (''repo_branch'', Some (PStr [])), (''repo_instructions'', Some (PStr [])),
        (''runtime_hosts'', Some (PDict [])), (''additional_agent_instructions'', Some (PStr [])),
        (''date'', Some (PStr [])), (''custom_secrets_descriptions'', Some (PDict [])),
        (''conversation_instructions'', Some (PStr [])), (''working_dir'', Some (PStr [])),
        (''microagent_knowledge'', Some (PList []))],
     ds_runnable = False,
     ds_message = (\<lambda>_ fs. Inr (if field_of fs ''recall_type'' = PStr ''workspace_context'' then ''Added workspace context''
        else ''Added microagent knowledge''))\<rparr>"

definition BrowserOutputObservation_spec :: "dataclass_spec" where
  "BrowserOutputObservation_spec = \<lparr>
     ds_fields =
       [(''content'', None), (''url'', None), (''trigger_by_action'', None), (''screenshot'', Some (PStr [])),
        (''screenshot_path'', Some PNone), (''set_of_marks'', Some (PStr [])), (''error'', Some (PBool False)),
        (''observation'', Some (PStr ''browse'')), (''goal_image_urls'', Some (PList [])),
        (''open_pages_urls'', Some (PList [])), (''active_page_index'', Some (PInt (- 1))),
        (''dom_object'', Some (PDict [])), (''axtree_object'', Some (PDict [])),
        (''extra_element_properties'', Some (PDict [])), (''last_browser_action'', Some (PStr [])),
        (''last_browser_action_error'', Some (PStr [])), (''focused_element_bid'', Some (PStr [])),
        (''filter_visible_only'', Some (PBool False))],
     ds_runnable = False,
     ds_message = (\<lambda>_ fs. Inr (''Visited '' @ text_of fs ''url''))\<rparr>"

definition CmdOutputObservation_spec :: "dataclass_spec" where
  "CmdOutputObservation_spec = \<lparr>
     ds_fields =
       [(''content'', None), (''command'', None), (''observation'', Some (PStr ''run'')),
        (''metadata'', Some (PDict default_metadata)), (''hidden'', Some (PBool False))],
     ds_runnable = False,
     ds_message = (\<lambda>rp fs. Inr (''Command '' @ [CHR 0x60] @ text_of fs ''command'' @ [CHR 0x60] @ '' executed with exit code ''
        @ py_str rp (field_of (dict_of fs ''metadata'') ''exit_code'') @ ''.''))\<rparr>"

definition IPythonRunCellObservation_spec :: "dataclass_spec" where
  "IPythonRunCellObservation_spec = \<lparr>
     ds_fields =
       [(''content'', None), (''code'', None), (''observation'', Some (PStr ''run_ipython'')),
        (''image_urls'', Some PNone)],
     ds_runnable = False,
     ds_message = (\<lambda>_ _. Inr ''Code executed in IPython cell.'')\<rparr>"

definition AgentDelegateObservation_spec :: "dataclass_spec" where
  "AgentDelegateObservation_spec = \<lparr>
     ds_fields =
       [(''content'', None), (''outputs'', None), (''observation'', Some (PStr ''delegate''))],
     ds_runnable = False,
     ds_message = (\<lambda>_ _. Inr [])\<rparr>"

definition NullObservation_spec :: "dataclass_spec" where
  "NullObservation_spec = \<lparr>
     ds_fields =
       [(''content'', None), (''observation'', Some (PStr ''null''))],
     ds_runnable = False,
     ds_message = (\<lambda>_ _. Inr ''No observation'')\<rparr>"

definition ErrorObservation_spec :: "dataclass_spec" where
  "ErrorObservation_spec = \<lparr>
     ds_fields =
       [(''content'', None), (''observation'', Some (PStr ''error'')), (''error_id'', Some (PStr []))],
     ds_runnable = False,
     ds_message = (\<lambda>_ fs. Inr (text_of fs ''content''))\<rparr>"

definition FileDownloadObservation_spec :: "dataclass_spec" where
  "FileDownloadObservation_spec = \<lparr>
     ds_fields =
       [(''content'', None), (''file_path'', None), (''observation'', Some (PStr ''download''))],
     ds_runnable = False,
     ds_message = (\<lambda>_ fs. Inr (''Downloaded the file at location: '' @ text_of fs ''file_path''))\<rparr>"

definition FileReadObservation_spec :: "dataclass_spec" where
  "FileReadObservation_spec = \<lparr>
     ds_fields =
       [(''content'', None), (''path'', None), (''observation'', Some (PStr ''read'')),
        (''impl_source'', Some (PStr ''default''))],
     ds_runnable = False,
     ds_message = (\<lambda>_ fs. Inr (''I read the file '' @ text_of fs ''path'' @ ''.''))\<rparr>"

definition FileWriteObservation_spec :: "dataclass_spec" where
  "FileWriteObservation_spec = \<lparr>
     ds_fields =
       [(''content'', None), (''path'', None), (''observation'', Some (PStr ''write''))],
     ds_runnable = False,
     ds_message = (\<lambda>_ fs. Inr (''I wrote to the file '' @ text_of fs ''path'' @ ''.''))\<rparr>"

definition FileEditObservation_spec :: "dataclass_spec" where
  "FileEditObservation_spec = \<lparr>
     ds_fields =
       [(''content'', None), (''path'', Some (PStr [])), (''prev_exist'', Some (PBool False)),
        (''old_content'', Some PNone), (''new_content'', Some PNone), (''observation'', Some (PStr ''edit'')),
        (''impl_source'', Some (PStr ''llm_based_edit'')), (''diff'', Some PNone),
        (''_diff_cache'', Some PNone)],
     ds_runnable = False,
     ds_message = (\<lambda>_ fs. Inr (''I edited the file '' @ text_of fs ''path'' @ ''.''))\<rparr>"

definition LoopDetectionObservation_spec :: "dataclass_spec" where
  "LoopDetectionObservation_spec = \<lparr>
     ds_fields =
       [(''content'', None), (''observation'', Some (PStr ''loop_detection''))],
     ds_runnable = False,
     ds_message = (\<lambda>_ _. Inr [])\<rparr>"

definition MCPObservation_spec :: "dataclass_spec" where
  "MCPObservation_spec = \<lparr>
     ds_fields =
       [(''content'', None), (''observation'', Some (PStr ''mcp'')), (''name'', Some (PStr [])),
        (''arguments'', Some (PDict []))],
     ds_runnable = False,
     ds_message = (\<lambda>_ fs. Inr (text_of fs ''content''))\<rparr>"

definition UserRejectObservation_spec :: "dataclass_spec" where
  "UserRejectObservation_spec = \<lparr>
     ds_fields =
       [(''content'', None), (''observation'', Some (PStr ''user_rejected''))],
     ds_runnable = False,
     ds_message = (\<lambda>_ fs. Inr (text_of fs ''content''))\<rparr>"

definition SuccessObservation_spec :: "dataclass_spec" where
  "SuccessObservation_spec = \<lparr>
     ds_fields =
       [(''content'', None), (''observation'', Some (PStr ''success''))],
     ds_runnable = False,
     ds_message = (\<lambda>_ fs. Inr (text_of fs ''content''))\<rparr>"

definition TaskTrackingObservation_spec :: "dataclass_spec" where
  "TaskTrackingObservation_spec = \<lparr>
     ds_fields =
       [(''content'', None), (''observation'', Some (PStr ''task_tracking'')), (''command'', Some (PStr [])),
        (''task_list'', Some (PList []))],
     ds_runnable = False,
     ds_message = (\<lambda>_ fs. Inr (text_of fs ''content''))\<rparr>"

text \<open>The version text of \<open>SystemMessageAction\<close> comes from the installed package.\<close>

fun action_spec :: "pyval \<Rightarrow> action_class \<Rightarrow> dataclass_spec" where
  "action_spec ver ChangeAgentStateAction = ChangeAgentStateAction_spec"
| "action_spec ver AgentFinishAction = AgentFinishAction_spec"
| "action_spec ver AgentThinkAction = AgentThinkAction_spec"
| "action_spec ver AgentRejectAction = AgentRejectAction_spec"
| "action_spec ver AgentDelegateAction = AgentDelegateAction_spec"
| "action_spec ver RecallAction = RecallAction_spec"
| "action_spec ver CondensationAction = CondensationAction_spec"
| "action_spec ver CondensationRequestAction = CondensationRequestAction_spec"
| "action_spec ver TaskTrackingAction = TaskTrackingAction_spec"
| "action_spec ver LoopRecoveryAction = LoopRecoveryAction_spec"
| "action_spec ver BrowseURLAction = BrowseURLAction_spec"
| "action_spec ver BrowseInteractiveAction = BrowseInteractiveAction_spec"
| "action_spec ver CmdRunAction = CmdRunAction_spec"
| "action_spec ver IPythonRunCellAction = IPythonRunCellAction_spec"
| "action_spec ver NullAction = NullAction_spec"
| "action_spec ver FileReadAction = FileReadAction_spec"
| "action_spec ver FileWriteAction = FileWriteAction_spec"
| "action_spec ver FileEditAction = FileEditAction_spec"
| "action_spec ver MCPAction = MCPAction_spec"
| "action_spec ver MessageAction = MessageAction_spec"
| "action_spec ver SystemMessageAction = SystemMessageAction_spec ver"

fun observation_spec :: "observation_class \<Rightarrow> dataclass_spec" where
  "observation_spec AgentStateChangedObservation = AgentStateChangedObservation_spec"
| "observation_spec AgentCondensationObservation = AgentCondensationObservation_spec"
| "observation_spec AgentThinkObservation = AgentThinkObservation_spec"
| "observation_spec RecallObservation = RecallObservation_spec"
| "observation_spec BrowserOutputObservation = BrowserOutputObservation_spec"
| "observation_spec CmdOutputObservation = CmdOutputObservation_spec"
| "observation_spec IPythonRunCellObservation = IPythonRunCellObservation_spec"
| "observation_spec AgentDelegateObservation = AgentDelegateObservation_spec"
| "observation_spec NullObservation = NullObservation_spec"
| "observation_spec ErrorObservation = ErrorObservation_spec"
| "observation_spec FileDownloadObservation = FileDownloadObservation_spec"
| "observation_spec FileReadObservation = FileReadObservation_spec"
| "observation_spec FileWriteObservation = FileWriteObservation_spec"
| "observation_spec FileEditObservation = FileEditObservation_spec"
| "observation_spec LoopDetectionObservation = LoopDetectionObservation_spec"
| "observation_spec MCPObservation = MCPObservation_spec"
| "observation_spec UserRejectObservation = UserRejectObservation_spec"
| "observation_spec SuccessObservation = SuccessObservation_spec"
| "observation_spec TaskTrackingObservation = TaskTrackingObservation_spec"

fun class_spec :: "pyval \<Rightarrow> event_class \<Rightarrow> dataclass_spec" where
  "class_spec ver (Act c) = action_spec ver c"
| "class_spec ver (Obs c) = observation_spec c"

text \<open>The value of the field \<open>action\<close> or \<open>observation\<close>.\<close>

definition type_key :: "event_class \<Rightarrow> string" where
  "type_key c = (case c of Act _ \<Rightarrow> ''action'' | Obs _ \<Rightarrow> ''observation'')"

definition type_name :: "event_class \<Rightarrow> string" where
  "type_name c = (case dict_get (ds_fields (class_spec PNone c)) (type_key c) of Some (Some v) \<Rightarrow> text_val v | _ \<Rightarrow> [])"

section \<open>Events\<close>

record event =
  e_class :: event_class
  e_fields :: payload
  e_attrs :: payload \<comment> \<open>attributes set on the object that are not dataclass fields\<close>
  e_id :: "int option"
  e_source :: "event_source option"
  e_timestamp :: "string option"
  e_cause :: "int option"
  e_tool_call :: "payload option"
  e_timeout :: "rat option"

definition INVALID_ID :: int where
  "INVALID_ID = - 1"

definition event_id :: "event \<Rightarrow> int" where
  "event_id e = (case e_id e of None \<Rightarrow> INVALID_ID | Some i \<Rightarrow> i)"

definition is_action :: "event \<Rightarrow> bool" where
  "is_action e = (case e_class e of Act _ \<Rightarrow> True | Obs _ \<Rightarrow> False)"

definition is_observation :: "event \<Rightarrow> bool" where
  "is_observation e = (case e_class e of Act _ \<Rightarrow> False | Obs _ \<Rightarrow> True)"

definition is_a :: "action_class \<Rightarrow> event \<Rightarrow> bool" where
  "is_a c e \<longleftrightarrow> e_class e = Act c"

definition is_o :: "observation_class \<Rightarrow> event \<Rightarrow> bool" where
  "is_o c e \<longleftrightarrow> e_class e = Obs c"

definition runnable :: "event \<Rightarrow> bool" where
  "runnable e = ds_runnable (class_spec PNone (e_class e))"

text \<open>\<open>hasattr\<close>, \<open>getattr\<close> and \<open>setattr\<close> for the attributes that are not properties.\<close>

definition has_attr :: "event \<Rightarrow> string \<Rightarrow> bool" where
  "has_attr e k \<longleftrightarrow> k \<in> set (dict_keys (e_fields e)) \<or> k \<in> set (dict_keys (e_attrs e))"

definition get_attr :: "event \<Rightarrow> string \<Rightarrow> pyval \<Rightarrow> pyval" where
  "get_attr e k d = (case dict_get (e_fields e) k of Some v \<Rightarrow> v | None \<Rightarrow> dict_get_default (e_attrs e) k d)"

definition set_attr :: "string \<Rightarrow> pyval \<Rightarrow> event \<Rightarrow> event" where
  "set_attr k v e =
     (if k \<in> set (dict_keys (e_fields e)) then e\<lparr>e_fields := dict_set k v (e_fields e)\<rparr>
      else e\<lparr>e_attrs := dict_set k v (e_attrs e)\<rparr>)"

definition set_hard_timeout :: "rat option \<Rightarrow> pyval \<Rightarrow> event \<Rightarrow> event" where
  "set_hard_timeout t block e =
     (let e' = e\<lparr>e_timeout := t\<rparr> in if has_attr e' ''blocking'' then set_attr ''blocking'' block e' else e')"

text \<open>\<open>==\<close> of dataclasses: same class and equal fields. Attributes such as the id and the source do not count.\<close>

definition event_eq :: "event \<Rightarrow> event \<Rightarrow> bool" where
  "event_eq a b \<longleftrightarrow> e_class a = e_class b \<and> e_fields a = e_fields b"

definition event_text :: "event \<Rightarrow> string \<Rightarrow> string" where
  "event_text e k = text_of (e_fields e) k"

definition event_message :: "(pyval \<Rightarrow> string) \<Rightarrow> event \<Rightarrow> string res" where
  "event_message rp e = ds_message (class_spec PNone (e_class e)) rp (e_fields e)"

section \<open>Construction\<close>

text \<open>The fields of \<open>Class(**kwargs)\<close>: arguments or defaults; a missing or an unknown argument raises.\<close>

definition init_fields :: "(string \<times> pyval option) list \<Rightarrow> payload \<Rightarrow> payload" where
  "init_fields spec kwargs =
     map (\<lambda>(k, d). (k, case dict_get kwargs k of Some v \<Rightarrow> v | None \<Rightarrow> (case d of Some v \<Rightarrow> v | None \<Rightarrow> PNone))) spec"

definition args_ok :: "(string \<times> pyval option) list \<Rightarrow> payload \<Rightarrow> bool" where
  "args_ok spec kwargs \<longleftrightarrow>
     list_all (\<lambda>k. k \<in> set (dict_keys spec)) (dict_keys kwargs)
     \<and> list_all (\<lambda>(k, d). d \<noteq> None \<or> k \<in> set (dict_keys kwargs)) spec"

definition new_event :: "event_class \<Rightarrow> payload \<Rightarrow> event" where
  "new_event c fs = \<lparr>e_class = c, e_fields = fs, e_attrs = [], e_id = None, e_source = None, e_timestamp = None,
     e_cause = None, e_tool_call = None, e_timeout = None\<rparr>"

text \<open>An object built in the code with arguments known to be right.\<close>

definition make_act :: "action_class \<Rightarrow> payload \<Rightarrow> event" where
  "make_act c kwargs = new_event (Act c) (init_fields (ds_fields (action_spec PNone c)) kwargs)"

definition make_obs :: "observation_class \<Rightarrow> payload \<Rightarrow> event" where
  "make_obs c kwargs = new_event (Obs c) (init_fields (ds_fields (observation_spec c)) kwargs)"

definition from_user :: "event \<Rightarrow> bool" where
  "from_user e \<longleftrightarrow> is_a MessageAction e \<and> e_source e = Some USER_SOURCE"

definition from_agent :: "event \<Rightarrow> bool" where
  "from_agent e \<longleftrightarrow> is_a MessageAction e \<and> e_source e = Some AGENT_SOURCE"

end
