(* ===== verification/History_View.thy ===== *)
theory History_View
  imports Events
begin

text \<open>
  The view of a history an agent works with: \<open>memory/view.py\<close>, and Python's list slices and \<open>list.insert\<close>,
  which the condensers rest on.
\<close>

section \<open>Python slices\<close>

text \<open>A bound of a slice of a list of length \<open>n\<close>: a negative one counts from the end, and both are clipped.\<close>

definition slice_bound :: "nat \<Rightarrow> int \<Rightarrow> nat" where
  "slice_bound n i = nat (if i < 0 then max 0 (i + int n) else min i (int n))"

definition slice_to :: "int \<Rightarrow> 'a list \<Rightarrow> 'a list" where
  "slice_to i xs = take (slice_bound (length xs) i) xs"

definition slice_from :: "int \<Rightarrow> 'a list \<Rightarrow> 'a list" where
  "slice_from i xs = drop (slice_bound (length xs) i) xs"

definition slice_between :: "int \<Rightarrow> int \<Rightarrow> 'a list \<Rightarrow> 'a list" where
  "slice_between i j xs = drop (slice_bound (length xs) i) (take (slice_bound (length xs) j) xs)"

text \<open>\<open>xs[i]\<close>.\<close>

definition py_index :: "'a list \<Rightarrow> int \<Rightarrow> 'a res" where
  "py_index xs i =
     (let j = (if i < 0 then i + int (length xs) else i) in
      if 0 \<le> j \<and> j < int (length xs) then Inr (xs ! nat j)
      else Inl (OtherError ''IndexError'' ''list index out of range''))"

text \<open>\<open>xs.insert(i, x)\<close>.\<close>

definition list_insert :: "int \<Rightarrow> 'a \<Rightarrow> 'a list \<Rightarrow> 'a list" where
  "list_insert i x xs = slice_to i xs @ x # slice_from i xs"

section \<open>The view\<close>

record view =
  v_events :: "event list"
  v_request :: bool \<comment> \<open>an unhandled condensation request\<close>
  v_forgotten :: "int set"

definition view_of :: "event list \<Rightarrow> view" where
  "view_of es = \<lparr>v_events = es, v_request = False, v_forgotten = {}\<rparr>"

fun forgotten_ids :: "event list \<Rightarrow> int set res" where
  "forgotten_ids [] = Inr {}"
| "forgotten_ids (e # es) =
     res_bind (if is_a CondensationAction e then res_map (\<lambda>ids. insert (event_id e) (set ids)) (forgotten_of (e_fields e))
               else if is_a CondensationRequestAction e then Inr {event_id e} else Inr {})
       (\<lambda>ids. res_map (\<lambda>rest. ids \<union> rest) (forgotten_ids es))"

text \<open>The summary of the last condensation that has one; the argument is the reversed history.\<close>

fun last_summary :: "event list \<Rightarrow> (string \<times> int) option" where
  "last_summary [] = None"
| "last_summary (e # es) =
     (if is_a CondensationAction e \<and> \<not> is_none (e_fields e) ''summary'' \<and> \<not> is_none (e_fields e) ''summary_offset''
      then Some (event_text e ''summary'', int_val (field_of (e_fields e) ''summary_offset'')) else last_summary es)"

fun unhandled_request :: "event list \<Rightarrow> bool" where
  "unhandled_request [] = False"
| "unhandled_request (e # es) =
     (if is_a CondensationAction e then False else if is_a CondensationRequestAction e then True else unhandled_request es)"

definition condensation_observation :: "string \<Rightarrow> event" where
  "condensation_observation s = make_obs AgentCondensationObservation [(''content'', PStr s)]"

definition kept_events :: "int set \<Rightarrow> event list \<Rightarrow> event list" where
  "kept_events ids es = filter (\<lambda>e. event_id e \<notin> ids) es"

definition from_events :: "event list \<Rightarrow> view res" where
  "from_events es =
     res_map (\<lambda>ids.
       let kept = kept_events ids es in
       \<lparr>v_events = (case last_summary (rev es) of None \<Rightarrow> kept | Some (s, i) \<Rightarrow> list_insert i (condensation_observation s) kept),
        v_request = unhandled_request (rev es), v_forgotten = ids\<rparr>)
     (forgotten_ids es)"

section \<open>Lemmas\<close>

lemma slice_bound_le: "slice_bound n i \<le> n"
  by (auto simp: slice_bound_def)

lemma slice_bound_nat [simp]: "slice_bound n (int k) = min k n"
  by (auto simp: slice_bound_def)

lemma slice_bound_neg: "0 < k \<Longrightarrow> slice_bound n (- int k) = n - k"
  by (auto simp: slice_bound_def)

lemma length_slice_to [simp]: "0 \<le> i \<Longrightarrow> length (slice_to i xs) = min (nat i) (length xs)"
  by (auto simp: slice_to_def slice_bound_def)

lemma insert_split: "slice_to i xs @ slice_from i xs = xs"
  by (simp add: slice_to_def slice_from_def)

lemma list_insert_set: "set (list_insert i x xs) = insert x (set xs)"
  by (simp add: list_insert_def) (metis Un_insert_right insert_split set_append)

lemma list_insert_filter: "\<not> P x \<Longrightarrow> filter P (list_insert i x xs) = filter P xs"
  by (simp add: list_insert_def) (metis filter_append insert_split)

lemma condensation_observation_class [simp]:
  "is_o AgentCondensationObservation (condensation_observation s)" "e_class (condensation_observation s) = Obs AgentCondensationObservation"
  "event_id (condensation_observation s) = INVALID_ID"
  by (simp_all add: condensation_observation_def make_obs_def new_event_def is_o_def event_id_def)

lemma forgotten_ids_append: "forgotten_ids (as @ bs) = res_bind (forgotten_ids as) (\<lambda>a. res_map (\<lambda>b. a \<union> b) (forgotten_ids bs))"
proof (induction as)
  case (Cons e as)
  then show ?case by (simp add: res_bind_def res_map_def Un_assoc split: sum.splits)
qed (simp add: res_map_def split: sum.splits)

lemma forgotten_ids_mem:
  assumes "forgotten_ids es = Inr ids" and "e \<in> set es" and "is_a CondensationAction e \<or> is_a CondensationRequestAction e"
  shows "event_id e \<in> ids"
  using assms
proof (induction es arbitrary: ids)
  case (Cons x es)
  then show ?case by (auto simp: is_a_def split: if_splits)
qed simp

text \<open>Adding a condensation action to a history: what its ids name is forgotten, and its request is handled.\<close>

lemma from_events_snoc:
  assumes v: "from_events es = Inr v" and a: "is_a CondensationAction a" and f: "forgotten_of (e_fields a) = Inr ids"
    and new: "event_id a \<notin> v_forgotten v" "event_id a \<notin> event_id ` set es"
  shows "\<exists>v'. from_events (es @ [a]) = Inr v' \<and> \<not> v_request v' \<and> v_forgotten v' = v_forgotten v \<union> insert (event_id a) (set ids)
    \<and> v_events v' = (let kept = kept_events (set ids) (kept_events (v_forgotten v) es) in
        case last_summary [a] of
          Some (s, i) \<Rightarrow> list_insert i (condensation_observation s) kept
        | None \<Rightarrow> (case last_summary (rev es) of None \<Rightarrow> kept | Some (s, i) \<Rightarrow> list_insert i (condensation_observation s) kept))"
proof -
  obtain old where o: "forgotten_ids es = Inr old" "v_forgotten v = old" using v by (auto simp: from_events_def Let_def)
  have "forgotten_ids (es @ [a]) = Inr (old \<union> insert (event_id a) (set ids))"
    using o a f by (simp add: forgotten_ids_append is_a_def)
  moreover have "kept_events (old \<union> insert (event_id a) (set ids)) (es @ [a]) = kept_events (set ids) (kept_events old es)"
    using new o(2) by (auto simp: kept_events_def intro!: filter_cong) (metis imageI)
  moreover have "unhandled_request (rev (es @ [a])) = False" using a by simp
  moreover have "last_summary (rev (es @ [a])) = (case last_summary [a] of Some x \<Rightarrow> Some x | None \<Rightarrow> last_summary (rev es))"
    by simp
  ultimately show ?thesis
    using o by (auto simp: from_events_def Let_def simp del: last_summary.simps rev_append split: option.splits)
qed

section \<open>Properties\<close>

text \<open>A view has no condensation action and no request, and apart from the inserted summary its events are the events of
  the history that are not forgotten, in their order.\<close>

theorem view_respects_condensation:
  assumes "from_events es = Inr v"
  shows "(\<forall>e \<in> set (v_events v). \<not> is_a CondensationAction e \<and> \<not> is_a CondensationRequestAction e)
    \<and> (\<exists>rest. rest = filter (\<lambda>e. event_id e \<notin> v_forgotten v) es
        \<and> (v_events v = rest \<or> (\<exists>s i. last_summary (rev es) = Some (s, i) \<and> v_events v = list_insert i (condensation_observation s) rest)))"
proof -
  obtain ids where f: "forgotten_ids es = Inr ids" and vv: "v = \<lparr>v_events = (case last_summary (rev es) of None \<Rightarrow> kept_events ids es
        | Some (s, i) \<Rightarrow> list_insert i (condensation_observation s) (kept_events ids es)),
      v_request = unhandled_request (rev es), v_forgotten = ids\<rparr>"
    using assms by (auto simp: from_events_def Let_def)
  then have v: "v_forgotten v = ids" "v_events v = (case last_summary (rev es) of None \<Rightarrow> kept_events ids es
        | Some (s, i) \<Rightarrow> list_insert i (condensation_observation s) (kept_events ids es))" by simp_all
  have k: "\<not> is_a CondensationAction e \<and> \<not> is_a CondensationRequestAction e" if "e \<in> set (kept_events ids es)" for e
    using forgotten_ids_mem [OF f] that by (auto simp: kept_events_def)
  have "\<not> is_a c (condensation_observation s)" for c s by (simp add: is_a_def)
  with k have "\<forall>e \<in> set (v_events v). \<not> is_a CondensationAction e \<and> \<not> is_a CondensationRequestAction e"
    by (auto simp: v(2) list_insert_set split: option.splits)
  then show ?thesis by (auto simp: v kept_events_def split: option.splits)
qed

definition demo_condensation :: event where
  "demo_condensation = (make_act CondensationAction [(''forgotten_event_ids'', PList [PInt 0]), (''summary'', PStr ''s''), (''summary_offset'', PInt 0)])
     \<lparr>e_id := Some 2\<rparr>"

definition demo_history :: "event list" where
  "demo_history = [(make_act AgentThinkAction [])\<lparr>e_id := Some 0\<rparr>, (make_act AgentThinkAction [])\<lparr>e_id := Some 1\<rparr>, demo_condensation]"

theorem view_respects_condensation_witness:
  "\<exists>v. from_events demo_history = Inr v \<and> (\<forall>e \<in> set (v_events v). \<not> is_a CondensationAction e \<and> \<not> is_a CondensationRequestAction e)"
proof -
  have "\<not> isl (from_events demo_history)" by code_simp
  then obtain v where "from_events demo_history = Inr v" by (metis sum.collapse(2))
  with view_respects_condensation [OF this] show ?thesis by blast
qed

end
