(* ===== verification/Event_Serial.thy ===== *)
theory Event_Serial
  imports Events
begin

text \<open>
  Events to dictionaries and back: \<open>events/serialization\<close>, the constructor of \<open>CmdOutputObservation\<close>, and
  \<open>events/event_filter.py\<close>. A dictionary is a \<open>payload\<close>. What the code takes from libraries is the record
  \<open>codec\<close>: the version text of the installed package, \<open>ast.literal_eval\<close>, and pydantic's validation of one
  field against its annotation. The key \<open>llm_metrics\<close> is left out, as metrics are. The underscore keys have the types
  \<open>event_to_dict\<close> writes; for a value of another type the model raises \<open>TypeError\<close> where Python
  stores it and fails when it is converted.
\<close>

record codec =
  cd_version :: pyval
  cd_literal_eval :: "string \<Rightarrow> payload option" \<comment> \<open>\<open>None\<close>: \<open>ValueError\<close> or \<open>SyntaxError\<close>\<close>
  cd_validate :: "string \<Rightarrow> pyval \<Rightarrow> pyval res" \<comment> \<open>annotation and value\<close>

section \<open>Pydantic models\<close>

text \<open>\<open>Model(**data)\<close> as the dictionary \<open>model_dump()\<close> returns; unknown keys are ignored.\<close>

fun model_init :: "(string \<Rightarrow> pyval \<Rightarrow> pyval res) \<Rightarrow> (string \<times> string \<times> pyval option) list \<Rightarrow> payload \<Rightarrow> payload res" where
  "model_init check [] data = Inr []"
| "model_init check ((k, ann, d) # fs) data =
     res_bind (case dict_get data k of
         Some v \<Rightarrow> check ann v
       | None \<Rightarrow> (case d of Some v \<Rightarrow> Inr v | None \<Rightarrow> Inl (ValueError (''Field required: '' @ k))))
       (\<lambda>v. res_map (\<lambda>rest. (k, v) # rest) (model_init check fs data))"

definition CmdOutputMetadata_fields :: "(string \<times> string \<times> pyval option) list" where
  "CmdOutputMetadata_fields =
     [(''exit_code'', ''int'', Some (PInt (- 1))), (''pid'', ''int'', Some (PInt (- 1))),
      (''username'', ''str | None'', Some PNone), (''hostname'', ''str | None'', Some PNone),
      (''working_dir'', ''str | None'', Some PNone), (''py_interpreter_path'', ''str | None'', Some PNone),
      (''prefix'', ''str'', Some (PStr [])), (''suffix'', ''str'', Some (PStr []))]"

definition ToolCallMetadata_fields :: "(string \<times> string \<times> pyval option) list" where
  "ToolCallMetadata_fields =
     [(''function_name'', ''str'', None), (''tool_call_id'', ''str'', None),
      (''model_response'', ''ModelResponse'', None), (''total_calls_in_response'', ''int'', None)]"

text \<open>A dumped model is one the validators accept unchanged.\<close>

definition model_ok :: "(string \<Rightarrow> pyval \<Rightarrow> pyval res) \<Rightarrow> (string \<times> string \<times> pyval option) list \<Rightarrow> payload \<Rightarrow> bool" where
  "model_ok check fs m \<longleftrightarrow> dict_keys m = dict_keys fs \<and> list_all2 (\<lambda>(k, ann, d) (k', v). check ann v = Inr v) fs m"

section \<open>Command output\<close>

definition MAX_CMD_OUTPUT_SIZE :: nat where
  "MAX_CMD_OUTPUT_SIZE = 30000"

definition truncation_mark :: string where
  "truncation_mark = [nl] @ ''[... Observation truncated due to length ...]'' @ [nl]"

definition maybe_truncate :: "string \<Rightarrow> nat \<Rightarrow> string" where
  "maybe_truncate content max_size =
     (if length content \<le> max_size then content
      else let half = max_size div 2 in take half content @ truncation_mark @ last_slice half content)"

text \<open>\<open>truncate_content\<close> of the serialization, where the limit may be absent or negative.\<close>

definition truncate_content :: "string \<Rightarrow> int option \<Rightarrow> string" where
  "truncate_content content max_chars =
     (case max_chars of
        None \<Rightarrow> content
      | Some m \<Rightarrow>
          if int (length content) \<le> m \<or> m < 0 then content
          else let half = nat (m div 2) in take half content @ truncation_mark @ last_slice half content)"

text \<open>The content a \<open>CmdOutputObservation\<close> keeps: \<open>len\<close> of a value that has none raises.\<close>

fun cmd_output_content :: "bool \<Rightarrow> pyval \<Rightarrow> pyval res" where
  "cmd_output_content True v = Inr v"
| "cmd_output_content False (PStr s) = Inr (PStr (maybe_truncate s MAX_CMD_OUTPUT_SIZE))"
| "cmd_output_content False (PList vs) =
     (if length vs \<le> MAX_CMD_OUTPUT_SIZE then Inr (PList vs) else Inl (TypeError ''can only concatenate list''))"
| "cmd_output_content False (PTuple vs) =
     (if length vs \<le> MAX_CMD_OUTPUT_SIZE then Inr (PTuple vs) else Inl (TypeError ''can only concatenate tuple''))"
| "cmd_output_content False (PDict kvs) =
     (if length kvs \<le> MAX_CMD_OUTPUT_SIZE then Inr (PDict kvs) else Inl (TypeError ''unhashable type: slice''))"
| "cmd_output_content False v = Inl (TypeError ''object has no len()'')"

text \<open>\<open>CmdOutputObservation(content, **kwargs)\<close>: an unknown argument is swallowed by \<open>**kwargs\<close>.\<close>

definition cmd_output_init :: "codec \<Rightarrow> pyval \<Rightarrow> payload \<Rightarrow> payload res" where
  "cmd_output_init cd content kwargs =
     (case dict_get kwargs ''command'' of
        None \<Rightarrow> Inl (TypeError ''missing argument: command'')
      | Some command \<Rightarrow>
          let hidden = dict_get_default kwargs ''hidden'' (PBool False) in
          res_bind (cmd_output_content (py_truthy hidden) content) (\<lambda>c.
          res_map (\<lambda>m.
            let m1 = (case dict_get kwargs ''exit_code'' of Some v \<Rightarrow> dict_set ''exit_code'' v m | None \<Rightarrow> m);
                m2 = (case dict_get kwargs ''command_id'' of Some v \<Rightarrow> dict_set ''pid'' v m1 | None \<Rightarrow> m1)
            in [(''content'', c), (''command'', command),
                (''observation'', dict_get_default kwargs ''observation'' (PStr ''run'')),
                (''metadata'', PDict m2), (''hidden'', hidden)])
            (case dict_get_default kwargs ''metadata'' PNone of
               PDict m \<Rightarrow> model_init (cd_validate cd) CmdOutputMetadata_fields m
             | _ \<Rightarrow> Inr default_metadata)))"

section \<open>To a dictionary\<close>

definition TOP_KEYS :: "string list" where
  "TOP_KEYS = [''id'', ''timestamp'', ''source'', ''message'', ''cause'', ''action'', ''observation'',
     ''tool_call_metadata'', ''llm_metrics'']"

definition UNDERSCORE_KEYS :: "string list" where
  "UNDERSCORE_KEYS = [''id'', ''timestamp'', ''source'', ''cause'', ''tool_call_metadata'']"

definition opt_val :: "('a \<Rightarrow> pyval) \<Rightarrow> 'a option \<Rightarrow> pyval" where
  "opt_val f x = (case x of None \<Rightarrow> PNone | Some a \<Rightarrow> f a)"

text \<open>The attribute \<open>key\<close> of the event, or its underscore attribute.\<close>

definition top_attr :: "(pyval \<Rightarrow> string) \<Rightarrow> event \<Rightarrow> string \<Rightarrow> pyval res" where
  "top_attr rp e key =
     (if key = ''id'' then Inr (PInt (event_id e))
      else if key = ''timestamp'' then Inr (opt_val PStr (e_timestamp e))
      else if key = ''source'' then Inr (opt_val (\<lambda>s. PStr (event_source_value s)) (e_source e))
      else if key = ''message'' then res_map PStr (event_message rp e)
      else if key = ''cause'' then Inr (opt_val PInt (e_cause e))
      else if key = ''tool_call_metadata'' then Inr (opt_val PDict (e_tool_call e))
      else if key = ''llm_metrics'' then Inr PNone
      else Inr (get_attr e key PNone))"

fun top_entries :: "(pyval \<Rightarrow> string) \<Rightarrow> event \<Rightarrow> string list \<Rightarrow> payload res" where
  "top_entries rp e [] = Inr []"
| "top_entries rp e (key # keys) =
     res_bind (top_attr rp e key) (\<lambda>v.
       res_map (\<lambda>rest. (if v = PNone \<or> (key = ''id'' \<and> v = PInt INVALID_ID) then [] else [(key, v)]) @ rest)
         (top_entries rp e keys))"

definition event_success :: "event \<Rightarrow> bool option" where
  "event_success e =
     (if is_o CmdOutputObservation e then Some (field_of (dict_of (e_fields e) ''metadata'') ''exit_code'' = PInt 0)
      else if is_o IPythonRunCellObservation e then Some True else None)"

text \<open>The fields that are not top-level keys, without an absent risk or completion.\<close>

definition event_props :: "event \<Rightarrow> payload" where
  "event_props e =
     (let props = filter (\<lambda>(k, v). k \<notin> set TOP_KEYS) (e_fields e);
          props = (if dict_get props ''security_risk'' = Some PNone then dict_del ''security_risk'' props else props)
      in if dict_get props ''task_completed'' = Some PNone then dict_del ''task_completed'' props else props)"

definition event_to_dict :: "(pyval \<Rightarrow> string) \<Rightarrow> event \<Rightarrow> payload res" where
  "event_to_dict rp e =
     res_bind (top_entries rp e TOP_KEYS) (\<lambda>d.
       let props = event_props e in
       if ''action'' \<in> set (dict_keys d) then
         Inr (d @ [(''args'', PDict props)]
              @ (case e_timeout e of None \<Rightarrow> [] | Some t \<Rightarrow> [(''timeout'', PFloat t)]))
       else if ''observation'' \<in> set (dict_keys d) then
         Inr (d @ [(''content'', dict_get_default props ''content'' (PStr [])),
                   (''extras'', PDict (dict_del ''content'' props))]
              @ (case event_success e of None \<Rightarrow> [] | Some b \<Rightarrow> [(''success'', PBool b)]))
       else Inl (ValueError ''Event must be either action or observation.''))"

section \<open>Trajectories\<close>

definition DELETE_FROM_TRAJECTORY_EXTRAS :: "string list" where
  "DELETE_FROM_TRAJECTORY_EXTRAS = [''dom_object'', ''axtree_object'', ''active_page_index'', ''last_browser_action'',
     ''last_browser_action_error'', ''focused_element_bid'', ''extra_element_properties'']"

definition DELETE_FROM_TRAJECTORY_EXTRAS_AND_SCREENSHOTS :: "string list" where
  "DELETE_FROM_TRAJECTORY_EXTRAS_AND_SCREENSHOTS = DELETE_FROM_TRAJECTORY_EXTRAS @ [''screenshot'', ''set_of_marks'']"

fun remove_fields :: "string list \<Rightarrow> pyval \<Rightarrow> pyval" where
  "remove_fields ks (PDict kvs) =
     PDict (map (\<lambda>(k, v). (k, remove_fields ks v)) (filter (\<lambda>(k, v). k \<notin> set ks) kvs))"
| "remove_fields ks (PList vs) = PList (map (remove_fields ks) vs)"
| "remove_fields ks (PTuple vs) = PTuple (map (remove_fields ks) vs)"
| "remove_fields ks v = v"

definition event_to_trajectory :: "(pyval \<Rightarrow> string) \<Rightarrow> event \<Rightarrow> bool \<Rightarrow> payload res" where
  "event_to_trajectory rp e include_screenshots =
     res_map (\<lambda>d. case dict_get d ''extras'' of
         None \<Rightarrow> d
       | Some x \<Rightarrow> dict_set ''extras'' (remove_fields (if include_screenshots then DELETE_FROM_TRAJECTORY_EXTRAS
           else DELETE_FROM_TRAJECTORY_EXTRAS_AND_SCREENSHOTS) x) d)
       (event_to_dict rp e)"

section \<open>Actions from a dictionary\<close>

definition actions :: "action_class list" where
  "actions = [NullAction, CmdRunAction, IPythonRunCellAction, BrowseURLAction, BrowseInteractiveAction, FileReadAction,
     FileWriteAction, FileEditAction, AgentThinkAction, AgentFinishAction, AgentRejectAction, AgentDelegateAction,
     RecallAction, ChangeAgentStateAction, MessageAction, SystemMessageAction, CondensationAction,
     CondensationRequestAction, MCPAction, TaskTrackingAction, LoopRecoveryAction]"

definition ACTION_TYPE_TO_CLASS :: "(string, action_class) dict" where
  "ACTION_TYPE_TO_CLASS = map (\<lambda>c. (type_name (Act c), c)) actions"

text \<open>\<open>ActionSecurityRisk(v)\<close>: the number of a member, as any of Python's equal numbers.\<close>

fun risk_of :: "pyval \<Rightarrow> pyval option" where
  "risk_of (PInt i) = (if - 1 \<le> i \<and> i \<le> 2 then Some (PInt i) else None)"
| "risk_of (PBool b) = Some (PInt (of_bool b))"
| "risk_of (PFloat r) = (if r \<in> {- 1, 0, 1, 2} then Some (PInt \<lfloor>r\<rfloor>) else None)"
| "risk_of v = None"

definition malformed :: "string \<Rightarrow> py_exn" where
  "malformed msg = OtherError ''LLMMalformedActionError'' msg"

definition file_editor_prefix :: string where
  "file_editor_prefix = ''print(file_editor(**''"

definition translated_args :: "codec \<Rightarrow> pyval \<Rightarrow> payload \<Rightarrow> payload res" where
  "translated_args cd v args =
     (case v of
        PNone \<Rightarrow> Inr args
      | PStr s \<Rightarrow>
          if prefix file_editor_prefix s \<and> suffix ''))'' s then
            (case cd_literal_eval cd (take (length s - 2 - length file_editor_prefix) (drop (length file_editor_prefix) s)) of
               None \<Rightarrow> Inr args
             | Some file_args \<Rightarrow> Inr (fold (\<lambda>(k, x). dict_set k x) file_args args))
          else Inr args
      | _ \<Rightarrow> Inl (OtherError ''AttributeError'' ''startswith''))"

definition handle_action_deprecated_args :: "codec \<Rightarrow> payload \<Rightarrow> payload res" where
  "handle_action_deprecated_args cd args =
     (let args = dict_del ''task_completed'' (dict_del ''keep_prompt'' args) in
      case dict_get args ''translated_ipython_code'' of
        None \<Rightarrow> Inr args
      | Some v \<Rightarrow>
          res_map (\<lambda>args. if dict_get args ''command'' = Some (PStr ''view'') then dict_del ''command'' args else args)
            (translated_args cd v (dict_del ''translated_ipython_code'' args)))"

text \<open>Renamed and converted arguments.\<close>

definition renamed_args :: "payload \<Rightarrow> payload" where
  "renamed_args args =
     (let args = dict_del ''timestamp'' args;
          confirmed = dict_get_default args ''is_confirmed'' PNone;
          args = dict_del ''is_confirmed'' args;
          args = (if confirmed \<noteq> PNone then dict_set ''confirmation_state'' confirmed args else args)
      in case dict_get args ''images_urls'' of
           None \<Rightarrow> args
         | Some v \<Rightarrow> dict_set ''image_urls'' v (dict_del ''images_urls'' args))"

definition risk_args :: "payload \<Rightarrow> payload" where
  "risk_args args =
     (case dict_get args ''security_risk'' of
        None \<Rightarrow> args
      | Some PNone \<Rightarrow> args
      | Some v \<Rightarrow> (case risk_of v of Some r \<Rightarrow> dict_set ''security_risk'' r args | None \<Rightarrow> dict_del ''security_risk'' args))"

fun number_attr :: "pyval \<Rightarrow> rat option res" where
  "number_attr PNone = Inr None"
| "number_attr (PFloat r) = Inr (Some r)"
| "number_attr (PInt i) = Inr (Some (of_int i))"
| "number_attr v = Inl (TypeError ''float'')"

fun text_attr :: "pyval \<Rightarrow> string option res" where
  "text_attr PNone = Inr None"
| "text_attr (PStr s) = Inr (Some s)"
| "text_attr v = Inl (TypeError ''str'')"

fun int_attr :: "pyval \<Rightarrow> int option res" where
  "int_attr PNone = Inr None"
| "int_attr (PInt i) = Inr (Some i)"
| "int_attr v = Inl (TypeError ''int'')"

fun args_dict :: "pyval \<Rightarrow> payload res" where
  "args_dict (PDict d) = Inr d"
| "args_dict v = Inl (OtherError ''AttributeError'' ''pop'')"

text \<open>\<open>action_class(**args)\<close>, its timeout and its timestamp.\<close>

definition build_action :: "codec \<Rightarrow> action_class \<Rightarrow> payload \<Rightarrow> payload \<Rightarrow> pyval \<Rightarrow> event res" where
  "build_action cd c action args timestamp =
     (if \<not> args_ok (ds_fields (action_spec (cd_version cd) c)) args then Inl (malformed ''wrong arguments'')
      else if \<not> post_init (Act c) (init_fields (ds_fields (action_spec (cd_version cd) c)) args)
      then Inl (ValueError ''Invalid configuration of the optional fields.'')
      else let e = new_event (Act c) (init_fields (ds_fields (action_spec (cd_version cd) c)) args) in
        res_bind (case dict_get action ''timeout'' of
            None \<Rightarrow> Inr e
          | Some t \<Rightarrow> res_map (\<lambda>t. set_hard_timeout t (dict_get_default args ''blocking'' (PBool False)) e) (number_attr t))
          (\<lambda>e. if py_truthy timestamp then res_map (\<lambda>ts. e\<lparr>e_timestamp := ts\<rparr>) (text_attr timestamp) else Inr e))"

definition action_from_dict :: "codec \<Rightarrow> payload \<Rightarrow> event res" where
  "action_from_dict cd action =
     (case dict_get action ''action'' of
        None \<Rightarrow> Inl (malformed ''action key is not found'')
      | Some (PStr name) \<Rightarrow>
          (case dict_get ACTION_TYPE_TO_CLASS name of
             None \<Rightarrow> Inl (malformed (name @ '' is not defined''))
           | Some c \<Rightarrow>
               res_bind (args_dict (dict_get_default action ''args'' (PDict []))) (\<lambda>args.
               res_bind (handle_action_deprecated_args cd (risk_args (renamed_args args))) (\<lambda>args'.
                 build_action cd c action args' (dict_get_default args ''timestamp'' PNone))))
      | Some _ \<Rightarrow> Inl (malformed ''action is not defined''))"

section \<open>Observations from a dictionary\<close>

definition observations :: "observation_class list" where
  "observations = [NullObservation, CmdOutputObservation, IPythonRunCellObservation, BrowserOutputObservation,
     FileReadObservation, FileWriteObservation, FileEditObservation, AgentDelegateObservation, SuccessObservation,
     ErrorObservation, AgentStateChangedObservation, UserRejectObservation, AgentCondensationObservation,
     AgentThinkObservation, RecallObservation, MCPObservation, FileDownloadObservation, TaskTrackingObservation,
     LoopDetectionObservation]"

definition OBSERVATION_TYPE_TO_CLASS :: "(string, observation_class) dict" where
  "OBSERVATION_TYPE_TO_CLASS = map (\<lambda>c. (type_name (Obs c), c)) observations"

text \<open>\<open>_update_cmd_output_metadata(metadata, key=value)\<close>; a metadata object is its dictionary.\<close>

fun update_cmd_output_metadata :: "codec \<Rightarrow> pyval \<Rightarrow> string \<Rightarrow> pyval \<Rightarrow> pyval res" where
  "update_cmd_output_metadata cd PNone k v = res_map PDict (model_init (cd_validate cd) CmdOutputMetadata_fields [(k, v)])"
| "update_cmd_output_metadata cd (PDict m) k v = Inr (PDict (dict_set k v m))"
| "update_cmd_output_metadata cd m k v = Inr m"

definition deprecated_extra :: "codec \<Rightarrow> string \<Rightarrow> string \<Rightarrow> payload \<Rightarrow> payload res" where
  "deprecated_extra cd old field extras =
     (case dict_get extras old of
        None \<Rightarrow> Inr extras
      | Some v \<Rightarrow>
          res_map (\<lambda>m. dict_set ''metadata'' m (dict_del old extras))
            (update_cmd_output_metadata cd (dict_get_default extras ''metadata'' PNone) field v))"

definition handle_observation_deprecated_extras :: "codec \<Rightarrow> payload \<Rightarrow> payload res" where
  "handle_observation_deprecated_extras cd extras =
     res_bind (deprecated_extra cd ''exit_code'' ''exit_code'' extras) (\<lambda>x.
       res_map (dict_del ''formatted_output_and_error'') (deprecated_extra cd ''command_id'' ''pid'' x))"

definition MicroagentKnowledge_fields :: "(string \<times> pyval option) list" where
  "MicroagentKnowledge_fields = [(''name'', None), (''trigger'', None), (''content'', None)]"

fun knowledge_items :: "pyval list \<Rightarrow> pyval list res" where
  "knowledge_items [] = Inr []"
| "knowledge_items (PDict d # vs) =
     (if args_ok MicroagentKnowledge_fields d
      then res_map ((#) (PDict (init_fields MicroagentKnowledge_fields d))) (knowledge_items vs)
      else Inl (TypeError ''MicroagentKnowledge''))"
| "knowledge_items (v # vs) = res_map ((#) v) (knowledge_items vs)"

definition recall_type_ok :: "pyval \<Rightarrow> bool" where
  "recall_type_ok v \<longleftrightarrow> v \<in> {PStr ''workspace_context'', PStr ''knowledge''}"

definition recall_extras :: "payload \<Rightarrow> payload res" where
  "recall_extras extras =
     (if case dict_get extras ''recall_type'' of None \<Rightarrow> False | Some v \<Rightarrow> \<not> recall_type_ok v
      then Inl (ValueError ''not a valid RecallType'')
      else case dict_get extras ''microagent_knowledge'' of
          Some (PList vs) \<Rightarrow> res_map (\<lambda>vs'. dict_set ''microagent_knowledge'' (PList vs') extras) (knowledge_items vs)
        | _ \<Rightarrow> Inr extras)"

definition command_extras :: "codec \<Rightarrow> payload \<Rightarrow> payload res" where
  "command_extras cd extras =
     res_map (\<lambda>m. dict_set ''metadata'' (PDict m) extras)
       (model_init (cd_validate cd) CmdOutputMetadata_fields (dict_val (dict_get_default extras ''metadata'' PNone)))"

definition build_observation :: "codec \<Rightarrow> observation_class \<Rightarrow> pyval \<Rightarrow> payload \<Rightarrow> event res" where
  "build_observation cd c content extras =
     (if ''content'' \<in> set (dict_keys extras) then Inl (TypeError ''multiple values for argument content'')
      else if c = CmdOutputObservation then res_map (new_event (Obs c)) (cmd_output_init cd content extras)
      else let args = (''content'', content) # extras in
        if args_ok (ds_fields (observation_spec c)) args
        then Inr (new_event (Obs c) (init_fields (ds_fields (observation_spec c)) args))
        else Inl (TypeError ''wrong arguments''))"

fun extras_dict :: "pyval \<Rightarrow> payload res" where
  "extras_dict (PDict d) = Inr d"
| "extras_dict v = Inl (TypeError ''extras'')"

definition observation_from_dict :: "codec \<Rightarrow> payload \<Rightarrow> event res" where
  "observation_from_dict cd observation =
     (case dict_get observation ''observation'' of
        None \<Rightarrow> Inl (KeyError ''observation'')
      | Some v \<Rightarrow>
          (case dict_get OBSERVATION_TYPE_TO_CLASS (text_val v) of
             None \<Rightarrow> Inl (KeyError (text_val v))
           | Some c \<Rightarrow>
               res_bind (extras_dict (dict_get_default observation ''extras'' (PDict []))) (\<lambda>extras.
               res_bind (handle_observation_deprecated_extras cd extras) (\<lambda>extras.
               res_bind (if c = CmdOutputObservation then command_extras cd extras
                         else if c = RecallObservation then recall_extras extras else Inr extras) (\<lambda>extras.
                 build_observation cd c (dict_get_default observation ''content'' (PStr [])) extras)))))"

section \<open>Events from a dictionary\<close>

fun source_attr :: "pyval \<Rightarrow> event_source res" where
  "source_attr (PStr s) = event_source_of s"
| "source_attr v = Inl (ValueError ''not a valid EventSource'')"

definition set_underscore :: "codec \<Rightarrow> string \<Rightarrow> pyval \<Rightarrow> event \<Rightarrow> event res" where
  "set_underscore cd key v e =
     (if key = ''id'' then res_map (\<lambda>x. e\<lparr>e_id := x\<rparr>) (int_attr v)
      else if key = ''timestamp'' then res_map (\<lambda>x. e\<lparr>e_timestamp := x\<rparr>) (text_attr v)
      else if key = ''source'' then res_map (\<lambda>x. e\<lparr>e_source := Some x\<rparr>) (source_attr v)
      else if key = ''cause'' then res_map (\<lambda>x. e\<lparr>e_cause := x\<rparr>) (int_attr v)
      else res_bind (extras_dict v) (\<lambda>m.
        res_map (\<lambda>x. e\<lparr>e_tool_call := Some x\<rparr>) (model_init (cd_validate cd) ToolCallMetadata_fields m)))"

fun set_underscores :: "codec \<Rightarrow> payload \<Rightarrow> string list \<Rightarrow> event \<Rightarrow> event res" where
  "set_underscores cd data [] e = Inr e"
| "set_underscores cd data (key # keys) e =
     res_bind (case dict_get data key of None \<Rightarrow> Inr e | Some v \<Rightarrow> set_underscore cd key v e) (set_underscores cd data keys)"

definition event_from_dict :: "codec \<Rightarrow> payload \<Rightarrow> event res" where
  "event_from_dict cd data =
     res_bind
       (if ''action'' \<in> set (dict_keys data) then action_from_dict cd data
        else if ''observation'' \<in> set (dict_keys data) then observation_from_dict cd data
        else Inl (ValueError ''Unknown event type''))
       (set_underscores cd data UNDERSCORE_KEYS)"

section \<open>The tables\<close>

definition DEPRECATED_KEYS :: "string list" where
  "DEPRECATED_KEYS = [''timestamp'', ''is_confirmed'', ''images_urls'', ''keep_prompt'', ''task_completed'',
     ''translated_ipython_code'', ''exit_code'', ''command_id'', ''formatted_output_and_error'']"

definition table_ok :: "event_class \<Rightarrow> bool" where
  "table_ok c =
     (let fs = ds_fields (class_spec PNone c); ks = dict_keys fs in
      distinct ks \<and> dict_get fs (type_key c) = Some (Some (PStr (type_name c)))
      \<and> list_all (\<lambda>k. (k = type_key c \<or> k \<notin> set TOP_KEYS) \<and> k \<notin> set DEPRECATED_KEYS) ks
      \<and> (case c of Act a \<Rightarrow> dict_get ACTION_TYPE_TO_CLASS (type_name c) = Some a
         | Obs x \<Rightarrow> ''content'' \<in> set ks \<and> dict_get OBSERVATION_TYPE_TO_CLASS (type_name c) = Some x))"

lemma table_ok_act: "table_ok (Act a)"
  by (induct a; code_simp)

lemma table_ok_obs: "table_ok (Obs x)"
  by (induct x; code_simp)

lemma table_ok: "table_ok c"
  by (cases c) (simp_all add: table_ok_act table_ok_obs)

lemma keys_version: "dict_keys (ds_fields (class_spec ver c)) = dict_keys (ds_fields (class_spec PNone c))"
proof (cases c)
  case (Act a)
  then show ?thesis by (cases a) (simp_all add: SystemMessageAction_spec_def)
qed simp

section \<open>Lemmas\<close>

lemma model_init_ok:
  assumes "model_ok check fs m" and "distinct (dict_keys fs)"
  shows "model_init check fs m = Inr m"
proof -
  have "model_init check fs m' = Inr m"
    if "dict_keys m = dict_keys fs" "list_all2 (\<lambda>(k, ann, d) (k', v). check ann v = Inr v) fs m"
      "distinct (dict_keys fs)" "\<forall>(k, v) \<in> set m. dict_get m' k = Some v" for m'
    using that(2,1,3,4)
    by (induction rule: list_all2_induct) auto
  moreover have "\<forall>(k, v) \<in> set m. dict_get m k = Some v"
    using assms by (auto simp: model_ok_def)
  ultimately show ?thesis using assms by (simp add: model_ok_def)
qed

lemma top_entries_get:
  assumes "top_entries rp e keys = Inr d" and "distinct keys"
  shows "dict_get d k =
    (if k \<in> set keys
     then case top_attr rp e k of
         Inl x \<Rightarrow> None
       | Inr v \<Rightarrow> if v = PNone \<or> (k = ''id'' \<and> v = PInt INVALID_ID) then None else Some v
     else None)"
  using assms by (induction keys arbitrary: d) (auto simp: map_add_def split: option.splits)

lemma TOP_KEYS_distinct: "distinct TOP_KEYS"
  by code_simp

text \<open>Reading a dictionary that \<open>event_to_dict\<close> wrote.\<close>

definition fields_ok :: "event \<Rightarrow> bool" where
  "fields_ok e \<longleftrightarrow>
     dict_keys (e_fields e) = dict_keys (ds_fields (class_spec PNone (e_class e)))
     \<and> dict_get (e_fields e) (type_key (e_class e)) = Some (PStr (type_name (e_class e)))
     \<and> list_all (\<lambda>k. k \<notin> set TOP_KEYS) (dict_keys (e_attrs e))"

lemma fields_ok_facts:
  assumes "fields_ok e"
  shows "dict_ok (e_fields e)"
    and "\<And>k. k \<in> set (dict_keys (e_fields e)) \<Longrightarrow> k = type_key (e_class e) \<or> k \<notin> set TOP_KEYS"
    and "\<And>k. k \<in> set DEPRECATED_KEYS \<Longrightarrow> k \<notin> set (dict_keys (e_fields e))"
    and "\<And>k. k \<in> set TOP_KEYS \<Longrightarrow> k \<noteq> type_key (e_class e) \<Longrightarrow> get_attr e k PNone = PNone"
    and "get_attr e (type_key (e_class e)) PNone = PStr (type_name (e_class e))"
proof -
  note t = table_ok [of "e_class e", unfolded table_ok_def Let_def]
  show "dict_ok (e_fields e)" using t assms by (simp add: fields_ok_def)
  show i: "k = type_key (e_class e) \<or> k \<notin> set TOP_KEYS" if "k \<in> set (dict_keys (e_fields e))" for k
    using t assms that unfolding fields_ok_def list_all_iff by metis
  show "k \<notin> set (dict_keys (e_fields e))" if "k \<in> set DEPRECATED_KEYS" for k
    using t assms that unfolding fields_ok_def list_all_iff by metis
  show "get_attr e k PNone = PNone" if "k \<in> set TOP_KEYS" "k \<noteq> type_key (e_class e)" for k
  proof -
    have "k \<notin> set (dict_keys (e_fields e))" "k \<notin> set (dict_keys (e_attrs e))"
      using i that assms unfolding fields_ok_def list_all_iff by metis+
    then have "dict_get (e_fields e) k = None" "dict_get (e_attrs e) k = None"
      by (simp_all add: dict_get_None_iff)
    then show ?thesis by (simp add: get_attr_def dict_get_default_def)
  qed
  show "get_attr e (type_key (e_class e)) PNone = PStr (type_name (e_class e))"
    using assms by (simp add: fields_ok_def get_attr_def)
qed

lemma type_key_version:
  "dict_get (ds_fields (class_spec ver c)) (type_key c) = Some (Some (PStr (type_name c)))"
proof -
  have "dict_get (ds_fields (class_spec ver c)) (type_key c) = dict_get (ds_fields (class_spec PNone c)) (type_key c)"
  proof (cases c)
    case (Act a)
    then show ?thesis by (cases a) (simp_all add: SystemMessageAction_spec_def type_key_def)
  qed simp
  then show ?thesis using table_ok [of c] by (simp add: table_ok_def Let_def)
qed

lemma init_fields_back:
  assumes keys: "dict_keys fs = dict_keys spec" and ok: "dict_ok fs"
    and d: "dict_get spec tk = Some (Some v)" and v: "dict_get fs tk = Some v"
    and args: "\<And>k. k \<noteq> tk \<Longrightarrow> dict_get args k = dict_get fs k" "dict_get args tk = None"
  shows "init_fields spec args = fs"
proof -
  have "fst p = fst q \<and> snd q = (case dict_get args (fst p) of Some v \<Rightarrow> v | None \<Rightarrow> (case snd p of Some v \<Rightarrow> v | None \<Rightarrow> PNone))"
    if "i < length spec" "p = spec ! i" "q = fs ! i" for i p q
  proof -
    have k: "fst p = fst q" using that keys by (metis length_map nth_map)
    have m: "(fst q, snd q) \<in> set fs" "(fst p, snd p) \<in> set spec"
      using that keys by (metis length_map nth_mem prod.collapse)+
    then have fq: "dict_get fs (fst q) = Some (snd q)" using ok by simp
    have sp: "dict_get spec (fst p) = Some (snd p)" using m(2) ok keys by simp
    show ?thesis
      using k fq sp d v args by (cases "fst q = tk") (auto dest: sym)
  qed
  note each = this
  have len: "length fs = length spec" using keys by (metis length_map)
  show ?thesis
    unfolding init_fields_def
    by (rule nth_equalityI) (use len each in \<open>auto simp: prod_eq_iff split_beta\<close>)
qed

lemma event_props_ok:
  assumes "fields_ok e" and "dict_get (e_fields e) ''security_risk'' \<noteq> Some PNone"
  shows "event_props e = filter (\<lambda>(k, v). k \<noteq> type_key (e_class e)) (e_fields e)"
proof -
  have f: "filter (\<lambda>(k, v). k \<notin> set TOP_KEYS) (e_fields e) = filter (\<lambda>(k, v). k \<noteq> type_key (e_class e)) (e_fields e)"
  proof (rule filter_cong [OF refl])
    fix x assume "x \<in> set (e_fields e)"
    then have "fst x \<in> set (dict_keys (e_fields e))" by simp
    with fields_ok_facts(2) [OF assms(1)]
    have "fst x = type_key (e_class e) \<or> fst x \<notin> set TOP_KEYS" by blast
    moreover have "type_key (e_class e) \<in> set TOP_KEYS" by (simp add: type_key_def TOP_KEYS_def split: event_class.splits)
    ultimately show "(case x of (k, v) \<Rightarrow> k \<notin> set TOP_KEYS) = (case x of (k, v) \<Rightarrow> k \<noteq> type_key (e_class e))"
      by (auto simp: split_beta)
  qed
  have "''task_completed'' \<notin> set (dict_keys (e_fields e))"
    by (rule fields_ok_facts(3) [OF assms(1)]) (simp add: DEPRECATED_KEYS_def)
  then have "dict_get (e_fields e) ''task_completed'' = None" by (simp add: dict_get_None_iff)
  with assms(2) show ?thesis by (simp add: event_props_def Let_def f dict_get_filter)
qed

lemma action_args_back:
  assumes "\<forall>k \<in> set DEPRECATED_KEYS. k \<notin> set (dict_keys args)"
    and "case dict_get args ''security_risk'' of None \<Rightarrow> True | Some v \<Rightarrow> risk_of v = Some v"
  shows "handle_action_deprecated_args cd (risk_args (renamed_args args)) = Inr args"
    and "dict_get_default args ''timestamp'' PNone = PNone"
proof -
  from assms(1) have a: "k \<notin> set (dict_keys args)" if "k \<in> set DEPRECATED_KEYS" for k using that by blast
  note a' = a [of "''timestamp''"] a [of "''is_confirmed''"] a [of "''images_urls''"] a [of "''keep_prompt''"]
    a [of "''task_completed''"] a [of "''translated_ipython_code''"]
  have n: "dict_get args k = None" if "k \<in> set DEPRECATED_KEYS" for k
    using a [OF that] by (simp add: dict_get_None_iff)
  note n' = n [of "''is_confirmed''"] n [of "''images_urls''"] n [of "''translated_ipython_code''"]
  have r: "renamed_args args = args"
    using a' n' by (simp add: renamed_args_def Let_def dict_del_absent DEPRECATED_KEYS_def dict_get_default_def)
  have "risk_args args = args"
    using assms(2) by (auto simp: risk_args_def dict_set_same split: option.splits pyval.splits)
  with r show "handle_action_deprecated_args cd (risk_args (renamed_args args)) = Inr args"
    using a' n' by (simp add: handle_action_deprecated_args_def Let_def dict_del_absent DEPRECATED_KEYS_def)
  show "dict_get_default args ''timestamp'' PNone = PNone"
    using n [of "''timestamp''"] by (simp add: dict_get_default_def DEPRECATED_KEYS_def)
qed

definition risk_ok :: "event \<Rightarrow> bool" where
  "risk_ok e = (case dict_get (e_fields e) ''security_risk'' of None \<Rightarrow> True | Some v \<Rightarrow> risk_of v = Some v)"

text \<open>The class, the fields and the timeout of an action come back.\<close>

lemma args_ok_back:
  assumes "dict_ok spec" and "dict_get spec tk = Some (Some v)"
    and keys: "set (dict_keys args) = set (dict_keys spec) - {tk}"
  shows "args_ok spec args"
proof -
  have "d \<noteq> None \<or> k \<in> set (dict_keys args)" if "(k, d) \<in> set spec" for k d
  proof (cases "k = tk")
    case True
    with that assms(1,2) show ?thesis by simp
  next
    case False
    from that have "k \<in> set (dict_keys spec)" by (metis image_eqI fst_conv set_map)
    with False keys show ?thesis by blast
  qed
  moreover have "\<forall>k \<in> set (dict_keys args). k \<in> set (dict_keys spec)" using keys by blast
  ultimately show ?thesis by (auto simp: args_ok_def list_all_iff)
qed

lemma keys_filter: "set (dict_keys (filter (\<lambda>(k, v). k \<noteq> q) d)) = set (dict_keys d) - {q}"
  by force

lemma action_back:
  assumes c: "e_class e = Act a" and ok: "fields_ok e" and risk: "risk_ok e" and post: "post_init (e_class e) (e_fields e)"
    and name: "dict_get d ''action'' = Some (PStr (type_name (Act a)))"
    and args: "dict_get d ''args'' = Some (PDict (filter (\<lambda>(k, v). k \<noteq> ''action'') (e_fields e)))"
    and time: "dict_get d ''timeout'' = map_option PFloat (e_timeout e)"
  shows "action_from_dict cd d = Inr ((new_event (Act a) (e_fields e))\<lparr>e_timeout := e_timeout e\<rparr>)"
proof -
  let ?args = "filter (\<lambda>(k, v). k \<noteq> ''action'') (e_fields e)" and ?spec = "ds_fields (action_spec (cd_version cd) a)"
  have k: "dict_keys (e_fields e) = dict_keys ?spec" and f: "dict_get (e_fields e) ''action'' = Some (PStr (type_name (Act a)))"
    using ok c keys_version [of "cd_version cd" "Act a"] by (simp_all add: fields_ok_def type_key_def)
  have s: "dict_get ?spec ''action'' = Some (Some (PStr (type_name (Act a))))"
    using type_key_version [of "cd_version cd" "Act a"] by (simp add: type_key_def)
  have init: "init_fields ?spec ?args = e_fields e"
    by (rule init_fields_back [OF k fields_ok_facts(1) [OF ok] s f]) (simp_all add: dict_get_filter)
  have aok: "args_ok ?spec ?args"
    using fields_ok_facts(1) [OF ok] by (intro args_ok_back [OF _ s]) (simp_all only: k keys_filter)
  have dep: "\<forall>k \<in> set DEPRECATED_KEYS. k \<notin> set (dict_keys ?args)"
    using fields_ok_facts(3) [OF ok] unfolding keys_filter by blast
  have r: "case dict_get ?args ''security_risk'' of None \<Rightarrow> True | Some v \<Rightarrow> risk_of v = Some v"
    using risk by (simp add: risk_ok_def dict_get_filter)
  have cls: "dict_get ACTION_TYPE_TO_CLASS (type_name (Act a)) = Some a"
    using table_ok [of "Act a"] by (simp add: table_ok_def Let_def)
  have b: "set_hard_timeout t (dict_get_default ?args ''blocking'' (PBool False)) (new_event (Act a) (e_fields e))
      = (new_event (Act a) (e_fields e))\<lparr>e_timeout := t\<rparr>" for t
  proof (cases "dict_get (e_fields e) ''blocking''")
    case None
    then show ?thesis
      by (simp add: set_hard_timeout_def has_attr_def new_event_def dict_get_None_iff)
  next
    case (Some v)
    then have "''blocking'' \<in> set (dict_keys (e_fields e))" using dict_get_None_iff [of "e_fields e" "''blocking''"] by simp
    with Some show ?thesis
      by (simp add: set_hard_timeout_def has_attr_def set_attr_def new_event_def dict_get_default_def dict_get_filter dict_set_same)
  qed
  have "build_action cd a d ?args PNone = Inr ((new_event (Act a) (e_fields e))\<lparr>e_timeout := e_timeout e\<rparr>)"
    using time b aok init post c by (cases "e_timeout e") (simp_all add: build_action_def Let_def, simp add: new_event_def)
  then show ?thesis
    using name args cls action_args_back [OF dep r] by (simp add: action_from_dict_def dict_get_default_def)
qed

text \<open>What the constructors of an observation leave as it is.\<close>

definition observation_ok :: "codec \<Rightarrow> event \<Rightarrow> bool" where
  "observation_ok cd e =
     (if is_o CmdOutputObservation e then
        cmd_output_content (py_truthy (field_of (e_fields e) ''hidden'')) (field_of (e_fields e) ''content'')
          = Inr (field_of (e_fields e) ''content'')
        \<and> (case field_of (e_fields e) ''metadata'' of PDict m \<Rightarrow> model_ok (cd_validate cd) CmdOutputMetadata_fields m | _ \<Rightarrow> False)
      else if is_o RecallObservation e then
        recall_type_ok (field_of (e_fields e) ''recall_type'')
        \<and> (case field_of (e_fields e) ''microagent_knowledge'' of PList vs \<Rightarrow> knowledge_items vs = Inr vs | _ \<Rightarrow> True)
      else True)"

lemma extras_back:
  assumes "\<forall>k \<in> set DEPRECATED_KEYS. k \<notin> set (dict_keys extras)"
  shows "handle_observation_deprecated_extras cd extras = Inr extras"
proof -
  from assms have a: "k \<notin> set (dict_keys extras)" if "k \<in> set DEPRECATED_KEYS" for k using that by blast
  have n: "dict_get extras k = None" if "k \<in> set DEPRECATED_KEYS" for k
    using a [OF that] by (simp add: dict_get_None_iff)
  from n [of "''exit_code''"] n [of "''command_id''"] a [of "''formatted_output_and_error''"] show ?thesis
    by (simp add: handle_observation_deprecated_extras_def deprecated_extra_def DEPRECATED_KEYS_def dict_del_absent)
qed

lemma field_of_get: "dict_get fs k = Some v \<Longrightarrow> field_of fs k = v"
  by (simp add: field_of_def dict_get_default_def)

lemma build_observation_back:
  assumes c: "e_class e = Obs x" and x: "x \<noteq> CmdOutputObservation" and ok: "fields_ok e"
    and ex: "extras = dict_del ''content'' (filter (\<lambda>(k, v). k \<noteq> ''observation'') (e_fields e))"
  shows "build_observation cd x (field_of (e_fields e) ''content'') extras = Inr (new_event (Obs x) (e_fields e))"
proof -
  let ?spec = "ds_fields (observation_spec x)" and ?args = "(''content'', field_of (e_fields e) ''content'') # extras"
  have k: "dict_keys (e_fields e) = dict_keys ?spec" and f: "dict_get (e_fields e) ''observation'' = Some (PStr (type_name (Obs x)))"
    using ok c by (simp_all add: fields_ok_def type_key_def)
  have s: "dict_get ?spec ''observation'' = Some (Some (PStr (type_name (Obs x))))"
    using type_key_version [of PNone "Obs x"] by (simp add: type_key_def)
  have "''content'' \<in> set (dict_keys (e_fields e))"
    using table_ok [of "Obs x"] k by (simp add: table_ok_def Let_def)
  then obtain v where v: "dict_get (e_fields e) ''content'' = Some v"
    using dict_get_None_iff [of "e_fields e" "''content''"] by auto
  have g: "dict_get ?args q = (if q = ''observation'' then None else dict_get (e_fields e) q)" for q
    using field_of_get [OF v] v by (simp add: ex dict_get_filter)
  have "init_fields ?spec ?args = e_fields e"
    by (rule init_fields_back [OF k fields_ok_facts(1) [OF ok] s f]) (simp_all only: g if_False if_True refl)
  moreover have "q \<in> set (dict_keys ?args) \<longleftrightarrow> q \<in> set (dict_keys ?spec) - {''observation''}" for q
    using g [of q] dict_get_None_iff [of ?args q] dict_get_None_iff [of "e_fields e" q] k by (auto split: if_splits)
  then have "args_ok ?spec ?args"
    using fields_ok_facts(1) [OF ok] by (intro args_ok_back [OF _ s]) (simp add: k, blast)
  moreover have "''content'' \<notin> set (dict_keys extras)"
    by (simp add: ex keys_del)
  ultimately show ?thesis using x by (simp add: build_observation_def Let_def)
qed

lemma metadata_keys_distinct: "distinct (dict_keys CmdOutputMetadata_fields)" "distinct (dict_keys ToolCallMetadata_fields)"
  by code_simp+

lemma command_fields:
  assumes "e_class e = Obs CmdOutputObservation" and "fields_ok e"
  shows "\<exists>c cmd m h. e_fields e = [(''content'', c), (''command'', cmd), (''observation'', PStr ''run''), (''metadata'', m), (''hidden'', h)]"
proof -
  have t: "type_name (Obs CmdOutputObservation) = ''run''" by code_simp
  have k: "dict_keys (e_fields e) = [''content'', ''command'', ''observation'', ''metadata'', ''hidden'']"
    using assms by (simp add: fields_ok_def CmdOutputObservation_spec_def)
  then obtain a b c d h where "e_fields e = [a, b, c, d, h]" "fst a = ''content''" "fst b = ''command''"
      "fst c = ''observation''" "fst d = ''metadata''" "fst h = ''hidden''"
    by (auto simp: map_eq_Cons_conv)
  moreover from this assms t have "snd c = PStr ''run''"
    by (auto simp: fields_ok_def type_key_def)
  ultimately show ?thesis by (metis prod.collapse)
qed

lemma build_command_back:
  assumes c: "e_class e = Obs CmdOutputObservation" and ok: "fields_ok e" and o: "observation_ok cd e"
    and ex: "extras = dict_del ''content'' (filter (\<lambda>(k, v). k \<noteq> ''observation'') (e_fields e))"
  shows "res_bind (command_extras cd extras) (build_observation cd CmdOutputObservation (field_of (e_fields e) ''content''))
    = Inr (new_event (Obs CmdOutputObservation) (e_fields e))"
proof -
  obtain t cmd mv h where f: "e_fields e = [(''content'', t), (''command'', cmd), (''observation'', PStr ''run''), (''metadata'', mv), (''hidden'', h)]"
    using command_fields [OF c ok] by blast
  with o c obtain m where m: "mv = PDict m" "model_ok (cd_validate cd) CmdOutputMetadata_fields m"
      and t: "cmd_output_content (py_truthy h) t = Inr t"
    by (auto simp: observation_ok_def is_o_def field_of_def dict_get_default_def split: pyval.splits)
  note init = model_init_ok [OF m(2) metadata_keys_distinct(1)]
  have k: "dict_keys m = dict_keys CmdOutputMetadata_fields" using m(2) by (simp add: model_ok_def)
  have e: "extras = [(''command'', cmd), (''metadata'', PDict m), (''hidden'', h)]"
    using f m(1) ex by simp
  show ?thesis
    using init t by (simp add: e command_extras_def build_observation_def cmd_output_init_def dict_get_default_def f m(1) field_of_def)
qed

lemma recall_back:
  assumes c: "e_class e = Obs RecallObservation" and o: "observation_ok cd e"
    and g: "\<And>q. q \<noteq> ''observation'' \<Longrightarrow> q \<noteq> ''content'' \<Longrightarrow> dict_get extras q = dict_get (e_fields e) q"
  shows "recall_extras extras = Inr extras"
proof -
  have r: "case dict_get extras ''recall_type'' of None \<Rightarrow> True | Some v \<Rightarrow> recall_type_ok v"
    using o c g [of "''recall_type''"] by (auto simp: observation_ok_def is_o_def field_of_def dict_get_default_def split: option.splits)
  have m: "case dict_get extras ''microagent_knowledge'' of Some (PList vs) \<Rightarrow> knowledge_items vs = Inr vs | _ \<Rightarrow> True"
    using o c g [of "''microagent_knowledge''"]
    by (auto simp: observation_ok_def is_o_def field_of_def dict_get_default_def split: option.splits pyval.splits)
  show ?thesis
    using r m by (auto simp: recall_extras_def dict_set_same split: option.splits pyval.splits)
qed

lemma observation_back:
  assumes c: "e_class e = Obs x" and ok: "fields_ok e" and o: "observation_ok cd e"
    and name: "dict_get d ''observation'' = Some (PStr (type_name (Obs x)))"
    and content: "dict_get d ''content'' = Some (field_of (e_fields e) ''content'')"
    and extras: "dict_get d ''extras'' = Some (PDict (dict_del ''content'' (filter (\<lambda>(k, v). k \<noteq> ''observation'') (e_fields e))))"
  shows "observation_from_dict cd d = Inr (new_event (Obs x) (e_fields e))"
proof -
  let ?extras = "dict_del ''content'' (filter (\<lambda>(k, v). k \<noteq> ''observation'') (e_fields e))"
  have "set (dict_keys ?extras) \<subseteq> set (dict_keys (e_fields e))" by (auto simp: keys_del)
  then have "\<forall>k \<in> set DEPRECATED_KEYS. k \<notin> set (dict_keys ?extras)"
    using fields_ok_facts(3) [OF ok] by blast
  note h = extras_back [OF this, of cd]
  have cls: "dict_get OBSERVATION_TYPE_TO_CLASS (type_name (Obs x)) = Some x"
    using table_ok [of "Obs x"] by (simp add: table_ok_def Let_def)
  have "res_bind (if x = CmdOutputObservation then command_extras cd ?extras
      else if x = RecallObservation then recall_extras ?extras else Inr ?extras)
      (build_observation cd x (field_of (e_fields e) ''content'')) = Inr (new_event (Obs x) (e_fields e))"
  proof (cases "x = CmdOutputObservation")
    case True
    then show ?thesis using build_command_back [OF _ ok o refl] c by simp
  next
    case False
    moreover have "recall_extras ?extras = Inr ?extras" if "x = RecallObservation"
      by (rule recall_back [OF _ o]) (use that c in \<open>simp_all add: dict_get_filter\<close>)
    ultimately show ?thesis using build_observation_back [OF c False ok refl, of cd] by (cases "x = RecallObservation") simp_all
  qed
  then show ?thesis
    using name content extras cls h by (simp add: observation_from_dict_def dict_get_default_def)
qed

section \<open>The round trip\<close>

definition event_ok :: "codec \<Rightarrow> event \<Rightarrow> bool" where
  "event_ok cd e \<longleftrightarrow> fields_ok e \<and> post_init (e_class e) (e_fields e) \<and> risk_ok e \<and> observation_ok cd e \<and> e_id e \<noteq> Some INVALID_ID
     \<and> (case e_tool_call e of None \<Rightarrow> True | Some m \<Rightarrow> model_ok (cd_validate cd) ToolCallMetadata_fields m)"

text \<open>What comes back of an event: attributes that are no fields, and the timeout of an observation, are lost.\<close>

definition recovered :: "event \<Rightarrow> event" where
  "recovered e = e\<lparr>e_attrs := [], e_timeout := (if is_action e then e_timeout e else None)\<rparr>"

lemma source_back [simp]: "event_source_of (event_source_value s) = Inr s"
  by (cases s) (simp_all add: event_source_of_def)

text \<open>The keys of the dictionary of an event: the top-level ones, then its arguments or its content and extras.\<close>

lemma to_dict_split:
  assumes "event_to_dict rp e = Inr d"
  obtains t ext where "top_entries rp e TOP_KEYS = Inr t" and "d = t @ ext"
    and "set (dict_keys ext) \<subseteq> {''args'', ''timeout'', ''content'', ''extras'', ''success''}"
    and "\<And>k. k \<in> set TOP_KEYS \<Longrightarrow> dict_get d k = dict_get t k"
    and "\<And>k. k \<notin> set TOP_KEYS \<Longrightarrow> dict_get t k = None"
proof -
  obtain t where t: "top_entries rp e TOP_KEYS = Inr t" using assms(1) by (auto simp: event_to_dict_def)
  define ext where "ext = drop (length t) d"
  have d: "d = t @ ext" and ek: "set (dict_keys ext) \<subseteq> {''args'', ''timeout'', ''content'', ''extras'', ''success''}"
    using assms(1) t by (auto simp: event_to_dict_def ext_def Let_def split: if_splits option.splits)
  have g: "dict_get d k = dict_get t k" if "k \<in> set TOP_KEYS" for k
  proof -
    have "k \<notin> set (dict_keys ext)" using that ek by (auto simp: TOP_KEYS_def)
    then have "dict_get ext k = None" by (simp add: dict_get_None_iff)
    then show ?thesis by (cases "dict_get t k") (simp_all add: d map_add_def)
  qed
  have n: "dict_get t k = None" if "k \<notin> set TOP_KEYS" for k
    using top_entries_get [OF t TOP_KEYS_distinct, of k] that by simp
  from that [OF t d ek g n] show thesis .
qed

lemma to_dict_top:
  assumes "event_to_dict rp e = Inr d" and "fields_ok e"
  shows "dict_get d ''id'' = (if event_id e = INVALID_ID then None else Some (PInt (event_id e)))"
    and "dict_get d ''timestamp'' = map_option PStr (e_timestamp e)"
    and "dict_get d ''source'' = map_option (\<lambda>s. PStr (event_source_value s)) (e_source e)"
    and "dict_get d ''cause'' = map_option PInt (e_cause e)"
    and "dict_get d ''tool_call_metadata'' = map_option PDict (e_tool_call e)"
    and "dict_get d (type_key (e_class e)) = Some (PStr (type_name (e_class e)))"
    and "''action'' \<in> set (dict_keys d) \<longleftrightarrow> is_action e"
    and "''observation'' \<in> set (dict_keys d) \<longleftrightarrow> is_observation e"
proof -
  obtain t where t: "top_entries rp e TOP_KEYS = Inr t"
    and g: "\<And>k. k \<in> set TOP_KEYS \<Longrightarrow> dict_get d k = dict_get t k"
    using to_dict_split [OF assms(1)] by metis
  note get = g top_entries_get [OF t TOP_KEYS_distinct]
  have a: "get_attr e (type_key (e_class e)) PNone = PStr (type_name (e_class e))"
    by (rule fields_ok_facts(5) [OF assms(2)])
  have other: "''action'' \<noteq> type_key (e_class e) \<Longrightarrow> get_attr e ''action'' PNone = PNone"
    "''observation'' \<noteq> type_key (e_class e) \<Longrightarrow> get_attr e ''observation'' PNone = PNone"
    by (rule fields_ok_facts(4) [OF assms(2)]; simp add: TOP_KEYS_def)+
  show "dict_get d ''id'' = (if event_id e = INVALID_ID then None else Some (PInt (event_id e)))"
    using get [of "''id''"] by (simp add: TOP_KEYS_def top_attr_def)
  show "dict_get d ''timestamp'' = map_option PStr (e_timestamp e)"
    using get [of "''timestamp''"] by (cases "e_timestamp e") (simp_all add: TOP_KEYS_def top_attr_def opt_val_def)
  show "dict_get d ''source'' = map_option (\<lambda>s. PStr (event_source_value s)) (e_source e)"
    using get [of "''source''"] by (cases "e_source e") (simp_all add: TOP_KEYS_def top_attr_def opt_val_def)
  show "dict_get d ''cause'' = map_option PInt (e_cause e)"
    using get [of "''cause''"] by (cases "e_cause e") (simp_all add: TOP_KEYS_def top_attr_def opt_val_def)
  show "dict_get d ''tool_call_metadata'' = map_option PDict (e_tool_call e)"
    using get [of "''tool_call_metadata''"] by (cases "e_tool_call e") (simp_all add: TOP_KEYS_def top_attr_def opt_val_def)
  show "dict_get d (type_key (e_class e)) = Some (PStr (type_name (e_class e)))"
    using get [of "type_key (e_class e)"] a
    by (cases "e_class e") (simp_all add: TOP_KEYS_def top_attr_def type_key_def)
  show "''action'' \<in> set (dict_keys d) \<longleftrightarrow> is_action e"
    using get [of "''action''"] a other dict_get_None_iff [of d "''action''"]
    by (cases "e_class e") (simp_all add: TOP_KEYS_def top_attr_def type_key_def is_action_def)
  show "''observation'' \<in> set (dict_keys d) \<longleftrightarrow> is_observation e"
    using get [of "''observation''"] a other dict_get_None_iff [of d "''observation''"]
    by (cases "e_class e") (simp_all add: TOP_KEYS_def top_attr_def type_key_def is_observation_def)
qed


lemma to_dict_body:
  assumes "event_to_dict rp e = Inr d" and ok: "fields_ok e" and risk: "risk_ok e"
  shows "is_action e \<Longrightarrow> dict_get d ''args'' = Some (PDict (filter (\<lambda>(k, v). k \<noteq> ''action'') (e_fields e)))"
    and "is_action e \<Longrightarrow> dict_get d ''timeout'' = map_option PFloat (e_timeout e)"
    and "is_observation e \<Longrightarrow> dict_get d ''content'' = Some (field_of (e_fields e) ''content'')"
    and "is_observation e \<Longrightarrow> dict_get d ''extras'' =
      Some (PDict (dict_del ''content'' (filter (\<lambda>(k, v). k \<noteq> ''observation'') (e_fields e))))"
proof -
  obtain t ext where t: "top_entries rp e TOP_KEYS = Inr t" and d: "d = t @ ext"
    and ek: "set (dict_keys ext) \<subseteq> {''args'', ''timeout'', ''content'', ''extras'', ''success''}"
    and n: "\<And>k. k \<notin> set TOP_KEYS \<Longrightarrow> dict_get t k = None"
    using to_dict_split [OF assms(1)] by metis
  have nt: "dict_get t ''args'' = None" "dict_get t ''timeout'' = None" "dict_get t ''content'' = None" "dict_get t ''extras'' = None"
    by (rule n; simp add: TOP_KEYS_def)+
  have "dict_get (e_fields e) ''security_risk'' \<noteq> Some PNone"
    using risk by (auto simp: risk_ok_def)
  note props = event_props_ok [OF ok this]
  have tk: "type_key (e_class e) = (if is_action e then ''action'' else ''observation'')" "is_observation e \<longleftrightarrow> \<not> is_action e"
    by (simp_all add: type_key_def is_action_def is_observation_def split: event_class.splits)
  have at: "''action'' \<in> set (dict_keys t) \<longleftrightarrow> is_action e"
    using to_dict_top(7) [OF assms(1) ok] ek by (auto simp: d)
  have ot: "''observation'' \<in> set (dict_keys t) \<longleftrightarrow> is_observation e"
    using to_dict_top(8) [OF assms(1) ok] ek by (auto simp: d)
  have A: "d = t @ [(''args'', PDict (filter (\<lambda>(k, v). k \<noteq> ''action'') (e_fields e)))]
      @ (case e_timeout e of None \<Rightarrow> [] | Some x \<Rightarrow> [(''timeout'', PFloat x)])" if "is_action e"
    using assms(1) t at that props tk by (simp add: event_to_dict_def)
  show "dict_get d ''args'' = Some (PDict (filter (\<lambda>(k, v). k \<noteq> ''action'') (e_fields e)))" if "is_action e"
    using A [OF that] nt by (simp add: map_add_def split: option.splits)
  show "dict_get d ''timeout'' = map_option PFloat (e_timeout e)" if "is_action e"
    using A [OF that] nt by (simp add: map_add_def split: option.splits)
  have B: "d = t @ [(''content'', dict_get_default (filter (\<lambda>(k, v). k \<noteq> ''observation'') (e_fields e)) ''content'' (PStr [])),
      (''extras'', PDict (dict_del ''content'' (filter (\<lambda>(k, v). k \<noteq> ''observation'') (e_fields e))))]
      @ (case event_success e of None \<Rightarrow> [] | Some b \<Rightarrow> [(''success'', PBool b)])" if "is_observation e"
    using assms(1) t at ot that props tk by (simp add: event_to_dict_def Let_def)
  have "dict_get_default (filter (\<lambda>(k, v). k \<noteq> ''observation'') (e_fields e)) ''content'' (PStr []) = field_of (e_fields e) ''content''"
    if o: "is_observation e"
  proof -
    obtain x where x: "e_class e = Obs x" using o by (cases "e_class e") (auto simp: is_observation_def)
    then have "''content'' \<in> set (dict_keys (e_fields e))"
      using ok table_ok [of "Obs x"] by (simp add: fields_ok_def table_ok_def Let_def)
    then obtain v where "dict_get (e_fields e) ''content'' = Some v"
      using dict_get_None_iff [of "e_fields e" "''content''"] by auto
    then show ?thesis by (simp add: dict_get_default_def dict_get_filter field_of_def)
  qed
  with B nt show "dict_get d ''content'' = Some (field_of (e_fields e) ''content'')" if "is_observation e"
    using that by (simp add: map_add_def split: option.splits)
  show "dict_get d ''extras'' =
      Some (PDict (dict_del ''content'' (filter (\<lambda>(k, v). k \<noteq> ''observation'') (e_fields e))))" if "is_observation e"
    using B [OF that] nt by (simp add: map_add_def split: option.splits)
qed


text \<open>Reading the underscore keys back.\<close>

lemma underscores_back:
  assumes d: "event_to_dict rp e = Inr d" and ok: "event_ok cd e"
    and b: "b = new_event (e_class e) (e_fields e)\<lparr>e_timeout := tm\<rparr>"
  shows "set_underscores cd d UNDERSCORE_KEYS b = Inr (e\<lparr>e_attrs := [], e_timeout := tm\<rparr>)"
proof -
  have f: "fields_ok e" and i: "e_id e \<noteq> Some INVALID_ID"
    and t: "case e_tool_call e of None \<Rightarrow> True | Some m \<Rightarrow> model_ok (cd_validate cd) ToolCallMetadata_fields m"
    using ok by (simp_all add: event_ok_def)
  note k = to_dict_top(1-5) [OF d f]
  define b1 where "b1 = b\<lparr>e_id := e_id e\<rparr>"
  define b2 where "b2 = b1\<lparr>e_timestamp := e_timestamp e\<rparr>"
  define b3 where "b3 = b2\<lparr>e_source := e_source e\<rparr>"
  define b4 where "b4 = b3\<lparr>e_cause := e_cause e\<rparr>"
  define b5 where "b5 = b4\<lparr>e_tool_call := e_tool_call e\<rparr>"
  let ?set = "\<lambda>key e. case dict_get d key of None \<Rightarrow> Inr e | Some v \<Rightarrow> set_underscore cd key v e"
  have "?set ''id'' b = Inr b1"
    using i k(1) by (cases "e_id e") (auto simp: b1_def b new_event_def set_underscore_def event_id_def)
  moreover have "?set ''timestamp'' b1 = Inr b2"
    using k(2) by (cases "e_timestamp e") (simp_all add: b1_def b2_def b new_event_def set_underscore_def)
  moreover have "?set ''source'' b2 = Inr b3"
    using k(3) by (cases "e_source e") (simp_all add: b1_def b2_def b3_def b new_event_def set_underscore_def)
  moreover have "?set ''cause'' b3 = Inr b4"
    using k(4) by (cases "e_cause e") (simp_all add: b1_def b2_def b3_def b4_def b new_event_def set_underscore_def)
  moreover have "?set ''tool_call_metadata'' b4 = Inr b5"
    using k(5) t by (cases "e_tool_call e")
      (simp_all add: b1_def b2_def b3_def b4_def b5_def b new_event_def set_underscore_def model_init_ok metadata_keys_distinct)
  moreover have "b5 = e\<lparr>e_attrs := [], e_timeout := tm\<rparr>"
    by (simp add: b1_def b2_def b3_def b4_def b5_def b new_event_def)
  ultimately show ?thesis by (simp add: UNDERSCORE_KEYS_def)
qed

lemma from_to_dict:
  assumes "event_ok cd e" and "event_to_dict rp e = Inr d"
  shows "event_from_dict cd d = Inr (recovered e)"
proof -
  have ok: "fields_ok e" "risk_ok e" "observation_ok cd e" "post_init (e_class e) (e_fields e)"
    using assms(1) by (simp_all add: event_ok_def)
  note top = to_dict_top [OF assms(2) ok(1)] and body = to_dict_body [OF assms(2) ok(1,2)]
  show ?thesis
  proof (cases "e_class e")
    case (Act a)
    then have "is_action e" by (simp add: is_action_def)
    moreover have "action_from_dict cd d = Inr ((new_event (Act a) (e_fields e))\<lparr>e_timeout := e_timeout e\<rparr>)"
      using top(6) body(1,2) calculation Act ok by (intro action_back) (simp_all add: type_key_def)
    ultimately show ?thesis
      using top(7) underscores_back [OF assms(2,1) refl] Act by (simp add: event_from_dict_def recovered_def)
  next
    case (Obs x)
    then have "is_observation e" "\<not> is_action e" by (simp_all add: is_observation_def is_action_def)
    moreover have "observation_from_dict cd d = Inr (new_event (Obs x) (e_fields e))"
      using top(6) body(3,4) calculation Obs ok by (intro observation_back) (simp_all add: type_key_def)
    moreover have "new_event (Obs x) (e_fields e) = new_event (e_class e) (e_fields e)\<lparr>e_timeout := None\<rparr>"
      using Obs by (simp add: new_event_def)
    ultimately show ?thesis
      using top(7,8) underscores_back [OF assms(2,1) refl, of None] by (simp add: event_from_dict_def recovered_def)
  qed
qed

section \<open>Properties\<close>

text \<open>C23. An event written to a dictionary and read back is the same event: its class, every field, its id, timestamp, source,
  cause and tool call. What is lost is exactly what the dictionary has no place for: attributes set on
  the object that are no fields of its class, and the timeout of an observation.\<close>

theorem event_round_trip:
  assumes "event_ok cd e" and "event_to_dict rp e = Inr d"
  shows "event_from_dict cd d = Inr (e\<lparr>e_attrs := [], e_timeout := (if is_action e then e_timeout e else None)\<rparr>)"
  using from_to_dict [OF assms] by (simp add: recovered_def)

definition strict_validate :: "string \<Rightarrow> pyval \<Rightarrow> pyval res" where
  "strict_validate ann v =
     (if (case v of
            PInt _ \<Rightarrow> ann = ''int''
          | PStr _ \<Rightarrow> ann = ''str'' \<or> ann = ''str | None''
          | PNone \<Rightarrow> ann = ''str | None''
          | PDict _ \<Rightarrow> ann = ''ModelResponse''
          | _ \<Rightarrow> False)
      then Inr v else Inl (ValueError ann))"

definition strict_codec :: codec where
  "strict_codec = \<lparr>cd_version = PStr ''1.0'', cd_literal_eval = (\<lambda>_. None), cd_validate = strict_validate\<rparr>"

definition demo_edit :: event where
  "demo_edit = (set_attr ''confirmation_state'' AWAITING_CONFIRMATION (make_act FileEditAction [(''path'', PStr ''/a'')]))
     \<lparr>e_id := Some 7, e_source := Some AGENT_SOURCE, e_timestamp := Some ''2025-01-01'', e_timeout := Some 3,
      e_tool_call := Some [(''function_name'', PStr ''edit''), (''tool_call_id'', PStr ''1''), (''model_response'', PDict []),
        (''total_calls_in_response'', PInt 1)]\<rparr>"

theorem event_round_trip_witness:
  "\<exists>d. event_to_dict (\<lambda>_. []) demo_edit = Inr d
     \<and> event_from_dict strict_codec d = Inr (demo_edit\<lparr>e_attrs := [], e_timeout := Some 3\<rparr>)"
proof -
  have ok: "event_ok strict_codec demo_edit" by code_simp
  have "\<not> isl (event_to_dict (\<lambda>_. []) demo_edit)" by code_simp
  then obtain d where d: "event_to_dict (\<lambda>_. []) demo_edit = Inr d"
    by (metis sum.collapse(2))
  moreover have "is_action demo_edit" "e_timeout demo_edit = Some 3" by code_simp+
  ultimately show ?thesis using event_round_trip [OF ok d] by simp
qed

text \<open>Truncating a command output twice changes nothing more, and a truncated output is bounded by the limit and the mark.\<close>

theorem truncation_stable:
  "maybe_truncate (maybe_truncate content MAX_CMD_OUTPUT_SIZE) MAX_CMD_OUTPUT_SIZE = maybe_truncate content MAX_CMD_OUTPUT_SIZE
   \<and> length (maybe_truncate content MAX_CMD_OUTPUT_SIZE) \<le> MAX_CMD_OUTPUT_SIZE + length truncation_mark"
  by (auto simp: maybe_truncate_def MAX_CMD_OUTPUT_SIZE_def last_slice_def Let_def)

text \<open>A limit of at least two characters bounds \<open>truncate_content\<close>; with a limit of 0 or 1 the half is 0, the
  slice from the end is the whole content, and the result is longer than what was given.\<close>

theorem truncate_content_bound:
  "2 \<le> m \<Longrightarrow> int (length (truncate_content content (Some m))) \<le> m + int (length truncation_mark)"
  by (auto simp: truncate_content_def last_slice_def Let_def)

theorem truncate_content_bound_witness:
  "int (length (truncate_content ''0123456789'' (Some 4))) \<le> 4 + int (length truncation_mark)"
  by (rule truncate_content_bound) simp

theorem truncate_content_tiny:
  "0 \<le> m \<Longrightarrow> m \<le> 1 \<Longrightarrow> m < int (length content) \<Longrightarrow> truncate_content content (Some m) = truncation_mark @ content"
  by (auto simp: truncate_content_def last_slice_def Let_def)

theorem truncate_content_tiny_witness: "truncate_content ''abc'' (Some 1) = truncation_mark @ ''abc''"
  by (rule truncate_content_tiny) simp_all

text \<open>No deleted key is left at any depth of the extras of a trajectory.\<close>

fun has_key :: "string list \<Rightarrow> pyval \<Rightarrow> bool" where
  "has_key ks (PDict kvs) = list_ex (\<lambda>(k, v). k \<in> set ks \<or> has_key ks v) kvs"
| "has_key ks (PList vs) = list_ex (has_key ks) vs"
| "has_key ks (PTuple vs) = list_ex (has_key ks) vs"
| "has_key ks v = False"

lemma remove_fields_gone: "\<not> has_key ks (remove_fields ks v)"
  by (induction ks v rule: remove_fields.induct) (auto simp: list_ex_iff)

theorem trajectory_stripped:
  assumes "event_to_trajectory rp e include_screenshots = Inr d" and "dict_get d ''extras'' = Some x"
  shows "\<not> has_key (if include_screenshots then DELETE_FROM_TRAJECTORY_EXTRAS
    else DELETE_FROM_TRAJECTORY_EXTRAS_AND_SCREENSHOTS) x"
proof -
  let ?ks = "if include_screenshots then DELETE_FROM_TRAJECTORY_EXTRAS else DELETE_FROM_TRAJECTORY_EXTRAS_AND_SCREENSHOTS"
  obtain d0 where d: "d = (case dict_get d0 ''extras'' of None \<Rightarrow> d0 | Some y \<Rightarrow> dict_set ''extras'' (remove_fields ?ks y) d0)"
    using assms(1) unfolding event_to_trajectory_def res_map_Inr by blast
  with assms(2) obtain y where "x = remove_fields ?ks y" by (cases "dict_get d0 ''extras''") auto
  then show ?thesis using remove_fields_gone by blast
qed

definition demo_page :: event where
  "demo_page = make_obs BrowserOutputObservation [(''content'', PStr []), (''url'', PStr ''u''), (''trigger_by_action'', PStr []),
     (''screenshot'', PStr ''iVBOR''), (''dom_object'', PDict [(''strings'', PList [])])]"

theorem trajectory_stripped_witness:
  "\<exists>d x. event_to_trajectory (\<lambda>_. []) demo_page False = Inr d \<and> dict_get d ''extras'' = Some x
     \<and> \<not> has_key DELETE_FROM_TRAJECTORY_EXTRAS_AND_SCREENSHOTS x"
proof -
  have "\<not> isl (event_to_trajectory (\<lambda>_. []) demo_page False)" by code_simp
  then obtain d where d: "event_to_trajectory (\<lambda>_. []) demo_page False = Inr d" by (metis sum.collapse(2))
  have "dict_get (projr (event_to_trajectory (\<lambda>_. []) demo_page False)) ''extras'' \<noteq> None" by code_simp
  with d obtain x where "dict_get d ''extras'' = Some x" by auto
  with d trajectory_stripped [OF d this] show ?thesis by auto
qed

section \<open>The shape of what is read\<close>

definition typed_event :: "event \<Rightarrow> bool" where
  "typed_event e \<longleftrightarrow> dict_keys (e_fields e) = dict_keys (ds_fields (class_spec PNone (e_class e))) \<and> e_attrs e = []
     \<and> (case e_class e of Act c \<Rightarrow> c \<in> set actions | Obs c \<Rightarrow> c \<in> set observations)"

lemma set_underscore_keeps:
  "set_underscore cd key v e = Inr e' \<Longrightarrow> typed_event e' = typed_event e"
  by (auto simp: set_underscore_def res_bind_def res_map_def typed_event_def split: if_splits sum.splits)

lemma set_underscores_keeps: "set_underscores cd d ks e = Inr e' \<Longrightarrow> typed_event e' = typed_event e"
proof (induction ks arbitrary: e)
  case (Cons k ks)
  then obtain e1 where "(case dict_get d k of None \<Rightarrow> Inr e | Some v \<Rightarrow> set_underscore cd k v e) = Inr e1"
    and "set_underscores cd d ks e1 = Inr e'"
    by (auto simp: res_bind_def split: sum.splits)
  with Cons.IH set_underscore_keeps show ?case by (fastforce split: option.splits)
qed simp

lemma hard_timeout_typed:
  assumes "typed_event e"
  shows "typed_event (set_hard_timeout t b e)"
proof -
  have "e_attrs e = []" using assms by (simp add: typed_event_def)
  then have "dict_keys (e_fields (set_hard_timeout t b e)) = dict_keys (e_fields e) \<and> e_attrs (set_hard_timeout t b e) = []
      \<and> e_class (set_hard_timeout t b e) = e_class e"
    by (simp add: set_hard_timeout_def Let_def has_attr_def set_attr_def dict_keys_set)
  with assms show ?thesis by (simp add: typed_event_def)
qed

lemma class_keys: "dict_keys (ds_fields (action_spec v c)) = dict_keys (ds_fields (class_spec PNone (Act c)))"
  by (cases c) (simp_all add: SystemMessageAction_spec_def)

lemma init_fields_keys: "dict_keys (init_fields spec kwargs) = dict_keys spec"
  by (auto simp: init_fields_def)

lemma build_action_typed:
  assumes "build_action cd c a args ts = Inr e" and "c \<in> set actions"
  shows "typed_event e"
proof -
  let ?e = "new_event (Act c) (init_fields (ds_fields (action_spec (cd_version cd) c)) args)"
  have new: "typed_event ?e" using assms(2) by (simp add: typed_event_def new_event_def class_keys init_fields_keys del: class_spec.simps)
  have stamp: "typed_event (e'\<lparr>e_timestamp := x\<rparr>) = typed_event e'" for e' x by (simp add: typed_event_def)
  obtain e1 where e1: "(case dict_get a ''timeout'' of None \<Rightarrow> Inr ?e
      | Some t \<Rightarrow> res_map (\<lambda>t. set_hard_timeout t (dict_get_default args ''blocking'' (PBool False)) ?e) (number_attr t)) = Inr e1"
    and e: "(if py_truthy ts then res_map (\<lambda>x. e1\<lparr>e_timestamp := x\<rparr>) (text_attr ts) else Inr e1) = Inr e"
    using assms(1) by (auto simp: build_action_def Let_def res_bind_def split: if_splits sum.splits)
  have "typed_event e1"
    using e1 new hard_timeout_typed [OF new] by (auto simp: res_map_def split: option.splits sum.splits)
  then show ?thesis using e stamp by (auto simp: res_map_def split: if_splits sum.splits)
qed

lemma registered_action: "dict_get ACTION_TYPE_TO_CLASS n = Some c \<Longrightarrow> c \<in> set actions"
  by (auto simp: ACTION_TYPE_TO_CLASS_def dest: map_of_SomeD)

lemma action_typed: "action_from_dict cd d = Inr e \<Longrightarrow> typed_event e"
  by (auto simp: action_from_dict_def res_bind_def split: option.splits pyval.splits sum.splits
      intro: build_action_typed registered_action)

lemma registered_observation: "dict_get OBSERVATION_TYPE_TO_CLASS n = Some c \<Longrightarrow> c \<in> set observations"
  by (auto simp: OBSERVATION_TYPE_TO_CLASS_def dest: map_of_SomeD)

lemma cmd_output_keys:
  "cmd_output_init cd content kwargs = Inr fs \<Longrightarrow> dict_keys fs = dict_keys (ds_fields (observation_spec CmdOutputObservation))"
  by (auto simp: cmd_output_init_def CmdOutputObservation_spec_def res_bind_def res_map_def Let_def split: option.splits sum.splits)

lemma observation_typed: "observation_from_dict cd d = Inr e \<Longrightarrow> typed_event e"
proof -
  assume "observation_from_dict cd d = Inr e"
  then obtain c content extras where c: "c \<in> set observations" and b: "build_observation cd c content extras = Inr e"
    by (auto simp: observation_from_dict_def res_bind_def split: option.splits sum.splits intro: registered_observation)
  show ?thesis
  proof (cases "c = CmdOutputObservation")
    case True
    then obtain fs where "cmd_output_init cd content extras = Inr fs" "e = new_event (Obs c) fs"
      using b by (auto simp: build_observation_def res_map_def split: if_splits sum.splits)
    with c True cmd_output_keys show ?thesis by (simp add: typed_event_def new_event_def)
  next
    case False
    then have "e = new_event (Obs c) (init_fields (ds_fields (observation_spec c)) ((''content'', content) # extras))"
      using b by (auto simp: build_observation_def Let_def split: if_splits)
    with c show ?thesis by (simp add: typed_event_def new_event_def init_fields_keys)
  qed
qed



end
