(* ===== verification/Condensers.thy ===== *)
theory Condensers
  imports History_View Event_Serial
begin

text \<open>
  The condensers of \<open>memory/condenser\<close>. A condenser is a value of the datatype \<open>condenser\<close> with its settings; \<open>condense\<close> is
  its method. What the language model answers, and \<open>str(event)\<close>, are the record \<open>condenser_llm\<close>. The metadata batches, which
  record the model's responses, are left out.
\<close>

record condenser_llm =
  cl_show :: "event \<Rightarrow> string" \<comment> \<open>\<open>str(event)\<close>\<close>
  cl_summary :: "string \<Rightarrow> string option res" \<comment> \<open>the answer to a prompt\<close>
  cl_tool_arguments :: "string \<Rightarrow> payload option res" \<comment> \<open>the arguments of the summary tool call; \<open>None\<close> when there is none\<close>
  cl_ranking :: "event list \<Rightarrow> int list res" \<comment> \<open>the ids in order of importance\<close>
  cl_validate :: "string \<Rightarrow> pyval \<Rightarrow> pyval res" \<comment> \<open>pydantic\<close>

datatype condensed = AView view | Condensation event

datatype condenser =
    NoOpCondenser
  | RecentEventsCondenser int int \<comment> \<open>\<open>keep_first\<close>, \<open>max_events\<close>\<close>
  | ObservationMaskingCondenser int
  | BrowserOutputCondenser int
  | AmortizedForgettingCondenser int int \<comment> \<open>\<open>max_size\<close>, \<open>keep_first\<close>\<close>
  | ConversationWindowCondenser
  | LLMAttentionCondenser int int
  | LLMSummarizingCondenser int int int \<comment> \<open>\<open>max_size\<close>, \<open>keep_first\<close>, \<open>max_event_length\<close>\<close>
  | StructuredSummaryCondenser int int int
  | CondenserPipeline "condenser list"

section \<open>Views that are cut or masked\<close>

definition recent_events_condense :: "int \<Rightarrow> int \<Rightarrow> view \<Rightarrow> view" where
  "recent_events_condense keep_first max_events v =
     (let head = slice_to keep_first (v_events v);
          tail_length = max 0 (max_events - int (length head))
      in view_of (head @ slice_from (- tail_length) (v_events v)))"

definition observation_masking_condense :: "int \<Rightarrow> view \<Rightarrow> view" where
  "observation_masking_condense attention_window v =
     view_of (map (\<lambda>(i, e). if is_observation e \<and> int i < int (length (v_events v)) - attention_window
         then condensation_observation ''<MASKED>'' else e)
       (enumerate 0 (v_events v)))"

text \<open>The loop over the reversed view; the count is of the browser outputs kept so far.\<close>

fun mask_browser :: "int \<Rightarrow> int \<Rightarrow> event list \<Rightarrow> event list" where
  "mask_browser window cnt [] = []"
| "mask_browser window cnt (e # es) =
     (if is_o BrowserOutputObservation e \<and> window \<le> cnt
      then condensation_observation (''Visited URL '' @ event_text e ''url'' @ [nl] @ ''Content omitted'') # mask_browser window cnt es
      else e # mask_browser window (if is_o BrowserOutputObservation e then cnt + 1 else cnt) es)"

definition browser_output_condense :: "int \<Rightarrow> view \<Rightarrow> view" where
  "browser_output_condense attention_window v = view_of (rev (mask_browser attention_window 0 (rev (v_events v))))"

section \<open>Rolling condensers\<close>

text \<open>The checks of the constructors; the last one never fails after the others.\<close>

definition check_sizes :: "int \<Rightarrow> int \<Rightarrow> unit res" where
  "check_sizes max_size keep_first =
     (if max_size div 2 \<le> keep_first
      then Inl (ValueError (''keep_first ('' @ int_str keep_first @ '') must be less than half of max_size ('' @ int_str max_size @ '')''))
      else if keep_first < 0 then Inl (ValueError (''keep_first ('' @ int_str keep_first @ '') cannot be negative''))
      else if max_size < 1 then Inl (ValueError (''max_size ('' @ int_str max_size @ '') cannot be non-positive''))
      else Inr ())"

definition should_condense :: "int \<Rightarrow> view \<Rightarrow> bool" where
  "should_condense max_size v \<longleftrightarrow> max_size < int (length (v_events v)) \<or> v_request v"

definition py_min :: "int list \<Rightarrow> int res" where
  "py_min xs = (if xs = [] then Inl (ValueError ''min() arg is an empty sequence'') else Inr (Min (set xs)))"

definition py_max :: "int list \<Rightarrow> int res" where
  "py_max xs = (if xs = [] then Inl (ValueError ''max() arg is an empty sequence'') else Inr (Max (set xs)))"

text \<open>\<open>CondensationAction(**kwargs)\<close>.\<close>

definition new_condensation :: "payload \<Rightarrow> event res" where
  "new_condensation kwargs =
     (let e = make_act CondensationAction kwargs in
      if post_init (e_class e) (e_fields e) then Inr e else Inl (ValueError ''Invalid configuration of the optional fields.''))"

definition range_condensation :: "int list \<Rightarrow> payload \<Rightarrow> event res" where
  "range_condensation ids rest =
     res_bind (py_min ids) (\<lambda>lo. res_bind (py_max ids) (\<lambda>hi.
       new_condensation ([(''forgotten_events_start_id'', PInt lo), (''forgotten_events_end_id'', PInt hi)] @ rest)))"

definition ids_condensation :: "int list \<Rightarrow> event res" where
  "ids_condensation ids = new_condensation [(''forgotten_event_ids'', PList (map PInt ids))]"

definition amortized_condensation :: "int \<Rightarrow> int \<Rightarrow> event list \<Rightarrow> event res" where
  "amortized_condensation max_size keep_first es =
     (let target_size = max_size div 2;
          head = slice_to keep_first es;
          events_from_tail = target_size - int (length head);
          tail = slice_from (- events_from_tail) es;
          keep = event_id ` set (head @ tail)
      in range_condensation (filter (\<lambda>i. i \<notin> keep) (map event_id es)) [])"

subsection \<open>Selection by a language model\<close>

fun fill_ids :: "int \<Rightarrow> int list \<Rightarrow> event list \<Rightarrow> int list" where
  "fill_ids n ids [] = ids"
| "fill_ids n ids (e # es) =
     (if n \<le> int (length ids) then ids
      else fill_ids n (if event_id e \<in> set ids then ids else ids @ [event_id e]) es)"

definition attention_condensation :: "condenser_llm \<Rightarrow> int \<Rightarrow> int \<Rightarrow> event list \<Rightarrow> event res" where
  "attention_condensation llm max_size keep_first es =
     (let target_size = max_size div 2;
          head_ids = map event_id (slice_to keep_first es);
          events_from_tail = target_size - int (length head_ids)
      in res_bind (cl_ranking llm es) (\<lambda>response.
        let ids = slice_to events_from_tail (filter (\<lambda>i. i \<notin> set head_ids) response);
            ids = fill_ids events_from_tail ids (rev es)
        in ids_condensation (filter (\<lambda>i. i \<notin> set ids \<and> i \<notin> set head_ids) (map event_id es))))"

subsection \<open>Summaries\<close>

definition SUMMARIZING_PROMPT :: string where
  "SUMMARIZING_PROMPT = join [nl]
     [''You are maintaining a context-aware state summary for an interactive agent.'',
      ''You will be given a list of events corresponding to actions taken by the agent, and the most recent previous summary if one exists.'',
      ''If the events being summarized contain ANY task-tracking, you MUST include a TASK_TRACKING section to maintain continuity.'',
      ''When referencing tasks make sure to preserve exact task IDs and statuses.'',
      [],
      ''Track:'',
      [],
      ''USER_CONTEXT: (Preserve essential user requirements, goals, and clarifications in concise form)'',
      [],
      ''TASK_TRACKING: {Active tasks, their IDs and statuses - PRESERVE TASK IDs}'',
      [],
      ''COMPLETED: (Tasks completed so far, with brief results)'',
      ''PENDING: (Tasks that still need to be done)'',
      ''CURRENT_STATE: (Current variables, data structures, or relevant state)'',
      [],
      ''For code-specific tasks, also include:'',
      ''CODE_STATE: {File paths, function signatures, data structures}'',
      ''TESTS: {Failing cases, error messages, outputs}'',
      ''CHANGES: {Code edits, variable updates}'',
      ''DEPS: {Dependencies, imports, external calls}'',
      ''VERSION_CONTROL_STATUS: {Repository state, current branch, PR status, commit history}'',
      [],
      ''PRIORITIZE:'',
      ''1. Adapt tracking format to match the actual task type'',
      ''2. Capture key user requirements and goals'',
      ''3. Distinguish between completed and pending tasks'',
      ''4. Keep all sections concise and relevant'',
      [],
      ''SKIP: Tracking irrelevant details for the current task type'',
      [],
      ''Example formats:'',
      [],
      ''For code tasks:'',
      ''USER_CONTEXT: Fix FITS card float representation issue'',
      ''COMPLETED: Modified mod_float() in card.py, all tests passing'',
      ''PENDING: Create PR, update documentation'',
      ''CODE_STATE: mod_float() in card.py updated'',
      ''TESTS: test_format() passed'',
      ''CHANGES: str(val) replaces f'' @ [CHR 0x22] @ ''{val:.16G}'' @ [CHR 0x22],
      ''DEPS: None modified'',
      ''VERSION_CONTROL_STATUS: Branch: fix-float-precision, Latest commit: a1b2c3d'',
      [],
      ''For other tasks:'',
      ''USER_CONTEXT: Write 20 haikus based on coin flip results'',
      ''COMPLETED: 15 haikus written for results [T,H,T,H,T,H,T,T,H,T,H,T,H,T,H]'',
      ''PENDING: 5 more haikus needed'',
      ''CURRENT_STATE: Last flip: Heads, Haiku count: 15/20'']"

text \<open>The part both summarising condensers share: the events to forget and the text given to the model.\<close>

definition forgotten_events :: "int \<Rightarrow> int \<Rightarrow> event list \<Rightarrow> event list" where
  "forgotten_events max_size keep_first es =
     (let events_from_tail = max_size div 2 - int (length (slice_to keep_first es)) - 1
      in filter (\<lambda>e. \<not> is_o AgentCondensationObservation e) (slice_between keep_first (- events_from_tail) es))"

definition previous_summary :: "int \<Rightarrow> event list \<Rightarrow> string res" where
  "previous_summary keep_first es =
     res_map (\<lambda>e. if is_o AgentCondensationObservation e then event_text e ''content'' else ''No events summarized'') (py_index es keep_first)"

definition summary_prompt :: "condenser_llm \<Rightarrow> string \<Rightarrow> int \<Rightarrow> string \<Rightarrow> event list \<Rightarrow> string" where
  "summary_prompt llm instructions max_event_length previous forgotten =
     (let truncate = (\<lambda>s. truncate_content s (Some max_event_length)) in
      instructions @ [nl, nl] @ ''<PREVIOUS SUMMARY>'' @ [nl] @ truncate previous @ [nl] @ ''</PREVIOUS SUMMARY>'' @ [nl] @ [nl, nl]
      @ concat (map (\<lambda>e. ''<EVENT id='' @ int_str (event_id e) @ ''>'' @ [nl] @ truncate (cl_show llm e) @ [nl] @ ''</EVENT>'' @ [nl]) forgotten))"

definition summarizing_condensation :: "condenser_llm \<Rightarrow> int \<Rightarrow> int \<Rightarrow> int \<Rightarrow> event list \<Rightarrow> event res" where
  "summarizing_condensation llm max_size keep_first max_event_length es =
     res_bind (previous_summary keep_first es) (\<lambda>previous.
       let forgotten = forgotten_events max_size keep_first es;
           prompt = summary_prompt llm SUMMARIZING_PROMPT max_event_length previous forgotten
             @ ''Now summarize the events using the rules above.''
       in res_bind (cl_summary llm prompt) (\<lambda>summary.
         range_condensation (map event_id forgotten)
           [(''summary'', opt_val PStr summary), (''summary_offset'', PInt keep_first)]))"

definition STRUCTURED_PROMPT :: string where
  "STRUCTURED_PROMPT = join [nl]
     [''You are maintaining a context-aware state summary for an interactive software agent. This summary is critical because it:'',
      ''1. Preserves essential context when conversation history grows too large'',
      ''2. Prevents lost work when the session length exceeds token limits'',
      ''3. Helps maintain continuity across multiple interactions'',
      [],
      ''You will be given:'',
      ''- A list of events (actions taken by the agent)'',
      ''- The most recent previous summary (if one exists)'',
      [],
      ''Capture all relevant information, especially:'',
      ''- User requirements that were explicitly stated'',
      ''- Work that has been completed'',
      ''- Tasks that remain pending'',
      ''- Current state of code, variables, and data structures'',
      ''- The status of any version control operations'']"

definition StateSummary_fields :: "(string \<times> string \<times> pyval option) list" where
  "StateSummary_fields = map (\<lambda>k. (k, ''str'', Some (PStr [])))
     [''user_context'', ''completed_tasks'', ''pending_tasks'', ''current_state'', ''files_modified'', ''function_changes'',
      ''data_structures'', ''tests_written'', ''tests_passing'', ''failing_tests'', ''error_messages'',
      ''branch_created'', ''branch_name'', ''commits_made'', ''pr_created'', ''pr_status'', ''dependencies'', ''other_relevant_context'']"

definition state_summary_str :: "payload \<Rightarrow> string" where
  "state_summary_str s = join [nl, nl]
     [''# State Summary'',
      ''## Core Information'',
      ''**User Context**: '' @ text_of s ''user_context'',
      ''**Completed Tasks**: '' @ text_of s ''completed_tasks'',
      ''**Pending Tasks**: '' @ text_of s ''pending_tasks'',
      ''**Current State**: '' @ text_of s ''current_state'',
      ''## Code Changes'',
      ''**Files Modified**: '' @ text_of s ''files_modified'',
      ''**Function Changes**: '' @ text_of s ''function_changes'',
      ''**Data Structures**: '' @ text_of s ''data_structures'',
      ''**Dependencies**: '' @ text_of s ''dependencies'',
      ''## Testing Status'',
      ''**Tests Written**: '' @ text_of s ''tests_written'',
      ''**Tests Passing**: '' @ text_of s ''tests_passing'',
      ''**Failing Tests**: '' @ text_of s ''failing_tests'',
      ''**Error Messages**: '' @ text_of s ''error_messages'',
      ''## Version Control'',
      ''**Branch Created**: '' @ text_of s ''branch_created'',
      ''**Branch Name**: '' @ text_of s ''branch_name'',
      ''**Commits Made**: '' @ text_of s ''commits_made'',
      ''**PR Created**: '' @ text_of s ''pr_created'',
      ''**PR Status**: '' @ text_of s ''pr_status'',
      ''## Additional Context'',
      ''**Other Relevant Context**: '' @ text_of s ''other_relevant_context'']"

text \<open>A missing or unreadable tool call gives the empty summary.\<close>

definition parse_state_summary :: "condenser_llm \<Rightarrow> payload option \<Rightarrow> payload" where
  "parse_state_summary llm args =
     (case args of
        None \<Rightarrow> map (\<lambda>(k, _, d). (k, the d)) StateSummary_fields
      | Some a \<Rightarrow>
          (case model_init (cl_validate llm) StateSummary_fields a of
             Inl _ \<Rightarrow> map (\<lambda>(k, _, d). (k, the d)) StateSummary_fields
           | Inr s \<Rightarrow> s))"

definition structured_condensation :: "condenser_llm \<Rightarrow> int \<Rightarrow> int \<Rightarrow> int \<Rightarrow> event list \<Rightarrow> event res" where
  "structured_condensation llm max_size keep_first max_event_length es =
     res_bind (previous_summary keep_first es) (\<lambda>previous.
       let forgotten = forgotten_events max_size keep_first es
       in res_bind (cl_tool_arguments llm (summary_prompt llm STRUCTURED_PROMPT max_event_length previous forgotten)) (\<lambda>args.
         range_condensation (map event_id forgotten)
           [(''summary'', PStr (state_summary_str (parse_state_summary llm args))), (''summary_offset'', PInt keep_first)]))"

subsection \<open>The conversation window\<close>

text \<open>The recall action for a message, with the events after it.\<close>

fun find_recall :: "string \<Rightarrow> event list \<Rightarrow> (event \<times> event option) option" where
  "find_recall query [] = None"
| "find_recall query (e # es) =
     (if is_a RecallAction e \<and> event_text e ''query'' = query
      then Some (e, find (\<lambda>x. is_observation x \<and> e_cause x = Some (event_id e)) es) else find_recall query es)"

definition essential_events :: "event list \<Rightarrow> event \<Rightarrow> event list" where
  "essential_events es first_user_msg =
     (case find (is_a SystemMessageAction) es of None \<Rightarrow> [] | Some e \<Rightarrow> [e])
     @ [first_user_msg]
     @ (case find_recall (event_text first_user_msg ''content'') (List.tl (dropWhile (\<lambda>e. \<not> from_user e) es)) of
          None \<Rightarrow> []
        | Some (a, obs) \<Rightarrow> a # (case obs of None \<Rightarrow> [] | Some x \<Rightarrow> [x]))"

text \<open>The recent half, without the observations it starts with.\<close>

definition recent_slice :: "nat \<Rightarrow> event list \<Rightarrow> event list" where
  "recent_slice num_essential es =
     (let num_recent_to_keep = max 1 ((int (length es) - int num_essential) div 2);
          slice_start_index = max 0 (int (length es) - num_recent_to_keep)
      in dropWhile is_observation (drop (nat slice_start_index) es))"

definition window_condensation :: "event list \<Rightarrow> event res" where
  "window_condensation es =
     (case find from_user es of
        None \<Rightarrow> ids_condensation []
      | Some first_user_msg \<Rightarrow>
          let essential = essential_events es first_user_msg;
              keep = event_id ` set (essential @ recent_slice (length essential) es);
              forgotten = sorted_list_of_set (event_id ` set es - keep)
          in if forgotten = [] then ids_condensation []
             else if 1 < length forgotten \<and> last forgotten - hd forgotten = int (length forgotten) - 1
             then new_condensation [(''forgotten_events_start_id'', PInt (hd forgotten)), (''forgotten_events_end_id'', PInt (last forgotten))]
             else ids_condensation forgotten)"

section \<open>Condensing\<close>

definition rolling :: "bool \<Rightarrow> event res \<Rightarrow> view \<Rightarrow> condensed res" where
  "rolling should condensation v = (if should then res_map Condensation condensation else Inr (AView v))"

fun condense :: "condenser_llm \<Rightarrow> condenser \<Rightarrow> view \<Rightarrow> condensed res"
  and run_pipeline :: "condenser_llm \<Rightarrow> condenser list \<Rightarrow> view \<Rightarrow> condensed res" where
  "condense llm NoOpCondenser v = Inr (AView v)"
| "condense llm (RecentEventsCondenser k m) v = Inr (AView (recent_events_condense k m v))"
| "condense llm (ObservationMaskingCondenser w) v = Inr (AView (observation_masking_condense w v))"
| "condense llm (BrowserOutputCondenser w) v = Inr (AView (browser_output_condense w v))"
| "condense llm (AmortizedForgettingCondenser m k) v = rolling (should_condense m v) (amortized_condensation m k (v_events v)) v"
| "condense llm ConversationWindowCondenser v = rolling (v_request v) (window_condensation (v_events v)) v"
| "condense llm (LLMAttentionCondenser m k) v = rolling (should_condense m v) (attention_condensation llm m k (v_events v)) v"
| "condense llm (LLMSummarizingCondenser m k n) v = rolling (should_condense m v) (summarizing_condensation llm m k n (v_events v)) v"
| "condense llm (StructuredSummaryCondenser m k n) v = rolling (should_condense m v) (structured_condensation llm m k n (v_events v)) v"
| "condense llm (CondenserPipeline cs) v = run_pipeline llm cs v"
| "run_pipeline llm [] v = Inr (AView v)"
| "run_pipeline llm (c # cs) v =
     res_bind (condense llm c v) (\<lambda>r. case r of Condensation e \<Rightarrow> Inr (Condensation e) | AView v' \<Rightarrow> run_pipeline llm cs v')"

section \<open>Lemmas\<close>

text \<open>The actions the condensers build.\<close>

lemma new_condensation_cases:
  assumes "new_condensation kwargs = Inr a"
  shows "is_a CondensationAction a" and "e_fields a = init_fields (ds_fields CondensationAction_spec) kwargs"
    and "post_init (e_class a) (e_fields a)" and "e_id a = None"
  using assms by (auto simp: new_condensation_def Let_def make_act_def new_event_def is_a_def split: if_splits)

lemma condensation_field:
  assumes "k \<in> {''forgotten_event_ids'', ''forgotten_events_start_id'', ''forgotten_events_end_id'', ''summary'', ''summary_offset''}"
  shows "field_of (init_fields (ds_fields CondensationAction_spec) kwargs) k = dict_get_default kwargs k PNone"
  using assms
  by (elim insertE emptyE; cases "dict_get kwargs k")
    (simp_all add: init_fields_def CondensationAction_spec_def field_of_def dict_get_default_def)

lemma condensation_fields_of:
  assumes "new_condensation kwargs = Inr a"
  shows "field_of (e_fields a) ''forgotten_event_ids'' = dict_get_default kwargs ''forgotten_event_ids'' PNone"
    and "field_of (e_fields a) ''forgotten_events_start_id'' = dict_get_default kwargs ''forgotten_events_start_id'' PNone"
    and "field_of (e_fields a) ''forgotten_events_end_id'' = dict_get_default kwargs ''forgotten_events_end_id'' PNone"
    and "field_of (e_fields a) ''summary'' = dict_get_default kwargs ''summary'' PNone"
    and "field_of (e_fields a) ''summary_offset'' = dict_get_default kwargs ''summary_offset'' PNone"
    and "validate_field_polymorphism (e_fields a)" and "is_a CondensationAction a" and "e_id a = None"
  using new_condensation_cases [OF assms] by (simp_all add: condensation_field post_init_def is_a_def)

lemma ids_condensation_forgets:
  assumes "ids_condensation ids = Inr a"
  shows "is_a CondensationAction a" and "forgotten_of (e_fields a) = Inr ids" and "last_summary [a] = None" and "e_id a = None"
proof -
  note n = condensation_fields_of [OF assms [unfolded ids_condensation_def]]
  show "is_a CondensationAction a" "e_id a = None" by (rule n)+
  show "forgotten_of (e_fields a) = Inr ids"
    using n(1,6) by (simp add: forgotten_of_def is_none_def list_of_def dict_get_default_def comp_def)
  show "last_summary [a] = None" using n(4) by (simp add: is_none_def dict_get_default_def)
qed

lemma range_condensation_forgets:
  assumes "range_condensation ids rest = Inr a"
    and "rest = [] \<or> rest = [(''summary'', opt_val PStr s), (''summary_offset'', PInt k)]"
  shows "ids \<noteq> []" and "is_a CondensationAction a" and "forgotten_of (e_fields a) = Inr [Min (set ids)..Max (set ids)]"
    and "last_summary [a] = (if rest = [] then None else map_option (\<lambda>s. (s, k)) s)" and "e_id a = None"
proof -
  show ne: "ids \<noteq> []" using assms(1) by (auto simp: range_condensation_def py_min_def)
  then have "new_condensation ([(''forgotten_events_start_id'', PInt (Min (set ids))), (''forgotten_events_end_id'', PInt (Max (set ids)))] @ rest) = Inr a"
    using assms(1) by (auto simp: range_condensation_def py_min_def py_max_def)
  note n = condensation_fields_of [OF this]
  show a: "is_a CondensationAction a" "e_id a = None" by (rule n)+
  have "field_of (e_fields a) ''forgotten_event_ids'' = PNone"
    using n(1) assms(2) by (elim disjE) (simp_all add: dict_get_default_def)
  then show "forgotten_of (e_fields a) = Inr [Min (set ids)..Max (set ids)]"
    using n(2,3,6) by (simp add: forgotten_of_def is_none_def dict_get_default_def)
  from assms(2) show "last_summary [a] = (if rest = [] then None else map_option (\<lambda>s. (s, k)) s)"
  proof
    assume "rest = []"
    then show ?thesis using n(4) by (simp add: is_none_def dict_get_default_def)
  next
    assume r: "rest = [(''summary'', opt_val PStr s), (''summary_offset'', PInt k)]"
    then have "field_of (e_fields a) ''summary'' = opt_val PStr s" "field_of (e_fields a) ''summary_offset'' = PInt k"
      using n(4,5) by (simp_all add: dict_get_default_def)
    with r a(1) show ?thesis by (cases s) (simp_all add: is_none_def opt_val_def event_text_def text_of_def)
  qed
qed

text \<open>Ids in a history ascend; then a range of ids is a stretch of the history.\<close>

definition ascending :: "event list \<Rightarrow> bool" where
  "ascending es \<longleftrightarrow> sorted_wrt (<) (map event_id es)"

lemma kept_middle:
  assumes "ascending (H @ M @ T)" and "M \<noteq> []"
  shows "kept_events {Min (event_id ` set M)..Max (event_id ` set M)} (H @ M @ T) = H @ T"
proof -
  let ?lo = "Min (event_id ` set M)" and ?hi = "Max (event_id ` set M)"
  have fin: "finite (event_id ` set M)" and ne: "event_id ` set M \<noteq> {}" using assms(2) by auto
  have lo: "?lo \<in> event_id ` set M" and hi: "?hi \<in> event_id ` set M" using fin ne by simp_all
  have "filter (\<lambda>e. event_id e \<notin> {?lo..?hi}) H = H"
  proof (rule filter_True, rule ballI)
    fix e assume "e \<in> set H"
    then have "event_id e < ?lo" using lo assms(1) by (auto simp: ascending_def sorted_wrt_append)
    then show "event_id e \<notin> {?lo..?hi}" by simp
  qed
  moreover have "filter (\<lambda>e. event_id e \<notin> {?lo..?hi}) M = []"
    using fin by (auto simp: filter_empty_conv)
  moreover have "filter (\<lambda>e. event_id e \<notin> {?lo..?hi}) T = T"
  proof (rule filter_True, rule ballI)
    fix e assume "e \<in> set T"
    then have "?hi < event_id e" using hi assms(1) by (auto simp: ascending_def sorted_wrt_append)
    then show "event_id e \<notin> {?lo..?hi}" by simp
  qed
  ultimately show ?thesis by (simp add: kept_events_def)
qed

lemma ascending_distinct: "ascending es \<Longrightarrow> distinct (map event_id es)"
  by (auto simp: ascending_def strict_sorted_iff)

lemma three_parts: "k + t \<le> length es \<Longrightarrow> es = take k es @ take (length es - t - k) (drop k es) @ drop (length es - t) es"
proof -
  assume "k + t \<le> length es"
  then have "drop (length es - t) es = drop (length es - t - k) (drop k es)" by simp
  then show ?thesis by (simp only: append_take_drop_id)
qed

section \<open>What a rolling condenser promises\<close>

text \<open>
  The contract a history relies on: given a view that is too long, the condenser answers with an action that names
  the ids to forget so that the events that stay, with the summary if there is one, are at most \<open>target\<close>.
  \<open>shape\<close> relates the events of the view to those of the history that are not forgotten.
\<close>

locale rolling_condenser =
  fixes get_condensation :: "event list \<Rightarrow> event res"
    and max_size :: int
    and target :: nat
    and shape :: "event list \<Rightarrow> event list \<Rightarrow> bool"
    and keeps :: "event list \<Rightarrow> event list"
    and summarises :: bool
  assumes forgets: "ascending live \<Longrightarrow> shape es live \<Longrightarrow> max_size < int (length es) \<Longrightarrow> get_condensation es = Inr a \<Longrightarrow>
      is_a CondensationAction a \<and> (last_summary [a] \<noteq> None \<longleftrightarrow> summarises)
      \<and> (\<exists>ids. forgotten_of (e_fields a) = Inr ids \<and> kept_events (set ids) live = keeps live)"
    and bound: "ascending live \<Longrightarrow> shape es live \<Longrightarrow> max_size < int (length es) \<Longrightarrow> get_condensation es = Inr a \<Longrightarrow> length (keeps live) + of_bool summarises \<le> target"
begin

text \<open>The view of the history with the condensation added is within the target, and holds the events kept.\<close>

lemma condensed_view:
  assumes v: "from_events hist = Inr v" and asc: "ascending (kept_events (v_forgotten v) hist)"
    and sh: "shape (v_events v) (kept_events (v_forgotten v) hist)" and big: "max_size < int (length (v_events v))"
    and get: "get_condensation (v_events v) = Inr a" and new: "i \<notin> v_forgotten v" "i \<notin> event_id ` set hist"
    and none: "summarises \<or> last_summary (rev hist) = None"
  shows "\<exists>v'. from_events (hist @ [a\<lparr>e_id := Some i\<rparr>]) = Inr v' \<and> \<not> v_request v' \<and> length (v_events v') \<le> target
    \<and> (\<exists>s k. v_events v' = (if summarises then list_insert k (condensation_observation s) (keeps (kept_events (v_forgotten v) hist))
         else keeps (kept_events (v_forgotten v) hist)))"
proof -
  let ?a = "a\<lparr>e_id := Some i\<rparr>" and ?live = "kept_events (v_forgotten v) hist"
  obtain ids where a: "is_a CondensationAction a" "last_summary [a] \<noteq> None \<longleftrightarrow> summarises" and f: "forgotten_of (e_fields a) = Inr ids"
    and k: "kept_events (set ids) ?live = keeps ?live"
    using forgets [OF asc sh big get] by blast
  have a': "is_a CondensationAction ?a" "event_id ?a = i" "last_summary [?a] = last_summary [a]" "forgotten_of (e_fields ?a) = Inr ids"
    using a(1) f by (simp_all add: is_a_def event_id_def event_text_def)
  obtain v' where v': "from_events (hist @ [?a]) = Inr v'" "\<not> v_request v'"
      "v_events v' = (case last_summary [a] of
          Some (s, i) \<Rightarrow> list_insert i (condensation_observation s) (keeps ?live)
        | None \<Rightarrow> (case last_summary (rev hist) of None \<Rightarrow> keeps ?live | Some (s, i) \<Rightarrow> list_insert i (condensation_observation s) (keeps ?live)))"
    using from_events_snoc [OF v a'(1,4)] new a'(2,3) k by (auto simp: Let_def)
  have l: "length (list_insert j x xs) = Suc (length xs)" for j x and xs :: "event list"
    by (metis insert_split length_append list_insert_def length_Cons add_Suc_right)
  show ?thesis
    using v' a(2) none bound [OF asc sh big get] by (cases "last_summary [a]") (auto simp: l intro!: exI [of _ v'])
qed

end

subsection \<open>Forgetting the middle\<close>

lemma sizes_ok: "check_sizes m k = Inr () \<Longrightarrow> 0 \<le> k \<and> k < m div 2"
  by (auto simp: check_sizes_def split: if_splits)

lemma middle_ids:
  assumes "distinct (map f (H @ M @ T))"
  shows "filter (\<lambda>i. i \<notin> f ` set (H @ T)) (map f (H @ M @ T)) = map f M"
proof -
  have "f ` set M \<inter> f ` set (H @ T) = {}" using assms by auto
  then have "filter (\<lambda>i. i \<notin> f ` set (H @ T)) (map f M) = map f M" by (auto simp: filter_id_conv)
  then show ?thesis by simp
qed

lemma amortized_returns:
  assumes sz: "check_sizes m k = Inr ()" and asc: "ascending es" and big: "m < int (length es)"
  defines "t \<equiv> nat (m div 2 - k)"
  shows "\<exists>a. amortized_condensation m k es = Inr a \<and> is_a CondensationAction a \<and> last_summary [a] = None \<and> e_id a = None
    \<and> (\<exists>ids. forgotten_of (e_fields a) = Inr ids \<and> kept_events (set ids) es = take (nat k) es @ drop (length es - t) es)"
proof -
  have k: "0 \<le> k" "k < m div 2" using sizes_ok [OF sz] by auto
  have t: "0 < t" "nat k + t = nat (m div 2)" using k by (simp_all add: t_def nat_add_distrib [symmetric])
  have n: "nat k + t < length es" using big k t by linarith
  define M where "M = take (length es - t - nat k) (drop (nat k) es)"
  have parts: "es = take (nat k) es @ M @ drop (length es - t) es" using three_parts [of "nat k" t es] n by (simp add: M_def)
  have M: "M \<noteq> []" using n by (simp add: M_def)
  have head: "slice_to k es = take (nat k) es" using k n by (simp add: slice_to_def slice_bound_def)
  have lh: "int (length (take (nat k) es)) = k" using n k by simp
  have tail: "slice_from (- (m div 2 - k)) es = drop (length es - t) es"
    using slice_bound_neg [of t "length es"] t k by (simp add: slice_from_def t_def)
  let ?keep = "event_id ` set (take (nat k) es @ drop (length es - t) es)"
  have ids: "filter (\<lambda>i. i \<notin> ?keep) (map event_id es) = map event_id M"
    using middle_ids [of event_id "take (nat k) es" M "drop (length es - t) es"] ascending_distinct [OF asc] parts by metis
  then have r: "amortized_condensation m k es = range_condensation (map event_id M) []"
    by (simp only: amortized_condensation_def Let_def head lh tail)
  have "post_init (Act CondensationAction) (init_fields (ds_fields CondensationAction_spec)
      [(''forgotten_events_start_id'', PInt lo), (''forgotten_events_end_id'', PInt hi)])" for lo hi
    by (simp add: post_init_def validate_field_polymorphism_def is_none_def condensation_field dict_get_default_def)
  then obtain a where a: "range_condensation (map event_id M) [] = Inr a"
    using M by (auto simp: range_condensation_def py_min_def py_max_def new_condensation_def make_act_def new_event_def Let_def)
  note f = range_condensation_forgets [OF a disjI1 [OF refl]]
  have "kept_events (set [Min (set (map event_id M))..Max (set (map event_id M))]) es = take (nat k) es @ drop (length es - t) es"
    using kept_middle [of "take (nat k) es" M "drop (length es - t) es"] asc M parts by simp
  with f r a show ?thesis by auto
qed

definition amortized_object :: "int \<Rightarrow> int \<Rightarrow> event list \<Rightarrow> event res" where
  "amortized_object m k es = res_bind (check_sizes m k) (\<lambda>_. amortized_condensation m k es)"

definition ends_kept :: "nat \<Rightarrow> nat \<Rightarrow> event list \<Rightarrow> event list" where
  "ends_kept k t es = take k es @ drop (length es - t) es"

lemma length_ends_kept: "length (ends_kept k t es) \<le> k + t"
  by (simp add: ends_kept_def)

interpretation amortized: rolling_condenser "amortized_object m k" m "nat (m div 2)" "(=)" "ends_kept (nat k) (nat (m div 2 - k))" False
  for m k :: int
proof
  fix live es a
  assume g: "amortized_object m k es = Inr a" and big: "m < int (length es)"
  then have sz: "check_sizes m k = Inr ()" and r: "amortized_condensation m k es = Inr a" by (auto simp: amortized_object_def)
  {
    assume "ascending live" "es = live"
    with amortized_returns [OF sz _ big] r
    show "is_a CondensationAction a \<and> (last_summary [a] \<noteq> None \<longleftrightarrow> False)
      \<and> (\<exists>ids. forgotten_of (e_fields a) = Inr ids \<and> kept_events (set ids) live = ends_kept (nat k) (nat (m div 2 - k)) live)"
      unfolding ends_kept_def by (metis sum.inject(2))
  next
    assume "es = live"
    have "nat k + nat (m div 2 - k) = nat (m div 2)" using sizes_ok [OF sz] by linarith
    then show "length (ends_kept (nat k) (nat (m div 2 - k)) live) + of_bool False \<le> nat (m div 2)"
      using length_ends_kept [of "nat k" "nat (m div 2 - k)" live] by simp
  }
qed

subsection \<open>Summaries\<close>

definition summary_shape :: "int \<Rightarrow> event list \<Rightarrow> event list \<Rightarrow> bool" where
  "summary_shape k es live \<longleftrightarrow> list_all (\<lambda>e. \<not> is_o AgentCondensationObservation e) live
     \<and> (es = live \<or> (\<exists>s. es = list_insert k (condensation_observation s) live))"

lemma forgotten_events_middle:
  assumes k: "0 \<le> k" and t: "k + 1 < m div 2" and big: "m < int (length es)" and sh: "summary_shape k es live"
  shows "forgotten_events m k es = take (length live - nat (m div 2 - k - 1) - nat k) (drop (nat k) live)"
    and "nat k + nat (m div 2 - k - 1) < length live"
proof -
  let ?t = "nat (m div 2 - k - 1)"
  have nc: "filter (\<lambda>e. \<not> is_o AgentCondensationObservation e) xs = xs" if "set xs \<subseteq> set live" for xs
    using sh that by (auto simp: summary_shape_def list_all_iff filter_id_conv)
  have len: "length es \<le> length live + 1"
    using sh by (auto simp: summary_shape_def list_insert_def slice_to_def slice_from_def)
  show n: "nat k + ?t < length live" using len big k t by linarith
  have hd: "int (length (slice_to k es)) = k" using k n sh
    by (auto simp: summary_shape_def list_insert_def slice_to_def slice_from_def slice_bound_def)
  have mid: "set (take (length live - ?t - nat k) (drop (nat k) live)) \<subseteq> set live" by (meson in_set_dropD in_set_takeD subsetI)
  have neg: "slice_bound (length es) (- (m div 2 - k - 1)) = length es - ?t"
    using slice_bound_neg [of ?t "length es"] t by simp
  have sl: "slice_between k (- (m div 2 - k - 1)) es = drop (nat k) (take (length es - ?t) es)"
    using k n big unfolding slice_between_def neg by (simp add: slice_bound_def min_def)
  from sh have "filter (\<lambda>e. \<not> is_o AgentCondensationObservation e) (drop (nat k) (take (length es - ?t) es))
      = take (length live - ?t - nat k) (drop (nat k) live)"
    unfolding summary_shape_def
  proof (elim conjE disjE exE)
    assume "es = live"
    then show ?thesis using nc [OF mid] by (simp add: drop_take)
  next
    fix s assume "es = list_insert k (condensation_observation s) live"
    moreover have "k \<le> int (length live)" using n k by linarith
    ultimately have e: "es = take (nat k) live @ condensation_observation s # drop (nat k) live"
      using k by (simp add: list_insert_def slice_to_def slice_from_def slice_bound_def)
    have "length live - ?t - nat k = length es - ?t - nat k - 1" using n by (simp add: e)
    moreover have "drop (nat k) (take (length es - ?t) es) = condensation_observation s # take (length es - ?t - nat k - 1) (drop (nat k) live)"
      using n by (simp add: e drop_take take_Cons')
    ultimately show ?thesis using nc [OF mid] by simp
  qed
  then show "forgotten_events m k es = take (length live - ?t - nat k) (drop (nat k) live)"
    by (simp only: forgotten_events_def Let_def hd sl)
qed

text \<open>Both summarising condensers forget the middle and put their summary in its place.\<close>

lemma summary_forgets:
  assumes sz: "check_sizes m k = Inr ()" and asc: "ascending live" and sh: "summary_shape k es live" and big: "m < int (length es)"
    and r: "range_condensation (map event_id (forgotten_events m k es)) [(''summary'', opt_val PStr s), (''summary_offset'', PInt k)] = Inr a"
  shows "k + 1 < m div 2" and "is_a CondensationAction a" and "last_summary [a] = map_option (\<lambda>s. (s, k)) s" and "e_id a = None"
    and "\<exists>ids. forgotten_of (e_fields a) = Inr ids \<and> kept_events (set ids) live = ends_kept (nat k) (nat (m div 2 - k - 1)) live"
proof -
  note f = range_condensation_forgets [OF r disjI2 [OF refl]]
  have k: "0 \<le> k" "k < m div 2" using sizes_ok [OF sz] by auto
  have len: "k < int (length es)" using k big by linarith
  show t: "k + 1 < m div 2"
  proof (rule ccontr)
    assume "\<not> k + 1 < m div 2"
    with k have "m div 2 = k + 1" by linarith
    moreover have "length (slice_to k es) = nat k" using k len by simp
    ultimately have "forgotten_events m k es = []"
      using k by (simp add: forgotten_events_def slice_between_def slice_bound_def)
    with f(1) show False by simp
  qed
  show "is_a CondensationAction a" "e_id a = None" by (rule f)+
  show "last_summary [a] = map_option (\<lambda>s. (s, k)) s" using f(4) by simp
  note m = forgotten_events_middle [OF k(1) t big sh]
  let ?t = "nat (m div 2 - k - 1)" and ?M = "forgotten_events m k es"
  have parts: "live = take (nat k) live @ ?M @ drop (length live - ?t) live"
    using three_parts [of "nat k" ?t live] m by simp
  have "?M \<noteq> []" using f(1) by simp
  then have "kept_events {Min (event_id ` set ?M)..Max (event_id ` set ?M)} live = ends_kept (nat k) ?t live"
    using kept_middle [of "take (nat k) live" ?M "drop (length live - ?t) live"] asc parts by (simp add: ends_kept_def)
  then show "\<exists>ids. forgotten_of (e_fields a) = Inr ids \<and> kept_events (set ids) live = ends_kept (nat k) ?t live"
    using f(3) by auto
qed

definition summarizing_object :: "condenser_llm \<Rightarrow> int \<Rightarrow> int \<Rightarrow> int \<Rightarrow> event list \<Rightarrow> event res" where
  "summarizing_object llm m k n es = res_bind (check_sizes m k) (\<lambda>_. summarizing_condensation llm m k n es)"

definition structured_object :: "condenser_llm \<Rightarrow> int \<Rightarrow> int \<Rightarrow> int \<Rightarrow> event list \<Rightarrow> event res" where
  "structured_object llm m k n es = res_bind (check_sizes m k) (\<lambda>_. structured_condensation llm m k n es)"

lemma summary_object_cases:
  assumes "summarizing_object llm m k n es = Inr a \<or> structured_object llm m k n es = Inr a"
  obtains s where "check_sizes m k = Inr ()"
    and "range_condensation (map event_id (forgotten_events m k es)) [(''summary'', opt_val PStr (Some s)), (''summary_offset'', PInt k)] = Inr a"
proof -
  from assms obtain s where sz: "check_sizes m k = Inr ()"
    and r: "range_condensation (map event_id (forgotten_events m k es)) [(''summary'', opt_val PStr s), (''summary_offset'', PInt k)] = Inr a"
  proof
    assume "summarizing_object llm m k n es = Inr a"
    then show thesis using that by (auto simp: summarizing_object_def summarizing_condensation_def Let_def)
  next
    assume "structured_object llm m k n es = Inr a"
    then obtain x where "check_sizes m k = Inr ()"
      "range_condensation (map event_id (forgotten_events m k es)) [(''summary'', PStr x), (''summary_offset'', PInt k)] = Inr a"
      by (auto simp: structured_object_def structured_condensation_def Let_def)
    then show thesis using that [of "Some x"] by (simp add: opt_val_def)
  qed
  have "s \<noteq> None"
  proof
    assume "s = None"
    with r obtain lo hi where "new_condensation [(''forgotten_events_start_id'', PInt lo), (''forgotten_events_end_id'', PInt hi),
        (''summary'', PNone), (''summary_offset'', PInt k)] = Inr a"
      by (auto simp: range_condensation_def opt_val_def)
    note n = condensation_fields_of [OF this]
    from n(4,5,6) show False by (simp add: validate_field_polymorphism_def is_none_def dict_get_default_def Let_def)
  qed
  with sz r show thesis by (auto intro: that)
qed

lemma summary_object_contract:
  assumes g: "summarizing_object llm m k n es = Inr a \<or> structured_object llm m k n es = Inr a"
    and sh: "summary_shape k es live" and big: "m < int (length es)"
  shows "ascending live \<Longrightarrow> is_a CondensationAction a \<and> (last_summary [a] \<noteq> None \<longleftrightarrow> True)
      \<and> (\<exists>ids. forgotten_of (e_fields a) = Inr ids \<and> kept_events (set ids) live = ends_kept (nat k) (nat (m div 2 - k - 1)) live)"
    and "length (ends_kept (nat k) (nat (m div 2 - k - 1)) live) + of_bool True \<le> nat (m div 2)"
proof -
  obtain s where sz: "check_sizes m k = Inr ()"
    and r: "range_condensation (map event_id (forgotten_events m k es)) [(''summary'', opt_val PStr (Some s)), (''summary_offset'', PInt k)] = Inr a"
    by (rule summary_object_cases [OF g])
  show "is_a CondensationAction a \<and> (last_summary [a] \<noteq> None \<longleftrightarrow> True)
      \<and> (\<exists>ids. forgotten_of (e_fields a) = Inr ids \<and> kept_events (set ids) live = ends_kept (nat k) (nat (m div 2 - k - 1)) live)"
    if "ascending live"
    using summary_forgets [OF sz that sh big r] by simp
  have "nat k + nat (m div 2 - k - 1) + 1 = nat (m div 2)" using sizes_ok [OF sz] by linarith
  then show "length (ends_kept (nat k) (nat (m div 2 - k - 1)) live) + of_bool True \<le> nat (m div 2)"
    using length_ends_kept [of "nat k" "nat (m div 2 - k - 1)" live] by simp
qed

interpretation summarizing: rolling_condenser "summarizing_object llm m k n" m "nat (m div 2)" "summary_shape k"
    "ends_kept (nat k) (nat (m div 2 - k - 1))" True
  for llm m k n
  by unfold_locales (metis summary_object_contract(1), metis summary_object_contract(2))

interpretation structured: rolling_condenser "structured_object llm m k n" m "nat (m div 2)" "summary_shape k"
    "ends_kept (nat k) (nat (m div 2 - k - 1))" True
  for llm m k n
  by unfold_locales (metis summary_object_contract(1), metis summary_object_contract(2))

subsection \<open>Selection\<close>

definition attention_object :: "condenser_llm \<Rightarrow> int \<Rightarrow> int \<Rightarrow> event list \<Rightarrow> event res" where
  "attention_object llm m k es = res_bind (check_sizes m k) (\<lambda>_. attention_condensation llm m k es)"

lemma fill_ids_length: "int (length ids) \<le> n \<Longrightarrow> int (length (fill_ids n ids es)) \<le> n"
  by (induction n ids es rule: fill_ids.induct) auto

definition attention_keeps :: "condenser_llm \<Rightarrow> int \<Rightarrow> int \<Rightarrow> event list \<Rightarrow> event list" where
  "attention_keeps llm m k es =
     (let head_ids = map event_id (slice_to k es); n = m div 2 - int (length head_ids) in
      case cl_ranking llm es of
        Inl _ \<Rightarrow> []
      | Inr response \<Rightarrow>
          let ids = fill_ids n (slice_to n (filter (\<lambda>i. i \<notin> set head_ids) response)) (rev es)
          in filter (\<lambda>e. event_id e \<in> set (ids @ head_ids)) es)"

lemma attention_forgets:
  assumes "attention_condensation llm m k es = Inr a"
  shows "is_a CondensationAction a" and "last_summary [a] = None"
    and "\<exists>ids. forgotten_of (e_fields a) = Inr ids \<and> kept_events (set ids) es = attention_keeps llm m k es"
proof -
  obtain response ids head where r: "cl_ranking llm es = Inr response" and h: "head = map event_id (slice_to k es)"
    and i: "ids = fill_ids (m div 2 - int (length head)) (slice_to (m div 2 - int (length head)) (filter (\<lambda>i. i \<notin> set head) response)) (rev es)"
    and c: "ids_condensation (filter (\<lambda>i. i \<notin> set ids \<and> i \<notin> set head) (map event_id es)) = Inr a"
    using assms by (auto simp: attention_condensation_def Let_def)
  note f = ids_condensation_forgets [OF c]
  show "is_a CondensationAction a" "last_summary [a] = None" by (rule f)+
  have "kept_events (set (filter (\<lambda>i. i \<notin> set ids \<and> i \<notin> set head) (map event_id es))) es = filter (\<lambda>e. event_id e \<in> set (ids @ head)) es"
    by (auto simp: kept_events_def intro!: filter_cong)
  also have "\<dots> = attention_keeps llm m k es"
    using r h i by (simp add: attention_keeps_def Let_def)
  finally show "\<exists>ids. forgotten_of (e_fields a) = Inr ids \<and> kept_events (set ids) es = attention_keeps llm m k es"
    using f(2) by blast
qed

lemma filter_ids_length:
  assumes "distinct (map f es)"
  shows "length (filter (\<lambda>e. f e \<in> set ids) es) \<le> length ids"
proof -
  have "length (filter (\<lambda>e. f e \<in> set ids) es) = length (filter (\<lambda>i. i \<in> set ids) (map f es))"
    by (simp add: filter_map comp_def)
  also have "\<dots> = card (set (filter (\<lambda>i. i \<in> set ids) (map f es)))"
    using assms by (simp only: distinct_card distinct_filter)
  also have "\<dots> \<le> card (set ids)" by (rule card_mono) auto
  finally show ?thesis using card_length le_trans by blast
qed

lemma attention_bound:
  assumes sz: "check_sizes m k = Inr ()" and d: "distinct (map event_id es)"
  shows "length (attention_keeps llm m k es) \<le> nat (m div 2)"
proof -
  let ?head = "map event_id (slice_to k es)"
  let ?n = "m div 2 - int (length ?head)"
  have k: "0 \<le> k" "k < m div 2" using sizes_ok [OF sz] by auto
  then have n: "0 \<le> ?n" by simp
  show ?thesis
  proof (cases "cl_ranking llm es")
    case (Inr response)
    let ?ids = "fill_ids ?n (slice_to ?n (filter (\<lambda>i. i \<notin> set ?head) response)) (rev es)"
    have "int (length ?ids) \<le> ?n" using n by (intro fill_ids_length) simp
    then have "length ?ids + length ?head \<le> nat (m div 2)" by linarith
    moreover have "length (filter (\<lambda>e. event_id e \<in> set (?ids @ ?head)) es) \<le> length (?ids @ ?head)"
      by (rule filter_ids_length [OF d])
    ultimately show ?thesis using Inr by (simp add: attention_keeps_def Let_def)
  qed (simp add: attention_keeps_def)
qed

interpretation attention: rolling_condenser "attention_object llm m k" m "nat (m div 2)" "(=)" "attention_keeps llm m k" False
  for llm m k
proof
  fix live es a
  assume g: "attention_object llm m k es = Inr a" and eq: "es = live" and asc: "ascending live"
  then have sz: "check_sizes m k = Inr ()" and r: "attention_condensation llm m k live = Inr a" by (auto simp: attention_object_def)
  show "is_a CondensationAction a \<and> (last_summary [a] \<noteq> None \<longleftrightarrow> False)
      \<and> (\<exists>ids. forgotten_of (e_fields a) = Inr ids \<and> kept_events (set ids) live = attention_keeps llm m k live)"
    using attention_forgets [OF r] by simp
  show "length (attention_keeps llm m k live) + of_bool False \<le> nat (m div 2)"
    using attention_bound [OF sz ascending_distinct [OF asc]] by simp
qed

section \<open>Properties\<close>

lemma view_events:
  assumes "from_events hist = Inr v"
  shows "v_events v = (case last_summary (rev hist) of None \<Rightarrow> kept_events (v_forgotten v) hist
      | Some (s, i) \<Rightarrow> list_insert i (condensation_observation s) (kept_events (v_forgotten v) hist))"
  using assms by (auto simp: from_events_def Let_def split: option.splits)

definition summary_at :: "int \<Rightarrow> event list \<Rightarrow> bool" where
  "summary_at k hist \<longleftrightarrow> (case last_summary (rev hist) of None \<Rightarrow> True | Some (s, i) \<Rightarrow> i = k)"

lemma view_shape:
  assumes "from_events hist = Inr v" and "list_all (\<lambda>e. \<not> is_o AgentCondensationObservation e) hist"
    and "summary_at k hist"
  shows "summary_shape k (v_events v) (kept_events (v_forgotten v) hist)"
  using assms(2,3) view_events [OF assms(1)]
  by (auto simp: summary_at_def summary_shape_def list_all_iff kept_events_def split: option.splits)

lemma ascending_kept: "ascending hist \<Longrightarrow> ascending (kept_events ids hist)"
  unfolding ascending_def kept_events_def
  by (simp add: sorted_wrt_map) (rule sorted_wrt_filter)

text \<open>C33. A summarising condenser never loses control of the length of the history: when the view of a history is longer than
  \<open>max_size\<close> and the condenser answers, the history with the answer added has a view of at most half of \<open>max_size\<close>
  events, which is the first \<open>keep_first\<close> events and the most recent ones with one summary among them, and no request is
  left open.\<close>

theorem summarized_view_bounded:
  assumes "from_events hist = Inr v" and "ascending hist" and "list_all (\<lambda>e. \<not> is_o AgentCondensationObservation e) hist"
    and "summary_at k hist"
    and "m < int (length (v_events v))" and "summarizing_object llm m k n (v_events v) = Inr a"
    and "i \<notin> v_forgotten v" and "i \<notin> event_id ` set hist"
  shows "\<exists>v'. from_events (hist @ [a\<lparr>e_id := Some i\<rparr>]) = Inr v' \<and> \<not> v_request v' \<and> length (v_events v') \<le> nat (m div 2)
    \<and> (\<exists>s j. v_events v' = list_insert j (condensation_observation s)
          (ends_kept (nat k) (nat (m div 2 - k - 1)) (kept_events (v_forgotten v) hist)))"
  using summarizing.condensed_view [OF assms(1) ascending_kept [OF assms(2)] view_shape [OF assms(1,3,4)] assms(5-8)] by simp

definition demo_events :: "nat \<Rightarrow> event list" where
  "demo_events n = map (\<lambda>i. (make_act AgentThinkAction [])\<lparr>e_id := Some (int i)\<rparr>) [0..<n]"

definition demo_llm :: condenser_llm where
  "demo_llm = \<lparr>cl_show = (\<lambda>e. ''event''), cl_summary = (\<lambda>p. Inr (Some ''summary'')), cl_tool_arguments = (\<lambda>p. Inr None),
     cl_ranking = (\<lambda>es. Inr (map event_id es)), cl_validate = (\<lambda>t v. Inr v)\<rparr>"

theorem summarized_view_bounded_witness:
  "\<exists>v a v'. from_events (demo_events 7) = Inr v \<and> length (v_events v) = 7 \<and> summarizing_object demo_llm 6 1 100 (v_events v) = Inr a
    \<and> from_events (demo_events 7 @ [a\<lparr>e_id := Some 7\<rparr>]) = Inr v' \<and> length (v_events v') \<le> 3"
proof -
  have "\<not> isl (from_events (demo_events 7))" by code_simp
  then obtain v where v: "from_events (demo_events 7) = Inr v" by (metis sum.collapse(2))
  have l: "res_map (\<lambda>v. (length (v_events v), 7 \<in> v_forgotten v, isl (summarizing_object demo_llm 6 1 100 (v_events v)))) (from_events (demo_events 7))
      = Inr (7, False, False)" by code_simp
  then obtain a where a: "summarizing_object demo_llm 6 1 100 (v_events v) = Inr a" using v by simp (metis sum.collapse(2))
  have h: "ascending (demo_events 7)" "list_all (\<lambda>e. \<not> is_o AgentCondensationObservation e) (demo_events 7)"
      "summary_at 1 (demo_events 7)" by code_simp+
  have "list_all (\<lambda>e. event_id e \<noteq> 7) (demo_events 7)" by code_simp
  then have i: "7 \<notin> event_id ` set (demo_events 7)" by (auto simp: list_all_iff)
  have n: "int 6 < int (length (v_events v))" "7 \<notin> v_forgotten v" "length (v_events v) = 7" using l v by simp_all
  have "\<exists>v'. from_events (demo_events 7 @ [a\<lparr>e_id := Some 7\<rparr>]) = Inr v' \<and> \<not> v_request v' \<and> length (v_events v') \<le> nat (6 div 2)
    \<and> (\<exists>s j. v_events v' = list_insert j (condensation_observation s)
          (ends_kept (nat 1) (nat (6 div 2 - 1 - 1)) (kept_events (v_forgotten v) (demo_events 7))))"
    by (rule summarized_view_bounded [OF v h(1-3) _ a n(2) i]) (use n in simp)
  then show ?thesis using v a n(3) by auto
qed

text \<open>The forgetting condenser always answers when the view is longer than \<open>max_size\<close>, and the history with its answer has a
  view of exactly the first \<open>keep_first\<close> events and the last ones up to half of \<open>max_size\<close>.\<close>

theorem amortized_always_shrinks:
  assumes "check_sizes m k = Inr ()" and "from_events hist = Inr v" and "ascending hist" and "last_summary (rev hist) = None"
    and "m < int (length (v_events v))" and "i \<notin> v_forgotten v" and "i \<notin> event_id ` set hist"
  shows "\<exists>a v'. condense llm (AmortizedForgettingCondenser m k) v = Inr (Condensation a)
    \<and> from_events (hist @ [a\<lparr>e_id := Some i\<rparr>]) = Inr v' \<and> \<not> v_request v' \<and> length (v_events v') \<le> nat (m div 2)
    \<and> v_events v' = ends_kept (nat k) (nat (m div 2 - k)) (v_events v)"
proof -
  let ?live = "kept_events (v_forgotten v) hist"
  have e: "v_events v = ?live" using view_events [OF assms(2)] assms(4) by simp
  have asc: "ascending ?live" by (rule ascending_kept [OF assms(3)])
  obtain a where a: "amortized_condensation m k (v_events v) = Inr a" using amortized_returns [OF assms(1) asc] assms(5) e by auto
  then have "amortized_object m k (v_events v) = Inr a" using assms(1) by (simp add: amortized_object_def)
  from amortized.condensed_view [OF assms(2) asc e assms(5) this assms(6,7)] assms(4) e a assms(5)
  show ?thesis by (auto simp: rolling_def should_condense_def)
qed

theorem amortized_always_shrinks_witness:
  "\<exists>v a v'. from_events (demo_events 7) = Inr v \<and> condense demo_llm (AmortizedForgettingCondenser 6 1) v = Inr (Condensation a)
    \<and> from_events (demo_events 7 @ [a\<lparr>e_id := Some 7\<rparr>]) = Inr v' \<and> length (v_events v') \<le> 3"
proof -
  have "\<not> isl (from_events (demo_events 7))" by code_simp
  then obtain v where v: "from_events (demo_events 7) = Inr v" by (metis sum.collapse(2))
  have l: "res_map (\<lambda>v. (length (v_events v), 7 \<in> v_forgotten v)) (from_events (demo_events 7)) = Inr (7, False)" by code_simp
  have h: "check_sizes 6 1 = Inr ()" "ascending (demo_events 7)" "last_summary (rev (demo_events 7)) = None" by code_simp+
  have "list_all (\<lambda>e. event_id e \<noteq> 7) (demo_events 7)" by code_simp
  then have i: "7 \<notin> event_id ` set (demo_events 7)" by (auto simp: list_all_iff)
  have n: "6 < int (length (v_events v))" "7 \<notin> v_forgotten v" using l v by simp_all
  from amortized_always_shrinks [OF h(1) v h(2,3) n i, of demo_llm] v show ?thesis by auto
qed

section \<open>Where the condensers fail\<close>

lemma slice_empty: "0 \<le> k \<Longrightarrow> slice_between k 0 xs = []"
  by (simp add: slice_between_def slice_bound_def)

text \<open>The summarising condenser accepts \<open>keep_first = max_size // 2 - 1\<close>, but then it has no event to forget: the slice up to
  \<open>-0\<close> is empty, and \<open>min\<close> of no ids raises after the model has been asked.\<close>

theorem summary_of_nothing_raises:
  assumes "0 < k" and "m div 2 = k + 1" and "m < int (length es)" and "cl_summary llm = (\<lambda>_. Inr s)"
  shows "check_sizes m k = Inr ()
    \<and> summarizing_condensation llm m k n es = Inl (ValueError ''min() arg is an empty sequence'')"
proof
  show "check_sizes m k = Inr ()" using assms(1,2) by (simp add: check_sizes_def)
  have k: "int (length (slice_to k es)) = k" using assms(1-3) by (simp add: min_def) linarith
  have f: "forgotten_events m k es = []"
    using assms(1,2) by (simp only: forgotten_events_def Let_def k) (simp add: slice_empty)
  have "\<exists>p. previous_summary k es = Inr p"
    using assms(1-3) by (simp add: previous_summary_def py_index_def Let_def)
  then show "summarizing_condensation llm m k n es = Inl (ValueError ''min() arg is an empty sequence'')"
    using f by (auto simp: summarizing_condensation_def Let_def assms(4) range_condensation_def py_min_def)
qed

theorem summary_of_nothing_raises_witness:
  "check_sizes 6 2 = Inr () \<and> summarizing_condensation demo_llm 6 2 100 (demo_events 7) = Inl (ValueError ''min() arg is an empty sequence'')"
  using summary_of_nothing_raises [of 2 6 "demo_events 7" demo_llm "Some ''summary''" 100] by (simp add: demo_llm_def demo_events_def)

text \<open>A condensation request is answered by an exception when the view is already within half of \<open>max_size\<close>: every event is
  kept, and \<open>min\<close> of no ids raises. A request does not wait for the view to be long.\<close>

theorem small_view_request_raises:
  assumes "check_sizes m k = Inr ()" and "int (length (v_events v)) \<le> m div 2" and "v_request v"
  shows "condense llm (AmortizedForgettingCondenser m k) v = Inl (ValueError ''min() arg is an empty sequence'')"
proof -
  let ?es = "v_events v" and ?t = "m div 2 - int (length (slice_to k (v_events v)))"
  have k: "0 \<le> k" "k < m div 2" using sizes_ok [OF assms(1)] by auto
  have "set ?es \<subseteq> set (slice_to k ?es @ slice_from (- ?t) ?es)"
  proof -
    have le: "slice_bound (length ?es) (- ?t) \<le> slice_bound (length ?es) k" using k assms(2) by (simp add: slice_bound_def min_def max_def) linarith
    have "set ?es = set (take (slice_bound (length ?es) k) ?es) \<union> set (drop (slice_bound (length ?es) k) ?es)"
      by (metis append_take_drop_id set_append)
    moreover have "set (drop (slice_bound (length ?es) k) ?es) \<subseteq> set (drop (slice_bound (length ?es) (- ?t)) ?es)"
      by (rule set_drop_subset_set_drop [OF le])
    ultimately show ?thesis by (auto simp: slice_to_def slice_from_def)
  qed
  then have "filter (\<lambda>i. i \<notin> event_id ` set (slice_to k ?es @ slice_from (- ?t) ?es)) (map event_id ?es) = []"
    by (auto simp: filter_empty_conv)
  then show ?thesis
    using assms(3) by (simp only: condense.simps rolling_def should_condense_def amortized_condensation_def Let_def range_condensation_def
        py_min_def) simp
qed

theorem small_view_request_raises_witness:
  "condense demo_llm (AmortizedForgettingCondenser 6 1) \<lparr>v_events = demo_events 2, v_request = True, v_forgotten = {}\<rparr>
     = Inl (ValueError ''min() arg is an empty sequence'')"
  using small_view_request_raises [of 6 1 "\<lparr>v_events = demo_events 2, v_request = True, v_forgotten = {}\<rparr>" demo_llm]
  by (simp add: demo_events_def check_sizes_def)

text \<open>The recent-events condenser keeps at most \<open>max_events\<close> events only while \<open>keep_first\<close> is below it: otherwise the tail is
  the slice from \<open>-0\<close>, which is the whole view, so the result is longer than its input.\<close>

theorem recent_events_grow:
  assumes "0 \<le> max_events" and "max_events \<le> keep_first" and "keep_first \<le> int (length (v_events v))"
  shows "v_events (recent_events_condense keep_first max_events v) = take (nat keep_first) (v_events v) @ v_events v"
  using assms by (simp add: recent_events_condense_def view_of_def Let_def slice_to_def slice_from_def slice_bound_def)

theorem recent_events_grow_witness:
  "length (v_events (recent_events_condense 3 2 (view_of (demo_events 4)))) = 7"
  using recent_events_grow [of 2 3 "view_of (demo_events 4)"] by (simp add: demo_events_def view_of_def)

text \<open>With room for a tail the bound holds, and the result is the first events and the last ones.\<close>

theorem recent_events_bounded:
  assumes "0 \<le> keep_first" and "keep_first < max_events" and "max_events \<le> int (length (v_events v))"
  shows "v_events (recent_events_condense keep_first max_events v) = ends_kept (nat keep_first) (nat (max_events - keep_first)) (v_events v)
    \<and> int (length (v_events (recent_events_condense keep_first max_events v))) = max_events"
proof -
  let ?t = "nat (max_events - keep_first)" and ?es = "v_events v"
  have h: "slice_to keep_first ?es = take (nat keep_first) ?es" using assms by (simp add: slice_to_def slice_bound_def)
  have l: "int (length (take (nat keep_first) ?es)) = keep_first" using assms by simp
  have "slice_from (- (max_events - keep_first)) ?es = drop (length ?es - ?t) ?es"
    using slice_bound_neg [of ?t "length ?es"] assms by (simp add: slice_from_def)
  then have "v_events (recent_events_condense keep_first max_events v) = ends_kept (nat keep_first) ?t ?es"
    using assms by (simp add: recent_events_condense_def Let_def h l view_of_def ends_kept_def max_def)
  then show ?thesis using assms by (simp add: ends_kept_def)
qed

theorem recent_events_bounded_witness: "length (v_events (recent_events_condense 1 3 (view_of (demo_events 5)))) = 3"
  using recent_events_bounded [of 1 3 "view_of (demo_events 5)"] by (simp add: demo_events_def view_of_def ends_kept_def)


section \<open>The conversation window\<close>

lemma ids_condensation_returns: "\<exists>a. ids_condensation ids = Inr a"
proof -
  let ?f = "init_fields (ds_fields CondensationAction_spec) [(''forgotten_event_ids'', PList (map PInt ids))]"
  have "validate_field_polymorphism ?f"
    by (simp add: validate_field_polymorphism_def is_none_def condensation_field dict_get_default_def)
  then show ?thesis by (simp add: ids_condensation_def new_condensation_def Let_def make_act_def new_event_def post_init_def)
qed

lemma contiguous:
  assumes "sorted_wrt (<) (xs :: int list)" and "xs \<noteq> []" and "last xs - hd xs = int (length xs) - 1"
  shows "set [hd xs..last xs] = set xs"
proof -
  have "set xs \<subseteq> {hd xs..last xs}"
    using assms(1,2)
  proof (induction xs rule: rev_induct)
    case (snoc x xs)
    then show ?case by (cases xs) (fastforce simp: sorted_wrt_append)+
  qed simp
  moreover have "card {hd xs..last xs} = card (set xs)"
    using assms by (simp add: distinct_card strict_sorted_iff)
  ultimately have "set xs = {hd xs..last xs}" by (simp add: card_subset_eq)
  then show ?thesis by simp
qed

lemma range_returns: "\<exists>a. new_condensation [(''forgotten_events_start_id'', PInt lo), (''forgotten_events_end_id'', PInt hi)] = Inr a
    \<and> forgotten_of (e_fields a) = Inr [lo..hi]"
proof -
  let ?kw = "[(''forgotten_events_start_id'', PInt lo), (''forgotten_events_end_id'', PInt hi)]"
  have v: "validate_field_polymorphism (init_fields (ds_fields CondensationAction_spec) ?kw)"
    by (simp add: validate_field_polymorphism_def is_none_def condensation_field dict_get_default_def)
  then have "forgotten_of (init_fields (ds_fields CondensationAction_spec) ?kw) = Inr [lo..hi]"
    by (simp add: forgotten_of_def is_none_def condensation_field dict_get_default_def)
  with v show ?thesis by (simp add: new_condensation_def Let_def make_act_def new_event_def post_init_def)
qed

definition window_keeps :: "event list \<Rightarrow> event \<Rightarrow> int set" where
  "window_keeps es u = event_id ` set (essential_events es u @ recent_slice (length (essential_events es u)) es)"

lemma window_forgets:
  assumes "find from_user es = Some u"
  shows "\<exists>a ids. window_condensation es = Inr a \<and> forgotten_of (e_fields a) = Inr ids \<and> set ids = event_id ` set es - window_keeps es u"
proof -
  let ?F = "sorted_list_of_set (event_id ` set es - window_keeps es u)"
  have set: "set ?F = event_id ` set es - window_keeps es u" by simp
  have w: "window_condensation es = (if ?F = [] then ids_condensation []
      else if 1 < length ?F \<and> last ?F - hd ?F = int (length ?F) - 1
      then new_condensation [(''forgotten_events_start_id'', PInt (hd ?F)), (''forgotten_events_end_id'', PInt (last ?F))]
      else ids_condensation ?F)"
    using assms by (simp only: window_condensation_def window_keeps_def Let_def option.case)
  consider "window_condensation es = ids_condensation ?F"
    | "?F \<noteq> []" "last ?F - hd ?F = int (length ?F) - 1" "window_condensation es
        = new_condensation [(''forgotten_events_start_id'', PInt (hd ?F)), (''forgotten_events_end_id'', PInt (last ?F))]"
    using w by metis
  then show ?thesis
  proof cases
    case 1
    then show ?thesis using ids_condensation_returns ids_condensation_forgets(2) set by metis
  next
    case 2
    then show ?thesis using range_returns [of "hd ?F" "last ?F"] contiguous [of ?F] set by (metis strict_sorted_list_of_set)
  qed
qed


definition demo_chat :: "event list" where
  "demo_chat = (make_act SystemMessageAction [(''content'', PStr ''sys'')])\<lparr>e_id := Some 0\<rparr>
     # (make_act MessageAction [(''content'', PStr ''hi'')])\<lparr>e_id := Some 1, e_source := Some USER_SOURCE\<rparr>
     # (make_act RecallAction [(''query'', PStr ''hi'')])\<lparr>e_id := Some 2\<rparr>
     # (make_obs NullObservation [(''content'', PStr [])])\<lparr>e_id := Some 3, e_cause := Some 2\<rparr>
     # map (\<lambda>i. (make_act AgentThinkAction [])\<lparr>e_id := Some (int i)\<rparr>) [4..<10]"


end
