(* ===== verification/Control_Flags.thy ===== *)
theory Control_Flags
  imports Py_Float Py_Str
begin

text \<open>
  The limits of a run: \<open>controller/state/control_flags.py\<close> and the operations of
  \<open>controller/state/state_tracker.py\<close> on them. A controller and its delegates share the two flag objects, so one pair of flags
  stands for all of them. Money is an exact rational.
\<close>

record 'n control_flag =
  limit_increase_amount :: 'n
  current_value :: 'n
  max_value :: 'n
  hit_limit :: bool

type_synonym iteration_flag = "int control_flag"
type_synonym budget_flag = "rat control_flag"

definition new_flag :: "'n::zero \<Rightarrow> 'n control_flag" where
  "new_flag n = \<lparr>limit_increase_amount = n, current_value = 0, max_value = n, hit_limit = False\<rparr>"

text \<open>\<open>reached_limit\<close> answers and remembers the answer.\<close>

definition reached_limit :: "'n::linorder control_flag \<Rightarrow> bool \<times> 'n control_flag" where
  "reached_limit f = (let hit = (max_value f \<le> current_value f) in (hit, f\<lparr>hit_limit := hit\<rparr>))"

definition increase_iteration_limit :: "bool \<Rightarrow> iteration_flag \<Rightarrow> iteration_flag" where
  "increase_iteration_limit headless f =
     (if \<not> headless \<and> hit_limit f then f\<lparr>max_value := max_value f + limit_increase_amount f, hit_limit := False\<rparr> else f)"

definition increase_budget_limit :: "bool \<Rightarrow> budget_flag \<Rightarrow> budget_flag" where
  "increase_budget_limit headless f =
     (if hit_limit f then f\<lparr>max_value := current_value f + limit_increase_amount f, hit_limit := False\<rparr> else f)"

definition iteration_step :: "iteration_flag \<Rightarrow> unit res \<times> iteration_flag" where
  "iteration_step f =
     (let (hit, f) = reached_limit f in
      if hit then (Inl (OtherError ''RuntimeError'' (''Agent reached maximum iteration. Current iteration: '' @ int_str (current_value f)
          @ '', max iteration: '' @ int_str (max_value f))), f)
      else (Inr (), f\<lparr>current_value := current_value f + 1\<rparr>))"

text \<open>\<open>f'{x:.2f}'\<close>.\<close>

definition fixed2 :: "rat \<Rightarrow> string" where
  "fixed2 x =
     (let n = round_he (\<bar>x\<bar> * 100); d = nat_str (nat (n mod 100)) in
      (if x < 0 then ''-'' else []) @ int_str (n div 100) @ ''.'' @ (if length d < 2 then ''0'' @ d else d))"

definition budget_step :: "budget_flag \<Rightarrow> unit res \<times> budget_flag" where
  "budget_step f =
     (let (hit, f) = reached_limit f in
      if hit then (Inl (OtherError ''RuntimeError'' (''Agent reached maximum budget for conversation.'' @ ''Current budget: ''
          @ fixed2 (current_value f) @ '', max budget: '' @ fixed2 (max_value f))), f)
      else (Inr (), f))"

record control_flags =
  cf_iteration :: iteration_flag
  cf_budget :: "budget_flag option"

definition maybe_increase_control_flags_limits :: "bool \<Rightarrow> control_flags \<Rightarrow> control_flags" where
  "maybe_increase_control_flags_limits headless cf =
     \<lparr>cf_iteration = increase_iteration_limit headless (cf_iteration cf),
      cf_budget = map_option (increase_budget_limit headless) (cf_budget cf)\<rparr>"

definition run_control_flags :: "control_flags \<Rightarrow> unit res \<times> control_flags" where
  "run_control_flags cf =
     (let (r, it) = iteration_step (cf_iteration cf); cf = cf\<lparr>cf_iteration := it\<rparr> in
      case r of
        Inl x \<Rightarrow> (Inl x, cf)
      | Inr _ \<Rightarrow>
          (case cf_budget cf of
             None \<Rightarrow> (Inr (), cf)
           | Some b \<Rightarrow> let (r, b) = budget_step b in (r, cf\<lparr>cf_budget := Some b\<rparr>)))"

definition sync_budget_flag_with_metrics :: "rat \<Rightarrow> control_flags \<Rightarrow> control_flags" where
  "sync_budget_flag_with_metrics cost cf = cf\<lparr>cf_budget := map_option (\<lambda>b. b\<lparr>current_value := cost\<rparr>) (cf_budget cf)\<rparr>"

section \<open>Runs\<close>

text \<open>What a controller does with its flags over time, and how many of its steps were allowed.\<close>

datatype flag_op = StepFlags | ExtendLimits | SyncCost rat

fun flag_step :: "bool \<Rightarrow> flag_op \<Rightarrow> control_flags \<Rightarrow> nat \<times> control_flags" where
  "flag_step headless StepFlags cf = (let (r, cf) = run_control_flags cf in (if isl r then 0 else 1, cf))"
| "flag_step headless ExtendLimits cf = (0, maybe_increase_control_flags_limits headless cf)"
| "flag_step headless (SyncCost c) cf = (0, sync_budget_flag_with_metrics c cf)"

fun run_flags :: "bool \<Rightarrow> flag_op list \<Rightarrow> control_flags \<Rightarrow> nat \<times> control_flags" where
  "run_flags headless [] cf = (0, cf)"
| "run_flags headless (x # xs) cf =
     (let (n, cf) = flag_step headless x cf; (m, cf) = run_flags headless xs cf in (n + m, cf))"

lemma run_control_flags_iteration:
  "run_control_flags cf = (r, cf') \<Longrightarrow>
     (if max_value (cf_iteration cf) \<le> current_value (cf_iteration cf)
      then r \<noteq> Inr () \<and> cf_iteration cf' = (cf_iteration cf)\<lparr>hit_limit := True\<rparr>
      else cf_iteration cf' = (cf_iteration cf)\<lparr>hit_limit := False, current_value := current_value (cf_iteration cf) + 1\<rparr>)"
  by (auto simp: run_control_flags_def iteration_step_def reached_limit_def Let_def split: option.splits prod.splits if_splits)

lemma flag_step_iteration:
  assumes "flag_step headless x cf = (n, cf')"
  shows "current_value (cf_iteration cf) + int n \<le> current_value (cf_iteration cf')"
    and "0 \<le> limit_increase_amount (cf_iteration cf) \<Longrightarrow> max_value (cf_iteration cf)
      \<le> max_value (cf_iteration cf')"
    and "limit_increase_amount (cf_iteration cf') = limit_increase_amount (cf_iteration cf)"
    and "0 \<le> limit_increase_amount (cf_iteration cf) \<Longrightarrow> current_value (cf_iteration cf) \<le> max_value (cf_iteration cf)
      \<Longrightarrow> current_value (cf_iteration cf') \<le> max_value (cf_iteration cf')"
    and "headless \<Longrightarrow> max_value (cf_iteration cf') = max_value (cf_iteration cf)"
proof -
  consider (step) r where "x = StepFlags" "run_control_flags cf = (r, cf')" "n = (if isl r then 0 else 1)"
    | (other) "n = 0" "cf_iteration cf' = cf_iteration cf \<or> cf_iteration cf' = increase_iteration_limit headless (cf_iteration cf)"
    using assms by (cases x) (auto simp: maybe_increase_control_flags_limits_def sync_budget_flag_with_metrics_def Let_def split: prod.splits)
  then have *: "current_value (cf_iteration cf) + int n \<le> current_value (cf_iteration cf')
    \<and> (0 \<le> limit_increase_amount (cf_iteration cf) \<longrightarrow> max_value (cf_iteration cf) \<le> max_value (cf_iteration cf'))
    \<and> limit_increase_amount (cf_iteration cf') = limit_increase_amount (cf_iteration cf)
    \<and> (0 \<le> limit_increase_amount (cf_iteration cf) \<longrightarrow> current_value (cf_iteration cf) \<le> max_value (cf_iteration cf)
      \<longrightarrow> current_value (cf_iteration cf') \<le> max_value (cf_iteration cf'))
    \<and> (headless \<longrightarrow> max_value (cf_iteration cf') = max_value (cf_iteration cf))"
  proof cases
    case step
    then show ?thesis using run_control_flags_iteration [OF step(2)] by (cases r) (auto split: if_splits)
  next
    case other
    then show ?thesis by (auto simp: increase_iteration_limit_def)
  qed
  then show "current_value (cf_iteration cf) + int n \<le> current_value (cf_iteration cf')"
    and "0 \<le> limit_increase_amount (cf_iteration cf) \<Longrightarrow> max_value (cf_iteration cf) \<le> max_value (cf_iteration cf')"
    and "limit_increase_amount (cf_iteration cf') = limit_increase_amount (cf_iteration cf)"
    and "0 \<le> limit_increase_amount (cf_iteration cf) \<Longrightarrow> current_value (cf_iteration cf) \<le> max_value (cf_iteration cf)
      \<Longrightarrow> current_value (cf_iteration cf') \<le> max_value (cf_iteration cf')"
    and "headless \<Longrightarrow> max_value (cf_iteration cf') = max_value (cf_iteration cf)"
    by auto
qed

text \<open>In headless mode the iteration limit is hard: whatever the order of steps, cost updates and attempts to extend the limits,
  and however often the agent is restarted after an error, the number of allowed steps is at most what was left at the
  start, and the limit itself never moves.\<close>

theorem headless_steps_bounded:
  assumes "0 \<le> limit_increase_amount (cf_iteration cf)" and "current_value (cf_iteration cf) \<le> max_value (cf_iteration cf)"
    and "run_flags True ops cf = (n, cf')"
  shows "int n \<le> max_value (cf_iteration cf) - current_value (cf_iteration cf)
    \<and> max_value (cf_iteration cf') = max_value (cf_iteration cf)
    \<and> current_value (cf_iteration cf') \<le> max_value (cf_iteration cf')"
  using assms
proof (induction ops arbitrary: cf n)
  case (Cons x xs)
  obtain k cf1 where k: "flag_step True x cf = (k, cf1)" by (cases "flag_step True x cf")
  obtain m where m: "run_flags True xs cf1 = (m, cf')" "n = k + m" using Cons.prems(3) k by (auto split: prod.splits)
  note s = flag_step_iteration [OF k]
  have "int m \<le> max_value (cf_iteration cf1) - current_value (cf_iteration cf1)
      \<and> max_value (cf_iteration cf') = max_value (cf_iteration cf1) \<and> current_value (cf_iteration cf') \<le> max_value (cf_iteration cf')"
    using Cons.prems(1,2) s(3,4) by (intro Cons.IH m(1)) auto
  then show ?case using s(1,5) m(2) by auto
qed simp

definition demo_flags :: control_flags where
  "demo_flags = \<lparr>cf_iteration = new_flag 2, cf_budget = None\<rparr>"

theorem headless_steps_bounded_witness:
  "fst (run_flags True [StepFlags, StepFlags, StepFlags, ExtendLimits, StepFlags] demo_flags) = 2
   \<and> (\<exists>n cf'. run_flags True [StepFlags, StepFlags, StepFlags, ExtendLimits, StepFlags] demo_flags = (n, cf') \<and> int n \<le> 2)"
proof
  show "fst (run_flags True [StepFlags, StepFlags, StepFlags, ExtendLimits, StepFlags] demo_flags) = 2" by code_simp
  obtain n cf' where r: "run_flags True [StepFlags, StepFlags, StepFlags, ExtendLimits, StepFlags] demo_flags = (n, cf')"
    by (cases "run_flags True [StepFlags, StepFlags, StepFlags, ExtendLimits, StepFlags] demo_flags")
  have "int n \<le> max_value (cf_iteration demo_flags) - current_value (cf_iteration demo_flags)"
    using headless_steps_bounded [OF _ _ r] by (simp add: demo_flags_def new_flag_def)
  then show "\<exists>n cf'. run_flags True [StepFlags, StepFlags, StepFlags, ExtendLimits, StepFlags] demo_flags = (n, cf') \<and> int n \<le> 2"
    using r by (simp add: demo_flags_def new_flag_def)
qed

text \<open>In interactive mode a run that reached its limit can go on: one refused step, then the extension, then every step up to
  the increment is allowed.\<close>

lemma steps_allowed:
  assumes "cf_budget cf = None" and "current_value (cf_iteration cf) + int k \<le> max_value (cf_iteration cf)"
  shows "fst (run_flags h (replicate k StepFlags) cf) = k"
  using assms
proof (induction k arbitrary: cf)
  case (Suc k)
  obtain r cf1 where r: "run_control_flags cf = (r, cf1)" by (cases "run_control_flags cf")
  have it: "cf_iteration cf1 = (cf_iteration cf)\<lparr>hit_limit := False, current_value := current_value (cf_iteration cf) + 1\<rparr>"
    using run_control_flags_iteration [OF r] Suc.prems(2) by simp
  have "r = Inr ()" "cf_budget cf1 = None"
    using r Suc.prems by (auto simp: run_control_flags_def iteration_step_def reached_limit_def Let_def)
  moreover have "fst (run_flags h (replicate k StepFlags) cf1) = k"
    using Suc.prems(2) it \<open>cf_budget cf1 = None\<close> by (intro Suc.IH) simp_all
  ultimately show ?case using r by (auto simp: Let_def split: prod.splits)
qed simp

theorem extension_allows_steps:
  assumes "cf_budget cf = None" and "max_value (cf_iteration cf) \<le> current_value (cf_iteration cf)"
    and "current_value (cf_iteration cf) + int k \<le> max_value (cf_iteration cf) + limit_increase_amount (cf_iteration cf)"
  shows "fst (run_flags False [StepFlags] cf) = 0 \<and> fst (run_flags False (StepFlags # ExtendLimits # replicate k StepFlags) cf) = k"
proof -
  obtain r cf1 where r: "run_control_flags cf = (r, cf1)" by (cases "run_control_flags cf")
  have it: "r \<noteq> Inr ()" "cf_iteration cf1 = (cf_iteration cf)\<lparr>hit_limit := True\<rparr>"
    using run_control_flags_iteration [OF r] assms(2) by simp_all
  have "cf_budget cf1 = None"
    using r assms by (auto simp: run_control_flags_def iteration_step_def reached_limit_def Let_def)
  then have "fst (run_flags False (replicate k StepFlags) (maybe_increase_control_flags_limits False cf1)) = k"
    using it(2) assms(3) by (intro steps_allowed) (simp_all add: maybe_increase_control_flags_limits_def increase_iteration_limit_def)
  moreover have "isl r" using it(1) by (cases r) auto
  ultimately show ?thesis using r by (auto simp: Let_def split: prod.splits)
qed

theorem extension_allows_steps_witness:
  "fst (run_flags False (StepFlags # ExtendLimits # replicate 2 StepFlags) (demo_flags\<lparr>cf_iteration := (new_flag 2)\<lparr>current_value := 2\<rparr>\<rparr>)) = 2"
  using extension_allows_steps [of "demo_flags\<lparr>cf_iteration := (new_flag 2)\<lparr>current_value := 2\<rparr>\<rparr>" 2]
  by (simp add: demo_flags_def new_flag_def)

end
