(* ===== verification/Event_Filter.thy ===== *)
theory Event_Filter
  imports Event_Serial
begin

text \<open>
  The filter of event searches: \<open>events/event_filter.py\<close>. A type is one of the concrete classes or one
  of the base classes. Timestamps are ISO texts and are compared as texts. The text search looks in
  \<open>json.dumps\<close> of the event, which escapes every character outside printable ASCII.
\<close>

section \<open>Python's text order and \<open>json.dumps\<close>\<close>

fun str_less :: "string \<Rightarrow> string \<Rightarrow> bool" where
  "str_less [] ys = (ys \<noteq> [])"
| "str_less (x # xs) [] = False"
| "str_less (x # xs) (y # ys) = (code x < code y \<or> (x = y \<and> str_less xs ys))"

text \<open>\<open>ensure_ascii\<close> escapes what lies outside the printable ASCII characters.\<close>

definition ascii_char :: "char \<Rightarrow> string" where
  "ascii_char c =
     (if 32 \<le> code c \<and> code c \<le> 126 then [c]
      else [CHR 0x5C] @ ''u00'' @ [hex_digit (code c div 16), hex_digit (code c mod 16)])"

definition json_dumps_ascii :: "(pyval \<Rightarrow> string) \<Rightarrow> pyval \<Rightarrow> string" where
  "json_dumps_ascii rp v = concat (map ascii_char (json_dumps rp v))"

section \<open>The filter\<close>

datatype event_type = Exactly event_class | AnyAction | AnyObservation | AnyEvent

fun isinstance_of :: "event \<Rightarrow> event_type \<Rightarrow> bool" where
  "isinstance_of e (Exactly c) = (e_class e = c)"
| "isinstance_of e AnyAction = is_action e"
| "isinstance_of e AnyObservation = is_observation e"
| "isinstance_of e AnyEvent = True"

record event_filter =
  exclude_hidden :: bool
  ef_query :: "string option"
  include_types :: "event_type list option"
  exclude_types :: "event_type list option"
  ef_source :: "string option"
  start_date :: "string option"
  end_date :: "string option"

definition no_filter :: event_filter where
  "no_filter = \<lparr>exclude_hidden = False, ef_query = None, include_types = None, exclude_types = None, ef_source = None,
     start_date = None, end_date = None\<rparr>"

text \<open>An option with a truthy value.\<close>

definition given :: "'a list option \<Rightarrow> bool" where
  "given x \<longleftrightarrow> x \<noteq> None \<and> x \<noteq> Some []"

definition ef_include :: "(pyval \<Rightarrow> string) \<Rightarrow> event_filter \<Rightarrow> event \<Rightarrow> bool res" where
  "ef_include rp f e =
     (if given (include_types f) \<and> \<not> list_ex (isinstance_of e) (the (include_types f)) then Inr False
      else if exclude_types f \<noteq> None \<and> list_ex (isinstance_of e) (the (exclude_types f)) then Inr False
      else if given (ef_source f) \<and> map_option event_source_value (e_source e) \<noteq> ef_source f then Inr False
      else if given (start_date f) \<and> (case e_timestamp e of None \<Rightarrow> False | Some t \<Rightarrow> str_less t (the (start_date f)))
      then Inr False
      else if given (end_date f) \<and> (case e_timestamp e of None \<Rightarrow> False | Some t \<Rightarrow> str_less (the (end_date f)) t)
      then Inr False
      else if exclude_hidden f \<and> py_truthy (get_attr e ''hidden'' (PBool False)) then Inr False
      else if given (ef_query f) then
        res_map (\<lambda>d. contains (lower (the (ef_query f))) (lower (json_dumps_ascii rp (PDict d)))) (event_to_dict rp e)
      else Inr True)"

definition ef_exclude :: "(pyval \<Rightarrow> string) \<Rightarrow> event_filter \<Rightarrow> event \<Rightarrow> bool res" where
  "ef_exclude rp f e = res_map Not (ef_include rp f e)"

section \<open>Lemmas\<close>

lemma hex_digit_ascii: "n < 16 \<Longrightarrow> 32 \<le> code (hex_digit n) \<and> code (hex_digit n) \<le> 126"
  by auto

lemma ascii_char_ascii: "c \<in> set (ascii_char d) \<Longrightarrow> 32 \<le> code c \<and> code c \<le> 126"
proof -
  assume c: "c \<in> set (ascii_char d)"
  have "code d div 16 < 16" "code d mod 16 < 16" using code_lt [of d] by simp_all
  note h = hex_digit_ascii [OF this(1)] hex_digit_ascii [OF this(2)]
  from c show ?thesis
    using h by (auto simp: ascii_char_def code_def simp del: hex_digit.simps split: if_splits)
qed

lemma lower_char_ascii: "code c \<le> 126 \<Longrightarrow> code (lower_char c) \<le> 126"
  by (auto simp: lower_char_def Let_def)

lemma lower_char_big: "127 \<le> code c \<Longrightarrow> 127 \<le> code (lower_char c)"
  using code_lt [of c] by (auto simp: lower_char_def Let_def)

section \<open>Properties\<close>

text \<open>A query with a character outside ASCII finds nothing: the search looks in the escaped JSON text, where
  such a character never occurs, although the events may contain the very words.\<close>

theorem non_ascii_query_finds_nothing:
  assumes "ef_query f = Some q" and "c \<in> set q" and "127 \<le> code c"
  shows "ef_include rp f e \<noteq> Inr True"
proof
  assume a: "ef_include rp f e = Inr True"
  have "given (ef_query f)" using assms by (auto simp: given_def)
  with a assms(1) obtain d where "contains (lower q) (lower (json_dumps_ascii rp (PDict d)))"
    by (auto simp: ef_include_def split: if_splits)
  then have "set (lower q) \<subseteq> set (lower (json_dumps_ascii rp (PDict d)))"
    by (auto simp: contains_iff)
  moreover have "lower_char c \<in> set (lower q)" using assms(2) by (simp add: lower_def)
  ultimately obtain x y where "lower_char c = lower_char x" "x \<in> set (ascii_char y)"
    by (fastforce simp: lower_def json_dumps_ascii_def)
  then show False
    using ascii_char_ascii lower_char_ascii [of x] lower_char_big [OF assms(3)] by fastforce
qed

definition demo_accent :: string where
  "demo_accent = ''caf'' @ [CHR 0xE9]"

theorem non_ascii_query_finds_nothing_witness:
  "ef_include (\<lambda>_. []) (no_filter\<lparr>ef_query := Some demo_accent\<rparr>) (make_act MessageAction [(''content'', PStr demo_accent)]) \<noteq> Inr True"
  by (rule non_ascii_query_finds_nothing [where c = "CHR 0xE9"]) (simp_all add: demo_accent_def code_def, code_simp)

end
