(* ===== verification/Event_Store.thy ===== *)
theory Event_Store
  imports Event_Filter
begin

text \<open>
  The stored conversation: \<open>events/event_store.py\<close> over \<open>storage/memory.py\<close> with the names of
  \<open>storage/locations.py\<close>. A file is represented by the JSON value its text holds (\<open>json_value\<close>: tuples
  become lists), so \<open>json.loads\<close> after \<open>json.dumps\<close> is the identity on it. A search is the list its
  consumer sees; \<open>should_continue()\<close> is an argument, its answer at each index.
\<close>

section \<open>Files\<close>

type_synonym file_store = "(string, pyval) dict"

fun json_value :: "pyval \<Rightarrow> pyval" where
  "json_value (PTuple vs) = PList (map json_value vs)"
| "json_value (PList vs) = PList (map json_value vs)"
| "json_value (PDict kvs) = PDict (map (\<lambda>(k, v). (k, json_value v)) kvs)"
| "json_value v = v"

definition fs_write :: "string \<Rightarrow> 'v \<Rightarrow> (string, 'v) dict \<Rightarrow> (string, 'v) dict" where
  "fs_write path contents fs = dict_set path contents fs"

definition fs_read :: "string \<Rightarrow> (string, 'v) dict \<Rightarrow> 'v res" where
  "fs_read path fs = (case dict_get fs path of None \<Rightarrow> Inl (FileNotFoundError path) | Some v \<Rightarrow> Inr v)"

text \<open>\<open>os.path.join(a, b)\<close> for a relative \<open>b\<close>.\<close>

definition os_path_join :: "string \<Rightarrow> string \<Rightarrow> string" where
  "os_path_join a b = (if prefix ''/'' b then b else if a = [] \<or> suffix ''/'' a then a @ b else a @ ''/'' @ b)"

definition fs_list_step :: "string \<Rightarrow> string \<Rightarrow> string list \<Rightarrow> string list" where
  "fs_list_step path f files =
     (if \<not> prefix path f then files
      else let parts = split_char (CHR ''/'') (drop (length path) f);
               parts = (if hd parts = [] then List.tl parts else parts)
           in if length parts = 1 then files @ [f]
              else let dir_path = os_path_join path (case parts of [] \<Rightarrow> [] | p # _ \<Rightarrow> p);
                       dir_path = (if suffix ''/'' dir_path then dir_path else dir_path @ ''/'')
                   in if dir_path \<in> set files then files else files @ [dir_path])"

definition fs_list :: "string \<Rightarrow> file_store \<Rightarrow> string list" where
  "fs_list path fs = fold (fs_list_step path) (dict_keys fs) []"

definition fs_delete :: "string \<Rightarrow> (string, 'v) dict \<Rightarrow> (string, 'v) dict" where
  "fs_delete path fs = filter (\<lambda>(k, v). \<not> prefix path k) fs"

section \<open>Names\<close>

definition get_conversation_dir :: "string \<Rightarrow> string option \<Rightarrow> string" where
  "get_conversation_dir sid user_id =
     (case user_id of
        None \<Rightarrow> ''sessions/'' @ sid @ ''/''
      | Some u \<Rightarrow> if u \<noteq> [] then ''users/'' @ u @ ''/conversations/'' @ sid @ ''/'' else ''sessions/'' @ sid @ ''/'')"

definition get_conversation_events_dir :: "string \<Rightarrow> string option \<Rightarrow> string" where
  "get_conversation_events_dir sid user_id = get_conversation_dir sid user_id @ ''events/''"

definition get_conversation_event_filename :: "string \<Rightarrow> int \<Rightarrow> string option \<Rightarrow> string" where
  "get_conversation_event_filename sid i user_id = get_conversation_events_dir sid user_id @ int_str i @ ''.json''"

section \<open>The store\<close>

record event_store =
  es_sid :: string
  es_file_store :: file_store
  es_user_id :: "string option"
  es_cache_size :: int
  es_cur_id :: "int option"

record cache_page =
  cp_events :: "pyval list option"
  cp_start :: int
  cp_end :: int

definition covers :: "cache_page \<Rightarrow> int \<Rightarrow> bool" where
  "covers p i = (if i < cp_start p then False else if cp_end p \<le> i then False else True)"

fun event_of_value :: "codec \<Rightarrow> pyval \<Rightarrow> event res" where
  "event_of_value cd (PDict d) = event_from_dict cd d"
| "event_of_value cd v = Inl (ValueError ''Unknown event type'')"

text \<open>An index past the end of a short page raises.\<close>

definition page_get_event :: "codec \<Rightarrow> cache_page \<Rightarrow> int \<Rightarrow> event option res" where
  "page_get_event cd p i =
     (case cp_events p of
        None \<Rightarrow> Inr None
      | Some vs \<Rightarrow>
          if vs = [] then Inr None
          else let local_index = i - cp_start p in
            if 0 \<le> local_index \<and> local_index < int (length vs) then res_map Some (event_of_value cd (vs ! nat local_index))
            else Inl (OtherError ''IndexError'' ''list index out of range''))"

definition DUMMY_PAGE :: cache_page where
  "DUMMY_PAGE = \<lparr>cp_events = None, cp_start = 1, cp_end = - 1\<rparr>"

definition get_filename_for_id :: "'a event_store_scheme \<Rightarrow> int \<Rightarrow> string" where
  "get_filename_for_id st i = get_conversation_event_filename (es_sid st) i (es_user_id st)"

definition get_filename_for_cache :: "'a event_store_scheme \<Rightarrow> int \<Rightarrow> int \<Rightarrow> string" where
  "get_filename_for_cache st a b =
     get_conversation_dir (es_sid st) (es_user_id st) @ ''event_cache/'' @ int_str a @ ''-'' @ int_str b @ ''.json''"

text \<open>\<open>int(s)\<close> of a text: optional space around, an optional sign, decimal digits; underscores between digits
  are not read.\<close>

definition int_of_str :: "string \<Rightarrow> int option" where
  "int_of_str s =
     (let t = strip s in
      case t of
        [] \<Rightarrow> None
      | c # cs \<Rightarrow>
          (let ds = (if c = CHR ''-'' \<or> c = CHR ''+'' then cs else t) in
           if ds \<noteq> [] \<and> list_all is_digit ds then Some ((if c = CHR ''-'' then - 1 else 1) * int (digits_val ds))
           else None))"

definition get_id_from_filename :: "string \<Rightarrow> int" where
  "get_id_from_filename filename =
     (case int_of_str (hd (split_char (CHR ''.'') (last (split_char (CHR ''/'') filename)))) of None \<Rightarrow> - 1 | Some i \<Rightarrow> i)"

definition calculate_cur_id :: "'a event_store_scheme \<Rightarrow> int" where
  "calculate_cur_id st =
     (let events = fs_list (get_conversation_events_dir (es_sid st) (es_user_id st)) (es_file_store st) in
      if events = [] then 0
      else fold (\<lambda>f max_id. let i = get_id_from_filename f in if max_id \<le> i then i else max_id) events (- 1) + 1)"

text \<open>The property \<open>cur_id\<close>, computed on first use.\<close>

definition cur_id :: "'a event_store_scheme \<Rightarrow> int" where
  "cur_id st = (case es_cur_id st of None \<Rightarrow> calculate_cur_id st | Some i \<Rightarrow> i)"

definition load_cache_page :: "'a event_store_scheme \<Rightarrow> int \<Rightarrow> int \<Rightarrow> cache_page" where
  "load_cache_page st a b =
     \<lparr>cp_events = (case fs_read (get_filename_for_cache st a b) (es_file_store st) of
         Inl _ \<Rightarrow> None | Inr v \<Rightarrow> Some (list_val v)),
      cp_start = a, cp_end = b\<rparr>"

definition load_cache_page_for_index :: "'a event_store_scheme \<Rightarrow> int \<Rightarrow> cache_page" where
  "load_cache_page_for_index st i =
     (let start = i - i mod es_cache_size st in load_cache_page st start (start + es_cache_size st))"

definition get_event :: "codec \<Rightarrow> 'a event_store_scheme \<Rightarrow> int \<Rightarrow> event res" where
  "get_event cd st i = res_bind (fs_read (get_filename_for_id st i) (es_file_store st)) (event_of_value cd)"

definition get_latest_event :: "codec \<Rightarrow> 'a event_store_scheme \<Rightarrow> event res" where
  "get_latest_event cd st = get_event cd st (cur_id st - 1)"

definition get_latest_event_id :: "'a event_store_scheme \<Rightarrow> int" where
  "get_latest_event_id st = cur_id st - 1"

text \<open>\<open>get_event\<close> inside a search: a missing file is skipped, any other error is raised.\<close>

definition read_event :: "codec \<Rightarrow> 'a event_store_scheme \<Rightarrow> int \<Rightarrow> event option res" where
  "read_event cd st i =
     (case get_event cd st i of
        Inl (FileNotFoundError _) \<Rightarrow> Inr None
      | Inl x \<Rightarrow> Inl x
      | Inr e \<Rightarrow> Inr (Some e))"

text \<open>What a search does with the event at one index, given the rest of the search for a number of results.\<close>

definition yield_event ::
  "(event \<Rightarrow> bool res) \<Rightarrow> int option \<Rightarrow> int \<Rightarrow> event option \<Rightarrow> (int \<Rightarrow> event list res) \<Rightarrow> event list res" where
  "yield_event incl limit num_results found rest =
     (case found of
        None \<Rightarrow> rest num_results
      | Some e \<Rightarrow>
          res_bind (incl e) (\<lambda>keep.
            if \<not> keep then rest num_results
            else (case limit of
                Some l \<Rightarrow> if l \<noteq> 0 \<and> l \<le> num_results + 1 then Inr [e] else res_map ((#) e) (rest (num_results + 1))
              | None \<Rightarrow> res_map ((#) e) (rest (num_results + 1)))))"

fun search_loop ::
  "codec \<Rightarrow> (int \<Rightarrow> bool) \<Rightarrow> (event \<Rightarrow> bool res) \<Rightarrow> int option \<Rightarrow> 'a event_store_scheme \<Rightarrow> cache_page \<Rightarrow> int \<Rightarrow> int list \<Rightarrow> event list res" where
  "search_loop cd continue incl limit st page num_results [] = Inr []"
| "search_loop cd continue incl limit st page num_results (i # is) =
     (if \<not> continue i then Inr []
      else let page = (if covers page i then page else load_cache_page_for_index st i) in
        res_bind (page_get_event cd page i) (\<lambda>cached.
        res_bind (case cached of None \<Rightarrow> read_event cd st i | Some e \<Rightarrow> Inr (Some e)) (\<lambda>found.
          yield_event incl limit num_results found (\<lambda>n. search_loop cd continue incl limit st page n is))))"

text \<open>\<open>range(start_id, end_id, step)\<close> of the search.\<close>

definition search_range :: "'a event_store_scheme \<Rightarrow> int \<Rightarrow> int option \<Rightarrow> bool \<Rightarrow> int list" where
  "search_range st start_id end_id reverse =
     (let end_excl = (case end_id of None \<Rightarrow> cur_id st | Some i \<Rightarrow> i + 1) in
      if reverse then rev [start_id..end_excl - 1] else [start_id..end_excl - 1])"

definition search_events ::
  "(pyval \<Rightarrow> string) \<Rightarrow> codec \<Rightarrow> (int \<Rightarrow> bool) \<Rightarrow> 'a event_store_scheme \<Rightarrow> int \<Rightarrow> int option \<Rightarrow> bool \<Rightarrow> event_filter option \<Rightarrow> int option \<Rightarrow> event list res" where
  "search_events rp cd continue st start_id end_id reverse flt limit =
     search_loop cd continue (case flt of None \<Rightarrow> (\<lambda>_. Inr True) | Some f \<Rightarrow> ef_include rp f) limit st DUMMY_PAGE 0
       (search_range st start_id end_id reverse)"

text \<open>The deprecated calls of \<open>event_store_abc.py\<close>; \<open>islice(events, limit)\<close> stops a search after its \<open>limit\<close>-th result, as
  the argument \<open>limit\<close> does.\<close>

definition filtered_events_by_source ::
  "(pyval \<Rightarrow> string) \<Rightarrow> codec \<Rightarrow> (int \<Rightarrow> bool) \<Rightarrow> 'a event_store_scheme \<Rightarrow> event_source \<Rightarrow> event list res" where
  "filtered_events_by_source rp cd continue st source =
     res_map (filter (\<lambda>e. e_source e = Some source)) (search_events rp cd continue st 0 None False None None)"

definition get_matching_events ::
  "(pyval \<Rightarrow> string) \<Rightarrow> codec \<Rightarrow> (int \<Rightarrow> bool) \<Rightarrow> 'a event_store_scheme \<Rightarrow> event_filter \<Rightarrow> int \<Rightarrow> int \<Rightarrow> bool \<Rightarrow> event list res" where
  "get_matching_events rp cd continue st flt start_id limit reverse =
     (if limit < 1 \<or> 100 < limit then Inl (ValueError ''Limit must be between 1 and 100'')
      else search_events rp cd continue st start_id None reverse
        (Some (no_filter\<lparr>ef_query := ef_query flt, include_types := include_types flt, ef_source := ef_source flt,
           start_date := start_date flt, end_date := end_date flt\<rparr>)) (Some limit))"

end
