(* ===== verification/Conversation_Stream.thy ===== *)
theory Conversation_Stream
  imports Event_Store
begin

text \<open>
  The event stream of a conversation: \<open>events/stream.py\<close>. The stream is a store with the secrets to hide,
  the page being written, the queue of events for the subscribers and the subscribers themselves. The section under the
  lock and the writes after it are one step. A callback is known by a value of any type; threads and
  their loops are not modelled: \<open>process_queue\<close> gives the calls in the order they are submitted.
\<close>

record 'cb event_stream = event_store +
  st_secrets :: "(string, string) dict"
  st_write_page_cache :: "payload list"
  st_queue :: "event list"
  st_subscribers :: "(string, (string, 'cb) dict) dict"

definition new_stream :: "string \<Rightarrow> file_store \<Rightarrow> string option \<Rightarrow> 'cb event_stream" where
  "new_stream sid fs user_id =
     \<lparr>es_sid = sid, es_file_store = fs, es_user_id = user_id, es_cache_size = 25, es_cur_id = None, st_secrets = [],
      st_write_page_cache = [], st_queue = [], st_subscribers = []\<rparr>"

section \<open>Subscribers\<close>

definition subscribe :: "string \<Rightarrow> 'cb \<Rightarrow> string \<Rightarrow> 'cb event_stream \<Rightarrow> unit res \<times> 'cb event_stream" where
  "subscribe subscriber_id callback callback_id st =
     (let subs = (if subscriber_id \<in> set (dict_keys (st_subscribers st)) then st_subscribers st
                  else dict_set subscriber_id [] (st_subscribers st));
          cbs = dict_get_default subs subscriber_id []
      in if callback_id \<in> set (dict_keys cbs)
         then (Inl (ValueError (''Callback ID already exists: '' @ callback_id)), st\<lparr>st_subscribers := subs\<rparr>)
         else (Inr (), st\<lparr>st_subscribers := dict_set subscriber_id (dict_set callback_id callback cbs) subs\<rparr>))"

definition unsubscribe :: "string \<Rightarrow> string \<Rightarrow> 'cb event_stream \<Rightarrow> 'cb event_stream" where
  "unsubscribe subscriber_id callback_id st =
     (case dict_get (st_subscribers st) subscriber_id of
        None \<Rightarrow> st
      | Some cbs \<Rightarrow>
          if callback_id \<notin> set (dict_keys cbs) then st
          else st\<lparr>st_subscribers := dict_set subscriber_id (dict_del callback_id cbs) (st_subscribers st)\<rparr>)"

definition close_stream :: "'cb event_stream \<Rightarrow> 'cb event_stream" where
  "close_stream st =
     fold (\<lambda>(s, cbs). fold (\<lambda>(c, _). unsubscribe s c) cbs) (st_subscribers st) st \<lparr>st_queue := []\<rparr>"

text \<open>\<open>sorted\<close> of texts by Python's order.\<close>

definition insert_key :: "string \<Rightarrow> string list \<Rightarrow> string list" where
  "insert_key k ks = takeWhile (\<lambda>x. \<not> str_less k x) ks @ k # dropWhile (\<lambda>x. \<not> str_less k x) ks"

definition sorted_keys :: "string list \<Rightarrow> string list" where
  "sorted_keys ks = fold insert_key ks []"

text \<open>One event of the queue: the calls submitted, in order.\<close>

definition process_event :: "'cb event_stream \<Rightarrow> event \<Rightarrow> (string \<times> string \<times> 'cb \<times> event) list" where
  "process_event st e =
     concat (map (\<lambda>s. map (\<lambda>(c, cb). (s, c, cb, e)) (dict_get_default (st_subscribers st) s []))
       (sorted_keys (dict_keys (st_subscribers st))))"

definition process_queue :: "'cb event_stream \<Rightarrow> (string \<times> string \<times> 'cb \<times> event) list \<times> 'cb event_stream" where
  "process_queue st = (concat (map (process_event st) (st_queue st)), st\<lparr>st_queue := []\<rparr>)"

section \<open>Secrets\<close>

definition set_secrets :: "(string, string) dict \<Rightarrow> 'cb event_stream \<Rightarrow> 'cb event_stream" where
  "set_secrets secrets st = st\<lparr>st_secrets := secrets\<rparr>"

definition update_secrets :: "(string, string) dict \<Rightarrow> 'cb event_stream \<Rightarrow> 'cb event_stream" where
  "update_secrets secrets st = st\<lparr>st_secrets := fold (\<lambda>(k, v). dict_set k v) secrets (st_secrets st)\<rparr>"

definition TOP_LEVEL_PROTECTED_FIELDS :: "string list" where
  "TOP_LEVEL_PROTECTED_FIELDS = [''timestamp'', ''id'', ''source'', ''cause'', ''action'', ''observation'', ''message'']"

definition secret_mask :: string where
  "secret_mask = ''<secret_hidden>''"

definition hide_secrets :: "string list \<Rightarrow> string \<Rightarrow> string" where
  "hide_secrets secrets s = fold (\<lambda>secret t. replace secret secret_mask t) secrets s"

fun hide_value :: "string list \<Rightarrow> pyval \<Rightarrow> pyval" where
  "hide_value secrets (PDict kvs) = PDict (map (\<lambda>(k, v). (k, hide_value secrets v)) kvs)"
| "hide_value secrets (PStr s) = PStr (hide_secrets secrets s)"
| "hide_value secrets v = v"

definition replace_secrets :: "string list \<Rightarrow> payload \<Rightarrow> payload" where
  "replace_secrets secrets data =
     map (\<lambda>(k, v). (k, if k \<in> set TOP_LEVEL_PROTECTED_FIELDS then v else hide_value secrets v)) data"

section \<open>Adding an event\<close>

definition store_cache_page :: "payload list \<Rightarrow> 'cb event_stream \<Rightarrow> 'cb event_stream" where
  "store_cache_page page st =
     (if int (length page) < es_cache_size st then st
      else let start = int_val (field_of (hd page) ''id'') in
        st\<lparr>es_file_store := fs_write (get_filename_for_cache st start (start + es_cache_size st))
             (json_value (PList (map PDict page))) (es_file_store st)\<rparr>)"

text \<open>The event the caller holds is stamped even when serialising it raises; its id is then spent.\<close>

definition add_event ::
  "(pyval \<Rightarrow> string) \<Rightarrow> codec \<Rightarrow> string \<Rightarrow> event \<Rightarrow> event_source \<Rightarrow> 'cb event_stream \<Rightarrow> unit res \<times> event \<times> 'cb event_stream" where
  "add_event rp cd now e source st =
     (if event_id e \<noteq> INVALID_ID then (Inl (ValueError ''Event already has an ID''), e, st)
      else
        let e = e\<lparr>e_timestamp := Some now, e_source := Some source, e_id := Some (cur_id st)\<rparr>;
            st = st\<lparr>es_cur_id := Some (cur_id st + 1)\<rparr>
        in case res_bind (event_to_dict rp e) (\<lambda>d.
             let data = replace_secrets (dict_values (st_secrets st)) d
             in res_map (\<lambda>stored. (data, stored)) (event_from_dict cd data)) of
             Inl x \<Rightarrow> (Inl x, e, st)
           | Inr (data, stored) \<Rightarrow>
               let page = st_write_page_cache st @ [data];
                   st = st\<lparr>st_write_page_cache := (if int (length page) = es_cache_size st then [] else page)\<rparr>;
                   st = st\<lparr>es_file_store := fs_write (get_filename_for_id st (event_id stored)) (json_value (PDict data))
                     (es_file_store st)\<rparr>;
                   st = store_cache_page page st
               in (Inr (), e, st\<lparr>st_queue := st_queue st @ [stored]\<rparr>))"

section \<open>Lemmas on names\<close>

lemma event_name_inj [simp]: "get_filename_for_id st i = get_filename_for_id st j \<longleftrightarrow> i = j"
  by (simp add: get_filename_for_id_def get_conversation_event_filename_def int_str_inj)

lemma nat_str_no: "c \<notin> set (nat_str n)" if "\<not> is_digit c"
  using that nat_str_digits by blast

lemma dash_split:
  assumes "CHR ''-'' \<notin> set u" and "CHR ''-'' \<notin> set v" and "u @ ''-'' @ x = v @ ''-'' @ y"
  shows "u = v"
proof -
  have "takeWhile (\<lambda>c. c \<noteq> CHR ''-'') (u @ ''-'' @ x) = u" "takeWhile (\<lambda>c. c \<noteq> CHR ''-'') (v @ ''-'' @ y) = v"
    using assms(1,2) by (subst takeWhile_append2, auto)+
  then show ?thesis using assms(3) by simp
qed

lemma int_str_dash:
  assumes "int_str a @ ''-'' @ x = int_str b @ ''-'' @ y"
  shows "a = b"
proof -
  have d: "CHR ''-'' \<notin> set (nat_str n)" for n by (rule nat_str_no) (simp add: is_digit_def code_def)
  have h: "nat_str n @ z \<noteq> CHR ''-'' # z'" for n z z'
    using d [of n] nat_str_ne [of n] by (cases "nat_str n") auto
  show ?thesis
  proof (cases "a < 0"; cases "b < 0")
    assume "a < 0" "b < 0"
    then have "nat_str (nat (- a)) = nat_str (nat (- b))"
      using assms dash_split [OF d d, of "nat (- a)" x "nat (- b)" y] by (simp add: int_str_def)
    with \<open>a < 0\<close> \<open>b < 0\<close> show ?thesis by simp
  next
    assume "\<not> a < 0" "\<not> b < 0"
    then have "nat_str (nat a) = nat_str (nat b)"
      using assms dash_split [OF d d, of "nat a" x "nat b" y] by (simp add: int_str_def)
    with \<open>\<not> a < 0\<close> \<open>\<not> b < 0\<close> show ?thesis by simp
  qed (use assms h [of "nat a"] h [of "nat b"] in \<open>auto simp: int_str_def dest: sym\<close>)
qed

lemma cache_name_inj: "get_filename_for_cache st a b = get_filename_for_cache st c d \<Longrightarrow> a = c"
  using int_str_dash [of a "int_str b @ ''.json''" c "int_str d @ ''.json''"]
  by (simp add: get_filename_for_cache_def)

lemma cache_event_names [simp]: "get_filename_for_cache st a b \<noteq> get_filename_for_id st i"
  "get_filename_for_id st i \<noteq> get_filename_for_cache st a b"
  by (simp_all add: get_filename_for_cache_def get_filename_for_id_def get_conversation_event_filename_def get_conversation_events_dir_def)

section \<open>Plain values\<close>

text \<open>A value is plain when storing it as JSON keeps it: it has no tuples.\<close>

definition plain :: "pyval \<Rightarrow> bool" where
  "plain v \<longleftrightarrow> json_value v = v"

lemma plain_dict: "plain (PDict d) \<longleftrightarrow> (\<forall>k v. (k, v) \<in> set d \<longrightarrow> plain v)"
  by (induction d) (auto simp: plain_def)+

lemma plain_atoms [simp]: "plain PNone" "plain (PBool b)" "plain (PInt i)" "plain (PFloat r)" "plain (PStr s)"
  by (simp_all add: plain_def)

lemma plain_hide: "plain v \<Longrightarrow> plain (hide_value ss v)"
proof (induction ss v rule: hide_value.induct)
  case (1 ss kvs)
  then show ?case by (auto simp: plain_dict)
qed (simp_all add: plain_def)

lemma plain_replace: "plain (PDict d) \<Longrightarrow> plain (PDict (replace_secrets ss d))"
  by (auto simp: plain_dict replace_secrets_def plain_hide)

definition json_ok :: "event \<Rightarrow> bool" where
  "json_ok e \<longleftrightarrow> plain (PDict (e_fields e)) \<and> plain (PDict (e_attrs e))
     \<and> (case e_tool_call e of None \<Rightarrow> True | Some m \<Rightarrow> plain (PDict m))"

lemma plain_top_attr: "json_ok e \<Longrightarrow> top_attr rp e k = Inr v \<Longrightarrow> plain v"
proof -
  assume j: "json_ok e" and t: "top_attr rp e k = Inr v"
  have "plain (get_attr e k PNone)" for k
    using j by (auto simp: json_ok_def get_attr_def dict_get_default_def plain_dict split: option.splits dest!: dict_get_SomeD)
  with j t show "plain v"
    by (auto simp: top_attr_def opt_val_def json_ok_def split: if_splits option.splits)
qed

lemma plain_top_entries: "json_ok e \<Longrightarrow> top_entries rp e keys = Inr t \<Longrightarrow> plain (PDict t)"
  by (induction keys arbitrary: t) (auto simp: plain_dict split: if_splits dest: plain_top_attr)

lemma plain_to_dict:
  assumes "json_ok e" and "event_to_dict rp e = Inr d"
  shows "plain (PDict d)"
proof -
  have p: "plain (PDict (event_props e))"
  proof -
    have "set (event_props e) \<subseteq> set (e_fields e)"
      by (auto simp: event_props_def Let_def AList.delete_eq)
    with assms(1) show ?thesis by (auto simp: json_ok_def plain_dict)
  qed
  then have q: "plain (PDict (dict_del ''content'' (event_props e)))" by (auto simp: plain_dict AList.delete_eq)
  have r: "plain (dict_get_default (event_props e) ''content'' (PStr []))"
    using p by (auto simp: plain_dict dict_get_default_def split: option.splits dest!: dict_get_SomeD)
  obtain t where "top_entries rp e TOP_KEYS = Inr t" "plain (PDict t)"
    using assms plain_top_entries by (auto simp: event_to_dict_def)
  with assms(2) p q r show ?thesis
    unfolding event_to_dict_def Let_def
    by (auto simp: plain_dict split: if_splits option.splits)
qed

section \<open>The stream as a log\<close>

text \<open>The data of the events a stream has stored, in order: every event file, every full page, the page being
  written and the next id follow from it. \<open>decoded\<close> says that what is on disk reads back.\<close>

definition page_at :: "int \<Rightarrow> int \<Rightarrow> payload list \<Rightarrow> payload list" where
  "page_at start n ds = take (nat n) (drop (nat start) ds)"

definition stream_holds :: "codec \<Rightarrow> payload list \<Rightarrow> 'cb event_stream \<Rightarrow> bool" where
  "stream_holds cd ds st \<longleftrightarrow>
     0 < es_cache_size st \<and> cur_id st = int (length ds)
     \<and> (\<forall>i. dict_get (es_file_store st) (get_filename_for_id st i) =
          (if 0 \<le> i \<and> i < int (length ds) then Some (PDict (ds ! nat i)) else None))
     \<and> (\<forall>k. dict_get (es_file_store st)
            (get_filename_for_cache st (k * es_cache_size st) (k * es_cache_size st + es_cache_size st)) =
          (if 0 \<le> k \<and> (k + 1) * es_cache_size st \<le> int (length ds)
           then Some (PList (map PDict (page_at (k * es_cache_size st) (es_cache_size st) ds))) else None))
     \<and> st_write_page_cache st = drop (nat (int (length ds) - int (length ds) mod es_cache_size st)) ds
     \<and> (\<forall>f \<in> set (dict_keys (es_file_store st)). prefix (get_conversation_events_dir (es_sid st) (es_user_id st)) f
          \<longrightarrow> (\<exists>i. 0 \<le> i \<and> i < int (length ds) \<and> f = get_filename_for_id st i))
     \<and> (\<forall>i < length ds. dict_get (ds ! i) ''id'' = Some (PInt (int i)) \<and> plain (PDict (ds ! i))
          \<and> (\<exists>e. event_from_dict cd (ds ! i) = Inr e))"

lemma underscore_keeps_id: "key \<noteq> ''id'' \<Longrightarrow> set_underscore cd key v e = Inr e' \<Longrightarrow> e_id e' = e_id e"
  by (auto simp: set_underscore_def split: if_splits)

lemma underscores_keep_id:
  "''id'' \<notin> set keys \<Longrightarrow> set_underscores cd d keys e = Inr e' \<Longrightarrow> e_id e' = e_id e"
  by (induction keys arbitrary: e) (auto split: option.splits simp: underscore_keeps_id [OF not_sym])

lemma from_dict_id:
  assumes "event_from_dict cd d = Inr e" and "dict_get d ''id'' = Some (PInt i)"
  shows "e_id e = Some i"
proof -
  obtain e0 where "set_underscores cd d UNDERSCORE_KEYS e0 = Inr e" using assms(1) by (auto simp: event_from_dict_def)
  then obtain e1 where "set_underscore cd ''id'' (PInt i) e0 = Inr e1"
      and r: "set_underscores cd d [''timestamp'', ''source'', ''cause'', ''tool_call_metadata''] e1 = Inr e"
    using assms(2) by (auto simp: UNDERSCORE_KEYS_def simp del: res_map_Inr)
  then have "e_id e1 = Some i" by (auto simp: set_underscore_def)
  with underscores_keep_id [OF _ r] show ?thesis by simp
qed

lemma to_dict_id:
  assumes "event_to_dict rp e = Inr d" and "e_id e = Some i" and "i \<noteq> INVALID_ID"
  shows "dict_get (replace_secrets ss d) ''id'' = Some (PInt i)"
proof -
  obtain t where t: "top_entries rp e TOP_KEYS = Inr t" and g: "dict_get d ''id'' = dict_get t ''id''"
    using to_dict_split [OF assms(1)] by (metis TOP_KEYS_def list.set_intros(1))
  have "dict_get d ''id'' = Some (PInt i)"
    using g top_entries_get [OF t TOP_KEYS_distinct, of "''id''"] assms(2,3)
    by (simp add: TOP_KEYS_def top_attr_def event_id_def)
  moreover have "dict_get (replace_secrets ss d) k = map_option (\<lambda>v. if k \<in> set TOP_LEVEL_PROTECTED_FIELDS then v else hide_value ss v) (dict_get d k)" for k
    by (induction d) (auto simp: replace_secrets_def)
  ultimately show ?thesis by (simp add: TOP_LEVEL_PROTECTED_FIELDS_def)
qed

lemma add_event_Inr:
  assumes "add_event rp cd now e source st = (Inr (), e', st')"
  obtains d stored st1 where
    "event_to_dict rp (e\<lparr>e_timestamp := Some now, e_source := Some source, e_id := Some (cur_id st)\<rparr>) = Inr d"
    "event_from_dict cd (replace_secrets (dict_values (st_secrets st)) d) = Inr stored"
    "st1 = st\<lparr>es_cur_id := Some (cur_id st + 1),
       st_write_page_cache := (if int (length (st_write_page_cache st @ [replace_secrets (dict_values (st_secrets st)) d])) = es_cache_size st
         then [] else st_write_page_cache st @ [replace_secrets (dict_values (st_secrets st)) d]),
       es_file_store := fs_write (get_filename_for_id st (event_id stored))
         (json_value (PDict (replace_secrets (dict_values (st_secrets st)) d))) (es_file_store st)\<rparr>"
    "st' = (store_cache_page (st_write_page_cache st @ [replace_secrets (dict_values (st_secrets st)) d]) st1)
       \<lparr>st_queue := st_queue st @ [stored]\<rparr>"
proof -
  let ?e = "e\<lparr>e_timestamp := Some now, e_source := Some source, e_id := Some (cur_id st)\<rparr>"
  from assms obtain d stored where ds: "event_to_dict rp ?e = Inr d" "event_from_dict cd (replace_secrets (dict_values (st_secrets st)) d) = Inr stored"
    by (auto simp: add_event_def Let_def res_bind_def res_map_def split: if_splits sum.splits)
  show thesis
    by (rule that [OF ds refl])
      (use assms ds in \<open>auto simp: add_event_def Let_def res_bind_def res_map_def store_cache_page_def get_filename_for_id_def
         get_filename_for_cache_def split: if_splits\<close>)
qed

text \<open>Page arithmetic: the page being written after one more event.\<close>

lemma mod_step:
  fixes c n :: int
  assumes "0 < c" and "n mod c + 1 < c"
  shows "(n + 1) mod c = n mod c + 1" and "(k + 1) * c \<le> n + 1 \<longleftrightarrow> (k + 1) * c \<le> n"
proof -
  show m: "(n + 1) mod c = n mod c + 1"
    using assms pos_mod_sign [OF assms(1), of n] mod_add_left_eq [of n c 1] by (simp add: mod_pos_pos_trivial)
  have "(k + 1) * c \<noteq> n + 1"
  proof
    assume "(k + 1) * c = n + 1"
    then have "(n + 1) mod c = 0" by (metis mod_mult_self2_is_0)
    with m pos_mod_sign [OF assms(1), of n] show False by simp
  qed
  then show "(k + 1) * c \<le> n + 1 \<longleftrightarrow> (k + 1) * c \<le> n" by linarith
qed

lemma mod_full:
  fixes c n :: int
  assumes "0 < c" and "n mod c + 1 = c"
  shows "n + 1 = (n div c + 1) * c" and "(n + 1) mod c = 0"
    and "(k + 1) * c \<le> n + 1 \<longleftrightarrow> (k + 1) * c \<le> n \<or> k = n div c"
proof -
  have "(n div c + 1) * c = n div c * c + c" by (simp add: algebra_simps)
  with assms(2) div_mult_mod_eq [of n c] show e: "n + 1 = (n div c + 1) * c" by linarith
  then show "(n + 1) mod c = 0" by (metis mod_mult_self2_is_0)
  have "(k + 1) * c \<le> n + 1 \<longleftrightarrow> k \<le> n div c" using e assms(1) by simp
  moreover have "(k + 1) * c \<le> n \<longleftrightarrow> k < n div c"
  proof -
    have "(k + 1) * c \<le> n \<longleftrightarrow> (k + 1) * c < (n div c + 1) * c" using e by linarith
    then show ?thesis using assms(1) by auto
  qed
  ultimately show "(k + 1) * c \<le> n + 1 \<longleftrightarrow> (k + 1) * c \<le> n \<or> k = n div c" by auto
qed

lemma page_at_append:
  assumes "0 \<le> a" and "0 \<le> c" and "a + c \<le> int (length ds)"
  shows "page_at a c (ds @ [d]) = page_at a c ds"
  using assms by (auto simp: page_at_def)

lemma names_keep [simp]:
  "get_filename_for_id (st\<lparr>es_cur_id := a\<rparr>) i = get_filename_for_id st i"
  "get_filename_for_id (st\<lparr>es_file_store := b\<rparr>) i = get_filename_for_id st i"
  "get_filename_for_cache (st\<lparr>es_cur_id := a\<rparr>) = get_filename_for_cache st"
  "get_filename_for_cache (st\<lparr>es_file_store := b\<rparr>) = get_filename_for_cache st"
  by (simp_all add: get_filename_for_id_def get_filename_for_cache_def fun_eq_iff)

lemma names_keep_stream [simp]:
  fixes st :: "'cb event_stream"
  shows "get_filename_for_id (st\<lparr>st_write_page_cache := a\<rparr>) i = get_filename_for_id st i"
  "get_filename_for_id (st\<lparr>st_queue := b\<rparr>) i = get_filename_for_id st i"
  "get_filename_for_cache (st\<lparr>st_write_page_cache := a\<rparr>) = get_filename_for_cache st"
  "get_filename_for_cache (st\<lparr>st_queue := b\<rparr>) = get_filename_for_cache st"
  by (simp_all add: get_filename_for_id_def get_filename_for_cache_def fun_eq_iff)

text \<open>What one returning \<open>add_event\<close> does to the files.\<close>

lemma add_event_effect:
  assumes h: "stream_holds cd ds st" and j: "json_ok e" and a: "add_event rp cd now e source st = (Inr (), e', st')"
  obtains data stored where "event_from_dict cd data = Inr stored" and "dict_get data ''id'' = Some (PInt (int (length ds)))"
    and "es_cur_id st' = Some (int (length ds) + 1)" and "es_sid st' = es_sid st" and "es_user_id st' = es_user_id st"
    and "es_cache_size st' = es_cache_size st" and "st_queue st' = st_queue st @ [stored]"
    and "st_secrets st' = st_secrets st" and "st_subscribers st' = st_subscribers st"
    and "st_write_page_cache st' = (if int (length (st_write_page_cache st @ [data])) = es_cache_size st then []
       else st_write_page_cache st @ [data])"
    and "es_file_store st' = (let fs = dict_set (get_filename_for_id st (int (length ds))) (PDict data) (es_file_store st) in
       if int (length (st_write_page_cache st @ [data])) < es_cache_size st then fs
       else dict_set (get_filename_for_cache st (int_val (field_of (hd (st_write_page_cache st @ [data])) ''id''))
           (int_val (field_of (hd (st_write_page_cache st @ [data])) ''id'') + es_cache_size st))
         (json_value (PList (map PDict (st_write_page_cache st @ [data])))) fs)"
    and "\<exists>d. event_to_dict rp (e\<lparr>e_timestamp := Some now, e_source := Some source, e_id := Some (cur_id st)\<rparr>) = Inr d
       \<and> data = replace_secrets (dict_values (st_secrets st)) d"
    and "plain (PDict data)"
proof -
  let ?e = "e\<lparr>e_timestamp := Some now, e_source := Some source, e_id := Some (cur_id st)\<rparr>"
  obtain d stored st1 where d: "event_to_dict rp ?e = Inr d"
    and s: "event_from_dict cd (replace_secrets (dict_values (st_secrets st)) d) = Inr stored"
    and st1: "st1 = st\<lparr>es_cur_id := Some (cur_id st + 1),
       st_write_page_cache := (if int (length (st_write_page_cache st @ [replace_secrets (dict_values (st_secrets st)) d])) = es_cache_size st
         then [] else st_write_page_cache st @ [replace_secrets (dict_values (st_secrets st)) d]),
       es_file_store := fs_write (get_filename_for_id st (event_id stored))
         (json_value (PDict (replace_secrets (dict_values (st_secrets st)) d))) (es_file_store st)\<rparr>"
    and st': "st' = (store_cache_page (st_write_page_cache st @ [replace_secrets (dict_values (st_secrets st)) d]) st1)
       \<lparr>st_queue := st_queue st @ [stored]\<rparr>"
    by (rule add_event_Inr [OF a])
  let ?data = "replace_secrets (dict_values (st_secrets st)) d"
  have c: "cur_id st = int (length ds)" using h by (simp add: stream_holds_def)
  have i: "dict_get ?data ''id'' = Some (PInt (int (length ds)))"
    using to_dict_id [OF d] c by (simp add: INVALID_ID_def)
  then have si: "event_id stored = int (length ds)" using from_dict_id [OF s] by (simp add: event_id_def)
  have "json_ok ?e" using j by (simp add: json_ok_def)
  then have p: "plain (PDict ?data)" using plain_replace plain_to_dict d by blast
  show thesis
    by (rule that [OF s i]) (use c si d p st' st1 in \<open>auto simp: plain_def store_cache_page_def fs_write_def Let_def\<close>)
qed

lemma plain_list: "plain (PList vs) \<longleftrightarrow> (\<forall>v \<in> set vs. plain v)"
  by (induction vs) (auto simp: plain_def)+

text \<open>The page that a new event completes.\<close>

lemma write_page_step:
  assumes h: "stream_holds cd ds st" and i: "dict_get data ''id'' = Some (PInt (int (length ds)))"
  defines "n \<equiv> int (length ds)" and "c \<equiv> es_cache_size st" and "page \<equiv> st_write_page_cache st @ [data]"
  shows "int (length page) = n mod c + 1" and "page = drop (nat (n - n mod c)) (ds @ [data])"
    and "int_val (field_of (hd page) ''id'') = n div c * c"
proof -
  have c: "0 < c" and w: "st_write_page_cache st = drop (nat (n - n mod c)) ds"
    and ids: "\<forall>i < length ds. dict_get (ds ! i) ''id'' = Some (PInt (int i))"
    using h by (simp_all add: stream_holds_def n_def c_def)
  have b: "0 \<le> n mod c" "n mod c \<le> n" using c by (simp_all add: n_def zmod_le_nonneg_dividend)
  then have k: "nat (n - n mod c) \<le> length ds" by (simp add: n_def)
  then show p: "page = drop (nat (n - n mod c)) (ds @ [data])" by (simp add: page_def w)
  then show "int (length page) = n mod c + 1" using b k by (simp add: n_def)
  have "hd page = (ds @ [data]) ! nat (n - n mod c)" unfolding p by (rule hd_drop_conv_nth) (use k in simp)
  then have "dict_get (hd page) ''id'' = Some (PInt (n - n mod c))"
    using ids i b k by (auto simp: nth_append n_def)
  moreover have "n - n mod c = n div c * c" using div_mult_mod_eq [of n c] by linarith
  ultimately show "int_val (field_of (hd page) ''id'') = n div c * c" by (simp add: field_of_def dict_get_default_def)
qed

lemma pages_keep:
  assumes h: "stream_holds cd ds st" and i: "dict_get data ''id'' = Some (PInt (int (length ds)))" and pl: "plain (PDict data)"
    and f: "fs = dict_set (get_filename_for_id st (int (length ds))) (PDict data) (es_file_store st)"
    and f': "fs' = (if int (length (st_write_page_cache st @ [data])) < es_cache_size st then fs
       else dict_set (get_filename_for_cache st (int_val (field_of (hd (st_write_page_cache st @ [data])) ''id''))
           (int_val (field_of (hd (st_write_page_cache st @ [data])) ''id'') + es_cache_size st))
         (json_value (PList (map PDict (st_write_page_cache st @ [data])))) fs)"
  shows "dict_get fs' (get_filename_for_cache st (k * es_cache_size st) (k * es_cache_size st + es_cache_size st)) =
    (if 0 \<le> k \<and> (k + 1) * es_cache_size st \<le> int (length (ds @ [data]))
     then Some (PList (map PDict (page_at (k * es_cache_size st) (es_cache_size st) (ds @ [data])))) else None)"
proof -
  let ?n = "int (length ds)" and ?c = "es_cache_size st" and ?page = "st_write_page_cache st @ [data]"
  let ?old = "if 0 \<le> k \<and> (k + 1) * ?c \<le> ?n then Some (PList (map PDict (page_at (k * ?c) ?c (ds @ [data])))) else None"
  have c: "0 < ?c" and pd: "\<forall>i < length ds. plain (PDict (ds ! i))" using h by (simp_all add: stream_holds_def)
  have "dict_get (es_file_store st) (get_filename_for_cache st (k * ?c) (k * ?c + ?c)) =
      (if 0 \<le> k \<and> (k + 1) * ?c \<le> ?n then Some (PList (map PDict (page_at (k * ?c) ?c ds))) else None)"
    using h by (simp add: stream_holds_def)
  also have "\<dots> = ?old"
    using page_at_append [of "k * ?c" ?c ds data] c by (auto simp: algebra_simps)
  finally have old: "dict_get fs (get_filename_for_cache st (k * ?c) (k * ?c + ?c)) = ?old"
    by (simp add: f)
  note w = write_page_step [OF h i]
  have b: "?n mod ?c < ?c" using c by simp
  show ?thesis
  proof (cases "?n mod ?c + 1 < ?c")
    case True
    then show ?thesis using old w(1) mod_step(2) [OF c True, of k] by (simp add: f' add.commute)
  next
    case False
    with b have full: "?n mod ?c + 1 = ?c" by simp
    have "plain (PList (map PDict ?page))"
      using w(2) pd pl by (auto simp: plain_list in_set_conv_nth nth_append dest!: in_set_dropD)
    then have j: "json_value (PList (map PDict ?page)) = PList (map PDict ?page)" by (simp add: plain_def)
    have q: "?n - ?n mod ?c = ?n div ?c * ?c" using div_mult_mod_eq [of ?n ?c] by linarith
    have "length ?page = nat ?c" using w(1) full c by simp
    then have pg: "?page = page_at (?n div ?c * ?c) ?c (ds @ [data])"
      unfolding page_at_def q [symmetric] w(2) [symmetric] by simp
    have name: "get_filename_for_cache st (k * ?c) (k * ?c + ?c) = get_filename_for_cache st (?n div ?c * ?c) (?n div ?c * ?c + ?c)
        \<longleftrightarrow> k = ?n div ?c"
      using cache_name_inj [of st "k * ?c" _ "?n div ?c * ?c"] c by auto
    have "0 \<le> ?n div ?c" using c by (simp add: pos_imp_zdiv_nonneg_iff)
    then show ?thesis
      using old w(1,3) full name j pg mod_full(3) [OF c full, of k] by (auto simp: f' add.commute)
  qed
qed

lemma names_cong:
  assumes "es_sid st' = es_sid st" and "es_user_id st' = es_user_id st"
  shows "get_filename_for_id st' = get_filename_for_id st" and "get_filename_for_cache st' = get_filename_for_cache st"
  using assms by (simp_all add: get_filename_for_id_def get_filename_for_cache_def fun_eq_iff)

lemma cache_not_event: "\<not> prefix (get_conversation_events_dir (es_sid st) (es_user_id st)) (get_filename_for_cache st a b)"
  by (simp add: get_filename_for_cache_def get_conversation_events_dir_def)

text \<open>Adding an event appends its data to the log.\<close>

lemma add_event_holds:
  assumes h: "stream_holds cd ds st" and j: "json_ok e" and a: "add_event rp cd now e source st = (Inr (), e', st')"
  obtains data stored d where "stream_holds cd (ds @ [data]) st'"
    and "event_to_dict rp (e\<lparr>e_timestamp := Some now, e_source := Some source, e_id := Some (int (length ds))\<rparr>) = Inr d"
    and "data = replace_secrets (dict_values (st_secrets st)) d" and "event_from_dict cd data = Inr stored"
    and "st_queue st' = st_queue st @ [stored]" and "st_secrets st' = st_secrets st" and "st_subscribers st' = st_subscribers st"
    and "es_sid st' = es_sid st" and "es_user_id st' = es_user_id st" and "es_cache_size st' = es_cache_size st"
proof -
  let ?n = "int (length ds)" and ?c = "es_cache_size st"
  obtain data stored where s: "event_from_dict cd data = Inr stored" and i: "dict_get data ''id'' = Some (PInt ?n)"
    and cur: "es_cur_id st' = Some (?n + 1)" and sid: "es_sid st' = es_sid st" and uid: "es_user_id st' = es_user_id st"
    and cs: "es_cache_size st' = ?c" and q: "st_queue st' = st_queue st @ [stored]" and sec: "st_secrets st' = st_secrets st"
    and sub: "st_subscribers st' = st_subscribers st"
    and w': "st_write_page_cache st' = (if int (length (st_write_page_cache st @ [data])) = ?c then []
       else st_write_page_cache st @ [data])"
    and f': "es_file_store st' = (let fs = dict_set (get_filename_for_id st ?n) (PDict data) (es_file_store st) in
       if int (length (st_write_page_cache st @ [data])) < ?c then fs
       else dict_set (get_filename_for_cache st (int_val (field_of (hd (st_write_page_cache st @ [data])) ''id''))
           (int_val (field_of (hd (st_write_page_cache st @ [data])) ''id'') + ?c))
         (json_value (PList (map PDict (st_write_page_cache st @ [data])))) fs)"
    and dd: "\<exists>d. event_to_dict rp (e\<lparr>e_timestamp := Some now, e_source := Some source, e_id := Some (cur_id st)\<rparr>) = Inr d
       \<and> data = replace_secrets (dict_values (st_secrets st)) d"
    and pl: "plain (PDict data)"
    by (rule add_event_effect [OF h j a])
  note nm = names_cong [OF sid uid]
  have c: "0 < ?c" and cid: "cur_id st = ?n" using h by (simp_all add: stream_holds_def)
  have files: "dict_get (es_file_store st') (get_filename_for_id st' k) =
      (if 0 \<le> k \<and> k < int (length (ds @ [data])) then Some (PDict ((ds @ [data]) ! nat k)) else None)" for k
    using h by (auto simp: f' nm Let_def stream_holds_def nth_append)
  have pages: "dict_get (es_file_store st') (get_filename_for_cache st' (k * es_cache_size st') (k * es_cache_size st' + es_cache_size st')) =
      (if 0 \<le> k \<and> (k + 1) * es_cache_size st' \<le> int (length (ds @ [data]))
       then Some (PList (map PDict (page_at (k * es_cache_size st') (es_cache_size st') (ds @ [data])))) else None)" for k
    unfolding cs nm by (rule pages_keep [OF h i pl refl]) (simp add: f' Let_def)
  note ws = write_page_step [OF h i]
  have lt: "?n mod ?c < ?c" using c by simp
  have len: "int (length (ds @ [data])) = ?n + 1" by simp
  have wpage: "st_write_page_cache st' = drop (nat (int (length (ds @ [data])) - int (length (ds @ [data])) mod es_cache_size st')) (ds @ [data])"
  proof (cases "?n mod ?c + 1 = ?c")
    case True
    then show ?thesis unfolding len w' cs ws(1) mod_full(2) [OF c True] by simp
  next
    case False
    with lt have "(?n + 1) mod ?c = ?n mod ?c + 1" by (intro mod_step(1) [OF c]) simp
    then show ?thesis using False unfolding len w' cs ws(1) by (simp only: ws(2) if_False) simp
  qed
  have only: "\<forall>f \<in> set (dict_keys (es_file_store st')). prefix (get_conversation_events_dir (es_sid st') (es_user_id st')) f
      \<longrightarrow> (\<exists>k. 0 \<le> k \<and> k < int (length (ds @ [data])) \<and> f = get_filename_for_id st' k)"
  proof (intro ballI impI)
    fix f assume f: "f \<in> set (dict_keys (es_file_store st'))" and p: "prefix (get_conversation_events_dir (es_sid st') (es_user_id st')) f"
    have "f = get_filename_for_id st ?n \<or> f \<in> set (dict_keys (es_file_store st))"
      using f p cache_not_event [of st] by (auto simp: f' Let_def keys_set sid uid split: if_splits)
    then show "\<exists>k. 0 \<le> k \<and> k < int (length (ds @ [data])) \<and> f = get_filename_for_id st' k"
    proof
      assume "f = get_filename_for_id st ?n"
      then show ?thesis by (intro exI [of _ ?n]) (simp add: nm)
    next
      assume "f \<in> set (dict_keys (es_file_store st))"
      with h p obtain k where "0 \<le> k" "k < ?n" "f = get_filename_for_id st k" by (auto simp: stream_holds_def sid uid)
      then show ?thesis by (intro exI [of _ k]) (simp add: nm)
    qed
  qed
  have ids: "\<forall>k < length (ds @ [data]). dict_get ((ds @ [data]) ! k) ''id'' = Some (PInt (int k)) \<and> plain (PDict ((ds @ [data]) ! k))
      \<and> (\<exists>e. event_from_dict cd ((ds @ [data]) ! k) = Inr e)"
    using h i pl s by (auto simp: stream_holds_def nth_append less_Suc_eq)
  have holds: "stream_holds cd (ds @ [data]) st'"
    unfolding stream_holds_def
    by (intro conjI allI files pages wpage only ids) (use c cs cur in \<open>simp_all add: cur_id_def\<close>)
  from dd cid obtain d where d: "event_to_dict rp (e\<lparr>e_timestamp := Some now, e_source := Some source, e_id := Some ?n\<rparr>) = Inr d"
    "data = replace_secrets (dict_values (st_secrets st)) d" by auto
  show thesis by (rule that [OF holds d s q sec sub sid uid cs])
qed

section \<open>Searching with and without pages\<close>

text \<open>The reference: every event is read from its own file.\<close>

fun direct_loop ::
  "codec \<Rightarrow> (int \<Rightarrow> bool) \<Rightarrow> (event \<Rightarrow> bool res) \<Rightarrow> int option \<Rightarrow> 'a event_store_scheme \<Rightarrow> int \<Rightarrow> int list \<Rightarrow> event list res" where
  "direct_loop cd continue incl limit st num_results [] = Inr []"
| "direct_loop cd continue incl limit st num_results (i # is) =
     (if \<not> continue i then Inr []
      else res_bind (read_event cd st i) (\<lambda>found.
        yield_event incl limit num_results found (\<lambda>n. direct_loop cd continue incl limit st n is)))"

definition page_ok :: "'a event_store_scheme \<Rightarrow> cache_page \<Rightarrow> bool" where
  "page_ok st p \<longleftrightarrow> p = DUMMY_PAGE \<or> (\<exists>j. p = load_cache_page_for_index st j)"

lemma page_covers: "0 < es_cache_size st \<Longrightarrow> covers (load_cache_page_for_index st i) i"
  by (simp add: covers_def load_cache_page_for_index_def load_cache_page_def Let_def)
    (smt (verit) pos_mod_bound pos_mod_sign)

lemma page_read:
  assumes h: "stream_holds cd ds st" and p: "page_ok st p" and cv: "covers p i"
  shows "res_bind (page_get_event cd p i) (\<lambda>cached. case cached of None \<Rightarrow> read_event cd st i | Some e \<Rightarrow> Inr (Some e))
    = read_event cd st i"
proof -
  let ?c = "es_cache_size st"
  have c: "0 < ?c" using h by (simp add: stream_holds_def)
  have "p \<noteq> DUMMY_PAGE" using cv by (auto simp: covers_def DUMMY_PAGE_def split: if_splits)
  with p obtain j where j: "p = load_cache_page_for_index st j" by (auto simp: page_ok_def)
  define k where "k = j div ?c"
  have js: "j - j mod ?c = k * ?c" unfolding k_def using div_mult_mod_eq [of j ?c] by linarith
  have P: "p = load_cache_page st (k * ?c) (k * ?c + ?c)" by (simp add: j load_cache_page_for_index_def Let_def js)
  have i: "k * ?c \<le> i" "i < k * ?c + ?c" using cv by (auto simp: P load_cache_page_def covers_def split: if_splits)
  have pg: "dict_get (es_file_store st) (get_filename_for_cache st (k * ?c) (k * ?c + ?c)) =
      (if 0 \<le> k \<and> (k + 1) * ?c \<le> int (length ds) then Some (PList (map PDict (page_at (k * ?c) ?c ds))) else None)"
    using h by (simp add: stream_holds_def)
  show ?thesis
  proof (cases "0 \<le> k \<and> (k + 1) * ?c \<le> int (length ds)")
    case False
    with pg have "dict_get (es_file_store st) (get_filename_for_cache st (k * ?c) (k * ?c + ?c)) = None" by argo
    then show ?thesis by (simp add: P load_cache_page_def page_get_event_def fs_read_def)
  next
    case True
    then have b: "0 \<le> k * ?c" "k * ?c + ?c \<le> int (length ds)" using c by (simp_all add: algebra_simps)
    with i have ix: "0 \<le> i" "i < int (length ds)" by linarith+
    have l: "length (page_at (k * ?c) ?c ds) = nat ?c" using b by (auto simp: page_at_def)
    have "page_at (k * ?c) ?c ds ! nat (i - k * ?c) = ds ! nat i"
      using b i by (simp add: page_at_def nat_diff_distrib)
    moreover have "nat (i - k * ?c) < nat ?c" using i c by simp
    ultimately have v: "map PDict (page_at (k * ?c) ?c ds) ! nat (i - k * ?c) = PDict (ds ! nat i)" using l by simp
    have "\<forall>i < length ds. \<exists>e. event_from_dict cd (ds ! i) = Inr e" using h by (simp add: stream_holds_def)
    moreover have "nat i < length ds" using ix by linarith
    ultimately obtain e where e: "event_from_dict cd (ds ! nat i) = Inr e" by blast
    have "page_get_event cd p i = Inr (Some e)"
      using True v e i l c
      by (auto simp: P load_cache_page_def page_get_event_def fs_read_def pg Let_def)
    moreover have "read_event cd st i = Inr (Some e)"
      using h ix e by (simp add: read_event_def get_event_def fs_read_def stream_holds_def)
    ultimately show ?thesis by simp
  qed
qed

lemma loop_direct:
  assumes h: "stream_holds cd ds st"
  shows "page_ok st p \<Longrightarrow> search_loop cd continue incl limit st p n is = direct_loop cd continue incl limit st n is"
proof (induction "is" arbitrary: p n)
  case (Cons i "is")
  have c: "0 < es_cache_size st" using h by (simp add: stream_holds_def)
  let ?p = "if covers p i then p else load_cache_page_for_index st i"
  have ok: "page_ok st ?p" using Cons.prems by (auto simp: page_ok_def)
  have cv: "covers ?p i" using page_covers [OF c] by simp
  have "res_bind (page_get_event cd ?p i) (\<lambda>cached.
      res_bind (case cached of None \<Rightarrow> read_event cd st i | Some e \<Rightarrow> Inr (Some e)) g)
    = res_bind (read_event cd st i) g" for g :: "event option \<Rightarrow> event list res"
    by (simp only: res_bind_assoc [symmetric] page_read [OF h ok cv])
  then show ?case using Cons.IH [OF ok] by (simp add: Let_def)
qed simp

section \<open>Runs\<close>

text \<open>A new conversation: nothing of it is on disk.\<close>

definition fresh :: "'cb event_stream \<Rightarrow> bool" where
  "fresh st \<longleftrightarrow> 0 < es_cache_size st \<and> es_cur_id st = None \<and> st_write_page_cache st = [] \<and> st_queue st = []
     \<and> list_all (\<lambda>f. \<not> prefix (get_conversation_dir (es_sid st) (es_user_id st)) f) (dict_keys (es_file_store st))"

fun add_all :: "(pyval \<Rightarrow> string) \<Rightarrow> codec \<Rightarrow> (string \<times> event \<times> event_source) list \<Rightarrow> 'cb event_stream \<Rightarrow> 'cb event_stream res" where
  "add_all rp cd [] st = Inr st"
| "add_all rp cd ((now, e, source) # calls) st =
     (case add_event rp cd now e source st of (Inl x, _, _) \<Rightarrow> Inl x | (Inr _, _, st') \<Rightarrow> add_all rp cd calls st')"

lemma conversation_files:
  "prefix (get_conversation_dir (es_sid st) (es_user_id st)) (get_filename_for_id st i)"
  "prefix (get_conversation_dir (es_sid st) (es_user_id st)) (get_filename_for_cache st a b)"
  "prefix (get_conversation_dir (es_sid st) (es_user_id st)) (get_conversation_events_dir (es_sid st) (es_user_id st))"
  by (simp_all add: get_filename_for_id_def get_conversation_event_filename_def get_conversation_events_dir_def
      get_filename_for_cache_def)

lemma fs_list_none: "list_all (\<lambda>f. \<not> prefix path f) (dict_keys fs) \<Longrightarrow> fs_list path fs = []"
proof -
  have "list_all (\<lambda>f. \<not> prefix path f) fs' \<Longrightarrow> fold (fs_list_step path) fs' xs = xs" for fs' xs
    by (induction fs') (simp_all add: fs_list_step_def)
  then show "list_all (\<lambda>f. \<not> prefix path f) (dict_keys fs) \<Longrightarrow> fs_list path fs = []" by (simp add: fs_list_def)
qed

lemma fresh_holds:
  assumes f: "fresh st"
  shows "stream_holds cd [] st"
proof -
  let ?dir = "get_conversation_dir (es_sid st) (es_user_id st)"
  have n: "dict_get (es_file_store st) p = None" if "prefix ?dir p" for p
    using f that by (auto simp: fresh_def list_all_iff dict_get_None_iff)
  have e: "list_all (\<lambda>f. \<not> prefix (get_conversation_events_dir (es_sid st) (es_user_id st)) f) (dict_keys (es_file_store st))"
    using f conversation_files(3) [of st] unfolding fresh_def list_all_iff by (metis prefix_order.trans)
  have "cur_id st = 0"
    using f fs_list_none [OF e] by (simp add: cur_id_def calculate_cur_id_def fresh_def)
  moreover have "\<forall>f \<in> set (dict_keys (es_file_store st)). \<not> prefix (get_conversation_events_dir (es_sid st) (es_user_id st)) f"
    using e unfolding list_all_iff .
  moreover have "\<not> (0 \<le> k \<and> (k + 1) * es_cache_size st \<le> 0)" for k
    using f by (auto simp: fresh_def mult_le_0_iff)
  moreover have "0 < es_cache_size st" "st_write_page_cache st = []" using f by (simp_all add: fresh_def)
  ultimately show ?thesis
    unfolding stream_holds_def using n [OF conversation_files(1)] n [OF conversation_files(2)] by auto
qed

text \<open>After any run of returning calls the stream is the log of their data, and the queue has the events they decode to.\<close>

lemma add_all_holds:
  assumes "stream_holds cd ds st" and "\<forall>(now, e, source) \<in> set calls. json_ok e" and "add_all rp cd calls st = Inr st'"
  shows "\<exists>ds' stored. stream_holds cd (ds @ ds') st' \<and> length ds' = length calls
    \<and> map (event_from_dict cd) ds' = map Inr stored \<and> st_queue st' = st_queue st @ stored
    \<and> es_sid st' = es_sid st \<and> es_user_id st' = es_user_id st \<and> es_cache_size st' = es_cache_size st"
  using assms
proof (induction calls arbitrary: ds st)
  case Nil
  then show ?case by (intro exI [of _ "[]"]) simp
next
  case (Cons call calls)
  obtain now e source where call: "call = (now, e, source)" by (cases call)
  with Cons.prems obtain e1 st1 where a: "add_event rp cd now e source st = (Inr (), e1, st1)" and r: "add_all rp cd calls st1 = Inr st'"
    by (auto split: prod.splits sum.splits)
  have j: "json_ok e" using Cons.prems call by auto
  obtain data s where d: "stream_holds cd (ds @ [data]) st1" "event_from_dict cd data = Inr s" "st_queue st1 = st_queue st @ [s]"
      "es_sid st1 = es_sid st" "es_user_id st1 = es_user_id st" "es_cache_size st1 = es_cache_size st"
    using add_event_holds [OF Cons.prems(1) j a] by metis
  have "\<forall>(now, e, source) \<in> set calls. json_ok e" using Cons.prems(2) by auto
  then obtain ds' stored where "stream_holds cd ((ds @ [data]) @ ds') st' \<and> length ds' = length calls
    \<and> map (event_from_dict cd) ds' = map Inr stored \<and> st_queue st' = st_queue st1 @ stored
    \<and> es_sid st' = es_sid st1 \<and> es_user_id st' = es_user_id st1 \<and> es_cache_size st' = es_cache_size st1"
    using Cons.IH [OF d(1) _ r] by blast
  with d show ?case by (intro exI [of _ "data # ds'"] exI [of _ "s # stored"]) simp
qed

section \<open>Reopening a conversation\<close>

lemma last_split_char: "c \<notin> set t \<Longrightarrow> last (split_char c (s @ c # t)) = t"
proof (induction s)
  case Nil
  then show ?case by (simp add: split_char_no)
next
  case (Cons x s)
  then show ?case
    by (cases "split_char c (s @ c # t)")
      (auto split: list.splits simp: last_ConsR, metis append_is_Nil_conv list.distinct(1) join.simps(2) join_split last_ConsL set_append Un_iff list.set_intros(1))
qed

lemma int_of_nat_str: "int_of_str (nat_str n) = Some (int n)"
proof -
  have d: "list_all is_digit (nat_str n)" by (auto simp: list_all_iff dest: nat_str_digits)
  obtain c cs where c: "nat_str n = c # cs" using nat_str_ne [of n] by (cases "nat_str n") auto
  have ns: "\<not> is_space x" if "is_digit x" for x using that by (auto simp: is_digit_def is_space_def Let_def)
  have "last (nat_str n) \<in> set (nat_str n)" "c \<in> set (nat_str n)" using c by simp_all
  then have "is_digit (last (nat_str n))" "is_digit c" by (blast dest: nat_str_digits)+
  then have "strip (nat_str n) = nat_str n" "c \<noteq> CHR ''-''" "c \<noteq> CHR ''+''"
    using c ns by (auto simp: strip_def lstrip_id rstrip_id is_digit_def code_def)
  with d c digits_val_nat_str [of n] show ?thesis by (simp add: int_of_str_def Let_def)
qed

lemma event_file_tail: "0 \<le> i \<Longrightarrow> CHR ''/'' \<notin> set (int_str i @ ''.json'')" "0 \<le> i \<Longrightarrow> CHR ''.'' \<notin> set (int_str i)"
  using nat_str_no [of "CHR ''/''" "nat i"] nat_str_no [of "CHR ''.''" "nat i"]
  by (auto simp: int_str_def is_digit_def code_def)

lemma id_of_event_file: "0 \<le> i \<Longrightarrow> get_id_from_filename (get_filename_for_id st i) = i"
proof -
  assume i: "0 \<le> i"
  obtain p where p: "get_filename_for_id st i = p @ CHR ''/'' # int_str i @ ''.json''"
    by (simp add: get_filename_for_id_def get_conversation_event_filename_def get_conversation_events_dir_def)
  have "hd (split_char (CHR ''.'') (int_str i @ ''.json'')) = int_str i"
    using split_char_append [OF event_file_tail(2) [OF i], of "''json''"] by simp
  then have "get_id_from_filename (get_filename_for_id st i) = (case int_of_str (int_str i) of None \<Rightarrow> - 1 | Some j \<Rightarrow> j)"
    unfolding get_id_from_filename_def p last_split_char [OF event_file_tail(1) [OF i]] by simp
  with i show ?thesis using int_of_nat_str [of "nat i"] by (simp add: int_str_def)
qed

lemma event_file_listed:
  assumes "0 \<le> i"
  shows "fs_list_step (get_conversation_events_dir (es_sid st) (es_user_id st)) (get_filename_for_id st i) files
    = files @ [get_filename_for_id st i]"
proof -
  have d: "get_filename_for_id st i = get_conversation_events_dir (es_sid st) (es_user_id st) @ int_str i @ ''.json''"
    by (simp add: get_filename_for_id_def get_conversation_event_filename_def)
  have "split_char (CHR ''/'') (int_str i @ ''.json'') = [int_str i @ ''.json'']"
    by (rule split_char_no [OF event_file_tail(1) [OF assms]])
  then show ?thesis by (simp add: fs_list_step_def d Let_def)
qed

lemma fs_list_events:
  assumes "\<forall>f \<in> set fs. prefix (get_conversation_events_dir (es_sid st) (es_user_id st)) f \<longrightarrow> (\<exists>i. 0 \<le> i \<and> f = get_filename_for_id st i)"
  shows "fold (fs_list_step (get_conversation_events_dir (es_sid st) (es_user_id st))) fs files
    = files @ filter (prefix (get_conversation_events_dir (es_sid st) (es_user_id st))) fs"
  using assms
proof (induction fs arbitrary: files)
  case (Cons f fs)
  show ?case
  proof (cases "prefix (get_conversation_events_dir (es_sid st) (es_user_id st)) f")
    case True
    with Cons.prems obtain i where "0 \<le> i" "f = get_filename_for_id st i" by auto
    with Cons True show ?thesis by (simp add: event_file_listed)
  next
    case False
    with Cons show ?thesis by (simp add: fs_list_step_def)
  qed
qed simp

lemma fold_max:
  fixes g :: "'x \<Rightarrow> int"
  shows "fold (\<lambda>f m. let i = g f in if m \<le> i then i else m) xs m = Max (insert m (g ` set xs))"
proof (induction xs arbitrary: m)
  case (Cons x xs)
  have "Max (insert (max m (g x)) A) = Max (insert m (insert (g x) A))" if "finite A" for A
    using that by (cases "A = {}") (simp_all add: max.assoc)
  moreover have "(if m \<le> g x then g x else m) = max m (g x)" by simp
  ultimately show ?case using Cons.IH [of "max m (g x)"] by (simp add: Let_def)
qed simp

text \<open>The event files of a stream carry the ids below the next one.\<close>

lemma event_file_ids:
  assumes h: "stream_holds cd ds st"
  defines "dir \<equiv> get_conversation_events_dir (es_sid st) (es_user_id st)" and "keys \<equiv> dict_keys (es_file_store st)"
  shows "fs_list dir (es_file_store st) = filter (prefix dir) keys"
    and "get_id_from_filename ` set (filter (prefix dir) keys) = {0..<int (length ds)}"
proof -
  have only: "\<forall>f \<in> set keys. prefix dir f \<longrightarrow> (\<exists>i. 0 \<le> i \<and> i < int (length ds) \<and> f = get_filename_for_id st i)"
    using h unfolding stream_holds_def dir_def keys_def by blast
  then show "fs_list dir (es_file_store st) = filter (prefix dir) keys"
    using fs_list_events [of keys st "[]"] unfolding fs_list_def dir_def keys_def by auto
  have mem: "get_filename_for_id st i \<in> set (filter (prefix dir) keys)" if "0 \<le> i" "i < int (length ds)" for i
  proof -
    have "dict_get (es_file_store st) (get_filename_for_id st i) \<noteq> None" using h that by (simp add: stream_holds_def)
    then have "get_filename_for_id st i \<in> set keys" unfolding keys_def by (simp only: dict_get_None_iff) simp
    then show ?thesis by (simp add: dir_def get_filename_for_id_def get_conversation_event_filename_def)
  qed
  show "get_id_from_filename ` set (filter (prefix dir) keys) = {0..<int (length ds)}"
  proof
    show "get_id_from_filename ` set (filter (prefix dir) keys) \<subseteq> {0..<int (length ds)}"
    proof
      fix n assume "n \<in> get_id_from_filename ` set (filter (prefix dir) keys)"
      then obtain f where "n = get_id_from_filename f" "f \<in> set keys" "prefix dir f" by auto
      with only obtain i where "0 \<le> i" "i < int (length ds)" "f = get_filename_for_id st i" by blast
      with \<open>n = get_id_from_filename f\<close> show "n \<in> {0..<int (length ds)}" by (simp add: id_of_event_file)
    qed
    show "{0..<int (length ds)} \<subseteq> get_id_from_filename ` set (filter (prefix dir) keys)"
      using mem id_of_event_file by (metis atLeastLessThan_iff imageI subsetI)
  qed
qed

text \<open>A store opened on the files of a stream finds the next id.\<close>

lemma reopened_id:
  assumes h: "stream_holds cd ds st" and same: "es_sid s = es_sid st" "es_user_id s = es_user_id st" "es_file_store s = es_file_store st"
  shows "calculate_cur_id s = int (length ds)"
proof -
  let ?fs = "filter (prefix (get_conversation_events_dir (es_sid st) (es_user_id st))) (dict_keys (es_file_store st))"
  note l = event_file_ids(1) [OF h] and ids = event_file_ids(2) [OF h]
  show ?thesis
  proof (cases "ds = []")
    case True
    with ids have "get_id_from_filename ` set ?fs = {}" by simp
    then have "?fs = []" by (simp only: image_is_empty set_empty)
    with True l show ?thesis by (simp add: calculate_cur_id_def same)
  next
    case False
    then have "get_id_from_filename ` set ?fs \<noteq> {}" using ids by simp
    then have "?fs \<noteq> []" by (simp only: image_is_empty set_empty) simp
    moreover have "Max (insert (- 1) {0..<int (length ds)}) = int (length ds) - 1"
      using False by (intro Max_eqI) auto
    ultimately show ?thesis using l ids fold_max [of get_id_from_filename ?fs "- 1"]
      by (simp add: calculate_cur_id_def same)
  qed
qed

section \<open>Hiding secrets\<close>

text \<open>A secret that shares no boundary with the mask: no angle bracket in it, and not inside the mask.\<close>

definition maskable :: "string \<Rightarrow> bool" where
  "maskable s \<longleftrightarrow> s \<noteq> [] \<and> CHR ''<'' \<notin> set s \<and> CHR ''>'' \<notin> set s \<and> \<not> contains s ''secret_hidden''"

lemma contains_mask: "maskable s \<Longrightarrow> contains s (x @ secret_mask @ y) \<Longrightarrow> contains s x \<or> contains s y"
proof -
  assume m: "maskable s" and c: "contains s (x @ secret_mask @ y)"
  have e: "x @ secret_mask @ y = x @ CHR ''<'' # (''secret_hidden'' @ CHR ''>'' # y)" by (simp add: secret_mask_def)
  from m c contains_sep [of "CHR ''<''" s x "''secret_hidden'' @ CHR ''>'' # y"] contains_sep [of "CHR ''>''" s "''secret_hidden''" y]
  show ?thesis unfolding e maskable_def by blast
qed

lemma contains_join_mask: "maskable s \<Longrightarrow> contains s (join secret_mask ps) \<Longrightarrow> \<exists>p \<in> set ps. contains s p"
proof (induction secret_mask ps rule: join.induct)
  case 1
  then show ?case by (simp add: maskable_def)
next
  case (3 x y zs)
  then show ?case using contains_mask [of s x "join secret_mask (y # zs)"] by auto
qed auto

lemma maskable_single: "maskable s \<Longrightarrow> contains s (secret_mask @ concat (map (\<lambda>c. c # secret_mask) t)) \<Longrightarrow> contains s t"
proof -
  assume m: "maskable s" and c: "contains s (secret_mask @ concat (map (\<lambda>c. c # secret_mask) t))"
  have "secret_mask @ concat (map (\<lambda>c. c # secret_mask) t) = join secret_mask ([] # map (\<lambda>c. [c]) t @ [[]])"
    by (induction t) (simp_all add: join_Cons_hd)
  with contains_join_mask [OF m] c obtain p where "p \<in> set ([] # map (\<lambda>c. [c]) t @ [[]])" "contains s p" by metis
  with m obtain x where "x \<in> set t" "contains s [x]" by (auto simp: maskable_def)
  then have "contains [x] t" by (auto simp: contains_iff in_set_conv_decomp)
  with \<open>contains s [x]\<close> m show ?thesis by (auto simp: maskable_def prefix_Cons)
qed

text \<open>Hiding one secret exposes no other, and hides every occurrence of itself.\<close>

lemma replace_no_new: "maskable s \<Longrightarrow> contains s (replace old secret_mask t) \<Longrightarrow> contains s t"
  using contains_join_mask [of s "split_by old t"] split_by_sub [of _ old t s] maskable_single [of s t]
  by (auto simp: replace_def replace_from_join split: if_splits)

lemma replace_hides: "maskable s \<Longrightarrow> \<not> contains s (replace s secret_mask t)"
  using contains_join_mask [of s "split_by s t"] split_by_free [of s _ t]
  by (auto simp: replace_def replace_from_join maskable_def)

lemma hide_secrets_hides: "maskable s \<Longrightarrow> s \<in> set secrets \<or> \<not> contains s t \<Longrightarrow> \<not> contains s (hide_secrets secrets t)"
proof (induction secrets arbitrary: t)
  case (Cons x xs)
  have "s \<in> set xs \<or> \<not> contains s (replace x secret_mask t)"
    using Cons.prems replace_no_new [of s x t] replace_hides [of s t] by auto
  with Cons.IH [of "replace x secret_mask t"] Cons.prems(1) show ?case by (simp add: hide_secrets_def)
qed (simp add: hide_secrets_def)

text \<open>The texts reached through dictionaries only.\<close>

fun dict_texts :: "pyval \<Rightarrow> string list" where
  "dict_texts (PDict kvs) = concat (map (\<lambda>(k, v). dict_texts v) kvs)"
| "dict_texts (PStr s) = [s]"
| "dict_texts v = []"

lemma hide_value_hides: "maskable s \<Longrightarrow> s \<in> set secrets \<Longrightarrow> t \<in> set (dict_texts (hide_value secrets v)) \<Longrightarrow> \<not> contains s t"
  by (induction secrets v rule: hide_value.induct) (auto simp: hide_secrets_hides)

section \<open>Delivery\<close>

definition subscribers_ok :: "'cb event_stream \<Rightarrow> bool" where
  "subscribers_ok st \<longleftrightarrow> dict_ok (st_subscribers st) \<and> list_all (\<lambda>(s, cbs). dict_ok cbs) (st_subscribers st)"

lemma mset_sorted_keys: "mset (sorted_keys ks) = mset ks"
proof -
  have i: "mset (insert_key k ks) = add_mset k (mset ks)" for k ks
    by (simp add: insert_key_def) (metis mset_append takeWhile_dropWhile_id)
  have "mset (fold insert_key ks acc) = mset ks + mset acc" for acc
    by (induction ks arbitrary: acc) (simp_all add: i)
  then show ?thesis by (simp add: sorted_keys_def)
qed

lemma filter_map_dict:
  "dict_ok cbs \<Longrightarrow> dict_get cbs c = Some cb \<Longrightarrow> filter (\<lambda>x. fst x = c) cbs = [(c, cb)]"
proof (induction cbs)
  case (Cons a cbs)
  have "filter (\<lambda>x. fst x = c) cbs = []" if "c \<notin> fst ` set cbs" using that by (force simp: filter_empty_conv)
  with Cons show ?case by (cases a) (auto split: if_splits)
qed simp

lemma filter_concat_one:
  assumes "distinct ks" and "s \<in> set ks" and "\<And>k. k \<in> set ks \<Longrightarrow> k \<noteq> s \<Longrightarrow> filter P (f k) = []"
  shows "filter P (concat (map f ks)) = filter P (f s)"
  using assms
proof (induction ks)
  case (Cons k ks)
  have "filter P (concat (map f ks)) = []" if s: "s \<notin> set ks"
  proof -
    have "filter P (f k') = []" if "k' \<in> set ks" for k' using Cons.prems(3) [of k'] that s by auto
    then show ?thesis by (auto simp: filter_concat filter_empty_conv)
  qed
  with Cons show ?case by (cases "k = s") auto
qed simp

definition calls_to :: "string \<Rightarrow> string \<Rightarrow> (string \<times> string \<times> 'cb \<times> event) list \<Rightarrow> (string \<times> string \<times> 'cb \<times> event) list" where
  "calls_to s c calls = filter (\<lambda>x. fst x = s \<and> fst (snd x) = c) calls"

lemma process_event_to:
  assumes ok: "subscribers_ok st" and s: "dict_get (st_subscribers st) s = Some cbs" and c: "dict_get cbs c = Some cb"
  shows "calls_to s c (process_event st e) = [(s, c, cb, e)]"
proof -
  let ?f = "\<lambda>s. map (\<lambda>(c, cb). (s, c, cb, e)) (dict_get_default (st_subscribers st) s [])"
  have m: "mset (sorted_keys (dict_keys (st_subscribers st))) = mset (dict_keys (st_subscribers st))" by (rule mset_sorted_keys)
  have d: "distinct (sorted_keys (dict_keys (st_subscribers st)))"
    using ok mset_eq_imp_distinct_iff [OF m] by (simp add: subscribers_ok_def)
  have "s \<in> set (dict_keys (st_subscribers st))" using dict_get_SomeD [OF s] by force
  then have i: "s \<in> set (sorted_keys (dict_keys (st_subscribers st)))" using mset_eq_setD [OF m] by blast
  have k: "dict_ok cbs" using ok dict_get_SomeD [OF s] by (auto simp: subscribers_ok_def list_all_iff)
  have "calls_to s c (process_event st e) = calls_to s c (?f s)"
    unfolding process_event_def calls_to_def by (rule filter_concat_one [OF d i]) (auto simp: filter_empty_conv)
  also have "\<dots> = map (\<lambda>(c, cb). (s, c, cb, e)) (filter (\<lambda>x. fst x = c) cbs)"
    by (simp add: calls_to_def s dict_get_default_def filter_map comp_def split_beta)
  finally show ?thesis using filter_map_dict [OF k c] by simp
qed

lemma queue_to:
  assumes "subscribers_ok st" and "dict_get (st_subscribers st) s = Some cbs" and "dict_get cbs c = Some cb"
  shows "calls_to s c (concat (map (process_event st) es)) = map (\<lambda>e. (s, c, cb, e)) es"
  using process_event_to [OF assms] by (induction es) (simp_all add: calls_to_def)

section \<open>Properties\<close>


definition demo_stream :: "unit event_stream" where
  "demo_stream = (new_stream ''s'' [] None)\<lparr>es_cache_size := 2\<rparr>"

definition demo_calls :: "(string \<times> event \<times> event_source) list" where
  "demo_calls = map (\<lambda>t. (''2025'', make_act MessageAction [(''content'', PStr t)], USER_SOURCE)) [''a'', ''b'', ''c'']"

lemma demo_run:
  obtains st' where "add_all (\<lambda>_. []) strict_codec demo_calls demo_stream = Inr st'"
    and "fresh demo_stream" and "\<forall>(now, e, source) \<in> set demo_calls. json_ok e"
proof -
  have r: "\<not> isl (add_all (\<lambda>_. []) strict_codec demo_calls demo_stream)" by code_simp
  have f: "fresh demo_stream" by code_simp
  have j: "\<forall>(now, e, source) \<in> set demo_calls. json_ok e" by code_simp
  from r obtain st' where s: "add_all (\<lambda>_. []) strict_codec demo_calls demo_stream = Inr st'" by (metis sum.collapse(2))
  show thesis by (rule that [OF s f j])
qed


text \<open>C21. A conversation survives a restart: a store opened on its files finds the next id, the events it reads under the ids
  0, 1, 2, \<open>\<dots>\<close> are the events the subscribers were given, in order, and each carries its id.\<close>

theorem conversation_persists:
  assumes "fresh st" and "\<forall>(now, e, source) \<in> set calls. json_ok e" and "add_all rp cd calls st = Inr st'"
    and "es_sid s = es_sid st" and "es_user_id s = es_user_id st" and "es_file_store s = es_file_store st'" and "es_cur_id s = None"
  shows "cur_id s = int (length calls) \<and> length (st_queue st') = length calls
    \<and> (\<forall>i < length calls. get_event cd s (int i) = Inr (st_queue st' ! i) \<and> event_id (st_queue st' ! i) = int i)"
proof -
  obtain ds stored where h: "stream_holds cd ds st'" and l: "length ds = length calls"
    and m: "map (event_from_dict cd) ds = map Inr stored" and q: "st_queue st' = stored"
    and same: "es_sid st' = es_sid st" "es_user_id st' = es_user_id st"
    using add_all_holds [OF fresh_holds [OF assms(1)] assms(2,3)] assms(1) by (auto simp: fresh_def)
  have c: "calculate_cur_id s = int (length ds)" by (rule reopened_id [OF h]) (simp_all add: assms same)
  have n: "get_filename_for_id s = get_filename_for_id st'" by (rule names_cong) (simp_all add: assms same)
  have "length stored = length ds" using m by (metis length_map)
  moreover have "get_event cd s (int i) = Inr (stored ! i) \<and> event_id (stored ! i) = int i" if "i < length ds" for i
  proof -
    have r: "event_from_dict cd (ds ! i) = Inr (stored ! i)" using m that calculation by (metis nth_map)
    have "dict_get (ds ! i) ''id'' = Some (PInt (int i))" using h that by (simp add: stream_holds_def)
    with from_dict_id [OF r] have "event_id (stored ! i) = int i" by (simp add: event_id_def)
    moreover have "dict_get (es_file_store s) (get_filename_for_id st' (int i)) = Some (PDict (ds ! i))"
      using h that assms(6) by (simp add: stream_holds_def)
    ultimately show ?thesis using r by (simp add: get_event_def n fs_read_def)
  qed
  ultimately show ?thesis using c l q assms(7) by (simp add: cur_id_def)
qed

theorem conversation_persists_witness:
  "\<exists>st'. add_all (\<lambda>_. []) strict_codec demo_calls demo_stream = Inr st'
     \<and> cur_id (st'\<lparr>es_cur_id := None\<rparr>) = 3 \<and> get_event strict_codec st' 2 = Inr (st_queue st' ! 2)"
proof -
  obtain st' where st': "add_all (\<lambda>_. []) strict_codec demo_calls demo_stream = Inr st'"
    and f: "fresh demo_stream" and j: "\<forall>(now, e, source) \<in> set demo_calls. json_ok e" by (rule demo_run)
  let ?s = "\<lparr>es_sid = es_sid demo_stream, es_file_store = es_file_store st', es_user_id = es_user_id demo_stream, es_cache_size = 25, es_cur_id = None\<rparr>"
  have l: "length demo_calls = 3" by code_simp
  have "cur_id ?s = 3" "get_event strict_codec ?s 2 = Inr (st_queue st' ! 2)"
    using conversation_persists [OF f j st', of ?s] l by (simp_all, metis of_nat_numeral lessI numeral_3_eq_3 numeral_2_eq_2)
  moreover have "es_sid st' = es_sid demo_stream" "es_user_id st' = es_user_id demo_stream"
    using add_all_holds [OF fresh_holds [OF f] j st'] by auto
  ultimately show ?thesis
    using st' by (auto simp: cur_id_def calculate_cur_id_def get_event_def get_filename_for_id_def)
qed


definition demo_subscribed :: "nat event_stream" where
  "demo_subscribed = (snd (subscribe ''runtime'' 7 ''r1'' (snd (subscribe ''main'' 8 ''m'' (new_stream ''s'' [] None)))))
     \<lparr>st_queue := [make_act NullAction [], make_act AgentThinkAction []]\<rparr>"


text \<open>What is on disk after an event was added: the data with the secrets replaced.\<close>

lemma dict_texts_json: "dict_texts (json_value v) = dict_texts v"
  by (induction v rule: json_value.induct) (auto intro!: arg_cong [of _ _ concat])

lemma written_data:
  assumes a: "add_event rp cd now e source st = (Inr (), e', st')" and c: "0 \<le> cur_id st"
  obtains d where "event_to_dict rp (e\<lparr>e_timestamp := Some now, e_source := Some source, e_id := Some (cur_id st)\<rparr>) = Inr d"
    and "fs_read (get_filename_for_id st (cur_id st)) (es_file_store st')
      = Inr (json_value (PDict (replace_secrets (dict_values (st_secrets st)) d)))"
proof -
  obtain d stored st1 where d: "event_to_dict rp (e\<lparr>e_timestamp := Some now, e_source := Some source, e_id := Some (cur_id st)\<rparr>) = Inr d"
    and s: "event_from_dict cd (replace_secrets (dict_values (st_secrets st)) d) = Inr stored"
    and st1: "st1 = st\<lparr>es_cur_id := Some (cur_id st + 1),
       st_write_page_cache := (if int (length (st_write_page_cache st @ [replace_secrets (dict_values (st_secrets st)) d])) = es_cache_size st
         then [] else st_write_page_cache st @ [replace_secrets (dict_values (st_secrets st)) d]),
       es_file_store := fs_write (get_filename_for_id st (event_id stored))
         (json_value (PDict (replace_secrets (dict_values (st_secrets st)) d))) (es_file_store st)\<rparr>"
    and st': "st' = (store_cache_page (st_write_page_cache st @ [replace_secrets (dict_values (st_secrets st)) d]) st1)
       \<lparr>st_queue := st_queue st @ [stored]\<rparr>"
    by (rule add_event_Inr [OF a])
  have "event_id stored = cur_id st"
    using from_dict_id [OF s] to_dict_id [OF d] c by (simp add: event_id_def INVALID_ID_def)
  then have "fs_read (get_filename_for_id st (cur_id st)) (es_file_store st')
      = Inr (json_value (PDict (replace_secrets (dict_values (st_secrets st)) d)))"
    by (simp add: st' st1 store_cache_page_def fs_write_def fs_read_def Let_def)
  with d show thesis by (rule that)
qed


definition demo_command :: event where
  "demo_command = make_act CmdRunAction [(''command'', PStr ''login hunter2'')]"

definition demo_secret_stream :: "unit event_stream" where
  "demo_secret_stream = set_secrets [(''PW'', ''hunter2'')] (new_stream ''s'' [] None)"

lemma demo_secret_run:
  obtains e' st' data where "add_event (\<lambda>_. []) strict_codec ''2025'' demo_command USER_SOURCE demo_secret_stream = (Inr (), e', st')"
    and "fs_read (get_filename_for_id demo_secret_stream 0) (es_file_store st') = Inr (PDict data)"
    and "dict_get data ''args'' = Some (PDict (filter (\<lambda>(k, v). k \<noteq> ''action'') (dict_set ''command'' (PStr ''login <secret_hidden>'') (e_fields demo_command))))"
    and "cur_id demo_secret_stream = 0"
proof -
  let ?r = "add_event (\<lambda>_. []) strict_codec ''2025'' demo_command USER_SOURCE demo_secret_stream"
  let ?v = "fs_read (get_filename_for_id demo_secret_stream 0) (es_file_store (snd (snd ?r)))"
  have a: "\<not> isl (fst ?r)" by code_simp
  have b: "(case ?v of Inr (PDict d) \<Rightarrow> dict_get d ''args'' = Some (PDict (filter (\<lambda>(k, v). k \<noteq> ''action'')
      (dict_set ''command'' (PStr ''login <secret_hidden>'') (e_fields demo_command)))) | _ \<Rightarrow> False)" by code_simp
  have c: "cur_id demo_secret_stream = 0" by code_simp
  from a have "?r = (Inr (), fst (snd ?r), snd (snd ?r))"
    by (cases "fst ?r") (simp_all add: prod_eq_iff)
  moreover from b obtain data where "?v = Inr (PDict data)" "dict_get data ''args'' = Some (PDict (filter (\<lambda>(k, v). k \<noteq> ''action'')
      (dict_set ''command'' (PStr ''login <secret_hidden>'') (e_fields demo_command))))"
    by (auto split: sum.splits pyval.splits)
  ultimately show thesis using that c by blast
qed


text \<open>The message of an event is protected from replacement, and it repeats the command: the secret of a command line is
  stored in clear.\<close>

theorem stored_message_keeps_secret:
  assumes "add_event rp cd now e source st = (Inr (), e', st')" and "0 \<le> cur_id st"
    and "is_a CmdRunAction e" and "contains secret (event_text e ''command'')"
  shows "\<exists>data m. fs_read (get_filename_for_id st (cur_id st)) (es_file_store st') = Inr (PDict data)
    \<and> dict_get data ''message'' = Some (PStr m) \<and> contains secret m"
proof -
  let ?e = "e\<lparr>e_timestamp := Some now, e_source := Some source, e_id := Some (cur_id st)\<rparr>"
  let ?m = "''Running command: '' @ event_text e ''command''"
  obtain d where d: "event_to_dict rp ?e = Inr d"
    and f: "fs_read (get_filename_for_id st (cur_id st)) (es_file_store st') = Inr (json_value (PDict (replace_secrets (dict_values (st_secrets st)) d)))"
    by (rule written_data [OF assms(1,2)])
  obtain t where t: "top_entries rp ?e TOP_KEYS = Inr t" and g: "dict_get d ''message'' = dict_get t ''message''"
    using to_dict_split [OF d] by (metis TOP_KEYS_def list.set_intros)
  have "dict_get d ''message'' = Some (PStr ?m)"
    using g top_entries_get [OF t TOP_KEYS_distinct, of "''message''"] assms(3)
    by (simp add: TOP_KEYS_def top_attr_def event_message_def is_a_def CmdRunAction_spec_def event_text_def)
  then have "dict_get (map (\<lambda>(k, v). (k, json_value v)) (replace_secrets (dict_values (st_secrets st)) d)) ''message'' = Some (PStr ?m)"
    by (induction d) (auto simp: replace_secrets_def TOP_LEVEL_PROTECTED_FIELDS_def)
  then show ?thesis using f assms(4) contains_appendr by auto
qed

theorem stored_message_keeps_secret_witness:
  "\<exists>e' st' data m. add_event (\<lambda>_. []) strict_codec ''2025'' demo_command USER_SOURCE demo_secret_stream = (Inr (), e', st')
     \<and> fs_read (get_filename_for_id demo_secret_stream 0) (es_file_store st') = Inr (PDict data)
     \<and> dict_get data ''message'' = Some (PStr m) \<and> contains ''hunter2'' m"
proof -
  obtain e' st' where r: "add_event (\<lambda>_. []) strict_codec ''2025'' demo_command USER_SOURCE demo_secret_stream = (Inr (), e', st')"
    and c: "cur_id demo_secret_stream = 0"
    using demo_secret_run by metis
  have p: "contains ''hunter2'' (event_text demo_command ''command'')" and a: "is_a CmdRunAction demo_command" by code_simp+
  have "0 \<le> cur_id demo_secret_stream" using c by simp
  from stored_message_keeps_secret [OF r this a p] r c show ?thesis by auto
qed

text \<open>An event that cannot be serialised spends its id but has no entry in the page. From then on the page is one place
  short: the events after it are found one index early, and the last one twice.\<close>

definition demo_unserialisable :: event where
  "demo_unserialisable = make_act AgentRejectAction [(''outputs'', PDict [(''reason'', PInt 5)])]"

definition demo_gap :: "unit event_stream" where
  "demo_gap = fold (\<lambda>e st. snd (snd (add_event (\<lambda>_. []) strict_codec ''2025'' e AGENT_SOURCE st)))
     [make_act AgentThinkAction [(''thought'', PStr ''a'')], demo_unserialisable, make_act AgentThinkAction [(''thought'', PStr ''b'')]]
     demo_stream"

theorem gap_shifts_page:
  "res_map (map event_id) (search_events (\<lambda>_. []) strict_codec (\<lambda>_. True) demo_gap 0 None False None None) = Inr [0, 2, 2]
   \<and> res_map (map event_id) (direct_loop strict_codec (\<lambda>_. True) (\<lambda>_. Inr True) None demo_gap 0 (search_range demo_gap 0 None False))
     = Inr [0, 2]"
  by (rule conjI; code_simp)

end
