(* ===== verification/State_Tracker.thy ===== *)
theory State_Tracker
  imports Control_Flags History_View Conversation_Stream "HOL-Library.Product_Lexorder"
begin

text \<open>
  The state of an agent and its history: \<open>controller/state/state.py\<close> and \<open>controller/state/state_tracker.py\<close>. The limits are
  not part of the record: a controller and its delegates share them (\<open>control_flags\<close>). A pickled state is represented by the value
  that is pickled, with the attributes older versions have. Metrics, the metadata for the language model and the
  fields that are only kept for old pickles are left out.
\<close>

section \<open>The state\<close>

record agent_data =
  session_id :: string
  user_id :: "string option"
  confirmation_mode :: bool
  history :: "event list"
  inputs :: payload
  outputs :: payload
  ag_state :: string \<comment> \<open>a member of the string enum \<open>AgentState\<close>, or the text a client sent\<close>
  resume_state :: "string option"
  delegate_level :: int
  start_id :: int
  end_id :: int
  parent_iteration :: int
  last_error :: string
  history_checksum :: int \<comment> \<open>\<open>- 1\<close> when there is none\<close>
  cached_view :: "view option"

definition fresh_state :: agent_data where
  "fresh_state = \<lparr>session_id = [], user_id = None, confirmation_mode = False, history = [], inputs = [], outputs = [], ag_state = agent_state_value LOADING,
     resume_state = None, delegate_level = 0, start_id = - 1, end_id = - 1, parent_iteration = 100, last_error = [],
     history_checksum = - 1, cached_view = None\<rparr>"

definition RESUMABLE_STATES :: "string list" where
  "RESUMABLE_STATES = map agent_state_value [RUNNING, PAUSED, AWAITING_USER_INPUT, FINISHED]"

text \<open>The property \<open>view\<close>: the length of the history decides whether the cached view is used. The checksum is stored before
  the view is computed.\<close>

definition state_view :: "agent_data \<Rightarrow> view res \<times> agent_data" where
  "state_view s =
     (let n = int (length (history s)) in
      if n = history_checksum s
      then (case cached_view s of
              Some v \<Rightarrow> (Inr v, s)
            | None \<Rightarrow> (Inl (OtherError ''AttributeError'' ''_view''), s))
      else (case from_events (history s) of
              Inl x \<Rightarrow> (Inl x, s\<lparr>history_checksum := n\<rparr>)
            | Inr v \<Rightarrow> (Inr v, s\<lparr>history_checksum := n, cached_view := Some v\<rparr>)))"

text \<open>The loop of \<open>get_current_user_intent\<close> over the reversed view, with the last message seen so far.\<close>

fun user_intent :: "event list \<Rightarrow> (string \<times> pyval) option \<Rightarrow> string option \<times> pyval" where
  "user_intent [] acc = (case acc of None \<Rightarrow> (None, PList []) | Some (m, urls) \<Rightarrow> (Some m, urls))"
| "user_intent (e # es) acc =
     (if from_user e then user_intent es (Some (event_text e ''content'', get_attr e ''image_urls'' PNone))
      else if is_a AgentFinishAction e \<and> acc \<noteq> None then (map_option fst acc, PNone)
      else user_intent es acc)"

definition get_current_user_intent :: "agent_data \<Rightarrow> (string option \<times> pyval) res \<times> agent_data" where
  "get_current_user_intent s = (let (r, s) = state_view s in (res_map (\<lambda>v. user_intent (rev (v_events v)) None) r, s))"

definition get_last_agent_message :: "agent_data \<Rightarrow> event option res \<times> agent_data" where
  "get_last_agent_message s = (let (r, s) = state_view s in (res_map (\<lambda>v. find from_agent (rev (v_events v))) r, s))"

definition get_last_user_message :: "agent_data \<Rightarrow> event option res \<times> agent_data" where
  "get_last_user_message s = (let (r, s) = state_view s in (res_map (\<lambda>v. find from_user (rev (v_events v))) r, s))"

definition get_local_step :: "control_flags \<Rightarrow> agent_data \<Rightarrow> int" where
  "get_local_step cf s =
     (if parent_iteration s = 0 then current_value (cf_iteration cf) else current_value (cf_iteration cf) - parent_iteration s)"

section \<open>Saving and restoring\<close>

record saved_state =
  sv_state :: agent_data
  sv_iteration_flag :: "iteration_flag option"
  sv_budget_flag :: "budget_flag option"
  sv_iteration :: "int option" \<comment> \<open>older versions\<close>
  sv_max_iterations :: "int option"

definition getstate :: "control_flags \<Rightarrow> agent_data \<Rightarrow> saved_state" where
  "getstate cf s = \<lparr>sv_state = s\<lparr>history := [], history_checksum := - 1, cached_view := None\<rparr>,
     sv_iteration_flag = Some (cf_iteration cf), sv_budget_flag = cf_budget cf, sv_iteration = None, sv_max_iterations = None\<rparr>"

definition flag_of :: "int \<Rightarrow> int \<Rightarrow> iteration_flag" where
  "flag_of n cur = \<lparr>limit_increase_amount = n, current_value = cur, max_value = n, hit_limit = False\<rparr>"

definition setstate :: "saved_state \<Rightarrow> agent_data \<times> control_flags" where
  "setstate sv =
     (sv_state sv,
      \<lparr>cf_iteration = (case sv_iteration sv of
          Some cur \<Rightarrow> flag_of (case sv_max_iterations sv of None \<Rightarrow> 100 | Some m \<Rightarrow> m) cur
        | None \<Rightarrow> (case sv_iteration_flag sv of Some f \<Rightarrow> f | None \<Rightarrow> flag_of 100 0)),
       cf_budget = sv_budget_flag sv\<rparr>)"

type_synonym session_files = "(string, saved_state) dict"

definition get_conversation_agent_state_filename :: "string \<Rightarrow> string option \<Rightarrow> string" where
  "get_conversation_agent_state_filename sid uid = get_conversation_dir sid uid @ ''agent_state.pkl''"

definition save_to_session :: "string \<Rightarrow> string option \<Rightarrow> control_flags \<Rightarrow> agent_data \<Rightarrow> session_files \<Rightarrow> session_files" where
  "save_to_session sid uid cf s fs =
     (let fs = fs_write (get_conversation_agent_state_filename sid uid) (getstate cf s) fs
      in if given uid then fs_delete (get_conversation_agent_state_filename sid None) fs else fs)"

definition restore_from_session :: "string \<Rightarrow> string option \<Rightarrow> session_files \<Rightarrow> (agent_data \<times> control_flags) res" where
  "restore_from_session sid uid fs =
     res_map (\<lambda>sv. let (s, cf) = setstate sv in
         (s\<lparr>resume_state := (if ag_state s \<in> set RESUMABLE_STATES then Some (ag_state s) else None), ag_state := agent_state_value LOADING\<rparr>, cf))
       (case fs_read (get_conversation_agent_state_filename sid uid) fs of
          Inr sv \<Rightarrow> Inr sv
        | Inl _ \<Rightarrow>
            if given uid then fs_read (get_conversation_agent_state_filename sid None) fs
            else Inl (FileNotFoundError (''Could not restore state from session file for sid: '' @ sid)))"

section \<open>The tracker\<close>

definition agent_history_filter :: event_filter where
  "agent_history_filter = no_filter\<lparr>exclude_types := Some [Exactly (Act NullAction), Exactly (Obs NullObservation),
     Exactly (Act ChangeAgentStateAction), Exactly (Obs AgentStateChangedObservation)], exclude_hidden := True\<rparr>"

definition removesuffix :: "string \<Rightarrow> string \<Rightarrow> string" where
  "removesuffix s t = (if t \<noteq> [] \<and> suffix t s then take (length s - length t) s else s)"

definition set_initial_state ::
  "string \<Rightarrow> string option \<Rightarrow> (agent_data \<times> control_flags) option \<Rightarrow> int \<Rightarrow> rat option \<Rightarrow> bool \<Rightarrow> agent_data \<times> control_flags" where
  "set_initial_state i uid given_state max_iterations max_budget confirmation =
     (case given_state of
        None \<Rightarrow>
          (fresh_state\<lparr>session_id := removesuffix i ''-delegate'', user_id := uid, confirmation_mode := confirmation, start_id := 0\<rparr>,
           \<lparr>cf_iteration = new_flag max_iterations,
            cf_budget = (case max_budget of None \<Rightarrow> None | Some b \<Rightarrow> if b = 0 then None else Some (new_flag b))\<rparr>)
      | Some (s, cf) \<Rightarrow> (if start_id s \<le> - 1 then s\<lparr>start_id := 0\<rparr> else s, cf))"

text \<open>The matching of delegate actions with their observations; the second argument is the stack of unmatched actions.\<close>

fun delegate_ranges :: "event list \<Rightarrow> int list \<Rightarrow> (int \<times> int) list" where
  "delegate_ranges [] st = []"
| "delegate_ranges (e # es) st =
     (if is_a AgentDelegateAction e then delegate_ranges es (event_id e # st)
      else if is_o AgentDelegateObservation e
      then (case st of [] \<Rightarrow> delegate_ranges es [] | a # st \<Rightarrow> (a, event_id e) # delegate_ranges es st)
      else delegate_ranges es st)"

definition first_after :: "int \<Rightarrow> event list \<Rightarrow> nat" where
  "first_after i es = length (takeWhile (\<lambda>e. event_id e \<le> i) es)"

fun cut_ranges :: "event list \<Rightarrow> (int \<times> int) list \<Rightarrow> nat \<Rightarrow> event list" where
  "cut_ranges es [] current_idx = drop current_idx es"
| "cut_ranges es ((s, e) # rs) current_idx =
     filter (\<lambda>x. event_id x < s) (drop current_idx es) @ filter (\<lambda>x. event_id x = s \<or> event_id x = e) es
     @ cut_ranges es rs (first_after e es)"

definition without_delegates :: "event list \<Rightarrow> event list" where
  "without_delegates es =
     (let ranges = delegate_ranges es [] in if ranges = [] then es else cut_ranges es (sort ranges) 0)"

text \<open>The events of the stream between the two ids of the state.\<close>

definition tracked_range :: "'cb event_stream \<Rightarrow> agent_data \<Rightarrow> int \<times> int" where
  "tracked_range st s = (if 0 \<le> start_id s then start_id s else 0, if 0 \<le> end_id s then end_id s else get_latest_event_id st)"

definition tracked_events ::
  "(pyval \<Rightarrow> string) \<Rightarrow> codec \<Rightarrow> 'cb event_stream \<Rightarrow> int \<times> int \<Rightarrow> event list res" where
  "tracked_events rp cd st bounds =
     search_events rp cd (\<lambda>_. True) st (fst bounds) (Some (snd bounds)) False (Some agent_history_filter) None"

text \<open>The loop over the ranges binds the variable \<open>start_id\<close> again, and the state then gets its last value.\<close>

definition synced_start_id :: "event list \<Rightarrow> int \<Rightarrow> int" where
  "synced_start_id es start =
     (let ranges = delegate_ranges es [] in if ranges = [] then start else fst (last (sort ranges)))"

definition init_history :: "(pyval \<Rightarrow> string) \<Rightarrow> codec \<Rightarrow> 'cb event_stream \<Rightarrow> agent_data \<Rightarrow> agent_data res" where
  "init_history rp cd st s =
     (let bounds = tracked_range st s in
      if snd bounds + 1 < fst bounds then Inr (s\<lparr>history := []\<rparr>)
      else res_map (\<lambda>es. s\<lparr>history := without_delegates es, start_id := synced_start_id es (fst bounds)\<rparr>)
        (tracked_events rp cd st bounds))"

definition close_tracker :: "(pyval \<Rightarrow> string) \<Rightarrow> codec \<Rightarrow> 'cb event_stream \<Rightarrow> agent_data \<Rightarrow> agent_data res" where
  "close_tracker rp cd st s = res_map (\<lambda>es. s\<lparr>history := es\<rparr>) (tracked_events rp cd st (tracked_range st s))"

definition in_history :: "event \<Rightarrow> bool" where
  "in_history e \<longleftrightarrow> ef_include (\<lambda>_. []) agent_history_filter e = Inr True"

definition add_history :: "event \<Rightarrow> agent_data \<Rightarrow> agent_data" where
  "add_history e s = (if in_history e then s\<lparr>history := history s @ [e]\<rparr> else s)"

fun get_trajectory :: "(pyval \<Rightarrow> string) \<Rightarrow> bool \<Rightarrow> event list \<Rightarrow> payload list res" where
  "get_trajectory rp screenshots [] = Inr []"
| "get_trajectory rp screenshots (e # es) =
     res_bind (event_to_trajectory rp e screenshots) (\<lambda>d. res_map ((#) d) (get_trajectory rp screenshots es))"

section \<open>The cached view\<close>

text \<open>The cached view is that of the part of the history it was computed for.\<close>

definition view_fresh :: "agent_data \<Rightarrow> bool" where
  "view_fresh s \<longleftrightarrow> history_checksum s = - 1 \<or>
     (0 \<le> history_checksum s \<and> history_checksum s \<le> int (length (history s))
      \<and> cached_view s \<noteq> None \<and> from_events (take (nat (history_checksum s)) (history s)) = Inr (the (cached_view s)))"

text \<open>As long as the history only grows, the cache is invisible: the view is that of the whole history, and looking at it and
  adding events keep it so.\<close>

theorem cached_view_is_current:
  assumes "view_fresh s"
  shows "fst (state_view s) = from_events (history s)
    \<and> (\<not> isl (fst (state_view s)) \<longrightarrow> view_fresh (snd (state_view s))) \<and> view_fresh (add_history e s)"
proof (intro conjI)
  show "fst (state_view s) = from_events (history s)"
    using assms by (auto simp: view_fresh_def state_view_def Let_def split: sum.splits option.splits)
  show "\<not> isl (fst (state_view s)) \<longrightarrow> view_fresh (snd (state_view s))"
    using assms by (auto simp: view_fresh_def state_view_def Let_def split: sum.splits option.splits)
  show "view_fresh (add_history e s)"
    using assms by (auto simp: view_fresh_def add_history_def)
qed

theorem cached_view_is_current_witness: "fst (state_view fresh_state) = from_events []"
  using cached_view_is_current [of fresh_state] by (simp add: view_fresh_def fresh_state_def)

text \<open>The checksum is only the length. After a recovery that shortens the history, the agent sees the old view, forgotten
  events included, as soon as the new history has the old length.\<close>

theorem stale_view_after_truncation:
  assumes "history_checksum s = int (length (history s))" and "cached_view s = Some v" and "length h = length (history s)"
  shows "fst (state_view (s\<lparr>history := h\<rparr>)) = Inr v"
  using assms by (simp add: state_view_def)

definition demo_state :: agent_data where
  "demo_state = snd (state_view (fresh_state\<lparr>history := demo_history\<rparr>))"

theorem stale_view_after_truncation_witness:
  "fst (state_view (demo_state\<lparr>history := take 2 demo_history @ [(make_act MessageAction [(''content'', PStr ''new'')])\<lparr>e_id := Some 3\<rparr>]\<rparr>))
    = fst (state_view demo_state)"
proof -
  have "\<not> isl (from_events demo_history)" by code_simp
  then obtain v where v: "from_events demo_history = Inr v" by (metis sum.collapse(2))
  then have s: "demo_state = fresh_state\<lparr>history := demo_history, history_checksum := int (length demo_history), cached_view := Some v\<rparr>"
    by (simp add: demo_state_def state_view_def fresh_state_def Let_def)
  have l: "length demo_history = 3" by code_simp
  have "fst (state_view (demo_state\<lparr>history := take 2 demo_history @ [(make_act MessageAction [(''content'', PStr ''new'')])\<lparr>e_id := Some 3\<rparr>]\<rparr>)) = Inr v"
    by (rule stale_view_after_truncation) (simp_all add: s l)
  then show ?thesis by (simp add: s state_view_def)
qed

section \<open>Saved sessions\<close>

lemma dict_get_filter_keys: "dict_get (filter (\<lambda>(k, v). P k) d) k = (if P k then dict_get d k else None)"
  by (induction d) auto

lemma saved_read:
  "fs_read (get_conversation_agent_state_filename sid uid) (save_to_session sid uid cf s fs) = Inr (getstate cf s)"
proof -
  let ?name = "get_conversation_agent_state_filename sid uid" and ?old = "get_conversation_agent_state_filename sid None"
  have "\<not> prefix ?old ?name" if "given uid"
    using that by (auto simp: given_def get_conversation_agent_state_filename_def get_conversation_dir_def split: option.splits)
  then show ?thesis by (auto simp: save_to_session_def Let_def fs_read_def fs_delete_def fs_write_def dict_get_filter_keys)
qed

definition restored :: "agent_data \<Rightarrow> agent_data" where
  "restored s = s\<lparr>history := [], history_checksum := - 1, cached_view := None,
     resume_state := (if ag_state s \<in> set RESUMABLE_STATES then Some (ag_state s) else None), ag_state := agent_state_value LOADING\<rparr>"

lemma save_restore: "restore_from_session sid uid (save_to_session sid uid cf s fs) = Inr (restored s, cf)"
  using saved_read [of sid uid cf s fs] by (simp add: restore_from_session_def getstate_def setstate_def restored_def)

text \<open>C38. A session that was saved is restored with its state and its limits: the history is left out, since it is read from the
  stream, the agent starts in LOADING and remembers the state to resume if it is one of the resumable ones. Saving for a
  user removes the file of the old location.\<close>

theorem saved_session_restored:
  "restore_from_session sid uid (save_to_session sid uid cf s fs)
    = Inr (s\<lparr>history := [], history_checksum := - 1, cached_view := None,
        resume_state := (if ag_state s \<in> agent_state_value ` {RUNNING, PAUSED, AWAITING_USER_INPUT, FINISHED} then Some (ag_state s) else None),
        ag_state := agent_state_value LOADING\<rparr>, cf)
   \<and> (given uid \<longrightarrow> fs_read (get_conversation_agent_state_filename sid None) (save_to_session sid uid cf s fs)
        = Inl (FileNotFoundError (get_conversation_agent_state_filename sid None)))"
  using save_restore [of sid uid cf s fs]
  by (simp add: restored_def RESUMABLE_STATES_def save_to_session_def Let_def fs_read_def fs_delete_def dict_get_filter_keys)

theorem saved_session_restored_witness:
  "fs_read ''sessions/a/agent_state.pkl'' (save_to_session ''a'' (Some ''u'') demo_flags fresh_state []) = Inl (FileNotFoundError ''sessions/a/agent_state.pkl'')"
  using saved_session_restored [of "''a''" "Some ''u''" demo_flags fresh_state "[]"]
  by (simp add: given_def get_conversation_agent_state_filename_def get_conversation_dir_def)

section \<open>Delegates in the history\<close>

text \<open>A history with completed delegations one after the other: events of the agent, a delegate action, the events of the delegate and
  the observation that ends it.\<close>

type_synonym delegation = "event list \<times> event \<times> event list \<times> event"

fun delegation_events :: "delegation \<Rightarrow> event list" where
  "delegation_events (before, a, during, ob) = before @ a # during @ [ob]"

fun delegation_kept :: "delegation \<Rightarrow> event list" where
  "delegation_kept (before, a, during, ob) = before @ [a, ob]"

definition plain_event :: "event \<Rightarrow> bool" where
  "plain_event e \<longleftrightarrow> \<not> is_a AgentDelegateAction e \<and> \<not> is_o AgentDelegateObservation e"

fun delegation_ok :: "delegation \<Rightarrow> bool" where
  "delegation_ok (before, a, during, ob) \<longleftrightarrow> list_all plain_event before \<and> list_all plain_event during
     \<and> is_a AgentDelegateAction a \<and> is_o AgentDelegateObservation ob"

fun delegation_range :: "delegation \<Rightarrow> int \<times> int" where
  "delegation_range (before, a, during, ob) = (event_id a, event_id ob)"

definition ids_ascend :: "event list \<Rightarrow> bool" where
  "ids_ascend es \<longleftrightarrow> sorted_wrt (<) (map event_id es)"

lemma plain_ranges: "list_all plain_event xs \<Longrightarrow> delegate_ranges (xs @ es) st = delegate_ranges es st"
  by (induction xs) (auto simp: plain_event_def)

lemma ranges_of:
  "list_all delegation_ok ds \<Longrightarrow> list_all plain_event rest \<Longrightarrow>
    delegate_ranges (concat (map delegation_events ds) @ rest) [] = map delegation_range ds"
proof (induction ds)
  case Nil
  then show ?case using plain_ranges [of rest "[]" "[]"] by simp
next
  case (Cons d ds)
  obtain before a during ob where d: "d = (before, a, during, ob)" by (cases d)
  have "\<not> is_a AgentDelegateAction ob" "\<not> is_o AgentDelegateObservation a" using Cons.prems(1) d by (auto simp: is_a_def is_o_def)
  then show ?case using Cons d by (simp add: plain_ranges)
qed

lemma ids_ascend_append: "ids_ascend (xs @ ys) \<longleftrightarrow> ids_ascend xs \<and> ids_ascend ys \<and> (\<forall>x \<in> set xs. \<forall>y \<in> set ys. event_id x < event_id y)"
  by (auto simp: ids_ascend_def sorted_wrt_append)

lemma ids_ascend_Cons: "ids_ascend (x # ys) \<longleftrightarrow> ids_ascend ys \<and> (\<forall>y \<in> set ys. event_id x < event_id y)"
  by (auto simp: ids_ascend_def)

lemma first_after_split:
  assumes "ids_ascend (xs @ [e] @ ys)"
  shows "first_after (event_id e) (xs @ [e] @ ys) = length xs + 1"
proof -
  have "takeWhile (\<lambda>x. event_id x \<le> event_id e) ((xs @ [e]) @ ys) = (xs @ [e]) @ takeWhile (\<lambda>x. event_id x \<le> event_id e) ys"
    by (rule takeWhile_append2) (use assms in \<open>auto simp: ids_ascend_append\<close>)
  also have "takeWhile (\<lambda>x. event_id x \<le> event_id e) ys = []"
    using assms by (cases ys) (auto simp: ids_ascend_append ids_ascend_Cons)
  finally show ?thesis by (simp add: first_after_def)
qed

lemma one_delegation:
  assumes "ids_ascend (pre @ B @ a # D @ ob # R)"
  shows "filter (\<lambda>x. event_id x < event_id a) (B @ a # D @ ob # R) = B"
    and "filter (\<lambda>x. event_id x = event_id a \<or> event_id x = event_id ob) (pre @ B @ a # D @ ob # R) = [a, ob]"
proof -
  have pre: "event_id x < event_id a" if "x \<in> set pre \<union> set B" for x
    using assms that by (auto simp: ids_ascend_append ids_ascend_Cons)
  have post: "event_id a < event_id x" if "x \<in> set D \<union> {ob} \<union> set R" for x
    using assms that by (auto simp: ids_ascend_append ids_ascend_Cons)
  have ob: "event_id x < event_id ob" if "x \<in> set D" for x
    using assms that by (auto simp: ids_ascend_append ids_ascend_Cons)
  have after: "event_id ob < event_id x" if "x \<in> set R" for x
    using assms that by (auto simp: ids_ascend_append ids_ascend_Cons)
  have "filter (\<lambda>x. event_id x < event_id a) xs = []" if "set xs \<subseteq> set D \<union> {ob} \<union> set R" for xs
    using post that by (fastforce simp: filter_empty_conv)
  moreover have "filter (\<lambda>x. event_id x < event_id a) B = B" using pre by (simp add: filter_id_conv)
  ultimately show "filter (\<lambda>x. event_id x < event_id a) (B @ a # D @ ob # R) = B"
    using post [of ob] by (simp add: order.asym subset_insertI2)
  let ?P = "\<lambda>x. event_id x = event_id a \<or> event_id x = event_id ob"
  have "filter ?P pre = []" "filter ?P B = []" "filter ?P D = []" "filter ?P R = []"
    using pre post ob after by (force simp: filter_empty_conv)+
  then show "filter ?P (pre @ B @ a # D @ ob # R) = [a, ob]" by simp
qed

lemma cut_ranges_delegations:
  assumes "ids_ascend (pre @ concat (map delegation_events ds) @ rest)"
  shows "cut_ranges (pre @ concat (map delegation_events ds) @ rest) (map delegation_range ds) (length pre)
    = concat (map delegation_kept ds) @ rest"
  using assms
proof (induction ds arbitrary: pre)
  case (Cons d ds)
  obtain B a D ob where d: "d = (B, a, D, ob)" by (cases d)
  let ?R = "concat (map delegation_events ds) @ rest"
  let ?es = "pre @ (B @ a # D @ [ob]) @ ?R"
  have es: "pre @ concat (map delegation_events (d # ds)) @ rest = ?es" by (simp add: d)
  have asc: "ids_ascend ?es" using Cons.prems by (simp add: d)
  have 1: "filter (\<lambda>x. event_id x < event_id a) (drop (length pre) ?es) = B"
    using one_delegation(1) [of pre B a D ob ?R] asc by simp
  have 2: "filter (\<lambda>x. event_id x = event_id a \<or> event_id x = event_id ob) ?es = [a, ob]"
    using one_delegation(2) [of pre B a D ob ?R] asc by simp
  have 3: "first_after (event_id ob) ?es = length (pre @ B @ a # D @ [ob])"
    using first_after_split [of "pre @ B @ a # D" ob ?R] asc by simp
  have 4: "cut_ranges ?es (map delegation_range ds) (length (pre @ B @ a # D @ [ob])) = concat (map delegation_kept ds) @ rest"
    using Cons.IH [of "pre @ B @ a # D @ [ob]"] asc by simp
  have "cut_ranges ?es (map delegation_range (d # ds)) (length pre)
      = filter (\<lambda>x. event_id x < event_id a) (drop (length pre) ?es)
        @ filter (\<lambda>x. event_id x = event_id a \<or> event_id x = event_id ob) ?es @ cut_ranges ?es (map delegation_range ds) (first_after (event_id ob) ?es)"
    by (simp only: d list.map delegation_range.simps cut_ranges.simps)
  then show ?case unfolding es 1 2 3 4 by (simp add: d)
qed simp

lemma sorted_ranges:
  assumes "ids_ascend (pre @ concat (map delegation_events ds) @ rest)"
  shows "sorted (map delegation_range ds)"
  using assms
proof (induction ds arbitrary: pre)
  case (Cons d ds)
  obtain B a D ob where d: "d = (B, a, D, ob)" by (cases d)
  have "sorted (map delegation_range ds)" using Cons.IH [of "pre @ delegation_events d"] Cons.prems by simp
  moreover have "delegation_range d \<le> r" if r: "r \<in> set (map delegation_range ds)" for r
  proof -
    obtain B' a' D' ob' where "(B', a', D', ob') \<in> set ds" "r = (event_id a', event_id ob')" using r by auto
    moreover from this have "a' \<in> set (concat (map delegation_events ds))" by force
    ultimately have "event_id a < fst r" using Cons.prems by (auto simp: d ids_ascend_append ids_ascend_Cons)
    then show ?thesis by (simp add: d less_eq_prod_def)
  qed
  ultimately show ?case by simp
qed simp

text \<open>When the history is read back from the stream, completed delegations, one after the other, leave only the action that started
  them and the observation that ended them; everything the agent itself did is kept in order.\<close>

theorem completed_delegations_hidden:
  assumes "list_all delegation_ok ds" and "list_all plain_event rest" and "ids_ascend (concat (map delegation_events ds) @ rest)"
  shows "without_delegates (concat (map delegation_events ds) @ rest) = concat (map delegation_kept ds) @ rest"
proof -
  have "sort (map delegation_range ds) = map delegation_range ds"
    using sorted_ranges [of "[]" ds rest] assms(3) by (simp add: sorted_sort_id)
  then show ?thesis
    using ranges_of [OF assms(1,2)] cut_ranges_delegations [of "[]" ds rest] assms(3) by (auto simp: without_delegates_def Let_def)
qed

definition at_id :: "int \<Rightarrow> event \<Rightarrow> event" where
  "at_id i e = e\<lparr>e_id := Some i\<rparr>"

definition demo_delegate :: event where
  "demo_delegate = make_act AgentDelegateAction [(''agent'', PStr ''BrowsingAgent''), (''inputs'', PDict [])]"

definition demo_answer :: event where
  "demo_answer = make_obs AgentDelegateObservation [(''content'', PStr ''done''), (''outputs'', PDict [])]"

theorem completed_delegations_hidden_witness:
  "map event_id (without_delegates [at_id 0 demo_delegate, at_id 1 (make_act AgentThinkAction []), at_id 2 demo_answer, at_id 3 (make_act AgentThinkAction [])])
    = [0, 2, 3]"
proof -
  let ?d = "([], at_id 0 demo_delegate, [at_id 1 (make_act AgentThinkAction [])], at_id 2 demo_answer)"
  have "list_all delegation_ok [?d]" "list_all plain_event [at_id 3 (make_act AgentThinkAction [])]"
    "ids_ascend (concat (map delegation_events [?d]) @ [at_id 3 (make_act AgentThinkAction [])])" by code_simp+
  from completed_delegations_hidden [OF this] show ?thesis by (simp add: at_id_def event_id_def)
qed

text \<open>With a delegation inside a delegation the inner pair and everything after it appear again: the events from the end of the inner
  one on are in the history twice.\<close>

theorem nested_delegation_repeats_events:
  "map event_id (without_delegates
     [at_id 0 (make_act AgentThinkAction []), at_id 1 demo_delegate, at_id 2 demo_delegate, at_id 3 demo_answer,
      at_id 4 (make_act AgentThinkAction []), at_id 5 demo_answer, at_id 6 (make_act AgentThinkAction [])])
    = [0, 1, 5, 2, 3, 4, 5, 6]"
  by code_simp

text \<open>Reading the history back also moves the start of the state to the last delegation: the loop over the ranges rebinds the variable
  that is stored afterwards. What came before is lost the next time the history is read.\<close>

lemma restored_start_id_moves:
  assumes "list_all delegation_ok (ds @ [(before, a, during, ob)])" and "list_all plain_event rest"
    and "ids_ascend (concat (map delegation_events (ds @ [(before, a, during, ob)])) @ rest)"
    and "tracked_events rp cd st (tracked_range st s) = Inr (concat (map delegation_events (ds @ [(before, a, during, ob)])) @ rest)"
    and "fst (tracked_range st s) \<le> snd (tracked_range st s) + 1"
  shows "\<exists>s'. init_history rp cd st s = Inr s' \<and> start_id s' = event_id a"
proof -
  let ?ds = "ds @ [(before, a, during, ob)]" and ?es = "concat (map delegation_events (ds @ [(before, a, during, ob)])) @ rest"
  have r: "delegate_ranges ?es [] = map delegation_range ?ds" by (rule ranges_of [OF assms(1,2)])
  have "sort (map delegation_range ?ds) = map delegation_range ?ds"
    using sorted_ranges [of "[]" ?ds rest] assms(3) by (simp add: sorted_sort_id)
  then have "synced_start_id ?es i = event_id a" for i unfolding synced_start_id_def r Let_def by simp
  then show ?thesis using assms(4,5) by (simp add: init_history_def Let_def)
qed

end
