(* ===== verification/Stuck_Detector.thy ===== *)
theory Stuck_Detector
  imports Events
begin

text \<open>
  The detector of agents that are stuck in a loop: \<open>controller/stuck.py\<close>. The detector reads the history of the controller and
  keeps the analysis of the last loop it found; \<open>is_stuck\<close> takes both and returns its answer with the analysis it leaves.
\<close>

section \<open>The detector\<close>

record stuck_analysis =
  loop_type :: string
  loop_repeat_times :: nat
  loop_start_idx :: nat

definition analysis :: "string \<Rightarrow> nat \<Rightarrow> nat \<Rightarrow> stuck_analysis" where
  "analysis t n i = \<lparr>loop_type = t, loop_repeat_times = n, loop_start_idx = i\<rparr>"

definition code_lines :: "event \<Rightarrow> string list" where
  "code_lines e = split_char nl (event_text e ''code'')"

definition exit_code :: "event \<Rightarrow> pyval" where
  "exit_code e = field_of (dict_of (e_fields e) ''metadata'') ''exit_code''"

definition eq_no_pid :: "event \<Rightarrow> event \<Rightarrow> bool" where
  "eq_no_pid a b =
     (if is_a IPythonRunCellAction a \<and> is_a IPythonRunCellAction b then
        if contains ''edit_file_by_replace('' (event_text a ''code'') \<and> contains ''edit_file_by_replace('' (event_text b ''code'')
        then 2 < length (code_lines a) \<and> take 3 (code_lines a) = take 3 (code_lines b)
        else event_eq a b
      else if is_o CmdOutputObservation a \<and> is_o CmdOutputObservation b
      then event_text a ''command'' = event_text b ''command'' \<and> exit_code a = exit_code b
      else event_eq a b)"

text \<open>The loop that gathers the last \<open>n\<close> actions and the last \<open>n\<close> observations of a reversed history.\<close>

fun collect_last :: "nat \<Rightarrow> event list \<Rightarrow> event list \<Rightarrow> event list \<Rightarrow> event list \<times> event list" where
  "collect_last n as os [] = (as, os)"
| "collect_last n as os (e # es) =
     (let (as, os) = (if is_action e \<and> length as < n then (as @ [e], os)
                      else if is_observation e \<and> length os < n then (as, os @ [e]) else (as, os))
      in if length as = n \<and> length os = n then (as, os) else collect_last n as os es)"

text \<open>\<open>xs.index(x)\<close> for an event that is in the list.\<close>

fun index_of :: "event \<Rightarrow> event list \<Rightarrow> nat" where
  "index_of x [] = 0"
| "index_of x (e # es) = (if event_eq e x then 0 else Suc (index_of x es))"

definition all_same :: "event list \<Rightarrow> bool" where
  "all_same xs = list_all (eq_no_pid (hd xs)) xs"

definition is_stuck_repeating_action_observation ::
  "event list \<Rightarrow> event list \<Rightarrow> event list \<Rightarrow> nat \<Rightarrow> stuck_analysis option" where
  "is_stuck_repeating_action_observation last_actions last_observations filtered offset =
     (if length last_actions = 4 \<and> length last_observations = 4 \<and> all_same last_actions \<and> all_same last_observations
      then Some (analysis ''repeating_action_observation'' 4 (index_of (last last_actions) filtered + offset)) else None)"

definition SYNTAX_ERROR_MESSAGES :: "string list" where
  "SYNTAX_ERROR_MESSAGES =
     [''SyntaxError: unterminated string literal (detected at line'',
      ''SyntaxError: invalid syntax. Perhaps you forgot a comma?'',
      ''SyntaxError: incomplete input'']"

definition output_lines :: "event \<Rightarrow> string list" where
  "output_lines e = split_char nl (strip (event_text e ''content''))"

text \<open>\<open>xs[-k]\<close> of a list that is long enough.\<close>

definition nth_last :: "nat \<Rightarrow> 'a list \<Rightarrow> 'a" where
  "nth_last k xs = xs ! (length xs - k)"

definition jupyter_footer :: "string list \<Rightarrow> bool" where
  "jupyter_footer ls \<longleftrightarrow> prefix ''[Jupyter Python interpreter:'' (nth_last 1 ls)
     \<and> prefix ''[Jupyter current working directory:'' (nth_last 2 ls)"

definition one_value :: "'a list \<Rightarrow> bool" where
  "one_value xs \<longleftrightarrow> length (remdups xs) = 1"

definition check_for_consistent_invalid_syntax :: "event list \<Rightarrow> string \<Rightarrow> bool" where
  "check_for_consistent_invalid_syntax observations msg =
     (let outs = map output_lines observations;
          valid = filter (\<lambda>ls. jupyter_footer ls \<and> contains msg (nth_last 3 ls)) outs
      in list_all (\<lambda>ls. 6 \<le> length ls \<and> prefix ''Cell In[1], line'' (strip (hd ls))) outs
         \<and> one_value (map (\<lambda>ls. strip (hd ls)) outs) \<and> length valid = 3 \<and> one_value (map (nth_last 3) valid))"

definition check_for_consistent_line_error :: "event list \<Rightarrow> string \<Rightarrow> bool" where
  "check_for_consistent_line_error observations msg =
     (let outs = map output_lines observations;
          error_lines = filter (contains msg) (map (nth_last 3) outs)
      in list_all (\<lambda>ls. 3 \<le> length ls \<and> jupyter_footer ls) outs \<and> length error_lines = 3 \<and> one_value error_lines)"

definition consistent_syntax_error :: "event list \<Rightarrow> string \<Rightarrow> bool" where
  "consistent_syntax_error observations msg =
     (if prefix ''SyntaxError: unterminated string literal (detected at line'' msg
      then check_for_consistent_line_error observations msg
      else msg \<in> {''SyntaxError: invalid syntax. Perhaps you forgot a comma?'', ''SyntaxError: incomplete input''}
        \<and> check_for_consistent_invalid_syntax observations msg)"

definition is_stuck_repeating_action_error ::
  "event list \<Rightarrow> event list \<Rightarrow> event list \<Rightarrow> nat \<Rightarrow> stuck_analysis option" where
  "is_stuck_repeating_action_error last_actions last_observations filtered offset =
     (let obs = take 3 last_observations in
      if length last_actions < 3 \<or> length last_observations < 3 then None
      else if list_all (eq_no_pid (hd last_actions)) (take 3 last_actions)
        \<and> (list_all (is_o ErrorObservation) obs
           \<or> list_all (is_o IPythonRunCellObservation) obs \<and> list_ex (consistent_syntax_error obs) SYNTAX_ERROR_MESSAGES)
      then Some (analysis ''repeating_action_error'' 3 (index_of (last last_actions) filtered + offset)) else None)"

definition is_stuck_monologue :: "event list \<Rightarrow> nat \<Rightarrow> stuck_analysis option" where
  "is_stuck_monologue filtered offset =
     (let msgs = filter (\<lambda>(i, e). from_agent e) (enumerate 0 filtered) in
      if length msgs < 3 then None
      else let last_three = drop (length msgs - 3) msgs;
               start_index = fst (hd last_three); end_index = fst (last last_three)
           in if list_all (\<lambda>(i, e). event_eq (snd (hd last_three)) e) last_three
                \<and> \<not> list_ex is_observation (drop (start_index + 1) (take end_index filtered))
              then Some (analysis ''monologue'' 3 (start_index + offset)) else None)"

definition is_stuck_action_observation_pattern :: "event list \<Rightarrow> nat \<Rightarrow> stuck_analysis option" where
  "is_stuck_action_observation_pattern filtered offset =
     (let (as, os) = collect_last 6 [] [] (rev filtered);
          alternate = (\<lambda>xs. eq_no_pid (xs ! 0) (xs ! 2) \<and> eq_no_pid (xs ! 0) (xs ! 4)
            \<and> eq_no_pid (xs ! 1) (xs ! 3) \<and> eq_no_pid (xs ! 1) (xs ! 5))
      in if length as = 6 \<and> length os = 6 \<and> alternate as \<and> alternate os
         then Some (analysis ''repeating_action_observation_pattern'' 3 (index_of (last as) filtered + offset)) else None)"

definition is_stuck_context_window_error :: "event list \<Rightarrow> nat \<Rightarrow> stuck_analysis option" where
  "is_stuck_context_window_error filtered offset =
     (let idx = map fst (filter (\<lambda>(i, e). is_o AgentCondensationObservation e) (enumerate 0 filtered));
          last_ten = drop (length idx - 10) idx;
          adjacent = (\<lambda>(i, j). list_all (is_o AgentCondensationObservation) (drop (i + 1) (take j filtered)))
      in if length idx < 10 then None
         else case find adjacent (zip last_ten (List.tl last_ten)) of
             None \<Rightarrow> None
           | Some (i, j) \<Rightarrow> Some (analysis ''context_window_error'' 2 (i + offset)))"

definition filtered_history :: "event list \<Rightarrow> event list" where
  "filtered_history es = filter (\<lambda>e. \<not> (from_user e \<or> is_a NullAction e \<or> is_o NullObservation e)) es"

text \<open>The history after the last user message, and where it starts.\<close>

definition after_last_user :: "event list \<Rightarrow> nat \<times> event list" where
  "after_last_user es = (let rest = rev (takeWhile (\<lambda>e. \<not> from_user e) (rev es)) in (length es - length rest, rest))"

definition find_loop :: "event list \<Rightarrow> nat \<Rightarrow> stuck_analysis option" where
  "find_loop filtered offset =
     (let (as, os) = collect_last 4 [] [] (rev filtered) in
      case is_stuck_repeating_action_observation as os filtered offset of
        Some a \<Rightarrow> Some a
      | None \<Rightarrow>
      (case is_stuck_repeating_action_error as os filtered offset of
        Some a \<Rightarrow> Some a
      | None \<Rightarrow>
      (case is_stuck_monologue filtered offset of
        Some a \<Rightarrow> Some a
      | None \<Rightarrow>
      (case (if 6 \<le> length filtered then is_stuck_action_observation_pattern filtered offset else None) of
        Some a \<Rightarrow> Some a
      | None \<Rightarrow> if 10 \<le> length filtered then is_stuck_context_window_error filtered offset else None))))"

definition is_stuck :: "bool \<Rightarrow> event list \<Rightarrow> stuck_analysis option \<Rightarrow> bool \<times> stuck_analysis option" where
  "is_stuck headless_mode history old =
     (let (offset, to_check) = (if headless_mode then (0, history) else after_last_user history);
          filtered = filtered_history to_check
      in if length filtered < 3 then (False, old)
         else case find_loop filtered offset of None \<Rightarrow> (False, None) | Some a \<Rightarrow> (True, Some a))"

section \<open>Lemmas\<close>

lemma is_observation_iff: "is_observation e \<longleftrightarrow> \<not> is_action e"
  by (cases "e_class e") (simp_all add: is_action_def is_observation_def)

lemma collect_last_eq:
  assumes "length as \<le> n" and "length os \<le> n"
  shows "collect_last n as os es = (as @ take (n - length as) (filter is_action es), os @ take (n - length os) (filter is_observation es))"
  using assms
proof (induction es arbitrary: as os)
  case (Cons e es)
  have t: "take (n - length xs) (x # zs) = x # take (n - Suc (length xs)) zs" if "length xs < n" for xs zs :: "event list" and x
    using that by (cases "n - length xs") (simp_all add: Suc_diff_Suc diff_Suc)
  show ?case using Cons.prems by (auto simp: Let_def is_observation_iff Cons.IH t)
qed simp

lemma event_eq_refl [simp]: "event_eq e e"
  by (simp add: event_eq_def)

lemma index_of_less: "x \<in> set es \<Longrightarrow> index_of x es < length es"
  by (induction es) auto

lemma index_of_first: "j < length es \<Longrightarrow> event_eq (es ! j) x \<Longrightarrow> index_of x es \<le> j"
proof (induction es arbitrary: j)
  case (Cons e es)
  then show ?case by (cases j) auto
qed simp

lemma after_last_user_split:
  assumes "from_user u" and "list_all (\<lambda>e. \<not> from_user e) rest"
  shows "after_last_user (h @ u # rest) = (length h + 1, rest)"
proof -
  have "takeWhile (\<lambda>e. \<not> from_user e) (rev rest @ u # rev h) = rev rest"
    using assms by (subst takeWhile_append2) (auto simp: list_all_iff)
  then show ?thesis by (simp add: after_last_user_def Let_def)
qed

lemma after_last_user_suffix: "\<exists>pre. es = pre @ snd (after_last_user es) \<and> fst (after_last_user es) = length pre"
proof -
  let ?p = "\<lambda>e. \<not> from_user e"
  have "es = rev (dropWhile ?p (rev es)) @ rev (takeWhile ?p (rev es))"
    by (metis rev_append rev_rev_ident takeWhile_dropWhile_id)
  moreover have "length es = length (dropWhile ?p (rev es)) + length (takeWhile ?p (rev es))"
    by (metis add.commute length_append length_rev takeWhile_dropWhile_id)
  ultimately show ?thesis by (intro exI [of _ "rev (dropWhile ?p (rev es))"]) (simp add: after_last_user_def Let_def)
qed

text \<open>The offset only moves the index that is reported.\<close>

definition shifted :: "nat \<Rightarrow> stuck_analysis \<Rightarrow> stuck_analysis" where
  "shifted k a = a\<lparr>loop_start_idx := loop_start_idx a + k\<rparr>"

lemma find_loop_shift: "find_loop es k = map_option (shifted k) (find_loop es 0)"
proof -
  have 1: "is_stuck_repeating_action_observation as os es k = map_option (shifted k) (is_stuck_repeating_action_observation as os es 0)" for as os
    by (simp add: is_stuck_repeating_action_observation_def analysis_def shifted_def)
  have 2: "is_stuck_repeating_action_error as os es k = map_option (shifted k) (is_stuck_repeating_action_error as os es 0)" for as os
    by (auto simp: is_stuck_repeating_action_error_def analysis_def shifted_def Let_def)
  have 3: "is_stuck_monologue es k = map_option (shifted k) (is_stuck_monologue es 0)"
    by (simp add: is_stuck_monologue_def analysis_def shifted_def Let_def)
  have 4: "is_stuck_action_observation_pattern es k = map_option (shifted k) (is_stuck_action_observation_pattern es 0)"
    by (simp add: is_stuck_action_observation_pattern_def analysis_def shifted_def Let_def split: prod.splits)
  have 5: "is_stuck_context_window_error es k = map_option (shifted k) (is_stuck_context_window_error es 0)"
    by (simp add: is_stuck_context_window_error_def analysis_def shifted_def Let_def split: option.splits prod.splits)
  show ?thesis
    unfolding find_loop_def Let_def 1 2 3 4 5 by (auto split: prod.splits option.splits)
qed

lemma find_in_set: "find P xs = Some x \<Longrightarrow> x \<in> set xs"
  by (auto simp: find_Some_iff)

text \<open>Where a loop starts is a position of the history that was searched.\<close>

lemma find_loop_index:
  assumes "find_loop es 0 = Some a"
  shows "loop_start_idx a < length es"
proof -
  have c: "collect_last n [] [] (rev es) = (take n (filter is_action (rev es)), take n (filter is_observation (rev es)))" for n
    using collect_last_eq [of "[]" n "[]" "rev es"] by simp
  have in_es: "last (take n (filter is_action (rev es))) \<in> set es" if "take n (filter is_action (rev es)) \<noteq> []" for n
    using in_set_takeD [OF last_in_set [OF that]] by simp
  have idx [simp]: "loop_start_idx (analysis t n i) = i" for t n i by (simp add: analysis_def)
  have ro: "as \<noteq> [] \<and> loop_start_idx a = index_of (last as) es" if "is_stuck_repeating_action_observation as os es 0 = Some a" for as os
  proof (rule ccontr)
    assume n: "\<not> ?thesis"
    let ?c = "length as = 4 \<and> length os = 4 \<and> all_same as \<and> all_same os"
    have "?c" using that by (simp add: is_stuck_repeating_action_observation_def del: length_0_conv split: if_splits)
    then show False using n that by (auto simp: is_stuck_repeating_action_observation_def)
  qed
  have re: "as \<noteq> [] \<and> loop_start_idx a = index_of (last as) es" if "is_stuck_repeating_action_error as os es 0 = Some a" for as os
  proof -
    have "\<not> length as < 3" using that by (auto simp: is_stuck_repeating_action_error_def Let_def)
    moreover have "Some a = Some (analysis ''repeating_action_error'' 3 (index_of (last as) es + 0))"
      using that unfolding is_stuck_repeating_action_error_def Let_def by (metis option.distinct(1))
    ultimately show ?thesis by auto
  qed
  have i: "index_of (last (take n (filter is_action (rev es)))) es < length es" if "take n (filter is_action (rev es)) \<noteq> []" for n
    by (rule index_of_less [OF in_es [OF that]])
  let ?as = "take 4 (filter is_action (rev es))" and ?os = "take 4 (filter is_observation (rev es))"
  have 1: "loop_start_idx a < length es"
    if "is_stuck_repeating_action_observation ?as ?os es 0 = Some a \<or> is_stuck_repeating_action_error ?as ?os es 0 = Some a"
    using that ro [of ?as ?os] re [of ?as ?os] i [of 4] by metis
  have 4: "loop_start_idx a < length es" if p: "is_stuck_action_observation_pattern es 0 = Some a"
  proof -
    let ?six = "take 6 (filter is_action (rev es))"
    have "length ?six = 6" "loop_start_idx a = index_of (last ?six) es"
      using p unfolding is_stuck_action_observation_pattern_def c Let_def prod.case analysis_def
      by (metis (no_types, lifting) option.discI, metis (no_types, lifting) add_0_right option.discI option.inject stuck_analysis.select_convs(3))
    then show ?thesis using i [of 6] by (metis list.size(3) zero_neq_numeral)
  qed
  have en: "fst x < length es" if "x \<in> set (filter P (enumerate 0 es))" for x and P
    using that by (auto simp: in_set_enumerate_eq)
  have 3: "loop_start_idx a < length es" if m: "is_stuck_monologue es 0 = Some a"
  proof -
    let ?m = "filter (\<lambda>(i, e). from_agent e) (enumerate 0 es)"
    have l: "\<not> length ?m < 3" and a: "loop_start_idx a = fst (hd (drop (length ?m - 3) ?m))"
      using m by (auto simp: is_stuck_monologue_def Let_def analysis_def split: if_splits)
    then have "hd (drop (length ?m - 3) ?m) \<in> set ?m" by (intro in_set_dropD [OF hd_in_set]) simp
    with a en show ?thesis by metis
  qed
  have 5: "loop_start_idx a < length es" if w: "is_stuck_context_window_error es 0 = Some a"
  proof -
    let ?idx = "map fst (filter (\<lambda>(i, e). is_o AgentCondensationObservation e) (enumerate 0 es))"
    let ?ten = "drop (length ?idx - 10) ?idx"
    let ?adj = "\<lambda>(i, j). list_all (is_o AgentCondensationObservation) (drop (i + 1) (take j es))"
    have "find ?adj (zip ?ten (List.tl ?ten)) \<noteq> None"
    proof
      assume n: "find ?adj (zip ?ten (List.tl ?ten)) = None"
      show False using w unfolding is_stuck_context_window_error_def Let_def n by (simp split: if_splits)
    qed
    then obtain i j where f: "find ?adj (zip ?ten (List.tl ?ten)) = Some (i, j)" by auto
    then have "Some a = Some (analysis ''context_window_error'' 2 (i + 0))"
      using w unfolding is_stuck_context_window_error_def Let_def f by (simp split: if_splits)
    moreover have "(i, j) \<in> set (zip ?ten (List.tl ?ten))" by (rule find_in_set [OF f])
    ultimately have "(i, j) \<in> set (zip ?ten (List.tl ?ten))" "loop_start_idx a = i" by simp_all
    then have "i \<in> set ?idx" by (meson in_set_dropD set_zip_leftD)
    then show ?thesis using en \<open>loop_start_idx a = i\<close> by auto
  qed
  show ?thesis
    using assms 1 3 4 5 unfolding find_loop_def c Let_def by (auto split: option.splits if_splits)
qed

section \<open>Properties\<close>

text \<open>A loop that is reported starts inside the history, so the position to recover to is a position of it.\<close>

theorem loop_start_in_history:
  assumes "is_stuck headless history old = (True, an)"
  shows "\<exists>a. an = Some a \<and> loop_start_idx a < length history"
proof -
  obtain pre rest where h: "history = pre @ rest"
    and s: "(if headless then (0, history) else after_last_user history) = (length pre, rest)"
  proof (cases headless)
    case True
    then show thesis using that [of "[]" history] by simp
  next
    case False
    then show thesis using that after_last_user_suffix [of history] by (metis prod.collapse)
  qed
  obtain a where f: "find_loop (filtered_history rest) (length pre) = Some a" and an: "an = Some a"
    using assms unfolding is_stuck_def s by (auto simp: Let_def split: if_splits option.splits)
  then obtain b where "find_loop (filtered_history rest) 0 = Some b" "a = shifted (length pre) b"
    using find_loop_shift [of "filtered_history rest" "length pre"] by auto
  moreover have "length (filtered_history rest) \<le> length rest" by (simp add: filtered_history_def)
  ultimately show ?thesis using find_loop_index [of "filtered_history rest" b] h an by (simp add: shifted_def)
qed

definition demo_act :: event where
  "demo_act = make_act CmdRunAction [(''command'', PStr ''ls'')]"

definition demo_obs :: event where
  "demo_obs = make_obs CmdOutputObservation [(''content'', PStr ''x''), (''command'', PStr ''ls''), (''metadata'', PDict [(''exit_code'', PInt 0)])]"

definition demo_loop :: "event list" where
  "demo_loop = concat (replicate 4 [demo_act, demo_obs])"

theorem loop_start_in_history_witness:
  "\<exists>a. is_stuck True demo_loop None = (True, Some a) \<and> loop_start_idx a < length demo_loop"
proof -
  have "fst (is_stuck True demo_loop None)" by code_simp
  then obtain an where "is_stuck True demo_loop None = (True, an)" by (metis prod.collapse)
  with loop_start_in_history [OF this] show ?thesis by auto
qed

text \<open>In interactive mode a user message starts the search afresh: the answer is the one for the events after it, in headless
  mode, with the position moved by the events before.\<close>

theorem user_message_restarts_detection:
  assumes "from_user u" and "list_all (\<lambda>e. \<not> from_user e) rest"
  shows "is_stuck False (h @ u # rest) old =
    (case is_stuck True rest old of
       (False, an) \<Rightarrow> (False, an)
     | (True, an) \<Rightarrow> (True, map_option (shifted (length h + 1)) an))"
  using find_loop_shift [of "filtered_history rest" "length h + 1"]
  by (simp add: is_stuck_def after_last_user_split [OF assms] Let_def split: option.splits)

definition demo_user :: event where
  "demo_user = (make_act MessageAction [(''content'', PStr ''go on'')])\<lparr>e_source := Some USER_SOURCE\<rparr>"

theorem user_message_restarts_detection_witness: "\<not> fst (is_stuck False (demo_loop @ demo_user # [demo_act, demo_obs]) None)"
proof -
  have "from_user demo_user" "list_all (\<lambda>e. \<not> from_user e) [demo_act, demo_obs]" by code_simp+
  from user_message_restarts_detection [OF this, of demo_loop None] show ?thesis by (simp add: is_stuck_def filtered_history_def Let_def)
qed

text \<open>The events of a history the detector looks at.\<close>

definition agent_event :: "event \<Rightarrow> bool" where
  "agent_event e \<longleftrightarrow> \<not> (from_user e \<or> is_a NullAction e \<or> is_o NullObservation e)"

lemma filtered_agent: "list_all agent_event xs \<Longrightarrow> filtered_history (h @ xs) = filtered_history h @ xs"
  by (auto simp: filtered_history_def agent_event_def list_all_iff filter_id_conv)

lemma no_user: "list_all agent_event xs \<Longrightarrow> takeWhile (\<lambda>e. \<not> from_user e) (rev (h @ xs)) = rev xs @ takeWhile (\<lambda>e. \<not> from_user e) (rev h)"
  by (simp, subst takeWhile_append2) (auto simp: list_all_iff agent_event_def)

lemma stuck_on_suffix:
  assumes "list_all agent_event xs" and "\<And>pre. find_loop (pre @ xs) 0 \<noteq> None" and "3 \<le> length xs"
  shows "fst (is_stuck headless (h @ xs) old)"
proof -
  obtain k h' where s: "(if headless then (0, h @ xs) else after_last_user (h @ xs)) = (k, h' @ xs)"
    using no_user [OF assms(1), of h] by (cases headless) (auto simp: after_last_user_def Let_def)
  have "find_loop (filtered_history h' @ xs) k \<noteq> None" using assms(2) find_loop_shift [of "filtered_history h' @ xs" k] by simp
  then show ?thesis using assms(1,3) unfolding is_stuck_def s by (auto simp: Let_def filtered_agent)
qed

lemma find_loop_four:
  assumes "length as = 4" and "length os = 4" and "all_same as" and "all_same os"
    and "collect_last 4 [] [] (rev es) = (as, os)"
  shows "find_loop es 0 = Some (analysis ''repeating_action_observation'' 4 (index_of (last as) es))"
  using assms by (simp add: find_loop_def is_stuck_repeating_action_observation_def)



text \<open>The position reported for such a loop is the first event of the history that equals the action four steps back, which can
  lie long before the loop: an agent that ran the same command once at the start is reset to the start.\<close>

theorem loop_start_is_first_equal:
  assumes "list_all agent_event [a1, o1, a2, o2, a3, o3, a4, o4]"
    and "list_all is_action [a1, a2, a3, a4]" and "list_all is_observation [o1, o2, o3, o4]"
    and "list_all (eq_no_pid a4) [a4, a3, a2, a1]" and "list_all (eq_no_pid o4) [o4, o3, o2, o1]"
    and "j < length (filtered_history h)" and "event_eq (filtered_history h ! j) a1"
  shows "\<exists>a. is_stuck True (h @ [a1, o1, a2, o2, a3, o3, a4, o4]) old = (True, Some a) \<and> loop_start_idx a \<le> j"
proof -
  let ?xs = "[a1, o1, a2, o2, a3, o3, a4, o4]"
  have "collect_last 4 [] [] (rev (filtered_history h @ ?xs)) = ([a4, a3, a2, a1], [o4, o3, o2, o1])"
    using assms(2,3) by (simp add: collect_last_eq is_observation_iff)
  from find_loop_four [OF _ _ _ _ this] assms(4,5)
  have "find_loop (filtered_history h @ ?xs) 0 = Some (analysis ''repeating_action_observation'' 4 (index_of a1 (filtered_history h @ ?xs)))"
    by (simp add: all_same_def)
  moreover have "index_of a1 (filtered_history h @ ?xs) \<le> j" using assms(6,7) by (intro index_of_first) (simp_all add: nth_append)
  ultimately show ?thesis using filtered_agent [OF assms(1), of h] by (simp add: is_stuck_def Let_def analysis_def)
qed

theorem loop_start_is_first_equal_witness:
  "\<exists>a. is_stuck True (demo_act # demo_obs # replicate 20 (make_act AgentThinkAction []) @ demo_loop) None = (True, Some a) \<and> loop_start_idx a = 0"
proof -
  have c: "list_all agent_event [demo_act, demo_obs]" "is_action demo_act" "is_observation demo_obs"
    "eq_no_pid demo_act demo_act" "eq_no_pid demo_obs demo_obs" "filtered_history (demo_act # demo_obs # replicate 20 (make_act AgentThinkAction [])) \<noteq> []"
    "event_eq (filtered_history (demo_act # demo_obs # replicate 20 (make_act AgentThinkAction [])) ! 0) demo_act" by code_simp+
  then show ?thesis
    using loop_start_is_first_equal [of demo_act demo_obs demo_act demo_obs demo_act demo_obs demo_act demo_obs 0
      "demo_act # demo_obs # replicate 20 (make_act AgentThinkAction [])" None]
    by (simp add: demo_loop_def numeral_nat)
qed

lemma find_loop_pattern: "is_stuck_action_observation_pattern es 0 \<noteq> None \<Longrightarrow> 6 \<le> length es \<Longrightarrow> find_loop es 0 \<noteq> None"
  by (cases "collect_last 4 [] [] (rev es)") (auto simp: find_loop_def split: option.splits)

text \<open>A loop of two steps is always found as well: three rounds of two alternating steps after any history are reported.\<close>

theorem alternating_steps_detected:
  assumes "list_all agent_event [a1, o1, b1, p1, a2, o2, b2, p2, a3, o3, b3, p3]"
    and "list_all is_action [a1, b1, a2, b2, a3, b3]" and "list_all is_observation [o1, p1, o2, p2, o3, p3]"
    and "list_all (eq_no_pid a3) [a2, a1]" and "list_all (eq_no_pid b3) [b2, b1]"
    and "list_all (eq_no_pid o3) [o2, o1]" and "list_all (eq_no_pid p3) [p2, p1]"
  shows "fst (is_stuck headless (h @ [a1, o1, b1, p1, a2, o2, b2, p2, a3, o3, b3, p3]) old)"
proof (rule stuck_on_suffix [OF assms(1)])
  fix pre
  let ?xs = "[a1, o1, b1, p1, a2, o2, b2, p2, a3, o3, b3, p3]"
  have "collect_last 6 [] [] (rev (pre @ ?xs)) = ([b3, a3, b2, a2, b1, a1], [p3, o3, p2, o2, p1, o1])"
    using assms(2,3) by (simp add: collect_last_eq is_observation_iff)
  then have "is_stuck_action_observation_pattern (pre @ ?xs) 0 \<noteq> None"
    using assms(4-7) by (simp add: is_stuck_action_observation_pattern_def Let_def)
  then show "find_loop (pre @ ?xs) 0 \<noteq> None" by (rule find_loop_pattern) simp
qed simp

definition demo_think :: event where
  "demo_think = make_act IPythonRunCellAction [(''code'', PStr ''1'')]"

theorem alternating_steps_detected_witness: "fst (is_stuck True (concat (replicate 3 [demo_act, demo_obs, demo_think, demo_obs])) None)"
proof -
  have "list_all agent_event [demo_act, demo_obs, demo_think]" "is_action demo_act" "is_action demo_think" "is_observation demo_obs"
    "eq_no_pid demo_act demo_act" "eq_no_pid demo_obs demo_obs" "eq_no_pid demo_think demo_think" by code_simp+
  then show ?thesis
    using alternating_steps_detected [of demo_act demo_obs demo_think demo_obs demo_act demo_obs demo_think demo_obs demo_act demo_obs
      demo_think demo_obs True "[]" None]
    by (simp add: numeral_nat)
qed

text \<open>A loop of three steps is never found: the detector compares a step only with the ones before and two before it.\<close>

theorem three_step_loop_missed: "\<not> fst (is_stuck True (concat (replicate 3 [demo_act, demo_obs, demo_think, demo_obs,
    make_act IPythonRunCellAction [(''code'', PStr ''2'')], demo_obs])) None)"
  by code_simp

text \<open>The search for loops of context-window errors looks for condensation observations in the history. They are put into views and
  never added to the stream, and without them nothing is found.\<close>

theorem context_window_loop_never_found:
  assumes "list_all (\<lambda>e. \<not> is_o AgentCondensationObservation e) filtered"
  shows "is_stuck_context_window_error filtered offset = None"
proof -
  have "filter (\<lambda>(i, e). is_o AgentCondensationObservation e) (enumerate 0 filtered) = []"
    using assms by (auto simp: filter_empty_conv in_set_enumerate_eq list_all_iff)
  then show ?thesis by (simp add: is_stuck_context_window_error_def)
qed

theorem context_window_loop_never_found_witness: "is_stuck_context_window_error demo_loop 0 = None"
proof (rule context_window_loop_never_found)
  show "list_all (\<lambda>e. \<not> is_o AgentCondensationObservation e) demo_loop" by code_simp
qed

end
