(* ===== verification/Replay.thy ===== *)
theory Replay
  imports Event_Serial
begin

text \<open>
  Replaying a recorded trajectory: \<open>controller/replay.py\<close>.
\<close>

record replay_manager =
  replay_events :: "event list"
  replay_mode :: bool
  replay_index :: nat

definition replayed :: "event \<Rightarrow> bool" where
  "replayed e \<longleftrightarrow> e_source e \<noteq> Some ENVIRONMENT_SOURCE \<and> \<not> is_o NullObservation e"

definition no_wait :: "event \<Rightarrow> event" where
  "no_wait e = (if is_a MessageAction e \<and> py_truthy (get_attr e ''wait_for_response'' PNone)
     then set_attr ''wait_for_response'' (PBool False) e else e)"

definition new_replay :: "event list option \<Rightarrow> replay_manager" where
  "new_replay events =
     (let es = filter replayed (case events of None \<Rightarrow> [] | Some es \<Rightarrow> es);
          es = (if es = [] then [] else map no_wait (butlast es) @ [last es])
      in \<lparr>replay_events = es, replay_mode = (es \<noteq> []), replay_index = 0\<rparr>)"

definition replayable :: "replay_manager \<Rightarrow> bool" where
  "replayable m \<longleftrightarrow> replay_index m < length (replay_events m) \<and> is_action (replay_events m ! replay_index m)"

function next_index :: "event list \<Rightarrow> nat \<Rightarrow> nat" where
  "next_index es i = (if i < length es \<and> \<not> is_action (es ! i) then next_index es (i + 1) else i)"
  by pat_completeness auto
termination by (relation "measure (\<lambda>(es, i). length es - i)") auto

declare next_index.simps [simp del]

definition should_replay :: "replay_manager \<Rightarrow> bool \<times> replay_manager" where
  "should_replay m =
     (if \<not> replay_mode m then (False, m)
      else let m = m\<lparr>replay_index := next_index (replay_events m) (replay_index m)\<rparr> in (replayable m, m))"

definition replay_step :: "replay_manager \<Rightarrow> event res \<times> replay_manager" where
  "replay_step m =
     (if length (replay_events m) \<le> replay_index m then (Inl (OtherError ''IndexError'' ''list index out of range''), m)
      else let e = replay_events m ! replay_index m in
        if \<not> is_action e then (Inl (OtherError ''AssertionError'' []), m)
        else (Inr e, m\<lparr>replay_index := replay_index m + 1\<rparr>))"

fun get_replay_events :: "codec \<Rightarrow> payload list \<Rightarrow> event list res" where
  "get_replay_events cd [] = Inr []"
| "get_replay_events cd (item # items) =
     res_bind (event_from_dict cd item) (\<lambda>e.
       res_map (\<lambda>es. if e_source e = Some ENVIRONMENT_SOURCE then es else e\<lparr>e_id := None\<rparr> # es) (get_replay_events cd items))"

section \<open>Properties\<close>

text \<open>What a controller gets out of a manager that it asks again and again, for at most \<open>n\<close> steps.\<close>

fun replay_run :: "nat \<Rightarrow> replay_manager \<Rightarrow> event list \<times> replay_manager" where
  "replay_run 0 m = ([], m)"
| "replay_run (Suc n) m =
     (case should_replay m of
        (False, m) \<Rightarrow> ([], m)
      | (True, m) \<Rightarrow>
          (case replay_step m of
             (Inl _, m) \<Rightarrow> ([], m)
           | (Inr e, m) \<Rightarrow> let (es, m) = replay_run n m in (e # es, m)))"

lemma next_index_split: "i \<le> length es \<Longrightarrow>
  i \<le> next_index es i \<and> next_index es i \<le> length es \<and> filter is_action (drop i es) = filter is_action (drop (next_index es i) es)
  \<and> (next_index es i < length es \<longrightarrow> is_action (es ! next_index es i))"
proof (induction es i rule: next_index.induct)
  case (1 es i)
  show ?case
  proof (cases "i < length es \<and> \<not> is_action (es ! i)")
    case True
    then have "next_index es i = next_index es (i + 1)" by (subst next_index.simps) simp
    moreover have "filter is_action (drop i es) = filter is_action (drop (i + 1) es)"
      using True by (simp add: Cons_nth_drop_Suc [symmetric])
    ultimately show ?thesis using 1 True by simp
  next
    case False
    then have "next_index es i = i" by (subst next_index.simps) (simp only: if_False)
    then show ?thesis using False 1(2) by auto
  qed
qed

lemma replay_run_actions:
  assumes "replay_mode m" and "replay_index m \<le> length (replay_events m)"
    and "length (filter is_action (drop (replay_index m) (replay_events m))) \<le> n"
  shows "fst (replay_run (Suc n) m) = filter is_action (drop (replay_index m) (replay_events m))"
  using assms
proof (induction n arbitrary: m)
  case (0 m)
  let ?i = "next_index (replay_events m) (replay_index m)"
  note s = next_index_split [OF 0(2)]
  have "\<not> ?i < length (replay_events m)"
  proof
    assume "?i < length (replay_events m)"
    then have "filter is_action (drop ?i (replay_events m)) \<noteq> []" using s by (simp add: Cons_nth_drop_Suc [symmetric])
    then show False using 0(3) s by simp
  qed
  then show ?case using 0(3) by (simp add: should_replay_def Let_def 0(1) replayable_def)
next
  case (Suc n m)
  let ?es = "replay_events m" and ?i = "next_index (replay_events m) (replay_index m)"
  note s = next_index_split [OF Suc.prems(2)]
  show ?case
  proof (cases "?i < length ?es")
    case True
    let ?m = "m\<lparr>replay_index := ?i + 1\<rparr>"
    have f: "filter is_action (drop (replay_index m) ?es) = (?es ! ?i) # filter is_action (drop (Suc ?i) ?es)"
    proof -
      have "filter is_action (drop (replay_index m) ?es) = filter is_action (drop ?i ?es)" using s by (elim conjE)
      also have "\<dots> = filter is_action ((?es ! ?i) # drop (Suc ?i) ?es)" by (simp only: Cons_nth_drop_Suc [OF True])
      finally show ?thesis using s True by simp
    qed
    have "fst (replay_run (Suc n) ?m) = filter is_action (drop (Suc ?i) ?es)"
      using Suc.IH [of ?m] Suc.prems True f by simp
    moreover have "should_replay m = (True, m\<lparr>replay_index := ?i\<rparr>)" "replay_step (m\<lparr>replay_index := ?i\<rparr>) = (Inr (?es ! ?i), ?m)"
      using True s Suc.prems(1) by (simp_all add: should_replay_def replayable_def replay_step_def Let_def)
    ultimately show ?thesis
      using f by (simp only: replay_run.simps(2) [of "Suc n"]) (simp del: replay_run.simps add: Let_def case_prod_unfold)
  next
    case False
    then have "filter is_action (drop (replay_index m) ?es) = []" using s by simp
    then show ?thesis using False Suc.prems(1) by (simp add: should_replay_def Let_def replayable_def)
  qed
qed

text \<open>A trajectory is replayed completely and in order: asked often enough, the manager hands out exactly the actions of the
  trajectory that do not come from the environment, and nothing else. Messages are among them, those of the user too.\<close>

theorem replay_hands_out_actions:
  assumes "length es \<le> n"
  shows "map e_class (fst (replay_run (Suc n) (new_replay (Some es))))
    = map e_class (filter (\<lambda>e. is_action e \<and> e_source e \<noteq> Some ENVIRONMENT_SOURCE) es)"
proof -
  let ?es = "filter replayed es" and ?m = "new_replay (Some es)"
  have c: "e_class (no_wait e) = e_class e" for e by (simp add: no_wait_def set_attr_def)
  have cm: "map e_class (replay_events ?m) = map e_class ?es"
    by (cases ?es rule: rev_cases) (simp_all add: new_replay_def Let_def c)
  have a: "map e_class (filter is_action xs) = filter (\<lambda>c. case c of Act _ \<Rightarrow> True | Obs _ \<Rightarrow> False) (map e_class xs)" for xs
    by (induction xs) (simp_all add: is_action_def)
  have eq: "map e_class (filter is_action (replay_events ?m)) = map e_class (filter (\<lambda>e. is_action e \<and> e_source e \<noteq> Some ENVIRONMENT_SOURCE) es)"
  proof -
    have "filter is_action ?es = filter (\<lambda>e. is_action e \<and> e_source e \<noteq> Some ENVIRONMENT_SOURCE) es"
      by (auto simp: replayed_def is_action_def is_o_def intro!: filter_cong)
    then show ?thesis using a cm by metis
  qed
  show ?thesis
  proof (cases "?es = []")
    case True
    then have "replay_events ?m = []" "\<not> replay_mode ?m" by (simp_all add: new_replay_def)
    then show ?thesis using eq by (simp add: should_replay_def)
  next
    case False
    have "length (replay_events ?m) = length ?es" using cm by (metis length_map)
    then have "length (filter is_action (replay_events ?m)) \<le> n"
      using assms length_filter_le [of is_action "replay_events ?m"] length_filter_le [of replayed es] by linarith
    moreover have "replay_index ?m = 0" "replay_mode ?m" using False by (simp_all add: new_replay_def Let_def)
    ultimately have "fst (replay_run (Suc n) ?m) = filter is_action (replay_events ?m)"
      using replay_run_actions [of ?m n] by simp
    then show ?thesis using eq by simp
  qed
qed

definition demo_trajectory :: "event list" where
  "demo_trajectory = [(make_act MessageAction [(''content'', PStr ''hi''), (''wait_for_response'', PBool True)])\<lparr>e_source := Some USER_SOURCE\<rparr>,
     (make_obs NullObservation [(''content'', PStr [])])\<lparr>e_source := Some AGENT_SOURCE\<rparr>,
     (make_act CmdRunAction [(''command'', PStr ''ls'')])\<lparr>e_source := Some AGENT_SOURCE\<rparr>]"

theorem replay_hands_out_actions_witness:
  "map e_class (fst (replay_run 4 (new_replay (Some demo_trajectory)))) = [Act MessageAction, Act CmdRunAction]"
proof -
  have "length demo_trajectory \<le> 3" "map e_class (filter (\<lambda>e. is_action e \<and> e_source e \<noteq> Some ENVIRONMENT_SOURCE) demo_trajectory)
      = [Act MessageAction, Act CmdRunAction]" by code_simp+
  with replay_hands_out_actions [of demo_trajectory 3] show ?thesis by (simp add: numeral_nat)
qed

end
