(* ===== verification/Agent_Controller.thy ===== *)
theory Agent_Controller
  imports State_Tracker Stuck_Detector Replay
begin

text \<open>
  The controller of an agent: \<open>controller/agent_controller.py\<close>. The world holds the event stream, the limits and costs, the saved
  sessions and the chain of controllers: the root first, then its delegate, then the delegate of that one. An operation on
  the controller at a level of the chain takes the world and returns its result, or the exception it raises, with the world it leaves.
  The agent, its language model, the security analyzer and the classes of the client library are parameters. Coroutines run to their
  end: the handling of one event is one step. Log messages, metrics and prompts are left out.
\<close>

section \<open>Exceptions\<close>

fun exn_class :: "py_exn \<Rightarrow> string" where
  "exn_class (KeyError _) = ''KeyError''"
| "exn_class (ValueError _) = ''ValueError''"
| "exn_class (PermissionError _) = ''PermissionError''"
| "exn_class (TypeError _) = ''TypeError''"
| "exn_class (FileNotFoundError _) = ''FileNotFoundError''"
| "exn_class (OtherError c _) = c"

fun exn_text :: "py_exn \<Rightarrow> string" where
  "exn_text (KeyError s) = [CHR 0x27] @ s @ [CHR 0x27]"
| "exn_text (ValueError s) = s"
| "exn_text (PermissionError s) = s"
| "exn_text (TypeError s) = s"
| "exn_text (FileNotFoundError s) = s"
| "exn_text (OtherError _ s) = s"

section \<open>The world\<close>

text \<open>An agent class with its configuration; \<open>'a\<close> is what an agent object remembers. A step answers with an action, with none, or
  raises, and spends money.\<close>

record 'a agent_spec =
  as_name :: string
  as_init :: 'a
  as_reset :: "'a \<Rightarrow> 'a"
  as_step :: "'a \<Rightarrow> agent_data \<Rightarrow> rat \<Rightarrow> event option res \<times> 'a \<times> rat"
  as_system_message :: "event option"
  as_stuck_detection :: bool
  as_truncation :: bool
  as_cli_mode :: bool

record 'a controller_env =
  en_repr :: "pyval \<Rightarrow> string"
  en_codec :: codec
  en_now :: "int \<Rightarrow> string" \<comment> \<open>the time at which the event with this id is added\<close>
  en_headless :: bool
  en_user_id :: "string option"
  en_file_store :: bool
  en_agents :: "string \<Rightarrow> 'a agent_spec option"
  en_analyzer :: "(event \<Rightarrow> pyval res) option"
  en_isinstance :: "py_exn \<Rightarrow> string \<Rightarrow> bool" \<comment> \<open>for the classes of the client library\<close>
  en_retries_exhausted :: "py_exn \<Rightarrow> bool"

record 'a ctl =
  c_id :: string
  c_sid :: "string option"
  c_agent :: "'a agent_spec"
  c_memory :: 'a
  c_state :: agent_data
  c_pending :: "event option"
  c_stuck :: "stuck_analysis option"
  c_replay :: replay_manager
  c_first_user :: "event option"
  c_confirmation_mode :: bool
  c_callback :: bool
  c_closed :: bool
  c_is_delegate :: bool

record 'a world =
  w_stream :: "string event_stream"
  w_flags :: control_flags
  w_cost :: rat
  w_sessions :: session_files
  w_statuses :: "(string \<times> string) list"
  w_ctls :: "'a ctl list"

type_synonym ('a, 'r) op = "'a world \<Rightarrow> 'r res \<times> 'a world"

definition op_return :: "'r \<Rightarrow> ('a, 'r) op" where
  "op_return x w = (Inr x, w)"

definition op_raise :: "py_exn \<Rightarrow> ('a, 'r) op" where
  "op_raise e w = (Inl e, w)"

definition op_bind :: "('a, 'r) op \<Rightarrow> ('r \<Rightarrow> ('a, 's) op) \<Rightarrow> ('a, 's) op" where
  "op_bind m k w = (case m w of (Inl e, w) \<Rightarrow> (Inl e, w) | (Inr x, w) \<Rightarrow> k x w)"

definition op_then :: "('a, 'r) op \<Rightarrow> ('a, 's) op \<Rightarrow> ('a, 's) op" where
  "op_then m n = op_bind m (\<lambda>_. n)"

definition op_get :: "('a world \<Rightarrow> 'r) \<Rightarrow> ('a, 'r) op" where
  "op_get f w = (Inr (f w), w)"

definition op_modify :: "('a world \<Rightarrow> 'a world) \<Rightarrow> ('a, unit) op" where
  "op_modify f w = (Inr (), f w)"

definition op_when :: "bool \<Rightarrow> ('a, unit) op \<Rightarrow> ('a, unit) op" where
  "op_when b m = (if b then m else op_return ())"

definition op_lift :: "'r res \<Rightarrow> ('a, 'r) op" where
  "op_lift r w = (r, w)"

abbreviation ctl_at :: "'a world \<Rightarrow> nat \<Rightarrow> 'a ctl" where
  "ctl_at w i \<equiv> w_ctls w ! i"

abbreviation state_at :: "'a world \<Rightarrow> nat \<Rightarrow> agent_data" where
  "state_at w i \<equiv> c_state (w_ctls w ! i)"

definition has_delegate :: "nat \<Rightarrow> 'a world \<Rightarrow> bool" where
  "has_delegate i w \<longleftrightarrow> i + 1 < length (w_ctls w)"

definition on_ctl :: "nat \<Rightarrow> ('a ctl \<Rightarrow> 'a ctl) \<Rightarrow> ('a, unit) op" where
  "on_ctl i f = op_modify (\<lambda>w. w\<lparr>w_ctls := (w_ctls w)[i := f (ctl_at w i)]\<rparr>)"

definition on_state :: "nat \<Rightarrow> (agent_data \<Rightarrow> agent_data) \<Rightarrow> ('a, unit) op" where
  "on_state i f = on_ctl i (\<lambda>c. c\<lparr>c_state := f (c_state c)\<rparr>)"

definition in_state :: "'a world \<Rightarrow> nat \<Rightarrow> agent_state \<Rightarrow> bool" where
  "in_state w i s \<longleftrightarrow> ag_state (state_at w i) = agent_state_value s"

section \<open>Events the controller adds\<close>

definition emit :: "'a controller_env \<Rightarrow> event \<Rightarrow> event_source \<Rightarrow> ('a, event) op" where
  "emit env e src w =
     (let (r, e', st) = add_event (en_repr env) (en_codec env) (en_now env (cur_id (w_stream w))) e src (w_stream w);
          w = w\<lparr>w_stream := st\<rparr>
      in (res_map (\<lambda>_. e') r, w))"

definition emit_event :: "'a controller_env \<Rightarrow> event \<Rightarrow> event_source \<Rightarrow> ('a, unit) op" where
  "emit_event env e src = op_then (emit env e src) (op_return ())"

text \<open>Adding the pending action: the object the controller holds is the one the stream stamps, also when it raises.\<close>

definition emit_pending :: "'a controller_env \<Rightarrow> nat \<Rightarrow> event \<Rightarrow> event_source \<Rightarrow> ('a, unit) op" where
  "emit_pending env i e src w =
     (let (r, e', st) = add_event (en_repr env) (en_codec env) (en_now env (cur_id (w_stream w))) e src (w_stream w);
          w = w\<lparr>w_stream := st, w_ctls := (w_ctls w)[i := (ctl_at w i)\<lparr>c_pending := Some e'\<rparr>]\<rparr>
      in (res_map (\<lambda>_. ()) r, w))"

text \<open>\<open>next(e for e in search_events(start_id=...) if P e)\<close>: the search stops at its first result.\<close>

definition search_first :: "codec \<Rightarrow> 'cb event_stream \<Rightarrow> int \<Rightarrow> (event \<Rightarrow> bool) \<Rightarrow> event option res" where
  "search_first cd st start P =
     res_map (\<lambda>es. case es of [] \<Rightarrow> None | e # _ \<Rightarrow> Some e)
       (search_loop cd (\<lambda>_. True) (\<lambda>e. Inr (P e)) (Some 1) st DUMMY_PAGE 0 (search_range st start None False))"

definition add_system_message :: "'a controller_env \<Rightarrow> 'a agent_spec \<Rightarrow> int \<Rightarrow> ('a, unit) op" where
  "add_system_message env agent start =
     op_bind (op_get (\<lambda>w. search_first (en_codec env) (w_stream w) start (\<lambda>e. from_user e \<or> is_a SystemMessageAction e))) (\<lambda>found.
     op_bind (op_lift found) (\<lambda>found.
       case (found, as_system_message agent) of
         (None, Some m) \<Rightarrow> op_when (event_text m ''content'' \<noteq> []) (emit_event env m AGENT_SOURCE)
       | _ \<Rightarrow> op_return ()))"

section \<open>The state machine\<close>

definition save_state :: "'a controller_env \<Rightarrow> nat \<Rightarrow> ('a, unit) op" where
  "save_state env i = op_modify (\<lambda>w.
     case c_sid (ctl_at w i) of
       None \<Rightarrow> w
     | Some sid \<Rightarrow> if sid \<noteq> [] \<and> en_file_store env
         then w\<lparr>w_sessions := save_to_session sid (en_user_id env) (w_flags w) (state_at w i) (w_sessions w)\<rparr> else w)"

definition ERROR_ACTION_NOT_EXECUTED_STOPPED_ID :: string where
  "ERROR_ACTION_NOT_EXECUTED_STOPPED_ID = ''AGENT_ERROR$ERROR_ACTION_NOT_EXECUTED_STOPPED''"
definition ERROR_ACTION_NOT_EXECUTED_ERROR_ID :: string where
  "ERROR_ACTION_NOT_EXECUTED_ERROR_ID = ''AGENT_ERROR$ERROR_ACTION_NOT_EXECUTED_ERROR''"
definition ERROR_ACTION_NOT_EXECUTED_STOPPED :: string where
  "ERROR_ACTION_NOT_EXECUTED_STOPPED = ''Stop button pressed. The action has not been executed.''"
definition ERROR_ACTION_NOT_EXECUTED_ERROR :: string where
  "ERROR_ACTION_NOT_EXECUTED_ERROR = ''The action has not been executed due to a runtime error. The runtime system may have crashed and restarted due to resource constraints. Any previously established system state, dependencies, or environment variables may have been lost.''"

definition not_executed :: "bool \<Rightarrow> event \<Rightarrow> event" where
  "not_executed stopped p =
     (make_obs ErrorObservation
        [(''content'', PStr (if stopped then ERROR_ACTION_NOT_EXECUTED_STOPPED else ERROR_ACTION_NOT_EXECUTED_ERROR)),
         (''error_id'', PStr (if stopped then ERROR_ACTION_NOT_EXECUTED_STOPPED_ID else ERROR_ACTION_NOT_EXECUTED_ERROR_ID))])
     \<lparr>e_tool_call := e_tool_call p, e_cause := Some (event_id p)\<rparr>"

definition reset :: "'a controller_env \<Rightarrow> nat \<Rightarrow> ('a, unit) op" where
  "reset env i =
     op_bind (op_get (\<lambda>w. (c_pending (ctl_at w i), history (state_at w i), in_state w i STOPPED))) (\<lambda>(pending, hist, stopped).
     op_then (case pending of
         None \<Rightarrow> op_return ()
       | Some p \<Rightarrow> op_when (\<not> list_ex (\<lambda>e. is_observation e \<and> e_tool_call e = e_tool_call p) hist)
           (emit_event env (not_executed stopped p) AGENT_SOURCE))
     (on_ctl i (\<lambda>c. c\<lparr>c_pending := None, c_memory := as_reset (c_agent c) (c_memory c)\<rparr>)))"

definition state_changed :: "string \<Rightarrow> string \<Rightarrow> event" where
  "state_changed s reason = make_obs AgentStateChangedObservation [(''content'', PStr []), (''agent_state'', PStr s), (''reason'', PStr reason)]"

text \<open>The pending action with the user's answer.\<close>

definition answered :: "string \<Rightarrow> event \<Rightarrow> event" where
  "answered new_state p =
     (let p = (if has_attr p ''thought'' then set_attr ''thought'' (PStr []) p else p);
          p = set_attr ''confirmation_state'' (if new_state = agent_state_value USER_CONFIRMED then CONFIRMED_ACTION else REJECTED_ACTION) p
      in p\<lparr>e_id := None\<rparr>)"

definition set_agent_state_to :: "'a controller_env \<Rightarrow> nat \<Rightarrow> string \<Rightarrow> ('a, unit) op" where
  "set_agent_state_to env i new_state =
     op_bind (op_get (\<lambda>w. ag_state (state_at w i))) (\<lambda>old_state.
     if new_state = old_state then op_return ()
     else
       op_then (on_state i (\<lambda>s. s\<lparr>ag_state := new_state\<rparr>))
       (op_then (op_when (new_state = agent_state_value STOPPED \<or> new_state = agent_state_value ERROR_STATE) (reset env i))
       (op_then (op_when (old_state = agent_state_value ERROR_STATE \<and> new_state = agent_state_value RUNNING)
          (op_modify (\<lambda>w. w\<lparr>w_flags := maybe_increase_control_flags_limits (en_headless env) (w_flags w)\<rparr>)))
       (op_bind (op_get (\<lambda>w. c_pending (ctl_at w i))) (\<lambda>pending.
        op_then (case pending of
            None \<Rightarrow> op_return ()
          | Some p \<Rightarrow> op_when (new_state = agent_state_value USER_CONFIRMED \<or> new_state = agent_state_value USER_REJECTED)
              (emit_pending env i (answered new_state p) AGENT_SOURCE))
        (op_bind (op_get (\<lambda>w. (ag_state (state_at w i), last_error (state_at w i)))) (\<lambda>(cur, err).
         op_then (emit_event env (state_changed cur (if new_state = agent_state_value ERROR_STATE then err else [])) ENVIRONMENT_SOURCE)
         (save_state env i))))))))"

section \<open>Exceptions of a step\<close>

definition add_status :: "string \<Rightarrow> string \<Rightarrow> ('a, unit) op" where
  "add_status status msg = op_modify (\<lambda>w. w\<lparr>w_statuses := w_statuses w @ [(status, msg)]\<rparr>)"

text \<open>The runtime status for an exception, when it is not the general one.\<close>

definition error_status :: "'a controller_env \<Rightarrow> py_exn \<Rightarrow> string option" where
  "error_status env e =
     (let isa = en_isinstance env e in
      if isa ''AuthenticationError'' then Some ''STATUS$ERROR_LLM_AUTHENTICATION''
      else if isa ''ServiceUnavailableError'' \<or> isa ''APIConnectionError'' \<or> isa ''APIError'' then Some ''STATUS$ERROR_LLM_SERVICE_UNAVAILABLE''
      else if isa ''InternalServerError'' then Some ''STATUS$ERROR_LLM_INTERNAL_SERVER_ERROR''
      else if isa ''BadRequestError'' \<and> contains ''ExceededBudget'' (exn_text e) then Some ''STATUS$ERROR_LLM_OUT_OF_CREDITS''
      else if isa ''ContentPolicyViolationError'' \<or> isa ''BadRequestError'' \<and> contains ''ContentPolicyViolationError'' (exn_text e)
      then Some ''STATUS$ERROR_LLM_CONTENT_POLICY_VIOLATION''
      else None)"

definition react_to_exception :: "'a controller_env \<Rightarrow> nat \<Rightarrow> py_exn \<Rightarrow> ('a, unit) op" where
  "react_to_exception env i e =
     op_then (on_state i (\<lambda>s. s\<lparr>last_error := exn_class e @ '': '' @ exn_text e\<rparr>))
     (op_bind (op_get (\<lambda>w. c_callback (ctl_at w i))) (\<lambda>callback.
       if \<not> callback then set_agent_state_to env i (agent_state_value ERROR_STATE)
       else case error_status env e of
           Some status \<Rightarrow>
             op_then (on_state i (\<lambda>s. s\<lparr>last_error := status\<rparr>))
             (op_then (add_status status status) (set_agent_state_to env i (agent_state_value ERROR_STATE)))
         | None \<Rightarrow>
             if en_isinstance env e ''RateLimitError'' then
               if en_retries_exhausted env e then
                 op_then (on_state i (\<lambda>s. s\<lparr>last_error := ''CHAT_INTERFACE$AGENT_RATE_LIMITED_STOPPED_MESSAGE''\<rparr>))
                   (set_agent_state_to env i (agent_state_value ERROR_STATE))
               else set_agent_state_to env i (agent_state_value RATE_LIMITED)
             else op_then (add_status ''STATUS$ERROR'' (exn_class e @ '': '' @ exn_text e))
               (set_agent_state_to env i (agent_state_value ERROR_STATE))))"

text \<open>The exceptions that reach the user as they are; the others are replaced by a general message.\<close>

definition reported_exn :: "'a controller_env \<Rightarrow> py_exn \<Rightarrow> py_exn" where
  "reported_exn env e =
     (if list_ex (en_isinstance env e) [''Timeout'', ''APIError'', ''BadRequestError'', ''NotFoundError'', ''InternalServerError'',
          ''AuthenticationError'', ''RateLimitError'', ''ContentPolicyViolationError'']
        \<or> exn_class e = ''LLMContextWindowExceedError''
      then e
      else OtherError ''RuntimeError'' (''There was an unexpected error while running the agent: '' @ exn_class e
        @ ''. You can refresh the page or ask the agent to try again.''))"

section \<open>Loop recovery\<close>

text \<open>Texts that hold a symbol outside the 8-bit characters have its UTF-8 bytes.\<close>

definition loop_detection :: "string \<Rightarrow> event" where
  "loop_detection s = make_obs LoopDetectionObservation [(''content'', PStr s)]"

definition warning_sign :: string where
  "warning_sign = map char_of [226 :: nat, 154, 160, 239, 184, 143]"

definition check_mark :: string where
  "check_mark = map char_of [226 :: nat, 156, 133]"

definition attempt_loop_recovery :: "'a controller_env \<Rightarrow> nat \<Rightarrow> ('a, bool) op" where
  "attempt_loop_recovery env i =
     op_bind (op_get (\<lambda>w. (c_stuck (ctl_at w i), current_value (cf_iteration (w_flags w))))) (\<lambda>(stuck, iteration).
       case stuck of
         None \<Rightarrow> op_return False
       | Some a \<Rightarrow>
           op_then (emit_event env (loop_detection (join [nl]
             [warning_sign @ ''  Agent detected in a loop!'',
              ''Loop type: '' @ loop_type a,
              ''Loop detected at iteration '' @ int_str iteration,
              [],
              ''Recovery options:'',
              ''/resume 1. Restart from before loop (preserves '' @ nat_str (loop_start_idx a) @ '' events)'',
              ''/resume 2. Restart with last user message (reuses your most recent instruction)'',
              ''/exit. Quit directly'',
              [],
              ''The agent has been paused. Type '' @ [CHR 0x27] @ ''/resume 1'' @ [CHR 0x27] @ '', '' @ [CHR 0x27] @ ''/resume 2'' @ [CHR 0x27]
                @ '', or '' @ [CHR 0x27] @ ''/exit'' @ [CHR 0x27] @ '' to choose an option.'',
              []])) ENVIRONMENT_SOURCE)
           (op_then (emit_event env (make_act ChangeAgentStateAction [(''agent_state'', PStr (agent_state_value PAUSED))]) ENVIRONMENT_SOURCE)
           (op_return True)))"

definition truncate_memory_to_point :: "nat \<Rightarrow> nat \<Rightarrow> ('a, unit) op" where
  "truncate_memory_to_point i point =
     op_bind (op_get (\<lambda>w. history (state_at w i))) (\<lambda>all.
       op_when (point < length all)
         (on_ctl i (\<lambda>c. c\<lparr>c_state := (c_state c)\<lparr>history := take point all,
              end_id := (if take point all = [] then - 1 else event_id (last (take point all)))\<rparr>,
            c_first_user := None\<rparr>)))"

definition perform_loop_recovery :: "'a controller_env \<Rightarrow> nat \<Rightarrow> stuck_analysis \<Rightarrow> ('a, unit) op" where
  "perform_loop_recovery env i a =
     op_then (truncate_memory_to_point i (loop_start_idx a))
     (op_then (set_agent_state_to env i (agent_state_value AWAITING_USER_INPUT))
     (emit_event env (loop_detection (check_mark @ '' Loop recovery completed. Agent has been reset to before the loop.'' @ [nl]
        @ ''You can now provide new instructions to continue.'' @ [nl])) ENVIRONMENT_SOURCE))"

section \<open>Messages\<close>

definition first_user_message :: "'a controller_env \<Rightarrow> nat \<Rightarrow> ('a, event option) op" where
  "first_user_message env i =
     op_bind (op_get (\<lambda>w. c_first_user (ctl_at w i))) (\<lambda>cached.
       case cached of
         Some e \<Rightarrow> op_return (Some e)
       | None \<Rightarrow>
           op_bind (op_get (\<lambda>w. search_first (en_codec env) (w_stream w) (start_id (state_at w i)) from_user)) (\<lambda>found.
           op_bind (op_lift found) (\<lambda>first.
           op_then (on_ctl i (\<lambda>c. c\<lparr>c_first_user := first\<rparr>)) (op_return first))))"

definition recall_action :: "event \<Rightarrow> bool \<Rightarrow> event" where
  "recall_action a is_first = make_act RecallAction
     [(''query'', get_attr a ''content'' PNone), (''recall_type'', PStr (if is_first then ''workspace_context'' else ''knowledge''))]"

definition handle_message_action :: "'a controller_env \<Rightarrow> nat \<Rightarrow> event \<Rightarrow> ('a, unit) op" where
  "handle_message_action env i a =
     (if e_source a = Some USER_SOURCE then
        op_bind (first_user_message env i) (\<lambda>first.
        op_then (emit_pending env i (recall_action a (case first of None \<Rightarrow> False | Some f \<Rightarrow> event_id a = event_id f)) USER_SOURCE)
        (op_bind (op_get (\<lambda>w. in_state w i RUNNING)) (\<lambda>running.
          op_when (\<not> running) (set_agent_state_to env i (agent_state_value RUNNING)))))
      else op_when (e_source a = Some AGENT_SOURCE \<and> py_truthy (get_attr a ''wait_for_response'' PNone))
        (set_agent_state_to env i (agent_state_value AWAITING_USER_INPUT)))"

text \<open>The handler is given a message of the user, so that \<open>_handle_action\<close> is \<open>_handle_message_action\<close>.\<close>

definition restart_with_last_user_message :: "'a controller_env \<Rightarrow> nat \<Rightarrow> stuck_analysis \<Rightarrow> ('a, unit) op" where
  "restart_with_last_user_message env i a =
     op_bind (op_get (\<lambda>w. find from_user (rev (history (state_at w i))))) (\<lambda>found.
       case found of
         None \<Rightarrow> perform_loop_recovery env i a
       | Some m \<Rightarrow>
           op_then (truncate_memory_to_point i (loop_start_idx a))
           (op_then (set_agent_state_to env i (agent_state_value RUNNING))
           (op_then (emit_event env (loop_detection ([nl] @ check_mark @ '' Restarting with your last instruction: '' @ event_text m ''content'' @ [nl]
               @ ''Agent is now continuing with the same task...'' @ [nl])) ENVIRONMENT_SOURCE)
           (handle_message_action env i ((make_act MessageAction [(''content'', get_attr m ''content'' PNone), (''wait_for_response'', PBool False)])
              \<lparr>e_source := Some USER_SOURCE\<rparr>)))))"

definition handle_loop_recovery_action :: "'a controller_env \<Rightarrow> nat \<Rightarrow> event \<Rightarrow> ('a, unit) op" where
  "handle_loop_recovery_action env i e =
     op_bind (op_get (\<lambda>w. c_stuck (ctl_at w i))) (\<lambda>stuck.
       case stuck of
         None \<Rightarrow> op_return ()
       | Some a \<Rightarrow>
           if get_attr e ''option'' PNone = PInt 1 then perform_loop_recovery env i a
           else if get_attr e ''option'' PNone = PInt 2 then restart_with_last_user_message env i a
           else if get_attr e ''option'' PNone = PInt 3 then set_agent_state_to env i (agent_state_value STOPPED)
           else op_return ())"

section \<open>Delegates\<close>

definition delegate_state :: "'a world \<Rightarrow> nat \<Rightarrow> 'a controller_env \<Rightarrow> event \<Rightarrow> agent_data" where
  "delegate_state w i env a =
     fresh_state\<lparr>session_id := removesuffix (c_id (ctl_at w i)) ''-delegate'', user_id := en_user_id env,
       inputs := dict_of (e_fields a) ''inputs'', delegate_level := delegate_level (state_at w i) + 1,
       start_id := get_latest_event_id (w_stream w) + 1, parent_iteration := current_value (cf_iteration (w_flags w))\<rparr>"

text \<open>The constructor for a state that is given, without the subscription.\<close>

definition new_controller ::
  "'a controller_env \<Rightarrow> string option \<Rightarrow> string \<Rightarrow> 'a agent_spec \<Rightarrow> agent_data \<Rightarrow> bool \<Rightarrow> bool \<Rightarrow> bool \<Rightarrow> event list option \<Rightarrow> 'a world \<Rightarrow> 'a ctl res" where
  "new_controller env sid i agent st confirmation callback is_delegate replay w =
     res_map (\<lambda>st.
       \<lparr>c_id = i, c_sid = sid, c_agent = agent, c_memory = as_init agent, c_state = st, c_pending = None, c_stuck = None,
        c_replay = new_replay replay, c_first_user = None, c_confirmation_mode = confirmation, c_callback = callback, c_closed = False,
        c_is_delegate = is_delegate\<rparr>)
     (init_history (en_repr env) (en_codec env) (w_stream w) st)"

definition start_delegate :: "'a controller_env \<Rightarrow> nat \<Rightarrow> event \<Rightarrow> ('a, unit) op" where
  "start_delegate env i a =
     op_bind (op_lift (case en_agents env (event_text a ''agent'') of
         None \<Rightarrow> Inl (OtherError ''AgentNotRegisteredError''
           (''No agent class registered under '' @ [CHR 0x27] @ event_text a ''agent'' @ [CHR 0x27]))
       | Some agent \<Rightarrow> Inr agent)) (\<lambda>agent.
     op_bind (op_get (\<lambda>w. let sid = c_id (ctl_at w i) @ ''-delegate'' in
         new_controller env (Some sid) sid agent (delegate_state w i env a) False False True None w)) (\<lambda>r.
     op_bind (op_lift r) (\<lambda>c.
     op_then (add_system_message env agent (start_id (c_state c)))
       (op_modify (\<lambda>w. w\<lparr>w_ctls := take (i + 1) (w_ctls w) @ [c]\<rparr>)))))"

definition close_controller :: "'a controller_env \<Rightarrow> nat \<Rightarrow> bool \<Rightarrow> ('a, unit) op" where
  "close_controller env i set_stop_state =
     op_then (op_when set_stop_state (set_agent_state_to env i (agent_state_value STOPPED)))
     (op_bind (op_get (\<lambda>w. close_tracker (en_repr env) (en_codec env) (w_stream w) (state_at w i))) (\<lambda>r.
      op_bind (op_lift r) (\<lambda>st.
      op_modify (\<lambda>w. w\<lparr>w_stream := (if c_is_delegate (ctl_at w i) then w_stream w
           else unsubscribe ''agent_controller'' (c_id (ctl_at w i)) (w_stream w)),
         w_ctls := (w_ctls w)[i := (ctl_at w i)\<lparr>c_state := st, c_closed := True\<rparr>]\<rparr>))))"

definition shown :: "'a controller_env \<Rightarrow> pyval \<Rightarrow> string" where
  "shown env v = (case v of PStr s \<Rightarrow> s | _ \<Rightarrow> en_repr env v)"

definition delegate_result :: "'a controller_env \<Rightarrow> string \<Rightarrow> string \<Rightarrow> payload \<Rightarrow> event list \<Rightarrow> event" where
  "delegate_result env name state outs hist =
     (let content = (if state = agent_state_value FINISHED \<or> state = agent_state_value REJECTED_STATE
            then name @ '' finishes task with ''
              @ join '', '' (map (\<lambda>(k, v). k @ '': '' @ shown env v) (filter (\<lambda>(k, v). k \<noteq> ''metrics'') outs))
            else name @ '' encountered an error during execution.'');
          ob = make_obs AgentDelegateObservation
            [(''content'', PStr (''Delegated agent finished with result:'' @ [nl, nl] @ content)), (''outputs'', PDict outs)]
      in case find (is_a AgentDelegateAction) (rev hist) of None \<Rightarrow> ob | Some a \<Rightarrow> ob\<lparr>e_tool_call := e_tool_call a\<rparr>)"

definition end_delegate :: "'a controller_env \<Rightarrow> nat \<Rightarrow> ('a, unit) op" where
  "end_delegate env i =
     op_bind (op_get (has_delegate i)) (\<lambda>d.
     if \<not> d then op_return ()
     else
       op_bind (op_get (\<lambda>w. ag_state (state_at w (i + 1)))) (\<lambda>state.
       op_then (close_controller env (i + 1) True)
       (op_bind (op_get (\<lambda>w. delegate_result env (as_name (c_agent (ctl_at w (i + 1)))) state (outputs (state_at w (i + 1))) (history (state_at w i)))) (\<lambda>ob.
        op_then (emit_event env ob AGENT_SOURCE)
        (op_modify (\<lambda>w. w\<lparr>w_ctls := take (i + 1) (w_ctls w)\<rparr>))))))"


text \<open>The root controller of a conversation, which subscribes to the stream.\<close>

definition new_root ::
  "'a controller_env \<Rightarrow> string option \<Rightarrow> 'a agent_spec \<Rightarrow> (agent_data \<times> control_flags) option \<Rightarrow> int \<Rightarrow> rat option \<Rightarrow> bool \<Rightarrow> bool
    \<Rightarrow> event list option \<Rightarrow> ('a, unit) op" where
  "new_root env sid agent initial iteration_delta budget_delta confirmation callback replay =
     op_bind (op_get (\<lambda>w. case sid of Some s \<Rightarrow> if s \<noteq> [] then s else es_sid (w_stream w) | None \<Rightarrow> es_sid (w_stream w))) (\<lambda>i.
     op_bind (\<lambda>w. let (r, st) = subscribe ''agent_controller'' ''on_event'' i (w_stream w) in (r, w\<lparr>w_stream := st\<rparr>)) (\<lambda>_.
     op_bind (op_get (\<lambda>w. let (s, cf) = set_initial_state i (en_user_id env) initial iteration_delta budget_delta confirmation in
         res_map (\<lambda>c. (c, cf)) (new_controller env sid i agent s confirmation callback False replay w))) (\<lambda>r.
     op_bind (op_lift r) (\<lambda>(c, cf).
     op_then (op_modify (\<lambda>w. w\<lparr>w_ctls := [c], w_flags := cf\<rparr>)) (add_system_message env agent (start_id (c_state c)))))))"

section \<open>Events\<close>

definition handle_action :: "'a controller_env \<Rightarrow> nat \<Rightarrow> event \<Rightarrow> ('a, unit) op" where
  "handle_action env i a =
     (if is_a ChangeAgentStateAction a then set_agent_state_to env i (event_text a ''agent_state'')
      else if is_a MessageAction a then handle_message_action env i a
      else if is_a AgentDelegateAction a then
        op_then (start_delegate env i a)
        (case dict_get (dict_of (e_fields a) ''inputs'') ''task'' of
           None \<Rightarrow> op_return ()
         | Some (PStr task) \<Rightarrow>
             op_then (emit_event env (make_act MessageAction [(''content'', PStr (''TASK: '' @ task))]) USER_SOURCE)
               (set_agent_state_to env (i + 1) (agent_state_value RUNNING))
         | Some _ \<Rightarrow> op_raise (TypeError ''can only concatenate str to str''))
      else if is_a AgentFinishAction a then
        op_then (on_state i (\<lambda>s. s\<lparr>outputs := dict_of (e_fields a) ''outputs''\<rparr>)) (set_agent_state_to env i (agent_state_value FINISHED))
      else if is_a AgentRejectAction a then
        op_then (on_state i (\<lambda>s. s\<lparr>outputs := dict_of (e_fields a) ''outputs''\<rparr>)) (set_agent_state_to env i (agent_state_value REJECTED_STATE))
      else if is_a LoopRecoveryAction a then handle_loop_recovery_action env i a
      else op_return ())"

definition handle_observation :: "'a controller_env \<Rightarrow> nat \<Rightarrow> event \<Rightarrow> ('a, unit) op" where
  "handle_observation env i ob =
     op_bind (op_get (\<lambda>w. (c_pending (ctl_at w i), in_state w i AWAITING_USER_CONFIRMATION))) (\<lambda>(pending, awaiting).
       case pending of
         None \<Rightarrow> op_return ()
       | Some p \<Rightarrow> op_when (e_cause ob = Some (event_id p) \<and> \<not> awaiting)
           (op_then (on_ctl i (\<lambda>c. c\<lparr>c_pending := None\<rparr>))
           (op_bind (op_get (\<lambda>w. in_state w i USER_CONFIRMED)) (\<lambda>confirmed.
            op_then (op_when confirmed (set_agent_state_to env i (agent_state_value RUNNING)))
            (op_bind (op_get (\<lambda>w. in_state w i USER_REJECTED)) (\<lambda>rejected.
             op_when rejected (set_agent_state_to env i (agent_state_value AWAITING_USER_INPUT))))))))"

definition should_step :: "nat \<Rightarrow> event \<Rightarrow> 'a world \<Rightarrow> bool" where
  "should_step i e w \<longleftrightarrow> \<not> has_delegate i w \<and>
     (if is_action e then
        from_user e \<or> is_a MessageAction e \<and> \<not> in_state w i AWAITING_USER_INPUT \<or> is_a AgentDelegateAction e
        \<or> is_a CondensationAction e \<or> is_a CondensationRequestAction e
      else is_o NullObservation e \<and> (case e_cause e of None \<Rightarrow> False | Some c \<Rightarrow> 0 < c)
        \<or> \<not> is_o AgentStateChangedObservation e \<and> \<not> is_o NullObservation e)"

section \<open>A step of the agent\<close>

text \<open>The detectors of the controller and of its delegates, the innermost first, until one finds a loop.\<close>

definition check_stuck :: "'a controller_env \<Rightarrow> nat \<Rightarrow> bool \<times> 'a world \<Rightarrow> bool \<times> 'a world" where
  "check_stuck env j x =
     (case x of (True, w) \<Rightarrow> (True, w)
      | (False, w) \<Rightarrow> let (b, an) = is_stuck (en_headless env) (history (state_at w j)) (c_stuck (ctl_at w j))
          in (b, w\<lparr>w_ctls := (w_ctls w)[j := (ctl_at w j)\<lparr>c_stuck := an\<rparr>]\<rparr>))"

definition is_stuck_at :: "'a controller_env \<Rightarrow> nat \<Rightarrow> ('a, bool) op" where
  "is_stuck_at env i w = (let (b, w) = fold (check_stuck env) (rev [i..<length (w_ctls w)]) (False, w) in (Inr b, w))"

definition CONFIRMED_CLASSES :: "action_class list" where
  "CONFIRMED_CLASSES = [CmdRunAction, IPythonRunCellAction, BrowseInteractiveAction, BrowseURLAction, FileEditAction, FileReadAction,
     FileWriteAction, MCPAction]"

definition handle_security_analyzer :: "'a controller_env \<Rightarrow> event \<Rightarrow> event" where
  "handle_security_analyzer env a =
     (if \<not> has_attr a ''security_risk'' then a
      else set_attr ''security_risk'' (case en_analyzer env of
          None \<Rightarrow> RISK_UNKNOWN
        | Some f \<Rightarrow> (case f a of Inl _ \<Rightarrow> RISK_UNKNOWN | Inr v \<Rightarrow> v)) a)"

text \<open>The action with the mark that it waits for the user.\<close>

definition ask_confirmation :: "'a controller_env \<Rightarrow> 'a ctl \<Rightarrow> event \<Rightarrow> event" where
  "ask_confirmation env c a =
     (if confirmation_mode (c_state c) \<and> list_ex (\<lambda>k. is_a k a) CONFIRMED_CLASSES then
        let a = handle_security_analyzer env a;
            risk = get_attr a ''security_risk'' RISK_UNKNOWN;
            ask = (risk = RISK_HIGH \<or> risk = RISK_UNKNOWN \<and> en_analyzer env = None)
        in if as_cli_mode (c_agent c) \<or> ask \<and> c_confirmation_mode c then set_attr ''confirmation_state'' AWAITING_CONFIRMATION a else a
      else a)"

definition context_window_exceeded :: "'a controller_env \<Rightarrow> py_exn \<Rightarrow> bool" where
  "context_window_exceeded env e =
     (let s = lower (exn_text e) in
      contains ''contextwindowexceedederror'' s \<or> contains ''prompt is too long'' s
      \<or> contains (''input length and '' @ [CHR 0x60] @ ''max_tokens'' @ [CHR 0x60] @ '' exceed context limit'') s
      \<or> contains ''please reduce the length of'' s \<or> contains ''the request exceeds the available context size'' s
      \<or> contains ''context length exceeded'' s
      \<or> contains ''sambanovaexception'' s \<and> contains ''maximum context length'' s
      \<or> en_isinstance env e ''ContextWindowExceededError'')"

definition invalid_tool_call :: "'a controller_env \<Rightarrow> py_exn \<Rightarrow> bool" where
  "invalid_tool_call env e =
     (let s = lower (exn_text e) in
      en_isinstance env e ''BadRequestError'' \<and> contains ''tool call validation failed'' s
      \<and> (contains ''missing properties'' s \<or> contains ''missing required'' s))"

definition RECOVERABLE_ERRORS :: "string list" where
  "RECOVERABLE_ERRORS = [''LLMMalformedActionError'', ''LLMNoActionError'', ''LLMResponseError'', ''FunctionCallValidationError'',
     ''FunctionCallNotExistsError'']"

definition error_observation :: "string \<Rightarrow> event" where
  "error_observation s = make_obs ErrorObservation [(''content'', PStr s)]"

text \<open>The answer of the agent: an action, or nothing when the step ends here.\<close>

definition handle_agent_error :: "'a controller_env \<Rightarrow> nat \<Rightarrow> py_exn \<Rightarrow> ('a, event option) op" where
  "handle_agent_error env i e =
     (if exn_class e \<in> set RECOVERABLE_ERRORS
      then op_then (emit_event env (error_observation (exn_text e)) AGENT_SOURCE) (op_return None)
      else if list_ex (en_isinstance env e) [''ContextWindowExceededError'', ''BadRequestError'', ''OpenAIError''] then
        if context_window_exceeded env e then
          op_bind (op_get (\<lambda>w. as_truncation (c_agent (ctl_at w i)))) (\<lambda>truncation.
            if truncation then op_then (emit_event env (make_act CondensationRequestAction []) AGENT_SOURCE) (op_return None)
            else op_raise (OtherError ''LLMContextWindowExceedError''
              ''Conversation history longer than LLM context window limit. Consider turning on enable_history_truncation config to avoid this error''))
        else if invalid_tool_call env e then
          op_then (emit_event env (error_observation (''Tool call validation failed: '' @ exn_text e
            @ ''. Please check the tool parameters and try again.'')) AGENT_SOURCE) (op_return None)
        else op_raise e
      else op_raise e)"

definition ask_agent :: "'a controller_env \<Rightarrow> nat \<Rightarrow> ('a, event option) op" where
  "ask_agent env i =
     op_bind (\<lambda>w. let (r, mem, cost) = as_step (c_agent (ctl_at w i)) (c_memory (ctl_at w i)) (state_at w i) (w_cost w)
         in (Inr r, w\<lparr>w_cost := cost, w_ctls := (w_ctls w)[i := (ctl_at w i)\<lparr>c_memory := mem\<rparr>]\<rparr>)) (\<lambda>r.
       case r of
         Inr (Some a) \<Rightarrow> op_return (Some (a\<lparr>e_source := Some AGENT_SOURCE\<rparr>))
       | Inr None \<Rightarrow> handle_agent_error env i (OtherError ''LLMNoActionError'' ''No action was returned'')
       | Inl e \<Rightarrow> handle_agent_error env i e)"

definition next_action :: "'a controller_env \<Rightarrow> nat \<Rightarrow> ('a, event option) op" where
  "next_action env i =
     op_bind (\<lambda>w. let (b, m) = should_replay (c_replay (ctl_at w i)) in (Inr b, w\<lparr>w_ctls := (w_ctls w)[i := (ctl_at w i)\<lparr>c_replay := m\<rparr>]\<rparr>)) (\<lambda>b.
       if b then (\<lambda>w. let (r, m) = replay_step (c_replay (ctl_at w i)) in
         (res_map Some r, w\<lparr>w_ctls := (w_ctls w)[i := (ctl_at w i)\<lparr>c_replay := m\<rparr>]\<rparr>))
       else ask_agent env i)"

definition publish_action :: "'a controller_env \<Rightarrow> nat \<Rightarrow> event \<Rightarrow> ('a, unit) op" where
  "publish_action env i a =
     op_bind (op_get (\<lambda>w. if runnable a then ask_confirmation env (ctl_at w i) a else a)) (\<lambda>a.
     op_then (op_when (runnable a) (on_ctl i (\<lambda>c. c\<lparr>c_pending := Some a\<rparr>)))
     (op_when (\<not> is_a NullAction a)
       (op_then (op_when (get_attr a ''confirmation_state'' PNone = AWAITING_CONFIRMATION)
          (set_agent_state_to env i (agent_state_value AWAITING_USER_CONFIRMATION)))
        (case e_source a of
           None \<Rightarrow> op_raise (OtherError ''AttributeError'' ''_source'')
         | Some src \<Rightarrow> if runnable a then emit_pending env i a src else emit_event env a src))))"

text \<open>The part of a step that the limits guard.\<close>

definition limited_step :: "'a controller_env \<Rightarrow> nat \<Rightarrow> ('a, unit) op" where
  "limited_step env i =
     op_bind (\<lambda>w. let (r, cf) = run_control_flags (w_flags w) in (Inr r, w\<lparr>w_flags := cf\<rparr>)) (\<lambda>r.
       case r of
         Inl e \<Rightarrow> react_to_exception env i e
       | Inr _ \<Rightarrow>
           op_bind (next_action env i) (\<lambda>a.
             case a of None \<Rightarrow> op_return () | Some a \<Rightarrow> publish_action env i a))"

definition step :: "'a controller_env \<Rightarrow> nat \<Rightarrow> ('a, unit) op" where
  "step env i =
     op_bind (op_get (\<lambda>w. (in_state w i RUNNING, c_pending (ctl_at w i), as_stuck_detection (c_agent (ctl_at w i))))) (\<lambda>(running, pending, detect).
     if \<not> running \<or> pending \<noteq> None then op_return ()
     else
       op_then (op_modify (\<lambda>w. w\<lparr>w_flags := sync_budget_flag_with_metrics (w_cost w) (w_flags w)\<rparr>))
       (op_bind (if detect then is_stuck_at env i else op_return False) (\<lambda>stuck.
        if stuck then react_to_exception env i (OtherError ''AgentStuckInLoopError'' ''Agent got stuck in a loop'')
        else limited_step env i)))"

definition step_with_exception_handling :: "'a controller_env \<Rightarrow> nat \<Rightarrow> ('a, unit) op" where
  "step_with_exception_handling env i w =
     (case step env i w of
        (Inl e, w) \<Rightarrow> react_to_exception env i (reported_exn env e) w
      | (Inr _, w) \<Rightarrow> (Inr (), w))"

definition on_event_at :: "'a controller_env \<Rightarrow> nat \<Rightarrow> event \<Rightarrow> ('a, unit) op" where
  "on_event_at env i e =
     (if py_truthy (get_attr e ''hidden'' (PBool False)) then op_return ()
      else
        op_then (on_state i (add_history e))
        (op_then (if is_action e then handle_action env i e else handle_observation env i e)
        (op_bind (op_get (should_step i e)) (\<lambda>b. op_when b (step_with_exception_handling env i)))))"

definition delegate_active :: "agent_data \<Rightarrow> bool" where
  "delegate_active s \<longleftrightarrow> ag_state s \<notin> agent_state_value ` {FINISHED, ERROR_STATE, REJECTED_STATE}
     \<or> contains ''RuntimeError: Agent reached maximum iteration.'' (last_error s)
     \<or> contains ''RuntimeError:Agent reached maximum budget for conversation'' (last_error s)"

definition on_event :: "'a controller_env \<Rightarrow> event \<Rightarrow> ('a, unit) op" where
  "on_event env e =
     op_bind (op_get (\<lambda>w. (has_delegate 0 w, has_delegate 0 w \<and> delegate_active (state_at w 1)))) (\<lambda>(d, active).
       if d then if active then on_event_at env 1 e else end_delegate env 0
       else on_event_at env 0 e)"

definition is_awaiting_observation :: "'a controller_env \<Rightarrow> ('a, bool) op" where
  "is_awaiting_observation env w =
     (res_map (\<lambda>es. case es of [] \<Rightarrow> False | e # _ \<Rightarrow> event_text e ''agent_state'' = agent_state_value RUNNING)
        (search_loop (en_codec env) (\<lambda>_. True) (\<lambda>e. Inr (is_o AgentStateChangedObservation e)) (Some 1) (w_stream w) DUMMY_PAGE 0
          (search_range (w_stream w) 0 None True)), w)"

section \<open>What the operations keep\<close>

text \<open>A predicate that an operation keeps, whether it returns or raises.\<close>

definition keeps :: "('a world \<Rightarrow> bool) \<Rightarrow> ('a, 'r) op \<Rightarrow> bool" where
  "keeps I m \<longleftrightarrow> (\<forall>w. I w \<longrightarrow> I (snd (m w)))"

named_theorems keeps_rules \<open>rules for operations that keep a predicate\<close>

lemma keeps_simple [keeps_rules]: "keeps I (op_return x)" "keeps I (op_raise e)" "keeps I (op_get f)" "keeps I (op_lift r)"
  by (simp_all add: keeps_def op_return_def op_raise_def op_get_def op_lift_def)

lemma keeps_bind [keeps_rules]: "keeps I m \<Longrightarrow> (\<And>x. keeps I (k x)) \<Longrightarrow> keeps I (op_bind m k)"
  unfolding keeps_def op_bind_def by (force split: prod.splits sum.splits)

lemma keeps_then [keeps_rules]: "keeps I m \<Longrightarrow> keeps I n \<Longrightarrow> keeps I (op_then m n)"
  unfolding op_then_def by (rule keeps_bind)

lemma keeps_when [keeps_rules]: "keeps I m \<Longrightarrow> keeps I (op_when b m)"
  by (simp add: op_when_def keeps_simple)

lemma keeps_if [keeps_rules]: "keeps I m \<Longrightarrow> keeps I n \<Longrightarrow> keeps I (if b then m else n)"
  by simp

lemma keeps_option [keeps_rules]: "keeps I m \<Longrightarrow> (\<And>x. keeps I (k x)) \<Longrightarrow> keeps I (case y of None \<Rightarrow> m | Some x \<Rightarrow> k x)"
  by (cases y) simp_all

lemma keeps_pair [keeps_rules]: "(\<And>x y. keeps I (k x y)) \<Longrightarrow> keeps I (case p of (x, y) \<Rightarrow> k x y)"
  by (cases p) simp

lemma keeps_text [keeps_rules]:
  "(\<And>s. keeps I (k s)) \<Longrightarrow> keeps I m \<Longrightarrow> keeps I (case v of PStr s \<Rightarrow> k s | _ \<Rightarrow> m)"
  by (cases v) simp_all

lemma keeps_modify: "(\<And>w. I w \<Longrightarrow> I (f w)) \<Longrightarrow> keeps I (op_modify f)"
  by (simp add: keeps_def op_modify_def)

text \<open>What the operations of the controller at one level need of a predicate: it does not look at the stream, the saved sessions and the
  statuses, and of this controller only at the agent and what it remembers.\<close>

locale world_frame =
  fixes env :: "'a controller_env"
    and I :: "'a world \<Rightarrow> bool"
    and i :: nat
  assumes stream: "I w \<Longrightarrow> I (w\<lparr>w_stream := st\<rparr>)"
    and sessions: "I w \<Longrightarrow> I (w\<lparr>w_sessions := fs\<rparr>)"
    and statuses: "I w \<Longrightarrow> I (w\<lparr>w_statuses := ss\<rparr>)"
    and ctl: "I w \<Longrightarrow> c_agent c = c_agent (ctl_at w i) \<Longrightarrow>
      c_memory c = c_memory (ctl_at w i) \<or> c_memory c = as_reset (c_agent (ctl_at w i)) (c_memory (ctl_at w i)) \<Longrightarrow>
      I (w\<lparr>w_ctls := (w_ctls w)[i := c]\<rparr>)"
    and extend: "I w \<Longrightarrow> I (w\<lparr>w_flags := maybe_increase_control_flags_limits (en_headless env) (w_flags w)\<rparr>)"
begin

lemma keeps_on_ctl [keeps_rules]:
  "(\<And>c. c_agent (f c) = c_agent c \<and> (c_memory (f c) = c_memory c \<or> c_memory (f c) = as_reset (c_agent c) (c_memory c))) \<Longrightarrow> keeps I (on_ctl i f)"
  unfolding on_ctl_def by (rule keeps_modify) (simp add: ctl)

lemma keeps_on_state [keeps_rules]: "keeps I (on_state i f)"
  unfolding on_state_def by (rule keeps_on_ctl) simp

lemma keeps_emit [keeps_rules]: "keeps I (emit_event env e src)" "keeps I (emit_pending env i e src)"
proof -
  have "keeps I (emit env e src)" by (simp add: keeps_def emit_def stream split: prod.splits)
  then show "keeps I (emit_event env e src)" unfolding emit_event_def by (intro keeps_rules)
  have "I (w\<lparr>w_stream := st, w_ctls := (w_ctls w)[i := (ctl_at w i)\<lparr>c_pending := p\<rparr>]\<rparr>)" if "I w" for w st p
    using ctl [OF stream [OF that, of st], of "(ctl_at w i)\<lparr>c_pending := p\<rparr>"] by simp
  then show "keeps I (emit_pending env i e src)" by (simp add: keeps_def emit_pending_def split: prod.splits)
qed

lemma keeps_save [keeps_rules]: "keeps I (save_state env i)"
  unfolding save_state_def by (rule keeps_modify) (simp add: sessions split: option.splits)

lemma keeps_status [keeps_rules]: "keeps I (add_status s m)"
  unfolding add_status_def by (rule keeps_modify) (rule statuses)

lemma keeps_reset [keeps_rules]: "keeps I (reset env i)"
  unfolding reset_def by (intro keeps_rules) auto

lemma keeps_set_state [keeps_rules]: "keeps I (set_agent_state_to env i s)"
  unfolding set_agent_state_to_def by (intro keeps_rules keeps_modify) (auto intro: extend)

lemma keeps_react [keeps_rules]: "keeps I (react_to_exception env i e)"
  unfolding react_to_exception_def by (intro keeps_rules)

lemma keeps_truncate [keeps_rules]: "keeps I (truncate_memory_to_point i n)"
  unfolding truncate_memory_to_point_def by (intro keeps_rules) simp

lemma keeps_recovery [keeps_rules]: "keeps I (perform_loop_recovery env i a)"
  unfolding perform_loop_recovery_def by (intro keeps_rules)

lemma keeps_first_user [keeps_rules]: "keeps I (first_user_message env i)"
  unfolding first_user_message_def by (intro keeps_rules) simp

lemma keeps_message [keeps_rules]: "keeps I (handle_message_action env i a)"
  unfolding handle_message_action_def by (intro keeps_rules)

lemma keeps_loop_action [keeps_rules]: "keeps I (handle_loop_recovery_action env i e)"
  unfolding handle_loop_recovery_action_def restart_with_last_user_message_def by (intro keeps_rules)

lemma keeps_system_message [keeps_rules]: "keeps I (add_system_message env agent start)"
  unfolding add_system_message_def by (intro keeps_rules)

lemma keeps_close [keeps_rules]: "keeps I (close_controller env i b)"
  unfolding close_controller_def
proof (intro keeps_rules keeps_modify)
  fix st w assume "I w"
  let ?st = "if c_is_delegate (ctl_at w i) then w_stream w else unsubscribe ''agent_controller'' (c_id (ctl_at w i)) (w_stream w)"
  show "I (w\<lparr>w_stream := ?st, w_ctls := (w_ctls w)[i := (ctl_at w i)\<lparr>c_state := st, c_closed := True\<rparr>]\<rparr>)"
    using ctl [OF stream [OF \<open>I w\<close>, of ?st], of "(ctl_at w i)\<lparr>c_state := st, c_closed := True\<rparr>"] by simp
qed

lemma keeps_observation [keeps_rules]: "keeps I (handle_observation env i e)"
  unfolding handle_observation_def by (intro keeps_rules) simp

lemma keeps_action [keeps_rules]: "\<not> is_a AgentDelegateAction e \<Longrightarrow> keeps I (handle_action env i e)"
  unfolding handle_action_def by (simp only: if_False) (intro keeps_rules)

end

text \<open>What every part of the controller needs of a predicate at all levels. \<open>J\<close> holds between the grant of a step and the call of the
  agent.\<close>

locale world_invariant =
  fixes env :: "'a controller_env"
    and I J :: "'a world \<Rightarrow> bool"
  assumes frame: "world_frame env I i"
    and attach: "I w \<Longrightarrow> I (w\<lparr>w_ctls := take (Suc i) (w_ctls w) @ [c]\<rparr>)"
    and detach: "I w \<Longrightarrow> I (w\<lparr>w_ctls := take (Suc i) (w_ctls w)\<rparr>)"
    and sync: "I w \<Longrightarrow> I (w\<lparr>w_flags := sync_budget_flag_with_metrics spent (w_flags w)\<rparr>)"
    and refuse: "I w \<Longrightarrow> run_control_flags (w_flags w) = (Inl e, cf) \<Longrightarrow> I (w\<lparr>w_flags := cf\<rparr>)"
    and grant: "I w \<Longrightarrow> run_control_flags (w_flags w) = (Inr u, cf) \<Longrightarrow> J (w\<lparr>w_flags := cf\<rparr>)"
    and replay: "J w \<Longrightarrow> J (w\<lparr>w_ctls := (w_ctls w)[i := (ctl_at w i)\<lparr>c_replay := m\<rparr>]\<rparr>)"
    and granted: "J w \<Longrightarrow> I w"
    and call: "J w \<Longrightarrow> as_step (c_agent (ctl_at w i)) (c_memory (ctl_at w i)) (state_at w i) (w_cost w) = (r, mem, cost) \<Longrightarrow>
      I (w\<lparr>w_cost := cost, w_ctls := (w_ctls w)[i := (ctl_at w i)\<lparr>c_memory := mem\<rparr>]\<rparr>)"

sublocale world_invariant \<subseteq> level: world_frame env I i for i
  by (rule frame)

context world_invariant
begin

lemma keeps_start_delegate [keeps_rules]: "keeps I (start_delegate env i a)"
  unfolding start_delegate_def by (intro keeps_rules keeps_modify) (simp add: attach)

lemma keeps_end_delegate [keeps_rules]: "keeps I (end_delegate env i)"
  unfolding end_delegate_def by (intro keeps_rules keeps_modify) (simp add: detach)

lemma keeps_handle_action [keeps_rules]: "keeps I (handle_action env i e)"
  unfolding handle_action_def by (intro keeps_rules)

lemma keeps_agent_error [keeps_rules]: "keeps I (handle_agent_error env i e)"
  unfolding handle_agent_error_def by (intro keeps_rules)

lemma keeps_publish [keeps_rules]: "keeps I (publish_action env i a)"
  unfolding publish_action_def by (intro keeps_rules) auto

lemma keeps_stuck [keeps_rules]: "keeps I (is_stuck_at env i)"
proof -
  have "I (snd (fold (check_stuck env) js x))" if "I (snd x)" for js x
    using that
  proof (induction js arbitrary: x)
    case (Cons j js)
    have "I (snd (check_stuck env j x))"
      using Cons.prems by (cases x) (auto simp: check_stuck_def Let_def split: bool.splits prod.splits intro!: level.ctl)
    then show ?case using Cons.IH by simp
  qed simp
  then show ?thesis by (simp add: keeps_def is_stuck_at_def split: prod.splits) (metis snd_conv)
qed

text \<open>From the grant of a step to its end.\<close>

lemma ask_agent_granted: "J w \<Longrightarrow> I (snd (ask_agent env i w))"
proof -
  assume J: "J w"
  obtain r mem cost where s: "as_step (c_agent (ctl_at w i)) (c_memory (ctl_at w i)) (state_at w i) (w_cost w) = (r, mem, cost)"
    by (metis prod_cases3)
  let ?w = "w\<lparr>w_cost := cost, w_ctls := (w_ctls w)[i := (ctl_at w i)\<lparr>c_memory := mem\<rparr>]\<rparr>"
  have I: "I ?w" by (rule call [OF J s])
  have k: "keeps I (handle_agent_error env i e)" for e by (rule keeps_rules)
  show ?thesis
    using s I k by (auto simp: ask_agent_def op_bind_def op_return_def Let_def keeps_def split: sum.splits option.splits)
qed

lemma next_action_granted: "J w \<Longrightarrow> I (snd (next_action env i w))"
proof -
  assume J: "J w"
  obtain b m where s: "should_replay (c_replay (ctl_at w i)) = (b, m)" by fastforce
  define w1 where "w1 = w\<lparr>w_ctls := (w_ctls w)[i := (ctl_at w i)\<lparr>c_replay := m\<rparr>]\<rparr>"
  have J1: "J w1" unfolding w1_def by (rule replay [OF J])
  have n: "next_action env i w = (if b then (\<lambda>w. let (r, m) = replay_step (c_replay (ctl_at w i)) in
         (res_map Some r, w\<lparr>w_ctls := (w_ctls w)[i := (ctl_at w i)\<lparr>c_replay := m\<rparr>]\<rparr>)) else ask_agent env i) w1"
    by (simp add: next_action_def op_bind_def s w1_def)
  obtain r m' where "replay_step (c_replay (ctl_at w1 i)) = (r, m')" by fastforce
  then show ?thesis using n ask_agent_granted [OF J1, of i] granted [OF replay [OF J1, of i m']] by (auto split: if_splits)
qed

lemma keeps_limited_step [keeps_rules]: "keeps I (limited_step env i)"
proof -
  have k: "I (snd (op_bind (next_action env i) (\<lambda>a. case a of None \<Rightarrow> op_return () | Some a \<Rightarrow> publish_action env i a) w))" if "J w" for w
  proof -
    have "keeps I (case a of None \<Rightarrow> op_return () | Some a \<Rightarrow> publish_action env i a)" for a by (intro keeps_rules)
    then show ?thesis using next_action_granted [OF that, of i] by (auto simp: op_bind_def keeps_def split: prod.splits sum.splits)
  qed
  have r: "I (snd (react_to_exception env i e w))" if "I w" for w e
    using level.keeps_react that by (simp add: keeps_def)
  show ?thesis
    unfolding keeps_def
  proof (intro allI impI)
    fix w assume I: "I w"
    obtain x cf where x: "run_control_flags (w_flags w) = (x, cf)" by fastforce
    show "I (snd (limited_step env i w))"
      unfolding limited_step_def by (subst op_bind_def) (use x refuse [OF I] grant [OF I] k r in \<open>cases x; simp\<close>)
  qed
qed

lemma keeps_step [keeps_rules]: "keeps I (step env i)"
  unfolding step_def by (intro keeps_rules keeps_modify) (simp add: sync)

lemma keeps_handled_step [keeps_rules]: "keeps I (step_with_exception_handling env i)"
  using keeps_step [of i] level.keeps_react [of i] by (force simp: keeps_def step_with_exception_handling_def split: prod.splits sum.splits)

lemma keeps_on_event_at [keeps_rules]: "keeps I (on_event_at env i e)"
  unfolding on_event_at_def by (intro keeps_rules)

lemma keeps_on_event [keeps_rules]: "keeps I (on_event env e)"
  unfolding on_event_def by (intro keeps_rules)

end

section \<open>The limits of a conversation\<close>

text \<open>A measure of what an agent remembers that grows by at most one per call counts calls.\<close>

definition counts_calls :: "('a \<Rightarrow> nat) \<Rightarrow> 'a agent_spec \<Rightarrow> bool" where
  "counts_calls calls ag \<longleftrightarrow>
     (\<forall>m s c. calls (fst (snd (as_step ag m s c))) \<le> calls m + 1) \<and> (\<forall>m. calls (as_reset ag m) \<le> calls m)"

definition within_limit ::
  "'a controller_env \<Rightarrow> ('a \<Rightarrow> nat) \<Rightarrow> 'a agent_spec \<Rightarrow> int \<Rightarrow> int \<Rightarrow> nat \<Rightarrow> 'a world \<Rightarrow> bool" where
  "within_limit env calls ag M C k w \<longleftrightarrow> (en_headless env \<and> counts_calls calls ag \<longrightarrow>
     w_ctls w \<noteq> [] \<and> c_agent (ctl_at w 0) = ag \<and> 0 \<le> limit_increase_amount (cf_iteration (w_flags w))
     \<and> max_value (cf_iteration (w_flags w)) = M \<and> current_value (cf_iteration (w_flags w)) \<le> M
     \<and> int (calls (c_memory (ctl_at w 0))) + int k \<le> C + current_value (cf_iteration (w_flags w)))"

lemma within_limit_ctl:
  assumes "within_limit env calls ag M C k w" and "c_agent c = c_agent (ctl_at w i)"
    and "c_memory c = c_memory (ctl_at w i) \<or> c_memory c = as_reset (c_agent (ctl_at w i)) (c_memory (ctl_at w i))"
  shows "within_limit env calls ag M C k (w\<lparr>w_ctls := (w_ctls w)[i := c]\<rparr>)"
proof -
  have "int (calls (c_memory c)) \<le> int (calls (c_memory (ctl_at w i)))"
    if "en_headless env \<and> counts_calls calls ag" "i = 0" "c_agent (ctl_at w 0) = ag"
    using assms(3) that by (auto simp: counts_calls_def)
  then show ?thesis
    using assms(1,2) by (cases "i = 0") (auto simp: within_limit_def nth_list_update)
qed

interpretation limited: world_invariant env "within_limit env calls ag M C 0" "within_limit env calls ag M C 1"
  for env :: "'a controller_env" and calls ag M C
proof
  fix w :: "'a world" and cf e u
  assume I: "within_limit env calls ag M C 0 w"
  {
    assume "run_control_flags (w_flags w) = (Inl e, cf)"
    note r = run_control_flags_iteration [OF this]
    show "within_limit env calls ag M C 0 (w\<lparr>w_flags := cf\<rparr>)" using I r by (auto simp: within_limit_def split: if_splits)
  next
    assume "run_control_flags (w_flags w) = (Inr u, cf)"
    note r = run_control_flags_iteration [OF this]
    show "within_limit env calls ag M C 1 (w\<lparr>w_flags := cf\<rparr>)" using I r by (auto simp: within_limit_def split: if_splits)
  }
next
  fix w :: "'a world" and i r mem cost
  assume J: "within_limit env calls ag M C 1 w"
    and s: "as_step (c_agent (ctl_at w i)) (c_memory (ctl_at w i)) (state_at w i) (w_cost w) = (r, mem, cost)"
  have "calls mem \<le> calls (c_memory (ctl_at w i)) + 1" if "counts_calls calls (c_agent (ctl_at w i))"
    using that s unfolding counts_calls_def by (metis fst_conv snd_conv)
  then show "within_limit env calls ag M C 0 (w\<lparr>w_cost := cost, w_ctls := (w_ctls w)[i := (ctl_at w i)\<lparr>c_memory := mem\<rparr>]\<rparr>)"
    using J by (cases "i = 0") (auto simp: within_limit_def nth_list_update)
next
  {
    fix w :: "'a world" and c :: "'a ctl" and i st fs ss
    assume I: "within_limit env calls ag M C 0 w"
    show "within_limit env calls ag M C 0 (w\<lparr>w_stream := st\<rparr>)" "within_limit env calls ag M C 0 (w\<lparr>w_sessions := fs\<rparr>)"
      "within_limit env calls ag M C 0 (w\<lparr>w_statuses := ss\<rparr>)" using I by (simp_all add: within_limit_def)
    show "within_limit env calls ag M C 0 (w\<lparr>w_flags := maybe_increase_control_flags_limits (en_headless env) (w_flags w)\<rparr>)"
      using I by (simp add: within_limit_def maybe_increase_control_flags_limits_def increase_iteration_limit_def)
    assume "c_agent c = c_agent (ctl_at w i)" "c_memory c = c_memory (ctl_at w i) \<or> c_memory c = as_reset (c_agent (ctl_at w i)) (c_memory (ctl_at w i))"
    then show "within_limit env calls ag M C 0 (w\<lparr>w_ctls := (w_ctls w)[i := c]\<rparr>)" by (rule within_limit_ctl [OF I])
  }
next
  fix w :: "'a world" and c :: "'a ctl" and i m spent
  {
    assume I: "within_limit env calls ag M C 0 w"
    show "within_limit env calls ag M C 0 (w\<lparr>w_ctls := take (Suc i) (w_ctls w) @ [c]\<rparr>)"
      "within_limit env calls ag M C 0 (w\<lparr>w_ctls := take (Suc i) (w_ctls w)\<rparr>)"
      using I by (auto simp: within_limit_def nth_append)
    show "within_limit env calls ag M C 0 (w\<lparr>w_flags := sync_budget_flag_with_metrics spent (w_flags w)\<rparr>)"
      using I by (simp add: within_limit_def sync_budget_flag_with_metrics_def)
  next
    assume J: "within_limit env calls ag M C 1 w"
    then show "within_limit env calls ag M C 0 w" by (auto simp: within_limit_def)
    show "within_limit env calls ag M C 1 (w\<lparr>w_ctls := (w_ctls w)[i := (ctl_at w i)\<lparr>c_replay := m\<rparr>]\<rparr>)"
      by (rule within_limit_ctl [OF J]) simp_all
  }
qed

section \<open>Properties\<close>

text \<open>A controller that is given events one after the other; what an event raises is logged and the next event comes.\<close>

definition run_events :: "'a controller_env \<Rightarrow> event list \<Rightarrow> 'a world \<Rightarrow> 'a world" where
  "run_events env es w = fold (\<lambda>e w. snd (on_event env e w)) es w"

lemma headless_calls_within_limit:
  assumes "en_headless env" and "counts_calls calls ag" and "w_ctls w \<noteq> []" and "c_agent (ctl_at w 0) = ag"
    and "0 \<le> limit_increase_amount (cf_iteration (w_flags w))"
    and "current_value (cf_iteration (w_flags w)) \<le> max_value (cf_iteration (w_flags w))"
  shows "int (calls (c_memory (ctl_at (run_events env es w) 0)))
    \<le> int (calls (c_memory (ctl_at w 0))) + (max_value (cf_iteration (w_flags w)) - current_value (cf_iteration (w_flags w)))"
proof -
  let ?I = "within_limit env calls ag (max_value (cf_iteration (w_flags w)))
      (int (calls (c_memory (ctl_at w 0))) - current_value (cf_iteration (w_flags w))) 0"
  have start: "?I w" using assms by (simp add: within_limit_def)
  have "?I (fold (\<lambda>e w. snd (on_event env e w)) es v)" if "?I v" for v
    using that
  proof (induction es arbitrary: v)
    case (Cons e es)
    then show ?case using limited.keeps_on_event [of env calls ag] by (simp add: keeps_def)
  qed simp
  then show ?thesis using start assms(1,2) by (fastforce simp: within_limit_def run_events_def)
qed

text \<open>C7. In headless mode the agent is asked at most as often as the limit says, whatever events arrive: loops of recoverable errors,
  restarts after errors, delegations and state changes from outside do not buy it another call.\<close>

theorem headless_agent_calls_bounded:
  assumes "en_headless env" and "counts_calls calls ag" and "w_ctls w \<noteq> []" and "c_agent (ctl_at w 0) = ag"
    and "0 \<le> limit_increase_amount (cf_iteration (w_flags w))"
    and "current_value (cf_iteration (w_flags w)) \<le> max_value (cf_iteration (w_flags w))"
  shows "int (calls (c_memory (ctl_at (run_events env es w) 0)))
    \<le> int (calls (c_memory (ctl_at w 0))) + (max_value (cf_iteration (w_flags w)) - current_value (cf_iteration (w_flags w)))"
  using assms by (rule headless_calls_within_limit)

definition demo_agent :: "nat agent_spec" where
  "demo_agent = \<lparr>as_name = ''CodeActAgent'', as_init = 0, as_reset = (\<lambda>m. m), as_step = (\<lambda>m s c. (Inr None, m + 1, c + 1)),
     as_system_message = None, as_stuck_detection = True, as_truncation = True, as_cli_mode = False\<rparr>"

definition demo_env :: "nat controller_env" where
  "demo_env = \<lparr>en_repr = (\<lambda>_. []), en_codec = strict_codec, en_now = (\<lambda>_. ''2025-01-01''), en_headless = True, en_user_id = None,
     en_file_store = True, en_agents = (\<lambda>_. Some demo_agent), en_analyzer = None, en_isinstance = (\<lambda>_ _. False), en_retries_exhausted = (\<lambda>_. False)\<rparr>"

definition demo_ctl :: "nat agent_spec \<Rightarrow> nat ctl" where
  "demo_ctl ag = \<lparr>c_id = ''c'', c_sid = Some ''c'', c_agent = ag, c_memory = 0, c_state = fresh_state\<lparr>start_id := 0, ag_state := agent_state_value RUNNING\<rparr>,
     c_pending = None, c_stuck = None, c_replay = new_replay None, c_first_user = None, c_confirmation_mode = False, c_callback = False,
     c_closed = False, c_is_delegate = False\<rparr>"

definition demo_world :: "nat ctl list \<Rightarrow> nat world" where
  "demo_world cs = \<lparr>w_stream = new_stream ''c'' [] None, w_flags = demo_flags, w_cost = 0, w_sessions = [], w_statuses = [], w_ctls = cs\<rparr>"

theorem headless_agent_calls_bounded_witness:
  "c_memory (ctl_at (run_events demo_env (replicate 5 (error_observation ''x'')) (demo_world [demo_ctl demo_agent])) 0) \<le> 2"
  using headless_agent_calls_bounded [of demo_env "\<lambda>m. m" demo_agent "demo_world [demo_ctl demo_agent]" "replicate 5 (error_observation ''x'')"]
  by (simp add: demo_env_def demo_agent_def demo_world_def demo_ctl_def counts_calls_def demo_flags_def new_flag_def)

section \<open>Results of the operations\<close>

lemma agent_state_value_inject [simp]: "agent_state_value a = agent_state_value b \<longleftrightarrow> a = b"
  by (cases a; cases b; simp)

declare agent_state_value.simps [simp del]

named_theorems op_returns \<open>what an operation that returned did\<close>

lemma bind_returns [op_returns]: "op_bind m k w = (Inr x, w') \<longleftrightarrow> (\<exists>y w1. m w = (Inr y, w1) \<and> k y w1 = (Inr x, w'))"
  by (auto simp: op_bind_def split: prod.splits sum.splits)

lemma then_returns [op_returns]: "op_then m n w = (Inr x, w') \<longleftrightarrow> (\<exists>y w1. m w = (Inr y, w1) \<and> n w1 = (Inr x, w'))"
  by (simp add: op_then_def bind_returns)

lemma simple_returns [op_returns]: "op_return y w = (Inr x, w') \<longleftrightarrow> x = y \<and> w' = w" "op_get f w = (Inr x, w') \<longleftrightarrow> x = f w \<and> w' = w"
  "op_modify g w = (Inr (), w') \<longleftrightarrow> w' = g w" "op_lift r w = (Inr x, w') \<longleftrightarrow> r = Inr x \<and> w' = w" "op_raise e w \<noteq> (Inr z, w')"
  by (auto simp: op_return_def op_get_def op_modify_def op_lift_def op_raise_def)

lemma when_returns [op_returns]: "op_when b m w = (Inr (), w') \<longleftrightarrow> (if b then m w = (Inr (), w') else w' = w)"
  by (auto simp: op_when_def op_return_def)

lemma keepsD: "keeps I m \<Longrightarrow> m w = (r, w') \<Longrightarrow> I w \<Longrightarrow> I w'"
  unfolding keeps_def by (metis snd_conv)

text \<open>After the new state is set, the rest of a state change leaves it, and the identity of the controller.\<close>

definition changed_to :: "nat \<Rightarrow> string \<Rightarrow> string option \<Rightarrow> nat \<Rightarrow> 'a world \<Rightarrow> bool" where
  "changed_to i s sid n w \<longleftrightarrow> i < n \<and> length (w_ctls w) = n \<and> ag_state (state_at w i) = s \<and> c_sid (ctl_at w i) = sid"

lemma keeps_changed:
  "keeps (changed_to i s sid n) (emit_event env e src)" "keeps (changed_to i s sid n) (emit_pending env i e src)"
  "keeps (changed_to i s sid n) (reset env i)" "keeps (changed_to i s sid n) (save_state env i)"
  "keeps (changed_to i s sid n) (op_modify (\<lambda>w. w\<lparr>w_flags := f w\<rparr>))"
proof -
  have "keeps (changed_to i s sid n) (emit env e src)" for e src
    by (simp add: keeps_def emit_def changed_to_def split: prod.splits)
  then show e: "keeps (changed_to i s sid n) (emit_event env e src)" for e src unfolding emit_event_def by (intro keeps_rules)
  show "keeps (changed_to i s sid n) (emit_pending env i e src)"
    by (auto simp: keeps_def emit_pending_def changed_to_def split: prod.splits)
  have "keeps (changed_to i s sid n) (on_ctl i (\<lambda>c. c\<lparr>c_pending := None, c_memory := as_reset (c_agent c) (c_memory c)\<rparr>))"
    unfolding on_ctl_def by (rule keeps_modify) (simp add: changed_to_def)
  then show "keeps (changed_to i s sid n) (reset env i)" unfolding reset_def by (intro keeps_rules e)
  show "keeps (changed_to i s sid n) (save_state env i)"
    unfolding save_state_def by (rule keeps_modify) (simp add: changed_to_def split: option.splits)
  show "keeps (changed_to i s sid n) (op_modify (\<lambda>w. w\<lparr>w_flags := f w\<rparr>))"
    by (rule keeps_modify) (simp add: changed_to_def)
qed

text \<open>The parts of a state change that returns.\<close>

lemma set_agent_state_parts:
  assumes "set_agent_state_to env i s w = (Inr (), w')" and "s \<noteq> ag_state (state_at w i)"
  obtains w0 w1 w2 w3 w4 where "on_state i (\<lambda>d. d\<lparr>ag_state := s\<rparr>) w = (Inr (), w0)"
    and "op_when (s = agent_state_value STOPPED \<or> s = agent_state_value ERROR_STATE) (reset env i) w0 = (Inr (), w1)"
    and "op_when (ag_state (state_at w i) = agent_state_value ERROR_STATE \<and> s = agent_state_value RUNNING)
          (op_modify (\<lambda>w. w\<lparr>w_flags := maybe_increase_control_flags_limits (en_headless env) (w_flags w)\<rparr>)) w1 = (Inr (), w2)"
    and "(case c_pending (ctl_at w2 i) of None \<Rightarrow> op_return ()
          | Some p \<Rightarrow> op_when (s = agent_state_value USER_CONFIRMED \<or> s = agent_state_value USER_REJECTED)
              (emit_pending env i (answered s p) AGENT_SOURCE)) w2 = (Inr (), w3)"
    and "emit_event env (state_changed (ag_state (state_at w3 i)) (if s = agent_state_value ERROR_STATE then last_error (state_at w3 i) else []))
        ENVIRONMENT_SOURCE w3 = (Inr (), w4)"
    and "save_state env i w4 = (Inr (), w')"
  using assms by (auto simp: set_agent_state_to_def bind_returns then_returns simple_returns)

lemma set_agent_state_split:
  assumes "set_agent_state_to env i s w = (Inr (), w')" and "s \<noteq> ag_state (state_at w i)" and "i < length (w_ctls w)"
  obtains w1 where "changed_to i s (c_sid (ctl_at w i)) (length (w_ctls w)) w1" and "save_state env i w1 = (Inr (), w')"
  using assms(1,2)
proof (rule set_agent_state_parts)
  let ?C = "changed_to i s (c_sid (ctl_at w i)) (length (w_ctls w))"
  fix w0 w1 w2 w3 w4
  assume w0: "on_state i (\<lambda>d. d\<lparr>ag_state := s\<rparr>) w = (Inr (), w0)"
    and w1: "op_when (s = agent_state_value STOPPED \<or> s = agent_state_value ERROR_STATE) (reset env i) w0 = (Inr (), w1)"
    and w2: "op_when (ag_state (state_at w i) = agent_state_value ERROR_STATE \<and> s = agent_state_value RUNNING)
          (op_modify (\<lambda>w. w\<lparr>w_flags := maybe_increase_control_flags_limits (en_headless env) (w_flags w)\<rparr>)) w1 = (Inr (), w2)"
    and w3: "(case c_pending (ctl_at w2 i) of None \<Rightarrow> op_return ()
          | Some p \<Rightarrow> op_when (s = agent_state_value USER_CONFIRMED \<or> s = agent_state_value USER_REJECTED)
              (emit_pending env i (answered s p) AGENT_SOURCE)) w2 = (Inr (), w3)"
    and w4: "emit_event env (state_changed (ag_state (state_at w3 i)) (if s = agent_state_value ERROR_STATE then last_error (state_at w3 i) else []))
        ENVIRONMENT_SOURCE w3 = (Inr (), w4)"
    and sv: "save_state env i w4 = (Inr (), w')"
  have "?C w0" using w0 assms(3) by (simp add: on_state_def on_ctl_def simple_returns changed_to_def)
  then have "?C w1" by (rule keepsD [OF keeps_when [OF keeps_changed(3)] w1])
  then have "?C w2" by (rule keepsD [OF keeps_when [OF keeps_changed(5)] w2])
  moreover have "keeps ?C (case c_pending (ctl_at w2 i) of None \<Rightarrow> op_return ()
          | Some p \<Rightarrow> op_when (s = agent_state_value USER_CONFIRMED \<or> s = agent_state_value USER_REJECTED)
              (emit_pending env i (answered s p) AGENT_SOURCE))" by (intro keeps_rules keeps_changed)
  ultimately have "?C w3" using w3 keepsD by blast
  then have "?C w4" by (rule keepsD [OF keeps_changed(1) w4])
  then show thesis using that sv by blast
qed




text \<open>Stopping an agent, or an error, leaves nothing pending: the agent is reset and a later start begins with a free hand.\<close>

theorem stopped_agent_is_idle:
  assumes "set_agent_state_to env i s w = (Inr (), w')" and "s \<noteq> ag_state (state_at w i)" and "i < length (w_ctls w)"
    and "s = agent_state_value STOPPED \<or> s = agent_state_value ERROR_STATE"
  shows "c_pending (ctl_at w' i) = None \<and> step env i w' = (Inr (), w')"
proof -
  let ?C = "\<lambda>w. i < length (w_ctls w) \<and> c_pending (ctl_at w i) = None"
  have sd: "s \<noteq> agent_state_value RUNNING" "s \<noteq> agent_state_value USER_CONFIRMED" "s \<noteq> agent_state_value USER_REJECTED"
    using assms(4) by auto
  obtain w0 w1 w2 w3 w4 where w0: "on_state i (\<lambda>d. d\<lparr>ag_state := s\<rparr>) w = (Inr (), w0)"
    and w1: "op_when (s = agent_state_value STOPPED \<or> s = agent_state_value ERROR_STATE) (reset env i) w0 = (Inr (), w1)"
    and w2: "op_when (ag_state (state_at w i) = agent_state_value ERROR_STATE \<and> s = agent_state_value RUNNING)
          (op_modify (\<lambda>w. w\<lparr>w_flags := maybe_increase_control_flags_limits (en_headless env) (w_flags w)\<rparr>)) w1 = (Inr (), w2)"
    and w3: "(case c_pending (ctl_at w2 i) of None \<Rightarrow> op_return ()
          | Some p \<Rightarrow> op_when (s = agent_state_value USER_CONFIRMED \<or> s = agent_state_value USER_REJECTED)
              (emit_pending env i (answered s p) AGENT_SOURCE)) w2 = (Inr (), w3)"
    and w4: "emit_event env (state_changed (ag_state (state_at w3 i)) (if s = agent_state_value ERROR_STATE then last_error (state_at w3 i) else []))
        ENVIRONMENT_SOURCE w3 = (Inr (), w4)"
    and sv: "save_state env i w4 = (Inr (), w')"
    by (rule set_agent_state_parts [OF assms(1,2)])
  have e: "keeps (\<lambda>w. i < length (w_ctls w)) (emit_event env e src)" "keeps ?C (emit_event env e src)" for e src
  proof -
    have k: "keeps (\<lambda>w. i < length (w_ctls w)) (emit env e src)" "keeps ?C (emit env e src)" by (simp_all add: keeps_def emit_def split: prod.splits)
    show "keeps (\<lambda>w. i < length (w_ctls w)) (emit_event env e src)" "keeps ?C (emit_event env e src)"
      unfolding emit_event_def by (intro keeps_rules k)+
  qed
  have "i < length (w_ctls w0)" using w0 assms(3) by (simp add: on_state_def on_ctl_def simple_returns)
  moreover have "reset env i w0 = (Inr (), w1)" using w1 assms(4) by (simp add: when_returns)
  ultimately have "?C w1"
    using keepsD [OF e(1)] by (auto simp: reset_def bind_returns then_returns simple_returns on_ctl_def op_when_def split: option.splits if_splits)
  moreover have "w2 = w1" using w2 sd(1) by (simp add: when_returns)
  ultimately have "?C w3" using w3 by (simp add: simple_returns)
  then have "?C w4" by (rule keepsD [OF e(2) w4])
  then have p: "c_pending (ctl_at w' i) = None" using sv by (auto simp: save_state_def simple_returns split: option.splits)
  have "ag_state (state_at w' i) = s"
    using set_agent_state_split [OF assms(1-3)] keepsD [OF keeps_changed(4)] by (metis changed_to_def)
  then show ?thesis using p sd(1) by (simp add: step_def op_bind_def op_get_def in_state_def op_return_def)
qed

theorem stopped_agent_is_idle_witness:
  "\<exists>w'. set_agent_state_to demo_env 0 (agent_state_value STOPPED) (demo_world [(demo_ctl demo_agent)\<lparr>c_pending := Some demo_act\<rparr>]) = (Inr (), w')
    \<and> c_pending (ctl_at w' 0) = None"
proof -
  let ?w = "demo_world [(demo_ctl demo_agent)\<lparr>c_pending := Some demo_act\<rparr>]"
  have "fst (set_agent_state_to demo_env 0 (agent_state_value STOPPED) ?w) = Inr ()" by code_simp
  then obtain w' where w': "set_agent_state_to demo_env 0 (agent_state_value STOPPED) ?w = (Inr (), w')" by (metis prod.collapse)
  with stopped_agent_is_idle [OF w'] show ?thesis by (simp add: demo_world_def demo_ctl_def)
qed

section \<open>Waiting for the user\<close>

text \<open>While the user is asked for a confirmation, observations are only remembered: neither the pending action nor the state changes, nothing
  is added to the stream and the agent is not asked.\<close>

theorem waiting_for_confirmation:
  assumes "in_state w i AWAITING_USER_CONFIRMATION" and "is_observation ob" and "i < length (w_ctls w)"
    and "\<not> py_truthy (get_attr ob ''hidden'' (PBool False))"
  shows "on_event_at env i ob w = (Inr (), w\<lparr>w_ctls := (w_ctls w)[i := (ctl_at w i)\<lparr>c_state := add_history ob (state_at w i)\<rparr>]\<rparr>)"
proof -
  let ?w = "w\<lparr>w_ctls := (w_ctls w)[i := (ctl_at w i)\<lparr>c_state := add_history ob (state_at w i)\<rparr>]\<rparr>"
  have s: "ag_state (state_at ?w i) = agent_state_value AWAITING_USER_CONFIRMATION"
    using assms(1,3) by (simp add: in_state_def add_history_def)
  have h: "handle_observation env i ob ?w = (Inr (), ?w)"
    using s assms(3) by (simp add: handle_observation_def op_bind_def op_get_def in_state_def op_when_def op_return_def split: option.splits)
  have st: "step env i ?w = (Inr (), ?w)"
    using s assms(3) by (simp add: step_def op_bind_def op_get_def in_state_def op_return_def)
  have a: "\<not> is_action ob" using assms(2) by (simp add: is_observation_iff)
  show ?thesis
    using assms(4) a h st
    by (simp add: on_event_at_def op_then_def op_bind_def on_state_def on_ctl_def op_modify_def op_get_def op_when_def op_return_def
        step_with_exception_handling_def)
qed

theorem waiting_for_confirmation_witness:
  "\<exists>w'. on_event_at demo_env 0 demo_obs (demo_world [(demo_ctl demo_agent)\<lparr>c_state := fresh_state\<lparr>ag_state := agent_state_value AWAITING_USER_CONFIRMATION\<rparr>\<rparr>])
    = (Inr (), w') \<and> c_memory (ctl_at w' 0) = 0"
proof -
  let ?w = "demo_world [(demo_ctl demo_agent)\<lparr>c_state := fresh_state\<lparr>ag_state := agent_state_value AWAITING_USER_CONFIRMATION\<rparr>\<rparr>]"
  have "is_observation demo_obs" "\<not> py_truthy (get_attr demo_obs ''hidden'' (PBool False))" by code_simp+
  with waiting_for_confirmation [of ?w 0 demo_obs demo_env] show ?thesis by (simp add: in_state_def demo_world_def demo_ctl_def)
qed

text \<open>Reading an attribute that was set.\<close>

lemma get_set_attr [simp]: "get_attr (set_attr k v e) k d = v"
proof (cases "k \<in> set (dict_keys (e_fields e))")
  case True
  then show ?thesis by (simp add: get_attr_def set_attr_def)
next
  case False
  then have "dict_get (e_fields e) k = None" by (simp add: map_of_eq_None_iff)
  then show ?thesis using False by (simp add: get_attr_def set_attr_def dict_get_default_def)
qed

lemma get_attr_missing: "\<not> has_attr e k \<Longrightarrow> get_attr e k d = d"
proof -
  assume "\<not> has_attr e k"
  then have "dict_get (e_fields e) k = None" "dict_get (e_attrs e) k = None" by (simp_all add: has_attr_def map_of_eq_None_iff)
  then show ?thesis by (simp add: get_attr_def dict_get_default_def)
qed

lemma set_attr_class [simp]: "e_class (set_attr k v e) = e_class e"
  by (simp add: set_attr_def)

lemma add_event_attrs:
  "add_event rp cd now e src st = (r, e', st') \<Longrightarrow> e_fields e' = e_fields e \<and> e_attrs e' = e_attrs e"
  by (auto simp: add_event_def Let_def split: if_splits sum.splits prod.splits)

lemma emit_pending_returns:
  assumes "emit_pending env i a src w = (Inr (), w')" and "i < length (w_ctls w)"
  shows "ag_state (state_at w' i) = ag_state (state_at w i)" and "\<exists>p. c_pending (ctl_at w' i) = Some p \<and> get_attr p k d = get_attr a k d"
proof -
  obtain r e' st where a: "add_event (en_repr env) (en_codec env) (en_now env (cur_id (w_stream w))) a src (w_stream w) = (r, e', st)"
    by (metis prod_cases3)
  then have w': "w' = w\<lparr>w_stream := st, w_ctls := (w_ctls w)[i := (ctl_at w i)\<lparr>c_pending := Some e'\<rparr>]\<rparr>"
    using assms(1) by (simp add: emit_pending_def)
  then show "ag_state (state_at w' i) = ag_state (state_at w i)" using assms(2) by simp
  have "get_attr e' k d = get_attr a k d" using add_event_attrs [OF a] unfolding get_attr_def by metis
  then show "\<exists>p. c_pending (ctl_at w' i) = Some p \<and> get_attr p k d = get_attr a k d" using w' assms(2) by simp
qed

text \<open>C6. In confirmation mode without an analyzer the agent cannot act alone: each action on the machine, of any of the eight kinds, that a
  step publishes leaves the controller waiting for the user, with the action pending and marked.\<close>

theorem risky_action_waits:
  assumes "confirmation_mode (state_at w i)" and "c_confirmation_mode (ctl_at w i)" and "en_analyzer env = None"
    and "e_class a = Act k" and "k \<in> set CONFIRMED_CLASSES" and "i < length (w_ctls w)"
    and "publish_action env i a w = (Inr (), w')"
  shows "in_state w' i AWAITING_USER_CONFIRMATION
    \<and> (\<exists>p. c_pending (ctl_at w' i) = Some p \<and> get_attr p ''confirmation_state'' PNone = AWAITING_CONFIRMATION)"
proof -
  let ?b = "ask_confirmation env (ctl_at w i) a" and ?w0 = "w\<lparr>w_ctls := (w_ctls w)[i := (ctl_at w i)\<lparr>c_pending := Some (ask_confirmation env (ctl_at w i) a)\<rparr>]\<rparr>"
  have cl: "list_ex (\<lambda>k. is_a k a) CONFIRMED_CLASSES" using assms(4,5) by (auto simp: list_ex_iff is_a_def)
  have risk: "get_attr (handle_security_analyzer env a) ''security_risk'' RISK_UNKNOWN = RISK_UNKNOWN"
    using assms(3) by (simp add: handle_security_analyzer_def get_attr_missing)
  have b: "?b = set_attr ''confirmation_state'' AWAITING_CONFIRMATION (handle_security_analyzer env a)"
    using assms(1-3) cl risk by (simp add: ask_confirmation_def Let_def)
  have c: "get_attr ?b ''confirmation_state'' PNone = AWAITING_CONFIRMATION" "e_class ?b = Act k"
    using b assms(4) by (simp_all add: handle_security_analyzer_def)
  have r: "runnable a" "runnable ?b" "\<not> is_a NullAction ?b"
    using c(2) assms(4,5) by (auto simp: runnable_def CONFIRMED_CLASSES_def is_a_def) code_simp+
  obtain w1 src where w1: "set_agent_state_to env i (agent_state_value AWAITING_USER_CONFIRMATION) ?w0 = (Inr (), w1)"
    and e: "emit_pending env i ?b src w1 = (Inr (), w')"
    using assms(7) r c(1) by (auto simp: publish_action_def bind_returns then_returns simple_returns when_returns on_ctl_def split: option.splits)
  have "ag_state (state_at w1 i) = agent_state_value AWAITING_USER_CONFIRMATION \<and> i < length (w_ctls w1)"
  proof (cases "ag_state (state_at ?w0 i) = agent_state_value AWAITING_USER_CONFIRMATION")
    case True
    then show ?thesis using w1 assms(6) by (auto simp: set_agent_state_to_def op_bind_def op_get_def op_return_def)
  next
    case False
    have l: "i < length (w_ctls ?w0)" using assms(6) by simp
    obtain w2 where "changed_to i (agent_state_value AWAITING_USER_CONFIRMATION) (c_sid (ctl_at ?w0 i)) (length (w_ctls ?w0)) w2"
      and "save_state env i w2 = (Inr (), w1)"
      by (rule set_agent_state_split [OF w1 False [symmetric] l])
    from keepsD [OF keeps_changed(4) this(2,1)] show ?thesis by (simp add: changed_to_def)
  qed
  then show ?thesis
    using emit_pending_returns(1) [OF e] emit_pending_returns(2) [OF e, of "''confirmation_state''" PNone] c(1) by (simp add: in_state_def)
qed


definition demo_asking :: "nat ctl" where
  "demo_asking = (demo_ctl demo_agent)\<lparr>c_state := fresh_state\<lparr>start_id := 0, ag_state := agent_state_value RUNNING, confirmation_mode := True\<rparr>,
     c_confirmation_mode := True\<rparr>"

definition demo_write :: event where
  "demo_write = (make_act FileWriteAction [(''path'', PStr ''/a''), (''content'', PStr ''x'')])\<lparr>e_source := Some AGENT_SOURCE\<rparr>"

theorem risky_action_waits_witness:
  "\<exists>w'. publish_action demo_env 0 demo_write (demo_world [demo_asking]) = (Inr (), w') \<and> in_state w' 0 AWAITING_USER_CONFIRMATION"
proof -
  have "fst (publish_action demo_env 0 demo_write (demo_world [demo_asking])) = Inr ()" by code_simp
  then obtain w' where w': "publish_action demo_env 0 demo_write (demo_world [demo_asking]) = (Inr (), w')" by (metis prod.collapse)
  have "e_class demo_write = Act FileWriteAction" "FileWriteAction \<in> set CONFIRMED_CLASSES" by code_simp+
  with risky_action_waits [OF _ _ _ this(1,2) _ w'] w' show ?thesis by (auto simp: demo_world_def demo_asking_def demo_env_def)
qed

text \<open>The mark that the action waits does not reach the runtime for six of the eight kinds: it is a field only of shell and notebook
  commands, and of the others the stream keeps the fields only. The copy handed to the subscribers is not marked while the
  user is still being asked.\<close>

theorem waiting_mark_lost:
  "(case publish_action demo_env 0 demo_write (demo_world [demo_asking]) of
      (r, w) \<Rightarrow> r = Inr () \<and> in_state w 0 AWAITING_USER_CONFIRMATION
        \<and> map e_class (st_queue (w_stream w)) = [Obs AgentStateChangedObservation, Act FileWriteAction]
        \<and> \<not> has_attr (last (st_queue (w_stream w))) ''confirmation_state'')"
  by code_simp

section \<open>Delegates\<close>

lemma init_history_mode: "init_history rp cd st s = Inr s' \<Longrightarrow> confirmation_mode s' = confirmation_mode s"
  by (auto simp: init_history_def Let_def split: if_splits)

text \<open>A delegate works without confirmation even when its parent was started in confirmation mode: its state and its controller have the mode
  off, and so none of its actions ever waits for the user.\<close>

theorem delegate_never_asks:
  assumes "start_delegate env i a w = (Inr (), w')" and "i < length (w_ctls w)"
  shows "length (w_ctls w') = i + 2 \<and> \<not> confirmation_mode (state_at w' (i + 1)) \<and> \<not> c_confirmation_mode (ctl_at w' (i + 1))
    \<and> (\<forall>b. ask_confirmation env (ctl_at w' (i + 1)) b = b)"
proof -
  obtain agent c w1 where c: "new_controller env (Some (c_id (ctl_at w i) @ ''-delegate'')) (c_id (ctl_at w i) @ ''-delegate'') agent
        (delegate_state w i env a) False False True None w = Inr c"
    and m: "add_system_message env agent (start_id (c_state c)) w = (Inr (), w1)" and w': "w' = w1\<lparr>w_ctls := take (i + 1) (w_ctls w1) @ [c]\<rparr>"
    using assms(1) by (auto simp: start_delegate_def bind_returns then_returns simple_returns Let_def)
  have "keeps (\<lambda>v. w_ctls v = w_ctls w) (emit env e src)" for e src by (simp add: keeps_def emit_def split: prod.splits)
  then have "keeps (\<lambda>v. w_ctls v = w_ctls w) (add_system_message env agent (start_id (c_state c)))"
    unfolding add_system_message_def emit_event_def by (intro keeps_rules)
  from keepsD [OF this m] have "w_ctls w1 = w_ctls w" by simp
  then have at: "w_ctls w' = take (i + 1) (w_ctls w) @ [c]" using w' by simp
  have "\<not> confirmation_mode (c_state c)" "\<not> c_confirmation_mode c"
    using c by (auto simp: new_controller_def delegate_state_def fresh_state_def dest!: init_history_mode)
  moreover have "ctl_at w' (i + 1) = c" using at assms(2) by (simp add: nth_append)
  moreover have "length (w_ctls w') = i + 2" using at assms(2) by simp
  ultimately show ?thesis by (simp add: ask_confirmation_def)
qed

theorem delegate_never_asks_witness:
  "\<exists>w'. start_delegate demo_env 0 demo_delegate (demo_world [demo_asking]) = (Inr (), w') \<and> \<not> confirmation_mode (state_at w' 1)"
proof -
  have "fst (start_delegate demo_env 0 demo_delegate (demo_world [demo_asking])) = Inr ()" by code_simp
  then obtain w' where w': "start_delegate demo_env 0 demo_delegate (demo_world [demo_asking]) = (Inr (), w')" by (metis prod.collapse)
  with delegate_never_asks [OF w'] show ?thesis by (simp add: demo_world_def)
qed

text \<open>A delegate of a delegate is out of reach of events: the predicate that it is still there, unchanged.\<close>

definition innermost :: "'a ctl \<Rightarrow> 'a world \<Rightarrow> bool" where
  "innermost c w \<longleftrightarrow> 3 \<le> length (w_ctls w) \<and> ctl_at w 2 = c"

interpretation starved: world_frame env "innermost c" 1
  for env :: "'a controller_env" and c
  by unfold_locales (simp_all add: innermost_def)

lemma keepsE: "keeps I m \<Longrightarrow> I w \<Longrightarrow> I (snd (m w))"
  by (simp add: keeps_def)

lemma starved_event:
  assumes "\<not> is_a AgentDelegateAction e"
  shows "keeps (innermost c) (on_event_at env 1 e)"
proof -
  have "should_step 1 e w = False" if "innermost c w" for w
    using that by (simp add: innermost_def should_step_def has_delegate_def)
  then have "keeps (innermost c) (op_bind (op_get (should_step 1 e)) (\<lambda>b. op_when b (step_with_exception_handling env 1)))"
    by (simp add: keeps_def op_bind_def op_get_def op_when_def op_return_def)
  then show ?thesis
    unfolding on_event_at_def
    by (rule keeps_if [OF keeps_simple(1) keeps_then [OF starved.keeps_on_state keeps_then [OF keeps_if [OF starved.keeps_action [OF assms] starved.keeps_observation]]]])
qed

text \<open>Events are handed to the root or to its delegate, never further: a delegate started by a delegate stays as it was, whatever
  arrives, until the delegate above it is ended; it is never asked for a step. Meanwhile that delegate does not step either.\<close>

theorem nested_delegate_starves:
  assumes "3 \<le> length (w_ctls w)" and "\<not> is_a AgentDelegateAction e"
  shows "(3 \<le> length (w_ctls (snd (on_event env e w))) \<and> ctl_at (snd (on_event env e w)) 2 = ctl_at w 2)
    \<or> length (w_ctls (snd (on_event env e w))) = 1"
proof -
  have P: "innermost (ctl_at w 2) w" and d: "has_delegate 0 w" using assms(1) by (simp_all add: innermost_def has_delegate_def)
  show ?thesis
  proof (cases "delegate_active (state_at w 1)")
    case True
    then have "on_event env e w = on_event_at env 1 e w" using d by (simp add: on_event_def op_bind_def op_get_def)
    then show ?thesis using keepsE [OF starved_event [OF assms(2)] P, of env] by (simp add: innermost_def)
  next
    case False
    then have "on_event env e w = end_delegate env 0 w" using d by (simp add: on_event_def op_bind_def op_get_def)
    moreover obtain r1 w1 where 1: "close_controller env 1 True w = (r1, w1)" by fastforce
    moreover have w1: "innermost (ctl_at w 2) w1" using keepsE [OF starved.keeps_close P, of env True] 1 by simp
    moreover define ob where "ob = delegate_result env (as_name (c_agent (ctl_at w1 (0 + 1)))) (ag_state (state_at w (0 + 1)))
        (outputs (state_at w1 (0 + 1))) (history (state_at w1 0))"
    moreover obtain r2 w2 where 2: "emit_event env ob AGENT_SOURCE w1 = (r2, w2)" by fastforce
    moreover have "innermost (ctl_at w 2) w2" using keepsE [OF starved.keeps_emit(1) w1, of env ob AGENT_SOURCE] 2 by simp
    ultimately show ?thesis
      using d by (cases r1; cases r2) (simp_all add: end_delegate_def op_bind_def op_then_def op_get_def op_modify_def innermost_def)
  qed
qed

theorem nested_delegate_starves_witness:
  "length (w_ctls (snd (on_event demo_env demo_obs (demo_world [demo_ctl demo_agent, demo_ctl demo_agent, demo_ctl demo_agent])))) = 1
   \<or> ctl_at (snd (on_event demo_env demo_obs (demo_world [demo_ctl demo_agent, demo_ctl demo_agent, demo_ctl demo_agent]))) 2 = demo_ctl demo_agent"
proof -
  have "\<not> is_a AgentDelegateAction demo_obs" by code_simp
  with nested_delegate_starves [of "demo_world [demo_ctl demo_agent, demo_ctl demo_agent, demo_ctl demo_agent]" demo_obs demo_env]
  show ?thesis by (auto simp: demo_world_def)
qed

text \<open>A delegate that stops at its iteration limit goes on receiving events; one that stops at its budget is ended, although both are meant to go
  on: the text that is looked for lacks the blank after the colon.\<close>

definition stopped_by :: "py_exn \<Rightarrow> agent_data" where
  "stopped_by e = fresh_state\<lparr>ag_state := agent_state_value ERROR_STATE, last_error := exn_class e @ '': '' @ exn_text e\<rparr>"

theorem budget_stop_ends_delegate:
  "(case fst (iteration_step (flag_of 5 5)) of Inl e \<Rightarrow> delegate_active (stopped_by e) | Inr _ \<Rightarrow> False)
   \<and> (case fst (budget_step \<lparr>limit_increase_amount = 1, current_value = 2, max_value = 1, hit_limit = False\<rparr>) of
        Inl e \<Rightarrow> \<not> delegate_active (stopped_by e) | Inr _ \<Rightarrow> False)"
  by code_simp

section \<open>Recovery from loops\<close>

text \<open>After a recovery the state ends at the last event that was kept, for good: however many events the stream gets, the history that is
  read back or rebuilt when the controller is closed stops there.\<close>

theorem recovery_fixes_end:
  assumes "truncate_memory_to_point i n w = (Inr (), w')" and "i < length (w_ctls w)" and "0 < n" and "n < length (history (state_at w i))"
    and "0 \<le> event_id (history (state_at w i) ! (n - 1))"
  shows "history (state_at w' i) = take n (history (state_at w i))
    \<and> snd (tracked_range st (state_at w' i)) = event_id (history (state_at w i) ! (n - 1))"
proof -
  let ?h = "history (state_at w i)"
  have "w' = w\<lparr>w_ctls := (w_ctls w)[i := (ctl_at w i)\<lparr>c_state := (state_at w i)\<lparr>history := take n ?h,
      end_id := (if take n ?h = [] then - 1 else event_id (last (take n ?h)))\<rparr>, c_first_user := None\<rparr>]\<rparr>"
    using assms(1,4) by (simp add: truncate_memory_to_point_def bind_returns simple_returns when_returns on_ctl_def)
  moreover have "last (take n ?h) = ?h ! (n - 1)" using assms(3,4) by (subst last_conv_nth) auto
  moreover have "take n ?h \<noteq> []" using assms(3,4) by auto
  ultimately show ?thesis using assms(2,5) by (simp add: tracked_range_def)
qed

theorem recovery_fixes_end_witness:
  "\<exists>w'. truncate_memory_to_point 0 2 (demo_world [(demo_ctl demo_agent)\<lparr>c_state := fresh_state\<lparr>history := [at_id 0 demo_act, at_id 1 demo_act, at_id 2 demo_act]\<rparr>\<rparr>])
      = (Inr (), w') \<and> snd (tracked_range (new_stream ''c'' [] None :: string event_stream) (state_at w' 0)) = 1"
proof -
  let ?w = "demo_world [(demo_ctl demo_agent)\<lparr>c_state := fresh_state\<lparr>history := [at_id 0 demo_act, at_id 1 demo_act, at_id 2 demo_act]\<rparr>\<rparr>]"
  have "fst (truncate_memory_to_point 0 2 ?w) = Inr ()" by code_simp
  then obtain w' where w': "truncate_memory_to_point 0 2 ?w = (Inr (), w')" by (metis prod.collapse)
  with recovery_fixes_end [OF w', where st = "new_stream ''c'' [] None :: string event_stream"] w' show ?thesis by (simp add: demo_world_def at_id_def event_id_def)
qed

text \<open>The position of a loop counts only the events the detector looks at, but the history is cut at it with all its events: messages of the
  user before the loop move the cut back. Here two messages and a thought come before the loop, and only the first message is kept.\<close>

theorem recovery_point_off:
  "(case is_stuck True ([at_id 0 demo_user, at_id 1 demo_user, at_id 2 (make_act AgentThinkAction [])] @ demo_loop) None of
      (True, Some a) \<Rightarrow> loop_start_idx a = 1 | _ \<Rightarrow> False)"
  by code_simp

end
