(* ===== verification/Runtime_Gate.thy ===== *)
theory Runtime_Gate
  imports Agent_Controller
begin

text \<open>
  How the runtime takes actions from the stream: \<open>on_event\<close>, \<open>_handle_action\<close> and \<open>run_action\<close> of \<open>runtime/base.py\<close>, and
  the search for provider tokens of \<open>integrations/provider.py\<close>. What a runtime does with a runnable action, its MCP client and the
  refresh of tokens are parameters; the entries of a task list are dictionaries, as their type says.
\<close>

record runtime =
  rt_sid :: string
  rt_user_id :: "string option"
  rt_timeout :: rat
  rt_supports :: "string \<Rightarrow> bool" \<comment> \<open>\<open>hasattr(self, action_type)\<close>\<close>
  rt_execute :: "event \<Rightarrow> event res" \<comment> \<open>the method named like the action\<close>
  rt_call_tool_mcp :: "event \<Rightarrow> event res"
  rt_export_tokens :: "string list \<Rightarrow> unit res"
  rt_disconnected :: "py_exn \<Rightarrow> bool" \<comment> \<open>a network error of the client library\<close>

section \<open>Provider tokens\<close>

definition provider_types :: "string list" where
  "provider_types = [''github'', ''gitlab'', ''bitbucket'', ''bitbucket_data_center'', ''forgejo'', ''azure_devops'', ''enterprise_sso'']"

definition get_provider_env_key :: "string \<Rightarrow> string" where
  "get_provider_env_key p = lower (p @ ''_token'')"

definition check_cmd_action_for_provider_token_ref :: "event \<Rightarrow> string list" where
  "check_cmd_action_for_provider_token_ref e =
     (if \<not> is_a CmdRunAction e then []
      else filter (\<lambda>p. contains (get_provider_env_key p) (lower (event_text e ''command''))) provider_types)"

definition export_latest_git_provider_tokens :: "runtime \<Rightarrow> event \<Rightarrow> unit res" where
  "export_latest_git_provider_tokens rt e =
     (let called = check_cmd_action_for_provider_token_ref e in if called = [] then Inr () else rt_export_tokens rt called)"

section \<open>Running an action\<close>

definition status_icon :: "pyval \<Rightarrow> string" where
  "status_icon status =
     (if status = PStr ''in_progress'' then map char_of [240 :: nat, 159, 148, 132]
      else if status = PStr ''done'' then check_mark
      else map char_of [226 :: nat, 143, 179])"

definition value_text :: "(pyval \<Rightarrow> string) \<Rightarrow> pyval \<Rightarrow> string" where
  "value_text rp v = (case v of PStr s \<Rightarrow> s | _ \<Rightarrow> rp v)"

definition task_line :: "(pyval \<Rightarrow> string) \<Rightarrow> nat \<times> pyval \<Rightarrow> string" where
  "task_line rp it =
     (let t = dict_val (snd it) in
      nat_str (fst it) @ ''. '' @ status_icon (dict_get_default t ''status'' (PStr ''todo'')) @ '' ''
      @ value_text rp (dict_get_default t ''title'' (PStr [])) @ [nl] @ value_text rp (dict_get_default t ''notes'' (PStr [])) @ [nl])"

definition task_observation :: "event \<Rightarrow> string \<Rightarrow> pyval \<Rightarrow> event" where
  "task_observation a content tasks = make_obs TaskTrackingObservation
     [(''content'', PStr content), (''command'', get_attr a ''command'' PNone), (''task_list'', tasks)]"

definition task_list_text :: "(pyval \<Rightarrow> string) \<Rightarrow> event \<Rightarrow> string" where
  "task_list_text rp a = ''# Task List'' @ [nl, nl] @ concat (map (task_line rp) (enumerate 1 (list_of (e_fields a) ''task_list'')))"

definition track_tasks :: "(pyval \<Rightarrow> string) \<Rightarrow> runtime \<Rightarrow> event \<Rightarrow> file_store \<Rightarrow> event \<times> file_store" where
  "track_tasks rp rt a fs =
     (let path = get_conversation_dir (rt_sid rt) (rt_user_id rt) @ ''TASKS.md'';
          tasks = list_of (e_fields a) ''task_list''
      in if event_text a ''command'' = ''plan'' then
           (task_observation a (''Task list has been updated with '' @ nat_str (length tasks) @ '' items. Stored in session directory: '' @ path)
              (PList tasks),
            fs_write path (PStr (task_list_text rp a)) fs)
         else if event_text a ''command'' = ''view'' then
           (case fs_read path fs of
              Inr content \<Rightarrow> (task_observation a (text_val content) (PList []), fs)
            | Inl _ \<Rightarrow> (task_observation a (''No task list found. Use the '' @ [CHR 0x22] @ ''plan'' @ [CHR 0x22] @ '' command to create one.'') (PList []), fs))
         else (task_observation a (''Unknown command: '' @ event_text a ''command'') (PList []), fs))"

definition null_observation :: event where
  "null_observation = make_obs NullObservation [(''content'', PStr [])]"

definition run_action :: "(pyval \<Rightarrow> string) \<Rightarrow> runtime \<Rightarrow> event \<Rightarrow> file_store \<Rightarrow> event res \<times> file_store" where
  "run_action rp rt a fs =
     (if \<not> runnable a then
        if is_a AgentThinkAction a then (Inr (make_obs AgentThinkObservation [(''content'', PStr ''Your thought has been logged.'')]), fs)
        else if is_a TaskTrackingAction a then (let (ob, fs) = track_tasks rp rt a fs in (Inr ob, fs))
        else (Inr null_observation, fs)
      else if get_attr a ''confirmation_state'' PNone = AWAITING_CONFIRMATION then (Inr null_observation, fs)
      else let action_type = event_text a ''action'' in
        if action_type \<notin> set (dict_keys ACTION_TYPE_TO_CLASS)
        then (Inr (error_observation (''Action '' @ action_type @ '' does not exist.'')), fs)
        else if \<not> rt_supports rt action_type
        then (Inr (error_observation (''Action '' @ action_type @ '' is not supported in the current runtime.'')), fs)
        else if get_attr a ''confirmation_state'' PNone = REJECTED_ACTION
        then (Inr (make_obs UserRejectObservation [(''content'', PStr ''Action has been rejected by the user! Waiting for further user input.'')]), fs)
        else (rt_execute rt a, fs))"

text \<open>The answer to an action: the observation to add with its source, or the status to report, or neither.\<close>

record runtime_answer =
  ra_observation :: "(event \<times> event_source) option"
  ra_status :: "(string \<times> string) option"
  ra_files :: file_store

definition attempt_action :: "(pyval \<Rightarrow> string) \<Rightarrow> runtime \<Rightarrow> event \<Rightarrow> file_store \<Rightarrow> event res \<times> file_store" where
  "attempt_action rp rt e fs =
     (case export_latest_git_provider_tokens rt e of
        Inl x \<Rightarrow> (Inl x, fs)
      | Inr _ \<Rightarrow> if is_a MCPAction e then (rt_call_tool_mcp rt e, fs) else run_action rp rt e fs)"

definition answer_observation :: "event \<Rightarrow> event \<Rightarrow> (event \<times> event_source) option" where
  "answer_observation e ob =
     (if is_o NullObservation ob then None
      else Some (ob\<lparr>e_cause := Some (event_id e), e_tool_call := e_tool_call e\<rparr>,
        case e_source e of Some s \<Rightarrow> s | None \<Rightarrow> AGENT_SOURCE))"

definition answer_action :: "runtime \<Rightarrow> event \<Rightarrow> event res \<times> file_store \<Rightarrow> runtime_answer" where
  "answer_action rt e r =
     (case fst r of
        Inr ob \<Rightarrow> \<lparr>ra_observation = answer_observation e ob, ra_status = None, ra_files = snd r\<rparr>
      | Inl (PermissionError s) \<Rightarrow>
          \<lparr>ra_observation = answer_observation e (error_observation s), ra_status = None, ra_files = snd r\<rparr>
      | Inl x \<Rightarrow>
          \<lparr>ra_observation = None,
           ra_status = Some (if rt_disconnected rt x \<or> exn_class x = ''AgentRuntimeDisconnectedError'' then ''STATUS$ERROR_RUNTIME_DISCONNECTED''
             else ''STATUS$ERROR'', exn_class x @ '': '' @ exn_text x), ra_files = snd r\<rparr>)"

definition with_default_timeout :: "runtime \<Rightarrow> event \<Rightarrow> event" where
  "with_default_timeout rt e = (if e_timeout e = None then set_hard_timeout (Some (rt_timeout rt)) (PBool False) e else e)"

definition handle_runtime_action :: "(pyval \<Rightarrow> string) \<Rightarrow> runtime \<Rightarrow> event \<Rightarrow> file_store \<Rightarrow> runtime_answer" where
  "handle_runtime_action rp rt e fs =
     (let e = with_default_timeout rt e in answer_action rt e (attempt_action rp rt e fs))"

definition runtime_on_event :: "(pyval \<Rightarrow> string) \<Rightarrow> runtime \<Rightarrow> event \<Rightarrow> file_store \<Rightarrow> runtime_answer" where
  "runtime_on_event rp rt e fs =
     (if is_action e then handle_runtime_action rp rt e fs else \<lparr>ra_observation = None, ra_status = None, ra_files = fs\<rparr>)"

section \<open>Attributes under a default timeout\<close>

lemma set_attr_other [simp]: "k \<noteq> k' \<Longrightarrow> get_attr (set_attr k v e) k' d = get_attr e k' d"
  by (simp add: set_attr_def get_attr_def dict_get_default_def split: option.split)

lemma hard_timeout_attr: "k \<noteq> ''blocking'' \<Longrightarrow> get_attr (set_hard_timeout t b e) k d = get_attr e k d"
proof -
  assume k: "k \<noteq> ''blocking''"
  have "get_attr (e\<lparr>e_timeout := t\<rparr>) k d = get_attr e k d" by (simp add: get_attr_def split: option.split)
  then show ?thesis using k by (simp add: set_hard_timeout_def Let_def)
qed

lemma hard_timeout_keeps:
  "e_class (set_hard_timeout t b e) = e_class e" "event_id (set_hard_timeout t b e) = event_id e"
  "e_tool_call (set_hard_timeout t b e) = e_tool_call e" "e_source (set_hard_timeout t b e) = e_source e"
  by (simp_all add: set_hard_timeout_def Let_def set_attr_def event_id_def)

lemma default_timeout_keeps [simp]:
  "e_class (with_default_timeout rt e) = e_class e" "event_id (with_default_timeout rt e) = event_id e"
  "e_tool_call (with_default_timeout rt e) = e_tool_call e" "e_source (with_default_timeout rt e) = e_source e"
  "runnable (with_default_timeout rt e) = runnable e" "is_a k (with_default_timeout rt e) = is_a k e"
  by (simp_all add: with_default_timeout_def hard_timeout_keeps runnable_def is_a_def)

lemma default_timeout_attr [simp]: "k \<noteq> ''blocking'' \<Longrightarrow> get_attr (with_default_timeout rt e) k d = get_attr e k d"
  by (simp add: with_default_timeout_def hard_timeout_attr)

section \<open>What the runtime executes\<close>

lemma run_action_awaiting:
  "runnable e \<Longrightarrow> get_attr e ''confirmation_state'' PNone = AWAITING_CONFIRMATION \<Longrightarrow> run_action rp rt e fs = (Inr null_observation, fs)"
  by (simp add: run_action_def)

lemma run_action_rejected:
  "get_attr e ''confirmation_state'' PNone = REJECTED_ACTION \<Longrightarrow> run_action rp (rt\<lparr>rt_execute := f\<rparr>) e fs = run_action rp rt e fs"
  by (simp add: run_action_def track_tasks_def Let_def)

lemma null_observation_dropped [simp]: "answer_observation e null_observation = None"
  by (simp add: answer_observation_def null_observation_def is_o_def make_obs_def new_event_def)

text \<open>C5. The runtime does not execute an action that waits for its confirmation or that the user has rejected: the answer does not depend on what
  the execution would do. One that waits is not answered at all. This holds for every runnable action except a tool call of MCP.\<close>

theorem unconfirmed_not_executed:
  assumes "runnable e" and "\<not> is_a MCPAction e"
    and "get_attr e ''confirmation_state'' PNone \<in> {AWAITING_CONFIRMATION, REJECTED_ACTION}"
  shows "handle_runtime_action rp (rt\<lparr>rt_execute := f\<rparr>) e fs = handle_runtime_action rp rt e fs
    \<and> (get_attr e ''confirmation_state'' PNone = AWAITING_CONFIRMATION \<and> (\<forall>ps. rt_export_tokens rt ps = Inr ())
       \<longrightarrow> handle_runtime_action rp rt e fs = \<lparr>ra_observation = None, ra_status = None, ra_files = fs\<rparr>)"
proof -
  let ?e = "with_default_timeout rt e"
  have e: "with_default_timeout (rt\<lparr>rt_execute := f\<rparr>) e = ?e" by (simp add: with_default_timeout_def)
  have x: "export_latest_git_provider_tokens (rt\<lparr>rt_execute := f\<rparr>) ?e = export_latest_git_provider_tokens rt ?e"
    by (simp add: export_latest_git_provider_tokens_def Let_def)
  have "run_action rp (rt\<lparr>rt_execute := f\<rparr>) ?e fs = run_action rp rt ?e fs"
    using assms run_action_awaiting [of ?e] run_action_rejected [of ?e] by auto
  then have "attempt_action rp (rt\<lparr>rt_execute := f\<rparr>) ?e fs = attempt_action rp rt ?e fs"
    using assms(2) x by (simp add: attempt_action_def split: sum.split)
  then have "handle_runtime_action rp (rt\<lparr>rt_execute := f\<rparr>) e fs = handle_runtime_action rp rt e fs"
    by (simp add: handle_runtime_action_def e answer_action_def Let_def split: sum.split py_exn.split)
  moreover have "handle_runtime_action rp rt e fs = \<lparr>ra_observation = None, ra_status = None, ra_files = fs\<rparr>"
    if "get_attr e ''confirmation_state'' PNone = AWAITING_CONFIRMATION" "\<forall>ps. rt_export_tokens rt ps = Inr ()"
  proof -
    have "attempt_action rp rt ?e fs = (Inr null_observation, fs)"
      using that assms(1,2) run_action_awaiting [of ?e] by (simp add: attempt_action_def export_latest_git_provider_tokens_def Let_def)
    then show ?thesis by (simp add: handle_runtime_action_def answer_action_def Let_def)
  qed
  ultimately show ?thesis by blast
qed

definition demo_runtime :: runtime where
  "demo_runtime = \<lparr>rt_sid = ''s'', rt_user_id = None, rt_timeout = 120, rt_supports = (\<lambda>_. True),
     rt_execute = (\<lambda>_. Inr (make_obs FileWriteObservation [(''content'', PStr ''written''), (''path'', PStr ''/a'')])),
     rt_call_tool_mcp = (\<lambda>_. Inr (make_obs MCPObservation [(''content'', PStr ''called'')])), rt_export_tokens = (\<lambda>_. Inr ()),
     rt_disconnected = (\<lambda>_. False)\<rparr>"

definition demo_command :: event where
  "demo_command = (make_act CmdRunAction [(''command'', PStr ''make'')])\<lparr>e_source := Some AGENT_SOURCE, e_id := Some 7\<rparr>"

theorem unconfirmed_not_executed_witness:
  "handle_runtime_action (\<lambda>_. []) demo_runtime (set_attr ''confirmation_state'' AWAITING_CONFIRMATION demo_command) []
    = \<lparr>ra_observation = None, ra_status = None, ra_files = []\<rparr>"
proof -
  let ?e = "set_attr ''confirmation_state'' AWAITING_CONFIRMATION demo_command"
  have "runnable ?e" "\<not> is_a MCPAction ?e" by code_simp+
  moreover have "get_attr ?e ''confirmation_state'' PNone = AWAITING_CONFIRMATION" by simp
  ultimately show ?thesis using unconfirmed_not_executed [of ?e "\<lambda>_. []" "\<lambda>_. Inl (ValueError [])" demo_runtime "[]"]
    by (simp add: demo_runtime_def)
qed

text \<open>Whatever the runtime adds to the stream names the action it answers: its cause is the id of the action, its tool call that of the action and
  its source the one of the action, with the agent as default. Nothing is added for an observation without content of its own, and nothing when
  a status is reported.\<close>

theorem answer_names_its_action:
  assumes "handle_runtime_action rp rt e fs = a" and "ra_observation a = Some (ob, src)"
  shows "e_cause ob = Some (event_id e) \<and> e_tool_call ob = e_tool_call e \<and> \<not> is_o NullObservation ob
    \<and> src = (case e_source e of Some s \<Rightarrow> s | None \<Rightarrow> AGENT_SOURCE) \<and> ra_status a = None"
proof -
  let ?e = "with_default_timeout rt e" and ?r = "attempt_action rp rt (with_default_timeout rt e) fs"
  have a: "a = answer_action rt ?e ?r" using assms(1) by (simp add: handle_runtime_action_def Let_def)
  have shape: "answer_observation ?e o' = Some (ob, src) \<Longrightarrow> e_cause ob = Some (event_id e) \<and> e_tool_call ob = e_tool_call e
      \<and> \<not> is_o NullObservation ob \<and> src = (case e_source e of Some s \<Rightarrow> s | None \<Rightarrow> AGENT_SOURCE)" for o'
    by (auto simp: answer_observation_def is_o_def split: if_splits)
  show ?thesis
    using assms(2) shape unfolding a answer_action_def by (auto split: sum.splits py_exn.splits)
qed

theorem answer_names_its_action_witness:
  "\<exists>ob src. ra_observation (handle_runtime_action (\<lambda>_. []) demo_runtime demo_command []) = Some (ob, src) \<and> e_cause ob = Some 7"
proof -
  let ?a = "handle_runtime_action (\<lambda>_. []) demo_runtime demo_command []"
  have "ra_observation ?a \<noteq> None" by code_simp
  then obtain ob src where "ra_observation ?a = Some (ob, src)" by auto
  moreover have "event_id demo_command = 7" by code_simp
  ultimately show ?thesis using answer_names_its_action [of "\<lambda>_. []" demo_runtime demo_command "[]" ?a ob src] by simp
qed

text \<open>Confirmation does not hold back what is published without its mark. A file write for which the controller asks the user is queued for the
  subscribers without the mark, and the runtime executes it and answers while the controller is still waiting.\<close>

theorem unmarked_write_is_executed:
  "(case publish_action demo_env 0 demo_write (demo_world [demo_asking]) of
      (r, w) \<Rightarrow> r = Inr () \<and> in_state w 0 AWAITING_USER_CONFIRMATION
        \<and> map_option (\<lambda>(ob, src). e_class ob)
            (ra_observation (runtime_on_event (\<lambda>_. []) demo_runtime (last (st_queue (w_stream w))) []))
          = Some (Obs FileWriteObservation))"
  by code_simp

text \<open>A tool call of MCP is executed whatever its mark says, since \<open>_handle_action\<close> calls the tool without passing through \<open>run_action\<close>.\<close>

theorem mcp_call_ignores_mark:
  "map_option (\<lambda>(ob, src). e_class ob) (ra_observation (handle_runtime_action (\<lambda>_. []) demo_runtime
      (set_attr ''confirmation_state'' s (make_act MCPAction [(''name'', PStr ''t'')])) []))
    = Some (Obs MCPObservation)"
proof -
  let ?e = "with_default_timeout demo_runtime (set_attr ''confirmation_state'' s (make_act MCPAction [(''name'', PStr ''t'')]))"
  have c: "e_class ?e = Act MCPAction" by (simp add: make_act_def new_event_def)
  then have "attempt_action (\<lambda>_. []) demo_runtime ?e [] = (rt_call_tool_mcp demo_runtime ?e, [])"
    by (simp add: attempt_action_def export_latest_git_provider_tokens_def check_cmd_action_for_provider_token_ref_def is_a_def)
  then show ?thesis
    by (simp add: handle_runtime_action_def Let_def answer_action_def answer_observation_def demo_runtime_def is_o_def make_obs_def new_event_def)
qed

section \<open>The task list\<close>

lemma run_task_tracking: "is_a TaskTrackingAction a \<Longrightarrow> run_action rp rt a fs = apfst Inr (track_tasks rp rt a fs)"
  by (cases "track_tasks rp rt a fs") (simp add: run_action_def runnable_def is_a_def TaskTrackingAction_spec_def)

text \<open>A task list that was planned is what the next view of it shows, whatever other conversations write meanwhile, and no other file of the
  store changes when a list is planned or viewed.\<close>

theorem task_list_kept:
  assumes "is_a TaskTrackingAction plan" and "event_text plan ''command'' = ''plan''"
    and "is_a TaskTrackingAction view" and "event_text view ''command'' = ''view''"
    and "path = get_conversation_dir (rt_sid rt) (rt_user_id rt) @ ''TASKS.md''"
    and "run_action rp rt plan fs = (r, fs1)" and "fs_read path fs2 = fs_read path fs1"
  shows "run_action rp rt view fs2 = (Inr (task_observation view (task_list_text rp plan) (PList [])), fs2)
    \<and> (\<forall>p. p \<noteq> path \<longrightarrow> fs_read p fs1 = fs_read p fs)"
proof -
  have fs1: "fs1 = fs_write path (PStr (task_list_text rp plan)) fs"
    using assms(2,5,6) by (simp add: run_task_tracking [OF assms(1)] track_tasks_def task_list_text_def Let_def)
  then have "fs_read path fs2 = Inr (PStr (task_list_text rp plan))" using assms(7) by (simp add: fs_read_def fs_write_def)
  then have "run_action rp rt view fs2 = (Inr (task_observation view (task_list_text rp plan) (PList [])), fs2)"
    using assms(4,5) by (simp add: run_task_tracking [OF assms(3)] track_tasks_def Let_def)
  then show ?thesis using fs1 by (simp add: fs_read_def fs_write_def)
qed

definition demo_plan :: event where
  "demo_plan = make_act TaskTrackingAction [(''command'', PStr ''plan''),
     (''task_list'', PList [PDict [(''title'', PStr ''build''), (''status'', PStr ''done'')]])]"

definition demo_view :: event where
  "demo_view = make_act TaskTrackingAction [(''command'', PStr ''view''), (''task_list'', PList [])]"

theorem task_list_kept_witness:
  "\<exists>fs1. snd (run_action (\<lambda>_. []) demo_runtime demo_plan []) = fs1
    \<and> run_action (\<lambda>_. []) demo_runtime demo_view fs1
      = (Inr (task_observation demo_view (task_list_text (\<lambda>_. []) demo_plan) (PList [])), fs1)"
proof -
  let ?p = "get_conversation_dir (rt_sid demo_runtime) (rt_user_id demo_runtime) @ ''TASKS.md''"
  have "is_a TaskTrackingAction demo_plan" "event_text demo_plan ''command'' = ''plan''"
    "is_a TaskTrackingAction demo_view" "event_text demo_view ''command'' = ''view''" by code_simp+
  then show ?thesis
    using task_list_kept [OF _ _ _ _ refl _ refl, of demo_plan demo_view "\<lambda>_. []" demo_runtime "[]"] by (metis prod.collapse)
qed

end
