(* ===== verification/Messages.thy ===== *)
theory Messages
  imports Events
begin

text \<open>
  The messages that are sent to a language model, \<open>core/message.py\<close>: content items, messages, and their two serialised forms, a list of
  content items or a single text.
\<close>

section \<open>Content and messages\<close>

datatype content_item =
    is_text: TextContent (ct_text: string) (cache_prompt: bool)
  | is_image: ImageContent (image_urls: "string list") (cache_prompt: bool)

record tool_call =
  tc_id :: string
  tc_name :: string
  tc_arguments :: string

record message =
  m_role :: string
  m_content :: "content_item list"
  cache_enabled :: bool
  vision_enabled :: bool
  function_calling_enabled :: bool
  m_tool_calls :: "tool_call list option"
  m_tool_call_id :: "string option"
  m_name :: "string option"
  force_string_serializer :: bool

definition new_message :: "string \<Rightarrow> content_item list \<Rightarrow> message" where
  "new_message role content = \<lparr>m_role = role, m_content = content, cache_enabled = False, vision_enabled = False,
     function_calling_enabled = False, m_tool_calls = None, m_tool_call_id = None, m_name = None, force_string_serializer = False\<rparr>"

definition MESSAGE_ROLES :: "string list" where
  "MESSAGE_ROLES = [''user'', ''system'', ''assistant'', ''tool'']"

definition new_text :: "string \<Rightarrow> content_item" where
  "new_text s = TextContent s False"

definition new_image :: "string list \<Rightarrow> content_item" where
  "new_image urls = ImageContent urls False"

definition contains_image :: "message \<Rightarrow> bool" where
  "contains_image m = list_ex is_image (m_content m)"

section \<open>Serialisation\<close>

definition ephemeral :: pyval where
  "ephemeral = PDict [(''type'', PStr ''ephemeral'')]"

definition serialize_text :: "string \<Rightarrow> bool \<Rightarrow> payload" where
  "serialize_text s cache =
     (let data = [(''type'', PStr ''text''), (''text'', PStr s)] in if cache then dict_set ''cache_control'' ephemeral data else data)"

definition serialize_images :: "string list \<Rightarrow> bool \<Rightarrow> payload list" where
  "serialize_images urls cache =
     (let images = map (\<lambda>url. [(''type'', PStr ''image_url''), (''image_url'', PDict [(''url'', PStr url)])]) urls in
      if cache \<and> images \<noteq> [] then butlast images @ [dict_set ''cache_control'' ephemeral (last images)] else images)"

text \<open>An item as the dictionaries it adds to the content of a message.\<close>

definition serialize_item :: "message \<Rightarrow> content_item \<Rightarrow> payload list" where
  "serialize_item m item =
     (let strip_mark = (if m_role m = ''tool'' \<and> cache_prompt item then dict_del ''cache_control'' else id) in
      case item of
        TextContent s c \<Rightarrow> [strip_mark (serialize_text s c)]
      | ImageContent urls c \<Rightarrow> if vision_enabled m then map strip_mark (serialize_images urls c) else [])"

definition add_tool_call_keys :: "message \<Rightarrow> payload \<Rightarrow> payload res" where
  "add_tool_call_keys m d =
     (let d1 = (case m_tool_calls m of
          None \<Rightarrow> d
        | Some tcs \<Rightarrow> dict_set ''tool_calls'' (PList (map (\<lambda>tc. PDict [(''id'', PStr (tc_id tc)), (''type'', PStr ''function''),
            (''function'', PDict [(''name'', PStr (tc_name tc)), (''arguments'', PStr (tc_arguments tc))])]) tcs)) d)
      in case m_tool_call_id m of
          None \<Rightarrow> Inr d1
        | Some i \<Rightarrow> (case m_name m of
            None \<Rightarrow> Inl (OtherError ''AssertionError'' ''name is required when tool_call_id is not None'')
          | Some n \<Rightarrow> Inr (dict_set ''name'' (PStr n) (dict_set ''tool_call_id'' (PStr i) d1))))"

definition string_serializer :: "message \<Rightarrow> payload res" where
  "string_serializer m = add_tool_call_keys m
     [(''content'', PStr (join [nl] (map ct_text (filter is_text (m_content m))))), (''role'', PStr (m_role m))]"

definition list_serializer :: "message \<Rightarrow> payload res" where
  "list_serializer m =
     (let d = [(''content'', PList (map PDict (concat (map (serialize_item m) (m_content m))))), (''role'', PStr (m_role m))];
          lifted = (m_role m = ''tool'' \<and> list_ex cache_prompt (m_content m))
      in add_tool_call_keys m (if lifted then dict_set ''cache_control'' ephemeral d else d))"

definition serialize_message :: "message \<Rightarrow> payload res" where
  "serialize_message m =
     (if \<not> force_string_serializer m \<and> (cache_enabled m \<or> vision_enabled m \<or> function_calling_enabled m)
      then list_serializer m else string_serializer m)"

section \<open>The cache mark of a tool message\<close>

lemma item_unmarked:
  assumes "m_role m = ''tool''" and "d \<in> set (serialize_item m item)"
  shows "dict_get d ''cache_control'' = None"
proof (cases "cache_prompt item")
  case True
  then obtain d' where "d = dict_del ''cache_control'' d'"
    using assms by (cases item) (auto simp: serialize_item_def split: if_splits)
  then show ?thesis by simp
next
  case False
  then show ?thesis using assms
    by (cases item) (auto simp: serialize_item_def serialize_text_def serialize_images_def Let_def split: if_splits)
qed

lemma add_tool_call_keys_get:
  "add_tool_call_keys m d = Inr d' \<Longrightarrow> k \<notin> {''tool_calls'', ''tool_call_id'', ''name''} \<Longrightarrow> dict_get d' k = dict_get d k"
  by (auto simp: add_tool_call_keys_def Let_def split: option.splits)

text \<open>In the answer to a tool call the cache mark stands at the message and not at its content: no item carries it, and the message does
  exactly when an item was marked.\<close>

theorem tool_cache_mark_lifted:
  assumes "list_serializer m = Inr d" and "m_role m = ''tool''"
  shows "(\<exists>items. dict_get d ''content'' = Some (PList (map PDict items)) \<and> (\<forall>x \<in> set items. dict_get x ''cache_control'' = None))
    \<and> (dict_get d ''cache_control'' = Some ephemeral \<longleftrightarrow> (\<exists>c \<in> set (m_content m). cache_prompt c))"
proof -
  let ?items = "concat (map (serialize_item m) (m_content m))"
  let ?d = "[(''content'', PList (map PDict ?items)), (''role'', PStr (m_role m))]"
  have d: "dict_get d k = dict_get (if list_ex cache_prompt (m_content m) then dict_set ''cache_control'' ephemeral ?d else ?d) k"
    if "k \<notin> {''tool_calls'', ''tool_call_id'', ''name''}" for k
    using add_tool_call_keys_get [OF _ that] assms by (simp add: list_serializer_def Let_def)
  have "dict_get d ''content'' = Some (PList (map PDict ?items))" using d [of "''content''"] by simp
  moreover have "\<forall>x \<in> set ?items. dict_get x ''cache_control'' = None" using item_unmarked [OF assms(2)] by auto
  moreover have "dict_get d ''cache_control'' = Some ephemeral \<longleftrightarrow> (\<exists>c \<in> set (m_content m). cache_prompt c)"
    using d [of "''cache_control''"] by (simp add: list_ex_iff)
  ultimately show ?thesis by blast
qed

definition demo_tool_message :: message where
  "demo_tool_message = (new_message ''tool'' [TextContent ''ok'' True])\<lparr>function_calling_enabled := True, m_tool_call_id := Some ''c1'', m_name := Some ''run''\<rparr>"

theorem tool_cache_mark_lifted_witness:
  "\<exists>d. list_serializer demo_tool_message = Inr d \<and> dict_get d ''cache_control'' = Some ephemeral"
proof -
  have "\<not> isl (list_serializer demo_tool_message)" by code_simp
  then obtain d where d: "list_serializer demo_tool_message = Inr d" by (metis sum.collapse(2))
  moreover have "m_role demo_tool_message = ''tool''" "m_content demo_tool_message = [TextContent ''ok'' True]"
    by (simp_all add: demo_tool_message_def new_message_def)
  ultimately show ?thesis using tool_cache_mark_lifted [of demo_tool_message d] by simp
qed

text \<open>The texts among serialised items.\<close>

definition item_texts :: "payload list \<Rightarrow> string list" where
  "item_texts ds = map (\<lambda>d. text_of d ''text'') (filter (\<lambda>d. field_of d ''type'' = PStr ''text'') ds)"

lemma serialize_item_texts: "item_texts (serialize_item m c) = (if is_text c then [ct_text c] else [])"
proof (cases c)
  case (TextContent s b)
  then show ?thesis
    by (cases "m_role m = ''tool''"; cases b)
      (simp_all add: serialize_item_def serialize_text_def item_texts_def text_of_def field_of_def dict_get_default_def Let_def)
next
  case (ImageContent urls b)
  have "list_all (\<lambda>d. dict_get d ''type'' = Some (PStr ''image_url'')) (serialize_images urls b)"
  proof (cases "urls = []")
    case False
    then show ?thesis
      by (auto simp: serialize_images_def Let_def list_all_iff dest!: in_set_butlastD) (auto simp: last_map)
  qed (simp add: serialize_images_def)
  then have "item_texts (map f (serialize_images urls b)) = []" if "f = id \<or> f = dict_del ''cache_control''" for f
    using that by (auto simp: item_texts_def field_of_def dict_get_default_def list_all_iff filter_empty_conv)
  with ImageContent show ?thesis by (simp add: serialize_item_def Let_def) (simp add: item_texts_def)
qed

text \<open>The two forms of a message carry the same texts and the same role: the texts of the list joined by line breaks are the single text.\<close>

theorem serialised_texts_agree:
  assumes "list_serializer m = Inr d" and "string_serializer m = Inr s"
  shows "\<exists>items. dict_get d ''content'' = Some (PList (map PDict items)) \<and> dict_get s ''content'' = Some (PStr (join [nl] (item_texts items)))
    \<and> dict_get d ''role'' = dict_get s ''role''"
proof -
  let ?items = "concat (map (serialize_item m) (m_content m))"
  have t: "item_texts (concat (map (serialize_item m) cs)) = map ct_text (filter is_text cs)" for cs
    using serialize_item_texts by (induction cs) (simp_all add: item_texts_def)
  have d: "dict_get d ''content'' = Some (PList (map PDict ?items))" "dict_get d ''role'' = Some (PStr (m_role m))"
    using assms(1) add_tool_call_keys_get by (auto simp: list_serializer_def Let_def split: if_splits)
  have s: "dict_get s ''content'' = Some (PStr (join [nl] (map ct_text (filter is_text (m_content m)))))" "dict_get s ''role'' = Some (PStr (m_role m))"
    using assms(2) add_tool_call_keys_get by (auto simp: string_serializer_def)
  from d s t [of "m_content m"] show ?thesis by (auto intro!: exI [of _ ?items])
qed

theorem serialised_texts_agree_witness:
  "\<exists>d s. list_serializer demo_tool_message = Inr d \<and> string_serializer demo_tool_message = Inr s \<and> dict_get d ''role'' = dict_get s ''role''"
proof -
  have "\<not> isl (list_serializer demo_tool_message)" "\<not> isl (string_serializer demo_tool_message)" by code_simp+
  then obtain d s where "list_serializer demo_tool_message = Inr d" "string_serializer demo_tool_message = Inr s" by (metis sum.collapse(2))
  with serialised_texts_agree [of demo_tool_message d s] show ?thesis by blast
qed

end
