(* ===== verification/Conversation_Memory.thy ===== *)
theory Conversation_Memory
  imports Messages Event_Serial History_View
begin

text \<open>
  How the history of an agent becomes the conversation that the language model is given: \<open>memory/conversation_memory.py\<close>. Actions that
  were tool calls are held back until all their results are there and then added together with them; what remains unmatched is
  filtered out. Two things of the history change in place and are part of what is returned: the messages that are inserted in front, and
  finishing actions, which take over the text of their response. The templates of the prompt manager, the text of an event (\<open>str\<close>) and the
  responses of the client library are parameters.
\<close>

section \<open>Configuration and responses\<close>

record llm_message =
  lm_role :: string
  lm_content :: "string option"
  lm_tool_calls :: "tool_call list option"

record repository_info =
  repo_name :: string
  repo_directory :: string
  branch_name :: "string option"

record runtime_info =
  ri_date :: string
  available_hosts :: payload
  additional_agent_instructions :: string
  custom_secrets_descriptions :: payload
  working_dir :: string

record memory_config =
  enable_som_visual_browsing :: bool
  enable_prompt_extensions :: bool
  disabled_microagents :: "string list"
  mc_system_message :: string \<comment> \<open>\<open>get_system_message(cli_mode=...)\<close>\<close>
  mc_workspace_context :: "repository_info option \<Rightarrow> runtime_info \<Rightarrow> string option \<Rightarrow> string \<Rightarrow> string"
  mc_microagent_info :: "pyval list \<Rightarrow> string"
  mc_str :: "event \<Rightarrow> string" \<comment> \<open>\<open>str(action)\<close>\<close>
  mc_visualize_diff :: "event \<Rightarrow> string" \<comment> \<open>of a file edit, by \<open>difflib\<close>\<close>
  mc_response_id :: "pyval \<Rightarrow> string" \<comment> \<open>\<open>response.id\<close>\<close>
  mc_response_message :: "pyval \<Rightarrow> llm_message" \<comment> \<open>\<open>response.choices[0].message\<close>\<close>

definition model_response :: "payload \<Rightarrow> pyval" where
  "model_response tool = field_of tool ''model_response''"

definition is_valid_image_url :: "pyval \<Rightarrow> bool" where
  "is_valid_image_url url \<longleftrightarrow> strip (text_val url) \<noteq> []"

definition user_text :: "string \<Rightarrow> message" where
  "user_text s = new_message ''user'' [new_text s]"

section \<open>Actions\<close>

definition TOOL_ACTIONS :: "action_class list" where
  "TOOL_ACTIONS = [AgentDelegateAction, AgentThinkAction, IPythonRunCellAction, FileEditAction, FileReadAction, BrowseInteractiveAction,
     BrowseURLAction, MCPAction, TaskTrackingAction]"

definition is_tool_action :: "event \<Rightarrow> bool" where
  "is_tool_action a \<longleftrightarrow> list_ex (\<lambda>k. is_a k a) TOOL_ACTIONS \<or> is_a CmdRunAction a \<and> e_source a = Some AGENT_SOURCE"

definition has_text :: "string option \<Rightarrow> bool" where
  "has_text s \<longleftrightarrow> (case s of None \<Rightarrow> False | Some t \<Rightarrow> strip t \<noteq> [])"

definition tool_call_message :: "llm_message \<Rightarrow> message res" where
  "tool_call_message lm =
     (if lm_role lm \<notin> set MESSAGE_ROLES then Inl (ValueError ''role'')
      else Inr ((new_message (lm_role lm) (if has_text (lm_content lm) then [new_text (the (lm_content lm))] else []))
        \<lparr>m_tool_calls := lm_tool_calls lm\<rparr>))"

text \<open>A finishing action takes over the text of its response and loses its tool call.\<close>

definition finished :: "memory_config \<Rightarrow> event \<Rightarrow> event" where
  "finished cfg a =
     (case e_tool_call a of
        None \<Rightarrow> a
      | Some tool \<Rightarrow>
          let content = (case lm_content (mc_response_message cfg (model_response tool)) of None \<Rightarrow> [] | Some t \<Rightarrow> t);
              thought = event_text a ''thought'';
              a = (if thought = [] then set_attr ''thought'' (PStr content) a
                   else if thought \<noteq> content then set_attr ''thought'' (PStr (thought @ [nl] @ content)) a else a)
          in a\<lparr>e_tool_call := None\<rparr>)"

definition role_of :: "event \<Rightarrow> string" where
  "role_of a = (if e_source a = Some USER_SOURCE then ''user'' else ''assistant'')"

fun numbered_images :: "bool \<Rightarrow> nat \<Rightarrow> string list \<Rightarrow> content_item list" where
  "numbered_images vision n [] = []"
| "numbered_images vision n (url # urls) =
     (if vision then [new_text (''Image '' @ nat_str (n + 1) @ '':'')] else []) @ new_image [url] # numbered_images vision (n + 1) urls"

definition message_content :: "bool \<Rightarrow> event \<Rightarrow> content_item list" where
  "message_content vision a =
     (let urls = map text_val (list_of (e_fields a) ''image_urls'') in
      new_text (event_text a ''content'')
      # (if urls = [] then [] else if role_of a = ''user'' then numbered_images vision 0 urls else [new_image urls]))"

text \<open>The messages of an action, the held-back tool calls by response, and the action as it is left.\<close>

definition process_action ::
  "memory_config \<Rightarrow> bool \<Rightarrow> event \<Rightarrow> (string, message) dict \<Rightarrow> (message list \<times> (string, message) dict) res \<times> event" where
  "process_action cfg vision a pending =
     (if is_tool_action a then
        (case e_tool_call a of
           None \<Rightarrow>
             if e_source a = Some USER_SOURCE then (Inr ([user_text (''User requested to read file: '' @ mc_str cfg a)], pending), a)
             else (Inl (OtherError ''AssertionError'' (''Tool call metadata should NOT be None when function calling is enabled for agent actions. Action: '' @ mc_str cfg a)), a)
         | Some tool \<Rightarrow>
             (res_map (\<lambda>m. ([], dict_set (mc_response_id cfg (model_response tool)) m pending))
               (tool_call_message (mc_response_message cfg (model_response tool))), a))
      else if is_a AgentFinishAction a then
        (let a' = finished cfg a in (Inr ([new_message (role_of a) [new_text (event_text a' ''thought'')]], pending), a'))
      else if is_a MessageAction a then (Inr ([new_message (role_of a) (message_content vision a)], pending), a)
      else if is_a CmdRunAction a \<and> e_source a = Some USER_SOURCE then
        (Inr ([user_text (''User executed the command:'' @ [nl] @ event_text a ''command'')], pending), a)
      else if is_a SystemMessageAction a then (Inr ([new_message ''system'' [new_text (event_text a ''content'')]], pending), a)
      else (Inr ([], pending), a))"

section \<open>Observations\<close>

definition to_agent_observation :: "(pyval \<Rightarrow> string) \<Rightarrow> event \<Rightarrow> string" where
  "to_agent_observation rp ob =
     (let meta = dict_of (e_fields ob) ''metadata'';
          dir = text_of meta ''working_dir'';
          interpreter = text_of meta ''py_interpreter_path''
      in text_of meta ''prefix'' @ event_text ob ''content'' @ text_of meta ''suffix''
         @ (if dir = [] then [] else [nl] @ ''[Current working directory: '' @ dir @ '']'')
         @ (if interpreter = [] then [] else [nl] @ ''[Python interpreter: '' @ interpreter @ '']'')
         @ (if field_of meta ''exit_code'' = PInt (- 1) then [] else [nl] @ ''[Command finished with exit code '' @ py_str rp (field_of meta ''exit_code'') @ '']''))"

definition image_data_mark :: string where
  "image_data_mark = ''![image](data:image/png;base64,''"

definition hide_image_data :: "string \<Rightarrow> string" where
  "hide_image_data s = join [nl] (map (\<lambda>line. if contains image_data_mark line
     then ''![image](data:image/png;base64, ...) already displayed to user'' else line) (split_char nl s))"

definition cell_content :: "int option \<Rightarrow> bool \<Rightarrow> event \<Rightarrow> content_item list" where
  "cell_content limit vision ob =
     (let s = truncate_content (hide_image_data (event_text ob ''content'')) limit;
          urls = list_of (e_fields ob) ''image_urls'';
          valid = filter is_valid_image_url urls;
          invalid = length urls - length valid
      in if urls = [] then [new_text s]
         else if valid \<noteq> [] then
           [new_text (if vision \<and> 0 < invalid then s @ [nl, nl] @ ''Note: '' @ nat_str invalid @ '' invalid or empty image(s) were filtered from this output. The agent may need to use alternative methods to access visual information.'' else s),
            new_image (map text_val valid)]
         else [new_text (if vision then s @ [nl, nl] @ ''Note: All '' @ nat_str (length urls) @ '' image(s) in this output were invalid or empty and have been filtered. The agent should use alternative methods to access visual information.'' else s)])"

definition file_edit_str :: "memory_config \<Rightarrow> event \<Rightarrow> string res" where
  "file_edit_str cfg ob =
     (if event_text ob ''impl_source'' = ''oh_aci'' then Inr (event_text ob ''content'')
      else if \<not> py_truthy (field_of (e_fields ob) ''prev_exist'') then
        (if field_of (e_fields ob) ''old_content'' = PStr [] then Inr (''[New file '' @ event_text ob ''path'' @ '' is created with the provided content.]'' @ [nl])
         else Inl (OtherError ''AssertionError'' ''old_content should be empty if the file is new (prev_exist=False).''))
      else Inr (rstrip (mc_visualize_diff cfg ob) @ [nl]))"

definition screenshot_note :: string where
  "screenshot_note = ''Image: Current webpage screenshot (Note that only visible portion of webpage is present in the screenshot. However, the Accessibility tree contains information from the entire webpage.)'' @ [nl]"

definition page_content :: "memory_config \<Rightarrow> bool \<Rightarrow> event \<Rightarrow> content_item list" where
  "page_content cfg vision ob =
     (let s = event_text ob ''content'';
          marks = event_text ob ''set_of_marks'';
          shot = event_text ob ''screenshot'';
          s1 = (if vision then s @ screenshot_note else s);
          image = (if marks \<noteq> [] then marks else shot);
          kind = (if marks \<noteq> [] then ''set of marks'' else ''screenshot'')
      in if \<not> (field_of (e_fields ob) ''trigger_by_action'' = PStr ''browse_interactive'' \<and> enable_som_visual_browsing cfg) then [new_text s]
         else if is_valid_image_url (PStr image) then [new_text s1, new_image [image]]
         else if vision \<and> image \<noteq> [] then
           [new_text (s1 @ [nl, nl] @ ''Note: The '' @ kind @ '' for this webpage was invalid or empty and has been filtered. The agent should use alternative methods to access visual information about the webpage.'')]
         else if vision then
           [new_text (s1 @ [nl, nl] @ ''Note: No visual information (screenshot or set of marks) is available for this webpage. The agent should rely on the text content above.'')]
         else [new_text s1])"

text \<open>The result of a delegate may be handed over as an output named content; one that is no text raises.\<close>

definition delegate_text :: "event \<Rightarrow> string res" where
  "delegate_text ob =
     (case dict_get (dict_of (e_fields ob) ''outputs'') ''content'' of
        None \<Rightarrow> Inr (event_text ob ''content'')
      | Some (PStr s) \<Rightarrow> Inr s
      | Some _ \<Rightarrow> Inl (TypeError ''content''))"

definition PLAIN_OBSERVATIONS :: "observation_class list" where
  "PLAIN_OBSERVATIONS = [MCPObservation, AgentThinkObservation, TaskTrackingObservation, AgentCondensationObservation, FileDownloadObservation]"

definition observation_content :: "memory_config \<Rightarrow> (pyval \<Rightarrow> string) \<Rightarrow> int option \<Rightarrow> bool \<Rightarrow> event \<Rightarrow> content_item list res" where
  "observation_content cfg rp limit vision ob =
     (let short = (\<lambda>s. truncate_content s limit) in
      case e_class ob of
        Act _ \<Rightarrow> Inl (ValueError ''Unknown observation type'')
      | Obs k \<Rightarrow>
          if k = CmdOutputObservation then
            Inr [new_text (short ((if e_tool_call ob = None then [nl] @ ''Observed result of command executed by user:'' @ [nl] else [])
              @ to_agent_observation rp ob))]
          else if k \<in> set PLAIN_OBSERVATIONS then Inr [new_text (short (event_text ob ''content''))]
          else if k = IPythonRunCellObservation then Inr (cell_content limit vision ob)
          else if k = FileEditObservation then res_map (\<lambda>s. [new_text (short s)]) (file_edit_str cfg ob)
          else if k = FileReadObservation then Inr [new_text (event_text ob ''content'')]
          else if k = BrowserOutputObservation then Inr (page_content cfg vision ob)
          else if k = AgentDelegateObservation then res_map (\<lambda>s. [new_text (short s)]) (delegate_text ob)
          else if k = ErrorObservation then
            Inr [new_text (short (event_text ob ''content'') @ [nl] @ ''[Error occurred in processing last action]'')]
          else if k = UserRejectObservation then
            Inr [new_text (''OBSERVATION:'' @ [nl] @ short (event_text ob ''content'') @ [nl] @ ''[Last action has been rejected by the user]'')]
          else Inl (ValueError ''Unknown observation type''))"

section \<open>Recalled knowledge\<close>

definition knowledge_of :: "event \<Rightarrow> pyval list" where
  "knowledge_of ob = list_of (e_fields ob) ''microagent_knowledge''"

definition knowledge_name :: "pyval \<Rightarrow> string" where
  "knowledge_name v = text_of (dict_val v) ''name''"

definition has_agent_in_earlier_events :: "string \<Rightarrow> nat \<Rightarrow> event list \<Rightarrow> bool" where
  "has_agent_in_earlier_events name i events =
     list_ex (\<lambda>e. is_o RecallObservation e \<and> list_ex (\<lambda>v. knowledge_name v = name) (knowledge_of e)) (take i events)"

definition filter_agents_in_microagent_obs :: "event \<Rightarrow> nat \<Rightarrow> event list \<Rightarrow> pyval list" where
  "filter_agents_in_microagent_obs ob i events =
     (if field_of (e_fields ob) ''recall_type'' \<noteq> PStr ''knowledge'' then knowledge_of ob
      else filter (\<lambda>v. \<not> has_agent_in_earlier_events (knowledge_name v) i events) (knowledge_of ob))"

definition enabled_agents :: "memory_config \<Rightarrow> pyval list \<Rightarrow> pyval list" where
  "enabled_agents cfg vs = filter (\<lambda>v. knowledge_name v \<notin> set (disabled_microagents cfg)) vs"

definition knowledge_messages :: "memory_config \<Rightarrow> event \<Rightarrow> nat \<Rightarrow> event list \<Rightarrow> message list" where
  "knowledge_messages cfg ob i events =
     (let agents = enabled_agents cfg (filter_agents_in_microagent_obs ob i events) in
      if agents = [] then [] else [user_text (mc_microagent_info cfg agents)])"

definition workspace_content :: "memory_config \<Rightarrow> event \<Rightarrow> content_item list" where
  "workspace_content cfg ob =
     (let fs = e_fields ob;
          name = text_of fs ''repo_name'';
          dir = text_of fs ''repo_directory'';
          branch = text_of fs ''repo_branch'';
          repo = (if name = [] \<and> dir = [] then None
                  else Some \<lparr>repo_name = name, repo_directory = dir, branch_name = (if branch = [] then None else Some branch)\<rparr>);
          with_hosts = (py_truthy (field_of fs ''runtime_hosts'') \<or> py_truthy (field_of fs ''additional_agent_instructions''));
          runtime = \<lparr>ri_date = text_of fs ''date'',
            available_hosts = (if with_hosts then dict_of fs ''runtime_hosts'' else []),
            additional_agent_instructions = (if with_hosts then text_of fs ''additional_agent_instructions'' else []),
            custom_secrets_descriptions = dict_of fs ''custom_secrets_descriptions'', working_dir = text_of fs ''working_dir''\<rparr>;
          conversation = (if text_of fs ''conversation_instructions'' = [] then None else Some (text_of fs ''conversation_instructions''));
          instructions = text_of fs ''repo_instructions'';
          agents = enabled_agents cfg (knowledge_of ob)
      in (if repo \<noteq> None \<or> ri_date runtime \<noteq> [] \<or> custom_secrets_descriptions runtime \<noteq> [] \<or> strip instructions \<noteq> [] \<or> conversation \<noteq> None
          then [new_text (mc_workspace_context cfg repo runtime conversation instructions)] else [])
         @ (if agents = [] then [] else [new_text (mc_microagent_info cfg agents)]))"

section \<open>Answers to tool calls\<close>

definition tool_answer :: "payload \<Rightarrow> content_item list \<Rightarrow> message" where
  "tool_answer tool content = (new_message ''tool'' content)
     \<lparr>m_tool_call_id := Some (text_of tool ''tool_call_id''), m_name := Some (text_of tool ''function_name'')\<rparr>"

definition answer_or_message :: "event \<Rightarrow> content_item list \<Rightarrow> (string, message) dict \<Rightarrow> message list \<times> (string, message) dict" where
  "answer_or_message ob content responses =
     (case e_tool_call ob of
        None \<Rightarrow> ([new_message ''user'' content], responses)
      | Some tool \<Rightarrow> ([], dict_set (text_of tool ''tool_call_id'') (tool_answer tool content) responses))"

definition process_observation ::
  "memory_config \<Rightarrow> (pyval \<Rightarrow> string) \<Rightarrow> int option \<Rightarrow> bool \<Rightarrow> nat \<Rightarrow> event list \<Rightarrow> event \<Rightarrow> (string, message) dict
     \<Rightarrow> (message list \<times> (string, message) dict) res" where
  "process_observation cfg rp limit vision i events ob responses =
     (if is_o LoopDetectionObservation ob then Inr ([], responses)
      else if is_o RecallObservation ob then
        (if \<not> enable_prompt_extensions cfg then Inr ([], responses)
         else if field_of (e_fields ob) ''recall_type'' = PStr ''workspace_context'' then
           (let content = workspace_content cfg ob in
            if content = [] then Inr ([], responses) else Inr (answer_or_message ob content responses))
         else if field_of (e_fields ob) ''recall_type'' = PStr ''knowledge'' then Inr (knowledge_messages cfg ob i events, responses)
         else Inl (OtherError ''UnboundLocalError'' ''message''))
      else res_map (\<lambda>content. answer_or_message ob content responses) (observation_content cfg rp limit vision ob))"

section \<open>Joining tool calls and their results\<close>

fun take_results :: "tool_call list \<Rightarrow> (string, message) dict \<Rightarrow> (message list \<times> (string, message) dict) res" where
  "take_results [] responses = Inr ([], responses)"
| "take_results (tc # tcs) responses =
     (case dict_get responses (tc_id tc) of
        None \<Rightarrow> Inl (KeyError (tc_id tc))
      | Some m \<Rightarrow> res_map (\<lambda>(ms, r). (m # ms, r)) (take_results tcs (dict_del (tc_id tc) responses)))"

definition all_answered :: "tool_call list \<Rightarrow> (string, message) dict \<Rightarrow> bool" where
  "all_answered tcs responses = list_all (\<lambda>tc. tc_id tc \<in> set (dict_keys responses)) tcs"

text \<open>The complete ones among the tool calls held back are added, each followed by its results, and leave.\<close>

fun flush_pending ::
  "(string, message) dict \<Rightarrow> (string, message) dict \<Rightarrow> (message list \<times> (string, message) dict \<times> (string, message) dict) res" where
  "flush_pending [] responses = Inr ([], [], responses)"
| "flush_pending ((rid, m) # pending) responses =
     (case m_tool_calls m of
        None \<Rightarrow> Inl (OtherError ''AssertionError'' ''Tool calls should NOT be None when function calling is enabled & the message is considered pending tool call.'')
      | Some tcs \<Rightarrow>
          if all_answered tcs responses then
            res_bind (take_results tcs responses) (\<lambda>(results, responses).
              res_map (\<lambda>(ms, kept, r). (m # results @ ms, kept, r)) (flush_pending pending responses))
          else res_map (\<lambda>(ms, kept, r). (ms, (rid, m) # kept, r)) (flush_pending pending responses))"

definition process_event ::
  "memory_config \<Rightarrow> (pyval \<Rightarrow> string) \<Rightarrow> int option \<Rightarrow> bool \<Rightarrow> nat \<Rightarrow> event list \<Rightarrow> event \<Rightarrow> (string, message) dict \<Rightarrow> (string, message) dict
     \<Rightarrow> (message list \<times> (string, message) dict \<times> (string, message) dict) res \<times> event" where
  "process_event cfg rp limit vision i events e pending responses =
     (let (r, e') = (if is_action e
            then (let (r, e') = process_action cfg vision e pending in (res_map (\<lambda>(ms, p). (ms, p, responses)) r, e'))
            else (res_map (\<lambda>(ms, r). (ms, pending, r)) (process_observation cfg rp limit vision i events e responses), e))
      in (res_bind r (\<lambda>(ms, p, r). res_map (\<lambda>(added, p, r). (ms @ added, p, r)) (flush_pending p r)), e'))"

text \<open>The loop over the events: \<open>done\<close> are the events before the current one, as they were left.\<close>

fun process_loop ::
  "memory_config \<Rightarrow> (pyval \<Rightarrow> string) \<Rightarrow> int option \<Rightarrow> bool \<Rightarrow> event list \<Rightarrow> event list \<Rightarrow> (string, message) dict \<Rightarrow> (string, message) dict
     \<Rightarrow> message list res \<times> event list" where
  "process_loop cfg rp limit vision past [] pending responses = (Inr [], past)"
| "process_loop cfg rp limit vision past (e # es) pending responses =
     (case process_event cfg rp limit vision (length past) (past @ e # es) e pending responses of
        (Inl x, e') \<Rightarrow> (Inl x, past @ e' # es)
      | (Inr (ms, p, r), e') \<Rightarrow>
          (let (rest, events) = process_loop cfg rp limit vision (past @ [e']) es p r in (res_map ((@) ms) rest, events)))"

section \<open>Filtering and formatting\<close>

definition assistant_ids :: "message \<Rightarrow> string list" where
  "assistant_ids m = (if m_role m = ''assistant'' then filter (\<lambda>i. i \<noteq> []) (map tc_id (case m_tool_calls m of None \<Rightarrow> [] | Some tcs \<Rightarrow> tcs)) else [])"

definition response_ids :: "message \<Rightarrow> string list" where
  "response_ids m = (if m_role m = ''tool'' then (case m_tool_call_id m of None \<Rightarrow> [] | Some i \<Rightarrow> if i = [] then [] else [i]) else [])"

definition filter_message :: "string set \<Rightarrow> string set \<Rightarrow> message \<Rightarrow> message list" where
  "filter_message calls answers m =
     (if response_ids m \<noteq> [] then (if set (response_ids m) \<subseteq> calls then [m] else [])
      else case m_tool_calls m of
          Some (tc # tcs) \<Rightarrow>
            if m_role m \<noteq> ''assistant'' then [m]
            else let matched = filter (\<lambda>t. tc_id t \<in> answers) (tc # tcs) in
              if matched = tc # tcs then [m] else if matched \<noteq> [] then [m\<lparr>m_tool_calls := Some matched\<rparr>] else []
        | _ \<Rightarrow> [m])"

definition filter_unmatched_tool_calls :: "message list \<Rightarrow> message list" where
  "filter_unmatched_tool_calls ms =
     (let calls = set (concat (map assistant_ids ms)); answers = set (concat (map response_ids ms))
      in concat (map (filter_message calls answers) ms))"

fun mark_first_text :: "content_item list \<Rightarrow> content_item list" where
  "mark_first_text [] = []"
| "mark_first_text (TextContent s c # cs) = TextContent ([nl, nl] @ s) c # cs"
| "mark_first_text (c # cs) = c # mark_first_text cs"

fun apply_user_message_formatting :: "string option \<Rightarrow> message list \<Rightarrow> message list" where
  "apply_user_message_formatting prev [] = []"
| "apply_user_message_formatting prev (m # ms) =
     (if m_role m = ''user'' \<and> prev = Some ''user'' then m\<lparr>m_content := mark_first_text (m_content m)\<rparr> else m)
     # apply_user_message_formatting (Some (m_role m)) ms"

section \<open>The conversation\<close>

definition ensure_system_message :: "memory_config \<Rightarrow> event list \<Rightarrow> event list" where
  "ensure_system_message cfg events =
     (if list_ex (is_a SystemMessageAction) events \<or> mc_system_message cfg = [] then events
      else make_act SystemMessageAction [(''content'', PStr (mc_system_message cfg))] # events)"

definition ensure_initial_user_message :: "event list \<Rightarrow> event \<Rightarrow> int set \<Rightarrow> event list" where
  "ensure_initial_user_message events initial forgotten =
     (case events of
        [] \<Rightarrow> []
      | e # es \<Rightarrow>
          if event_id initial \<in> forgotten then events
          else case es of
              [] \<Rightarrow> [e, initial]
            | e1 # _ \<Rightarrow> if from_user e1 then events else e # initial # es)"

definition process_events ::
  "memory_config \<Rightarrow> (pyval \<Rightarrow> string) \<Rightarrow> event list \<Rightarrow> event \<Rightarrow> int set \<Rightarrow> int option \<Rightarrow> bool \<Rightarrow> message list res \<times> event list" where
  "process_events cfg rp history initial forgotten limit vision =
     (let (r, events) = process_loop cfg rp limit vision []
        (ensure_initial_user_message (ensure_system_message cfg history) initial forgotten) [] []
      in (res_map (\<lambda>ms. apply_user_message_formatting None (filter_unmatched_tool_calls ms)) r, events))"

section \<open>Marks and reminders\<close>

definition cache_last :: "message \<Rightarrow> message res" where
  "cache_last m =
     (if m_content m = [] then Inl (OtherError ''IndexError'' ''list index out of range'')
      else Inr (m\<lparr>m_content := butlast (m_content m) @ [case last (m_content m) of
        TextContent s _ \<Rightarrow> TextContent s True | ImageContent u _ \<Rightarrow> ImageContent u True]\<rparr>))"

fun cache_first_turn :: "message list \<Rightarrow> message list res" where
  "cache_first_turn [] = Inr []"
| "cache_first_turn (m # ms) =
     (if m_role m \<in> {''user'', ''tool''} then res_map (\<lambda>m. m # ms) (cache_last m) else res_map ((#) m) (cache_first_turn ms))"

definition apply_prompt_caching :: "message list \<Rightarrow> message list res" where
  "apply_prompt_caching ms =
     res_bind (case ms of m # ms' \<Rightarrow> if m_role m = ''system'' then res_map (\<lambda>m. m # ms') (cache_last m) else Inr ms | [] \<Rightarrow> Inr [])
       (\<lambda>ms. res_map rev (cache_first_turn (rev ms)))"

fun remind_last_user :: "string \<Rightarrow> message list \<Rightarrow> message list" where
  "remind_last_user s [] = []"
| "remind_last_user s (m # ms) =
     (if m_role m = ''user'' \<and> list_ex is_text (m_content m) then m\<lparr>m_content := m_content m @ [new_text s]\<rparr> # ms
      else m # remind_last_user s ms)"

definition add_turns_left_reminder :: "int \<Rightarrow> message list \<Rightarrow> message list" where
  "add_turns_left_reminder left ms =
     rev (remind_last_user ([nl, nl] @ ''ENVIRONMENT REMINDER: You have '' @ int_str left
       @ '' turns left to complete the task. When finished reply with <finish></finish>.'') (rev ms))"

section \<open>Tool calls and their results stand together\<close>

text \<open>The shape language models require: a message with tool calls is followed at once by one result for each call, in the order of the calls,
  and there are no other results.\<close>

definition answers :: "tool_call \<Rightarrow> message \<Rightarrow> bool" where
  "answers tc m \<longleftrightarrow> m_role m = ''tool'' \<and> m_tool_call_id m = Some (tc_id tc) \<and> m_tool_calls m = None"

inductive paired :: "message list \<Rightarrow> bool" where
  paired_Nil: "paired []"
| paired_plain: "m_tool_calls m = None \<Longrightarrow> m_role m \<noteq> ''tool'' \<Longrightarrow> paired ms \<Longrightarrow> paired (m # ms)"
| paired_calls: "m_role m = ''assistant'' \<Longrightarrow> m_tool_calls m = Some tcs \<Longrightarrow> list_all2 answers tcs results \<Longrightarrow> paired ms
    \<Longrightarrow> paired (m # results @ ms)"

lemma paired_append: "paired xs \<Longrightarrow> paired ys \<Longrightarrow> paired (xs @ ys)"
  by (induction rule: paired.induct) (auto intro: paired.intros)

definition plain_message :: "message \<Rightarrow> bool" where
  "plain_message m \<longleftrightarrow> m_tool_calls m = None \<and> m_role m \<in> {''user'', ''system'', ''assistant''} \<and> m_content m \<noteq> []"

lemma paired_plain_list: "list_all plain_message ms \<Longrightarrow> paired ms"
  by (induction ms) (auto simp: plain_message_def intro: paired.intros)

text \<open>What is held back, and what is known of the results.\<close>

definition pending_ok :: "(string, message) dict \<Rightarrow> bool" where
  "pending_ok p \<longleftrightarrow> (\<forall>(k, m) \<in> set p. m_role m = ''assistant'' \<and> m_tool_call_id m = None
     \<and> (\<forall>tcs. m_tool_calls m = Some tcs \<longrightarrow> (\<forall>tc \<in> set tcs. tc_id tc \<noteq> [])))"

definition responses_ok :: "(string, message) dict \<Rightarrow> bool" where
  "responses_ok r \<longleftrightarrow> (\<forall>(k, m) \<in> set r. m_role m = ''tool'' \<and> m_tool_call_id m = Some k \<and> m_tool_calls m = None \<and> m_content m \<noteq> [])"

definition sound_message :: "message \<Rightarrow> bool" where
  "sound_message m \<longleftrightarrow> (m_role m \<noteq> ''assistant'' \<longrightarrow> m_content m \<noteq> [])
     \<and> (\<forall>tcs. m_tool_calls m = Some tcs \<longrightarrow> (\<forall>tc \<in> set tcs. tc_id tc \<noteq> []) \<and> distinct (map tc_id tcs))"

lemma dict_set_all: "(\<forall>(k, m) \<in> set d. P k m) \<Longrightarrow> P k m \<Longrightarrow> \<forall>(k, m) \<in> set (dict_set k m d). P k m"
  by (induction d) auto

lemma take_results_ok:
  "take_results tcs r = Inr (ms, r') \<Longrightarrow> responses_ok r
    \<Longrightarrow> list_all2 answers tcs ms \<and> responses_ok r' \<and> list_all (\<lambda>m. m_role m = ''tool'' \<and> m_content m \<noteq> [] \<and> m_tool_calls m = None) ms"
proof (induction tcs arbitrary: r ms)
  case (Cons tc tcs)
  then obtain m ms' where m: "dict_get r (tc_id tc) = Some m" and rest: "take_results tcs (dict_del (tc_id tc) r) = Inr (ms', r')"
    and ms: "ms = m # ms'"
    by (auto simp: res_map_def split: option.splits sum.splits)
  have "responses_ok (dict_del (tc_id tc) r)" using Cons.prems(2) by (auto simp: responses_ok_def AList.delete_eq)
  moreover have "(tc_id tc, m) \<in> set r" using dict_get_SomeD [OF m] by simp
  ultimately show ?case using Cons.IH [OF rest] Cons.prems(2) ms by (auto simp: answers_def responses_ok_def)
qed (simp add: res_map_def)

lemma take_results_distinct:
  "take_results tcs r = Inr (ms, r') \<Longrightarrow> distinct (map tc_id tcs) \<and> set (map tc_id tcs) \<subseteq> set (dict_keys r)"
proof (induction tcs arbitrary: r ms)
  case (Cons tc tcs)
  then obtain m ms' where m: "dict_get r (tc_id tc) = Some m" and rest: "take_results tcs (dict_del (tc_id tc) r) = Inr (ms', r')"
    by (auto simp: res_map_def split: option.splits sum.splits)
  have "tc_id tc \<in> set (dict_keys r)" using dict_get_SomeD [OF m] by force
  then show ?case using Cons.IH [OF rest] by (auto simp: keys_del)
qed simp

lemma flush_ok:
  "flush_pending p r = Inr (ms, p', r') \<Longrightarrow> pending_ok p \<Longrightarrow> responses_ok r
    \<Longrightarrow> paired ms \<and> list_all sound_message ms \<and> pending_ok p' \<and> responses_ok r'"
proof (induction p r arbitrary: ms p' rule: flush_pending.induct)
  case (1 r)
  then show ?case by (auto intro: paired.intros simp: pending_ok_def)
next
  case (2 rid m p r)
  then obtain tcs where t: "m_tool_calls m = Some tcs" by (auto split: option.splits)
  have m: "m_role m = ''assistant''" "\<forall>tc \<in> set tcs. tc_id tc \<noteq> []" and p: "pending_ok p" using "2.prems"(2) t by (auto simp: pending_ok_def)
  show ?case
  proof (cases "all_answered tcs r")
    case True
    then obtain results r1 ms1 where res: "take_results tcs r = Inr (results, r1)" and rest: "flush_pending p r1 = Inr (ms1, p', r')"
      and ms: "ms = m # results @ ms1"
      using "2.prems"(1) t by (auto simp: res_bind_def res_map_def split: sum.splits)
    note r = take_results_ok [OF res "2.prems"(3)]
    have "paired ms1 \<and> list_all sound_message ms1 \<and> pending_ok p' \<and> responses_ok r'"
      using "2.IH"(1) [OF t True rest p] r by blast
    moreover have "list_all sound_message (m # results)"
      using r m t take_results_distinct [OF res] by (auto simp: sound_message_def list_all_iff)
    ultimately show ?thesis using paired_calls [OF m(1) t, of results ms1] r ms by simp
  next
    case False
    then obtain ms1 kept where rest: "flush_pending p r = Inr (ms1, kept, r')" and "ms = ms1" "p' = (rid, m) # kept"
      using "2.prems"(1) t by (auto simp: res_map_def split: sum.splits)
    then show ?thesis using "2.IH"(2) [OF t False rest p "2.prems"(3)] "2.prems"(2) by (auto simp: pending_ok_def)
  qed
qed

text \<open>What the client library promises of a response: the message is by the assistant and its tool calls have ids.\<close>

definition assistant_responses :: "memory_config \<Rightarrow> bool" where
  "assistant_responses cfg \<longleftrightarrow> (\<forall>v. lm_role (mc_response_message cfg v) = ''assistant''
     \<and> (\<forall>tcs. lm_tool_calls (mc_response_message cfg v) = Some tcs \<longrightarrow> (\<forall>tc \<in> set tcs. tc_id tc \<noteq> [])))"

lemma pending_set: "pending_ok p \<Longrightarrow> m_role m = ''assistant'' \<Longrightarrow> m_tool_call_id m = None
    \<Longrightarrow> \<forall>tcs. m_tool_calls m = Some tcs \<longrightarrow> (\<forall>tc \<in> set tcs. tc_id tc \<noteq> []) \<Longrightarrow> pending_ok (dict_set k m p)"
  unfolding pending_ok_def by (rule dict_set_all) auto

lemma role_of_cases: "role_of a = ''user'' \<or> role_of a = ''assistant''"
  by (simp add: role_of_def)

lemma plain_new [simp]: "plain_message (new_message role cs) \<longleftrightarrow> role \<in> {''user'', ''system'', ''assistant''} \<and> cs \<noteq> []"
  by (auto simp: plain_message_def new_message_def)

lemma plain_user_text [simp]: "plain_message (user_text s)"
  by (simp add: user_text_def)

lemma message_content_ne [simp]: "message_content vision a \<noteq> []"
  by (simp add: message_content_def Let_def)

lemma process_action_ok:
  assumes "process_action cfg vision a p = (Inr (ms, p'), a')" and "pending_ok p" and "assistant_responses cfg"
  shows "list_all plain_message ms \<and> pending_ok p'"
proof (cases "is_tool_action a")
  case False
  then show ?thesis using assms(1,2) role_of_cases [of a] by (auto simp: process_action_def Let_def split: if_splits)
next
  case True
  show ?thesis
  proof (cases "e_tool_call a")
    case None
    then show ?thesis using assms(1,2) True by (auto simp: process_action_def split: if_splits)
  next
    case (Some tool)
    let ?lm = "mc_response_message cfg (model_response tool)"
    have lm: "lm_role ?lm = ''assistant''" "\<forall>tcs. lm_tool_calls ?lm = Some tcs \<longrightarrow> (\<forall>tc \<in> set tcs. tc_id tc \<noteq> [])"
      using assms(3) by (auto simp: assistant_responses_def)
    obtain m where m: "tool_call_message ?lm = Inr m" and "ms = []" "p' = dict_set (mc_response_id cfg (model_response tool)) m p"
      using assms(1) True Some by (auto simp: process_action_def res_map_def split: sum.splits)
    moreover have "m_role m = ''assistant''" "m_tool_call_id m = None" "m_tool_calls m = lm_tool_calls ?lm"
      using m lm(1) by (auto simp: tool_call_message_def new_message_def split: if_splits)
    ultimately show ?thesis using pending_set [OF assms(2), of m] lm(2) by simp
  qed
qed

lemma observation_content_ne: "observation_content cfg rp limit vision ob = Inr cs \<Longrightarrow> cs \<noteq> []"
  by (auto simp: observation_content_def Let_def res_map_def cell_content_def page_content_def split: event_class.splits if_splits sum.splits)

lemma responses_set: "responses_ok r \<Longrightarrow> m_role m = ''tool'' \<Longrightarrow> m_tool_call_id m = Some k \<Longrightarrow> m_tool_calls m = None \<Longrightarrow> m_content m \<noteq> []
    \<Longrightarrow> responses_ok (dict_set k m r)"
  unfolding responses_ok_def by (rule dict_set_all) auto

lemma answer_ok:
  assumes "answer_or_message ob cs r = (ms, r')" and "cs \<noteq> []" and "responses_ok r"
  shows "list_all plain_message ms \<and> responses_ok r'"
proof (cases "e_tool_call ob")
  case None
  then show ?thesis using assms by (auto simp: answer_or_message_def)
next
  case (Some tool)
  then have "ms = []" "r' = dict_set (text_of tool ''tool_call_id'') (tool_answer tool cs) r" using assms(1) by (simp_all add: answer_or_message_def)
  then show ?thesis using responses_set [OF assms(3)] assms(2) by (simp add: tool_answer_def new_message_def)
qed

lemma process_observation_ok:
  assumes "process_observation cfg rp limit vision i events ob r = Inr (ms, r')" and "responses_ok r"
  shows "list_all plain_message ms \<and> responses_ok r'"
proof (cases "is_o LoopDetectionObservation ob \<or> is_o RecallObservation ob")
  case True
  then show ?thesis using assms answer_ok [OF _ _ assms(2)]
    by (auto simp: process_observation_def knowledge_messages_def Let_def split: if_splits)
next
  case False
  then obtain cs where cs: "observation_content cfg rp limit vision ob = Inr cs" and "answer_or_message ob cs r = (ms, r')"
    using assms(1) by (auto simp: process_observation_def res_map_def split: sum.splits)
  then show ?thesis using answer_ok observation_content_ne [OF cs] assms(2) by blast
qed

lemma process_event_ok:
  assumes "process_event cfg rp limit vision i events e p r = (Inr (ms, p', r'), e')" and "pending_ok p" and "responses_ok r"
    and "assistant_responses cfg"
  shows "paired ms \<and> list_all sound_message ms \<and> pending_ok p' \<and> responses_ok r'"
proof -
  obtain ms1 p1 r1 ms2 where ms: "ms = ms1 @ ms2" and f: "flush_pending p1 r1 = Inr (ms2, p', r')"
    and ok: "list_all plain_message ms1" "pending_ok p1" "responses_ok r1"
  proof (cases "is_action e")
    case True
    obtain x e1 where x: "process_action cfg vision e p = (x, e1)" by (metis prod.collapse)
    then obtain ms1 p1 ms2 where "x = Inr (ms1, p1)" "flush_pending p1 r = Inr (ms2, p', r')" "ms = ms1 @ ms2"
      using assms(1) True by (auto simp: process_event_def res_bind_def res_map_def split: sum.splits prod.splits)
    with process_action_ok [of cfg vision e p ms1 p1 e1] x assms(2-4) that [of ms1 ms2 p1 r] show thesis by blast
  next
    case False
    then obtain ms1 r1 ms2 where "process_observation cfg rp limit vision i events e r = Inr (ms1, r1)"
        "flush_pending p r1 = Inr (ms2, p', r')" "ms = ms1 @ ms2"
      using assms(1) by (auto simp: process_event_def res_bind_def res_map_def split: sum.splits prod.splits)
    with process_observation_ok [of cfg rp limit vision i events e r ms1 r1] assms(2-4) that [of ms1 ms2 p r1] show thesis by blast
  qed
  have "list_all sound_message ms1" using ok(1) by (auto simp: list_all_iff plain_message_def sound_message_def)
  with flush_ok [OF f ok(2,3)] paired_plain_list [OF ok(1)] ms show ?thesis by (simp add: paired_append)
qed

lemma process_loop_ok:
  "process_loop cfg rp limit vision past es p r = (Inr ms, events) \<Longrightarrow> pending_ok p \<Longrightarrow> responses_ok r \<Longrightarrow> assistant_responses cfg
    \<Longrightarrow> paired ms \<and> list_all sound_message ms"
proof (induction es arbitrary: past p r ms events)
  case Nil
  then show ?case by (auto intro: paired.intros)
next
  case (Cons e es)
  obtain x e' where x: "process_event cfg rp limit vision (length past) (past @ e # es) e p r = (x, e')" by (metis prod.collapse)
  then obtain ms1 p1 r1 where x1: "x = Inr (ms1, p1, r1)" using Cons.prems(1) by (cases x) auto
  obtain rest ev where l: "process_loop cfg rp limit vision (past @ [e']) es p1 r1 = (rest, ev)" by (metis prod.collapse)
  then obtain ms2 where "rest = Inr ms2" "ms = ms1 @ ms2" using Cons.prems(1) x x1 by (auto simp: res_map_def split: sum.splits)
  moreover note process_event_ok [OF x [unfolded x1] Cons.prems(2-4)]
  ultimately show ?case using Cons.IH [of "past @ [e']" p1 r1 ms2] l Cons.prems(4) by (simp add: paired_append)
qed

section \<open>The filter\<close>

lemma assistant_ids_kept:
  "m_role m = ''assistant'' \<Longrightarrow> m_tool_calls m = Some tcs \<Longrightarrow> \<forall>t \<in> set tcs. tc_id t \<noteq> [] \<Longrightarrow> set (assistant_ids m) = tc_id ` set tcs"
  by (auto simp: assistant_ids_def)

lemma filter_ids:
  assumes "calls = set (concat (map assistant_ids all))" and "ans = set (concat (map response_ids all))"
  shows "set (concat (map assistant_ids (concat (map (filter_message calls ans) ms)))) = set (concat (map assistant_ids ms)) \<inter> ans"
    and "set (concat (map response_ids (concat (map (filter_message calls ans) ms)))) = set (concat (map response_ids ms)) \<inter> calls"
proof -
  have ne: "[] \<notin> ans" using assms(2) by (auto simp: response_ids_def split: if_splits option.splits)
  have a: "set (concat (map assistant_ids (filter_message calls ans m))) = set (assistant_ids m) \<inter> ans" for m
  proof (cases "response_ids m = []")
    case False
    then have "m_role m = ''tool''" by (simp add: response_ids_def split: if_splits)
    then have "assistant_ids m = []" by (simp add: assistant_ids_def)
    with False show ?thesis by (simp add: filter_message_def)
  next
    case True
    show ?thesis
    proof (cases "m_role m = ''assistant'' \<and> m_tool_calls m \<noteq> None \<and> m_tool_calls m \<noteq> Some []")
      case False
      then have "filter_message calls ans m = [m]" "assistant_ids m = []"
        using True by (auto simp: filter_message_def assistant_ids_def split: option.splits list.splits)
      then show ?thesis by simp
    next
      case tools: True
      then obtain tc tcs where t: "m_tool_calls m = Some (tc # tcs)" by (metis list.exhaust option.exhaust)
      define k where "k = filter (\<lambda>t. tc_id t \<in> ans) (tc # tcs)"
      have f: "filter_message calls ans m = (if k = tc # tcs then [m] else if k \<noteq> [] then [m\<lparr>m_tool_calls := Some k\<rparr>] else [])"
        using True tools by (simp only: filter_message_def t Let_def k_def) simp
      have k_ids: "\<forall>t \<in> set k. tc_id t \<noteq> []" using ne by (auto simp: k_def)
      have "set (assistant_ids m) \<inter> ans = tc_id ` set k" using tools ne by (auto simp: assistant_ids_def t k_def)
      moreover have "set (assistant_ids m) = tc_id ` set k" if "k = tc # tcs"
        using assistant_ids_kept [of m k] tools t k_ids that by simp
      moreover have "set (assistant_ids (m\<lparr>m_tool_calls := Some k\<rparr>)) = tc_id ` set k"
        using tools k_ids by (intro assistant_ids_kept) auto
      ultimately show ?thesis unfolding f by (cases "k = tc # tcs"; cases "k = []") simp_all
    qed
  qed
  have r: "set (concat (map response_ids (filter_message calls ans m))) = set (response_ids m) \<inter> calls" for m
  proof (cases "response_ids m")
    case Nil
    have "response_ids (m\<lparr>m_tool_calls := x\<rparr>) = response_ids m" for x by (simp add: response_ids_def)
    with Nil have "\<forall>m' \<in> set (filter_message calls ans m). response_ids m' = []"
      by (auto simp: filter_message_def Let_def split: option.split list.split)
    then show ?thesis using Nil by simp
  next
    case (Cons i js)
    then have "js = []" by (simp add: response_ids_def split: if_splits option.splits)
    with Cons show ?thesis by (simp add: filter_message_def)
  qed
  show "set (concat (map assistant_ids (concat (map (filter_message calls ans) ms)))) = set (concat (map assistant_ids ms)) \<inter> ans"
    by (induction ms) (use a in auto)
  show "set (concat (map response_ids (concat (map (filter_message calls ans) ms)))) = set (concat (map response_ids ms)) \<inter> calls"
    by (induction ms) (use r in auto)
qed

text \<open>After the filter, tool calls and results match: the ids of the calls are the ids of the results, namely the ids that had both before.\<close>

theorem filtered_calls_match:
  "set (concat (map assistant_ids (filter_unmatched_tool_calls ms))) = set (concat (map assistant_ids ms)) \<inter> set (concat (map response_ids ms))
    \<and> set (concat (map response_ids (filter_unmatched_tool_calls ms))) = set (concat (map assistant_ids (filter_unmatched_tool_calls ms)))"
  unfolding filter_unmatched_tool_calls_def Let_def filter_ids [OF refl refl] by blast

text \<open>On messages that are already paired the filter changes nothing.\<close>

lemma results_ids:
  "list_all2 answers tcs results \<Longrightarrow> \<forall>tc \<in> set tcs. tc_id tc \<noteq> [] \<Longrightarrow> concat (map response_ids results) = map tc_id tcs \<and> concat (map assistant_ids results) = []"
  by (induction rule: list_all2_induct) (auto simp: answers_def response_ids_def assistant_ids_def)

lemma calls_ids:
  assumes "m_role m = ''assistant''" and "m_tool_calls m = Some tcs" and "\<forall>tc \<in> set tcs. tc_id tc \<noteq> []"
  shows "assistant_ids m = map tc_id tcs" and "response_ids m = []"
proof -
  have "\<forall>i \<in> set (map tc_id tcs). i \<noteq> []" using assms(3) by auto
  then show "assistant_ids m = map tc_id tcs" unfolding assistant_ids_def by (simp add: assms(1,2) filter_id_conv)
  show "response_ids m = []" by (simp add: response_ids_def assms(1))
qed

lemma filter_keeps_results:
  "list_all2 answers tcs results \<Longrightarrow> tc_id ` set tcs \<subseteq> calls \<Longrightarrow> \<forall>tc \<in> set tcs. tc_id tc \<noteq> [] \<Longrightarrow> concat (map (filter_message calls ans) results) = results"
  by (induction rule: list_all2_induct) (auto simp: answers_def filter_message_def response_ids_def)

lemma filter_keeps_call:
  assumes "m_role m = ''assistant''" and "m_tool_calls m = Some tcs" and "tc_id ` set tcs \<subseteq> ans"
  shows "filter_message calls ans m = [m]"
proof -
  have "response_ids m = []" by (simp add: response_ids_def assms(1))
  moreover have "filter (\<lambda>t. tc_id t \<in> ans) tcs = tcs" using assms(3) by (auto simp: filter_id_conv)
  ultimately show ?thesis by (cases tcs) (simp_all add: filter_message_def assms(1,2))
qed

lemma filter_keeps:
  "paired ms \<Longrightarrow> list_all sound_message ms \<Longrightarrow> set (concat (map assistant_ids ms)) \<subseteq> calls \<Longrightarrow> set (concat (map response_ids ms)) \<subseteq> ans
    \<Longrightarrow> concat (map (filter_message calls ans) ms) = ms \<and> set (concat (map assistant_ids ms)) = set (concat (map response_ids ms))"
proof (induction rule: paired.induct)
  case (paired_plain m ms)
  have "response_ids m = []" "assistant_ids m = []" using paired_plain.hyps(1,2) by (simp_all add: response_ids_def assistant_ids_def)
  moreover have "filter_message calls ans m = [m]" using calculation paired_plain.hyps(1) by (simp add: filter_message_def)
  ultimately show ?case using paired_plain.IH paired_plain.prems by simp
next
  case (paired_calls m tcs results ms)
  have ne: "\<forall>tc \<in> set tcs. tc_id tc \<noteq> []" using paired_calls.prems(1) paired_calls.hyps(2) by (simp add: sound_message_def)
  note ids = calls_ids [OF paired_calls.hyps(1,2) ne] results_ids [OF paired_calls.hyps(3) ne]
  have c: "tc_id ` set tcs \<subseteq> calls" "tc_id ` set tcs \<subseteq> ans" using paired_calls.prems(2,3) ids by auto
  have IH: "concat (map (filter_message calls ans) ms) = ms \<and> set (concat (map assistant_ids ms)) = set (concat (map response_ids ms))"
    using paired_calls.IH paired_calls.prems by simp
  show ?case
    using IH filter_keeps_call [OF paired_calls.hyps(1,2) c(2)] filter_keeps_results [OF paired_calls.hyps(3) c(1) ne] ids by auto
qed simp

lemma filter_paired:
  assumes "paired ms" and "list_all sound_message ms"
  shows "filter_unmatched_tool_calls ms = ms"
  unfolding filter_unmatched_tool_calls_def Let_def by (rule conjunct1 [OF filter_keeps [OF assms subset_refl subset_refl]])

definition same_kind :: "message \<Rightarrow> message \<Rightarrow> bool" where
  "same_kind m m' \<longleftrightarrow> m_role m = m_role m' \<and> m_tool_calls m = m_tool_calls m' \<and> m_tool_call_id m = m_tool_call_id m'
     \<and> (m_content m = [] \<longleftrightarrow> m_content m' = [])"

lemma paired_same_kind: "paired ms \<Longrightarrow> list_all2 same_kind ms ms' \<Longrightarrow> paired ms'"
proof (induction arbitrary: ms' rule: paired.induct)
  case (paired_plain m ms)
  then show ?case by (auto simp: list_all2_Cons1 same_kind_def intro!: paired.paired_plain)
next
  case (paired_calls m tcs results ms)
  then obtain m' results' rest where ms': "ms' = m' # results' @ rest" and m: "same_kind m m'" and r: "list_all2 same_kind results results'"
    and rest: "list_all2 same_kind ms rest"
    by (auto simp: list_all2_Cons1 list_all2_append1)
  have "list_all2 answers tcs results'"
    using list_all2_trans [OF _ paired_calls.hyps(3) r, of answers] by (auto simp: answers_def same_kind_def)
  then show ?case using m paired_calls.hyps(1,2) paired_calls.IH [OF rest] by (auto simp: ms' same_kind_def intro!: paired.paired_calls)
qed (simp add: paired.intros)

lemma mark_first_text_empty [simp]: "mark_first_text cs = [] \<longleftrightarrow> cs = []"
  by (induction cs rule: mark_first_text.induct) simp_all

lemma formatting_kind: "list_all2 same_kind ms (apply_user_message_formatting prev ms)"
  by (induction prev ms rule: apply_user_message_formatting.induct) (simp_all add: same_kind_def)

lemma process_events_shape:
  assumes "fst (process_events cfg rp history initial forgotten limit vision) = Inr ms" and "assistant_responses cfg"
  shows "paired ms" and "m \<in> set ms \<Longrightarrow> m_content m = [] \<Longrightarrow> m_role m = ''assistant''"
    and "m \<in> set ms \<Longrightarrow> m_tool_calls m = Some tcs \<Longrightarrow> distinct (map tc_id tcs)"
proof -
  let ?es = "ensure_initial_user_message (ensure_system_message cfg history) initial forgotten"
  obtain ms0 events where l: "process_loop cfg rp limit vision [] ?es [] [] = (Inr ms0, events)"
    and ms: "ms = apply_user_message_formatting None (filter_unmatched_tool_calls ms0)"
    using assms(1) by (auto simp: process_events_def Let_def res_map_def split: prod.splits sum.splits)
  have ok: "paired ms0" "list_all sound_message ms0"
    using process_loop_ok [OF l _ _ assms(2)] by (simp_all add: pending_ok_def responses_ok_def)
  have k: "list_all2 same_kind ms0 ms" unfolding ms filter_paired [OF ok] by (rule formatting_kind)
  then show "paired ms" by (rule paired_same_kind [OF ok(1)])
  show "m \<in> set ms \<Longrightarrow> m_content m = [] \<Longrightarrow> m_role m = ''assistant''"
    using ok(2) k by (fastforce simp: list_all2_conv_all_nth list_all_length sound_message_def same_kind_def in_set_conv_nth)
  show "m \<in> set ms \<Longrightarrow> m_tool_calls m = Some tcs \<Longrightarrow> distinct (map tc_id tcs)"
    using ok(2) k by (fastforce simp: list_all2_conv_all_nth list_all_length sound_message_def same_kind_def in_set_conv_nth)
qed

text \<open>C9. The messages given to the language model are paired: a message with tool calls is followed at once by one result for each call in the
  order of the calls, and there is no other result, whatever the history is. Every message has content, except that one of the assistant may
  consist of tool calls only.\<close>

theorem conversation_paired:
  assumes "fst (process_events cfg rp history initial forgotten limit vision) = Inr ms" and "assistant_responses cfg"
  shows "paired ms \<and> (\<forall>m \<in> set ms. m_content m = [] \<longrightarrow> m_role m = ''assistant'')"
  using process_events_shape [OF assms] by blast

definition demo_response :: pyval where
  "demo_response = PDict [(''id'', PStr ''r1'')]"

definition demo_memory :: memory_config where
  "demo_memory = \<lparr>enable_som_visual_browsing = False, enable_prompt_extensions = True, disabled_microagents = [],
     mc_system_message = ''You are an agent'', mc_workspace_context = (\<lambda>_ _ _ _. ''context''), mc_microagent_info = (\<lambda>_. ''knowledge''),
     mc_str = (\<lambda>_. ''action''), mc_visualize_diff = (\<lambda>_. ''diff''), mc_response_id = (\<lambda>v. text_of (dict_val v) ''id''),
     mc_response_message = (\<lambda>_. \<lparr>lm_role = ''assistant'', lm_content = Some ''thinking'',
       lm_tool_calls = Some [\<lparr>tc_id = ''c1'', tc_name = ''run'', tc_arguments = ''{}''\<rparr>]\<rparr>)\<rparr>"

definition demo_tool :: payload where
  "demo_tool = [(''function_name'', PStr ''run''), (''tool_call_id'', PStr ''c1''), (''model_response'', demo_response), (''total_calls_in_response'', PInt 1)]"

definition demo_task :: event where
  "demo_task = (make_act MessageAction [(''content'', PStr ''Fix it'')])\<lparr>e_source := Some USER_SOURCE, e_id := Some 1\<rparr>"

definition demo_conversation :: "event list" where
  "demo_conversation =
     [demo_task,
      (make_act CmdRunAction [(''command'', PStr ''ls'')])\<lparr>e_source := Some AGENT_SOURCE, e_id := Some 2, e_tool_call := Some demo_tool\<rparr>,
      (make_obs CmdOutputObservation [(''content'', PStr ''a''), (''command'', PStr ''ls''), (''metadata'', PDict default_metadata)])
        \<lparr>e_source := Some AGENT_SOURCE, e_id := Some 3, e_tool_call := Some demo_tool\<rparr>,
      (make_act AgentFinishAction [(''thought'', PStr ''done'')])\<lparr>e_source := Some AGENT_SOURCE, e_id := Some 4, e_tool_call := Some demo_tool\<rparr>]"

lemma demo_memory_assistant: "assistant_responses demo_memory"
  by (simp add: assistant_responses_def demo_memory_def)

lemma demo_conversation_run:
  obtains ms events where "process_events demo_memory (\<lambda>_. []) demo_conversation demo_task {} None False = (Inr ms, events)"
    and "map m_role ms = [''system'', ''user'', ''assistant'', ''tool'', ''assistant'']"
proof -
  have "(case fst (process_events demo_memory (\<lambda>_. []) demo_conversation demo_task {} None False) of Inl _ \<Rightarrow> False
      | Inr ms \<Rightarrow> map m_role ms = [''system'', ''user'', ''assistant'', ''tool'', ''assistant''])" by code_simp
  then show thesis
    by (cases "process_events demo_memory (\<lambda>_. []) demo_conversation demo_task {} None False") (auto split: sum.splits intro: that)
qed

theorem conversation_paired_witness:
  "\<exists>ms. fst (process_events demo_memory (\<lambda>_. []) demo_conversation demo_task {} None False) = Inr ms \<and> length ms = 5 \<and> paired ms"
proof -
  obtain ms events where r: "process_events demo_memory (\<lambda>_. []) demo_conversation demo_task {} None False = (Inr ms, events)"
    and roles: "map m_role ms = [''system'', ''user'', ''assistant'', ''tool'', ''assistant'']" by (rule demo_conversation_run)
  have "length ms = 5" using arg_cong [OF roles, of length] by simp
  moreover have "fst (process_events demo_memory (\<lambda>_. []) demo_conversation demo_task {} None False) = Inr ms" using r by simp
  ultimately show ?thesis using conversation_paired [OF _ demo_memory_assistant] by blast
qed

section \<open>Marks for the cache\<close>

definition takes_turn :: "message \<Rightarrow> bool" where
  "takes_turn m \<longleftrightarrow> m_role m \<in> {''user'', ''tool''}"

definition mark_last :: "message \<Rightarrow> message" where
  "mark_last m = m\<lparr>m_content := butlast (m_content m) @ [case last (m_content m) of
     TextContent s _ \<Rightarrow> TextContent s True | ImageContent u _ \<Rightarrow> ImageContent u True]\<rparr>"

lemma cache_last_mark: "m_content m \<noteq> [] \<Longrightarrow> cache_last m = Inr (mark_last m)"
  by (simp add: cache_last_def mark_last_def)

lemma cache_last_turn_spec:
  "\<forall>m \<in> set ms. takes_turn m \<longrightarrow> m_content m \<noteq> []
    \<Longrightarrow> \<exists>ms'. cache_first_turn (rev ms) = Inr (rev ms') \<and> length ms' = length ms
      \<and> (\<forall>i < length ms. ms' ! i = (if takes_turn (ms ! i) \<and> (\<forall>j. i < j \<and> j < length ms \<longrightarrow> \<not> takes_turn (ms ! j)) then mark_last (ms ! i) else ms ! i))"
proof (induction ms rule: rev_induct)
  case (snoc m ms)
  show ?case
  proof (cases "takes_turn m")
    case True
    then have "m_content m \<noteq> []" using snoc.prems by simp
    then have "cache_first_turn (rev (ms @ [m])) = Inr (rev (ms @ [mark_last m]))"
      using True by (simp add: takes_turn_def cache_last_mark res_map_def)
    then show ?thesis using True
      by (intro exI [of _ "ms @ [mark_last m]"]) (auto simp: nth_append less_Suc_eq intro!: exI [of _ "length ms"])
  next
    case False
    obtain ms' where IH: "cache_first_turn (rev ms) = Inr (rev ms')" "length ms' = length ms"
        "\<forall>i < length ms. ms' ! i = (if takes_turn (ms ! i) \<and> (\<forall>j. i < j \<and> j < length ms \<longrightarrow> \<not> takes_turn (ms ! j)) then mark_last (ms ! i) else ms ! i)"
      using snoc by auto
    then have "cache_first_turn (rev (ms @ [m])) = Inr (rev (ms' @ [m]))" using False by (simp add: takes_turn_def res_map_def)
    moreover have "(\<forall>j. i < j \<and> j < length (ms @ [m]) \<longrightarrow> \<not> takes_turn ((ms @ [m]) ! j)) \<longleftrightarrow> (\<forall>j. i < j \<and> j < length ms \<longrightarrow> \<not> takes_turn (ms ! j))" for i
      using False by (auto simp: nth_append less_Suc_eq)
    ultimately show ?thesis using IH(2,3) False by (intro exI [of _ "ms' @ [m]"]) (auto simp: nth_append less_Suc_eq)
  qed
qed simp

text \<open>Marking a conversation for the prompt cache never fails, and it marks the last item of the system message in front and of the last message of
  the user or of a tool, nothing else.\<close>

theorem cache_marks:
  assumes "fst (process_events cfg rp history initial forgotten limit vision) = Inr ms" and "assistant_responses cfg"
  shows "\<exists>ms'. apply_prompt_caching ms = Inr ms' \<and> length ms' = length ms
    \<and> (\<forall>i < length ms. ms' ! i = (if i = 0 \<and> m_role (ms ! i) = ''system'' \<or> takes_turn (ms ! i) \<and> (\<forall>j. i < j \<and> j < length ms \<longrightarrow> \<not> takes_turn (ms ! j))
        then mark_last (ms ! i) else ms ! i))"
proof (cases ms)
  case Nil
  then show ?thesis by (simp add: apply_prompt_caching_def res_map_def)
next
  case (Cons m rest)
  let ?sys = "m_role m = ''system''" and ?m1 = "if m_role m = ''system'' then mark_last m else m"
  have ne: "m_content x \<noteq> []" if "x \<in> set ms" "m_role x \<noteq> ''assistant''" for x using process_events_shape(2) [OF assms that(1)] that(2) by blast
  have turn: "takes_turn ?m1 = takes_turn m" "\<And>x. takes_turn x \<Longrightarrow> m_role x \<noteq> ''assistant''" by (auto simp: takes_turn_def mark_last_def)
  have first: "(if ?sys then res_map (\<lambda>m. m # rest) (cache_last m) else Inr ms) = Inr (?m1 # rest)"
    using ne [of m] Cons by (simp add: cache_last_mark res_map_def)
  have "\<forall>x \<in> set (?m1 # rest). takes_turn x \<longrightarrow> m_content x \<noteq> []"
    using ne turn Cons by (auto simp: takes_turn_def mark_last_def)
  from cache_last_turn_spec [OF this] obtain ys where ys: "cache_first_turn (rev (?m1 # rest)) = Inr (rev ys)" "length ys = length ms"
    and y: "\<forall>i < length ms. ys ! i = (if takes_turn ((?m1 # rest) ! i) \<and> (\<forall>j. i < j \<and> j < length ms \<longrightarrow> \<not> takes_turn ((?m1 # rest) ! j))
      then mark_last ((?m1 # rest) ! i) else (?m1 # rest) ! i)"
    using Cons by auto
  have turns: "takes_turn ((?m1 # rest) ! i) = takes_turn (ms ! i)" for i using turn Cons by (cases i) simp_all
  have "ys ! i = (if i = 0 \<and> m_role (ms ! i) = ''system'' \<or> takes_turn (ms ! i) \<and> (\<forall>j. i < j \<and> j < length ms \<longrightarrow> \<not> takes_turn (ms ! j))
      then mark_last (ms ! i) else ms ! i)" if i: "i < length ms" for i
    using y [rule_format, OF i] Cons unfolding turns by (cases i) (auto simp: takes_turn_def)
  moreover have "apply_prompt_caching ms = Inr ys"
  proof -
    have "apply_prompt_caching ms
        = res_bind (if ?sys then res_map (\<lambda>m. m # rest) (cache_last m) else Inr ms) (\<lambda>ms. res_map rev (cache_first_turn (rev ms)))"
      by (simp add: apply_prompt_caching_def Cons)
    then show ?thesis unfolding first by (simp only: res_bind_def sum.case ys(1) res_map_def rev_rev_ident)
  qed
  ultimately show ?thesis using ys(2) by auto
qed

theorem cache_marks_witness:
  "\<exists>ms ms'. fst (process_events demo_memory (\<lambda>_. []) demo_conversation demo_task {} None False) = Inr ms
    \<and> apply_prompt_caching ms = Inr ms' \<and> length ms' = length ms"
proof -
  obtain ms events where "process_events demo_memory (\<lambda>_. []) demo_conversation demo_task {} None False = (Inr ms, events)" by (rule demo_conversation_run)
  then have "fst (process_events demo_memory (\<lambda>_. []) demo_conversation demo_task {} None False) = Inr ms" by simp
  with cache_marks [OF this demo_memory_assistant] show ?thesis by blast
qed

section \<open>Asking again\<close>

text \<open>What processing leaves of an event: only its fields and its tool call may have changed.\<close>

definition same_event :: "event \<Rightarrow> event \<Rightarrow> bool" where
  "same_event e e' \<longleftrightarrow> e_class e = e_class e' \<and> e_source e = e_source e'"

lemma set_attr_keeps: "e_class (set_attr k v e) = e_class e" "e_source (set_attr k v e) = e_source e"
  by (simp_all add: set_attr_def)

lemma finished_again: "finished cfg (finished cfg a) = finished cfg a"
proof -
  have "e_tool_call (finished cfg a) = None" by (auto simp: finished_def Let_def split: option.split)
  then show ?thesis by (simp add: finished_def [of cfg "finished cfg a"])
qed

lemma finished_same: "same_event a (finished cfg a)"
  by (auto simp: finished_def same_event_def set_attr_keeps Let_def split: option.split)

lemma same_event_kind:
  "same_event e e' \<Longrightarrow> is_action e' = is_action e \<and> is_a k e' = is_a k e \<and> from_user e' = from_user e \<and> is_tool_action e' = is_tool_action e
    \<and> role_of e' = role_of e"
  by (simp add: same_event_def is_action_def is_a_def from_user_def is_tool_action_def role_of_def)

lemma process_action_again:
  assumes "process_action cfg vision a p = (r, a')"
  shows "process_action cfg vision a' p = (r, a') \<and> same_event a a'"
proof (cases "is_a AgentFinishAction a \<and> \<not> is_tool_action a")
  case True
  then have a': "a' = finished cfg a" "r = Inr ([new_message (role_of a) [new_text (event_text a' ''thought'')]], p)"
    using assms by (auto simp: process_action_def Let_def)
  note k = same_event_kind [OF finished_same [of a cfg]]
  then show ?thesis using True a' finished_same by (simp add: process_action_def finished_again Let_def)
next
  case False
  then have "a' = a" using assms by (auto simp: process_action_def Let_def split: if_splits option.splits)
  then show ?thesis using assms by (simp add: same_event_def)
qed

lemma process_observation_past:
  "process_observation cfg rp limit vision (length past) (past @ xs) ob r = process_observation cfg rp limit vision (length past) (past @ ys) ob r"
  by (simp add: process_observation_def knowledge_messages_def filter_agents_in_microagent_obs_def has_agent_in_earlier_events_def)

lemma process_event_again:
  assumes "process_event cfg rp limit vision (length past) (past @ xs) e p r = (x, e')"
  shows "process_event cfg rp limit vision (length past) (past @ ys) e' p r = (x, e') \<and> same_event e e'"
proof (cases "is_action e")
  case True
  obtain y a' where a: "process_action cfg vision e p = (y, a')" by (metis prod.collapse)
  then have "e' = a'" using assms True by (simp add: process_event_def)
  then show ?thesis using assms True process_action_again [OF a] same_event_kind [of e a'] a by (simp add: process_event_def)
next
  case False
  then show ?thesis using assms process_observation_past [of cfg rp limit vision past xs _ r ys] by (auto simp: process_event_def same_event_def)
qed

lemma process_loop_again:
  "process_loop cfg rp limit vision past es p r = (x, events)
    \<Longrightarrow> \<exists>es'. events = past @ es' \<and> process_loop cfg rp limit vision past es' p r = (x, events) \<and> list_all2 same_event es es'"
proof (induction es arbitrary: past p r x events)
  case (Cons e es)
  have refl: "list_all2 same_event es es" by (simp add: list.rel_refl same_event_def)
  obtain y e' where e: "process_event cfg rp limit vision (length past) (past @ e # es) e p r = (y, e')" by (metis prod.collapse)
  note again = process_event_again [OF e]
  show ?case
  proof (cases y)
    case (Inl err)
    then show ?thesis using Cons.prems e again refl by (auto intro!: exI [of _ "e' # es"])
  next
    case (Inr z)
    then obtain ms p1 r1 where y: "y = Inr (ms, p1, r1)" by (cases z) auto
    obtain rest ev where l: "process_loop cfg rp limit vision (past @ [e']) es p1 r1 = (rest, ev)" by (metis prod.collapse)
    from Cons.IH [OF l] obtain es' where es': "ev = past @ e' # es'" "process_loop cfg rp limit vision (past @ [e']) es' p1 r1 = (rest, ev)"
      "list_all2 same_event es es'" by auto
    then show ?thesis using Cons.prems e y again l by (auto intro!: exI [of _ "e' # es'"])
  qed
qed simp

lemma ensure_again:
  assumes "from_user initial" and "list_all2 same_event (ensure_initial_user_message (ensure_system_message cfg history) initial forgotten) es"
  shows "ensure_initial_user_message (ensure_system_message cfg es) initial forgotten = es"
proof -
  let ?s = "ensure_system_message cfg history"
  let ?es = "ensure_initial_user_message ?s initial forgotten"
  have "list_ex (is_a SystemMessageAction) ?s \<or> mc_system_message cfg = []"
    by (auto simp: ensure_system_message_def is_a_def make_act_def new_event_def)
  then have "list_ex (is_a SystemMessageAction) ?es \<or> mc_system_message cfg = []"
    by (auto simp: ensure_initial_user_message_def split: list.splits)
  moreover have "list_ex (is_a SystemMessageAction) es = list_ex (is_a SystemMessageAction) ?es"
    using assms(2) by (induction rule: list_all2_induct) (simp_all add: same_event_kind)
  ultimately have "ensure_system_message cfg es = es" by (auto simp: ensure_system_message_def)
  moreover have "ensure_initial_user_message es initial forgotten = es"
  proof (cases es)
    case (Cons e0 rest)
    have "event_id initial \<in> forgotten \<or> (\<exists>e1 rest'. rest = e1 # rest' \<and> from_user e1)"
      using assms Cons same_event_kind
      by (auto simp: ensure_initial_user_message_def list_all2_Cons1 split: list.splits if_splits)
    then show ?thesis using Cons by (auto simp: ensure_initial_user_message_def)
  qed (simp add: ensure_initial_user_message_def)
  ultimately show ?thesis by simp
qed

text \<open>C32. The history is changed in place: messages are inserted in front and finishing actions take over the text of their response. Asking
  again with the history as it was left gives the same messages, or the same error, and leaves it as it is.\<close>

theorem processing_again:
  assumes "process_events cfg rp history initial forgotten limit vision = (r, history')" and "from_user initial"
  shows "process_events cfg rp history' initial forgotten limit vision = (r, history')"
proof -
  let ?es = "ensure_initial_user_message (ensure_system_message cfg history) initial forgotten"
  obtain x events where l: "process_loop cfg rp limit vision [] ?es [] [] = (x, events)" by (metis prod.collapse)
  then have x: "r = res_map (\<lambda>ms. apply_user_message_formatting None (filter_unmatched_tool_calls ms)) x" "history' = events"
    using assms(1) by (simp_all add: process_events_def)
  from process_loop_again [OF l] have "process_loop cfg rp limit vision [] events [] [] = (x, events)" "list_all2 same_event ?es events"
    by auto
  with ensure_again [OF assms(2)] show ?thesis by (simp add: process_events_def x)
qed

theorem processing_again_witness:
  "\<exists>r h. process_events demo_memory (\<lambda>_. []) demo_conversation demo_task {} None False = (r, h)
    \<and> process_events demo_memory (\<lambda>_. []) h demo_task {} None False = (r, h) \<and> length h = 5"
proof -
  obtain r h where r: "process_events demo_memory (\<lambda>_. []) demo_conversation demo_task {} None False = (r, h)" by (metis prod.collapse)
  have "from_user demo_task" by code_simp
  moreover have "length (snd (process_events demo_memory (\<lambda>_. []) demo_conversation demo_task {} None False)) = 5" by code_simp
  ultimately show ?thesis using processing_again [OF r] r by simp
qed

section \<open>How a conversation begins\<close>

lemma process_system:
  "is_a SystemMessageAction e \<Longrightarrow> process_action cfg vision e p = (Inr ([new_message ''system'' [new_text (event_text e ''content'')]], p), e)"
  by (simp add: process_action_def is_tool_action_def is_a_def TOOL_ACTIONS_def)

lemma process_user:
  "from_user e \<Longrightarrow> process_action cfg vision e p = (Inr ([new_message ''user'' (message_content vision e)], p), e)"
  by (simp add: process_action_def is_tool_action_def is_a_def from_user_def TOOL_ACTIONS_def role_of_def)

lemma process_loop_action:
  "is_action e \<Longrightarrow> process_action cfg vision e [] = (Inr (ms, []), e') \<Longrightarrow> process_loop cfg rp limit vision past (e # es) [] []
    = (case process_loop cfg rp limit vision (past @ [e']) es [] [] of (r, events) \<Rightarrow> (res_map ((@) ms) r, events))"
  by (simp add: process_event_def res_bind_def res_map_def Let_def)

text \<open>The conversation begins with the system message and a message of the user, also when the history lost the first message of the user,
  unless that message was condensed on purpose.\<close>

theorem conversation_begins:
  assumes "history = [] \<or> is_a SystemMessageAction (hd history) \<or> \<not> list_ex (is_a SystemMessageAction) history" and "mc_system_message cfg \<noteq> []"
    and "from_user initial" and "event_id initial \<notin> forgotten" and "assistant_responses cfg"
    and "fst (process_events cfg rp history initial forgotten limit vision) = Inr ms"
  shows "\<exists>rest. map m_role ms = ''system'' # ''user'' # rest"
proof -
  let ?es = "ensure_initial_user_message (ensure_system_message cfg history) initial forgotten"
  obtain s es where s: "ensure_system_message cfg history = s # es" "is_a SystemMessageAction s"
  proof (cases "list_ex (is_a SystemMessageAction) history")
    case True
    then show thesis using assms(1,2) that by (cases history) (auto simp: ensure_system_message_def)
  next
    case False
    then show thesis using assms(2) that by (simp add: ensure_system_message_def is_a_def make_act_def new_event_def)
  qed
  obtain u rest where u: "?es = s # u # rest" "from_user u"
  proof (cases es)
    case (Cons a list)
    then show thesis using s assms(4) that [of a list] that [of initial "a # list"] assms(3)
      by (cases "from_user a") (simp_all add: ensure_initial_user_message_def)
  qed (use s assms(3,4) that [of initial "[]"] in \<open>simp add: ensure_initial_user_message_def\<close>)
  have acts: "is_action s" "is_action u" using s(2) u(2) by (simp_all add: is_action_def is_a_def from_user_def)
  obtain ms0 events where l: "process_loop cfg rp limit vision [] ?es [] [] = (Inr ms0, events)"
    and ms: "ms = apply_user_message_formatting None (filter_unmatched_tool_calls ms0)"
    using assms(6) by (auto simp: process_events_def Let_def res_map_def split: prod.splits sum.splits)
  have ok: "paired ms0" "list_all sound_message ms0"
    using process_loop_ok [OF l _ _ assms(5)] by (simp_all add: pending_ok_def responses_ok_def)
  from l obtain ms1 where "ms0 = new_message ''system'' [new_text (event_text s ''content'')] # new_message ''user'' (message_content vision u) # ms1"
    unfolding u(1) process_loop_action [OF acts(1) process_system [OF s(2)]] process_loop_action [OF acts(2) process_user [OF u(2)]]
    by (auto simp: res_map_def split: prod.splits sum.splits)
  then show ?thesis unfolding ms filter_paired [OF ok] by (simp add: new_message_def)
qed

theorem conversation_begins_witness:
  "\<exists>ms rest. fst (process_events demo_memory (\<lambda>_. []) (tl demo_conversation) demo_task {} None False) = Inr ms \<and> map m_role ms = ''system'' # ''user'' # rest"
proof -
  have "\<not> isl (fst (process_events demo_memory (\<lambda>_. []) (tl demo_conversation) demo_task {} None False))" by code_simp
  then obtain ms where ms: "fst (process_events demo_memory (\<lambda>_. []) (tl demo_conversation) demo_task {} None False) = Inr ms" by (metis sum.collapse(2))
  have "from_user demo_task" "\<not> list_ex (is_a SystemMessageAction) (tl demo_conversation)" "mc_system_message demo_memory \<noteq> []" by code_simp+
  with conversation_begins [OF _ _ _ _ demo_memory_assistant ms] ms show ?thesis by auto
qed

end
