(* ===== verification/Recall_Memory.thy ===== *)
theory Recall_Memory
  imports Conversation_Memory Agent_Controller
begin

text \<open>
  The memory that answers recall actions: \<open>memory/memory.py\<close>, and the microagents it recalls: \<open>microagent/microagent.py\<close>. The parser of front
  matter, the validation of metadata and the file system are parameters; the server configuration of a microagent is an opaque value.
\<close>

section \<open>Microagents\<close>

datatype microagent_type = KNOWLEDGE_AGENT | REPO_AGENT | TASK_AGENT

fun microagent_type_value :: "microagent_type \<Rightarrow> string" where
  "microagent_type_value KNOWLEDGE_AGENT = ''knowledge''"
| "microagent_type_value REPO_AGENT = ''repo''"
| "microagent_type_value TASK_AGENT = ''task''"

record microagent_metadata =
  md_name :: string
  md_triggers :: "string list"
  md_inputs :: "(string \<times> string) list"
  md_mcp_tools :: "(pyval \<times> bool) option" \<comment> \<open>and whether there are stdio servers\<close>

record microagent =
  ma_name :: string
  ma_content :: string
  ma_metadata :: microagent_metadata
  ma_source :: string
  ma_type :: microagent_type

definition default_metadata_named :: "string \<Rightarrow> microagent_metadata" where
  "default_metadata_named n = \<lparr>md_name = n, md_triggers = [], md_inputs = [], md_mcp_tools = None\<rparr>"

definition PATH_TO_THIRD_PARTY_MICROAGENT_NAME :: "(string, string) dict" where
  "PATH_TO_THIRD_PARTY_MICROAGENT_NAME = [(''.cursorrules'', ''cursorrules''), (''agents.md'', ''agents''), (''agent.md'', ''agents'')]"

definition third_party_name :: "string \<Rightarrow> string option" where
  "third_party_name filename = dict_get PATH_TO_THIRD_PARTY_MICROAGENT_NAME (lower filename)"

definition repo_microagent :: "string \<Rightarrow> string \<Rightarrow> string \<Rightarrow> microagent" where
  "repo_microagent name content source =
     \<lparr>ma_name = name, ma_content = content, ma_metadata = default_metadata_named name, ma_source = source, ma_type = REPO_AGENT\<rparr>"

definition handle_third_party :: "string \<Rightarrow> string \<Rightarrow> string \<Rightarrow> microagent option" where
  "handle_third_party filename path content = map_option (\<lambda>n. repo_microagent n content path) (third_party_name filename)"

text \<open>The pattern of a variable: a dollar sign, braces and an identifier between them.\<close>

definition name_start :: "char \<Rightarrow> bool" where
  "name_start c \<longleftrightarrow> c = CHR ''_'' \<or> (97 \<le> code c \<and> code c \<le> 122) \<or> (65 \<le> code c \<and> code c \<le> 90)"

definition name_character :: "char \<Rightarrow> bool" where
  "name_character c \<longleftrightarrow> name_start c \<or> is_digit c"

definition variable_at :: "string \<Rightarrow> (string \<times> string) option" where
  "variable_at s =
     (case s of
        c1 # c2 # c # rest \<Rightarrow>
          if c1 = CHR ''$'' \<and> c2 = CHR 0x7B \<and> name_start c then
            (case dropWhile name_character rest of
               c3 # rest' \<Rightarrow> if c3 = CHR 0x7D then Some (c # takeWhile name_character rest, rest') else None
             | [] \<Rightarrow> None)
          else None
      | _ \<Rightarrow> None)"

lemma variable_at_shorter:
  assumes "variable_at s = Some (v, rest)"
  shows "length rest < length s"
proof -
  obtain c1 c2 c s' c3 where "s = c1 # c2 # c # s'" "dropWhile name_character s' = c3 # rest"
    using assms by (auto simp: variable_at_def split: list.splits if_splits)
  then show ?thesis using length_dropWhile_le [of name_character s'] by simp
qed

function extract_variables :: "string \<Rightarrow> string list" where
  "extract_variables s =
     (case variable_at s of
        Some (v, rest) \<Rightarrow> v # extract_variables rest
      | None \<Rightarrow> (case s of [] \<Rightarrow> [] | _ # s' \<Rightarrow> extract_variables s'))"
  by pat_completeness auto
termination by (relation "measure length") (auto dest: variable_at_shorter)

declare extract_variables.simps [simp del]

definition requires_user_input :: "microagent \<Rightarrow> bool" where
  "requires_user_input m \<longleftrightarrow> extract_variables (ma_content m) \<noteq> []"

definition missing_variables_prompt :: string where
  "missing_variables_prompt = [nl, nl] @ ''If the user didn'' @ [CHR 0x27] @ ''t provide any of these variables, ask the user to provide them first before the agent can proceed with the task.''"

definition append_missing_variables_prompt :: "microagent \<Rightarrow> microagent" where
  "append_missing_variables_prompt m =
     (if \<not> requires_user_input m \<and> md_inputs (ma_metadata m) = [] then m else m\<lparr>ma_content := ma_content m @ missing_variables_prompt\<rparr>)"

text \<open>\<open>load\<close> after the content was read: \<open>parse\<close> splits the front matter, \<open>validate\<close> gives the metadata.\<close>

definition check_metadata :: "(payload \<Rightarrow> microagent_metadata res) \<Rightarrow> payload \<Rightarrow> microagent_metadata res" where
  "check_metadata validate d =
     res_bind (validate d) (\<lambda>md. case md_mcp_tools md of
       Some (_, False) \<Rightarrow> Inl (OtherError ''MicroagentValidationError'' (''Microagent '' @ md_name md
         @ '' has MCP tools configuration but no stdio servers. Only stdio servers are currently supported.''))
     | _ \<Rightarrow> Inr md)"

definition metadata_error :: "(pyval \<Rightarrow> string) \<Rightarrow> string \<Rightarrow> payload \<Rightarrow> py_exn \<Rightarrow> py_exn" where
  "metadata_error rp filename d e =
     (let msg = ''Error validating microagent metadata in '' @ filename @ '': '' @ exn_text e;
          bad_type = (case dict_get d ''type'' of None \<Rightarrow> None
            | Some v \<Rightarrow> if v \<in> {PStr ''knowledge'', PStr ''repo'', PStr ''task''} then None else Some v);
          quote = [CHR 0x22]
      in OtherError ''MicroagentValidationError'' (msg @ (case bad_type of None \<Rightarrow> []
        | Some v \<Rightarrow> ''. Invalid '' @ quote @ ''type'' @ quote @ '' value: '' @ quote @ py_str rp v @ quote @ ''. Valid types are: ''
            @ join '', '' (map (\<lambda>t. quote @ microagent_type_value t @ quote) [KNOWLEDGE_AGENT, REPO_AGENT, TASK_AGENT]))))"

definition typed_metadata :: "microagent_metadata \<Rightarrow> microagent_metadata \<times> microagent_type" where
  "typed_metadata md =
     (if md_inputs md \<noteq> [] then
        let trigger = ''/'' @ md_name md in
        (if trigger \<in> set (md_triggers md) then md else md\<lparr>md_triggers := md_triggers md @ [trigger]\<rparr>, TASK_AGENT)
      else (md, if md_triggers md \<noteq> [] then KNOWLEDGE_AGENT else REPO_AGENT))"

definition string_version :: "(pyval \<Rightarrow> string) \<Rightarrow> payload \<Rightarrow> payload" where
  "string_version rp d = (case dict_get d ''version'' of None \<Rightarrow> d | Some v \<Rightarrow> dict_set ''version'' (PStr (py_str rp v)) d)"

definition load_microagent ::
  "(pyval \<Rightarrow> string) \<Rightarrow> (string \<Rightarrow> (string \<times> payload) res) \<Rightarrow> (payload \<Rightarrow> microagent_metadata res) \<Rightarrow> string \<Rightarrow> string \<Rightarrow> string option \<Rightarrow> string
     \<Rightarrow> microagent res" where
  "load_microagent rp parse validate filename path relative_name text_read =
     (let derived = map_option (\<lambda>r. case third_party_name filename of Some n \<Rightarrow> n | None \<Rightarrow> r) relative_name in
      if filename = ''.openhands_instructions'' then Inr (repo_microagent ''repo_legacy'' text_read path)
      else case handle_third_party filename path text_read of
        Some m \<Rightarrow> Inr m
      | None \<Rightarrow> res_bind (parse text_read) (\<lambda>(content, d).
          let d = string_version rp d in
          case check_metadata validate d of
            Inl e \<Rightarrow> Inl (metadata_error rp filename d e)
          | Inr md \<Rightarrow>
              let (md, t) = typed_metadata md;
                  m = \<lparr>ma_name = (case derived of Some n \<Rightarrow> n | None \<Rightarrow> md_name md), ma_content = content, ma_metadata = md, ma_source = path, ma_type = t\<rparr>
              in Inr (if t = TASK_AGENT then append_missing_variables_prompt m else m)))"

text \<open>The files of a directory, each with its path and what loading it gives, and the two collections.\<close>

fun load_microagents :: "(string \<times> microagent res) list \<Rightarrow> (string, microagent) dict \<Rightarrow> (string, microagent) dict
    \<Rightarrow> ((string, microagent) dict \<times> (string, microagent) dict) res" where
  "load_microagents [] repo knowledge = Inr (repo, knowledge)"
| "load_microagents ((path, r) # files) repo knowledge =
     (case r of
        Inl e \<Rightarrow> (let msg = ''Error loading microagent from '' @ path @ '': '' @ exn_text e in
          Inl (if exn_class e = ''MicroagentValidationError'' then OtherError ''MicroagentValidationError'' msg else ValueError msg))
      | Inr m \<Rightarrow>
          if ma_type m = REPO_AGENT then load_microagents files (dict_set (ma_name m) m repo) knowledge
          else load_microagents files repo (dict_set (ma_name m) m knowledge))"

definition match_trigger :: "string \<Rightarrow> microagent \<Rightarrow> string option" where
  "match_trigger query m = find (\<lambda>t. contains (lower t) (lower query)) (md_triggers (ma_metadata m))"

section \<open>The memory\<close>

record recall_memory =
  rm_repo_microagents :: "(string, microagent) dict"
  rm_knowledge_microagents :: "(string, microagent) dict"
  rm_repository_info :: "repository_info option"
  rm_runtime_info :: "runtime_info option"
  rm_conversation_instructions :: "string option"

definition merge_microagents :: "(string, microagent) dict \<Rightarrow> (string, microagent) dict \<Rightarrow> (string, microagent) dict" where
  "merge_microagents new old = fold (\<lambda>(k, m) d. dict_set k m d) new old"

definition load_into :: "((string, microagent) dict \<times> (string, microagent) dict) \<Rightarrow> recall_memory \<Rightarrow> recall_memory" where
  "load_into r rm = rm\<lparr>rm_repo_microagents := merge_microagents (fst r) (rm_repo_microagents rm),
     rm_knowledge_microagents := merge_microagents (snd r) (rm_knowledge_microagents rm)\<rparr>"

text \<open>The memory at its start: the shared microagents, then those of the user, which may fail to load.\<close>

definition new_memory :: "(string \<times> microagent res) list \<Rightarrow> (string \<times> microagent res) list \<Rightarrow> recall_memory res" where
  "new_memory shared user =
     res_map (\<lambda>r. let rm = load_into r \<lparr>rm_repo_microagents = [], rm_knowledge_microagents = [], rm_repository_info = None,
           rm_runtime_info = None, rm_conversation_instructions = None\<rparr>
         in case load_microagents user [] [] of Inl _ \<Rightarrow> rm | Inr r \<Rightarrow> load_into r rm)
       (load_microagents shared [] [])"

definition load_user_workspace_microagents :: "microagent list \<Rightarrow> recall_memory \<Rightarrow> recall_memory" where
  "load_user_workspace_microagents ms rm =
     fold (\<lambda>m rm. if ma_type m = REPO_AGENT then rm\<lparr>rm_repo_microagents := dict_set (ma_name m) m (rm_repo_microagents rm)\<rparr>
       else rm\<lparr>rm_knowledge_microagents := dict_set (ma_name m) m (rm_knowledge_microagents rm)\<rparr>) ms rm"

definition get_microagent_mcp_tools :: "recall_memory \<Rightarrow> pyval list" where
  "get_microagent_mcp_tools rm =
     concat (map (\<lambda>m. case md_mcp_tools (ma_metadata m) of None \<Rightarrow> [] | Some (v, _) \<Rightarrow> [v]) (dict_values (rm_repo_microagents rm)))"

definition set_repository_info :: "string \<Rightarrow> string \<Rightarrow> string option \<Rightarrow> recall_memory \<Rightarrow> recall_memory" where
  "set_repository_info name dir branch rm =
     rm\<lparr>rm_repository_info := (if name \<noteq> [] \<or> dir \<noteq> [] then Some \<lparr>repo_name = name, repo_directory = dir, branch_name = branch\<rparr> else None)\<rparr>"

definition set_runtime_info :: "payload \<Rightarrow> string \<Rightarrow> string \<Rightarrow> payload \<Rightarrow> string \<Rightarrow> recall_memory \<Rightarrow> recall_memory" where
  "set_runtime_info web_hosts instructions today secrets dir rm =
     rm\<lparr>rm_runtime_info := Some (if web_hosts \<noteq> [] \<or> instructions \<noteq> []
       then \<lparr>ri_date = today, available_hosts = web_hosts, additional_agent_instructions = instructions,
         custom_secrets_descriptions = secrets, working_dir = dir\<rparr>
       else \<lparr>ri_date = today, available_hosts = [], additional_agent_instructions = [],
         custom_secrets_descriptions = secrets, working_dir = dir\<rparr>)\<rparr>"

definition set_conversation_instructions :: "string option \<Rightarrow> recall_memory \<Rightarrow> recall_memory" where
  "set_conversation_instructions s rm = rm\<lparr>rm_conversation_instructions := Some (case s of None \<Rightarrow> [] | Some t \<Rightarrow> t)\<rparr>"

definition knowledge_value :: "microagent \<Rightarrow> string \<Rightarrow> pyval" where
  "knowledge_value m trigger = PDict [(''name'', PStr (ma_name m)), (''trigger'', PStr trigger), (''content'', PStr (ma_content m))]"

definition find_microagent_knowledge :: "recall_memory \<Rightarrow> string \<Rightarrow> pyval list" where
  "find_microagent_knowledge rm query =
     (if query = [] then []
      else concat (map (\<lambda>m. case match_trigger query m of None \<Rightarrow> [] | Some t \<Rightarrow> if t = [] then [] else [knowledge_value m t])
        (dict_values (rm_knowledge_microagents rm))))"

definition collected_instructions :: "recall_memory \<Rightarrow> string" where
  "collected_instructions rm = fold (\<lambda>m s. (if s = [] then s else s @ [nl, nl]) @ ma_content m) (dict_values (rm_repo_microagents rm)) []"

definition on_workspace_context_recall :: "recall_memory \<Rightarrow> event \<Rightarrow> event option" where
  "on_workspace_context_recall rm e =
     (let instructions = collected_instructions rm;
          knowledge = find_microagent_knowledge rm (event_text e ''query'');
          repo = rm_repository_info rm; runtime = rm_runtime_info rm; conv = rm_conversation_instructions rm
      in if repo = None \<and> runtime = None \<and> instructions = [] \<and> knowledge = [] \<and> conv = None then None
         else Some (make_obs RecallObservation
           [(''content'', PStr ''Added workspace context''), (''recall_type'', PStr ''workspace_context''),
            (''repo_name'', PStr (case repo of None \<Rightarrow> [] | Some r \<Rightarrow> repo_name r)),
            (''repo_directory'', PStr (case repo of None \<Rightarrow> [] | Some r \<Rightarrow> repo_directory r)),
            (''repo_branch'', PStr (case repo of None \<Rightarrow> [] | Some r \<Rightarrow> (case branch_name r of None \<Rightarrow> [] | Some b \<Rightarrow> b))),
            (''repo_instructions'', PStr instructions),
            (''runtime_hosts'', PDict (case runtime of None \<Rightarrow> [] | Some r \<Rightarrow> available_hosts r)),
            (''additional_agent_instructions'', PStr (case runtime of None \<Rightarrow> [] | Some r \<Rightarrow> additional_agent_instructions r)),
            (''date'', PStr (case runtime of None \<Rightarrow> [] | Some r \<Rightarrow> ri_date r)),
            (''custom_secrets_descriptions'', PDict (case runtime of None \<Rightarrow> [] | Some r \<Rightarrow> custom_secrets_descriptions r)),
            (''conversation_instructions'', PStr (case conv of None \<Rightarrow> [] | Some s \<Rightarrow> s)),
            (''working_dir'', PStr (case runtime of None \<Rightarrow> [] | Some r \<Rightarrow> working_dir r)),
            (''microagent_knowledge'', PList knowledge)]))"

definition on_microagent_recall :: "recall_memory \<Rightarrow> event \<Rightarrow> event option" where
  "on_microagent_recall rm e =
     (let knowledge = find_microagent_knowledge rm (event_text e ''query'') in
      if knowledge = [] then None
      else Some (make_obs RecallObservation [(''content'', PStr ''Retrieved knowledge from microagents''), (''recall_type'', PStr ''knowledge''),
        (''microagent_knowledge'', PList knowledge)]))"

text \<open>The answer to an event, if there is one.\<close>

definition recall_answer :: "recall_memory \<Rightarrow> event \<Rightarrow> event option" where
  "recall_answer rm e =
     (let answer = (\<lambda>ob. Some ((case ob of None \<Rightarrow> make_obs NullObservation [(''content'', PStr [])] | Some ob \<Rightarrow> ob)\<lparr>e_cause := Some (event_id e)\<rparr>)) in
      if \<not> is_a RecallAction e then None
      else if e_source e = Some USER_SOURCE \<and> field_of (e_fields e) ''recall_type'' = PStr ''workspace_context''
      then answer (on_workspace_context_recall rm e)
      else if e_source e \<in> {Some USER_SOURCE, Some AGENT_SOURCE} \<and> field_of (e_fields e) ''recall_type'' = PStr ''knowledge''
      then answer (on_microagent_recall rm e)
      else None)"

text \<open>Handling an event of the stream: the stream afterwards, and the status reported when adding the answer raised.\<close>

definition memory_on_event ::
  "(pyval \<Rightarrow> string) \<Rightarrow> codec \<Rightarrow> string \<Rightarrow> recall_memory \<Rightarrow> event \<Rightarrow> 'cb event_stream \<Rightarrow> (string \<times> string) option \<times> 'cb event_stream" where
  "memory_on_event rp cd now rm e st =
     (case recall_answer rm e of
        None \<Rightarrow> (None, st)
      | Some ob \<Rightarrow> (let (r, _, st) = add_event rp cd now ob ENVIRONMENT_SOURCE st in
          (case r of Inl x \<Rightarrow> Some (''STATUS$ERROR_MEMORY'', ''Error: '' @ exn_class x) | Inr _ \<Rightarrow> None, st)))"

section \<open>Loading\<close>

text \<open>The kind of a microagent that was loaded is decided by its metadata: with inputs it is a task, which can be called by its name and asks
  for missing inputs, with triggers it is knowledge, and otherwise it belongs to the repository and is always active.\<close>

theorem loaded_microagent_typed:
  assumes "load_microagent rp parse validate filename path rel content = Inr m"
  shows "(ma_type m = REPO_AGENT \<longleftrightarrow> md_triggers (ma_metadata m) = [] \<and> md_inputs (ma_metadata m) = [])
    \<and> (ma_type m = TASK_AGENT \<longleftrightarrow> md_inputs (ma_metadata m) \<noteq> [])
    \<and> (ma_type m = TASK_AGENT \<longrightarrow> ''/'' @ md_name (ma_metadata m) \<in> set (md_triggers (ma_metadata m))
        \<and> (\<exists>s. ma_content m = s @ missing_variables_prompt))"
proof (cases "filename = ''.openhands_instructions'' \<or> handle_third_party filename path content \<noteq> None")
  case True
  then obtain n s where "m = repo_microagent n s path"
    using assms by (auto simp: load_microagent_def handle_third_party_def split: if_splits)
  then show ?thesis by (simp add: repo_microagent_def default_metadata_named_def)
next
  case False
  then obtain d s md where "check_metadata validate (string_version rp d) = Inr md" and p: "parse content = Inr (s, d)"
    using assms by (auto simp: load_microagent_def Let_def res_bind_def split: sum.splits prod.splits)
  moreover obtain md' t where t: "typed_metadata md = (md', t)" by (metis prod.collapse)
  ultimately obtain n where m: "m = (let m = \<lparr>ma_name = n, ma_content = s, ma_metadata = md', ma_source = path, ma_type = t\<rparr> in
      if t = TASK_AGENT then append_missing_variables_prompt m else m)"
    using assms False by (auto simp: load_microagent_def Let_def res_bind_def)
  have "(t = TASK_AGENT \<longleftrightarrow> md_inputs md' \<noteq> []) \<and> (t = REPO_AGENT \<longleftrightarrow> md_triggers md' = [] \<and> md_inputs md' = [])
      \<and> (t = TASK_AGENT \<longrightarrow> ''/'' @ md_name md' \<in> set (md_triggers md'))"
    using t by (auto simp: typed_metadata_def Let_def split: if_splits)
  with m show ?thesis by (auto simp: append_missing_variables_prompt_def Let_def)
qed

definition demo_validate :: "payload \<Rightarrow> microagent_metadata res" where
  "demo_validate d = Inr \<lparr>md_name = text_of d ''name'', md_triggers = [], md_inputs = [(''repo'', ''the repository'')], md_mcp_tools = None\<rparr>"

theorem loaded_microagent_typed_witness:
  "\<exists>m. load_microagent (\<lambda>_. []) (\<lambda>s. Inr (s, [(''name'', PStr ''review'')])) demo_validate ''review.md'' ''/m/review.md'' None ''Review it'' = Inr m
    \<and> ma_type m = TASK_AGENT \<and> ''/review'' \<in> set (md_triggers (ma_metadata m))"
proof -
  let ?r = "load_microagent (\<lambda>_. []) (\<lambda>s. Inr (s, [(''name'', PStr ''review'')])) demo_validate ''review.md'' ''/m/review.md'' None ''Review it''"
  have "res_map (\<lambda>m. (ma_type m, md_name (ma_metadata m))) ?r = Inr (TASK_AGENT, ''review'')" by code_simp
  then obtain m where m: "?r = Inr m" and n: "ma_type m = TASK_AGENT" "md_name (ma_metadata m) = ''review''"
    by (cases ?r) (auto simp: res_map_def)
  from loaded_microagent_typed [OF m] n have "''/review'' \<in> set (md_triggers (ma_metadata m))" by simp
  with m n show ?thesis by blast
qed

section \<open>The collections\<close>

definition microagents_ok :: "(microagent_type \<Rightarrow> bool) \<Rightarrow> (string, microagent) dict \<Rightarrow> bool" where
  "microagents_ok P d \<longleftrightarrow> dict_ok d \<and> (\<forall>(k, m) \<in> set d. k = ma_name m \<and> P (ma_type m))"

abbreviation "is_repo \<equiv> (\<lambda>t. t = REPO_AGENT)"
abbreviation "is_knowledge \<equiv> (\<lambda>t. t \<noteq> REPO_AGENT)"

definition memory_ok :: "recall_memory \<Rightarrow> bool" where
  "memory_ok rm \<longleftrightarrow> microagents_ok is_repo (rm_repo_microagents rm) \<and> microagents_ok is_knowledge (rm_knowledge_microagents rm)"

lemma microagents_ok_set: "microagents_ok P d \<Longrightarrow> k = ma_name m \<Longrightarrow> P (ma_type m) \<Longrightarrow> microagents_ok P (dict_set k m d)"
  unfolding microagents_ok_def using dict_set_all [of d "\<lambda>k m. k = ma_name m \<and> P (ma_type m)" k m] by simp

lemma load_microagents_ok:
  "load_microagents files repo knowledge = Inr (r, k) \<Longrightarrow> microagents_ok is_repo repo \<Longrightarrow> microagents_ok is_knowledge knowledge
    \<Longrightarrow> microagents_ok is_repo r \<and> microagents_ok is_knowledge k"
proof (induction files repo knowledge rule: load_microagents.induct)
  case (2 path x files repo knowledge)
  show ?case
  proof (cases x)
    case (Inr m)
    then show ?thesis using 2 by (cases "ma_type m = REPO_AGENT") (auto intro: microagents_ok_set)
  qed (use 2 in \<open>simp add: Let_def\<close>)
qed simp

lemma merge_ok:
  assumes "microagents_ok P old" and "microagents_ok P new"
  shows "microagents_ok P (merge_microagents new old)"
proof -
  have "\<forall>(k, m) \<in> set new. k = ma_name m \<and> P (ma_type m)" using assms(2) by (simp add: microagents_ok_def)
  with assms(1) show ?thesis unfolding merge_microagents_def
    by (induction new arbitrary: old) (auto intro: microagents_ok_set)
qed

lemma load_into_ok: "memory_ok rm \<Longrightarrow> microagents_ok is_repo (fst r) \<Longrightarrow> microagents_ok is_knowledge (snd r) \<Longrightarrow> memory_ok (load_into r rm)"
  by (simp add: memory_ok_def load_into_def merge_ok)

lemma empty_ok: "microagents_ok P []"
  by (simp add: microagents_ok_def)

lemma workspace_microagent_ok:
  assumes "memory_ok rm"
  shows "memory_ok (if ma_type m = REPO_AGENT then rm\<lparr>rm_repo_microagents := dict_set (ma_name m) m (rm_repo_microagents rm)\<rparr>
    else rm\<lparr>rm_knowledge_microagents := dict_set (ma_name m) m (rm_knowledge_microagents rm)\<rparr>)"
  using assms microagents_ok_set [of is_repo _ "ma_name m" m] microagents_ok_set [of is_knowledge _ "ma_name m" m] by (simp add: memory_ok_def)

lemma workspace_ok: "memory_ok rm \<Longrightarrow> memory_ok (load_user_workspace_microagents ms rm)"
  unfolding load_user_workspace_microagents_def
proof (induction ms arbitrary: rm)
  case (Cons m ms)
  show ?case by (simp only: fold.simps comp_apply) (rule Cons.IH [OF workspace_microagent_ok [OF Cons.prems]])
qed simp

interpretation workspaces: guarded_steps load_user_workspace_microagents memory_ok
  by unfold_locales (rule workspace_ok)

text \<open>However the memory was loaded, from the shared directory, the directory of the user and any number of workspaces, every microagent is stored
  under its name, once, and those of the repository are apart from those that are triggered.\<close>

theorem memory_collections:
  assumes "new_memory shared user = Inr rm"
  shows "memory_ok (fold load_user_workspace_microagents workspaces rm)"
proof -
  let ?base = "\<lparr>rm_repo_microagents = [], rm_knowledge_microagents = [], rm_repository_info = None, rm_runtime_info = None,
    rm_conversation_instructions = None\<rparr>"
  have base: "memory_ok ?base" by (simp add: memory_ok_def empty_ok)
  have load: "memory_ok (load_into x m)" if "load_microagents files [] [] = Inr x" "memory_ok m" for files x m
    using load_microagents_ok [of files "[]" "[]" "fst x" "snd x"] that by (intro load_into_ok) (simp_all add: empty_ok)
  obtain r where r: "load_microagents shared [] [] = Inr r"
    and rm: "rm = (case load_microagents user [] [] of Inl _ \<Rightarrow> load_into r ?base | Inr r' \<Rightarrow> load_into r' (load_into r ?base))"
    using assms by (auto simp: new_memory_def res_map_def Let_def split: sum.splits)
  have "memory_ok rm"
    using load [OF r base] load by (cases "load_microagents user [] []") (simp_all add: rm)
  then show ?thesis by (rule workspaces.run_inv)
qed

theorem memory_collections_witness:
  "\<exists>rm. new_memory [(''/m/a.md'', Inr (repo_microagent ''a'' ''Use tabs'' ''/m/a.md''))] [(''/u/b.md'', Inl (ValueError ''yaml''))] = Inr rm
    \<and> memory_ok (fold load_user_workspace_microagents [[repo_microagent ''a'' ''Use spaces'' ''/w/a.md'']] rm)"
proof -
  let ?r = "new_memory [(''/m/a.md'', Inr (repo_microagent ''a'' ''Use tabs'' ''/m/a.md''))] [(''/u/b.md'', Inl (ValueError ''yaml''))]"
  have "\<not> isl ?r" by code_simp
  then obtain rm where rm: "?r = Inr rm" by (metis sum.collapse(2))
  with memory_collections [OF rm] show ?thesis by blast
qed

section \<open>Recall\<close>

definition first_trigger :: "string \<Rightarrow> microagent \<Rightarrow> string \<Rightarrow> bool" where
  "first_trigger query m t \<longleftrightarrow> (\<exists>pre post. md_triggers (ma_metadata m) = pre @ t # post \<and> contains (lower t) (lower query)
     \<and> (\<forall>s \<in> set pre. \<not> contains (lower s) (lower query)))"

lemma match_first_trigger: "match_trigger query m = Some t \<longleftrightarrow> first_trigger query m t"
proof
  assume "match_trigger query m = Some t"
  then obtain i where i: "i < length (md_triggers (ma_metadata m))" "contains (lower t) (lower query)" "t = md_triggers (ma_metadata m) ! i"
    "\<forall>j < i. \<not> contains (lower (md_triggers (ma_metadata m) ! j)) (lower query)"
    unfolding match_trigger_def find_Some_iff by auto
  then show "first_trigger query m t"
    unfolding first_trigger_def by (intro exI [of _ "take i (md_triggers (ma_metadata m))"] exI [of _ "drop (Suc i) (md_triggers (ma_metadata m))"])
      (auto simp: id_take_nth_drop [symmetric] in_set_conv_nth)
next
  assume "first_trigger query m t"
  then obtain pre post where p: "md_triggers (ma_metadata m) = pre @ t # post" "contains (lower t) (lower query)"
    "\<forall>s \<in> set pre. \<not> contains (lower s) (lower query)" by (auto simp: first_trigger_def)
  have "find P (xs @ t # post) = Some t" if "\<forall>s \<in> set xs. \<not> P s" "P t" for P xs
    using that by (induction xs) auto
  from this [of pre "\<lambda>t. contains (lower t) (lower query)"] p show "match_trigger query m = Some t" by (simp add: match_trigger_def)
qed

text \<open>What is recalled for a query is the microagents with a trigger in it, upper and lower case aside, each with the first such trigger; only
  one whose first match is the empty trigger is left out.\<close>

theorem recalled_knowledge:
  "v \<in> set (find_microagent_knowledge rm query) \<longleftrightarrow> query \<noteq> []
    \<and> (\<exists>m t. m \<in> set (dict_values (rm_knowledge_microagents rm)) \<and> first_trigger query m t \<and> t \<noteq> [] \<and> v = knowledge_value m t)"
proof -
  have "v \<in> set (case match_trigger query m of None \<Rightarrow> [] | Some t \<Rightarrow> if t = [] then [] else [knowledge_value m t])
      \<longleftrightarrow> (\<exists>t. match_trigger query m = Some t \<and> t \<noteq> [] \<and> v = knowledge_value m t)" for m
    by (cases "match_trigger query m") auto
  then show ?thesis unfolding find_microagent_knowledge_def match_first_trigger [symmetric] by auto
qed


definition demo_recall_memory :: recall_memory where
  "demo_recall_memory = \<lparr>rm_repo_microagents = [], rm_knowledge_microagents = [], rm_repository_info = None, rm_runtime_info = None,
     rm_conversation_instructions = None\<rparr>"


end
