(* ===== verification/Fn_Call_Prompts.thy ===== *)
theory Fn_Call_Prompts
  imports Py_Str
begin

text \<open>
  The texts with which function calling is explained to a model that has none, \<open>llm/fn_call_converter.py\<close>: the format of a call, examples of
  calls, and the running example that is put together for the tools at hand. A text is the list of its lines.
\<close>

section \<open>Texts\<close>

definition example_execute_bash_check_dir :: string where
  "example_execute_bash_check_dir = join [nl]
    [[],
     ''ASSISTANT: Sure! Let me first check the current directory:'',
     ''<function=execute_bash>'',
     ''<parameter=command>'',
     ''pwd && ls'',
     ''</parameter>'',
     ''</function>'',
     [],
     ''USER: EXECUTION RESULT of [execute_bash]:'',
     ''/workspace'',
     ''openhands@runtime:~/workspace$'',
     []]"

definition example_execute_bash_run_server :: string where
  "example_execute_bash_run_server = join [nl]
    [[],
     ''ASSISTANT:'',
     ''Let me run the Python file for you:'',
     ''<function=execute_bash>'',
     ''<parameter=command>'',
     ''python3 app.py > server.log 2>&1 &'',
     ''</parameter>'',
     ''</function>'',
     [],
     ''USER: EXECUTION RESULT of [execute_bash]:'',
     ''[1] 121'',
     ''[1]+  Exit 1                  python3 app.py > server.log 2>&1'',
     [],
     ''ASSISTANT:'',
     ''Looks like the server was running with PID 121 then crashed. Let me check the server log:'',
     ''<function=execute_bash>'',
     ''<parameter=command>'',
     ''cat server.log'',
     ''</parameter>'',
     ''</function>'',
     [],
     ''USER: EXECUTION RESULT of [execute_bash]:'',
     ''Traceback (most recent call last):'',
     ''  File '' @ [CHR 0x22] @ ''/workspace/app.py'' @ [CHR 0x22] @ '', line 2, in <module>'',
     ''    from flask import Flask'',
     ''ModuleNotFoundError: No module named '' @ [CHR 0x27] @ ''flask'' @ [CHR 0x27],
     [],
     ''ASSISTANT:'',
     ''Looks like the server crashed because the '' @ [CHR 0x60] @ ''flask'' @ [CHR 0x60] @ '' module is not installed. Let me install the '' @ [CHR 0x60] @ ''flask'' @ [CHR 0x60] @ '' module for you:'',
     ''<function=execute_bash>'',
     ''<parameter=command>'',
     ''pip3 install flask'',
     ''</parameter>'',
     ''</function>'',
     [],
     ''USER: EXECUTION RESULT of [execute_bash]:'',
     ''Defaulting to user installation because normal site-packages is not writeable'',
     ''Collecting flask'',
     ''  Using cached flask-3.0.3-py3-none-any.whl (101 kB)'',
     ''Collecting blinker>=1.6.2'',
     ''  Using cached blinker-1.7.0-py3-none-any.whl (13 kB)'',
     ''Collecting Werkzeug>=3.0.0'',
     ''  Using cached werkzeug-3.0.2-py3-none-any.whl (226 kB)'',
     ''Collecting click>=8.1.3'',
     ''  Using cached click-8.1.7-py3-none-any.whl (97 kB)'',
     ''Collecting itsdangerous>=2.1.2'',
     ''  Using cached itsdangerous-2.2.0-py3-none-any.whl (16 kB)'',
     ''Requirement already satisfied: Jinja2>=3.1.2 in /home/openhands/.local/lib/python3.10/site-packages (from flask) (3.1.3)'',
     ''Requirement already satisfied: MarkupSafe>=2.0 in /home/openhands/.local/lib/python3.10/site-packages (from Jinja2>=3.1.2->flask) (2.1.5)'',
     ''Installing collected packages: Werkzeug, itsdangerous, click, blinker, flask'',
     ''Successfully installed Werkzeug-3.0.2 blinker-1.7.0 click-8.1.7 flask-3.0.3 itsdangerous-2.2.0'',
     [],
     ''ASSISTANT:'',
     ''The '' @ [CHR 0x60] @ ''flask'' @ [CHR 0x60] @ '' module is installed successfully. Let me run the Python file again:'',
     ''<function=execute_bash>'',
     ''<parameter=command>'',
     ''python3 app.py > server.log 2>&1 &'',
     ''</parameter>'',
     ''</function>'',
     [],
     ''USER: EXECUTION RESULT of [execute_bash]:'',
     ''[1] 124'',
     [],
     ''ASSISTANT:'',
     ''Let me check the server log again:'',
     ''<function=execute_bash>'',
     ''<parameter=command>'',
     ''cat server.log'',
     ''</parameter>'',
     ''</function>'',
     [],
     ''USER: EXECUTION RESULT of [execute_bash]:'',
     ''* Serving Flask app '' @ [CHR 0x27] @ ''app'' @ [CHR 0x27],
     '' * Debug mode: off'',
     ''WARNING: This is a development server. Do not use it in a production deployment. Use a production WSGI server instead.'',
     '' * Running on http://127.0.0.1:5000'',
     ''Press CTRL+C to quit'',
     [],
     ''ASSISTANT:'',
     ''The server is running on port 5000 with PID 124. You can access the list of numbers by visiting http://127.0.0.1:5000. If you have any further questions, feel free to ask!'',
     []]"

definition example_execute_bash_kill_server :: string where
  "example_execute_bash_kill_server = join [nl]
    [[],
     ''USER: Now kill the server, make it display the numbers in a table format.'',
     [],
     ''ASSISTANT:'',
     ''Sure! Let me stop the server first:'',
     ''<function=execute_bash>'',
     ''<parameter=command>'',
     ''kill 124'',
     ''</parameter>'',
     ''</function>'',
     [],
     ''USER: EXECUTION RESULT of [execute_bash]:'',
     ''[1]+  Terminated              python3 app.py > server.log 2>&1'',
     []]"

definition example_execute_bash_run_server_again :: string where
  "example_execute_bash_run_server_again = join [nl]
    [[],
     ''ASSISTANT:'',
     ''Running the updated file:'',
     ''<function=execute_bash>'',
     ''<parameter=command>'',
     ''python3 app.py > server.log 2>&1 &'',
     ''</parameter>'',
     ''</function>'',
     [],
     ''USER: EXECUTION RESULT of [execute_bash]:'',
     ''[1] 126'',
     [],
     ''ASSISTANT:'',
     ''The server is running on port 5000 with PID 126. You can access the list of numbers in a table format by visiting http://127.0.0.1:5000.'',
     []]"

definition example_str_replace_editor_create_file :: string where
  "example_str_replace_editor_create_file = join [nl]
    [[],
     ''ASSISTANT:'',
     ''There is no '' @ [CHR 0x60] @ ''app.py'' @ [CHR 0x60] @ '' file in the current directory. Let me create a Python file '' @ [CHR 0x60] @ ''app.py'' @ [CHR 0x60] @ '':'',
     ''<function=str_replace_editor>'',
     ''<parameter=command>create</parameter>'',
     ''<parameter=path>/workspace/app.py</parameter>'',
     ''<parameter=file_text>'',
     ''from flask import Flask'',
     ''app = Flask(__name__)'',
     [],
     ''@app.route('' @ [CHR 0x27] @ ''/'' @ [CHR 0x27] @ '')'',
     ''def index():'',
     ''    numbers = list(range(1, 11))'',
     ''    return str(numbers)'',
     [],
     ''if __name__ == '' @ [CHR 0x27] @ ''__main__'' @ [CHR 0x27] @ '':'',
     ''    app.run(port=5000)'',
     ''</parameter>'',
     ''</function>'',
     [],
     ''USER: EXECUTION RESULT of [str_replace_editor]:'',
     ''File created successfully at: /workspace/app.py'',
     []]"

definition example_str_replace_editor_edit_file :: string where
  "example_str_replace_editor_edit_file = join [nl]
    [[],
     ''ASSISTANT:'',
     ''Now let me display the numbers in a table format:'',
     ''<function=str_replace_editor>'',
     ''<parameter=command>str_replace</parameter>'',
     ''<parameter=path>/workspace/app.py</parameter>'',
     ''<parameter=old_str>return str(numbers)</parameter>'',
     ''<parameter=new_str>return '' @ [CHR 0x27] @ ''<table>'' @ [CHR 0x27] @ '' + '' @ [CHR 0x27, CHR 0x27] @ ''.join([f'' @ [CHR 0x27] @ ''<tr><td>{i}</td></tr>'' @ [CHR 0x27] @ '' for i in numbers]) + '' @ [CHR 0x27] @ ''</table>'' @ [CHR 0x27] @ ''</parameter>'',
     ''</function>'',
     [],
     ''USER: EXECUTION RESULT of [str_replace_editor]:'',
     ''The file /workspace/app.py has been edited. Here'' @ [CHR 0x27] @ ''s the result of running '' @ [CHR 0x60] @ ''cat -n'' @ [CHR 0x60] @ '' on a snippet of /workspace/app.py:'',
     ''     3'',
     ''     4  @app.route('' @ [CHR 0x27] @ ''/'' @ [CHR 0x27] @ '')'',
     ''     5  def index():'',
     ''     6      numbers = list(range(1, 11))'',
     ''     7      return '' @ [CHR 0x27] @ ''<table>'' @ [CHR 0x27] @ '' + '' @ [CHR 0x27, CHR 0x27] @ ''.join([f'' @ [CHR 0x27] @ ''<tr><td>{i}</td></tr>'' @ [CHR 0x27] @ '' for i in numbers]) + '' @ [CHR 0x27] @ ''</table>'' @ [CHR 0x27],
     ''     8'',
     ''     9  if __name__ == '' @ [CHR 0x27] @ ''__main__'' @ [CHR 0x27] @ '':'',
     ''    10      app.run(port=5000)'',
     ''Review the changes and make sure they are as expected. Edit the file again if necessary.'',
     [],
     []]"

definition example_browser_view_page :: string where
  "example_browser_view_page = join [nl]
    [[],
     ''ASSISTANT:'',
     ''Let me check how the page looks in the browser:'',
     ''<function=browser>'',
     ''<parameter=code>'',
     ''goto('' @ [CHR 0x27] @ ''http://127.0.0.1:5000'' @ [CHR 0x27] @ '')'',
     ''noop(1000)  # Wait for page to load'',
     ''</parameter>'',
     ''</function>'',
     [],
     ''USER: EXECUTION RESULT of [browser]:'',
     ''[Browser shows the numbers in a table format]'',
     []]"

definition example_edit_file_create_file :: string where
  "example_edit_file_create_file = join [nl]
    [[],
     ''ASSISTANT: There is no '' @ [CHR 0x60] @ ''app.py'' @ [CHR 0x60] @ '' file in the current directory. Let me create a Python file '' @ [CHR 0x60] @ ''app.py'' @ [CHR 0x60] @ '':'',
     ''<function=edit_file>'',
     ''<parameter=path>/workspace/app.py</parameter>'',
     ''<parameter=start>1</parameter>'',
     ''<parameter=end>-1</parameter>'',
     ''<parameter=content>'',
     ''from flask import Flask'',
     ''app = Flask(__name__)'',
     [],
     ''@app.route('' @ [CHR 0x27] @ ''/'' @ [CHR 0x27] @ '')'',
     ''def index():'',
     ''    numbers = list(range(1, 11))'',
     ''    return str(numbers)'',
     [],
     ''if __name__ == '' @ [CHR 0x27] @ ''__main__'' @ [CHR 0x27] @ '':'',
     ''    app.run(port=5000)'',
     ''</parameter>'',
     ''</function>'',
     [],
     ''USER: EXECUTION RESULT of [edit_file]:'',
     ''File created successfully at: /workspace/app.py'',
     []]"

definition example_edit_file_edit_file :: string where
  "example_edit_file_edit_file = join [nl]
    [[],
     ''ASSISTANT:'',
     ''Now let me display the numbers in a table format:'',
     ''<function=edit_file>'',
     ''<parameter=path>/workspace/app.py</parameter>'',
     ''<parameter=start>6</parameter>'',
     ''<parameter=end>9</parameter>'',
     ''<parameter=content>'',
     ''    numbers = list(range(1, 11))'',
     ''    return '' @ [CHR 0x27] @ ''<table>'' @ [CHR 0x27] @ '' + '' @ [CHR 0x27, CHR 0x27] @ ''.join([f'' @ [CHR 0x27] @ ''<tr><td>{i}</td></tr>'' @ [CHR 0x27] @ '' for i in numbers]) + '' @ [CHR 0x27] @ ''</table>'' @ [CHR 0x27],
     ''    # ... existing code ...'',
     ''if __name__ == '' @ [CHR 0x27] @ ''__main__'' @ [CHR 0x27] @ '':'',
     ''</parameter>'',
     ''</function>'',
     [],
     ''USER: EXECUTION RESULT of [edit_file]:'',
     ''The file /workspace/app.py has been edited. Here'' @ [CHR 0x27] @ ''s the result of running '' @ [CHR 0x60] @ ''cat -n'' @ [CHR 0x60] @ '' on a snippet of /workspace/app.py:'',
     ''     3'',
     ''     4  @app.route('' @ [CHR 0x27] @ ''/'' @ [CHR 0x27] @ '')'',
     ''     5  def index():'',
     ''     6      numbers = list(range(1, 11))'',
     ''     7      return '' @ [CHR 0x27] @ ''<table>'' @ [CHR 0x27] @ '' + '' @ [CHR 0x27, CHR 0x27] @ ''.join([f'' @ [CHR 0x27] @ ''<tr><td>{i}</td></tr>'' @ [CHR 0x27] @ '' for i in numbers]) + '' @ [CHR 0x27] @ ''</table>'' @ [CHR 0x27],
     ''     8'',
     ''     9  if __name__ == '' @ [CHR 0x27] @ ''__main__'' @ [CHR 0x27] @ '':'',
     ''    10      app.run(port=5000)'',
     ''Review the changes and make sure they are as expected. Edit the file again if necessary.'',
     []]"

definition example_finish_example :: string where
  "example_finish_example = join [nl]
    [[],
     ''ASSISTANT:'',
     ''The server is running on port 5000 with PID 126. You can access the list of numbers in a table format by visiting http://127.0.0.1:5000. Let me know if you have any further requests!'',
     ''<function=finish>'',
     ''<parameter=message>The task has been completed. The web server is running and displaying numbers 1-10 in a table format at http://127.0.0.1:5000.</parameter>'',
     ''</function>'',
     []]"

definition IN_CONTEXT_LEARNING_EXAMPLE_SUFFIX :: string where
  "IN_CONTEXT_LEARNING_EXAMPLE_SUFFIX = join [nl]
    [[],
     ''--------------------- END OF NEW TASK DESCRIPTION ---------------------'',
     [],
     ''PLEASE follow the format strictly! PLEASE EMIT ONE AND ONLY ONE FUNCTION CALL PER MESSAGE.'',
     []]"

definition SYSTEM_PROMPT_SUFFIX_START :: string where
  "SYSTEM_PROMPT_SUFFIX_START = join [nl]
    [[],
     ''You have access to the following functions:'',
     [],
     []]"

definition SYSTEM_PROMPT_SUFFIX_END :: string where
  "SYSTEM_PROMPT_SUFFIX_END = join [nl]
    [[],
     [],
     ''If you choose to call a function ONLY reply in the following format with NO suffix:'',
     [],
     ''<function=example_function_name>'',
     ''<parameter=example_parameter_1>value_1</parameter>'',
     ''<parameter=example_parameter_2>'',
     ''This is the value for the second parameter'',
     ''that can span'',
     ''multiple lines'',
     ''</parameter>'',
     ''</function>'',
     [],
     ''<IMPORTANT>'',
     ''Reminder:'',
     ''- Function calls MUST follow the specified format, start with <function= and end with </function>'',
     ''- Required parameters MUST be specified'',
     ''- Only call one function at a time'',
     ''- You may provide optional reasoning for your function call in natural language BEFORE the function call, but NOT after.'',
     ''- If there is no function call available, answer the question like normal with your current knowledge and do not tell the user about function calls'',
     ''</IMPORTANT>'',
     []]"

section \<open>The running example\<close>

definition refine_prompt :: "bool \<Rightarrow> string \<Rightarrow> string" where
  "refine_prompt win prompt = (if win then replace ''bash'' ''powershell'' prompt else prompt)"

definition EXAMPLE_START :: string where
  "EXAMPLE_START = join [nl]
    [''Here'' @ [CHR 0x27] @ ''s a running example of how to perform a task with the provided tools.'', [],
     ''--------------------- START OF EXAMPLE ---------------------'', [],
     ''USER: Create a list of numbers from 1 to 10, and display them in a web page at port 5000.'', [], []]"

definition EXAMPLE_END :: string where
  "EXAMPLE_END = join [nl]
    [[], ''--------------------- END OF EXAMPLE ---------------------'', [],
     ''Do NOT assume the environment is the same as in the example above.'', [],
     ''--------------------- NEW TASK DESCRIPTION ---------------------'', []]"

text \<open>The example for the tools with these names.\<close>

definition example_tools :: "string list" where
  "example_tools = [''execute_bash'', ''str_replace_editor'', ''browser'', ''finish'', ''edit_file'']"

definition get_example_for_tools :: "bool \<Rightarrow> string list \<Rightarrow> string" where
  "get_example_for_tools win names =
     (let available = filter (\<lambda>n. n \<in> set example_tools) names;
          piece = (\<lambda>n s. if n \<in> set available then s else []);
          editor = (\<lambda>own other. if ''str_replace_editor'' \<in> set available then own else piece ''edit_file'' other)
      in if available = [] then []
         else refine_prompt win (lstrip (EXAMPLE_START @ piece ''execute_bash'' example_execute_bash_check_dir
           @ editor example_str_replace_editor_create_file example_edit_file_create_file
           @ piece ''execute_bash'' example_execute_bash_run_server @ piece ''browser'' example_browser_view_page
           @ piece ''execute_bash'' example_execute_bash_kill_server
           @ editor example_str_replace_editor_edit_file example_edit_file_edit_file
           @ piece ''execute_bash'' example_execute_bash_run_server_again @ piece ''finish'' example_finish_example @ EXAMPLE_END)))"

end
