(* ===== verification/Code_Act.thy ===== *)
theory Code_Act
  imports Conversation_Memory Condensers Agent_Controller
begin

text \<open>
  The main agent, \<open>agenthub/codeact_agent\<close>: how a response of the language model becomes actions, one for each tool call, and how a
  step hands out waiting actions, condenses the history or asks the model. JSON and float parsing, the accessors of a response and
  the model itself are parameters. A step is given the state as a value: that processing a history changes finishing actions
  in place is not part of its result, and \<open>processing_again\<close> shows that the conversation does not depend on it.
\<close>

section \<open>Tools\<close>

definition EXECUTE_BASH_TOOL_NAME :: string where "EXECUTE_BASH_TOOL_NAME = ''execute_bash''"
definition STR_REPLACE_EDITOR_TOOL_NAME :: string where "STR_REPLACE_EDITOR_TOOL_NAME = ''str_replace_editor''"
definition BROWSER_TOOL_NAME :: string where "BROWSER_TOOL_NAME = ''browser''"
definition FINISH_TOOL_NAME :: string where "FINISH_TOOL_NAME = ''finish''"
definition LLM_BASED_EDIT_TOOL_NAME :: string where "LLM_BASED_EDIT_TOOL_NAME = ''edit_file''"
definition TASK_TRACKER_TOOL_NAME :: string where "TASK_TRACKER_TOOL_NAME = ''task_tracker''"

definition RISK_LEVELS :: "string list" where
  "RISK_LEVELS = [''LOW'', ''MEDIUM'', ''HIGH'']"

definition EDITOR_PARAMETERS :: "string list" where
  "EDITOR_PARAMETERS = [''command'', ''path'', ''file_text'', ''old_str'', ''new_str'', ''insert_line'', ''view_range'', ''security_risk'']"

record tool_flags =
  enable_cmd :: bool
  enable_think :: bool
  enable_finish :: bool
  enable_condensation_request :: bool
  enable_browsing :: bool
  enable_jupyter :: bool
  enable_plan_mode :: bool
  enable_llm_editor :: bool
  enable_editor :: bool

text \<open>The names of the tools that are offered; a browser is not offered on Windows.\<close>

definition get_tools :: "bool \<Rightarrow> tool_flags \<Rightarrow> string list" where
  "get_tools win cfg =
     (if enable_cmd cfg then [EXECUTE_BASH_TOOL_NAME] else []) @ (if enable_think cfg then [''think''] else [])
     @ (if enable_finish cfg then [FINISH_TOOL_NAME] else []) @ (if enable_condensation_request cfg then [''request_condensation''] else [])
     @ (if enable_browsing cfg \<and> \<not> win then [BROWSER_TOOL_NAME] else []) @ (if enable_jupyter cfg then [''execute_ipython_cell''] else [])
     @ (if enable_plan_mode cfg then [TASK_TRACKER_TOOL_NAME] else [])
     @ (if enable_llm_editor cfg then [LLM_BASED_EDIT_TOOL_NAME] else if enable_editor cfg then [STR_REPLACE_EDITOR_TOOL_NAME] else [])"

section \<open>Arguments\<close>

record code_act_env =
  ca_memory :: memory_config
  ca_repr :: "pyval \<Rightarrow> string"
  ca_loads :: "string \<Rightarrow> pyval option" \<comment> \<open>\<open>json.loads\<close>; \<open>None\<close> is a \<open>JSONDecodeError\<close>\<close>
  ca_float :: "pyval \<Rightarrow> rat res"
  ca_params_text :: string \<comment> \<open>the printed set of \<open>EDITOR_PARAMETERS\<close>\<close>
  ca_choices :: "pyval \<Rightarrow> nat" \<comment> \<open>\<open>len(response.choices)\<close>\<close>
  ca_content :: "pyval \<Rightarrow> pyval" \<comment> \<open>the content of the message, a text or a list\<close>
  ca_mcp_tools :: "string list"
  ca_tools :: "string list"
  ca_condenser :: condenser
  ca_condenser_llm :: condenser_llm
  ca_max_message_chars :: "int option"
  ca_vision :: bool
  ca_caching :: bool
  ca_completion :: "nat \<Rightarrow> message list \<Rightarrow> string list \<Rightarrow> pyval res \<times> rat" \<comment> \<open>of a call: its answer and its cost\<close>

definition invalid_call :: "string \<Rightarrow> 'x res" where
  "invalid_call msg = Inl (OtherError ''FunctionCallValidationError'' msg)"

fun class_name :: "pyval \<Rightarrow> string" where
  "class_name PNone = ''NoneType''"
| "class_name (PBool _) = ''bool''"
| "class_name (PInt _) = ''int''"
| "class_name (PFloat _) = ''float''"
| "class_name (PStr _) = ''str''"
| "class_name (PList _) = ''list''"
| "class_name (PTuple _) = ''tuple''"
| "class_name (PDict _) = ''dict''"

definition class_text :: "pyval \<Rightarrow> string" where
  "class_text v = ''<class '' @ [CHR 0x27] @ class_name v @ [CHR 0x27] @ ''>''"

text \<open>The parsed arguments need not be a dictionary: \<open>k in arguments\<close>, \<open>arguments[k]\<close>, \<open>arguments.get(k, d)\<close>.\<close>

definition arg_in :: "string \<Rightarrow> pyval \<Rightarrow> bool res" where
  "arg_in k v =
     (case v of
        PDict d \<Rightarrow> Inr (k \<in> set (dict_keys d))
      | PList vs \<Rightarrow> Inr (PStr k \<in> set vs)
      | PTuple vs \<Rightarrow> Inr (PStr k \<in> set vs)
      | PStr s \<Rightarrow> Inr (contains k s)
      | _ \<Rightarrow> Inl (TypeError (''argument of type '' @ [CHR 0x27] @ class_name v @ [CHR 0x27] @ '' is not iterable'')))"

definition arg_at :: "string \<Rightarrow> pyval \<Rightarrow> pyval res" where
  "arg_at k v =
     (case v of
        PDict d \<Rightarrow> (case dict_get d k of None \<Rightarrow> Inl (KeyError k) | Some x \<Rightarrow> Inr x)
      | _ \<Rightarrow> Inl (TypeError (class_name v @ '' indices must be integers or slices, not str'')))"

definition arg_get :: "string \<Rightarrow> pyval \<Rightarrow> pyval \<Rightarrow> pyval res" where
  "arg_get k d v =
     (case v of PDict kvs \<Rightarrow> Inr (dict_get_default kvs k d)
      | _ \<Rightarrow> Inl (OtherError ''AttributeError'' ([CHR 0x27] @ class_name v @ [CHR 0x27] @ '' object has no attribute '' @ [CHR 0x27] @ ''get'' @ [CHR 0x27])))"

text \<open>The check that opens most branches: a missing argument is reported to the model.\<close>

definition quoted :: "string \<Rightarrow> string" where
  "quoted s = [CHR 0x22] @ s @ [CHR 0x22]"

definition required :: "string \<Rightarrow> string \<Rightarrow> pyval \<Rightarrow> unit res" where
  "required k name v =
     res_bind (arg_in k v) (\<lambda>b. if b then Inr ()
       else invalid_call (''Missing required argument '' @ quoted k @ '' in tool call '' @ name))"

definition risk_value :: "string \<Rightarrow> pyval" where
  "risk_value s = PInt (if s = ''LOW'' then 0 else if s = ''MEDIUM'' then 1 else 2)"

definition set_security_risk :: "event \<Rightarrow> pyval \<Rightarrow> event res" where
  "set_security_risk a v =
     res_bind (arg_in ''security_risk'' v) (\<lambda>b. if \<not> b then Inr a
       else res_map (\<lambda>x. case x of
           PStr s \<Rightarrow> if s \<in> set RISK_LEVELS \<and> has_attr a ''security_risk'' then set_attr ''security_risk'' (risk_value s) a else a
         | _ \<Rightarrow> a) (arg_at ''security_risk'' v))"

definition combine_thought :: "(pyval \<Rightarrow> string) \<Rightarrow> string \<Rightarrow> event \<Rightarrow> event" where
  "combine_thought rp thought a =
     (if \<not> has_attr a ''thought'' \<or> thought = [] then a
      else let own = get_attr a ''thought'' PNone in
        set_attr ''thought'' (PStr (if py_truthy own then thought @ [nl] @ py_str rp own else thought)) a)"

section \<open>One tool call\<close>

definition cmd_run_action :: "code_act_env \<Rightarrow> string \<Rightarrow> pyval \<Rightarrow> event res" where
  "cmd_run_action env name v =
     res_bind (required ''command'' name v) (\<lambda>_.
     res_bind (arg_get ''is_input'' (PStr ''false'') v) (\<lambda>is_input.
     res_bind (arg_at ''command'' v) (\<lambda>command.
     let a = make_act CmdRunAction [(''command'', command), (''is_input'', PBool (is_input = PStr ''true''))] in
     res_bind (arg_in ''timeout'' v) (\<lambda>timed.
     res_bind (if \<not> timed then Inr a
       else res_bind (arg_at ''timeout'' v) (\<lambda>t. case ca_float env t of
           Inr q \<Rightarrow> Inr (set_hard_timeout (Some q) (PBool True) a)
         | Inl (ValueError _) \<Rightarrow> invalid_call (''Invalid float passed to '' @ [CHR 0x27] @ ''timeout'' @ [CHR 0x27] @ '' argument: '' @ py_str (ca_repr env) t)
         | Inl e \<Rightarrow> Inl e))
       (\<lambda>a. set_security_risk a v)))))"

definition ipython_action :: "string \<Rightarrow> pyval \<Rightarrow> event res" where
  "ipython_action name v =
     res_bind (required ''code'' name v) (\<lambda>_. res_bind (arg_at ''code'' v) (\<lambda>c.
       set_security_risk (make_act IPythonRunCellAction [(''code'', c)]) v))"

definition delegate_action :: "pyval \<Rightarrow> event" where
  "delegate_action v = make_act AgentDelegateAction [(''agent'', PStr ''BrowsingAgent''), (''inputs'', v)]"

definition finish_action :: "pyval \<Rightarrow> event res" where
  "finish_action v = res_map (\<lambda>m. make_act AgentFinishAction [(''final_thought'', m)]) (arg_get ''message'' (PStr []) v)"

definition llm_edit_action :: "string \<Rightarrow> pyval \<Rightarrow> event res" where
  "llm_edit_action name v =
     res_bind (required ''path'' name v) (\<lambda>_. res_bind (required ''content'' name v) (\<lambda>_.
     res_bind (arg_at ''path'' v) (\<lambda>path. res_bind (arg_at ''content'' v) (\<lambda>content.
     res_bind (arg_get ''start'' (PInt 1) v) (\<lambda>start. res_bind (arg_get ''end'' (PInt (- 1)) v) (\<lambda>end.
     res_map (\<lambda>impl. make_act FileEditAction [(''path'', path), (''content'', content), (''start'', start), (''end'', end), (''impl_source'', impl)])
       (arg_get ''impl_source'' (PStr ''llm_based_edit'') v)))))))"

text \<open>The editor: a view is a read; what else is given must be a parameter of the tool.\<close>

definition editor_kwargs :: "code_act_env \<Rightarrow> string \<Rightarrow> payload \<Rightarrow> payload res" where
  "editor_kwargs env name other =
     (case find (\<lambda>k. k \<notin> set EDITOR_PARAMETERS) (dict_keys other) of
        Some k \<Rightarrow> invalid_call (''Unexpected argument '' @ k @ '' in tool call '' @ name @ ''. Allowed arguments are: '' @ ca_params_text env)
      | None \<Rightarrow> Inr (filter (\<lambda>(k, _). k \<noteq> ''security_risk'') other))"

definition editor_action :: "code_act_env \<Rightarrow> string \<Rightarrow> pyval \<Rightarrow> event res" where
  "editor_action env name v =
     res_bind (required ''command'' name v) (\<lambda>_. res_bind (required ''path'' name v) (\<lambda>_.
     res_bind (arg_at ''path'' v) (\<lambda>path. res_bind (arg_at ''command'' v) (\<lambda>command.
     let other = filter (\<lambda>(k, _). k \<notin> {''command'', ''path''}) (dict_val v) in
     res_bind (if command = PStr ''view'' then
         Inr (make_act FileReadAction [(''path'', path), (''impl_source'', PStr ''oh_aci''), (''view_range'', dict_get_default other ''view_range'' PNone)])
       else res_map (\<lambda>kwargs. make_act FileEditAction ([(''path'', path), (''command'', command), (''impl_source'', PStr ''oh_aci'')] @ kwargs))
         (editor_kwargs env name (dict_del ''view_range'' other)))
       (\<lambda>a. set_security_risk a v)))))"

definition think_action :: "pyval \<Rightarrow> event res" where
  "think_action v = res_map (\<lambda>t. make_act AgentThinkAction [(''thought'', t)]) (arg_get ''thought'' (PStr []) v)"

definition browse_action :: "string \<Rightarrow> pyval \<Rightarrow> event res" where
  "browse_action name v =
     res_bind (required ''code'' name v) (\<lambda>_. res_bind (arg_at ''code'' v) (\<lambda>c.
       set_security_risk (make_act BrowseInteractiveAction [(''browser_actions'', c)]) v))"

definition normalized_task :: "nat \<Rightarrow> payload \<Rightarrow> pyval" where
  "normalized_task i task = PDict
     [(''id'', dict_get_default task ''id'' (PStr (''task-'' @ nat_str (i + 1)))),
      (''title'', dict_get_default task ''title'' (PStr ''Untitled task'')),
      (''status'', dict_get_default task ''status'' (PStr ''todo'')), (''notes'', dict_get_default task ''notes'' (PStr []))]"

fun normalize_tasks :: "nat \<Rightarrow> pyval list \<Rightarrow> pyval list res" where
  "normalize_tasks i [] = Inr []"
| "normalize_tasks i (t # ts) =
     (case t of
        PDict d \<Rightarrow> res_map ((#) (normalized_task i d)) (normalize_tasks (i + 1) ts)
      | _ \<Rightarrow> invalid_call (''Unexpected task format in task_list: '' @ class_text t @ ''. Each task should be a dictionary.''))"

text \<open>The loop over the tasks uses the same variable \<open>i\<close> as the loop over the tool calls; its last value is the second result.\<close>

definition track_action :: "nat \<Rightarrow> string \<Rightarrow> pyval \<Rightarrow> (event \<times> nat) res" where
  "track_action i name v =
     res_bind (required ''command'' name v) (\<lambda>_. res_bind (arg_at ''command'' v) (\<lambda>command.
     res_bind (arg_in ''task_list'' v) (\<lambda>listed.
     if command = PStr ''plan'' \<and> \<not> listed then
       invalid_call (''Missing required argument '' @ quoted ''task_list'' @ '' for '' @ quoted ''plan'' @ '' command in tool call '' @ name)
     else res_bind (arg_get ''task_list'' (PList []) v) (\<lambda>tasks.
       case tasks of
         PList ts \<Rightarrow> res_map (\<lambda>ts'. (make_act TaskTrackingAction [(''command'', command), (''task_list'', PList ts')],
             if ts = [] then i else length ts - 1)) (normalize_tasks 0 ts)
       | _ \<Rightarrow> invalid_call (''Invalid format for '' @ quoted ''task_list'' @ ''. Expected a list but got '' @ class_text tasks @ ''.'')))))"

text \<open>The action of the \<open>i\<close>-th tool call, and the value of \<open>i\<close> afterwards.\<close>

definition tool_call_action :: "code_act_env \<Rightarrow> nat \<Rightarrow> tool_call \<Rightarrow> (event \<times> nat) res" where
  "tool_call_action env i tc =
     (let name = tc_name tc; keep = res_map (\<lambda>a. (a, i)) in
      case ca_loads env (tc_arguments tc) of
        None \<Rightarrow> invalid_call (''Failed to parse tool call arguments: '' @ tc_arguments tc)
      | Some v \<Rightarrow>
          if name = EXECUTE_BASH_TOOL_NAME then keep (cmd_run_action env name v)
          else if name = ''execute_ipython_cell'' then keep (ipython_action name v)
          else if name = ''delegate_to_browsing_agent'' then keep (Inr (delegate_action v))
          else if name = FINISH_TOOL_NAME then keep (finish_action v)
          else if name = LLM_BASED_EDIT_TOOL_NAME then keep (llm_edit_action name v)
          else if name = STR_REPLACE_EDITOR_TOOL_NAME then keep (editor_action env name v)
          else if name = ''think'' then keep (think_action v)
          else if name = ''request_condensation'' then keep (Inr (make_act CondensationRequestAction []))
          else if name = BROWSER_TOOL_NAME then keep (browse_action name v)
          else if name = TASK_TRACKER_TOOL_NAME then track_action i name v
          else if name \<in> set (ca_mcp_tools env) then keep (Inr (make_act MCPAction [(''name'', PStr name), (''arguments'', v)]))
          else Inl (OtherError ''FunctionCallNotExistsError'' (''Tool '' @ name @ '' is not registered. (arguments: '' @ py_str (ca_repr env) v
            @ ''). Please check the tool name and retry with an existing tool.'')))"

section \<open>A response\<close>

definition tool_metadata :: "pyval \<Rightarrow> nat \<Rightarrow> tool_call \<Rightarrow> payload" where
  "tool_metadata response n tc =
     [(''function_name'', PStr (tc_name tc)), (''tool_call_id'', PStr (tc_id tc)), (''model_response'', response),
      (''total_calls_in_response'', PInt (int n))]"

text \<open>The thought is the content of the message: a text, or the text parts of a list.\<close>

fun content_parts :: "pyval list \<Rightarrow> string res" where
  "content_parts [] = Inr []"
| "content_parts (v # vs) =
     res_bind (arg_at ''type'' v) (\<lambda>t.
       if t = PStr ''text'' then res_bind (arg_at ''text'' v) (\<lambda>x. case x of
           PStr s \<Rightarrow> res_map ((@) s) (content_parts vs)
         | _ \<Rightarrow> Inl (TypeError ''can only concatenate str''))
       else content_parts vs)"

definition thought_of :: "pyval \<Rightarrow> string res" where
  "thought_of content = (case content of PStr s \<Rightarrow> Inr s | PList vs \<Rightarrow> content_parts vs | _ \<Rightarrow> Inr [])"

fun tool_calls_actions :: "code_act_env \<Rightarrow> pyval \<Rightarrow> string \<Rightarrow> nat \<Rightarrow> nat \<Rightarrow> tool_call list \<Rightarrow> event list res" where
  "tool_calls_actions env response thought n i [] = Inr []"
| "tool_calls_actions env response thought n i (tc # tcs) =
     res_bind (tool_call_action env i tc) (\<lambda>(a, i').
       let a = (if i' = 0 then combine_thought (ca_repr env) thought a else a) in
       res_map ((#) (a\<lparr>e_tool_call := Some (tool_metadata response n tc)\<rparr>)) (tool_calls_actions env response thought n (i + 1) tcs))"

definition response_to_actions :: "code_act_env \<Rightarrow> pyval \<Rightarrow> event list res" where
  "response_to_actions env response =
     (if ca_choices env response \<noteq> 1 then Inl (OtherError ''AssertionError'' ''Only one choice is supported for now'')
      else case lm_tool_calls (mc_response_message (ca_memory env) response) of
          Some (tc # tcs) \<Rightarrow> res_bind (thought_of (ca_content env response)) (\<lambda>thought.
            tool_calls_actions env response thought (length (tc # tcs)) 0 (tc # tcs))
        | _ \<Rightarrow> let content = ca_content env response in
            Inr [make_act MessageAction [(''content'', PStr (if py_truthy content then py_str (ca_repr env) content else [])),
              (''wait_for_response'', PBool True)]])"

section \<open>The agent\<close>

record code_act =
  pending_actions :: "event list"
  asked :: nat \<comment> \<open>calls of the model so far\<close>

definition get_initial_user_message :: "event list \<Rightarrow> event res" where
  "get_initial_user_message h =
     (case find from_user h of
        None \<Rightarrow> Inl (ValueError ''Initial user message not found in history. Please report this issue.'')
      | Some m \<Rightarrow> Inr m)"

definition get_messages :: "code_act_env \<Rightarrow> event list \<Rightarrow> event \<Rightarrow> int set \<Rightarrow> message list res" where
  "get_messages env events initial forgotten =
     res_bind (fst (process_events (ca_memory env) (ca_repr env) events initial forgotten (ca_max_message_chars env) (ca_vision env)))
       (\<lambda>ms. if ca_caching env then apply_prompt_caching ms else Inr ms)"

text \<open>Asking the model: the first action is the answer, the others wait.\<close>

definition ask_model :: "code_act_env \<Rightarrow> code_act \<Rightarrow> message list \<Rightarrow> event res \<times> code_act \<times> rat" where
  "ask_model env s ms =
     (let (r, cost) = ca_completion env (asked s) ms (ca_tools env);
          s = s\<lparr>asked := asked s + 1\<rparr>
      in case res_bind r (response_to_actions env) of
           Inl e \<Rightarrow> (Inl e, s, cost)
         | Inr [] \<Rightarrow> (Inl (OtherError ''AssertionError'' []), s, cost)
         | Inr (a # as) \<Rightarrow> (Inr a, s\<lparr>pending_actions := as\<rparr>, cost))"

definition exits :: "event option \<Rightarrow> bool" where
  "exits m \<longleftrightarrow> (case m of None \<Rightarrow> False | Some m \<Rightarrow> strip (event_text m ''content'') = ''/exit'')"

text \<open>A step: the answer, the agent afterwards, the state with its view, and what was spent.\<close>

definition code_act_step :: "code_act_env \<Rightarrow> code_act \<Rightarrow> agent_data \<Rightarrow> event res \<times> code_act \<times> agent_data \<times> rat" where
  "code_act_step env s ad =
     (case pending_actions s of
        a # as \<Rightarrow> (Inr a, s\<lparr>pending_actions := as\<rparr>, ad, 0)
      | [] \<Rightarrow>
          (case get_last_user_message ad of
             (Inl e, ad) \<Rightarrow> (Inl e, s, ad, 0)
           | (Inr m, ad) \<Rightarrow>
               if exits m then (Inr (make_act AgentFinishAction []), s, ad, 0)
               else (case state_view ad of
                   (r, ad) \<Rightarrow>
                     (case res_bind r (condense (ca_condenser_llm env) (ca_condenser env)) of
                        Inl e \<Rightarrow> (Inl e, s, ad, 0)
                      | Inr (Condensation a) \<Rightarrow> (Inr a, s, ad, 0)
                      | Inr (AView v) \<Rightarrow>
                          (case res_bind (get_initial_user_message (history ad)) (\<lambda>m. get_messages env (v_events v) m (v_forgotten v)) of
                             Inl e \<Rightarrow> (Inl e, s, ad, 0)
                           | Inr ms \<Rightarrow> (let (r, s, cost) = ask_model env s ms in (r, s, ad, cost)))))))"

definition code_act_reset :: "code_act \<Rightarrow> code_act" where
  "code_act_reset s = s\<lparr>pending_actions := []\<rparr>"

text \<open>The agent as the controller uses it.\<close>

definition code_act_spec :: "code_act_env \<Rightarrow> event option \<Rightarrow> bool \<Rightarrow> bool \<Rightarrow> bool \<Rightarrow> code_act agent_spec" where
  "code_act_spec env system detection truncation cli =
     \<lparr>as_name = ''CodeActAgent'', as_init = \<lparr>pending_actions = [], asked = 0\<rparr>, as_reset = code_act_reset,
      as_step = (\<lambda>s ad spent. let (r, s, _, cost) = code_act_step env s ad in (res_map Some r, s, spent + cost)),
      as_system_message = system, as_stuck_detection = detection, as_truncation = truncation, as_cli_mode = cli\<rparr>"

section \<open>One action for each tool call\<close>

lemma tool_calls_actions_spec:
  "tool_calls_actions env response thought n i tcs = Inr as \<Longrightarrow>
     map e_tool_call as = map (\<lambda>tc. Some (tool_metadata response n tc)) tcs"
  by (induction tcs arbitrary: i as) (auto simp: Let_def split: prod.splits)

lemma response_to_actions_cases:
  assumes "response_to_actions env response = Inr as"
  shows "(\<exists>tcs. lm_tool_calls (mc_response_message (ca_memory env) response) = Some tcs \<and> tcs \<noteq> []
       \<and> map e_tool_call as = map (\<lambda>tc. Some (tool_metadata response (length tcs) tc)) tcs)
     \<or> (\<nexists>tc tcs. lm_tool_calls (mc_response_message (ca_memory env) response) = Some (tc # tcs))
       \<and> (\<exists>a. as = [a] \<and> is_a MessageAction a \<and> get_attr a ''wait_for_response'' PNone = PBool True)"
proof (cases "\<exists>tc tcs. lm_tool_calls (mc_response_message (ca_memory env) response) = Some (tc # tcs)")
  case True
  then obtain tc tcs where c: "lm_tool_calls (mc_response_message (ca_memory env) response) = Some (tc # tcs)" by auto
  with assms obtain thought where "tool_calls_actions env response thought (length (tc # tcs)) 0 (tc # tcs) = Inr as"
    by (auto simp: response_to_actions_def simp del: tool_calls_actions.simps split: if_splits)
  from tool_calls_actions_spec [OF this] c show ?thesis by blast
next
  case False
  then obtain a where "as = [a]" "a = make_act MessageAction [(''content'', PStr (if py_truthy (ca_content env response)
      then py_str (ca_repr env) (ca_content env response) else [])), (''wait_for_response'', PBool True)]"
    using assms by (auto simp: response_to_actions_def Let_def split: if_splits option.splits list.splits)
  with False show ?thesis
    by (simp add: is_a_def make_act_def new_event_def get_attr_def init_fields_def MessageAction_spec_def)
qed

lemma response_nonempty: "response_to_actions env response = Inr as \<Longrightarrow> as \<noteq> []"
  by (auto dest!: response_to_actions_cases)

lemma code_act_asked:
  assumes "code_act_step env s ad = (r, s', ad', cost)"
  shows "asked s' = asked s \<or> asked s' = asked s + 1 \<and> pending_actions s = []"
  using assms
  by (auto simp: code_act_step_def ask_model_def Let_def
      split: list.splits prod.splits sum.splits if_splits condensed.splits)

lemma code_act_counts: "counts_calls asked (code_act_spec env system detection truncation cli)"
proof -
  have "asked (fst (snd (as_step (code_act_spec env system detection truncation cli) m s c))) \<le> asked m + 1" for m s c
  proof -
    obtain r m' s' cost where st: "code_act_step env m s = (r, m', s', cost)" by (cases "code_act_step env m s") auto
    with code_act_asked [OF st] show ?thesis by (auto simp: code_act_spec_def)
  qed
  then show ?thesis by (simp add: counts_calls_def code_act_spec_def code_act_reset_def)
qed

text \<open>C13. A response with tool calls becomes one action for each call, in their order; each action knows its call and the response.\<close>

theorem one_action_per_tool_call:
  assumes "response_to_actions env response = Inr as"
    and "lm_tool_calls (mc_response_message (ca_memory env) response) = Some tcs" and "tcs \<noteq> []"
  shows "map e_tool_call as = map (\<lambda>tc. Some (tool_metadata response (length tcs) tc)) tcs"
  using response_to_actions_cases [OF assms(1)] assms(2,3) by (cases tcs) auto


section \<open>Waiting actions\<close>

text \<open>Steps at states that the controller shows, one after the other.\<close>

fun agent_run :: "code_act_env \<Rightarrow> agent_data list \<Rightarrow> code_act \<Rightarrow> event res list \<times> code_act" where
  "agent_run env [] s = ([], s)"
| "agent_run env (ad # ads) s =
     (let (r, s, _, _) = code_act_step env s ad; (rs, s) = agent_run env ads s in (r # rs, s))"

lemma agent_run_waiting:
  "length ads = length (pending_actions s) \<Longrightarrow> agent_run env ads s = (map Inr (pending_actions s), s\<lparr>pending_actions := []\<rparr>)"
proof (induction ads arbitrary: s)
  case (Cons ad ads)
  then obtain a as where p: "pending_actions s = a # as" by (cases "pending_actions s") auto
  with Cons show ?case by (simp add: code_act_step_def)
qed simp

lemma ask_model_Inr:
  assumes "ask_model env s ms = (Inr a, s', cost)"
  shows "\<exists>response as. fst (ca_completion env (asked s) ms (ca_tools env)) = Inr response \<and> response_to_actions env response = Inr (a # as)
    \<and> s' = s\<lparr>asked := asked s + 1, pending_actions := as\<rparr>"
  using assms by (auto simp: ask_model_def Let_def split: prod.splits sum.splits list.splits)

lemma code_act_step_asking:
  assumes "code_act_step env s ad = (r, s', ad', cost)" and "asked s' \<noteq> asked s"
  shows "\<exists>ms. ask_model env s ms = (r, s', cost)"
proof -
  have "pending_actions s = []" using code_act_asked [OF assms(1)] assms(2) by auto
  with assms show ?thesis
    by (auto simp: code_act_step_def Let_def split: list.splits prod.splits sum.splits if_splits condensed.splits)
qed

text \<open>C14. The actions of one response are handed out one at each step, in their order and whatever happens in between, and the model is not
  asked again before they are used up.\<close>

theorem response_handed_out:
  assumes "code_act_step env s ad = (Inr a, s', ad', cost)" and "asked s' \<noteq> asked s"
  shows "\<exists>ms response as. fst (ca_completion env (asked s) ms (ca_tools env)) = Inr response
    \<and> response_to_actions env response = Inr as \<and> as \<noteq> []
    \<and> (\<forall>ads. length ads + 1 = length as \<longrightarrow> agent_run env (ad # ads) s = (map Inr as, s\<lparr>asked := asked s + 1\<rparr>))"
proof -
  have empty: "pending_actions s = []" using code_act_asked [OF assms(1)] assms(2) by auto
  obtain ms where "ask_model env s ms = (Inr a, s', cost)" using code_act_step_asking [OF assms] by blast
  from ask_model_Inr [OF this] obtain response as where
    r: "fst (ca_completion env (asked s) ms (ca_tools env)) = Inr response" "response_to_actions env response = Inr (a # as)"
      and s': "s' = s\<lparr>asked := asked s + 1, pending_actions := as\<rparr>" by blast
  have "agent_run env (ad # ads) s = (map Inr (a # as), s\<lparr>asked := asked s + 1\<rparr>)" if "length ads + 1 = length (a # as)" for ads
    using that agent_run_waiting [of ads s'] empty by (simp add: assms(1) s')
  with r show ?thesis by blast
qed

section \<open>Offered tools\<close>

text \<open>Exceptions other than that of an unknown tool; reading a float raises such ones only.\<close>

definition known_tool :: "'x res \<Rightarrow> bool" where
  "known_tool r \<longleftrightarrow> (\<forall>msg. r \<noteq> Inl (OtherError ''FunctionCallNotExistsError'' msg))"

lemma known_tool_Inr [simp]: "known_tool (Inr x)"
  by (simp add: known_tool_def)

lemma known_tool_invalid [simp]: "known_tool (invalid_call msg)"
  by (simp add: known_tool_def invalid_call_def)

lemma known_tool_bind: "known_tool r \<Longrightarrow> (\<And>x. r = Inr x \<Longrightarrow> known_tool (f x)) \<Longrightarrow> known_tool (res_bind r f)"
  by (cases r) (auto simp: known_tool_def)

lemma known_tool_map [simp]: "known_tool (res_map f r) = known_tool r"
  by (cases r) (auto simp: known_tool_def)

lemma known_tool_args [simp]: "known_tool (arg_in k v)" "known_tool (arg_at k v)" "known_tool (arg_get k d v)" "known_tool (required k name v)"
proof -
  show i: "known_tool (arg_in k v)" by (cases v) (simp_all add: known_tool_def arg_in_def)
  show "known_tool (arg_at k v)" by (cases v) (simp_all add: known_tool_def arg_at_def split: option.split)
  show "known_tool (arg_get k d v)" by (cases v) (simp_all add: known_tool_def arg_get_def)
  show "known_tool (required k name v)" unfolding required_def by (rule known_tool_bind) (simp_all add: i)
qed

lemma known_tool_risk [simp]: "known_tool (set_security_risk a v)"
  unfolding set_security_risk_def by (rule known_tool_bind) simp_all

lemma known_tool_tasks [simp]: "known_tool (normalize_tasks i ts)"
  by (induction ts arbitrary: i) (simp_all split: pyval.split)

lemma known_tool_kwargs [simp]: "known_tool (editor_kwargs env name other)"
  by (simp add: editor_kwargs_def split: option.split)

lemma known_tool_actions:
  assumes "\<And>v. known_tool (ca_float env v)"
  shows "known_tool (cmd_run_action env name v)" "known_tool (ipython_action name v)" "known_tool (llm_edit_action name v)"
    "known_tool (editor_action env name v)" "known_tool (browse_action name v)" "known_tool (track_action i name v)"
proof -
  have f: "known_tool (case ca_float env t of Inr q \<Rightarrow> Inr (h q) | Inl (ValueError _) \<Rightarrow> invalid_call m | Inl e \<Rightarrow> Inl e)" for t h m
    using assms [of t] by (auto simp: known_tool_def invalid_call_def split: sum.split py_exn.split)
  show "known_tool (cmd_run_action env name v)" unfolding cmd_run_action_def Let_def
    by (intro known_tool_bind) (simp_all add: f known_tool_bind)
  show "known_tool (ipython_action name v)" "known_tool (browse_action name v)"
    unfolding ipython_action_def browse_action_def by (intro known_tool_bind, simp_all)+
  show "known_tool (llm_edit_action name v)" unfolding llm_edit_action_def by (intro known_tool_bind) simp_all
  show "known_tool (editor_action env name v)" unfolding editor_action_def Let_def by (intro known_tool_bind) simp_all
  show "known_tool (track_action i name v)" unfolding track_action_def
    by (intro known_tool_bind) (simp_all split: pyval.split add: known_tool_bind)
qed

text \<open>The tools that the agent offers are those it understands: a call of an offered tool, or of one of the MCP tools, is never answered with the
  message that there is no such tool.\<close>

theorem offered_tools_understood:
  assumes "\<And>v. known_tool (ca_float env v)" and "tc_name tc \<in> set (get_tools win cfg) \<union> set (ca_mcp_tools env)"
  shows "tool_call_action env i tc \<noteq> Inl (OtherError ''FunctionCallNotExistsError'' msg)"
proof -
  note names = EXECUTE_BASH_TOOL_NAME_def FINISH_TOOL_NAME_def LLM_BASED_EDIT_TOOL_NAME_def STR_REPLACE_EDITOR_TOOL_NAME_def
    BROWSER_TOOL_NAME_def TASK_TRACKER_TOOL_NAME_def
  have "tc_name tc \<in> {EXECUTE_BASH_TOOL_NAME, ''execute_ipython_cell'', FINISH_TOOL_NAME, LLM_BASED_EDIT_TOOL_NAME,
      STR_REPLACE_EDITOR_TOOL_NAME, ''think'', ''request_condensation'', BROWSER_TOOL_NAME, TASK_TRACKER_TOOL_NAME} \<union> set (ca_mcp_tools env)"
    using assms(2) by (auto simp: get_tools_def split: if_splits)
  then have "known_tool (tool_call_action env i tc)"
    unfolding tool_call_action_def Let_def
    by (cases "ca_loads env (tc_arguments tc)")
      (auto simp: known_tool_actions [OF assms(1)] finish_action_def think_action_def)
  then show ?thesis by (simp add: known_tool_def)
qed

section \<open>Runs\<close>

definition demo_call :: "string \<Rightarrow> string \<Rightarrow> string \<Rightarrow> tool_call" where
  "demo_call i name args = \<lparr>tc_id = i, tc_name = name, tc_arguments = args\<rparr>"

definition demo_arguments :: "string \<Rightarrow> pyval option" where
  "demo_arguments s = map_option (\<lambda>kvs. PDict kvs) (dict_get
     [(''ls'', [(''command'', PStr ''ls''), (''security_risk'', PStr ''LOW'')]),
      (''one task'', [(''command'', PStr ''plan''), (''task_list'', PList [PDict [(''title'', PStr ''read'')]])]),
      (''two tasks'', [(''command'', PStr ''plan''), (''task_list'', PList [PDict [(''title'', PStr ''read'')], PDict [(''title'', PStr ''write'')]])])] s)"

definition demo_agent_env :: "tool_call list \<Rightarrow> code_act_env" where
  "demo_agent_env tcs = \<lparr>ca_memory = demo_memory\<lparr>mc_response_message := (\<lambda>_. \<lparr>lm_role = ''assistant'', lm_content = Some ''why'', lm_tool_calls = Some tcs\<rparr>)\<rparr>,
     ca_repr = (\<lambda>_. []), ca_loads = demo_arguments, ca_float = (\<lambda>_. Inl (ValueError [])), ca_params_text = [], ca_choices = (\<lambda>_. 1),
     ca_content = (\<lambda>_. PStr ''why''), ca_mcp_tools = [''fetch''], ca_tools = [EXECUTE_BASH_TOOL_NAME, TASK_TRACKER_TOOL_NAME],
     ca_condenser = NoOpCondenser, ca_condenser_llm = demo_llm, ca_max_message_chars = None, ca_vision = False, ca_caching = True,
     ca_completion = (\<lambda>_ _ _. (Inr demo_response, 1))\<rparr>"

definition demo_calls :: "tool_call list" where
  "demo_calls = [demo_call ''c1'' ''execute_bash'' ''ls'', demo_call ''c2'' ''execute_bash'' ''ls'']"

lemma demo_response_actions:
  obtains as where "response_to_actions (demo_agent_env demo_calls) demo_response = Inr as" and "length as = 2" and "list_all (is_a CmdRunAction) as"
proof -
  have "(case response_to_actions (demo_agent_env demo_calls) demo_response of Inl _ \<Rightarrow> False | Inr as \<Rightarrow> length as = 2 \<and> list_all (is_a CmdRunAction) as)"
    by code_simp
  then show thesis by (cases "response_to_actions (demo_agent_env demo_calls) demo_response") (auto intro: that)
qed

theorem one_action_per_tool_call_witness:
  "\<exists>as. response_to_actions (demo_agent_env demo_calls) demo_response = Inr as
     \<and> map e_tool_call as = map (\<lambda>tc. Some (tool_metadata demo_response 2 tc)) demo_calls"
proof -
  obtain as where "response_to_actions (demo_agent_env demo_calls) demo_response = Inr as" by (rule demo_response_actions)
  moreover have "lm_tool_calls (mc_response_message (ca_memory (demo_agent_env demo_calls)) demo_response) = Some demo_calls"
    by (simp add: demo_agent_env_def)
  moreover have "demo_calls \<noteq> []" "length demo_calls = 2" by (simp_all add: demo_calls_def)
  ultimately show ?thesis using one_action_per_tool_call [of "demo_agent_env demo_calls" demo_response] by auto
qed


definition demo_task_state :: agent_data where
  "demo_task_state = fresh_state\<lparr>history := [demo_task]\<rparr>"

lemma demo_asks:
  obtains a s' ad' cost where "code_act_step (demo_agent_env demo_calls) \<lparr>pending_actions = [], asked = 0\<rparr> demo_task_state = (Inr a, s', ad', cost)"
    and "asked s' = 1" and "length (pending_actions s') = 1"
proof -
  have "(case code_act_step (demo_agent_env demo_calls) \<lparr>pending_actions = [], asked = 0\<rparr> demo_task_state of
      (r, s', _, _) \<Rightarrow> \<not> isl r \<and> asked s' = 1 \<and> length (pending_actions s') = 1)" by code_simp
  moreover obtain r s' ad' cost
    where st: "code_act_step (demo_agent_env demo_calls) \<lparr>pending_actions = [], asked = 0\<rparr> demo_task_state = (r, s', ad', cost)"
    by (cases "code_act_step (demo_agent_env demo_calls) \<lparr>pending_actions = [], asked = 0\<rparr> demo_task_state") auto
  ultimately show thesis using that by (cases r) auto
qed

theorem response_handed_out_witness:
  "\<exists>as. as \<noteq> [] \<and> (\<forall>ads. length ads + 1 = length as \<longrightarrow>
     agent_run (demo_agent_env demo_calls) (demo_task_state # ads) \<lparr>pending_actions = [], asked = 0\<rparr> = (map Inr as, \<lparr>pending_actions = [], asked = 1\<rparr>))"
proof -
  obtain a s' ad' cost where
    "code_act_step (demo_agent_env demo_calls) \<lparr>pending_actions = [], asked = 0\<rparr> demo_task_state = (Inr a, s', ad', cost)" "asked s' = 1"
    by (rule demo_asks)
  with response_handed_out [OF this(1)] show ?thesis by auto
qed

theorem offered_tools_understood_witness:
  "tool_call_action (demo_agent_env []) 0 (demo_call ''c1'' ''think'' ''ls'') \<noteq> Inl (OtherError ''FunctionCallNotExistsError'' ''x'')"
proof -
  let ?cfg = "\<lparr>enable_cmd = False, enable_think = True, enable_finish = False, enable_condensation_request = False, enable_browsing = False,
    enable_jupyter = False, enable_plan_mode = False, enable_llm_editor = False, enable_editor = False\<rparr>"
  show ?thesis
    by (rule offered_tools_understood [where win = False and cfg = ?cfg])
      (simp_all add: known_tool_def demo_agent_env_def demo_call_def get_tools_def)
qed

text \<open>The loop over the tasks overwrites the number of the tool call. A first call that plans two tasks loses the thought of the response,
  and a second call that plans one task gets the thought that the first already has.\<close>

theorem thought_lost_or_repeated:
  "map_sum (\<lambda>_. ()) (map (\<lambda>a. event_text a ''thought'')) (response_to_actions (demo_agent_env [demo_call ''c1'' ''task_tracker'' ''two tasks'']) demo_response)
     = Inr [[]]"
  "map_sum (\<lambda>_. ()) (map (\<lambda>a. event_text a ''thought'')) (response_to_actions
      (demo_agent_env [demo_call ''c1'' ''execute_bash'' ''ls'', demo_call ''c2'' ''task_tracker'' ''one task'']) demo_response)
     = Inr [''why'', ''why'']"
  by code_simp+

section \<open>The agent under its controller\<close>

text \<open>C16. In headless mode the model is asked at most as often as the iteration limit still allows, whatever events arrive: every call of the
  model costs an iteration, also when its answer cannot be used.\<close>

theorem model_calls_bounded:
  assumes "en_headless env" and "w_ctls w \<noteq> []" and "c_agent (ctl_at w 0) = code_act_spec ca system detection truncation cli"
    and "0 \<le> limit_increase_amount (cf_iteration (w_flags w))"
    and "current_value (cf_iteration (w_flags w)) \<le> max_value (cf_iteration (w_flags w))"
  shows "int (asked (c_memory (ctl_at (run_events env es w) 0)))
    \<le> int (asked (c_memory (ctl_at w 0))) + (max_value (cf_iteration (w_flags w)) - current_value (cf_iteration (w_flags w)))"
  by (rule headless_calls_within_limit [OF assms(1) code_act_counts assms(2-5)])

definition demo_code_act :: "code_act agent_spec" where
  "demo_code_act = code_act_spec (demo_agent_env demo_calls) None True True False"

definition demo_code_act_env :: "code_act controller_env" where
  "demo_code_act_env = \<lparr>en_repr = (\<lambda>_. []), en_codec = strict_codec, en_now = (\<lambda>_. ''2025-01-01''), en_headless = True, en_user_id = None,
     en_file_store = True, en_agents = (\<lambda>_. Some demo_code_act), en_analyzer = None, en_isinstance = (\<lambda>_ _. False),
     en_retries_exhausted = (\<lambda>_. False)\<rparr>"

definition demo_code_act_world :: "code_act world" where
  "demo_code_act_world = \<lparr>w_stream = new_stream ''c'' [] None, w_flags = demo_flags, w_cost = 0, w_sessions = [], w_statuses = [],
     w_ctls = [\<lparr>c_id = ''c'', c_sid = Some ''c'', c_agent = demo_code_act, c_memory = as_init demo_code_act,
       c_state = fresh_state\<lparr>start_id := 0, ag_state := agent_state_value RUNNING\<rparr>, c_pending = None, c_stuck = None, c_replay = new_replay None,
       c_first_user = None, c_confirmation_mode = False, c_callback = False, c_closed = False, c_is_delegate = False\<rparr>]\<rparr>"

theorem model_calls_bounded_witness:
  "int (asked (c_memory (ctl_at (run_events demo_code_act_env (replicate 5 demo_task) demo_code_act_world) 0))) \<le> 2"
  using model_calls_bounded [of demo_code_act_env demo_code_act_world "demo_agent_env demo_calls" None True True False "replicate 5 demo_task"]
  by (simp add: demo_code_act_env_def demo_code_act_world_def demo_code_act_def code_act_spec_def demo_flags_def new_flag_def)

end
