(* ===== verification/Fn_Call.thy ===== *)
theory Fn_Call
  imports Fn_Call_Prompts Code_Act
begin

text \<open>
  Function calling for models that have none, \<open>llm/fn_call_converter.py\<close>: messages with tool calls become plain text and the text of the model becomes
  tool calls again; a message with several tool calls is broken into one message for each. Messages have the shape that
  \<open>core/message.py\<close> gives them: an item of a content is a dictionary with a type, and a text item has a text. The regular expressions are
  written out as searches for their fixed parts. JSON, \<open>int\<close> and printed sets are parameters.
\<close>

section \<open>Messages and tools\<close>

datatype content = Plain string | Items "payload list" | NoContent pyval

record fn_message =
  fm_role :: string
  fm_content :: content
  fm_tool_calls :: "payload list option" \<comment> \<open>\<open>None\<close> also when the key is missing\<close>
  fm_tool_call_id :: "string option"
  fm_name :: "string option"
  fm_cache_control :: bool

definition role_message :: "string \<Rightarrow> content \<Rightarrow> fn_message" where
  "role_message role c = \<lparr>fm_role = role, fm_content = c, fm_tool_calls = None, fm_tool_call_id = None, fm_name = None, fm_cache_control = False\<rparr>"

record tool_parameters =
  tp_properties :: "(string, payload) dict option"
  tp_required :: "string list option"

record tool_param =
  tool_type :: string
  fn_name :: string
  fn_description :: string
  fn_parameters :: "tool_parameters option"

record fn_env =
  fc_repr :: "pyval \<Rightarrow> string"
  fc_loads :: "string \<Rightarrow> pyval option"
  fc_dumps :: "pyval \<Rightarrow> string"
  fc_int :: "string \<Rightarrow> int option" \<comment> \<open>\<open>None\<close> is a \<open>ValueError\<close>\<close>
  fc_set_text :: "string list \<Rightarrow> string" \<comment> \<open>a printed set\<close>
  fc_list_text :: "string list \<Rightarrow> string" \<comment> \<open>a printed list\<close>
  fc_raw_text :: "fn_message list \<Rightarrow> string"
  fc_windows :: bool

definition conversion_error :: "string \<Rightarrow> 'x res" where
  "conversion_error msg = Inl (OtherError ''FunctionCallConversionError'' msg)"

definition is_text_item :: "payload \<Rightarrow> bool" where
  "is_text_item it \<longleftrightarrow> dict_get it ''type'' = Some (PStr ''text'')"

definition item_text :: "payload \<Rightarrow> string" where
  "item_text it = text_of it ''text''"

definition text_item :: "string \<Rightarrow> payload" where
  "text_item s = [(''type'', PStr ''text''), (''text'', PStr s)]"

definition set_text :: "(string \<Rightarrow> string) \<Rightarrow> payload \<Rightarrow> payload" where
  "set_text f it = dict_set ''text'' (PStr (f (item_text it))) it"

definition unexpected_content :: "fn_env \<Rightarrow> pyval \<Rightarrow> 'x res" where
  "unexpected_content env v = conversion_error (''Unexpected content type '' @ class_text v @ ''. Expected str or list. Content: '' @ py_str (fc_repr env) v)"

definition content_text :: "fn_env \<Rightarrow> content \<Rightarrow> string" where
  "content_text env c = (case c of Plain s \<Rightarrow> s | Items its \<Rightarrow> fc_repr env (PList (map PDict its)) | NoContent v \<Rightarrow> py_str (fc_repr env) v)"

section \<open>Describing tools and calls\<close>

definition tool_call_text :: "fn_env \<Rightarrow> payload \<Rightarrow> string res" where
  "tool_call_text env tc =
     (if ''function'' \<notin> set (dict_keys tc) then conversion_error (''Tool call must contain '' @ [CHR 0x27] @ ''function'' @ [CHR 0x27] @ '' key.'')
      else if ''id'' \<notin> set (dict_keys tc) then conversion_error (''Tool call must contain '' @ [CHR 0x27] @ ''id'' @ [CHR 0x27] @ '' key.'')
      else if ''type'' \<notin> set (dict_keys tc) then conversion_error (''Tool call must contain '' @ [CHR 0x27] @ ''type'' @ [CHR 0x27] @ '' key.'')
      else if field_of tc ''type'' \<noteq> PStr ''function'' then conversion_error (''Tool call type must be '' @ [CHR 0x27] @ ''function'' @ [CHR 0x27] @ ''.'')
      else res_bind (arg_at ''name'' (field_of tc ''function'')) (\<lambda>name. res_bind (arg_at ''arguments'' (field_of tc ''function'')) (\<lambda>args.
        case fc_loads env (text_val args) of
          None \<Rightarrow> conversion_error (''Failed to parse arguments as JSON. Arguments: '' @ text_val args)
        | Some (PDict kvs) \<Rightarrow> Inr (''<function='' @ py_str (fc_repr env) name @ ''>'' @ [nl]
            @ concat (map (\<lambda>(k, v). ''<parameter='' @ k @ ''>''
                @ (case v of PList _ \<Rightarrow> fc_dumps env v | PDict _ \<Rightarrow> fc_dumps env v | _ \<Rightarrow> py_str (fc_repr env) v) @ ''</parameter>'' @ [nl]) kvs)
            @ ''</function>'')
        | Some v \<Rightarrow> Inl (OtherError ''AttributeError'' ([CHR 0x27] @ class_name v @ [CHR 0x27] @ '' object has no attribute '' @ [CHR 0x27] @ ''items'' @ [CHR 0x27])))))"

definition property_line :: "fn_env \<Rightarrow> string list \<Rightarrow> nat \<Rightarrow> string \<Rightarrow> payload \<Rightarrow> string" where
  "property_line env req j name info =
     (let desc = py_str (fc_repr env) (dict_get_default info ''description'' (PStr ''No description provided''));
          desc = (case dict_get info ''enum'' of None \<Rightarrow> desc
            | Some v \<Rightarrow> desc @ [nl] @ ''Allowed values: ['' @ join '', '' (map (\<lambda>x. [CHR 0x60] @ py_str (fc_repr env) x @ [CHR 0x60]) (list_val v)) @ '']'')
      in ''  ('' @ nat_str (j + 1) @ '') '' @ name @ '' ('' @ py_str (fc_repr env) (dict_get_default info ''type'' (PStr ''string'')) @ '', ''
         @ (if name \<in> set req then ''required'' else ''optional'') @ ''): '' @ desc @ [nl])"

fun property_lines :: "fn_env \<Rightarrow> string list \<Rightarrow> nat \<Rightarrow> (string, payload) dict \<Rightarrow> string" where
  "property_lines env req j [] = []"
| "property_lines env req j ((name, info) # ps) = property_line env req j name info @ property_lines env req (j + 1) ps"

definition describe_tool :: "fn_env \<Rightarrow> nat \<Rightarrow> tool_param \<Rightarrow> string" where
  "describe_tool env i t =
     (if 0 < i then [nl] else []) @ ''---- BEGIN FUNCTION #'' @ nat_str (i + 1) @ '': '' @ fn_name t @ '' ----'' @ [nl]
     @ ''Description: '' @ fn_description t @ [nl]
     @ (case fn_parameters t of
          None \<Rightarrow> ''No parameters are required for this function.'' @ [nl]
        | Some p \<Rightarrow> ''Parameters:'' @ [nl]
            @ property_lines env (case tp_required p of None \<Rightarrow> [] | Some r \<Rightarrow> r) 0 (case tp_properties p of None \<Rightarrow> [] | Some ps \<Rightarrow> ps))
     @ ''---- END FUNCTION #'' @ nat_str (i + 1) @ '' ----'' @ [nl]"

fun describe_tools :: "fn_env \<Rightarrow> nat \<Rightarrow> tool_param list \<Rightarrow> string" where
  "describe_tools env i [] = []"
| "describe_tools env i (t # ts) = describe_tool env i t @ describe_tools env (i + 1) ts"

definition convert_tools_to_description :: "fn_env \<Rightarrow> tool_param list \<Rightarrow> string res" where
  "convert_tools_to_description env tools =
     (if list_all (\<lambda>t. tool_type t = ''function'') tools then Inr (describe_tools env 0 tools) else Inl (OtherError ''AssertionError'' []))"

definition system_prompt_suffix :: "string \<Rightarrow> string" where
  "system_prompt_suffix description = SYSTEM_PROMPT_SUFFIX_START @ description @ SYSTEM_PROMPT_SUFFIX_END"

definition tools_example :: "fn_env \<Rightarrow> tool_param list \<Rightarrow> string" where
  "tools_example env tools = get_example_for_tools (fc_windows env) (map fn_name (filter (\<lambda>t. tool_type t = ''function'') tools))"

section \<open>Tool calls to text\<close>

text \<open>The last item when it is a text, and the others.\<close>

definition append_text :: "(string \<Rightarrow> string) \<Rightarrow> string \<Rightarrow> payload list \<Rightarrow> payload list" where
  "append_text f s its =
     (if its \<noteq> [] \<and> is_text_item (last its) then butlast its @ [set_text f (last its)] else its @ [text_item s])"

definition plain_system :: "fn_env \<Rightarrow> string \<Rightarrow> content \<Rightarrow> content res" where
  "plain_system env sfx c =
     (case c of
        Plain s \<Rightarrow> Inr (Plain (s @ sfx))
      | Items its \<Rightarrow> Inr (Items (append_text (\<lambda>s. s @ sfx) sfx its))
      | NoContent v \<Rightarrow> unexpected_content env v)"

definition plain_user :: "fn_env \<Rightarrow> string \<Rightarrow> content \<Rightarrow> content res" where
  "plain_user env example c =
     (if example = [] then Inr c
      else case c of
          Plain s \<Rightarrow> Inr (Plain (example @ s @ IN_CONTEXT_LEARNING_EXAMPLE_SUFFIX))
        | Items its \<Rightarrow> Inr (Items (if its \<noteq> [] \<and> is_text_item (hd its)
              then set_text (\<lambda>s. example @ s @ IN_CONTEXT_LEARNING_EXAMPLE_SUFFIX) (hd its) # tl its
              else [text_item example] @ its @ [text_item IN_CONTEXT_LEARNING_EXAMPLE_SUFFIX]))
        | NoContent v \<Rightarrow> unexpected_content env v)"

definition plain_call :: "fn_env \<Rightarrow> fn_message list \<Rightarrow> payload list \<Rightarrow> content \<Rightarrow> content res" where
  "plain_call env messages tcs c =
     (if length tcs \<noteq> 1 then conversion_error (''Expected exactly one tool call in the message. More than one tool call is not supported. But got ''
        @ nat_str (length tcs) @ '' tool calls. Content: '' @ content_text env c)
      else res_bind (case tool_call_text env (hd tcs) of
            Inl e \<Rightarrow> if exn_class e = ''FunctionCallConversionError''
              then conversion_error (''Failed to convert tool call to string.'' @ [nl] @ ''Current tool call: '' @ fc_repr env (PDict (hd tcs)) @ ''.'' @ [nl]
                @ ''Raw messages: '' @ fc_raw_text env messages)
              else Inl e
          | Inr s \<Rightarrow> Inr s)
        (\<lambda>call. let join_call = (\<lambda>s. lstrip (s @ [nl, nl] @ call)) in
          case c of
            Plain s \<Rightarrow> Inr (Plain (join_call s))
          | Items its \<Rightarrow> Inr (Items (append_text join_call call its))
          | NoContent v \<Rightarrow> unexpected_content env v))"

fun prefix_first_text :: "string \<Rightarrow> payload list \<Rightarrow> payload list" where
  "prefix_first_text p [] = []"
| "prefix_first_text p (it # its) = (if is_text_item it then set_text (\<lambda>s. p @ s) it # its else it # prefix_first_text p its)"

definition result_prefix :: "string \<Rightarrow> string" where
  "result_prefix name = ''EXECUTION RESULT of ['' @ name @ '']:'' @ [nl]"

definition plain_result :: "fn_env \<Rightarrow> fn_message \<Rightarrow> content res" where
  "plain_result env m =
     (let p = result_prefix (case fm_name m of None \<Rightarrow> ''function'' | Some n \<Rightarrow> n) in
      case fm_content m of
        Plain s \<Rightarrow> if fm_cache_control m
          then Inl (TypeError ([CHR 0x27] @ ''str'' @ [CHR 0x27] @ '' object does not support item assignment'')) else Inr (Plain (p @ s))
      | Items its \<Rightarrow>
          let its = (if list_ex is_text_item its then prefix_first_text p its else text_item p # its) in
          Inr (Items (if fm_cache_control m then butlast its @ [dict_set ''cache_control'' ephemeral (last its)] else its))
      | NoContent v \<Rightarrow> unexpected_content env v)"

text \<open>One message; the flag tells whether the first message of the user was met and got the example.\<close>

definition plain_message_of :: "fn_env \<Rightarrow> string \<Rightarrow> string \<Rightarrow> bool \<Rightarrow> fn_message list \<Rightarrow> bool \<Rightarrow> fn_message \<Rightarrow> (fn_message \<times> bool) res" where
  "plain_message_of env sfx example add_example messages met m =
     (if fm_role m = ''system'' then res_map (\<lambda>c. (role_message ''system'' c, met)) (plain_system env sfx (fm_content m))
      else if fm_role m = ''user'' then
        (if \<not> met \<and> add_example then res_map (\<lambda>c. (role_message ''user'' c, True)) (plain_user env example (fm_content m))
         else Inr (role_message ''user'' (fm_content m), met))
      else if fm_role m = ''assistant'' then
        res_map (\<lambda>c. (role_message ''assistant'' c, met))
          (case fm_tool_calls m of None \<Rightarrow> Inr (fm_content m) | Some tcs \<Rightarrow> plain_call env messages tcs (fm_content m))
      else if fm_role m = ''tool'' then res_map (\<lambda>c. (role_message ''user'' c, met)) (plain_result env m)
      else conversion_error (''Unexpected role '' @ fm_role m @ ''. Expected system, user, assistant or tool.''))"

fun plain_messages :: "fn_env \<Rightarrow> string \<Rightarrow> string \<Rightarrow> bool \<Rightarrow> fn_message list \<Rightarrow> bool \<Rightarrow> fn_message list \<Rightarrow> fn_message list res" where
  "plain_messages env sfx example add_example messages met [] = Inr []"
| "plain_messages env sfx example add_example messages met (m # ms) =
     res_bind (plain_message_of env sfx example add_example messages met m) (\<lambda>(m', met).
       res_map ((#) m') (plain_messages env sfx example add_example messages met ms))"

definition convert_fncall_messages_to_non_fncall_messages :: "fn_env \<Rightarrow> fn_message list \<Rightarrow> tool_param list \<Rightarrow> bool \<Rightarrow> fn_message list res" where
  "convert_fncall_messages_to_non_fncall_messages env messages tools add_example =
     res_bind (convert_tools_to_description env tools) (\<lambda>d.
       plain_messages env (system_prompt_suffix d) (tools_example env tools) add_example messages False messages)"

section \<open>Searching\<close>

text \<open>The first position at which \<open>f\<close> succeeds: what is before it, and the result.\<close>

fun search :: "(string \<Rightarrow> 'x option) \<Rightarrow> string \<Rightarrow> (string \<times> 'x) option" where
  "search f [] = map_option (Pair []) (f [])"
| "search f (c # s) = (case f (c # s) of Some x \<Rightarrow> Some ([], x) | None \<Rightarrow> map_option (\<lambda>(a, x). (c # a, x)) (search f s))"

definition after :: "string \<Rightarrow> string \<Rightarrow> string option" where
  "after p s = (if prefix p s then Some (drop (length p) s) else None)"

text \<open>\<open>start ([^>]+) > mid (.*?) end\<close> at the beginning of a text: the two groups and the rest.\<close>

definition tagged :: "string \<Rightarrow> string \<Rightarrow> string \<Rightarrow> string \<Rightarrow> (string \<times> string \<times> string) option" where
  "tagged start mid fin s =
     (case after start s of
        None \<Rightarrow> None
      | Some s1 \<Rightarrow>
          let name = takeWhile (\<lambda>c. c \<noteq> CHR ''>'') s1 in
          if name = [] then None
          else (case after (''>'' @ mid) (dropWhile (\<lambda>c. c \<noteq> CHR ''>'') s1) of
              None \<Rightarrow> None
            | Some s2 \<Rightarrow> map_option (\<lambda>(body, rest). (name, body, rest)) (split_once fin s2)))"

definition fn_match :: "string \<Rightarrow> (string \<times> string) option" where
  "fn_match s = map_option (\<lambda>(_, name, body, _). (name, body)) (search (tagged ''<function='' [nl] ''</function>'') s)"

lemma search_rest: "search f s = Some (a, x) \<Longrightarrow> \<exists>t. s = a @ t \<and> f t = Some x"
proof (induction s arbitrary: a)
  case (Cons c s)
  show ?case
  proof (cases "f (c # s)")
    case None
    with Cons.prems obtain a' where "search f s = Some (a', x)" "a = c # a'" by auto
    with Cons.IH show ?thesis by fastforce
  next
    case (Some y)
    with Cons.prems show ?thesis by auto
  qed
qed simp

lemma tagged_shorter:
  assumes "tagged start mid fin s = Some (name, body, rest)"
  shows "length rest < length s"
proof -
  from assms obtain s1 s2 where 1: "after start s = Some s1" and 2: "after (''>'' @ mid) (dropWhile (\<lambda>c. c \<noteq> CHR ''>'') s1) = Some s2"
    and 3: "split_once fin s2 = Some (body, rest)"
    by (auto simp: tagged_def Let_def split: option.splits if_splits)
  have "length s1 \<le> length s" using 1 by (auto simp: after_def split: if_splits)
  moreover have "length s2 < length (dropWhile (\<lambda>c. c \<noteq> CHR ''>'') s1)"
    using 2 by (auto simp: after_def prefix_def split: if_splits)
  moreover have "length (dropWhile (\<lambda>c. c \<noteq> CHR ''>'') s1) \<le> length s1" by (rule length_dropWhile_le)
  moreover have "length rest \<le> length s2" using split_once_Some [OF 3] by simp
  ultimately show ?thesis by linarith
qed

text \<open>\<open>re.finditer\<close> with the pattern of a parameter.\<close>

function param_matches :: "string \<Rightarrow> (string \<times> string) list" where
  "param_matches s =
     (case search (tagged ''<parameter='' [] ''</parameter>'') s of
        None \<Rightarrow> []
      | Some (_, name, value, rest) \<Rightarrow> (name, value) # param_matches rest)"
  by pat_completeness auto
termination
  by (relation "measure length") (auto dest!: search_rest tagged_shorter)

declare param_matches.simps [simp del]

text \<open>The repair of \<open><parameter=name=value</parameter>\<close>: the name and the value of such a tag at the beginning of a text.\<close>

definition identifier_char :: "char \<Rightarrow> bool" where
  "identifier_char c \<longleftrightarrow> c = CHR ''_'' \<or> is_digit c \<or> 97 \<le> code c \<and> code c \<le> 122 \<or> 65 \<le> code c \<and> code c \<le> 90"

definition bad_tag :: "string \<Rightarrow> (string \<times> string \<times> string) option" where
  "bad_tag s =
     (case after ''<parameter='' s of
        None \<Rightarrow> None
      | Some s1 \<Rightarrow>
          let name = takeWhile identifier_char s1 in
          if name = [] then None
          else (case after ''='' (dropWhile identifier_char s1) of
              None \<Rightarrow> None
            | Some s2 \<Rightarrow> map_option (\<lambda>rest. (name, takeWhile (\<lambda>c. c \<noteq> CHR ''<'') s2, rest))
                (after ''</parameter>'' (dropWhile (\<lambda>c. c \<noteq> CHR ''<'') s2))))"

lemma bad_tag_shorter:
  assumes "bad_tag s = Some (name, value, rest)"
  shows "length rest < length s"
proof -
  from assms obtain s1 s2 where 1: "after ''<parameter='' s = Some s1" and 2: "after ''='' (dropWhile identifier_char s1) = Some s2"
    and 3: "after ''</parameter>'' (dropWhile (\<lambda>c. c \<noteq> CHR ''<'') s2) = Some rest"
    by (auto simp: bad_tag_def Let_def split: option.splits if_splits)
  have "length s1 < length s" using 1 by (auto simp: after_def prefix_def split: if_splits)
  moreover have "length s2 \<le> length (dropWhile identifier_char s1)" using 2 by (auto simp: after_def split: if_splits)
  moreover have "length (dropWhile identifier_char s1) \<le> length s1" by (rule length_dropWhile_le)
  moreover have "length rest \<le> length (dropWhile (\<lambda>c. c \<noteq> CHR ''<'') s2)" using 3 by (auto simp: after_def split: if_splits)
  moreover have "length (dropWhile (\<lambda>c. c \<noteq> CHR ''<'') s2) \<le> length s2" by (rule length_dropWhile_le)
  ultimately show ?thesis by linarith
qed

function normalize_parameter_tags :: "string \<Rightarrow> string" where
  "normalize_parameter_tags s =
     (case search bad_tag s of
        None \<Rightarrow> s
      | Some (before, name, value, rest) \<Rightarrow>
          before @ ''<parameter='' @ name @ ''>'' @ value @ ''</parameter>'' @ normalize_parameter_tags rest)"
  by pat_completeness auto
termination
  by (relation "measure length") (auto dest!: search_rest bad_tag_shorter)

declare normalize_parameter_tags.simps [simp del]

text \<open>The model stops before the end mark; what it left out is added. A text without overlap with itself occurs once when there is no second one
  behind the first.\<close>

definition occurs_once :: "string \<Rightarrow> string \<Rightarrow> bool" where
  "occurs_once p s \<longleftrightarrow> (case split_once p s of None \<Rightarrow> False | Some (_, rest) \<Rightarrow> \<not> contains p rest)"

definition fix_stopword :: "string \<Rightarrow> string" where
  "fix_stopword s =
     (if occurs_once ''<function='' s
      then (if suffix ''</'' s then rstrip s @ ''function>'' else s @ [nl] @ ''</function>'') else s)"

definition before_call :: "string \<Rightarrow> string" where
  "before_call s = strip (case split_once ''<function='' s of None \<Rightarrow> s | Some (a, _) \<Rightarrow> a)"

definition replace_first :: "string \<Rightarrow> string \<Rightarrow> string \<Rightarrow> string" where
  "replace_first old new s = (case split_once old s of None \<Rightarrow> (if old = [] then new @ s else s) | Some (a, b) \<Rightarrow> a @ new @ b)"

section \<open>Parameters\<close>

definition parameter_error :: "string \<Rightarrow> string \<Rightarrow> 'x res" where
  "parameter_error name msg = invalid_call (''Parameter '' @ [CHR 0x27] @ name @ [CHR 0x27] @ '' is '' @ msg)"

definition param_value :: "fn_env \<Rightarrow> string \<Rightarrow> payload option \<Rightarrow> string \<Rightarrow> pyval res" where
  "param_value env name info s =
     (let t = (case info of None \<Rightarrow> PStr ''string'' | Some d \<Rightarrow> dict_get_default d ''type'' (PStr ''string'')) in
      if t = PStr ''integer'' then (case fc_int env s of None \<Rightarrow> parameter_error name ''expected to be an integer.'' | Some i \<Rightarrow> Inr (PInt i))
      else if t = PStr ''array'' then (case fc_loads env s of None \<Rightarrow> parameter_error name ''expected to be an array.'' | Some v \<Rightarrow> Inr v)
      else Inr (PStr s))"

definition check_param :: "fn_env \<Rightarrow> string \<Rightarrow> tool_param \<Rightarrow> string \<Rightarrow> string \<Rightarrow> pyval res" where
  "check_param env name tool k s =
     (let ps = (case fn_parameters tool of None \<Rightarrow> None | Some p \<Rightarrow> tp_properties p);
          allowed = (case ps of None \<Rightarrow> [] | Some d \<Rightarrow> dict_keys d)
      in if allowed \<noteq> [] \<and> k \<notin> set allowed then
           parameter_error k (''not allowed for function '' @ [CHR 0x27] @ name @ [CHR 0x27] @ ''. Allowed parameters: '' @ fc_set_text env allowed)
         else res_bind (param_value env k (case ps of None \<Rightarrow> None | Some d \<Rightarrow> dict_get d k) s) (\<lambda>v.
           case fn_parameters tool of
             None \<Rightarrow> Inl (KeyError ''parameters'')
           | Some p \<Rightarrow> (case tp_properties p of
               None \<Rightarrow> Inl (KeyError ''properties'')
             | Some d \<Rightarrow> (case dict_get d k of
                 None \<Rightarrow> Inl (KeyError k)
               | Some info \<Rightarrow> (case dict_get info ''enum'' of
                   None \<Rightarrow> Inr v
                 | Some values \<Rightarrow> if v \<in> set (list_val values) then Inr v
                     else parameter_error k (''expected to be one of '' @ py_str (fc_repr env) values @ ''.'')))))
)"

fun collect_params :: "fn_env \<Rightarrow> string \<Rightarrow> tool_param \<Rightarrow> payload \<Rightarrow> (string \<times> string) list \<Rightarrow> payload res" where
  "collect_params env name tool params [] = Inr params"
| "collect_params env name tool params ((k, s) # ms) =
     res_bind (check_param env name tool k s) (\<lambda>v. collect_params env name tool (dict_set k v params) ms)"

definition extract_and_validate_params :: "fn_env \<Rightarrow> tool_param \<Rightarrow> (string \<times> string) list \<Rightarrow> string \<Rightarrow> payload res" where
  "extract_and_validate_params env tool ms name =
     res_bind (collect_params env name tool [] ms) (\<lambda>params.
       let req = (case fn_parameters tool of None \<Rightarrow> [] | Some p \<Rightarrow> (case tp_required p of None \<Rightarrow> [] | Some r \<Rightarrow> r));
           missing = filter (\<lambda>k. k \<notin> set (dict_keys params)) req
       in if missing = [] then Inr params
          else invalid_call (''Missing required parameters for function '' @ [CHR 0x27] @ name @ [CHR 0x27] @ '': '' @ fc_set_text env missing))"

section \<open>Text to tool calls\<close>

definition tool_id :: "nat \<Rightarrow> string" where
  "tool_id n = ''toolu_'' @ (if n < 10 then ''0'' else []) @ nat_str n"

definition new_call :: "fn_env \<Rightarrow> nat \<Rightarrow> string \<Rightarrow> payload \<Rightarrow> payload" where
  "new_call env n name params =
     [(''index'', PInt 1), (''id'', PStr (tool_id n)), (''type'', PStr ''function''),
      (''function'', PDict [(''name'', PStr name), (''arguments'', PStr (fc_dumps env (PDict params)))])]"

text \<open>The call that a text contains, for the tools there are.\<close>

definition parse_call :: "fn_env \<Rightarrow> tool_param list \<Rightarrow> nat \<Rightarrow> string \<times> string \<Rightarrow> payload res" where
  "parse_call env tools n m =
     (let (name, body) = m in
      case find (\<lambda>t. tool_type t = ''function'' \<and> fn_name t = name) tools of
        None \<Rightarrow> invalid_call (''Function '' @ [CHR 0x27] @ name @ [CHR 0x27] @ '' not found in available tools: ''
          @ fc_list_text env (map fn_name (filter (\<lambda>t. tool_type t = ''function'') tools)))
      | Some tool \<Rightarrow> res_map (new_call env n name)
          (extract_and_validate_params env tool (param_matches (normalize_parameter_tags body)) name))"

definition restored_system :: "string \<Rightarrow> content \<Rightarrow> content" where
  "restored_system sfx c =
     (let cut = (\<lambda>s. case split_once sfx s of None \<Rightarrow> s | Some (a, _) \<Rightarrow> a) in
      case c of
        Plain s \<Rightarrow> Plain (cut s)
      | Items its \<Rightarrow> Items (if its \<noteq> [] \<and> is_text_item (last its) then butlast its @ [set_text cut (last its)] else its)
      | NoContent v \<Rightarrow> NoContent v)"

definition without_example :: "string \<Rightarrow> string \<Rightarrow> string" where
  "without_example example s =
     (let s = (if prefix example s then replace_first example [] s else s) in
      if suffix IN_CONTEXT_LEARNING_EXAMPLE_SUFFIX s then replace_first IN_CONTEXT_LEARNING_EXAMPLE_SUFFIX [] s else s)"

definition restored_user :: "fn_env \<Rightarrow> string \<Rightarrow> content \<Rightarrow> content res" where
  "restored_user env example c =
     (case c of
        Plain s \<Rightarrow> Inr (Plain (without_example example s))
      | Items its \<Rightarrow> Inr (Items (map (\<lambda>it. if is_text_item it then set_text (without_example example) it else it) its))
      | NoContent v \<Rightarrow> unexpected_content env v)"

text \<open>The name of the tool and its result in a message.\<close>

definition result_at :: "string \<Rightarrow> (string \<times> string) option" where
  "result_at s = (case after ''EXECUTION RESULT of ['' s of None \<Rightarrow> None | Some s1 \<Rightarrow> split_once ('']:'' @ [nl]) s1)"

definition result_match :: "string \<Rightarrow> (string \<times> string) option" where
  "result_match s = map_option snd (search result_at s)"

definition user_result :: "fn_env \<Rightarrow> nat \<Rightarrow> content \<Rightarrow> fn_message res" where
  "user_result env n c =
     (let tool = (\<lambda>name c. (role_message ''tool'' c)\<lparr>fm_tool_call_id := Some (tool_id (n - 1)), fm_name := Some name\<rparr>) in
      case c of
        Plain s \<Rightarrow> Inr (case result_match s of None \<Rightarrow> role_message ''user'' c | Some (name, r) \<Rightarrow> tool name (Plain (strip r)))
      | Items its \<Rightarrow> Inr (case List.map_filter (\<lambda>it. if is_text_item it then result_match (item_text it) else None) its of
            [] \<Rightarrow> role_message ''user'' c
          | (name, r) # _ \<Rightarrow> tool name (Items [text_item (strip r)]))
      | NoContent v \<Rightarrow> unexpected_content env v)"

text \<open>A message of the model, and the number of the next call.\<close>

definition restored_assistant :: "fn_env \<Rightarrow> tool_param list \<Rightarrow> nat \<Rightarrow> fn_message \<Rightarrow> content \<Rightarrow> (fn_message \<times> nat) res" where
  "restored_assistant env tools n m c =
     (let called = (\<lambda>fm c. res_map (\<lambda>call. ((role_message ''assistant'' c)\<lparr>fm_tool_calls := Some [call]\<rparr>, n + 1)) (parse_call env tools n fm)) in
      case c of
        Plain s \<Rightarrow> (case fn_match (fix_stopword s) of
            None \<Rightarrow> Inr (m, n)
          | Some fm \<Rightarrow> called fm (Plain (before_call (fix_stopword s))))
      | Items its \<Rightarrow>
          let its = (if its \<noteq> [] \<and> is_text_item (last its) then butlast its @ [set_text fix_stopword (last its)] else its);
              fm = (if its \<noteq> [] \<and> is_text_item (last its) then fn_match (item_text (last its)) else None)
          in (case fm of
                None \<Rightarrow> if list_ex (\<lambda>it. is_text_item it \<and> fn_match (item_text it) \<noteq> None) its
                  then conversion_error (''Expecting function call in the LAST index of content list. But got content='' @ content_text env (Items its))
                  else Inr (m\<lparr>fm_content := Items its\<rparr>, n)
              | Some fm \<Rightarrow> called fm (Items (butlast its @ [set_text before_call (last its)])))
      | NoContent v \<Rightarrow> unexpected_content env v)"

text \<open>\<open>content or ''\<close>.\<close>

definition present :: "content \<Rightarrow> content" where
  "present c = (case c of Plain s \<Rightarrow> Plain s | Items its \<Rightarrow> (if its = [] then Plain [] else Items its)
     | NoContent v \<Rightarrow> if py_truthy v then NoContent v else Plain [])"

definition restored_message ::
  "fn_env \<Rightarrow> string \<Rightarrow> string \<Rightarrow> tool_param list \<Rightarrow> bool \<Rightarrow> nat \<Rightarrow> fn_message \<Rightarrow> (fn_message \<times> bool \<times> nat) res" where
  "restored_message env sfx example tools met n m =
     (let c = present (fm_content m) in
      if fm_role m = ''system'' then Inr (role_message ''system'' (restored_system sfx c), met, n)
      else if fm_role m = ''user'' then
        res_bind (if met then Inr c else restored_user env example c) (\<lambda>c. res_map (\<lambda>m. (m, True, n)) (user_result env n c))
      else if fm_role m = ''assistant'' then res_map (\<lambda>(m, n). (m, met, n)) (restored_assistant env tools n m c)
      else conversion_error (''Unexpected role '' @ fm_role m @ ''. Expected system, user, or assistant in non-function calling messages.''))"

fun restored_messages :: "fn_env \<Rightarrow> string \<Rightarrow> string \<Rightarrow> tool_param list \<Rightarrow> bool \<Rightarrow> nat \<Rightarrow> fn_message list \<Rightarrow> fn_message list res" where
  "restored_messages env sfx example tools met n [] = Inr []"
| "restored_messages env sfx example tools met n (m # ms) =
     res_bind (restored_message env sfx example tools met n m) (\<lambda>(m, met, n).
       res_map ((#) m) (restored_messages env sfx example tools met n ms))"

definition convert_non_fncall_messages_to_fncall_messages :: "fn_env \<Rightarrow> fn_message list \<Rightarrow> tool_param list \<Rightarrow> fn_message list res" where
  "convert_non_fncall_messages_to_fncall_messages env messages tools =
     res_bind (convert_tools_to_description env tools) (\<lambda>d.
       restored_messages env (system_prompt_suffix d) (tools_example env tools) tools False 1 messages)"

section \<open>Several tool calls\<close>

definition call_id :: "payload \<Rightarrow> string" where
  "call_id tc = text_of tc ''id''"

definition hold_calls :: "fn_message \<Rightarrow> payload list \<Rightarrow> (string, fn_message) dict \<Rightarrow> (string, fn_message) dict" where
  "hold_calls m tcs pending =
     fold (\<lambda>(i, tc) p. dict_set (call_id tc)
       ((role_message ''assistant'' (if i = 0 then fm_content m else Plain []))\<lparr>fm_tool_calls := Some [tc]\<rparr>) p)
       (enumerate 0 tcs) pending"

fun split_calls :: "fn_message list \<Rightarrow> (string, fn_message) dict \<Rightarrow> (fn_message list \<times> (string, fn_message) dict) res" where
  "split_calls [] pending = Inr ([], pending)"
| "split_calls (m # ms) pending =
     (let keep = res_map (\<lambda>(out, p). (m # out, p)) in
      if fm_role m = ''assistant'' then
        (case fm_tool_calls m of
           Some (tc1 # tc2 # tcs) \<Rightarrow> split_calls ms (hold_calls m (tc1 # tc2 # tcs) pending)
         | _ \<Rightarrow> keep (split_calls ms pending))
      else if fm_role m = ''tool'' then
        (case fm_tool_call_id m of
           None \<Rightarrow> Inl (KeyError ''tool_call_id'')
         | Some i \<Rightarrow> (case dict_get pending i of
             Some call \<Rightarrow> res_map (\<lambda>(out, p). (call # m # out, p)) (split_calls ms (dict_del i pending))
           | None \<Rightarrow> if pending = [] then keep (split_calls ms pending)
               else Inl (OtherError ''AssertionError'' ''Found pending tool calls but not found in pending list'')))
      else if pending = [] then keep (split_calls ms pending)
      else Inl (OtherError ''AssertionError'' ''Found pending tool calls but not expect to handle it with role''))"

definition convert_from_multiple_tool_calls_to_single_tool_call_messages :: "fn_message list \<Rightarrow> bool \<Rightarrow> fn_message list res" where
  "convert_from_multiple_tool_calls_to_single_tool_call_messages ms ignore_final =
     res_bind (split_calls ms []) (\<lambda>(out, pending).
       if \<not> ignore_final \<and> pending \<noteq> [] then conversion_error ''Found pending tool calls but no tool result''
       else Inr out)"

section \<open>Laws of searching\<close>

lemma dropWhile_stop: "\<not> P c \<Longrightarrow> dropWhile P (a @ c # b) = dropWhile P a @ c # b"
  by (induction a) auto

definition skips :: "(string \<Rightarrow> 'x option) \<Rightarrow> string \<Rightarrow> string \<Rightarrow> bool" where
  "skips f u w \<longleftrightarrow> (\<forall>i < length u. f (drop i u @ w) = None)"

lemma skips_Nil [simp]: "skips f [] w"
  by (simp add: skips_def)

lemma skips_Cons: "skips f (c # u) w \<longleftrightarrow> f (c # u @ w) = None \<and> skips f u w"
proof -
  have "(\<forall>i < length (c # u). f (drop i (c # u) @ w) = None) \<longleftrightarrow>
      f (drop 0 (c # u) @ w) = None \<and> (\<forall>i < length u. f (drop (Suc i) (c # u) @ w) = None)"
    by (simp only: length_Cons All_less_Suc2)
  then show ?thesis by (simp add: skips_def)
qed

lemma skips_append: "skips f (u @ v) w \<longleftrightarrow> skips f u (v @ w) \<and> skips f v w"
  by (induction u) (simp_all add: skips_Cons)

lemma search_skips: "skips f u w \<Longrightarrow> search f (u @ w) = map_option (\<lambda>(a, x). (u @ a, x)) (search f w)"
proof (induction u)
  case Nil
  then show ?case by (cases "search f w") auto
next
  case (Cons c u)
  then have "f (c # u @ w) = None" and "search f (u @ w) = map_option (\<lambda>(a, x). (u @ a, x)) (search f w)"
    by (simp_all add: skips_Cons)
  then show ?case by (cases "search f w") auto
qed

lemma search_now: "f s = Some x \<Longrightarrow> search f s = Some ([], x)"
  by (cases s) auto

lemma search_none: "skips f s [] \<Longrightarrow> f [] = None \<Longrightarrow> search f s = None"
  using search_skips [of f s "[]"] by simp

text \<open>A search for something that starts with \<open>p\<close>.\<close>

definition starts :: "string \<Rightarrow> (string \<Rightarrow> 'x option) \<Rightarrow> bool" where
  "starts p f \<longleftrightarrow> (\<forall>s. \<not> prefix p s \<longrightarrow> f s = None)"

lemma startsD: "starts p f \<Longrightarrow> \<not> prefix p s \<Longrightarrow> f s = None"
  by (simp add: starts_def)

lemma starts_after [simp]: "starts p (after p)"
  by (simp add: starts_def after_def)

lemma starts_tagged [simp]: "starts p (tagged p mid fin)"
  by (simp add: starts_def tagged_def after_def)

lemma starts_bad_tag [simp]: "starts ''<parameter='' bad_tag"
  by (simp add: starts_def bad_tag_def after_def)

lemma starts_result [simp]: "starts ''EXECUTION RESULT of ['' result_at"
  by (simp add: starts_def result_at_def after_def)

lemma prefix_into:
  assumes "prefix p (v @ d # w)" and "v \<noteq> []" and "d \<notin> set (tl p)" and "p \<noteq> []"
  shows "prefix p v"
proof (rule ccontr)
  assume n: "\<not> prefix p v"
  have "prefix v p" using assms(1) n by (metis prefix_append prefix_def)
  then obtain u where u: "p = v @ u" by (auto simp: prefix_def)
  with n have "u \<noteq> []" by auto
  moreover have "prefix u (d # w)" using assms(1) u by simp
  ultimately have "d \<in> set u" by (cases u) auto
  with u assms(2,3) show False by (cases v) auto
qed

lemma skips_free:
  assumes "starts p f" and "\<not> contains p v" and "d \<notin> set (tl p)" and "p \<noteq> []"
  shows "skips f v (d # w)"
  unfolding skips_def
proof (intro allI impI)
  fix i assume i: "i < length v"
  have "\<not> prefix p (drop i v)"
  proof
    assume "prefix p (drop i v)"
    then have "contains p (drop i v)" by (auto simp: contains_iff prefix_def) (metis append_Nil)
    then show False using assms(2) contains_appendr [of p "drop i v" "take i v"] by simp
  qed
  then have "\<not> prefix p (drop i v @ d # w)" using prefix_into [of p "drop i v" d w] i assms(3,4) by auto
  with assms(1) show "f (drop i v @ d # w) = None" by (rule startsD)
qed

lemma skips_other: "starts p f \<Longrightarrow> p \<noteq> [] \<Longrightarrow> hd p \<notin> set v \<Longrightarrow> skips f v w"
  by (induction v) (auto simp: skips_Cons starts_def prefix_def neq_Nil_conv)

lemma split_once_search: "p \<noteq> [] \<Longrightarrow> split_once p s = search (after p) s"
  by (induction s) (auto simp: after_def)

lemma split_once_skips: "p \<noteq> [] \<Longrightarrow> skips (after p) a (p @ b) \<Longrightarrow> split_once p (a @ p @ b) = Some (a, b)"
  using search_now [of "after p" "p @ b" b] by (simp add: split_once_search search_skips after_def)

lemma after_append [simp]: "after p (p @ s) = Some s"
  by (simp add: after_def)

lemma takeWhile_name: "CHR ''>'' \<notin> set name \<Longrightarrow> takeWhile (\<lambda>c. c \<noteq> CHR ''>'') (name @ CHR ''>'' # s) = name"
  by (induction name) auto

lemma dropWhile_name: "CHR ''>'' \<notin> set name \<Longrightarrow> dropWhile (\<lambda>c. c \<noteq> CHR ''>'') (name @ CHR ''>'' # s) = CHR ''>'' # s"
  by (induction name) auto

lemma tagged_here:
  assumes "name \<noteq> []" and "CHR ''>'' \<notin> set name" and "fin \<noteq> []" and "skips (after fin) body (fin @ rest)"
  shows "tagged start mid fin (start @ name @ ''>'' @ mid @ body @ fin @ rest) = Some (name, body, rest)"
proof -
  have m: "after (''>'' @ mid) (CHR ''>'' # mid @ body @ fin @ rest) = Some (body @ fin @ rest)" by (simp add: after_def)
  show ?thesis
    using assms(1) m split_once_skips [OF assms(3,4)] by (simp add: tagged_def Let_def takeWhile_name [OF assms(2)] dropWhile_name [OF assms(2)])
qed

section \<open>The text of a call\<close>

lemma identifier_plain: "identifier_char c \<Longrightarrow> c \<noteq> CHR ''<'' \<and> c \<noteq> CHR ''>'' \<and> c \<noteq> CHR ''=''"
  by (auto simp: identifier_char_def is_digit_def code_def)

lemma identifier_set: "list_all identifier_char k \<Longrightarrow> CHR ''<'' \<notin> set k \<and> CHR ''>'' \<notin> set k \<and> CHR ''='' \<notin> set k"
  using identifier_plain by (auto simp: list_all_iff)

definition param_piece :: "string \<Rightarrow> string \<Rightarrow> string" where
  "param_piece k v = ''<parameter='' @ k @ ''>'' @ v @ ''</parameter>'' @ [nl]"

definition param_text :: "(string \<times> string) list \<Rightarrow> string" where
  "param_text kvs = concat (map (\<lambda>(k, v). param_piece k v) kvs)"

lemma param_text_simps [simp]: "param_text [] = []" "param_text ((k, v) # kvs) = param_piece k v @ param_text kvs"
  by (simp_all add: param_text_def)

text \<open>A parameter whose name is an identifier and whose value contains none of the marks.\<close>

definition clean_param :: "string \<times> string \<Rightarrow> bool" where
  "clean_param p \<longleftrightarrow> fst p \<noteq> [] \<and> list_all identifier_char (fst p)
     \<and> list_all (\<lambda>t. \<not> contains t (snd p)) [''<parameter='', ''</parameter>'', ''<function='', ''</function>'']"

lemma clean_param_free:
  "clean_param (k, v) \<Longrightarrow> \<not> contains ''<parameter='' v" "clean_param (k, v) \<Longrightarrow> \<not> contains ''</parameter>'' v"
  "clean_param (k, v) \<Longrightarrow> \<not> contains ''<function='' v" "clean_param (k, v) \<Longrightarrow> \<not> contains ''</function>'' v"
  "clean_param (k, v) \<Longrightarrow> list_all identifier_char k" "clean_param (k, v) \<Longrightarrow> k \<noteq> []"
  by (simp_all add: clean_param_def)

lemma skips_piece:
  assumes "starts p f" and "p \<noteq> []" and "hd p = CHR ''<''" and "CHR ''<'' \<notin> set (tl p)" and "\<not> contains p v" and "CHR ''<'' \<notin> set k"
    and "\<And>s. f (''<parameter='' @ k @ CHR ''>'' # s) = None" and "\<And>s. f (''</parameter>'' @ s) = None"
  shows "skips f (param_piece k v) w"
proof -
  have other: "skips f u w" if "CHR ''<'' \<notin> set u" for u w using skips_other [OF assms(1,2)] assms(3) that by simp
  have 1: "skips f ''<parameter='' (k @ CHR ''>'' # s)" for s
    using assms(7) [of s] other [of "''parameter=''" "k @ CHR ''>'' # s"] by (simp add: skips_Cons)
  have 2: "skips f ''</parameter>'' s" for s
    using assms(8) [of s] other [of "''/parameter>''" s] by (simp add: skips_Cons)
  have 3: "skips f v (CHR ''<'' # s)" for s by (rule skips_free [OF assms(1) assms(5) assms(4,2)])
  have "skips f (k @ ''>'') s" for s using assms(6) by (intro other) simp
  moreover have "skips f [nl] s" for s by (intro other) simp
  ultimately show ?thesis
    using 1 [of "v @ ''</parameter>'' @ nl # w"] 2 [of "nl # w"] 3 [of "''/parameter>'' @ nl # w"]
    by (simp add: param_piece_def skips_append skips_Cons)
qed

lemma skips_params:
  assumes "\<And>k v w. (k, v) \<in> set kvs \<Longrightarrow> skips f (param_piece k v) w"
  shows "skips f (param_text kvs) w"
  using assms by (induction kvs arbitrary: w) (auto simp: skips_append)

lemma dropWhile_ident: "list_all identifier_char k \<Longrightarrow> takeWhile identifier_char (k @ CHR ''>'' # s) = k"
    "list_all identifier_char k \<Longrightarrow> dropWhile identifier_char (k @ CHR ''>'' # s) = CHR ''>'' # s"
  using identifier_plain [of "CHR ''>''"] by (induction k) auto

lemma bad_tag_none: "list_all identifier_char k \<Longrightarrow> bad_tag (''<parameter='' @ k @ CHR ''>'' # s) = None"
  by (simp only: bad_tag_def after_append option.case Let_def dropWhile_ident) (simp add: after_def)

lemma skips_bad_tag:
  assumes "list_all clean_param kvs"
  shows "skips bad_tag (param_text kvs) w"
proof (rule skips_params)
  fix k v w assume "(k, v) \<in> set kvs"
  then have c: "clean_param (k, v)" using assms by (simp add: list_all_iff)
  show "skips bad_tag (param_piece k v) w"
  proof (rule skips_piece)
    show "bad_tag (''<parameter='' @ k @ CHR ''>'' # s) = None" for s by (rule bad_tag_none [OF clean_param_free(5) [OF c]])
    show "CHR ''<'' \<notin> set k" using identifier_set [OF clean_param_free(5) [OF c]] by simp
    show "\<not> contains ''<parameter='' v" by (rule clean_param_free(1) [OF c])
  qed (simp_all add: bad_tag_def after_def)
qed

lemma skips_tag:
  assumes "list_all clean_param kvs" and "t \<in> {''<function='', ''</function>''}"
  shows "skips (after t) (param_text kvs) w"
proof (rule skips_params)
  fix k v w assume "(k, v) \<in> set kvs"
  then have c: "clean_param (k, v)" using assms(1) by (simp add: list_all_iff)
  show "skips (after t) (param_piece k v) w"
  proof (rule skips_piece)
    show "CHR ''<'' \<notin> set k" using identifier_set [OF clean_param_free(5) [OF c]] by simp
    show "\<not> contains t v" using clean_param_free(3,4) [OF c] assms(2) by auto
  qed (use assms(2) in \<open>auto simp: after_def\<close>)
qed

lemma normalize_params:
  assumes "list_all clean_param kvs" and "CHR ''<'' \<notin> set e"
  shows "normalize_parameter_tags (param_text kvs @ e) = param_text kvs @ e"
proof -
  have "skips bad_tag e []" by (rule skips_other [of "''<parameter=''"]) (simp_all add: assms(2))
  then have "search bad_tag (param_text kvs @ e) = None"
    using skips_bad_tag [OF assms(1)] by (intro search_none) (simp_all add: skips_append bad_tag_def after_def)
  then show ?thesis by (simp add: normalize_parameter_tags.simps)
qed

lemma param_matches_text:
  assumes "list_all clean_param kvs" and "CHR ''<'' \<notin> set e" and "CHR ''<'' \<notin> set e1"
  shows "param_matches (e1 @ param_text kvs @ e) = kvs"
  using assms(1,3)
proof (induction kvs arbitrary: e1)
  case Nil
  have "skips (tagged ''<parameter='' [] ''</parameter>'') (e1 @ e) []"
    by (rule skips_other [of "''<parameter=''"]) (simp_all add: assms(2) Nil.prems)
  then have "search (tagged ''<parameter='' [] ''</parameter>'') (e1 @ e) = None"
    by (intro search_none) (simp_all add: tagged_def after_def)
  then show ?case by (simp add: param_matches.simps)
next
  case (Cons p kvs)
  obtain k v where p: "p = (k, v)" by fastforce
  let ?f = "tagged ''<parameter='' [] ''</parameter>''" and ?rest = "nl # param_text kvs @ e"
  have c: "clean_param (k, v)" using Cons.prems p by simp
  have "skips (after ''</parameter>'') v (CHR ''<'' # s)" for s
    by (rule skips_free [of "''</parameter>''"]) (simp_all add: clean_param_free(2) [OF c])
  then have sk: "skips (after ''</parameter>'') v (''</parameter>'' @ ?rest)" by simp
  have "?f (''<parameter='' @ k @ ''>'' @ [] @ v @ ''</parameter>'' @ ?rest) = Some (k, v, ?rest)"
    by (rule tagged_here [OF _ _ _ sk]) (use identifier_set [OF clean_param_free(5) [OF c]] clean_param_free(6) [OF c] in auto)
  then have now: "?f (param_piece k v @ param_text kvs @ e) = Some (k, v, ?rest)" by (simp add: param_piece_def)
  have "skips ?f e1 (param_piece k v @ param_text kvs @ e)"
    by (rule skips_other [of "''<parameter=''"]) (simp_all add: Cons.prems)
  from search_skips [OF this] search_now [of ?f, OF now]
  have "search ?f (e1 @ param_piece k v @ param_text kvs @ e) = Some (e1, k, v, ?rest)" by simp
  moreover have "param_matches ([nl] @ param_text kvs @ e) = kvs"
    using Cons.prems by (intro Cons.IH) simp_all
  ultimately show ?case
    by (subst param_matches.simps) (simp add: p)
qed

lemma contains_search: "p \<noteq> [] \<Longrightarrow> contains p s \<longleftrightarrow> search (after p) s \<noteq> None"
  using split_once_None [of p s] split_once_search [of p s] by auto

lemma not_contains_lead:
  assumes "\<not> contains p s" and "p \<noteq> []" and "nl \<notin> set p"
  shows "\<not> contains p (dropWhile is_space (s @ [nl, nl]))"
proof -
  have "skips (after p) s [nl, nl]" by (rule skips_free [OF _ assms(1)]) (use assms(2,3) in \<open>auto dest: list.set_sel(2)\<close>)
  moreover have "skips (after p) [nl, nl] []" by (rule skips_other [of p]) (use assms(2,3) in \<open>auto simp: neq_Nil_conv\<close>)
  moreover have "after p [] = None" using assms(2) by (simp add: after_def)
  ultimately have "\<not> contains p (s @ [nl, nl])"
    using search_none [of "after p" "s @ [nl, nl]"] assms(2) by (simp add: contains_search skips_append)
  then show ?thesis
    using contains_appendr [of p "dropWhile is_space (s @ [nl, nl])" "takeWhile is_space (s @ [nl, nl])"] by auto
qed

definition call_text :: "string \<Rightarrow> (string \<times> string) list \<Rightarrow> string \<Rightarrow> string" where
  "call_text name kvs fin = ''<function='' @ name @ ''>'' @ [nl] @ param_text kvs @ fin"

text \<open>How the text of the model may end: with the end mark, before it, or in the middle of it.\<close>

definition call_ends :: "string list" where
  "call_ends = [''</function>'', [], ''</'']"

lemma call_once:
  assumes "\<not> contains ''<function='' pre" and "CHR ''<'' \<notin> set name" and "list_all clean_param kvs" and "fin \<in> set call_ends"
  shows "occurs_once ''<function='' (pre @ call_text name kvs fin)"
    and "split_once ''<function='' (pre @ call_text name kvs fin) = Some (pre, name @ ''>'' @ [nl] @ param_text kvs @ fin)"
proof -
  let ?rest = "name @ ''>'' @ [nl] @ param_text kvs @ fin"
  have "skips (after ''<function='') pre (CHR ''<'' # ''function='' @ ?rest)"
    by (rule skips_free [of "''<function=''"]) (simp_all add: assms(1))
  then have "skips (after ''<function='') pre (''<function='' @ ?rest)" by simp
  from split_once_skips [OF _ this]
  show s: "split_once ''<function='' (pre @ call_text name kvs fin) = Some (pre, ?rest)" by (simp add: call_text_def)
  have n: "skips (after ''<function='') name w" for w by (rule skips_other [of "''<function=''"]) (simp_all add: assms(2))
  have f: "skips (after ''<function='') fin []" using assms(4) by (auto simp: call_ends_def skips_Cons after_def)
  have "skips (after ''<function='') ?rest []"
    using n f skips_tag [OF assms(3), of "''<function=''"] by (simp add: skips_append skips_Cons) (simp add: after_def)
  then have "\<not> contains ''<function='' ?rest"
    using search_none [of "after ''<function=''" ?rest] by (simp add: contains_search after_def)
  with s show "occurs_once ''<function='' (pre @ call_text name kvs fin)" by (simp add: occurs_once_def)
qed

lemma call_matched:
  assumes "\<not> contains ''<function='' pre" and "name \<noteq> []" and "CHR ''<'' \<notin> set name" and "CHR ''>'' \<notin> set name"
    and "list_all clean_param kvs" and "fin \<in> set call_ends"
  shows "\<exists>e. CHR ''<'' \<notin> set e \<and> fn_match (fix_stopword (pre @ call_text name kvs fin)) = Some (name, param_text kvs @ e)
    \<and> before_call (fix_stopword (pre @ call_text name kvs fin)) = strip pre"
proof -
  note once = call_once [OF assms(1,3,5,6)]
  obtain e rest where fx: "fix_stopword (pre @ call_text name kvs fin) = pre @ call_text name kvs (e @ ''</function>'' @ rest)"
    and e: "CHR ''<'' \<notin> set e"
  proof -
    let ?x = "pre @ call_text name kvs fin"
    have fs: "fix_stopword ?x = (if suffix ''</'' ?x then rstrip ?x @ ''function>'' else ?x @ [nl] @ ''</function>'')"
      using once(1) by (simp add: fix_stopword_def)
    consider "fin = ''</function>''" | "fin = []" | "fin = ''</''" using assms(6) by (auto simp: call_ends_def)
    then show thesis
    proof cases
      case 1
      have "\<not> suffix ''</'' ?x" by (auto simp: 1 call_text_def suffix_def append_eq_append_conv2 Cons_eq_append_conv dest!: arg_cong [of _ _ rev])
      then show thesis using fs by (intro that [of "[]" "[nl] @ ''</function>''"]) (simp_all add: 1 call_text_def)
    next
      case 2
      have "last ?x = nl"
        by (cases kvs rule: rev_cases) (simp_all add: 2 call_text_def param_text_def param_piece_def split: prod.split)
      then have "\<not> suffix ''</'' ?x" by (auto simp: suffix_def)
      then show thesis using fs by (intro that [of "[nl]" "[]"]) (simp_all add: 2 call_text_def)
    next
      case 3
      have "last ?x = CHR ''/''" by (simp add: 3 call_text_def)
      then have "rstrip ?x = ?x" by (intro rstrip_id) (simp add: is_space_def code_def)
      moreover have "suffix ''</'' ?x" by (simp add: 3 call_text_def suffix_def)
      ultimately show thesis using fs by (intro that [of "[]" "[]"]) (simp_all add: 3 call_text_def)
    qed
  qed
  let ?t = "call_text name kvs (e @ ''</function>'' @ rest)"
  have "skips (after ''</function>'') e (''</function>'' @ rest)" by (rule skips_other [of "''</function>''"]) (simp_all add: e)
  then have "skips (after ''</function>'') (param_text kvs @ e) (''</function>'' @ rest)"
    using skips_tag [OF assms(5), of "''</function>''"] by (simp add: skips_append)
  from tagged_here [OF assms(2,4) _ this, of "''<function=''" "[nl]"]
  have now: "tagged ''<function='' [nl] ''</function>'' ?t = Some (name, param_text kvs @ e, rest)" by (simp add: call_text_def)
  have "skips (tagged ''<function='' [nl] ''</function>'') pre (CHR ''<'' # ''function='' @ name @ ''>'' @ [nl] @ param_text kvs @ e @ ''</function>'' @ rest)"
    by (rule skips_free [of "''<function=''"]) (simp_all add: assms(1))
  then have sk: "skips (tagged ''<function='' [nl] ''</function>'') pre ?t" by (simp add: call_text_def)
  have m: "fn_match (pre @ ?t) = Some (name, param_text kvs @ e)"
    using search_skips [OF sk] search_now [where f = "tagged ''<function='' [nl] ''</function>''", OF now] by (simp add: fn_match_def)
  have "skips (after ''<function='') pre (CHR ''<'' # ''function='' @ name @ ''>'' @ [nl] @ param_text kvs @ e @ ''</function>'' @ rest)"
    by (rule skips_free [of "''<function=''"]) (simp_all add: assms(1))
  then have "split_once ''<function='' (pre @ ?t) = Some (pre, name @ ''>'' @ [nl] @ param_text kvs @ e @ ''</function>'' @ rest)"
    using split_once_skips [of "''<function=''" pre "name @ ''>'' @ [nl] @ param_text kvs @ e @ ''</function>'' @ rest"] by (simp add: call_text_def)
  then have "before_call (pre @ ?t) = strip pre" by (simp add: before_call_def)
  with m e fx show ?thesis by auto
qed

section \<open>A call read back\<close>

definition string_args :: "(string \<times> string) list \<Rightarrow> payload" where
  "string_args kvs = map (\<lambda>(k, v). (k, PStr v)) kvs"

lemma string_args_keys [simp]: "map fst (string_args kvs) = map fst kvs"
  by (auto simp: string_args_def)

text \<open>What the tool says of a parameter lets a text through.\<close>

definition takes_text :: "tool_param \<Rightarrow> string \<times> string \<Rightarrow> bool" where
  "takes_text tool p \<longleftrightarrow> (\<exists>ps d info. fn_parameters tool = Some ps \<and> tp_properties ps = Some d \<and> dict_get d (fst p) = Some info
     \<and> dict_get_default info ''type'' (PStr ''string'') \<notin> {PStr ''integer'', PStr ''array''}
     \<and> (case dict_get info ''enum'' of None \<Rightarrow> True | Some values \<Rightarrow> PStr (snd p) \<in> set (list_val values)))"

definition required_of :: "tool_param \<Rightarrow> string list" where
  "required_of tool = (case fn_parameters tool of None \<Rightarrow> [] | Some p \<Rightarrow> (case tp_required p of None \<Rightarrow> [] | Some r \<Rightarrow> r))"

definition clean_call :: "tool_param list \<Rightarrow> string \<Rightarrow> (string \<times> string) list \<Rightarrow> bool" where
  "clean_call tools name kvs \<longleftrightarrow> name \<noteq> [] \<and> CHR ''<'' \<notin> set name \<and> CHR ''>'' \<notin> set name
     \<and> list_all clean_param kvs \<and> distinct (map fst kvs)
     \<and> (\<exists>tool. find (\<lambda>t. tool_type t = ''function'' \<and> fn_name t = name) tools = Some tool
          \<and> list_all (takes_text tool) kvs \<and> set (required_of tool) \<subseteq> set (map fst kvs))"

lemma check_param_text:
  assumes "takes_text tool (k, s)"
  shows "check_param env name tool k s = Inr (PStr s)"
proof -
  obtain ps d info where t: "fn_parameters tool = Some ps" "tp_properties ps = Some d" "dict_get d k = Some info"
    and ty: "dict_get_default info ''type'' (PStr ''string'') \<noteq> PStr ''integer''" "dict_get_default info ''type'' (PStr ''string'') \<noteq> PStr ''array''"
    and e: "case dict_get info ''enum'' of None \<Rightarrow> True | Some values \<Rightarrow> PStr s \<in> set (list_val values)"
    using assms unfolding takes_text_def fst_conv snd_conv by blast
  have "k \<in> set (dict_keys d)" using dict_get_SomeD [OF t(3)] by force
  moreover have "param_value env k (Some info) s = Inr (PStr s)" using ty by (simp add: param_value_def)
  ultimately show ?thesis using t e by (auto simp: check_param_def Let_def split: option.splits)
qed

lemma collect_params_text:
  assumes "list_all (takes_text tool) kvs" and "distinct (map fst kvs)" and "set (dict_keys params) \<inter> set (map fst kvs) = {}"
  shows "collect_params env name tool params kvs = Inr (params @ string_args kvs)"
  using assms
proof (induction kvs arbitrary: params)
  case (Cons p kvs)
  obtain k s where p: "p = (k, s)" by fastforce
  have "k \<notin> set (dict_keys params)" using Cons.prems(3) p by auto
  then have "dict_set k (PStr s) params = params @ [(k, PStr s)]" by (rule dict_set_fresh)
  moreover have "collect_params env name tool (params @ [(k, PStr s)]) kvs = Inr ((params @ [(k, PStr s)]) @ string_args kvs)"
    using Cons.prems p by (intro Cons.IH) auto
  ultimately show ?case using Cons.prems(1) by (simp add: p check_param_text string_args_def)
qed (simp add: string_args_def)

lemma parse_clean_call:
  assumes "clean_call tools name kvs" and "CHR ''<'' \<notin> set e"
  shows "parse_call env tools n (name, param_text kvs @ e) = Inr (new_call env n name (string_args kvs))"
proof -
  from assms(1) obtain tool where c: "list_all clean_param kvs" "distinct (map fst kvs)"
    and f: "find (\<lambda>t. tool_type t = ''function'' \<and> fn_name t = name) tools = Some tool"
    and t: "list_all (takes_text tool) kvs" "set (required_of tool) \<subseteq> set (map fst kvs)"
    unfolding clean_call_def by blast
  have m: "param_matches (normalize_parameter_tags (param_text kvs @ e)) = kvs"
    using param_matches_text [OF c(1) assms(2), of "[]"] by (simp add: normalize_params [OF c(1) assms(2)])
  have "filter (\<lambda>k. k \<notin> set (map fst kvs)) (required_of tool) = []" using t(2) by (auto simp: filter_empty_conv)
  then have "extract_and_validate_params env tool kvs name = Inr (string_args kvs)"
    using collect_params_text [OF t(1) c(2), of "[]" env name]
    by (simp add: extract_and_validate_params_def required_of_def Let_def flip: string_args_keys)
  then show ?thesis by (simp add: parse_call_def f m)
qed

lemma restored_call:
  assumes "clean_call tools name kvs" and "\<not> contains ''<function='' s" and "fin \<in> set call_ends"
  shows "restored_assistant env tools n m (Plain (dropWhile is_space (s @ [nl, nl]) @ call_text name kvs fin))
    = Inr ((role_message ''assistant'' (Plain (strip s)))\<lparr>fm_tool_calls := Some [new_call env n name (string_args kvs)]\<rparr>, n + 1)"
proof -
  let ?pre = "dropWhile is_space (s @ [nl, nl])"
  have c: "name \<noteq> []" "CHR ''<'' \<notin> set name" "CHR ''>'' \<notin> set name" "list_all clean_param kvs"
    using assms(1) by (auto simp: clean_call_def)
  have "\<not> contains ''<function='' ?pre" by (rule not_contains_lead [OF assms(2)]) simp_all
  from call_matched [OF this c assms(3)] obtain e where e: "CHR ''<'' \<notin> set e"
    "fn_match (fix_stopword (?pre @ call_text name kvs fin)) = Some (name, param_text kvs @ e)"
    "before_call (fix_stopword (?pre @ call_text name kvs fin)) = strip ?pre" by blast
  have "strip ?pre = strip s"
  proof -
    have "lstrip ?pre = lstrip (s @ [nl, nl])" by (simp add: lstrip_def)
    moreover have "rstrip (lstrip (s @ [nl, nl])) = rstrip (lstrip s)"
    proof (cases "lstrip s = []")
      case True
      then have "\<forall>c \<in> set s. is_space c" by (simp add: lstrip_def dropWhile_eq_Nil_conv)
      moreover have "is_space nl" by (simp add: is_space_def code_def)
      ultimately have "lstrip (s @ [nl, nl]) = []" by (auto simp: lstrip_def dropWhile_eq_Nil_conv)
      with True show ?thesis by simp
    next
      case False
      then have "lstrip (s @ [nl, nl]) = lstrip s @ [nl, nl]"
        by (auto simp: lstrip_def dropWhile_eq_Nil_conv dropWhile_append)
      moreover have "is_space nl" by (simp add: is_space_def code_def)
      ultimately show ?thesis by (simp add: rstrip_def)
    qed
    ultimately show ?thesis by (simp add: strip_def)
  qed
  then show ?thesis using e(2,3) parse_clean_call [OF assms(1) e(1)] by (simp add: restored_assistant_def Let_def)
qed

text \<open>A call that the model was shown as text is read back as the same call, whether the model repeats the end mark, stops before it or in the
  middle of it; and what was said before the call is kept.\<close>

theorem call_read_back:
  assumes "clean_call tools name kvs" and "\<not> contains ''<function='' s" and "fin \<in> set call_ends"
  shows "restored_assistant env tools n m (Plain (dropWhile is_space (s @ [nl, nl]) @ call_text name kvs fin))
    = Inr ((role_message ''assistant'' (Plain (strip s)))\<lparr>fm_tool_calls := Some [new_call env n name (string_args kvs)]\<rparr>, n + 1)"
  using assms by (rule restored_call)

section \<open>Conversations\<close>

lemma split_once_end:
  assumes "\<not> contains p (a @ butlast p)" and "p \<noteq> []"
  shows "split_once p (a @ p @ b) = Some (a, b)"
proof (rule split_once_skips [OF assms(2)])
  show "skips (after p) a (p @ b)"
    unfolding skips_def
  proof (intro allI impI)
    fix i assume i: "i < length a"
    have "\<not> prefix p (drop i a @ p @ b)"
    proof
      have e: "drop i a @ p @ b = (drop i a @ butlast p) @ last p # b" using assms(2) by simp
      assume "prefix p (drop i a @ p @ b)"
      then have "prefix p (drop i a @ butlast p)"
        using i unfolding e by (rule_tac prefix_length_prefix [OF _ prefixI [OF refl]]) simp_all
      then have "contains p (drop i a @ butlast p)" by (auto simp: contains_iff prefix_def) (metis append_Nil)
      then have "contains p (take i a @ drop i a @ butlast p)" by (rule contains_appendr)
      with assms(1) show False by (metis append.assoc append_take_drop_id)
    qed
    then show "after p (drop i a @ p @ b) = None" by (simp add: after_def)
  qed
qed

lemma replace_first_end:
  assumes "\<not> contains p (a @ butlast p)" and "p \<noteq> []"
  shows "replace_first p [] (a @ p) = a"
  using split_once_end [OF assms, of "[]"] by (simp add: replace_first_def)

lemma replace_first_start: "p \<noteq> [] \<Longrightarrow> replace_first p [] (p @ s) = s"
  using split_once_skips [of p "[]" s] by (simp add: replace_first_def)

lemma example_suffix_ne: "IN_CONTEXT_LEARNING_EXAMPLE_SUFFIX \<noteq> []"
  by (simp add: IN_CONTEXT_LEARNING_EXAMPLE_SUFFIX_def)

lemma system_suffix_ne: "system_prompt_suffix d \<noteq> []"
  by (simp add: system_prompt_suffix_def SYSTEM_PROMPT_SUFFIX_START_def)

lemma without_example_added:
  assumes "\<not> contains IN_CONTEXT_LEARNING_EXAMPLE_SUFFIX (s @ butlast IN_CONTEXT_LEARNING_EXAMPLE_SUFFIX)"
  shows "without_example ex (if ex = [] then s else ex @ s @ IN_CONTEXT_LEARNING_EXAMPLE_SUFFIX) = s"
proof (cases "ex = []")
  case True
  have "\<not> suffix IN_CONTEXT_LEARNING_EXAMPLE_SUFFIX s"
  proof
    assume "suffix IN_CONTEXT_LEARNING_EXAMPLE_SUFFIX s"
    then have "contains IN_CONTEXT_LEARNING_EXAMPLE_SUFFIX s" by (auto simp: suffix_def contains_iff) (metis append_Nil2)
    with assms show False by (simp add: contains_append)
  qed
  moreover have "replace_first [] [] s = s" by (cases s) (simp_all add: replace_first_def)
  ultimately show ?thesis using True by (simp add: without_example_def)
next
  case False
  have "suffix IN_CONTEXT_LEARNING_EXAMPLE_SUFFIX (s @ IN_CONTEXT_LEARNING_EXAMPLE_SUFFIX)" by (simp add: suffix_def)
  then show ?thesis
    using False replace_first_start [OF False] replace_first_end [OF assms example_suffix_ne] by (simp add: without_example_def)
qed

lemma result_prefix_match:
  assumes "\<not> contains ('']:'' @ [nl]) name"
  shows "result_match (result_prefix name @ s) = Some (name, s)"
proof -
  have "skips (after ('']:'' @ [nl])) name (CHR '']'' # '':'' @ nl # s)" by (rule skips_free [OF _ assms]) simp_all
  then have "split_once ('']:'' @ [nl]) (name @ ('']:'' @ [nl]) @ s) = Some (name, s)" by (intro split_once_skips) simp_all
  then have "result_at (result_prefix name @ s) = Some (name, s)" by (simp add: result_at_def result_prefix_def after_def)
  from search_now [where f = result_at, OF this] show ?thesis by (simp add: result_match_def)
qed

text \<open>Messages whose parts do not look like something else: no text of the user that reads like a result of a tool, no call in the text of the
  model outside its tool call, one call with texts as arguments, which JSON writes and reads back.\<close>

definition tool_call_of :: "fn_env \<Rightarrow> string \<Rightarrow> (string \<times> string) list \<Rightarrow> payload \<Rightarrow> bool" where
  "tool_call_of env name kvs tc \<longleftrightarrow> ''id'' \<in> set (dict_keys tc) \<and> dict_get tc ''type'' = Some (PStr ''function'')
     \<and> (\<exists>args. dict_get tc ''function'' = Some (PDict [(''name'', PStr name), (''arguments'', PStr args)])
          \<and> fc_loads env args = Some (PDict (string_args kvs)))
     \<and> fc_loads env (fc_dumps env (PDict (string_args kvs))) = Some (PDict (string_args kvs))"

definition clean_message :: "fn_env \<Rightarrow> tool_param list \<Rightarrow> string \<Rightarrow> bool \<Rightarrow> fn_message \<Rightarrow> bool" where
  "clean_message env tools sfx met m \<longleftrightarrow> (\<exists>s. fm_content m = Plain s \<and>
     (fm_role m = ''system'' \<and> \<not> contains sfx (s @ butlast sfx)
      \<or> fm_role m = ''user'' \<and> result_match s = None
          \<and> (\<not> met \<longrightarrow> \<not> contains IN_CONTEXT_LEARNING_EXAMPLE_SUFFIX (s @ butlast IN_CONTEXT_LEARNING_EXAMPLE_SUFFIX))
      \<or> fm_role m = ''assistant'' \<and> fm_tool_calls m = None \<and> fn_match (fix_stopword s) = None
      \<or> fm_role m = ''assistant'' \<and> strip s = s \<and> \<not> contains ''<function='' s
          \<and> (\<exists>tc name kvs. fm_tool_calls m = Some [tc] \<and> tool_call_of env name kvs tc \<and> clean_call tools name kvs)
      \<or> fm_role m = ''tool'' \<and> met \<and> strip s = s \<and> \<not> fm_cache_control m
          \<and> (\<exists>name. fm_name m = Some name \<and> \<not> contains ('']:'' @ [nl]) name)))"

fun clean_messages :: "fn_env \<Rightarrow> tool_param list \<Rightarrow> string \<Rightarrow> bool \<Rightarrow> fn_message list \<Rightarrow> bool" where
  "clean_messages env tools sfx met [] = True"
| "clean_messages env tools sfx met (m # ms) =
     (clean_message env tools sfx met m \<and> clean_messages env tools sfx (met \<or> fm_role m = ''user'') ms)"

text \<open>The same message up to the ids of tool calls; arguments are compared as values.\<close>

definition calls_of :: "fn_env \<Rightarrow> fn_message \<Rightarrow> (pyval \<times> pyval option) list" where
  "calls_of env m = map (\<lambda>tc. (field_of (dict_of tc ''function'') ''name'', fc_loads env (text_of (dict_of tc ''function'') ''arguments'')))
     (case fm_tool_calls m of None \<Rightarrow> [] | Some tcs \<Rightarrow> tcs)"

definition same_but_ids :: "fn_env \<Rightarrow> fn_message \<Rightarrow> fn_message \<Rightarrow> bool" where
  "same_but_ids env m m' \<longleftrightarrow> fm_role m' = fm_role m \<and> fm_content m' = fm_content m
     \<and> (fm_role m = ''tool'' \<longrightarrow> fm_name m' = fm_name m) \<and> (fm_role m = ''assistant'' \<longrightarrow> calls_of env m' = calls_of env m)"

lemma tool_call_shown:
  assumes "tool_call_of env name kvs tc"
  shows "tool_call_text env tc = Inr (call_text name kvs ''</function>'')"
proof -
  obtain args where a: "''id'' \<in> set (dict_keys tc)" "dict_get tc ''type'' = Some (PStr ''function'')"
      "dict_get tc ''function'' = Some (PDict [(''name'', PStr name), (''arguments'', PStr args)])"
    and l: "fc_loads env args = Some (PDict (string_args kvs))" using assms by (auto simp: tool_call_of_def)
  have k: "''type'' \<in> set (dict_keys tc)" "''function'' \<in> set (dict_keys tc)"
    using a(2,3) by (metis dict_get_None_iff option.distinct(1))+
  have p: "concat (map (\<lambda>(k, v). ''<parameter='' @ k @ ''>'' @ (case v of PList _ \<Rightarrow> fc_dumps env v | PDict _ \<Rightarrow> fc_dumps env v
      | _ \<Rightarrow> py_str (fc_repr env) v) @ ''</parameter>'' @ [nl]) (string_args kvs)) = param_text kvs"
    by (induction kvs) (auto simp: string_args_def param_piece_def)
  show ?thesis using a k l p
    by (simp add: tool_call_text_def field_of_def dict_get_default_def arg_at_def call_text_def)
qed

lemma shown_and_read_back:
  assumes "clean_message env tools sfx met m" and "sfx \<noteq> []"
  shows "\<exists>p m'. \<exists>n'. plain_message_of env sfx ex True all met m = Inr (p, met \<or> fm_role m = ''user'')
    \<and> restored_message env sfx ex tools met n p = Inr (m', met \<or> fm_role m = ''user'', n') \<and> same_but_ids env m m'"
proof -
  obtain s where s: "fm_content m = Plain s" using assms(1) by (auto simp: clean_message_def)
  consider "fm_role m = ''system''" "\<not> contains sfx (s @ butlast sfx)"
    | "fm_role m = ''user''" "result_match s = None"
        "\<not> met \<longrightarrow> \<not> contains IN_CONTEXT_LEARNING_EXAMPLE_SUFFIX (s @ butlast IN_CONTEXT_LEARNING_EXAMPLE_SUFFIX)"
    | "fm_role m = ''assistant''" "fm_tool_calls m = None" "fn_match (fix_stopword s) = None"
    | tc name kvs where "fm_role m = ''assistant''" "strip s = s" "\<not> contains ''<function='' s" "fm_tool_calls m = Some [tc]"
        "tool_call_of env name kvs tc" "clean_call tools name kvs"
    | name where "fm_role m = ''tool''" "met" "strip s = s" "\<not> fm_cache_control m" "fm_name m = Some name" "\<not> contains ('']:'' @ [nl]) name"
    using assms(1) s by (auto simp: clean_message_def)
  then show ?thesis
  proof cases
    case 1
    then show ?thesis using s split_once_end [OF 1(2) assms(2), of "[]"]
      by (simp add: plain_message_of_def plain_system_def restored_message_def present_def restored_system_def Let_def same_but_ids_def role_message_def)
  next
    case 2
    show ?thesis
    proof (cases met)
      case True
      then show ?thesis using 2 s
        by (simp add: plain_message_of_def restored_message_def present_def user_result_def Let_def same_but_ids_def role_message_def)
    next
      case False
      with 2(3) have "without_example ex (if ex = [] then s else ex @ s @ IN_CONTEXT_LEARNING_EXAMPLE_SUFFIX) = s"
        by (intro without_example_added) simp
      then show ?thesis using 2(1,2) s False
        by (auto simp: plain_message_of_def plain_user_def restored_message_def present_def restored_user_def user_result_def Let_def
            same_but_ids_def role_message_def split: if_splits)
    qed
  next
    case 3
    then show ?thesis using s
      by (simp add: plain_message_of_def restored_message_def present_def restored_assistant_def Let_def same_but_ids_def role_message_def calls_of_def)
  next
    case (4 tc name kvs)
    let ?text = "dropWhile is_space (s @ [nl, nl]) @ call_text name kvs ''</function>''"
    have "\<not> is_space (CHR ''<'')" by (simp add: is_space_def code_def)
    from dropWhile_stop [of is_space, OF this, of "s @ [nl, nl]"]
    have "lstrip (s @ [nl, nl] @ call_text name kvs ''</function>'') = ?text" by (simp add: lstrip_def call_text_def)
    then have p: "plain_message_of env sfx ex True all met m = Inr (role_message ''assistant'' (Plain ?text), met)"
      using 4 s tool_call_shown [OF 4(5)] by (simp add: plain_message_of_def plain_call_def Let_def)
    have "restored_assistant env tools n (role_message ''assistant'' (Plain ?text)) (Plain ?text)
        = Inr ((role_message ''assistant'' (Plain (strip s)))\<lparr>fm_tool_calls := Some [new_call env n name (string_args kvs)]\<rparr>, n + 1)"
      by (rule restored_call [OF 4(6,3)]) (simp add: call_ends_def)
    then show ?thesis using p 4 s
      by (auto simp: restored_message_def present_def Let_def same_but_ids_def role_message_def calls_of_def tool_call_of_def new_call_def
          field_of_def dict_of_def text_of_def dict_get_default_def)
  next
    case (5 name)
    then show ?thesis using s
      by (simp add: plain_message_of_def plain_result_def restored_message_def present_def user_result_def result_prefix_match Let_def same_but_ids_def role_message_def)
  qed
qed

lemma clean_messages_back:
  assumes "clean_messages env tools sfx met ms" and "sfx \<noteq> []"
  shows "\<exists>ps out. plain_messages env sfx ex True all met ms = Inr ps \<and> restored_messages env sfx ex tools met n ps = Inr out
    \<and> list_all2 (same_but_ids env) ms out"
  using assms(1)
proof (induction ms arbitrary: met n)
  case (Cons m ms)
  let ?met = "met \<or> fm_role m = ''user''"
  have "clean_message env tools sfx met m" using Cons.prems by simp
  from shown_and_read_back [OF this assms(2), where ex = ex and all = all and n = n] obtain p m' n'
    where 1: "plain_message_of env sfx ex True all met m = Inr (p, ?met)" "restored_message env sfx ex tools met n p = Inr (m', ?met, n')"
      "same_but_ids env m m'" by blast
  moreover from Cons.IH [of ?met n'] Cons.prems obtain ps out where "plain_messages env sfx ex True all ?met ms = Inr ps"
      "restored_messages env sfx ex tools ?met n' ps = Inr out" "list_all2 (same_but_ids env) ms out" by auto
  ultimately show ?case by auto
qed simp

lemma plain_message_plain:
  "plain_message_of env sfx ex add all met m = Inr (p, met') \<Longrightarrow> fm_role p \<noteq> ''tool'' \<and> fm_tool_calls p = None"
  by (auto simp: plain_message_of_def role_message_def conversion_error_def split: if_splits)

lemma plain_messages_plain:
  "plain_messages env sfx ex add all met ms = Inr ps \<Longrightarrow> list_all (\<lambda>p. fm_role p \<noteq> ''tool'' \<and> fm_tool_calls p = None) ps"
proof (induction ms arbitrary: met ps)
  case (Cons m ms)
  from Cons.prems obtain p met' ps' where "plain_message_of env sfx ex add all met m = Inr (p, met')"
    and "plain_messages env sfx ex add all met' ms = Inr ps'" and "ps = p # ps'" by (auto split: prod.splits)
  with Cons.IH plain_message_plain show ?case by fastforce
qed simp


definition demo_shell_tool :: tool_param where
  "demo_shell_tool = \<lparr>tool_type = ''function'', fn_name = ''run'', fn_description = ''Run it'',
     fn_parameters = Some \<lparr>tp_properties = Some [(''command'', [(''type'', PStr ''string'')])], tp_required = Some [''command'']\<rparr>\<rparr>"

definition demo_fn_env :: fn_env where
  "demo_fn_env = \<lparr>fc_repr = (\<lambda>_. []), fc_loads = (\<lambda>_. Some (PDict [(''command'', PStr ''ls'')])), fc_dumps = (\<lambda>_. ''{}''), fc_int = (\<lambda>_. None),
     fc_set_text = (\<lambda>_. []), fc_list_text = (\<lambda>_. []), fc_raw_text = (\<lambda>_. []), fc_windows = False\<rparr>"

definition demo_fn_messages :: "fn_message list" where
  "demo_fn_messages =
     [role_message ''user'' (Plain ''Fix it''),
      (role_message ''assistant'' (Plain ''I look''))\<lparr>fm_tool_calls := Some [[(''id'', PStr ''c1''), (''type'', PStr ''function''),
        (''function'', PDict [(''name'', PStr ''run''), (''arguments'', PStr ''{}'')])]]\<rparr>,
      (role_message ''tool'' (Plain ''a.py''))\<lparr>fm_tool_call_id := Some ''c1'', fm_name := Some ''run''\<rparr>]"

lemma demo_clean_call: "clean_call [demo_shell_tool] ''run'' [(''command'', ''ls'')]"
  by (auto simp: clean_call_def clean_param_def identifier_char_def code_def demo_shell_tool_def takes_text_def required_of_def
      dict_get_default_def)

theorem call_read_back_witness:
  "restored_assistant demo_fn_env [demo_shell_tool] 1 (role_message ''assistant'' (Plain [])) (Plain (''I look'' @ [nl, nl] @ call_text ''run'' [(''command'', ''ls'')] []))
     = Inr ((role_message ''assistant'' (Plain ''I look''))\<lparr>fm_tool_calls := Some [new_call demo_fn_env 1 ''run'' [(''command'', PStr ''ls'')]]\<rparr>, 2)"
proof -
  have "strip ''I look'' = ''I look''" "dropWhile is_space (''I look'' @ [nl, nl]) = ''I look'' @ [nl, nl]" by code_simp+
  moreover have "string_args [(''command'', ''ls'')] = [(''command'', PStr ''ls'')]" by (simp add: string_args_def)
  ultimately show ?thesis
    using call_read_back [OF demo_clean_call, of "''I look''" "[]" demo_fn_env 1] by (simp add: call_ends_def numeral_2_eq_2)
qed


text \<open>What the marks cannot carry: a value that contains the end mark of a call is cut there, and what follows is lost.\<close>

theorem value_with_end_mark_is_cut:
  "map_sum exn_class (\<lambda>_. ()) (restored_assistant demo_fn_env [demo_shell_tool] 1 (role_message ''assistant'' (Plain []))
      (Plain (call_text ''run'' [(''command'', ''echo </function>'')] ''</function>''))) = Inl ''FunctionCallValidationError''"
  by code_simp

section \<open>One call for each message\<close>

text \<open>A serialised message as the converter reads it.\<close>

definition fn_of_payload :: "payload \<Rightarrow> fn_message" where
  "fn_of_payload d =
     (let word = (\<lambda>k. case dict_get d k of Some (PStr s) \<Rightarrow> Some s | _ \<Rightarrow> None) in
      \<lparr>fm_role = text_of d ''role'',
       fm_content = (case field_of d ''content'' of PStr s \<Rightarrow> Plain s | PList vs \<Rightarrow> Items (map dict_val vs) | v \<Rightarrow> NoContent v),
       fm_tool_calls = (case field_of d ''tool_calls'' of PList vs \<Rightarrow> Some (map dict_val vs) | _ \<Rightarrow> None),
       fm_tool_call_id = word ''tool_call_id'', fm_name = word ''name'', fm_cache_control = (''cache_control'' \<in> set (dict_keys d))\<rparr>)"

definition calls_in :: "fn_message \<Rightarrow> payload list" where
  "calls_in m = (case fm_tool_calls m of None \<Rightarrow> [] | Some tcs \<Rightarrow> tcs)"

definition result_of :: "payload \<Rightarrow> fn_message \<Rightarrow> bool" where
  "result_of tc r \<longleftrightarrow> fm_role r = ''tool'' \<and> fm_tool_call_id r = Some (call_id tc) \<and> calls_in r = []"

inductive answered :: "fn_message list \<Rightarrow> bool" where
  answered_Nil: "answered []"
| answered_plain: "calls_in m = [] \<Longrightarrow> fm_role m \<noteq> ''tool'' \<Longrightarrow> answered ms \<Longrightarrow> answered (m # ms)"
| answered_calls: "fm_role m = ''assistant'' \<Longrightarrow> list_all2 result_of (calls_in m) results \<Longrightarrow> distinct (map call_id (calls_in m))
    \<Longrightarrow> answered ms \<Longrightarrow> answered (m # results @ ms)"

text \<open>The same, and no message has more than one call.\<close>

definition single_answered :: "fn_message list \<Rightarrow> bool" where
  "single_answered ms \<longleftrightarrow> answered ms \<and> list_all (\<lambda>m. length (calls_in m) \<le> 1) ms"

definition held :: "fn_message \<Rightarrow> nat \<times> payload \<Rightarrow> fn_message" where
  "held m x = (role_message ''assistant'' (if fst x = 0 then fm_content m else Plain []))\<lparr>fm_tool_calls := Some [snd x]\<rparr>"

lemma hold_calls_list:
  assumes "distinct (map call_id tcs)" and "set (dict_keys p) \<inter> set (map call_id tcs) = {}"
  shows "fold (\<lambda>(i, tc) p. dict_set (call_id tc) (held m (i, tc)) p) (enumerate n tcs) p
    = p @ map (\<lambda>x. (call_id (snd x), held m x)) (enumerate n tcs)"
  using assms
proof (induction tcs arbitrary: n p)
  case (Cons tc tcs)
  have "dict_set (call_id tc) (held m (n, tc)) p = p @ [(call_id tc, held m (n, tc))]"
    using Cons.prems(2) by (intro dict_set_fresh) auto
  then show ?case using Cons.IH [of "p @ [(call_id tc, held m (n, tc))]" "Suc n"] Cons.prems by auto
qed simp

lemma hold_calls_eq: "distinct (map call_id tcs) \<Longrightarrow> hold_calls m tcs [] = map (\<lambda>x. (call_id (snd x), held m x)) (enumerate 0 tcs)"
  using hold_calls_list [of tcs "[]" m 0] by (simp add: hold_calls_def held_def split_def)

fun weave :: "fn_message \<Rightarrow> nat \<Rightarrow> payload list \<Rightarrow> fn_message list \<Rightarrow> fn_message list" where
  "weave m n (tc # tcs) (r # rs) = held m (n, tc) # r # weave m (Suc n) tcs rs"
| "weave m n _ _ = []"

lemma split_block:
  assumes "list_all2 result_of tcs rs" and "distinct (map call_id tcs)"
  shows "split_calls (rs @ ms) (map (\<lambda>x. (call_id (snd x), held m x)) (enumerate n tcs))
    = res_map (\<lambda>(out, p). (weave m n tcs rs @ out, p)) (split_calls ms [])"
  using assms
proof (induction tcs rs arbitrary: n rule: list_all2_induct)
  case Nil
  show ?case by (cases "split_calls ms []") (auto simp: res_map_def)
next
  case (Cons tc tcs r rs)
  have "call_id tc \<notin> set (dict_keys (map (\<lambda>x. (call_id (snd x), held m x)) (enumerate (Suc n) tcs)))"
    using Cons.prems by (auto simp: in_set_enumerate_eq)
  then have "dict_del (call_id tc) (map (\<lambda>x. (call_id (snd x), held m x)) (enumerate (Suc n) tcs))
      = map (\<lambda>x. (call_id (snd x), held m x)) (enumerate (Suc n) tcs)" by (rule dict_del_absent)
  moreover have "fm_role r = ''tool''" "fm_tool_call_id r = Some (call_id tc)" using Cons.hyps(1) by (simp_all add: result_of_def)
  ultimately show ?case using Cons.IH [of "Suc n"] Cons.prems
    by (cases "split_calls ms []") (auto simp: res_map_def)
qed

lemma weave_answered:
  assumes "list_all2 result_of tcs rs" and "single_answered ms"
  shows "single_answered (weave m n tcs rs @ ms)
    \<and> concat (map calls_in (weave m n tcs rs)) = tcs \<and> filter (\<lambda>m. fm_role m = ''tool'') (weave m n tcs rs) = rs"
  using assms(1)
proof (induction tcs rs arbitrary: n rule: list_all2_induct)
  case Nil
  then show ?case using assms(2) by simp
next
  case (Cons tc tcs r rs)
  let ?h = "held m (n, tc)"
  have h: "fm_role ?h = ''assistant''" "calls_in ?h = [tc]" by (simp_all add: held_def role_message_def calls_in_def)
  have "answered (?h # [r] @ weave m (Suc n) tcs rs @ ms)"
    using Cons h by (intro answered_calls) (auto simp: single_answered_def)
  then show ?case using Cons h by (auto simp: single_answered_def result_of_def)
qed

lemma split_calls_answered:
  assumes "answered ms"
  shows "\<exists>out. split_calls ms [] = Inr (out, []) \<and> single_answered out
    \<and> concat (map calls_in out) = concat (map calls_in ms)
    \<and> filter (\<lambda>m. fm_role m = ''tool'') out = filter (\<lambda>m. fm_role m = ''tool'') ms"
  using assms
proof induction
  case answered_Nil
  then show ?case by (simp add: single_answered_def answered.answered_Nil)
next
  case (answered_plain m ms)
  then obtain out where o: "split_calls ms [] = Inr (out, [])" "single_answered out" "concat (map calls_in out) = concat (map calls_in ms)"
    "filter (\<lambda>m. fm_role m = ''tool'') out = filter (\<lambda>m. fm_role m = ''tool'') ms" by blast
  have "split_calls (m # ms) [] = Inr (m # out, [])"
    using answered_plain(1,2) o(1) by (auto simp: calls_in_def Let_def split: option.splits list.splits)
  moreover have "single_answered (m # out)"
    using o(2) answered_plain(1,2) by (simp add: single_answered_def answered.answered_plain)
  ultimately show ?case using o answered_plain(1,2) by auto
next
  case (answered_calls m results ms)
  then obtain out where o: "split_calls ms [] = Inr (out, [])" "single_answered out" "concat (map calls_in out) = concat (map calls_in ms)"
    "filter (\<lambda>m. fm_role m = ''tool'') out = filter (\<lambda>m. fm_role m = ''tool'') ms" by blast
  have rs: "\<forall>r \<in> set results. fm_role r = ''tool'' \<and> calls_in r = []"
    using answered_calls(2) by (auto simp: list_all2_conv_all_nth result_of_def in_set_conv_nth)
  show ?case
  proof (cases "length (calls_in m) \<le> 1")
    case True
    have keep: "split_calls (results @ ms) [] = Inr (results @ out, [])"
    proof -
      have "\<forall>r \<in> set results. fm_tool_call_id r \<noteq> None"
        using answered_calls(2) by (auto simp: list_all2_conv_all_nth result_of_def in_set_conv_nth)
      with rs show ?thesis using o(1) by (induction results) (auto simp: Let_def)
    qed
    have "split_calls (m # results @ ms) [] = Inr (m # results @ out, [])"
      using True answered_calls(1) keep by (auto simp: calls_in_def Let_def split: option.splits list.splits)
    moreover have "single_answered (m # results @ out)"
      using o(2) True rs answered.answered_calls [OF answered_calls(1-3), of out] by (auto simp: single_answered_def list_all_iff)
    ultimately show ?thesis using o answered_calls(1) by auto
  next
    case False
    let ?tcs = "calls_in m"
    obtain tc1 tc2 tcs where t: "fm_tool_calls m = Some (tc1 # tc2 # tcs)" "?tcs = tc1 # tc2 # tcs"
      using False by (cases "fm_tool_calls m"; cases ?tcs; cases "tl ?tcs") (auto simp: calls_in_def)
    have "split_calls (m # results @ ms) [] = split_calls (results @ ms) (hold_calls m ?tcs [])"
      using answered_calls(1) t by simp
    also have "\<dots> = res_map (\<lambda>(out, p). (weave m 0 ?tcs results @ out, p)) (split_calls ms [])"
      unfolding hold_calls_eq [OF answered_calls(3)] by (rule split_block [OF answered_calls(2,3)])
    finally have "split_calls (m # results @ ms) [] = Inr (weave m 0 ?tcs results @ out, [])" using o(1) by simp
    moreover have "concat (map calls_in results) = []" "filter (\<lambda>m. fm_role m = ''tool'') results = results"
      using rs by (auto simp: filter_id_conv)
    ultimately show ?thesis using weave_answered [OF answered_calls(2) o(2), of m 0] o(3,4) answered_calls(1) by simp
  qed
qed

text \<open>When every call of a conversation is answered, splitting the messages that call several tools succeeds: afterwards each message
  calls at most one tool and is followed at once by its result, and no call and no result was lost, added or reordered.\<close>

theorem calls_split:
  assumes "answered ms"
  shows "\<exists>out. convert_from_multiple_tool_calls_to_single_tool_call_messages ms ignore_final = Inr out \<and> single_answered out
    \<and> concat (map calls_in out) = concat (map calls_in ms)
    \<and> filter (\<lambda>m. fm_role m = ''tool'') out = filter (\<lambda>m. fm_role m = ''tool'') ms"
  using split_calls_answered [OF assms]
  by (auto simp: convert_from_multiple_tool_calls_to_single_tool_call_messages_def)

section \<open>The conversation of the agent\<close>

lemma serialized_parts:
  assumes "serialize_message m = Inr d"
  shows "fm_role (fn_of_payload d) = m_role m" and "fm_tool_call_id (fn_of_payload d) = m_tool_call_id m"
    and "map call_id (calls_in (fn_of_payload d)) = map tc_id (case m_tool_calls m of None \<Rightarrow> [] | Some tcs \<Rightarrow> tcs)"
proof -
  obtain c where c: "add_tool_call_keys m c = Inr d" "dict_get c ''role'' = Some (PStr (m_role m))"
    "dict_get c ''tool_calls'' = None" "dict_get c ''tool_call_id'' = None"
    using assms by (auto simp: serialize_message_def list_serializer_def string_serializer_def Let_def split: if_splits)
  then show "fm_role (fn_of_payload d) = m_role m" "fm_tool_call_id (fn_of_payload d) = m_tool_call_id m"
    "map call_id (calls_in (fn_of_payload d)) = map tc_id (case m_tool_calls m of None \<Rightarrow> [] | Some tcs \<Rightarrow> tcs)"
    by (auto simp: add_tool_call_keys_def fn_of_payload_def Let_def text_of_def field_of_def dict_get_default_def calls_in_def call_id_def comp_def
        split: option.splits)
qed

lemma paired_answered:
  assumes "paired ms" and "list_all2 (\<lambda>m d. serialize_message m = Inr d) ms ds"
    and "\<forall>m \<in> set ms. \<forall>tcs. m_tool_calls m = Some tcs \<longrightarrow> distinct (map tc_id tcs)"
  shows "answered (map fn_of_payload ds)"
  using assms
proof (induction arbitrary: ds)
  case paired_Nil
  then show ?case by (simp add: answered_Nil)
next
  case (paired_plain m ms)
  then obtain d ds' where ds: "ds = d # ds'" "serialize_message m = Inr d" "list_all2 (\<lambda>m d. serialize_message m = Inr d) ms ds'"
    by (auto simp: list_all2_Cons1)
  have "calls_in (fn_of_payload d) = []" using serialized_parts(3) [OF ds(2)] paired_plain.hyps(1) by simp
  then show ?case
    using ds(1) serialized_parts(1) [OF ds(2)] paired_plain.hyps(2) paired_plain.IH [OF ds(3)] paired_plain.prems(2)
    by (auto intro!: answered.answered_plain)
next
  case (paired_calls m tcs results ms)
  then obtain d d1 d2 where ds: "ds = d # d1 @ d2" "serialize_message m = Inr d"
    "list_all2 (\<lambda>m d. serialize_message m = Inr d) results d1" "list_all2 (\<lambda>m d. serialize_message m = Inr d) ms d2"
    by (auto simp: list_all2_Cons1 list_all2_append1)
  have ids: "map call_id (calls_in (fn_of_payload d)) = map tc_id tcs"
    using serialized_parts(3) [OF ds(2)] paired_calls.hyps(2) by simp
  have "list_all2 result_of (calls_in (fn_of_payload d)) (map fn_of_payload d1)"
  proof (rule list_all2_all_nthI)
    show l: "length (calls_in (fn_of_payload d)) = length (map fn_of_payload d1)"
      using arg_cong [OF ids, of length] list_all2_lengthD [OF paired_calls.hyps(3)] list_all2_lengthD [OF ds(3)] by simp
    fix j assume j: "j < length (calls_in (fn_of_payload d))"
    then have n: "j < length tcs" "j < length results" "j < length d1"
      using arg_cong [OF ids, of length] list_all2_lengthD [OF paired_calls.hyps(3)] l by simp_all
    have a: "answers (tcs ! j) (results ! j)" and s: "serialize_message (results ! j) = Inr (d1 ! j)"
      using paired_calls.hyps(3) ds(3) n by (simp_all add: list_all2_conv_all_nth)
    have "call_id (calls_in (fn_of_payload d) ! j) = tc_id (tcs ! j)"
      using arg_cong [OF ids, of "\<lambda>x. x ! j"] j n(1) by simp
    then show "result_of (calls_in (fn_of_payload d) ! j) (map fn_of_payload d1 ! j)"
      using a n serialized_parts [OF s] by (simp add: result_of_def answers_def)
  qed
  moreover have "distinct (map call_id (calls_in (fn_of_payload d)))"
    using paired_calls.prems(2) paired_calls.hyps(2) ids by simp
  moreover have "fm_role (fn_of_payload d) = ''assistant''" using serialized_parts(1) [OF ds(2)] paired_calls.hyps(1) by simp
  ultimately have "answered (fn_of_payload d # map fn_of_payload d1 @ map fn_of_payload d2)"
    using paired_calls.IH [OF ds(4)] paired_calls.prems(2) by (intro answered.answered_calls) auto
  then show ?case by (simp add: ds(1))
qed

text \<open>C10. The conversation that the memory puts together can always be split: each message with several tool calls becomes messages with
  one call, each followed by its result, with the same calls in the same order.\<close>

theorem conversation_calls_split:
  assumes "fst (process_events cfg rp hist initial forgotten limit vision) = Inr ms" and "assistant_responses cfg"
    and "list_all2 (\<lambda>m d. serialize_message m = Inr d) ms ds"
  shows "\<exists>out. convert_from_multiple_tool_calls_to_single_tool_call_messages (map fn_of_payload ds) ignore_final = Inr out
    \<and> single_answered out \<and> concat (map calls_in out) = concat (map (calls_in \<circ> fn_of_payload) ds)"
proof -
  note shape = process_events_shape [OF assms(1,2)]
  have "answered (map fn_of_payload ds)" by (rule paired_answered [OF shape(1) assms(3)]) (use shape(3) in blast)
  from split_calls_answered [OF this] show ?thesis
    by (auto simp: convert_from_multiple_tool_calls_to_single_tool_call_messages_def)
qed

definition demo_two_calls :: "fn_message list" where
  "demo_two_calls =
     [role_message ''user'' (Plain ''Fix it''),
      (role_message ''assistant'' (Plain ''I look''))\<lparr>fm_tool_calls := Some [[(''id'', PStr ''c1'')], [(''id'', PStr ''c2'')]]\<rparr>,
      (role_message ''tool'' (Plain ''a.py''))\<lparr>fm_tool_call_id := Some ''c1'', fm_name := Some ''run''\<rparr>,
      (role_message ''tool'' (Plain ''b.py''))\<lparr>fm_tool_call_id := Some ''c2'', fm_name := Some ''run''\<rparr>]"

theorem calls_split_witness:
  "\<exists>out. convert_from_multiple_tool_calls_to_single_tool_call_messages demo_two_calls False = Inr out \<and> single_answered out
     \<and> length (filter (\<lambda>m. fm_role m = ''tool'') out) = 2"
proof -
  let ?m = "(role_message ''assistant'' (Plain ''I look''))\<lparr>fm_tool_calls := Some [[(''id'', PStr ''c1'')], [(''id'', PStr ''c2'')]]\<rparr>"
  let ?rs = "[(role_message ''tool'' (Plain ''a.py''))\<lparr>fm_tool_call_id := Some ''c1'', fm_name := Some ''run''\<rparr>,
      (role_message ''tool'' (Plain ''b.py''))\<lparr>fm_tool_call_id := Some ''c2'', fm_name := Some ''run''\<rparr>]"
  have "answered (?m # ?rs @ [])"
    by (rule answered_calls) (auto simp: role_message_def calls_in_def result_of_def call_id_def text_of_def field_of_def dict_get_default_def
        intro: answered.intros)
  then have "answered demo_two_calls"
    by (auto simp: demo_two_calls_def calls_in_def role_message_def intro: answered_plain)
  from calls_split [OF this, of False] show ?thesis
    by (auto simp: demo_two_calls_def role_message_def)
qed

theorem conversation_calls_split_witness:
  "\<exists>ms out. fst (process_events demo_memory (\<lambda>_. []) demo_conversation demo_task {} None False) = Inr ms
     \<and> convert_from_multiple_tool_calls_to_single_tool_call_messages (map (fn_of_payload \<circ> projr \<circ> serialize_message) ms) False = Inr out
     \<and> single_answered out"
proof -
  obtain ms events where r: "process_events demo_memory (\<lambda>_. []) demo_conversation demo_task {} None False = (Inr ms, events)"
    by (rule demo_conversation_run)
  have "(case fst (process_events demo_memory (\<lambda>_. []) demo_conversation demo_task {} None False) of Inl _ \<Rightarrow> False
      | Inr ms \<Rightarrow> list_all (\<lambda>m. \<not> isl (serialize_message m)) ms)" by code_simp
  then have "list_all2 (\<lambda>m d. serialize_message m = Inr d) ms (map (projr \<circ> serialize_message) ms)"
    using r by (auto simp: list_all2_map2 list.rel_refl_strong list_all_iff intro!: list.rel_refl_strong)
  from conversation_calls_split [OF _ demo_memory_assistant this, of "\<lambda>_. []" demo_conversation demo_task "{}" None False False] r
  show ?thesis by (auto simp: comp_assoc)
qed

end
