(* ===== verification/Py_Regex.thy ===== *)
theory Py_Regex
  imports Py_Str
begin

text \<open>
  The regular expressions of the program, as syntax trees over character classes, and Python's
  backtracking matcher: \<open>rx_match r z\<close> lists the positions at which a match of \<open>r\<close> from \<open>z\<close> can
  end, in the order the engine tries them (left alternative first, greedy repetition). A
  position is a zipper: the reversed text before it and the text after it, so that \<open>\b\<close> can look
  back. \<open>rx_search\<close> is \<open>re.search(...) is not None\<close>; \<open>rx_sub\<close> is \<open>re.sub\<close> for a pattern
  \<open>(group)rest\<close> and a replacement built from the group. Also \<open>fnmatch.fnmatch\<close> on POSIX.
\<close>

section \<open>Syntax\<close>

datatype rx =
    Eps
  | Cls "char \<Rightarrow> bool"
  | WordB                \<comment> \<open>\b\<close>
  | Seq rx rx
  | Alt rx rx
  | Star rx              \<comment> \<open>greedy\<close>

definition rx_plus :: "rx \<Rightarrow> rx" where "rx_plus r = Seq r (Star r)"
definition rx_opt :: "rx \<Rightarrow> rx" where "rx_opt r = Alt r Eps"

text \<open>A literal, matched up to case (\<open>re.IGNORECASE\<close>) or exactly.\<close>

fun lit_ic :: "string \<Rightarrow> rx" where
  "lit_ic [] = Eps"
| "lit_ic (c # cs) = Seq (Cls (\<lambda>x. lower_char x = lower_char c)) (lit_ic cs)"

fun lit :: "string \<Rightarrow> rx" where
  "lit [] = Eps"
| "lit (c # cs) = Seq (Cls (\<lambda>x. x = c)) (lit cs)"

fun rx_seqs :: "rx list \<Rightarrow> rx" where
  "rx_seqs [] = Eps"
| "rx_seqs (r # rs) = Seq r (rx_seqs rs)"

fun rx_alts :: "rx list \<Rightarrow> rx" where
  "rx_alts [] = Cls (\<lambda>_. False)"
| "rx_alts [r] = r"
| "rx_alts (r # rs) = Alt r (rx_alts rs)"

abbreviation rx_spaces :: rx where "rx_spaces \<equiv> rx_plus (Cls is_space)"

section \<open>Matching\<close>

type_synonym zipper = "string \<times> string"

text \<open>\<open>\w\<close>: alphanumeric characters and the underscore.\<close>

definition is_word :: "char \<Rightarrow> bool" where
  "is_word c = (let n = code c in is_alpha c \<or> is_digit c \<or> n = 95 \<or>
     n = 178 \<or> n = 179 \<or> n = 185 \<or> (188 \<le> n \<and> n \<le> 190))"

fun word_boundary :: "zipper \<Rightarrow> bool" where
  "word_boundary (l, s) =
     ((l \<noteq> [] \<and> is_word (hd l)) \<noteq> (s \<noteq> [] \<and> is_word (hd s)))"

function rx_match :: "rx \<Rightarrow> zipper \<Rightarrow> zipper list" where
  "rx_match Eps z = [z]"
| "rx_match (Cls p) z = (case z of (l, []) \<Rightarrow> [] | (l, c # cs) \<Rightarrow> if p c then [(c # l, cs)] else [])"
| "rx_match WordB z = (if word_boundary z then [z] else [])"
| "rx_match (Seq r1 r2) z = concat (map (rx_match r2) (rx_match r1 z))"
| "rx_match (Alt r1 r2) z = rx_match r1 z @ rx_match r2 z"
| "rx_match (Star r) z =
     concat (map (rx_match (Star r)) (filter (\<lambda>z'. length (snd z') < length (snd z)) (rx_match r z))) @ [z]"
  by pat_completeness auto
termination
  by (relation "measures [\<lambda>(r, z). size r, \<lambda>(r, z). length (snd z)]") auto

declare rx_match.simps(6) [simp del]

fun rx_search_from :: "rx \<Rightarrow> string \<Rightarrow> string \<Rightarrow> bool" where
  "rx_search_from r l [] = (rx_match r (l, []) \<noteq> [])"
| "rx_search_from r l (c # cs) = (rx_match r (l, c # cs) \<noteq> [] \<or> rx_search_from r (c # l) cs)"

definition rx_search :: "rx \<Rightarrow> string \<Rightarrow> bool" where
  "rx_search r s = rx_search_from r [] s"

text \<open>The first match of \<open>(g)r\<close> at a position: the text of the group, the text of the whole match,
  and the position after it.\<close>

definition first_match :: "rx \<Rightarrow> rx \<Rightarrow> zipper \<Rightarrow> (string \<times> zipper) option" where
  "first_match g r z =
     (case concat (map (\<lambda>z1. map (\<lambda>z2. (take (length (snd z) - length (snd z1)) (snd z), z2))
                         (rx_match r z1)) (rx_match g z)) of
        [] \<Rightarrow> None
      | m # _ \<Rightarrow> Some m)"

text \<open>\<open>re.sub\<close> for patterns that match no empty text.\<close>

function rx_sub :: "rx \<Rightarrow> rx \<Rightarrow> (string \<Rightarrow> string) \<Rightarrow> string \<Rightarrow> string \<Rightarrow> string" where
  "rx_sub g r f l [] = []"
| "rx_sub g r f l (c # cs) =
     (case first_match g r (l, c # cs) of
        Some (grp, (l', s')) \<Rightarrow>
          if length s' < length (c # cs) then f grp @ rx_sub g r f l' s'
          else c # rx_sub g r f (c # l) cs
      | None \<Rightarrow> c # rx_sub g r f (c # l) cs)"
  by pat_completeness auto
termination
  by (relation "measure (\<lambda>(g, r, f, l, s). length s)") auto

section \<open>What a match consumes\<close>

text \<open>A match moves the position forward over the text and changes nothing else.\<close>

definition moves :: "zipper \<Rightarrow> zipper \<Rightarrow> bool" where
  "moves z z' \<longleftrightarrow> (\<exists>u. snd z = u @ snd z' \<and> fst z' = rev u @ fst z)"

lemma moves_refl [simp]: "moves z z"
  by (simp add: moves_def)

lemma moves_trans: "moves a b \<Longrightarrow> moves b c \<Longrightarrow> moves a c"
  by (force simp: moves_def)

lemma rx_match_moves: "z' \<in> set (rx_match r z) \<Longrightarrow> moves z z'"
proof (induction r z arbitrary: z' rule: rx_match.induct)
  case (2 p z)
  then show ?case by (auto simp: moves_def split: prod.splits list.splits if_splits)
next
  case (4 r1 r2 z)
  then obtain y where "y \<in> set (rx_match r1 z)" "z' \<in> set (rx_match r2 y)" by auto
  with "4.IH" show ?case by (blast intro: moves_trans)
next
  case (6 r z)
  then consider "z' = z" | y where "y \<in> set (rx_match r z)" "length (snd y) < length (snd z)"
    "z' \<in> set (rx_match (Star r) y)" by (auto simp: rx_match.simps(6) [of r z])
  then show ?case
  proof cases
    case 1
    then show ?thesis by simp
  next
    case (2 y)
    with "6.IH" have "moves z y" "moves y z'" by auto
    then show ?thesis by (rule moves_trans)
  qed
qed (auto split: if_splits)

text \<open>An occurrence of a literal is matched up to case.\<close>

lemma lit_ic_match:
  "lower u = lower w \<Longrightarrow> rx_match (lit_ic w) (l, u @ s) = [(rev u @ l, s)]"
proof (induction w arbitrary: u l)
  case Nil
  then show ?case by (simp add: lower_def)
next
  case (Cons c cs)
  then obtain d ds where "u = d # ds" "lower_char d = lower_char c" "lower ds = lower cs"
    by (cases u) (auto simp: lower_def)
  with Cons.IH [of ds "d # l"] show ?case by simp
qed

text \<open>A match of a sequence needs every literal of the sequence in the text.\<close>

lemma lit_ic_needs: "z' \<in> set (rx_match (lit_ic w) (l, s)) \<Longrightarrow> prefix (lower w) (lower s)"
proof (induction w arbitrary: l s)
  case Nil
  then show ?case by (simp add: lower_def)
next
  case (Cons c cs)
  then show ?case by (cases s) (auto simp: lower_def split: if_splits)
qed

lemma rx_seqs_needs:
  "z' \<in> set (rx_match (rx_seqs rs) (l, s)) \<Longrightarrow> lit_ic w \<in> set rs \<Longrightarrow> contains (lower w) (lower s)"
proof (induction rs arbitrary: l s)
  case Nil
  then show ?case by simp
next
  case (Cons r rs)
  then obtain l1 s1 where 1: "(l1, s1) \<in> set (rx_match r (l, s))"
    and 2: "z' \<in> set (rx_match (rx_seqs rs) (l1, s1))" by auto
  from rx_match_moves [OF 1] obtain u where s: "s = u @ s1" by (auto simp: moves_def)
  show ?case
  proof (cases "r = lit_ic w")
    case True
    with 1 have "prefix (lower w) (lower s)" by (auto dest: lit_ic_needs)
    then show ?thesis by (metis append_Nil contains_iff prefix_def)
  next
    case False
    with Cons.prems(2) Cons.IH [OF 2] have "contains (lower w) (lower s1)" by auto
    then show ?thesis unfolding s by (simp add: lower_def contains_appendr)
  qed
qed

lemma rx_search_needs:
  "rx_search (rx_seqs rs) s \<Longrightarrow> lit_ic w \<in> set rs \<Longrightarrow> contains (lower w) (lower s)"
proof -
  assume w: "lit_ic w \<in> set rs"
  have "rx_search_from (rx_seqs rs) l s \<Longrightarrow> contains (lower w) (lower s)" for l
  proof (induction s arbitrary: l)
    case Nil
    then have "rx_match (rx_seqs rs) (l, []) \<noteq> []" by simp
    then obtain z' where "z' \<in> set (rx_match (rx_seqs rs) (l, []))" by (meson list.set_sel(1))
    then show ?case using w by (rule rx_seqs_needs)
  next
    case (Cons c cs)
    then consider z' where "z' \<in> set (rx_match (rx_seqs rs) (l, c # cs))"
      | "rx_search_from (rx_seqs rs) (c # l) cs" by (meson list.set_sel(1) rx_search_from.simps(2))
    then show ?case
    proof cases
      case 1
      then show ?thesis using w by (rule rx_seqs_needs)
    next
      case 2
      with Cons.IH show ?thesis by (simp add: lower_def)
    qed
  qed
  then show "rx_search (rx_seqs rs) s \<Longrightarrow> ?thesis" by (simp add: rx_search_def)
qed

section \<open>Globbing\<close>

text \<open>The members of a bracket expression: single characters and ranges.\<close>

fun bracket_member :: "string \<Rightarrow> char \<Rightarrow> bool" where
  "bracket_member [] x = False"
| "bracket_member [a] x = (x = a)"
| "bracket_member [a, b] x = (x = a \<or> x = b)"
| "bracket_member (a # b # c # cs) x =
     (if b = CHR ''-'' then (code a \<le> code x \<and> code x \<le> code c) \<or> bracket_member cs x
      else x = a \<or> bracket_member (b # c # cs) x)"

definition bracket_matches :: "string \<Rightarrow> char \<Rightarrow> bool" where
  "bracket_matches stuff x =
     (case stuff of
        [] \<Rightarrow> False
      | c # cs \<Rightarrow> if c = CHR ''!'' then \<not> bracket_member cs x else bracket_member stuff x)"

text \<open>Where a bracket opened just before \<open>s\<close> closes: its contents and the pattern after it. A \<open>]\<close>
  that comes first, or first after \<open>!\<close>, is a member.\<close>

definition find_close :: "string \<Rightarrow> (string \<times> string) option" where
  "find_close s =
     (let k0 = (if s \<noteq> [] \<and> hd s = CHR ''!'' then 1 else 0);
          k1 = (if drop k0 s \<noteq> [] \<and> hd (drop k0 s) = CHR '']'' then Suc k0 else k0);
          body = takeWhile (\<lambda>c. c \<noteq> CHR '']'') (drop k1 s);
          after = dropWhile (\<lambda>c. c \<noteq> CHR '']'') (drop k1 s)
      in case after of [] \<Rightarrow> None | _ # rest \<Rightarrow> Some (take k1 s @ body, rest))"

lemma case_list_Some:
  assumes "(case xs of [] \<Rightarrow> None | _ # rest \<Rightarrow> Some (p, rest)) = Some (a, b)"
    and "\<And>x. xs = x # b \<Longrightarrow> p = a \<Longrightarrow> P"
  shows P
  using assms by (cases xs) auto

lemma find_close_length: "find_close s = Some (a, rest) \<Longrightarrow> length rest < length s"
proof -
  assume "find_close s = Some (a, rest)"
  then have "\<exists>k x. dropWhile (\<lambda>c. c \<noteq> CHR '']'') (drop k s) = x # rest"
    unfolding find_close_def Let_def by (elim case_list_Some) blast
  then obtain k x where "dropWhile (\<lambda>c. c \<noteq> CHR '']'') (drop k s) = x # rest" by blast
  then have "Suc (length rest) \<le> length (drop k s)"
    using length_dropWhile_le [of "\<lambda>c. c \<noteq> CHR '']''" "drop k s"] by simp
  then show ?thesis by simp
qed

datatype glob_token = GStar | GOne "char \<Rightarrow> bool"

function glob_tokens :: "string \<Rightarrow> glob_token list" where
  "glob_tokens [] = []"
| "glob_tokens (c # cs) =
     (if c = CHR ''*'' then GStar # glob_tokens cs
      else if c = CHR ''?'' then GOne (\<lambda>_. True) # glob_tokens cs
      else if c = CHR ''['' then
        (case find_close cs of
           None \<Rightarrow> GOne (\<lambda>x. x = c) # glob_tokens cs
         | Some (stuff, rest) \<Rightarrow> GOne (bracket_matches stuff) # glob_tokens rest)
      else GOne (\<lambda>x. x = c) # glob_tokens cs)"
  by pat_completeness auto
termination
  by (relation "measure length") (auto dest: find_close_length)

fun glob_match :: "glob_token list \<Rightarrow> string \<Rightarrow> bool" where
  "glob_match [] s = (s = [])"
| "glob_match (GOne p # ts) [] = False"
| "glob_match (GOne p # ts) (c # cs) = (p c \<and> glob_match ts cs)"
| "glob_match (GStar # ts) [] = glob_match ts []"
| "glob_match (GStar # ts) (c # cs) = (glob_match ts (c # cs) \<or> glob_match (GStar # ts) cs)"

definition fnmatch :: "string \<Rightarrow> string \<Rightarrow> bool" where
  "fnmatch name pat = glob_match (glob_tokens pat) name"

lemma glob_star_iff: "glob_match (GStar # ts) s \<longleftrightarrow> (\<exists>u v. s = u @ v \<and> glob_match ts v)"
proof (induction s)
  case Nil
  then show ?case by simp
next
  case (Cons c cs)
  show ?case
  proof
    assume "glob_match (GStar # ts) (c # cs)"
    then consider "glob_match ts (c # cs)" | "glob_match (GStar # ts) cs" by auto
    then show "\<exists>u v. c # cs = u @ v \<and> glob_match ts v"
      using Cons by cases (force intro: exI [of _ "[]"], metis append_Cons)
  next
    assume "\<exists>u v. c # cs = u @ v \<and> glob_match ts v"
    then obtain u v where "c # cs = u @ v" "glob_match ts v" by blast
    with Cons show "glob_match (GStar # ts) (c # cs)" by (cases u) auto
  qed
qed

text \<open>A pattern without special characters matches exactly itself.\<close>

definition glob_plain :: "string \<Rightarrow> bool" where
  "glob_plain p \<longleftrightarrow> list_all (\<lambda>c. c \<noteq> CHR ''*'' \<and> c \<noteq> CHR ''?'' \<and> c \<noteq> CHR ''['') p"

lemma glob_plain_tokens:
  "glob_plain p \<Longrightarrow> glob_tokens (p @ q) = map (\<lambda>c. GOne (\<lambda>x. x = c)) p @ glob_tokens q"
  by (induction p) (auto simp: glob_plain_def)

lemma glob_match_literal:
  "glob_match (map (\<lambda>c. GOne (\<lambda>x. x = c)) p @ ts) s \<longleftrightarrow> (\<exists>v. s = p @ v \<and> glob_match ts v)"
proof (induction p arbitrary: s)
  case Nil
  then show ?case by simp
next
  case (Cons c cs)
  then show ?case by (cases s) auto
qed

lemma fnmatch_plain: "glob_plain p \<Longrightarrow> fnmatch s p \<longleftrightarrow> s = p"
  using glob_plain_tokens [of p "[]"] glob_match_literal [of p "[]" s] by (simp add: fnmatch_def)

lemma fnmatch_infix: "glob_plain p \<Longrightarrow> fnmatch s (''*'' @ p @ ''*'') \<longleftrightarrow> contains p s"
proof -
  assume p: "glob_plain p"
  have "glob_tokens (''*'' @ p @ ''*'') = GStar # map (\<lambda>c. GOne (\<lambda>x. x = c)) p @ [GStar]"
    using glob_plain_tokens [OF p, of "''*''"] by simp
  moreover have "glob_match [GStar] v" for v by (simp add: glob_star_iff)
  ultimately have "fnmatch s (''*'' @ p @ ''*'') \<longleftrightarrow> (\<exists>u v. s = u @ v \<and> (\<exists>w. v = p @ w))"
    by (simp add: fnmatch_def glob_star_iff glob_match_literal)
  also have "\<dots> \<longleftrightarrow> contains p s" by (auto simp: contains_iff)
  finally show ?thesis .
qed

lemma fnmatch_prefix: "glob_plain p \<Longrightarrow> fnmatch s (p @ ''*'') \<longleftrightarrow> prefix p s"
proof -
  assume p: "glob_plain p"
  have "glob_tokens (p @ ''*'') = map (\<lambda>c. GOne (\<lambda>x. x = c)) p @ [GStar]"
    using glob_plain_tokens [OF p, of "''*''"] by simp
  moreover have "glob_match [GStar] v" for v by (simp add: glob_star_iff)
  ultimately show ?thesis by (simp add: fnmatch_def glob_match_literal prefix_def)
qed

end
