(* ===== verification/Line_Patterns.thy ===== *)
theory Line_Patterns
  imports Py_Regex
begin

text \<open>
  Regular expressions with groups, as the patch parser uses them on single lines
  (\<open>src/openhands/resolver/patching/patch.py\<close>): a pattern is a list of pieces, and
  \<open>match_pieces p s\<close> is \<open>p.match(s)\<close> with its groups, found by trying the choices in the order
  of Python's engine. \<open>matches\<close> is the truth of the match, and \<open>greedy_takes_all\<close> is the rule by which
  a printed line is shown to be read back.
\<close>

section \<open>Syntax\<close>

datatype piece =
    Lit string
  | Run bool bool "char \<Rightarrow> bool" nat "nat option" \<comment> \<open>captured, greedy, class, least and most characters\<close>
  | OneOf "piece list list"
  | EndOfLine                                     \<comment> \<open>\<open>$\<close>\<close>

text \<open>The pieces the patterns are written with: \<open>(c+)\<close>, \<open>(c*)\<close>, \<open>(c+?)\<close>, \<open>(c)\<close>, and
  \<open>c*\<close>, \<open>c+\<close>, \<open>c?\<close> without a group; \<open>.\<close> is every character but the newline.\<close>

definition grp1 :: "(char \<Rightarrow> bool) \<Rightarrow> piece" where "grp1 c = Run True True c 1 None"
definition grp0 :: "(char \<Rightarrow> bool) \<Rightarrow> piece" where "grp0 c = Run True True c 0 None"
definition lazy1 :: "(char \<Rightarrow> bool) \<Rightarrow> piece" where "lazy1 c = Run True False c 1 None"
definition one :: "(char \<Rightarrow> bool) \<Rightarrow> piece" where "one c = Run True True c 1 (Some 1)"
definition many :: "(char \<Rightarrow> bool) \<Rightarrow> piece" where "many c = Run False True c 0 None"
definition some :: "(char \<Rightarrow> bool) \<Rightarrow> piece" where "some c = Run False True c 1 None"
definition times :: "nat \<Rightarrow> (char \<Rightarrow> bool) \<Rightarrow> piece" where "times n c = Run False True c n (Some n)"
definition opt :: "(char \<Rightarrow> bool) \<Rightarrow> piece" where "opt c = Run False True c 0 (Some 1)"
definition nothing :: piece where "nothing = Run True True (\<lambda>_. False) 0 (Some 0)"
definition dot :: "char \<Rightarrow> bool" where "dot c \<longleftrightarrow> c \<noteq> nl"

lemmas piece_defs = grp1_def grp0_def lazy1_def one_def many_def some_def times_def opt_def nothing_def

section \<open>Matching\<close>

fun first_some :: "'a option list \<Rightarrow> 'a option" where
  "first_some [] = None"
| "first_some (Some x # _) = Some x"
| "first_some (None # xs) = first_some xs"

text \<open>How many characters a run may take, in the order in which the engine tries them.\<close>

definition run_lengths :: "bool \<Rightarrow> (char \<Rightarrow> bool) \<Rightarrow> nat \<Rightarrow> nat option \<Rightarrow> string \<Rightarrow> nat list" where
  "run_lengths greedy c lo hi s =
     (let k = length (takeWhile c s); m = (case hi of None \<Rightarrow> k | Some h \<Rightarrow> min h k); ns = [lo..<Suc m]
      in if greedy then rev ns else ns)"

lemma size_alternative: "a \<in> set alts \<Longrightarrow> size_list size a \<le> size_list (size_list size) alts"
  by (induction alts) auto

function match_pieces :: "piece list \<Rightarrow> string \<Rightarrow> string list option" where
  "match_pieces [] s = Some []"
| "match_pieces (Lit w # ps) s = (if prefix w s then match_pieces ps (drop (length w) s) else None)"
| "match_pieces (Run cap greedy c lo hi # ps) s =
     first_some (map (\<lambda>n. map_option (\<lambda>gs. if cap then take n s # gs else gs) (match_pieces ps (drop n s)))
       (run_lengths greedy c lo hi s))"
| "match_pieces (OneOf alts # ps) s = first_some (map (\<lambda>a. match_pieces (a @ ps) s) alts)"
| "match_pieces (EndOfLine # ps) s = (if s = [] \<or> s = [nl] then match_pieces ps s else None)"
  by pat_completeness auto
termination
  by (relation "measure (\<lambda>(ps, s). size_list size ps)") (auto dest: size_alternative)

type_synonym pattern = "piece list"

definition matches :: "pattern \<Rightarrow> string \<Rightarrow> bool" where
  "matches p s \<longleftrightarrow> match_pieces p s \<noteq> None"

section \<open>What a match needs and gives\<close>

lemma first_some_Some_iff: "first_some xs \<noteq> None \<longleftrightarrow> (\<exists>x \<in> set xs. x \<noteq> None)"
  by (induction xs rule: first_some.induct) auto

lemma matches_Lit [simp]: "matches (Lit w # ps) s \<longleftrightarrow> prefix w s \<and> matches ps (drop (length w) s)"
  by (simp add: matches_def)

lemma matches_Nil [simp]: "matches [] s" by (simp add: matches_def)

lemma set_run_lengths:
  "n \<in> set (run_lengths greedy c lo hi s) \<longleftrightarrow>
     lo \<le> n \<and> (case hi of None \<Rightarrow> True | Some h \<Rightarrow> n \<le> h) \<and> n \<le> length (takeWhile c s)"
  by (auto simp: run_lengths_def Let_def split: option.splits)

lemma matches_Run:
  "matches (Run cap greedy c lo hi # ps) s \<longleftrightarrow>
     (\<exists>n. lo \<le> n \<and> (case hi of None \<Rightarrow> True | Some h \<Rightarrow> n \<le> h) \<and> n \<le> length (takeWhile c s) \<and> matches ps (drop n s))"
  unfolding matches_def match_pieces.simps first_some_Some_iff set_map bex_simps(7) option.map_disc_iff
  by (simp add: Bex_def set_run_lengths)

lemma matches_End [simp]: "matches (EndOfLine # ps) s \<longleftrightarrow> (s = [] \<or> s = [nl]) \<and> matches ps s"
  by (simp add: matches_def)

text \<open>A greedy run that may take everything of its class takes it, if the rest then matches.\<close>

lemma greedy_takes_all:
  assumes "takeWhile c s = u" "lo \<le> length u" "case hi of None \<Rightarrow> True | Some h \<Rightarrow> length u \<le> h"
    and "match_pieces ps (drop (length u) s) = Some gs"
  shows "match_pieces (Run cap True c lo hi # ps) s = Some (if cap then u # gs else gs)"
proof -
  have "run_lengths True c lo hi s = length u # rev [lo..<length u]"
    using assms(1-3) by (auto simp: run_lengths_def Let_def split: option.splits)
  moreover have "take (length u) s = u" using assms(1) by (metis takeWhile_eq_take)
  ultimately show ?thesis using assms(4) by simp
qed

lemma takeWhile_stop: "(\<And>x. x \<in> set u \<Longrightarrow> c x) \<Longrightarrow> v = [] \<or> \<not> c (hd v) \<Longrightarrow> takeWhile c (u @ v) = u"
  by (cases v) (simp_all add: takeWhile_append)

lemma run_then:
  assumes "\<And>x. x \<in> set u \<Longrightarrow> c x" "v = [] \<or> \<not> c (hd v)" "lo \<le> length u" "match_pieces ps v = Some gs"
  shows "match_pieces (Run cap True c lo None # ps) (u @ v) = Some (if cap then u # gs else gs)"
proof (rule greedy_takes_all)
  show "takeWhile c (u @ v) = u" using assms(1,2) by (rule takeWhile_stop)
qed (use assms in simp_all)

text \<open>\<open>(.+)$\<close> and \<open>(.*)$\<close> take the whole rest of a line.\<close>

lemma rest_of_line:
  assumes "nl \<notin> set s" "lo \<le> length s"
  shows "match_pieces [Run cap True dot lo None, EndOfLine] s = Some (if cap then [s] else [])"
proof -
  have "x \<in> set s \<Longrightarrow> dot x" for x using assms(1) by (auto simp: dot_def)
  from run_then [of s dot "[]" lo "[EndOfLine]" "[]" cap, OF this] assms(2) show ?thesis
    by (simp del: match_pieces.simps(3))
qed

text \<open>Decimal numbers.\<close>

lemma digits_not_digit: "\<forall>x \<in> set (nat_str n). is_digit x" by (auto dest: nat_str_digits)

lemma number_then:
  assumes "v = [] \<or> \<not> is_digit (hd v)" "match_pieces ps v = Some gs"
  shows "match_pieces (grp1 is_digit # ps) (nat_str n @ v) = Some (nat_str n # gs)"
  using run_then [of "nat_str n" is_digit v 1 ps gs True] assms nat_str_digits nat_str_ne [of n]
  by (simp add: grp1_def Suc_le_eq)

section \<open>Lines\<close>

text \<open>\<open>str.splitlines\<close>.\<close>

definition is_break :: "char \<Rightarrow> bool" where
  "is_break c \<longleftrightarrow> (let n = code c in 10 \<le> n \<and> n \<le> 13 \<or> 28 \<le> n \<and> n \<le> 30 \<or> n = 133)"

text \<open>The same by the bits of the character, for evaluation.\<close>

lemma is_break_bits [code]:
  "is_break (Char b0 b1 b2 b3 b4 b5 b6 b7) =
     (if b7 then b0 \<and> \<not> b1 \<and> b2 \<and> \<not> b3 \<and> \<not> b4 \<and> \<not> b5 \<and> \<not> b6
      else \<not> b6 \<and> \<not> b5 \<and> b3 \<and> (if b4 then b2 \<and> \<not> (b0 \<and> b1) else b1 \<noteq> b2))"
  by (cases b7; cases b6; cases b5; cases b4; cases b3; cases b2; cases b1; cases b0; simp add: is_break_def code_def Let_def)

function splitlines :: "string \<Rightarrow> string list" where
  "splitlines [] = []"
| "splitlines (c # cs) =
     takeWhile (\<lambda>x. \<not> is_break x) (c # cs)
     # (case dropWhile (\<lambda>x. \<not> is_break x) (c # cs) of
          [] \<Rightarrow> []
        | b # rest \<Rightarrow> splitlines (if b = CHR 0x0D \<and> rest \<noteq> [] \<and> hd rest = nl then drop 1 rest else rest))"
  by pat_completeness auto
termination
proof (relation "measure length")
  fix c cs b rest
  assume "dropWhile (\<lambda>x. \<not> is_break x) (c # cs) = b # rest"
  then have "length rest < length (c # cs)"
    using length_dropWhile_le [of "\<lambda>x. \<not> is_break x" "c # cs"] by simp
  then show "(if b = CHR 0x0D \<and> rest \<noteq> [] \<and> hd rest = nl then drop 1 rest else rest, c # cs) \<in> measure length" by auto
qed simp

text \<open>\<open>str.removeprefix\<close>.\<close>

definition removed_start :: "string \<Rightarrow> string \<Rightarrow> string" where
  "removed_start w s = (if prefix w s then drop (length w) s else s)"

end
