(* ===== verification/Patching.thy ===== *)
theory Patching
  imports Line_Patterns Prelude
begin

section \<open>Data\<close>

datatype version = NoVersion | VersionText string | Revision int

record patch_header =
  ph_index_path :: "string option"
  ph_old_path :: string
  ph_old_version :: version
  ph_new_path :: string
  ph_new_version :: version

text \<open>A line is absent for \<open>ed\<close> deletions and is bytes for binary patches; the last field is the number of the
  hunk, or for a binary patch the removed bytes.\<close>

datatype line_value = NoLine | TextLine string | DataLine string
datatype hunk_tag = NoHunk | HunkNo nat | HunkData string
datatype change = Change (ch_old: "int option") (ch_new: "int option") (ch_line: line_value) (ch_hunk: hunk_tag)

record diffobj =
  d_header :: "patch_header option"
  d_changes :: "change list option"
  d_text :: string

section \<open>The patterns\<close>

abbreviation tab :: char where "tab \<equiv> CHR 0x09"
abbreviation space :: char where "space \<equiv> CHR 0x20"

definition file_timestamp :: pattern where
  "file_timestamp = [lazy1 dot, OneOf [[Lit [tab]], [Lit '':''], [Lit '' '', some (\<lambda>c. c = space)]], grp0 dot]"

definition range_then :: "pattern \<Rightarrow> pattern" where
  "range_then p = grp1 is_digit # opt (\<lambda>c. c = CHR '','') # grp0 is_digit # p"

definition diffcmd_header :: pattern where
  "diffcmd_header = [Lit ''diff'', many dot, Lit '' '', grp1 dot, Lit '' '', grp1 dot, EndOfLine]"
definition unified_header_index :: pattern where
  "unified_header_index = [Lit ''Index: '', grp1 dot, EndOfLine]"
definition unified_header_old_line :: pattern where
  "unified_header_old_line = Lit ''--- '' # file_timestamp @ [EndOfLine]"
definition unified_header_new_line :: pattern where
  "unified_header_new_line = Lit ''+++ '' # file_timestamp @ [EndOfLine]"
definition unified_hunk_start :: pattern where
  "unified_hunk_start = Lit ''@@ -'' # range_then (Lit '' +'' # range_then [Lit '' @@'', grp0 dot, EndOfLine])"

definition context_header_old_line :: pattern where
  "context_header_old_line = Lit ''*** '' # file_timestamp @ [EndOfLine]"
definition context_header_new_line :: pattern where
  "context_header_new_line = Lit ''--- '' # file_timestamp @ [EndOfLine]"
definition context_hunk_start :: pattern where
  "context_hunk_start = [Lit (replicate 15 (CHR ''*'')), EndOfLine]"
definition context_hunk_old :: pattern where
  "context_hunk_old = Lit ''*** '' # range_then [Lit '' ****'', EndOfLine]"
definition context_hunk_new :: pattern where
  "context_hunk_new = Lit ''--- '' # range_then [Lit '' ----'', EndOfLine]"
definition context_change :: pattern where
  "context_change = [one (\<lambda>c. c \<in> set ''-+ !''), Lit '' '', grp0 dot, EndOfLine]"

definition ed_hunk_start :: pattern where
  "ed_hunk_start = range_then [one (\<lambda>c. c \<in> set ''acd''), EndOfLine]"
definition ed_hunk_end :: pattern where
  "ed_hunk_end = [times 1 dot, EndOfLine]"
definition rcs_ed_hunk_start :: pattern where
  "rcs_ed_hunk_start = [one (\<lambda>c. c \<in> set ''ad''), grp1 is_digit, opt (\<lambda>c. c = space), grp0 is_digit, EndOfLine]"

definition default_hunk_start :: pattern where
  "default_hunk_start = range_then (one (\<lambda>c. c \<in> set ''acd'') # range_then [EndOfLine])"
definition default_change :: pattern where
  "default_change = [one (\<lambda>c. c \<in> set ''><''), Lit '' '', grp0 dot, EndOfLine]"

definition hex_digit :: "char \<Rightarrow> bool" where
  "hex_digit c \<longleftrightarrow> is_digit c \<or> 97 \<le> code c \<and> code c \<le> 102"
definition git_diffcmd_header :: pattern where
  "git_diffcmd_header = [Lit ''diff --git a/'', grp1 dot, Lit '' b/'', grp1 dot, EndOfLine]"
definition git_header_index :: pattern where
  "git_header_index = [Lit ''index '', grp1 hex_digit, times 2 dot, grp1 hex_digit, opt (\<lambda>c. c = space), grp0 is_digit, EndOfLine]"
definition git_header_old_line :: pattern where
  "git_header_old_line = [Lit ''--- '', grp1 dot, EndOfLine]"
definition git_header_new_line :: pattern where
  "git_header_new_line = [Lit ''+++ '', grp1 dot, EndOfLine]"
definition git_header_binary_file :: pattern where
  "git_header_binary_file = [Lit ''Binary files '', grp1 dot, Lit '' and '', grp1 dot, Lit '' differ'']"
definition git_binary_patch_start :: pattern where
  "git_binary_patch_start = [Lit ''GIT binary patch'', EndOfLine]"
definition git_binary_literal_start :: pattern where
  "git_binary_literal_start = [Lit ''literal '', grp1 is_digit, EndOfLine]"
definition git_binary_delta_start :: pattern where
  "git_binary_delta_start = [Lit ''delta '', grp1 is_digit, EndOfLine]"
definition base85_char :: "char \<Rightarrow> bool" where
  "base85_char c \<longleftrightarrow> is_digit c \<or> 65 \<le> code c \<and> code c \<le> 90 \<or> 97 \<le> code c \<and> code c \<le> 122
     \<or> c \<in> set ''!#$%&()*+;<=>?@^_`{|}~-''"
definition base85string :: pattern where
  "base85string = [some base85_char, EndOfLine]"

text \<open>The group around \<open>(\(.*\))\<close> is the text between the parentheses here; the group of \<open>revision (\d+)\<close>, which does not
  take part for a working copy, is empty then (the code only asks whether it is true).\<close>

definition svn_header_timestamp_version :: pattern where
  "svn_header_timestamp_version =
     [Lit ''('', OneOf [[Lit ''working copy'', nothing], [Lit ''revision '', grp1 is_digit]], Lit '')'']"
definition svn_header_timestamp :: pattern where
  "svn_header_timestamp = [many dot, Lit ''('', grp0 dot, Lit '')'', EndOfLine]"
definition cvs_header_rcs :: pattern where
  "cvs_header_rcs = [Lit ''RCS file: '', grp1 dot, OneOf [[Lit '','', times 1 is_word, EndOfLine], [EndOfLine]]]"
definition dotted_digit :: "char \<Rightarrow> bool" where "dotted_digit c \<longleftrightarrow> is_digit c \<or> c = CHR ''.''"
definition cvs_header_timestamp :: pattern where
  "cvs_header_timestamp = [grp1 dot, Lit [tab], grp1 dotted_digit]"
definition cvs_header_timestamp_colon :: pattern where
  "cvs_header_timestamp_colon = [Lit '':'', grp1 dotted_digit, Lit [tab], grp1 dot]"
definition old_cvs_diffcmd_header :: pattern where
  "old_cvs_diffcmd_header = [Lit ''diff'', many dot, Lit '' '', grp1 dot, Lit '':'', grp0 dot, Lit '' '', grp1 dot, Lit '':'', grp0 dot, EndOfLine]"

section \<open>Lines\<close>

text \<open>\<open>x if len(x) == 0 else x.splitlines()[0]\<close>.\<close>

definition first_line :: "string \<Rightarrow> string" where
  "first_line x = (if x = [] then x else hd (splitlines x))"

definition findall_regex :: "string list \<Rightarrow> pattern \<Rightarrow> nat list" where
  "findall_regex items p = filter (\<lambda>i. matches p (items ! i)) [0..<length items]"

definition split_by_regex :: "string list \<Rightarrow> pattern \<Rightarrow> string list list" where
  "split_by_regex items p =
     (let indices = findall_regex items p
      in if indices = [] then [items]
         else take (hd indices) items
              # map (\<lambda>(i, j). drop i (take j items)) (zip indices (drop 1 indices))
              @ [drop (last indices) items])"

text \<open>\<open>int\<close> of a group of digits; an empty group raises.\<close>

definition int_of_digits :: "string \<Rightarrow> int" where "int_of_digits s = int (digits_val s)"

definition int_of_group :: "string \<Rightarrow> int res" where
  "int_of_group s = (if s = [] then Inl (ValueError (''invalid literal for int() with base 10: '' @ [CHR 0x27, CHR 0x27])) else Inr (int_of_digits s))"

section \<open>Headers\<close>

text \<open>The header parsers delete the lines they read from the list they are given, which is the list the
  caller goes on to parse; so each returns the lines that are left.\<close>

definition has_match :: "string list \<Rightarrow> pattern \<Rightarrow> bool" where
  "has_match items p \<longleftrightarrow> findall_regex items p \<noteq> []"

definition version_of :: "string \<Rightarrow> version" where
  "version_of s = (if s = [] then NoVersion else VersionText s)"

text \<open>\<open>parse_unified_header\<close> and \<open>parse_context_header\<close>: a line of the old file followed by one of the new file.\<close>

fun paired_header :: "pattern \<Rightarrow> pattern \<Rightarrow> string list \<Rightarrow> patch_header option \<times> string list" where
  "paired_header old_line new_line (x # y # ys) =
     (case match_pieces old_line x of
        Some [opath, over] \<Rightarrow>
          (case match_pieces new_line y of
             Some [npath, nver] \<Rightarrow>
               (Some \<lparr>ph_index_path = None, ph_old_path = opath, ph_old_version = version_of over,
                      ph_new_path = npath, ph_new_version = version_of nver\<rparr>, ys)
           | _ \<Rightarrow> paired_header old_line new_line ys)
      | _ \<Rightarrow> paired_header old_line new_line (y # ys))"
| "paired_header old_line new_line ls = (None, ls)"

definition parse_unified_header :: "string list \<Rightarrow> patch_header option \<times> string list" where
  "parse_unified_header ls =
     (if has_match ls unified_header_new_line then paired_header unified_header_old_line unified_header_new_line ls else (None, ls))"

definition parse_context_header :: "string list \<Rightarrow> patch_header option \<times> string list" where
  "parse_context_header ls =
     (if has_match ls context_header_old_line then paired_header context_header_old_line context_header_new_line ls else (None, ls))"

fun diffcmd_loop :: "string list \<Rightarrow> patch_header option \<times> string list" where
  "diffcmd_loop [] = (None, [])"
| "diffcmd_loop (x # xs) =
     (case match_pieces diffcmd_header x of
        Some [opath, npath] \<Rightarrow>
          (Some \<lparr>ph_index_path = None, ph_old_path = opath, ph_old_version = NoVersion,
                 ph_new_path = npath, ph_new_version = NoVersion\<rparr>, xs)
      | _ \<Rightarrow> diffcmd_loop xs)"

definition parse_diffcmd_header :: "string list \<Rightarrow> patch_header option \<times> string list" where
  "parse_diffcmd_header ls = (if has_match ls diffcmd_header then diffcmd_loop ls else (None, ls))"

record git_parse =
  gp_old_version :: "string option"
  gp_new_version :: "string option"
  gp_old_path :: "string option"
  gp_new_path :: "string option"
  gp_cmd_old_path :: "string option"
  gp_cmd_new_path :: "string option"

definition new_git_parse :: git_parse where
  "new_git_parse = \<lparr>gp_old_version = None, gp_new_version = None, gp_old_path = None, gp_new_path = None,
     gp_cmd_old_path = None, gp_cmd_new_path = None\<rparr>"

definition opt_version :: "string option \<Rightarrow> version" where
  "opt_version v = (case v of None \<Rightarrow> NoVersion | Some s \<Rightarrow> VersionText s)"

text \<open>The three patterns that set paths, in order.\<close>

definition git_paths :: "string \<Rightarrow> git_parse \<Rightarrow> git_parse" where
  "git_paths line g =
     (let g = (case match_pieces git_header_old_line line of Some [p] \<Rightarrow> g\<lparr>gp_old_path := Some p\<rparr> | _ \<Rightarrow> g);
          g = (case match_pieces git_header_new_line line of Some [p] \<Rightarrow> g\<lparr>gp_new_path := Some p\<rparr> | _ \<Rightarrow> g)
      in (case match_pieces git_header_binary_file line of
            Some [p, q] \<Rightarrow> g\<lparr>gp_old_path := Some p, gp_new_path := Some q\<rparr> | _ \<Rightarrow> g))"

text \<open>After the last line: the paths of the command, where a version of zeros stands for no file.\<close>

definition git_from_command :: "git_parse \<Rightarrow> patch_header option" where
  "git_from_command g =
     (case (gp_cmd_old_path g, gp_cmd_new_path g, gp_old_version g, gp_new_version g) of
        (Some cop, Some cnp, Some over, Some nver) \<Rightarrow>
          if cop \<noteq> [] \<and> cnp \<noteq> [] \<and> over \<noteq> [] \<and> nver \<noteq> [] then
            Some \<lparr>ph_index_path = None,
                  ph_old_path = (if over = ''0000000'' then ''/dev/null'' else removed_start ''a/'' cop),
                  ph_old_version = VersionText over,
                  ph_new_path = (if nver = ''0000000'' then ''/dev/null'' else removed_start ''b/'' cnp),
                  ph_new_version = VersionText nver\<rparr>
          else None
      | _ \<Rightarrow> None)"

fun git_loop :: "git_parse \<Rightarrow> string list \<Rightarrow> patch_header option" where
  "git_loop g [] = git_from_command g"
| "git_loop g (line # ls) =
     (case match_pieces git_diffcmd_header line of
        Some [p, q] \<Rightarrow> git_loop (g\<lparr>gp_cmd_old_path := Some p, gp_cmd_new_path := Some q\<rparr>) ls
      | _ \<Rightarrow>
     (case match_pieces git_header_index line of
        Some (v # w # _) \<Rightarrow> git_loop (g\<lparr>gp_old_version := Some v, gp_new_version := Some w\<rparr>) ls
      | _ \<Rightarrow>
        (let g = git_paths line g in
         case (gp_old_path g, gp_new_path g) of
           (Some op, Some np) \<Rightarrow>
             if op \<noteq> [] \<and> np \<noteq> [] then
               Some \<lparr>ph_index_path = None, ph_old_path = removed_start ''a/'' op, ph_old_version = opt_version (gp_old_version g),
                     ph_new_path = removed_start ''b/'' np, ph_new_version = opt_version (gp_new_version g)\<rparr>
             else git_loop g ls
         | _ \<Rightarrow> git_loop g ls)))"

definition parse_git_header :: "string list \<Rightarrow> patch_header option \<times> string list" where
  "parse_git_header ls = (git_loop new_git_parse ls, ls)"

definition parse_diff_header :: "string list \<Rightarrow> patch_header option \<times> string list" where
  "parse_diff_header ls =
     (if has_match ls unified_header_new_line then parse_unified_header ls
      else if has_match ls context_header_old_line then parse_context_header ls
      else if has_match ls diffcmd_header then parse_diffcmd_header ls
      else if has_match ls git_header_new_line then parse_git_header ls
      else (None, ls))"

text \<open>One side of a Subversion header: the revision of the version, else of the end of the path; a version that
  is no revision is dropped.\<close>

definition svn_revision :: "string \<Rightarrow> version" where
  "svn_revision v =
     (case match_pieces svn_header_timestamp_version v of
        Some [g] \<Rightarrow> if g \<noteq> [] then Revision (int_of_digits g) else NoVersion
      | _ \<Rightarrow> NoVersion)"

definition svn_side :: "string \<Rightarrow> version \<Rightarrow> string \<times> version" where
  "svn_side path v =
     (case v of
        VersionText o' \<Rightarrow> (path, svn_revision o')
      | Revision n \<Rightarrow> (path, Revision n)
      | NoVersion \<Rightarrow>
          (case match_pieces svn_header_timestamp path of
             Some [g] \<Rightarrow> (take (length path - (length g + 2)) path, svn_revision (''('' @ g @ '')''))
           | _ \<Rightarrow> (path, NoVersion)))"

definition index_only :: "string \<Rightarrow> patch_header" where
  "index_only i = \<lparr>ph_index_path = Some i, ph_old_path = i, ph_old_version = NoVersion, ph_new_path = i, ph_new_version = NoVersion\<rparr>"

fun svn_loop :: "string list \<Rightarrow> patch_header option \<times> string list" where
  "svn_loop [] = (None, [])"
| "svn_loop (x # xs) =
     (case match_pieces unified_header_index x of
        Some [i] \<Rightarrow>
          (case parse_diff_header xs of
             (None, ls) \<Rightarrow> (Some (index_only i), ls)
           | (Some h, ls) \<Rightarrow>
               (let (opath, over) = svn_side (ph_old_path h) (ph_old_version h);
                    (npath, nver) = svn_side (ph_new_path h) (ph_new_version h)
                in (Some \<lparr>ph_index_path = Some i, ph_old_path = opath, ph_old_version = over,
                          ph_new_path = npath, ph_new_version = nver\<rparr>, ls)))
      | _ \<Rightarrow> svn_loop xs)"

definition parse_svn_header :: "string list \<Rightarrow> patch_header option \<times> string list" where
  "parse_svn_header ls = (if has_match ls unified_header_index then svn_loop ls else (None, ls))"

definition cvs_version :: "version \<Rightarrow> version" where
  "cvs_version v =
     (case v of
        VersionText s \<Rightarrow>
          (case match_pieces cvs_header_timestamp s of
             Some [_, n] \<Rightarrow> VersionText n
           | _ \<Rightarrow> (case match_pieces cvs_header_timestamp_colon s of Some (n # _) \<Rightarrow> VersionText n | _ \<Rightarrow> v))
      | _ \<Rightarrow> v)"

fun cvs_loop :: "string list \<Rightarrow> patch_header option \<times> string list" where
  "cvs_loop [] = (None, [])"
| "cvs_loop (x # xs) =
     (case match_pieces unified_header_index x of
        Some [i] \<Rightarrow>
          (case parse_diff_header xs of
             (None, ls) \<Rightarrow> (Some (index_only i), ls)
           | (Some h, ls) \<Rightarrow>
               (Some (h\<lparr>ph_index_path := Some i, ph_old_version := cvs_version (ph_old_version h),
                        ph_new_version := cvs_version (ph_new_version h)\<rparr>), ls))
      | _ \<Rightarrow> cvs_loop xs)"

fun old_cvs_loop :: "string list \<Rightarrow> (patch_header option \<times> string list) res" where
  "old_cvs_loop [] = Inr (None, [])"
| "old_cvs_loop (x # xs) =
     (case match_pieces unified_header_index x of
        Some [i] \<Rightarrow>
          (case xs of
             [] \<Rightarrow> Inl (OtherError ''IndexError'' ''list index out of range'')
           | d # _ \<Rightarrow>
               (case match_pieces old_cvs_diffcmd_header d of
                  Some [opath, over, npath, nver] \<Rightarrow>
                    Inr (Some \<lparr>ph_index_path = Some i, ph_old_path = opath, ph_old_version = version_of over,
                               ph_new_path = npath, ph_new_version = version_of nver\<rparr>, snd (parse_diff_header xs))
                | _ \<Rightarrow> Inr (Some (index_only i), xs)))
      | _ \<Rightarrow> old_cvs_loop xs)"

definition parse_cvs_header :: "string list \<Rightarrow> (patch_header option \<times> string list) res" where
  "parse_cvs_header ls =
     (if has_match ls cvs_header_rcs then Inr (cvs_loop ls)
      else if has_match ls old_cvs_diffcmd_header then old_cvs_loop ls
      else Inr (None, ls))"

text \<open>The paths found by a source-control header in a \<open>diff --git\<close> text lose \<open>a/\<close> and \<open>b/\<close>.\<close>

definition scm_stripped :: "bool \<Rightarrow> patch_header option \<times> string list \<Rightarrow> patch_header option \<times> string list" where
  "scm_stripped git = map_prod (map_option (\<lambda>h.
     if git then h\<lparr>ph_old_path := removed_start ''a/'' (ph_old_path h), ph_new_path := removed_start ''b/'' (ph_new_path h)\<rparr> else h)) id"

definition parse_scm_header :: "string list \<Rightarrow> (patch_header option \<times> string list) res" where
  "parse_scm_header ls =
     (let git = has_match ls git_diffcmd_header in
      if has_match ls git_header_index then Inr (scm_stripped git (parse_git_header ls))
      else if has_match ls old_cvs_diffcmd_header then res_map (scm_stripped git) (parse_cvs_header ls)
      else if has_match ls cvs_header_rcs then res_map (scm_stripped git) (parse_cvs_header ls)
      else if has_match ls unified_header_index then Inr (scm_stripped git (parse_svn_header ls))
      else Inr (None, ls))"

definition parse_header :: "string list \<Rightarrow> (patch_header option \<times> string list) res" where
  "parse_header ls =
     res_bind (parse_scm_header ls) (\<lambda>(h, rest). case h of Some x \<Rightarrow> Inr (Some x, rest) | None \<Rightarrow> Inr (parse_diff_header rest))"

section \<open>Changes of a diff\<close>

definition some_changes :: "change list \<Rightarrow> change list option" where
  "some_changes cs = (if cs = [] then None else Some cs)"

definition parse_exception :: "string \<Rightarrow> nat \<Rightarrow> 'x res" where
  "parse_exception msg n = Inl (OtherError ''ParseException'' (msg @ '', in hunk #'' @ nat_str n))"

text \<open>The end of a range in a default diff counts lines; without one the length is 0.\<close>

definition range_length :: "int \<Rightarrow> string \<Rightarrow> int" where
  "range_length start end_group = (if end_group = [] then 0 else int_of_digits end_group - start + 1)"

record ranges =
  rg_old :: int
  rg_old_len :: int
  rg_new :: int
  rg_new_len :: int

definition no_ranges :: ranges where
  "no_ranges = \<lparr>rg_old = 0, rg_old_len = 0, rg_new = 0, rg_new_len = 0\<rparr>"

fun default_hunk :: "nat \<Rightarrow> ranges \<Rightarrow> int \<Rightarrow> int \<Rightarrow> string list \<Rightarrow> change list \<times> ranges" where
  "default_hunk n g r i [] = ([], g)"
| "default_hunk n g r i (x # xs) =
     (case match_pieces default_hunk_start x of
        Some [a, b, _, c, d] \<Rightarrow>
          default_hunk n \<lparr>rg_old = int_of_digits a, rg_old_len = range_length (int_of_digits a) b,
            rg_new = int_of_digits c, rg_new_len = range_length (int_of_digits c) d\<rparr> r i xs
      | _ \<Rightarrow>
     (case match_pieces default_change x of
        Some [kind, line] \<Rightarrow>
          if kind = ''<'' \<and> (r \<noteq> rg_old_len g \<or> r = 0) then
            map_prod ((#) (Change (Some (rg_old g + r)) None (TextLine line) (HunkNo n))) id (default_hunk n g (r + 1) i xs)
          else if kind = ''>'' \<and> (i \<noteq> rg_new_len g \<or> i = 0) then
            map_prod ((#) (Change None (Some (rg_new g + i)) (TextLine line) (HunkNo n))) id (default_hunk n g r (i + 1) xs)
          else default_hunk n g r i xs
      | _ \<Rightarrow> default_hunk n g r i xs))"

fun default_hunks :: "nat \<Rightarrow> ranges \<Rightarrow> string list list \<Rightarrow> change list" where
  "default_hunks n g [] = []"
| "default_hunks n g (h # hs) = (case default_hunk n g 0 0 h of (cs, g') \<Rightarrow> cs @ default_hunks (Suc n) g' hs)"

definition parse_default_diff :: "string list \<Rightarrow> change list option" where
  "parse_default_diff ls = some_changes (default_hunks 0 no_ranges (split_by_regex ls default_hunk_start))"

text \<open>Unified diffs: the lines up to the header of the hunk are skipped, then every line is a change.\<close>

definition unified_length :: "string \<Rightarrow> int" where
  "unified_length s = (if s = [] then 1 else int_of_digits s)"

fun unified_start :: "ranges \<Rightarrow> string list \<Rightarrow> ranges \<times> string list" where
  "unified_start g [] = (g, [])"
| "unified_start g (x # xs) =
     (case match_pieces unified_hunk_start x of
        Some [a, b, c, d, _] \<Rightarrow>
          (\<lparr>rg_old = int_of_digits a, rg_old_len = unified_length b, rg_new = int_of_digits c, rg_new_len = unified_length d\<rparr>, xs)
      | _ \<Rightarrow> unified_start g xs)"

fun unified_body :: "nat \<Rightarrow> ranges \<Rightarrow> int \<Rightarrow> int \<Rightarrow> string list \<Rightarrow> change list" where
  "unified_body n g r i [] = []"
| "unified_body n g r i (x # xs) =
     (let kind = (if x = [] then space else hd x); line = drop 1 x
      in if kind = CHR ''-'' \<and> (r \<noteq> rg_old_len g \<or> r = 0) then
           Change (Some (rg_old g + r)) None (TextLine line) (HunkNo n) # unified_body n g (r + 1) i xs
         else if kind = CHR ''+'' \<and> (i \<noteq> rg_new_len g \<or> i = 0) then
           Change None (Some (rg_new g + i)) (TextLine line) (HunkNo n) # unified_body n g r (i + 1) xs
         else if kind = space then
           Change (Some (rg_old g + r)) (Some (rg_new g + i)) (TextLine line) (HunkNo n) # unified_body n g (r + 1) (i + 1) xs
         else unified_body n g r i xs)"

fun unified_hunks :: "nat \<Rightarrow> ranges \<Rightarrow> string list list \<Rightarrow> change list" where
  "unified_hunks n g [] = []"
| "unified_hunks n g (h # hs) =
     (case unified_start g h of (g', body) \<Rightarrow> unified_body n g' 0 0 body @ unified_hunks (Suc n) g' hs)"

definition parse_unified_diff :: "string list \<Rightarrow> change list option" where
  "parse_unified_diff ls = some_changes (unified_hunks 0 no_ranges (split_by_regex ls unified_hunk_start))"

text \<open>Context diffs. The lengths are local variables that have no value before the first range is read.\<close>

record context_state =
  cx_old :: int
  cx_new :: int
  cx_old_len :: "int option"
  cx_new_len :: "int option"

definition bound_var :: "string \<Rightarrow> 'a option \<Rightarrow> 'a res" where
  "bound_var name v = (case v of Some x \<Rightarrow> Inr x
     | None \<Rightarrow> Inl (OtherError ''UnboundLocalError''
         (''cannot access local variable '' @ [CHR 0x27] @ name @ [CHR 0x27] @ '' where it is not associated with a value'')))"

fun context_new_range :: "context_state \<Rightarrow> string list \<Rightarrow> (context_state \<times> string list) res" where
  "context_new_range g [] = Inr (g, [])"
| "context_new_range g (x # xs) =
     (case match_pieces context_hunk_new x of
        Some [a, b] \<Rightarrow>
          res_map (\<lambda>e. (g\<lparr>cx_new := int_of_digits a, cx_new_len := Some (e + 1 - int_of_digits a)\<rparr>, xs)) (int_of_group b)
      | _ \<Rightarrow> context_new_range g xs)"

fun context_ranges :: "context_state \<Rightarrow> string list \<Rightarrow> string list \<Rightarrow> (context_state \<times> string list \<times> string list) res" where
  "context_ranges g [] new_hunk = Inr (g, [], new_hunk)"
| "context_ranges g (x # xs) new_hunk =
     (case match_pieces context_hunk_old x of
        Some [a, b] \<Rightarrow>
          res_bind (int_of_group b) (\<lambda>e.
            res_map (\<lambda>(g', new_rest). (g', xs, new_rest))
              (context_new_range (g\<lparr>cx_old := int_of_digits a, cx_old_len := Some (e + 1 - int_of_digits a)\<rparr>) new_hunk))
      | _ \<Rightarrow> context_ranges g xs new_hunk)"

definition context_both_open :: "context_state \<Rightarrow> int \<Rightarrow> int \<Rightarrow> bool res" where
  "context_both_open g j k =
     res_bind (bound_var ''old_len'' (cx_old_len g)) (\<lambda>ol.
       if j \<noteq> ol then res_map (\<lambda>nl'. k \<noteq> nl' \<or> j = 0 \<or> k = 0) (bound_var ''new_len'' (cx_new_len g))
       else Inr (j = 0 \<or> k = 0))"

definition unexpected_in_hunk :: "string \<Rightarrow> nat \<Rightarrow> 'x res" where
  "unexpected_in_hunk kind n = parse_exception (''Got unexpected change in removal hunk: '' @ kind) n"

text \<open>Only one side has lines left: \<open>own\<close> is \<open>-\<close> for removals and \<open>+\<close> for insertions.\<close>

fun context_one_side :: "nat \<Rightarrow> context_state \<Rightarrow> bool \<Rightarrow> int \<Rightarrow> int \<Rightarrow> string list \<Rightarrow> change list res" where
  "context_one_side n g removal j k [] = Inr []"
| "context_one_side n g removal j k (x # xs) =
     (case match_pieces context_change x of
        Some [kind, line] \<Rightarrow>
          if kind = (if removal then ''-'' else ''+'') then
            res_bind (if removal then bound_var ''old_len'' (cx_old_len g) else bound_var ''new_len'' (cx_new_len g)) (\<lambda>len.
              let c = (if removal then j else k) in
              if c \<noteq> len \<or> c = 0 then
                res_map ((#) (if removal then Change (Some (cx_old g + j)) None (TextLine line) (HunkNo n)
                              else Change None (Some (cx_new g + k)) (TextLine line) (HunkNo n)))
                  (context_one_side n g removal (if removal then j + 1 else j) (if removal then k else k + 1) xs)
              else context_one_side n g removal j k xs)
          else if kind = '' '' then
            res_bind (context_both_open g j k) (\<lambda>more.
              if more then
                res_map ((#) (Change (Some (cx_old g + j)) (Some (cx_new g + k)) (TextLine line) (HunkNo n)))
                  (context_one_side n g removal (j + 1) (k + 1) xs)
              else context_one_side n g removal j k xs)
          else unexpected_in_hunk kind n
      | _ \<Rightarrow> context_one_side n g removal j k xs)"

text \<open>Both sides have lines: the answer \<open>None\<close> is the \<open>return None\<close> of the loop.\<close>

definition context_kind :: "string \<Rightarrow> (string \<times> string) option" where
  "context_kind x = (case match_pieces context_change x of Some [kind, line] \<Rightarrow> Some (kind, line) | _ \<Rightarrow> None)"

definition kind_is :: "string \<Rightarrow> (string \<times> string) option \<Rightarrow> bool" where
  "kind_is w c = (case c of Some (k, _) \<Rightarrow> k = w | None \<Rightarrow> False)"

definition kind_line :: "(string \<times> string) option \<Rightarrow> line_value" where
  "kind_line c = (case c of Some (_, line) \<Rightarrow> TextLine line | None \<Rightarrow> NoLine)"

function context_both :: "nat \<Rightarrow> context_state \<Rightarrow> int \<Rightarrow> int \<Rightarrow> string list \<Rightarrow> string list \<Rightarrow> change list option res" where
  "context_both n g j k (x # xs) (y # ys) =
     (let oc = context_kind x; nc = context_kind y in
      if oc = None \<and> nc = None then context_both n g j k xs ys
      else if kind_is '' '' oc \<and> kind_is '' '' nc \<and> kind_line oc = kind_line nc then
        res_map (map_option ((#) (Change (Some (cx_old g + j)) (Some (cx_new g + k)) (kind_line oc) (HunkNo n))))
          (context_both n g (j + 1) (k + 1) xs ys)
      else if kind_is ''-'' oc \<or> kind_is ''!'' oc \<and> (Some j \<noteq> cx_old_len g \<or> j = 0) then
        res_map (map_option ((#) (Change (Some (cx_old g + j)) None (kind_line oc) (HunkNo n))))
          (context_both n g (j + 1) k xs (y # ys))
      else if kind_is ''+'' nc \<or> kind_is ''!'' nc \<and> (Some k \<noteq> cx_new_len g \<or> k = 0) then
        res_map (map_option ((#) (Change None (Some (cx_new g + k)) (kind_line nc) (HunkNo n))))
          (context_both n g j (k + 1) (x # xs) ys)
      else Inr None)"
| "context_both n g j k [] ys = Inr (Some [])"
| "context_both n g j k xs [] = Inr (Some [])"
  by pat_completeness auto
termination
  by (relation "measure (\<lambda>(n, g, j, k, xs, ys). length xs + length ys)") auto

definition context_hunk :: "nat \<Rightarrow> context_state \<Rightarrow> string list \<Rightarrow> (change list option \<times> context_state) res" where
  "context_hunk n g hunk =
     (let parts = split_by_regex hunk context_hunk_new in
      if length parts \<noteq> 2 then parse_exception ''Context diff invalid'' n
      else res_bind (context_ranges g (parts ! 0) (parts ! 1)) (\<lambda>(g', old_hunk, new_hunk).
        res_map (\<lambda>cs. (cs, g'))
          (if old_hunk \<noteq> [] \<and> new_hunk = [] then res_map Some (context_one_side n g' True 0 0 old_hunk)
           else if old_hunk = [] \<and> new_hunk \<noteq> [] then res_map Some (context_one_side n g' False 0 0 new_hunk)
           else context_both n g' 0 0 old_hunk new_hunk)))"

fun context_hunks :: "nat \<Rightarrow> context_state \<Rightarrow> string list list \<Rightarrow> change list option res" where
  "context_hunks n g [] = Inr (Some [])"
| "context_hunks n g (h # hs) =
     (if h = [] then context_hunks (Suc n) g hs
      else res_bind (context_hunk n g h) (\<lambda>(cs, g').
        case cs of None \<Rightarrow> Inr None
        | Some cs \<Rightarrow> res_map (map_option ((@) cs)) (context_hunks (Suc n) g' hs)))"

definition parse_context_diff :: "string list \<Rightarrow> change list option res" where
  "parse_context_diff ls =
     res_map (\<lambda>r. case r of None \<Rightarrow> None | Some cs \<Rightarrow> some_changes cs)
       (context_hunks 0 \<lparr>cx_old = 0, cx_new = 0, cx_old_len = None, cx_new_len = None\<rparr> (split_by_regex ls context_hunk_start))"

text \<open>\<open>ed\<close> scripts, from the last hunk of the text to the first; \<open>r\<close>, \<open>i\<close> run over the whole script.\<close>

definition deletions :: "nat \<Rightarrow> int \<Rightarrow> nat \<Rightarrow> change list" where
  "deletions n start m = map (\<lambda>k. Change (Some (start + int k)) None NoLine (HunkNo n)) [0..<m]"

text \<open>The lines after a command. The counter \<open>k\<close> starts at 0 for every line of the text.\<close>

fun ed_text :: "nat \<Rightarrow> string \<Rightarrow> int \<Rightarrow> int \<Rightarrow> int \<Rightarrow> int \<Rightarrow> int \<Rightarrow> string list \<Rightarrow> change list \<times> int \<times> int" where
  "ed_text n kind old old_end r i j [] = ([], r, i)"
| "ed_text n kind old old_end r i j (x # xs) =
     (if matches ed_hunk_end x then ed_text n kind old old_end r i j xs
      else if kind = ''c'' then
        (let k = nat (old_end - old + 1); r' = r + int k
         in map_prod (\<lambda>cs. deletions n old k @ Change None (Some (old - r' + i + int k + j)) (TextLine x) (HunkNo n) # cs) id
              (ed_text n kind old (old_end - int k) r' (i + 1) (j + 1) xs))
      else if kind = ''a'' then
        map_prod ((#) (Change None (Some (old - r + i + 1)) (TextLine x) (HunkNo n))) id
          (ed_text n kind old old_end r (i + 1) j xs)
      else ed_text n kind old old_end r i j xs)"

fun ed_hunk :: "nat \<Rightarrow> int \<Rightarrow> int \<Rightarrow> string list \<Rightarrow> change list \<times> int \<times> int" where
  "ed_hunk n r i [] = ([], r, i)"
| "ed_hunk n r i (x # xs) =
     (case match_pieces ed_hunk_start x of
        Some [a, b, kind] \<Rightarrow>
          (let old = int_of_digits a; old_end = (if b = [] then old else int_of_digits b) in
           if kind = ''d'' then
             (let k = nat (old_end - old + 1)
              in map_prod ((@) (deletions n old k)) id (ed_hunk n (r + int k) i xs))
           else ed_text n kind old old_end r i 0 xs)
      | _ \<Rightarrow> ed_hunk n r i xs)"

fun ed_hunks :: "nat \<Rightarrow> int \<Rightarrow> int \<Rightarrow> string list list \<Rightarrow> change list" where
  "ed_hunks n r i [] = []"
| "ed_hunks n r i (h # hs) = (case ed_hunk n r i h of (cs, r', i') \<Rightarrow> cs @ ed_hunks (Suc n) r' i' hs)"

definition parse_ed_diff :: "string list \<Rightarrow> change list option" where
  "parse_ed_diff ls = some_changes (ed_hunks 0 0 0 (rev (split_by_regex ls ed_hunk_start)))"

text \<open>RCS scripts: every line number is one of the old file.\<close>

function rcs_hunk :: "nat \<Rightarrow> int \<Rightarrow> int \<Rightarrow> string list \<Rightarrow> change list \<times> int" where
  "rcs_hunk n change_size j [] = ([], change_size)"
| "rcs_hunk n change_size j (x # xs) =
     (case match_pieces rcs_ed_hunk_start x of
        Some [kind, a, b] \<Rightarrow>
          (let old = int_of_digits a; m = (if b = [] then 0 else digits_val b) in
           if kind = ''a'' then
             (let start = old + change_size + 1; body = take m xs
              in map_prod ((@) (map (\<lambda>(k, l). Change None (Some (start + j + int k)) (TextLine l) (HunkNo n)) (enumerate 0 body))) id
                   (rcs_hunk n (change_size + int m) (j + int (length body)) (drop m xs)))
           else
             map_prod ((@) (deletions n (old + j) m)) id
               (rcs_hunk n (change_size - int m) (j + int m) xs))
      | _ \<Rightarrow> rcs_hunk n change_size j xs)"
  by pat_completeness auto
termination
  by (relation "measure (\<lambda>(n, t, j, ls). length ls)") auto

fun rcs_hunks :: "nat \<Rightarrow> int \<Rightarrow> string list list \<Rightarrow> change list" where
  "rcs_hunks n change_size [] = []"
| "rcs_hunks n change_size (h # hs) = (case rcs_hunk n change_size 0 h of (cs, t) \<Rightarrow> cs @ rcs_hunks (Suc n) t hs)"

definition parse_rcs_ed_diff :: "string list \<Rightarrow> change list option" where
  "parse_rcs_ed_diff ls = some_changes (rcs_hunks 0 0 (split_by_regex ls rcs_ed_hunk_start))"

text \<open>Git binary patches. \<open>inflate\<close> is \<open>zlib.decompress(base64.b85decode(...))\<close>.\<close>

record binary_state =
  bs_version_seen :: bool
  bs_command_seen :: bool
  bs_new_size :: int
  bs_old_size :: int
  bs_new_encoded :: string
  bs_old_encoded :: string
  bs_changes :: "change list"

definition new_binary_state :: binary_state where
  "new_binary_state = \<lparr>bs_version_seen = False, bs_command_seen = False, bs_new_size = 0, bs_old_size = 0,
     bs_new_encoded = [], bs_old_encoded = [], bs_changes = []\<rparr>"

definition assertion :: "bool \<Rightarrow> unit res" where
  "assertion b = (if b then Inr () else Inl (OtherError ''AssertionError'' []))"

definition size_group :: "pattern \<Rightarrow> string \<Rightarrow> int option" where
  "size_group p line = (case match_pieces p line of Some [d] \<Rightarrow> Some (int_of_digits d) | _ \<Rightarrow> None)"

definition encoded_line_ok :: "string \<Rightarrow> unit res" where
  "encoded_line_ok line = assertion (6 \<le> length line \<and> (length line - 1) mod 5 = 0)"

definition inflated :: "(string \<Rightarrow> string res) \<Rightarrow> int \<Rightarrow> string \<Rightarrow> string res" where
  "inflated inflate n enc = res_bind (inflate enc) (\<lambda>d. res_map (\<lambda>_. d) (assertion (n = int (length d))))"

text \<open>The part of the loop body for the added file; the flag is its \<open>continue\<close>.\<close>

definition binary_added :: "(string \<Rightarrow> string res) \<Rightarrow> string \<Rightarrow> binary_state \<Rightarrow> (bool \<times> binary_state) res" where
  "binary_added inflate line s =
     (if bs_new_size s = 0 then
        (case size_group git_binary_literal_start line of
           Some n \<Rightarrow> Inr (True, s\<lparr>bs_new_size := n\<rparr>)
         | None \<Rightarrow> Inr (matches git_binary_delta_start line, s))
      else if matches base85string line then
        res_map (\<lambda>_. (False, s\<lparr>bs_new_encoded := bs_new_encoded s @ drop 1 line\<rparr>)) (encoded_line_ok line)
      else if line = [] \<and> bs_new_encoded s \<noteq> [] then
        res_map (\<lambda>d. (False, s\<lparr>bs_changes := bs_changes s @ [Change None (Some 0) (DataLine d) NoHunk],
                               bs_new_size := 0, bs_new_encoded := []\<rparr>))
          (inflated inflate (bs_new_size s) (bs_new_encoded s))
      else Inr (False, s\<lparr>bs_new_size := 0, bs_new_encoded := []\<rparr>))"

definition binary_removed :: "(string \<Rightarrow> string res) \<Rightarrow> string \<Rightarrow> binary_state \<Rightarrow> binary_state res" where
  "binary_removed inflate line s =
     (if bs_old_size s = 0 then
        (case size_group git_binary_literal_start line of
           Some n \<Rightarrow> Inr (s\<lparr>bs_old_size := n\<rparr>)
         | None \<Rightarrow> Inr s)
      else if matches base85string line then
        res_map (\<lambda>_. s\<lparr>bs_old_encoded := bs_old_encoded s @ drop 1 line\<rparr>) (encoded_line_ok line)
      else if line = [] \<and> bs_old_encoded s \<noteq> [] then
        res_map (\<lambda>d. s\<lparr>bs_changes := bs_changes s @ [Change (Some 0) None NoLine (HunkData d)],
                       bs_old_size := 0, bs_old_encoded := []\<rparr>)
          (inflated inflate (bs_old_size s) (bs_old_encoded s))
      else Inr (s\<lparr>bs_old_size := 0, bs_old_encoded := []\<rparr>))"

definition binary_line :: "(string \<Rightarrow> string res) \<Rightarrow> string \<Rightarrow> binary_state \<Rightarrow> binary_state res" where
  "binary_line inflate line s =
     (if \<not> bs_command_seen s \<and> matches git_diffcmd_header line then Inr (s\<lparr>bs_command_seen := True\<rparr>)
      else if \<not> bs_version_seen s \<and> matches git_header_index line then Inr (s\<lparr>bs_version_seen := True\<rparr>)
      else res_bind (binary_added inflate line s) (\<lambda>(skip, s'). if skip then Inr s' else binary_removed inflate line s'))"

fun binary_lines :: "(string \<Rightarrow> string res) \<Rightarrow> string list \<Rightarrow> binary_state \<Rightarrow> binary_state res" where
  "binary_lines inflate [] s = Inr s"
| "binary_lines inflate (x # xs) s = res_bind (binary_line inflate x s) (binary_lines inflate xs)"

definition parse_git_binary_diff :: "(string \<Rightarrow> string res) \<Rightarrow> string list \<Rightarrow> change list option res" where
  "parse_git_binary_diff inflate ls = res_map (\<lambda>s. Some (bs_changes s)) (binary_lines inflate ls new_binary_state)"

definition parse_diff :: "(string \<Rightarrow> string res) \<Rightarrow> string list \<Rightarrow> change list option res" where
  "parse_diff inflate ls =
     (if has_match ls unified_hunk_start then Inr (parse_unified_diff ls)
      else if has_match ls context_hunk_start then parse_context_diff ls
      else if has_match ls default_hunk_start then Inr (parse_default_diff ls)
      else if has_match ls ed_hunk_start then Inr (parse_ed_diff ls)
      else if has_match ls rcs_ed_hunk_start then Inr (parse_rcs_ed_diff ls)
      else if has_match ls git_binary_patch_start then parse_git_binary_diff inflate ls
      else Inr None)"

section \<open>Patches\<close>

text \<open>The first pattern that splits the lines splits them.\<close>

fun first_split :: "pattern list \<Rightarrow> string list \<Rightarrow> string list list" where
  "first_split [] ls = []"
| "first_split [p] ls = split_by_regex ls p"
| "first_split (p # ps) ls = (let ds = split_by_regex ls p in if 1 < length ds then ds else first_split ps ls)"

text \<open>The generator yields a diff for each part; an exception ends it after the diffs before.\<close>

definition parse_part :: "(string \<Rightarrow> string res) \<Rightarrow> string list \<Rightarrow> diffobj option res" where
  "parse_part inflate part =
     res_bind (parse_header part) (\<lambda>(h, rest).
       res_map (\<lambda>d. if h \<noteq> None \<or> (d \<noteq> None \<and> d \<noteq> Some []) then
                      Some \<lparr>d_header = h, d_changes = d, d_text = join [nl] part @ [nl]\<rparr> else None)
         (parse_diff inflate rest))"

fun parse_parts :: "(string \<Rightarrow> string res) \<Rightarrow> string list list \<Rightarrow> diffobj list \<times> py_exn option" where
  "parse_parts inflate [] = ([], None)"
| "parse_parts inflate (p # ps) =
     (case parse_part inflate p of
        Inl e \<Rightarrow> ([], Some e)
      | Inr None \<Rightarrow> parse_parts inflate ps
      | Inr (Some d) \<Rightarrow> map_prod ((#) d) id (parse_parts inflate ps))"

definition parse_patch_lines :: "(string \<Rightarrow> string res) \<Rightarrow> string list \<Rightarrow> diffobj list \<times> py_exn option" where
  "parse_patch_lines inflate ls =
     parse_parts inflate (first_split [unified_header_index, diffcmd_header, cvs_header_rcs, git_header_index,
       context_header_old_line, unified_header_old_line] (map first_line ls))"

definition parse_patch :: "(string \<Rightarrow> string res) \<Rightarrow> string \<Rightarrow> diffobj list \<times> py_exn option" where
  "parse_patch inflate text' = parse_patch_lines inflate (splitlines text')"

section \<open>Applying a diff\<close>

definition reverse_change :: "change \<Rightarrow> change" where
  "reverse_change c = Change (ch_new c) (ch_old c) (ch_line c) (ch_hunk c)"

definition reversed :: "change list \<Rightarrow> change list" where
  "reversed cs = map reverse_change cs"

text \<open>Python's indices: a negative one counts from the end; \<open>insert\<close> clamps.\<close>

definition list_position :: "int \<Rightarrow> int \<Rightarrow> string \<Rightarrow> nat res" where
  "list_position n i msg =
     (let j = (if i < 0 then i + n else i) in if 0 \<le> j \<and> j < n then Inr (nat j) else Inl (OtherError ''IndexError'' msg))"

definition py_delete :: "int \<Rightarrow> 'a list \<Rightarrow> 'a list res" where
  "py_delete i xs = res_map (\<lambda>j. take j xs @ drop (Suc j) xs) (list_position (int (length xs)) i ''list assignment index out of range'')"

definition py_insert :: "int \<Rightarrow> 'a \<Rightarrow> 'a list \<Rightarrow> 'a list" where
  "py_insert i x xs = (let n = int (length xs); j = nat (min n (if i < 0 then max 0 (i + n) else i)) in take j xs @ x # drop j xs)"

text \<open>\<open>' '.join(line.split())\<close>, which fails on the parts of a bytes line.\<close>

definition ascii_space :: "char \<Rightarrow> bool" where
  "ascii_space c \<longleftrightarrow> 9 \<le> code c \<and> code c \<le> 13 \<or> code c = 32"

definition squeezed :: "string \<Rightarrow> string" where
  "squeezed s = join '' '' (split_ws s)"

definition squeezed_line :: "line_value \<Rightarrow> string res" where
  "squeezed_line l =
     (case l of
        TextLine s \<Rightarrow> Inr (squeezed s)
      | DataLine d \<Rightarrow> if list_all ascii_space d then Inr [] else Inl (TypeError ''sequence item 0: expected str instance, bytes found'')
      | NoLine \<Rightarrow> Inr [])"

text \<open>The text of a line or hunk in a message; \<open>bytes_repr\<close> prints bytes.\<close>

definition line_shown :: "(string \<Rightarrow> string) \<Rightarrow> line_value \<Rightarrow> string" where
  "line_shown bytes_repr l = (case l of TextLine s \<Rightarrow> s | DataLine d \<Rightarrow> bytes_repr d | NoLine \<Rightarrow> ''None'')"

definition hunk_shown :: "(string \<Rightarrow> string) \<Rightarrow> hunk_tag \<Rightarrow> string" where
  "hunk_shown bytes_repr h = (case h of NoHunk \<Rightarrow> [] | HunkNo n \<Rightarrow> '', in hunk #'' @ nat_str n | HunkData d \<Rightarrow> '', in hunk #'' @ bytes_repr d)"

definition hunk_apply_exception :: "(string \<Rightarrow> string) \<Rightarrow> int \<Rightarrow> line_value \<Rightarrow> string \<Rightarrow> hunk_tag \<Rightarrow> 'x res" where
  "hunk_apply_exception bytes_repr n l rest h =
     Inl (OtherError ''HunkApplyException''
       (''context line '' @ int_str n @ '', '' @ [CHR 0x22] @ line_shown bytes_repr l @ [CHR 0x22] @ rest @ hunk_shown bytes_repr h))"

definition check_change :: "(string \<Rightarrow> string) \<Rightarrow> string list \<Rightarrow> change \<Rightarrow> unit res" where
  "check_change bytes_repr ls c =
     (case ch_old c of
        None \<Rightarrow> Inr ()
      | Some old \<Rightarrow>
          if ch_line c = NoLine then Inr ()
          else if old > int (length ls) then
            hunk_apply_exception bytes_repr old (ch_line c) '' does not exist in source'' (ch_hunk c)
          else res_bind (list_position (int (length ls)) (old - 1) ''list index out of range'') (\<lambda>j.
            if TextLine (ls ! j) = ch_line c then Inr ()
            else res_bind (squeezed_line (ch_line c)) (\<lambda>w.
              if w = squeezed (ls ! j) then Inr ()
              else hunk_apply_exception bytes_repr old (ch_line c)
                     ('' does not match '' @ [CHR 0x22] @ ls ! j @ [CHR 0x22]) (ch_hunk c))))"

fun check_changes :: "(string \<Rightarrow> string) \<Rightarrow> string list \<Rightarrow> change list \<Rightarrow> unit res" where
  "check_changes bytes_repr ls [] = Inr ()"
| "check_changes bytes_repr ls (c # cs) = res_bind (check_change bytes_repr ls c) (\<lambda>_. check_changes bytes_repr ls cs)"

fun make_changes :: "change list \<Rightarrow> int \<Rightarrow> int \<Rightarrow> line_value list \<Rightarrow> line_value list res" where
  "make_changes [] r i ls = Inr ls"
| "make_changes (c # cs) r i ls =
     (case (ch_old c, ch_new c) of
        (Some old, None) \<Rightarrow> res_bind (py_delete (old - 1 - r + i) ls) (make_changes cs (r + 1) i)
      | (None, Some new) \<Rightarrow> make_changes cs r (i + 1) (py_insert (new - 1) (ch_line c) ls)
      | _ \<Rightarrow> make_changes cs r i ls)"

text \<open>\<open>run_patch\<close> is \<open>_apply_diff_with_subprocess\<close>, which calls the program \<open>patch\<close>.\<close>

definition apply_diff ::
  "(string \<Rightarrow> string) \<Rightarrow> (diffobj \<Rightarrow> string list \<Rightarrow> bool \<Rightarrow> string list res) \<Rightarrow> diffobj \<Rightarrow> string list \<Rightarrow> bool \<Rightarrow> bool \<Rightarrow> line_value list res"
where
  "apply_diff bytes_repr run_patch diff ls backwards use_patch =
     (if use_patch then res_map (map TextLine) (run_patch diff ls backwards)
      else (case d_changes diff of
              None \<Rightarrow> Inl (TypeError ([CHR 0x27] @ ''NoneType'' @ [CHR 0x27] @ '' object is not iterable''))
            | Some cs0 \<Rightarrow>
                (let cs = (if backwards then reversed cs0 else cs0)
                 in res_bind (check_changes bytes_repr ls cs) (\<lambda>_. make_changes cs 0 0 (map TextLine ls)))))"

end
