(* ===== verification/Patch_Scripts.thy ===== *)
theory Patch_Scripts
  imports Patching
begin

text \<open>
  What a patch means, for \<open>src/openhands/resolver/patching\<close>. An edit script keeps, deletes and inserts
  lines; \<open>describes\<close> says that a list of changes is a script, and applying such changes edits the file
  or raises. The locale \<open>edit_format\<close> is the contract between a printed diff format and its parser; unified,
  default and RCS diffs satisfy it, so what is shown about applying holds for each of them.
\<close>

section \<open>Edit scripts\<close>

datatype edit = Keep string | Del string | Ins string

fun old_of :: "edit list \<Rightarrow> string list" where
  "old_of [] = []"
| "old_of (Keep x # es) = x # old_of es"
| "old_of (Del x # es) = x # old_of es"
| "old_of (Ins x # es) = old_of es"

fun new_of :: "edit list \<Rightarrow> string list" where
  "new_of [] = []"
| "new_of (Keep x # es) = x # new_of es"
| "new_of (Del x # es) = new_of es"
| "new_of (Ins x # es) = x # new_of es"

text \<open>What a script makes of a file that has as many lines as the script reads, or more: kept lines stay as the file has them.\<close>

fun edited :: "edit list \<Rightarrow> string list \<Rightarrow> string list" where
  "edited (Ins x # es) ls = x # edited es ls"
| "edited (Keep x # es) (l # ls) = l # edited es ls"
| "edited (Del x # es) (l # ls) = edited es ls"
| "edited es ls = ls"

lemma edited_old [simp]: "edited es (old_of es @ rest) = new_of es @ rest"
  by (induction es rule: old_of.induct) auto

lemma edited_old_only [simp]: "edited es (old_of es) = new_of es"
  using edited_old [of es "[]"] by simp

fun inverse_edit :: "edit \<Rightarrow> edit" where
  "inverse_edit (Keep x) = Keep x"
| "inverse_edit (Del x) = Ins x"
| "inverse_edit (Ins x) = Del x"

lemma inverse_script [simp]:
  "old_of (map inverse_edit es) = new_of es" "new_of (map inverse_edit es) = old_of es"
  by (induction es rule: old_of.induct) auto

lemma old_of_append [simp]: "old_of (es @ fs) = old_of es @ old_of fs"
  and new_of_append [simp]: "new_of (es @ fs) = new_of es @ new_of fs"
  by (induction es rule: old_of.induct) auto

lemma keeps [simp]: "old_of (map Keep xs) = xs" "new_of (map Keep xs) = xs"
  and dels [simp]: "old_of (map Del xs) = xs" "new_of (map Del xs) = []"
  and inss [simp]: "old_of (map Ins xs) = []" "new_of (map Ins xs) = xs"
  by (induction xs) auto

section \<open>The changes of a script\<close>

text \<open>\<open>describes o n es cs\<close>: the changes \<open>cs\<close> are the script \<open>es\<close> after \<open>o\<close> old and \<open>n\<close> new lines.
  A kept line may be left out; a deletion may come without its line, as in \<open>ed\<close> scripts.\<close>

inductive describes :: "nat \<Rightarrow> nat \<Rightarrow> edit list \<Rightarrow> change list \<Rightarrow> bool" where
  no_edit: "describes p q [] []"
| hidden: "describes (Suc p) (Suc q) es cs \<Longrightarrow> describes p q (Keep x # es) cs"
| shown: "describes (Suc p) (Suc q) es cs \<Longrightarrow>
     describes p q (Keep x # es) (Change (Some (int p + 1)) (Some (int q + 1)) (TextLine x) h # cs)"
| removal: "describes (Suc p) q es cs \<Longrightarrow> l = TextLine x \<or> l = NoLine \<Longrightarrow>
     describes p q (Del x # es) (Change (Some (int p + 1)) None l h # cs)"
| insertion: "describes p (Suc q) es cs \<Longrightarrow>
     describes p q (Ins x # es) (Change None (Some (int q + 1)) (TextLine x) h # cs)"

lemma describes_append:
  "describes p q es cs \<Longrightarrow> describes (p + length (old_of es)) (q + length (new_of es)) fs ds \<Longrightarrow>
   describes p q (es @ fs) (cs @ ds)"
  by (induction rule: describes.induct) (auto intro: describes.intros)

lemma describes_gap: "describes p q (map Keep xs) []"
  by (induction xs arbitrary: p q) (auto intro: describes.intros)

lemma describes_after_gap:
  "describes (p + length xs) (q + length xs) es cs \<Longrightarrow> describes p q (map Keep xs @ es) cs"
  using describes_append [OF describes_gap, of p xs q es cs] by simp

definition all_shown :: "change list \<Rightarrow> bool" where
  "all_shown cs \<longleftrightarrow> (\<forall>c \<in> set cs. ch_line c \<noteq> NoLine)"

lemma describes_reversed:
  "describes p q es cs \<Longrightarrow> all_shown cs \<Longrightarrow> describes q p (map inverse_edit es) (reversed cs)"
  by (induction rule: describes.induct)
    (auto intro: describes.intros simp: all_shown_def reversed_def reverse_change_def)

section \<open>Applying\<close>

lemma py_delete_middle: "py_delete (int (length xs)) (xs @ y # ys) = Inr (xs @ ys)"
  by (simp add: py_delete_def list_position_def Let_def)

lemma py_insert_middle: "py_insert (int (length xs)) y (xs @ ys) = xs @ y # ys"
  by (simp add: py_insert_def Let_def)

text \<open>While the changes are made, the list is the new lines so far and the rest of the old ones.\<close>

lemma make_changes_edit:
  "describes p q es cs \<Longrightarrow> i - r = int q - int p \<Longrightarrow> length pre = q \<Longrightarrow> length (old_of es) \<le> length rest \<Longrightarrow>
   make_changes cs r i (map TextLine (pre @ rest)) = Inr (map TextLine (pre @ edited es rest))"
proof (induction arbitrary: r i pre rest rule: describes.induct)
  case (no_edit p q)
  then show ?case by simp
next
  case (hidden p q es cs x)
  then obtain l ls where "rest = l # ls" by (cases rest) auto
  with hidden.IH [of i r "pre @ [l]" ls] hidden.prems show ?case by simp
next
  case (shown p q es cs x h)
  then obtain l ls where "rest = l # ls" by (cases rest) auto
  with shown.IH [of i r "pre @ [l]" ls] shown.prems show ?case by simp
next
  case (removal p q es cs l' x h)
  then obtain l ls where rest: "rest = l # ls" by (cases rest) auto
  have "int p - r + i = int (length (map TextLine pre))" using removal.prems by simp
  then have d: "py_delete (int p - r + i) (map TextLine pre @ TextLine l # map TextLine ls) = Inr (map TextLine pre @ map TextLine ls)"
    by (simp only: py_delete_middle)
  from removal.IH [of i "r + 1" pre ls] removal.prems rest show ?case by (simp add: d)
next
  case (insertion p q es cs x h)
  have "int q + 1 - 1 = int (length (map TextLine pre))" using insertion.prems by simp
  with py_insert_middle [of "map TextLine pre" "TextLine x" "map TextLine rest"]
    insertion.IH [of "i + 1" r "pre @ [x]" rest] insertion.prems show ?case by simp
qed

text \<open>The lines the changes show agree with the file up to runs of white space.\<close>

definition agrees :: "string list \<Rightarrow> change \<Rightarrow> bool" where
  "agrees ls c = (case (ch_old c, ch_line c) of
     (Some old, TextLine x) \<Rightarrow> squeezed (ls ! nat (old - 1)) = squeezed x | _ \<Rightarrow> True)"

definition reads_within :: "nat \<Rightarrow> nat \<Rightarrow> change \<Rightarrow> bool" where
  "reads_within p m c \<longleftrightarrow> (\<forall>old. ch_old c = Some old \<longrightarrow> int p < old \<and> old \<le> int m) \<and> (\<forall>d. ch_line c \<noteq> DataLine d)"

lemma check_change_text:
  assumes "reads_within 0 (length ls) c"
  shows "if agrees ls c then check_change br ls c = Inr ()
     else \<exists>m. check_change br ls c = Inl (OtherError ''HunkApplyException'' m)"
  using assms by (cases "ch_old c"; cases "ch_line c")
    (auto simp: check_change_def reads_within_def agrees_def list_position_def Let_def squeezed_line_def hunk_apply_exception_def)

lemma describes_reads: "describes p q es cs \<Longrightarrow> c \<in> set cs \<Longrightarrow> reads_within p (p + length (old_of es)) c"
  by (induction rule: describes.induct) (auto simp: reads_within_def)

lemma check_changes_text:
  "\<forall>c \<in> set cs. reads_within 0 (length ls) c \<Longrightarrow>
   if \<forall>c \<in> set cs. agrees ls c then check_changes br ls cs = Inr ()
   else \<exists>m. check_changes br ls cs = Inl (OtherError ''HunkApplyException'' m)"
proof (induction cs)
  case (Cons c cs)
  then have IH: "if \<forall>c \<in> set cs. agrees ls c then check_changes br ls cs = Inr ()
     else \<exists>m. check_changes br ls cs = Inl (OtherError ''HunkApplyException'' m)" by simp
  from check_change_text [of ls c br] Cons.prems
  have c: "if agrees ls c then check_change br ls c = Inr ()
     else \<exists>m. check_change br ls c = Inl (OtherError ''HunkApplyException'' m)" by simp
  show ?case
  proof (cases "agrees ls c")
    case True
    with c IH show ?thesis by (auto split: if_splits)
  next
    case False
    with c obtain m where "check_change br ls c = Inl (OtherError ''HunkApplyException'' m)" by auto
    with False show ?thesis by auto
  qed
qed simp

lemma apply_described:
  assumes "describes 0 0 es cs" "d_changes d = Some cs" "length (old_of es) \<le> length ls"
  shows "if \<forall>c \<in> set cs. agrees ls c then apply_diff br run d ls False False = Inr (map TextLine (edited es ls))
     else \<exists>m. apply_diff br run d ls False False = Inl (OtherError ''HunkApplyException'' m)"
proof -
  have "reads_within 0 (length ls) c" if "c \<in> set cs" for c
    using describes_reads [OF assms(1) that] assms(3) by (auto simp: reads_within_def)
  then have "if \<forall>c \<in> set cs. agrees ls c then check_changes br ls cs = Inr ()
     else \<exists>m. check_changes br ls cs = Inl (OtherError ''HunkApplyException'' m)"
    by (intro check_changes_text) blast
  moreover have "make_changes cs 0 0 (map TextLine ls) = Inr (map TextLine (edited es ls))"
    using make_changes_edit [OF assms(1), of 0 0 "[]" ls] assms(3) by simp
  ultimately show ?thesis using assms(2) by (auto simp: apply_diff_def split: if_splits)
qed

text \<open>The changes of a script agree with the file the script was made for.\<close>

lemma old_agrees:
  "describes p q es cs \<Longrightarrow> c \<in> set cs \<Longrightarrow> length pre = p \<Longrightarrow> agrees (pre @ old_of es @ post) c"
proof (induction arbitrary: pre rule: describes.induct)
  case (hidden p q es cs x)
  from hidden.IH [of "pre @ [x]"] hidden.prems show ?case by simp
next
  case (shown p q es cs x h)
  from shown.IH [of "pre @ [x]"] shown.prems show ?case by (auto simp: agrees_def nth_append)
next
  case (removal p q es cs l x h)
  from removal.IH [of "pre @ [x]"] removal.prems removal.hyps show ?case by (auto simp: agrees_def nth_append)
next
  case (insertion p q es cs x h)
  from insertion.IH [of pre] insertion.prems show ?case by (auto simp: agrees_def)
qed simp

lemma apply_described_old:
  assumes "describes 0 0 es cs" "d_changes d = Some cs"
  shows "apply_diff br run d (old_of es @ post) False False = Inr (map TextLine (new_of es @ post))"
  using apply_described [OF assms, of "old_of es @ post" br run] old_agrees [OF assms(1), where pre = "[]" and post = post]
  by (auto split: if_splits)

lemma apply_described_back:
  assumes "describes 0 0 es cs" "d_changes d = Some cs" "all_shown cs"
  shows "apply_diff br run d (new_of es @ post) True False = Inr (map TextLine (old_of es @ post))"
proof -
  have "describes 0 0 (map inverse_edit es) (reversed cs)" by (rule describes_reversed [OF assms(1,3)])
  from apply_described_old [OF this, of "d\<lparr>d_changes := Some (reversed cs)\<rparr>" br run post] assms(2)
  show ?thesis by (simp add: apply_diff_def)
qed

section \<open>Splitting\<close>

text \<open>Splitting by a pattern as a recursion on the lines.\<close>

fun splits :: "pattern \<Rightarrow> string list \<Rightarrow> string list list" where
  "splits p [] = [[]]"
| "splits p (x # xs) =
     (case splits p xs of [] \<Rightarrow> [] | c # cs \<Rightarrow> if matches p x then [] # (x # c) # cs else (x # c) # cs)"

lemma splits_ne [simp]: "splits p xs \<noteq> []"
  by (induction xs) (auto split: list.splits)

lemma findall_Nil [simp]: "findall_regex [] p = []"
  by (simp add: findall_regex_def)

lemma findall_Cons: "findall_regex (x # xs) p = (if matches p x then [0] else []) @ map Suc (findall_regex xs p)"
proof -
  have "[0..<length (x # xs)] = 0 # map Suc [0..<length xs]" by (simp add: map_Suc_upt upt_conv_Cons del: upt_Suc)
  then show ?thesis by (simp add: findall_regex_def filter_map o_def)
qed

lemma has_match_iff [simp]: "has_match xs p \<longleftrightarrow> (\<exists>x \<in> set xs. matches p x)"
  unfolding has_match_def by (induction xs) (auto simp: findall_Cons)

definition slices :: "string list \<Rightarrow> nat list \<Rightarrow> string list list" where
  "slices xs is = map (\<lambda>(i, j). drop i (take j xs)) (zip is (drop 1 is)) @ [drop (last is) xs]"

lemma slices_Suc: "is \<noteq> [] \<Longrightarrow> slices (x # xs) (map Suc is) = slices xs is"
  by (simp add: slices_def zip_map_map last_map drop_map case_prod_unfold)

lemma slices_step: "is \<noteq> [] \<Longrightarrow> slices xs (i # is) = drop i (take (hd is) xs) # slices xs is"
  by (cases "is") (simp_all add: slices_def)

lemma slices_Cons0: "slices (x # xs) (0 # map Suc is) = (if is = [] then [x # xs] else (x # take (hd is) xs) # slices xs is)"
  by (simp add: slices_step slices_Suc hd_map) (simp add: slices_def)

lemma split_by_regex_slices:
  "split_by_regex xs p = (let is = findall_regex xs p in if is = [] then [xs] else take (hd is) xs # slices xs is)"
  by (simp add: split_by_regex_def slices_def Let_def)

lemma split_by_regex_splits: "split_by_regex xs p = splits p xs"
proof (induction xs)
  case Nil
  then show ?case by (simp add: split_by_regex_def)
next
  case (Cons x xs)
  show ?case
  proof (cases "findall_regex xs p = []")
    case True
    with Cons.IH have "splits p xs = [xs]" by (simp add: split_by_regex_slices)
    with True show ?thesis by (auto simp: split_by_regex_slices findall_Cons slices_def)
  next
    case False
    with Cons.IH have "splits p xs = take (hd (findall_regex xs p)) xs # slices xs (findall_regex xs p)"
      by (simp add: split_by_regex_slices Let_def)
    with False show ?thesis
      by (simp add: split_by_regex_slices findall_Cons Let_def slices_Suc slices_Cons0 hd_map)
  qed
qed

lemma splits_unmatched: "\<forall>x \<in> set xs. \<not> matches p x \<Longrightarrow> splits p (xs @ ys) = (xs @ hd (splits p ys)) # drop 1 (splits p ys)"
  by (induction xs) (auto split: list.splits simp: neq_Nil_conv; cases "splits p ys"; simp)+

text \<open>Chunks that begin with a match and have no other are the parts of the split.\<close>

lemma splits_chunks:
  "\<forall>(h, b) \<in> set chunks. matches p h \<and> (\<forall>x \<in> set b. \<not> matches p x) \<Longrightarrow>
   splits p (concat (map (\<lambda>(h, b). h # b) chunks)) = [] # map (\<lambda>(h, b). h # b) chunks"
proof (induction chunks)
  case (Cons c chunks)
  obtain h b where c: "c = (h, b)" by (cases c)
  from Cons have "splits p (concat (map (\<lambda>(h, b). h # b) chunks)) = [] # map (\<lambda>(h, b). h # b) chunks" by simp
  with splits_unmatched [of b p "concat (map (\<lambda>(h, b). h # b) chunks)"] Cons.prems c show ?case by simp
qed simp

lemma split_chunks:
  "\<forall>x \<in> set pre. \<not> matches p x \<Longrightarrow> \<forall>(h, b) \<in> set chunks. matches p h \<and> (\<forall>x \<in> set b. \<not> matches p x) \<Longrightarrow>
   split_by_regex (pre @ concat (map (\<lambda>(h, b). h # b) chunks)) p = pre # map (\<lambda>(h, b). h # b) chunks"
  by (simp add: split_by_regex_splits splits_unmatched splits_chunks)

section \<open>Formats\<close>

text \<open>Hunks: the kept lines since the last hunk, a heading, and the edits.\<close>

type_synonym hunk = "string list \<times> string \<times> edit list"

fun script_of :: "hunk list \<Rightarrow> edit list" where
  "script_of [] = []"
| "script_of ((gap, _, es) # hs) = map Keep gap @ es @ script_of hs"

locale edit_format =
  fixes print :: "hunk list \<Rightarrow> string list"
    and parse :: "string list \<Rightarrow> change list option"
    and printable :: "hunk list \<Rightarrow> bool"
  assumes parse_print: "printable hs \<Longrightarrow> \<exists>cs. parse (print hs) = Some cs \<and> describes 0 0 (script_of hs) cs"
begin

lemma printed_diff_applies:
  assumes "printable hs" "d_changes d = parse (print hs)"
  shows "apply_diff br run d (old_of (script_of hs) @ post) False False = Inr (map TextLine (new_of (script_of hs) @ post))"
proof -
  from parse_print [OF assms(1)] obtain cs where "parse (print hs) = Some cs" "describes 0 0 (script_of hs) cs" by blast
  with assms(2) show ?thesis by (simp add: apply_described_old)
qed

text \<open>On another file of enough lines, a diff edits it or is refused.\<close>

lemma printed_diff_edits_or_raises:
  assumes "printable hs" "d_changes d = parse (print hs)" "length (old_of (script_of hs)) \<le> length ls"
  shows "apply_diff br run d ls False False = Inr (map TextLine (edited (script_of hs) ls))
     \<or> (\<exists>m. apply_diff br run d ls False False = Inl (OtherError ''HunkApplyException'' m))"
proof -
  from parse_print [OF assms(1)] obtain cs where "parse (print hs) = Some cs" "describes 0 0 (script_of hs) cs" by blast
  with apply_described [of "script_of hs" cs d ls br run] assms(2,3) show ?thesis by (auto split: if_splits)
qed

end

locale reversible_format = edit_format +
  assumes parse_shows: "printable hs \<Longrightarrow> parse (print hs) = Some cs \<Longrightarrow> all_shown cs"
begin

lemma printed_diff_reverses:
  assumes "printable hs" "d_changes d = parse (print hs)"
  shows "apply_diff br run d (new_of (script_of hs) @ post) True False = Inr (map TextLine (old_of (script_of hs) @ post))"
proof -
  from parse_print [OF assms(1)] obtain cs where cs: "parse (print hs) = Some cs" "describes 0 0 (script_of hs) cs" by blast
  with parse_shows assms have "all_shown cs" by blast
  with cs assms(2) show ?thesis by (simp add: apply_described_back)
qed

end

section \<open>Unified diffs\<close>

text \<open>A range as \<open>diff -u\<close> prints it: a range of one line has no length, and an empty one begins at the line before it.\<close>

definition range_text :: "nat \<Rightarrow> nat \<Rightarrow> string" where
  "range_text before len = nat_str (if len = 0 then before else Suc before) @ (if len = 1 then [] else '','' @ nat_str len)"

fun edit_line :: "edit \<Rightarrow> string" where
  "edit_line (Keep x) = space # x"
| "edit_line (Del x) = CHR ''-'' # x"
| "edit_line (Ins x) = CHR ''+'' # x"

definition hunk_header :: "nat \<Rightarrow> nat \<Rightarrow> string \<Rightarrow> edit list \<Rightarrow> string" where
  "hunk_header p q heading es =
     ''@@ -'' @ range_text p (length (old_of es)) @ '' +'' @ range_text q (length (new_of es)) @ '' @@'' @ heading"

fun unified_chunks :: "nat \<Rightarrow> nat \<Rightarrow> hunk list \<Rightarrow> (string \<times> string list) list" where
  "unified_chunks p q [] = []"
| "unified_chunks p q ((gap, heading, es) # hs) =
     (let p' = p + length gap; q' = q + length gap
      in (hunk_header p' q' heading es, map edit_line es)
         # unified_chunks (p' + length (old_of es)) (q' + length (new_of es)) hs)"

definition print_unified :: "hunk list \<Rightarrow> string list" where
  "print_unified hs = concat (map (\<lambda>(h, b). h # b) (unified_chunks 0 0 hs))"

definition unified_printable :: "hunk list \<Rightarrow> bool" where
  "unified_printable hs \<longleftrightarrow> hs \<noteq> [] \<and> (\<forall>(gap, heading, es) \<in> set hs. nl \<notin> set heading \<and> es \<noteq> [])"

lemma digits_of_nat_str [simp]: "int_of_digits (nat_str n) = int n"
  by (simp add: int_of_digits_def digits_val_nat_str)

lemma first_some_single [simp]: "first_some [x] = x"
  by (cases x) simp_all

lemma unfold_opt:
  "match_pieces (opt c # ps) s = (case s of
     x # xs \<Rightarrow> if c x then (case match_pieces ps xs of None \<Rightarrow> match_pieces ps s | Some gs \<Rightarrow> Some gs) else match_pieces ps s
   | [] \<Rightarrow> match_pieces ps s)"
  by (auto simp: opt_def run_lengths_def Let_def option.map_ident split: list.splits option.splits)

lemma grp0_none: "match_pieces ps v = Some gs \<Longrightarrow> v = [] \<or> \<not> c (hd v) \<Longrightarrow> match_pieces (grp0 c # ps) v = Some ([] # gs)"
  using run_then [of "[]" c v 0 ps gs True] by (simp add: grp0_def)

lemma number0_then:
  assumes "v = [] \<or> \<not> is_digit (hd v)" "match_pieces ps v = Some gs"
  shows "match_pieces (grp0 is_digit # ps) (nat_str n @ v) = Some (nat_str n # gs)"
  using run_then [of "nat_str n" is_digit v 0 ps gs True] assms nat_str_digits
  by (simp add: grp0_def)

text \<open>A range is read as its start and its length.\<close>

lemma range_read:
  assumes "v = [] \<or> \<not> is_digit (hd v) \<and> hd v \<noteq> CHR '',''" "match_pieces ps v = Some gs"
  shows "match_pieces (range_then ps) (range_text p len @ v)
     = Some (nat_str (if len = 0 then p else Suc p) # (if len = 1 then [] else nat_str len) # gs)"
proof (cases "len = 1")
  case True
  have z: "match_pieces (grp0 is_digit # ps) v = Some ([] # gs)" using assms by (intro grp0_none) auto
  have "match_pieces (opt (\<lambda>c. c = CHR '','') # grp0 is_digit # ps) v = Some ([] # gs)"
    using assms(1) z by (auto simp: unfold_opt split: list.splits)
  with number_then [of v "opt (\<lambda>c. c = CHR '','') # grp0 is_digit # ps" "[] # gs" "Suc p"] assms(1) True
  show ?thesis by (auto simp: range_then_def range_text_def)
next
  case False
  let ?ps = "opt (\<lambda>c. c = CHR '','') # grp0 is_digit # ps"
  have "match_pieces (grp0 is_digit # ps) (nat_str len @ v) = Some (nat_str len # gs)"
    using assms by (intro number0_then) auto
  then have "match_pieces ?ps (CHR '','' # nat_str len @ v) = Some (nat_str len # gs)"
    by (simp add: unfold_opt)
  moreover have "\<not> is_digit (CHR '','')" by code_simp
  ultimately have "match_pieces (grp1 is_digit # ?ps) (nat_str k @ CHR '','' # nat_str len @ v) = Some (nat_str k # nat_str len # gs)" for k
    by (intro number_then) auto
  with False show ?thesis by (simp add: range_then_def range_text_def)
qed

lemma hunk_header_read:
  assumes "nl \<notin> set heading"
  shows "\<exists>a b c d e. match_pieces unified_hunk_start (hunk_header p q heading es) = Some [a, b, c, d, e]
     \<and> int_of_digits a = int (if old_of es = [] then p else Suc p) \<and> unified_length b = int (length (old_of es))
     \<and> int_of_digits c = int (if new_of es = [] then q else Suc q) \<and> unified_length d = int (length (new_of es))"
proof -
  have e: "match_pieces [Lit '' @@'', grp0 dot, EndOfLine] ('' @@'' @ heading) = Some [heading]"
    using rest_of_line [OF assms, of 0 True] by (simp add: grp0_def del: match_pieces.simps(3))
  have sp: "\<not> is_digit space" by code_simp
  have "match_pieces (range_then [Lit '' @@'', grp0 dot, EndOfLine]) (range_text q (length (new_of es)) @ '' @@'' @ heading)
     = Some [nat_str (if length (new_of es) = 0 then q else Suc q), if length (new_of es) = 1 then [] else nat_str (length (new_of es)), heading]"
    by (rule range_read [OF _ e]) (simp add: sp)
  then have n: "match_pieces (Lit '' +'' # range_then [Lit '' @@'', grp0 dot, EndOfLine])
       ('' +'' @ range_text q (length (new_of es)) @ '' @@'' @ heading)
     = Some [nat_str (if length (new_of es) = 0 then q else Suc q), if length (new_of es) = 1 then [] else nat_str (length (new_of es)), heading]"
    by simp
  from range_read [OF _ n, of p "length (old_of es)"] show ?thesis
    by (auto simp: unified_hunk_start_def hunk_header_def sp unified_length_def)
qed

lemma edit_line_no_start: "\<not> matches unified_hunk_start (edit_line e)"
  by (cases e) (simp_all add: unified_hunk_start_def)

text \<open>The lines of a hunk are its edits.\<close>

lemma unified_body_describes:
  assumes "old_of es \<noteq> [] \<longrightarrow> rg_old g + r = int p + 1" "new_of es \<noteq> [] \<longrightarrow> rg_new g + i = int q + 1"
    "rg_old_len g = r + int (length (old_of es))" "rg_new_len g = i + int (length (new_of es))"
  shows "describes p q es (unified_body n g r i (map edit_line es))"
  using assms
proof (induction es arbitrary: r i p q)
  case (Cons e es)
  show ?case
  proof (cases e)
    case (Keep x)
    have "describes (Suc p) (Suc q) es (unified_body n g (r + 1) (i + 1) (map edit_line es))"
      using Cons.prems Keep by (intro Cons.IH) auto
    with Keep Cons.prems show ?thesis by (auto intro: describes.shown)
  next
    case (Del x)
    have "describes (Suc p) q es (unified_body n g (r + 1) i (map edit_line es))"
      using Cons.prems Del by (intro Cons.IH) auto
    with Del Cons.prems show ?thesis by (auto intro: describes.removal)
  next
    case (Ins x)
    have "describes p (Suc q) es (unified_body n g r (i + 1) (map edit_line es))"
      using Cons.prems Ins by (intro Cons.IH) auto
    with Ins Cons.prems show ?thesis by (auto intro: describes.insertion)
  qed
qed (auto intro: describes.no_edit)

lemma unified_body_shown: "c \<in> set (unified_body n g r i ls) \<Longrightarrow> ch_line c \<noteq> NoLine"
  by (induction ls arbitrary: r i) (auto simp: Let_def split: if_splits)

lemma unified_hunks_shown: "all_shown (unified_hunks n g hs)"
  by (induction hs arbitrary: n g)
    (auto simp: all_shown_def split: prod.splits dest: unified_body_shown)

lemma unified_start_header:
  assumes "nl \<notin> set heading"
  shows "\<exists>g'. unified_start g (hunk_header p q heading es # body) = (g', body)
     \<and> (old_of es \<noteq> [] \<longrightarrow> rg_old g' = int p + 1) \<and> (new_of es \<noteq> [] \<longrightarrow> rg_new g' = int q + 1)
     \<and> rg_old_len g' = int (length (old_of es)) \<and> rg_new_len g' = int (length (new_of es))"
  using hunk_header_read [OF assms, of p q es] by (auto split: if_splits)

lemma unified_hunks_describes:
  "\<forall>(gap, heading, es) \<in> set hs. nl \<notin> set heading \<Longrightarrow>
   describes p q (script_of hs) (unified_hunks n g (map (\<lambda>(h, b). h # b) (unified_chunks p q hs)))"
proof (induction hs arbitrary: p q n g)
  case (Cons h hs)
  obtain gap heading es where h: "h = (gap, heading, es)" by (cases h)
  let ?p = "p + length gap" and ?q = "q + length gap"
  from Cons.prems h have "nl \<notin> set heading" by simp
  from unified_start_header [OF this, of g ?p ?q es "map edit_line es"] obtain g' where
    g': "unified_start g (hunk_header ?p ?q heading es # map edit_line es) = (g', map edit_line es)"
      "old_of es \<noteq> [] \<longrightarrow> rg_old g' = int ?p + 1" "new_of es \<noteq> [] \<longrightarrow> rg_new g' = int ?q + 1"
      "rg_old_len g' = int (length (old_of es))" "rg_new_len g' = int (length (new_of es))" by blast
  have b: "describes ?p ?q es (unified_body n g' 0 0 (map edit_line es))"
    by (rule unified_body_describes) (use g' in simp_all)
  have "describes (?p + length (old_of es)) (?q + length (new_of es)) (script_of hs)
     (unified_hunks (Suc n) g' (map (\<lambda>(h, b). h # b) (unified_chunks (?p + length (old_of es)) (?q + length (new_of es)) hs)))"
    by (rule Cons.IH) (use Cons.prems in simp)
  from describes_after_gap [OF describes_append [OF b this]] h g'(1) show ?case by (simp add: Let_def)
qed (auto intro: describes.no_edit)

lemma unified_chunks_match:
  "\<forall>(gap, heading, es) \<in> set hs. nl \<notin> set heading \<Longrightarrow>
   \<forall>(h, b) \<in> set (unified_chunks p q hs). matches unified_hunk_start h \<and> (\<forall>x \<in> set b. \<not> matches unified_hunk_start x)"
proof (induction hs arbitrary: p q)
  case (Cons h hs)
  obtain gap heading es where h: "h = (gap, heading, es)" by (cases h)
  with Cons.prems have "nl \<notin> set heading" by simp
  from hunk_header_read [OF this, of "p + length gap" "q + length gap" es]
  have "matches unified_hunk_start (hunk_header (p + length gap) (q + length gap) heading es)" by (auto simp: matches_def)
  with Cons h show ?case by (auto simp: Let_def edit_line_no_start)
qed simp

lemma unified_body_ne: "es \<noteq> [] \<Longrightarrow> rg_old_len g = int (length (old_of es)) \<Longrightarrow> rg_new_len g = int (length (new_of es)) \<Longrightarrow>
   unified_body n g 0 0 (map edit_line es) \<noteq> []"
  by (cases es; cases "hd es") auto

lemma print_unified_read:
  assumes "unified_printable hs" "\<forall>x \<in> set pre. \<not> matches unified_hunk_start x"
  shows "\<exists>cs. parse_unified_diff (pre @ print_unified hs) = Some cs \<and> describes 0 0 (script_of hs) cs \<and> all_shown cs"
proof -
  let ?chunks = "unified_chunks 0 0 hs"
  have clean: "\<forall>(gap, heading, es) \<in> set hs. nl \<notin> set heading" using assms(1) by (auto simp: unified_printable_def)
  have skip: "unified_start no_ranges pre = (no_ranges, [])" using assms(2)
    by (induction pre) (auto simp: matches_def)
  let ?cs = "unified_hunks 1 no_ranges (map (\<lambda>(h, b). h # b) ?chunks)"
  have "split_by_regex (pre @ print_unified hs) unified_hunk_start = pre # map (\<lambda>(h, b). h # b) ?chunks"
    unfolding print_unified_def using assms(2) unified_chunks_match [OF clean] by (rule split_chunks)
  with skip have cs: "parse_unified_diff (pre @ print_unified hs) = some_changes ?cs"
    by (simp add: parse_unified_diff_def)
  have "?cs \<noteq> []"
  proof (cases hs)
    case (Cons h hs')
    obtain gap heading es where h: "h = (gap, heading, es)" by (cases h)
    from assms(1) Cons h have "nl \<notin> set heading" "es \<noteq> []" by (auto simp: unified_printable_def)
    with unified_start_header [of heading no_ranges "length gap" "length gap" es "map edit_line es"] h Cons unified_body_ne [of es]
    show ?thesis by (auto simp: Let_def)
  qed (use assms(1) in \<open>simp add: unified_printable_def\<close>)
  with cs unified_hunks_describes [OF clean, of 0 0 1 no_ranges] unified_hunks_shown show ?thesis
    by (simp add: some_changes_def)
qed

interpretation unified: reversible_format print_unified parse_unified_diff unified_printable
  by unfold_locales (use print_unified_read [where pre = "[]"] in \<open>auto; force\<close>)+

section \<open>Default diffs and RCS scripts\<close>

text \<open>A hunk of these formats replaces lines by others and shows no context.\<close>

fun removed_lines :: "edit list \<Rightarrow> string list" where
  "removed_lines (Del x # es) = x # removed_lines es"
| "removed_lines es = []"

fun added_lines :: "edit list \<Rightarrow> string list" where
  "added_lines (Del x # es) = added_lines es"
| "added_lines (Ins x # es) = x # added_lines es"
| "added_lines es = []"

definition replaces :: "edit list \<Rightarrow> bool" where
  "replaces es \<longleftrightarrow> es \<noteq> [] \<and> es = map Del (removed_lines es) @ map Ins (added_lines es)"

definition end_range_text :: "nat \<Rightarrow> nat \<Rightarrow> string" where
  "end_range_text before len =
     (if len = 0 then nat_str before else if len = 1 then nat_str (Suc before) else nat_str (Suc before) @ '','' @ nat_str (before + len))"

definition default_header :: "nat \<Rightarrow> nat \<Rightarrow> nat \<Rightarrow> nat \<Rightarrow> string" where
  "default_header p q m k = end_range_text p m @ (if m = 0 then ''a'' else if k = 0 then ''d'' else ''c'') @ end_range_text q k"

definition default_lines :: "string list \<Rightarrow> string list \<Rightarrow> string list" where
  "default_lines ds as = map ((@) ''< '') ds @ (if ds \<noteq> [] \<and> as \<noteq> [] then [''---''] else []) @ map ((@) ''> '') as"

fun default_chunks :: "nat \<Rightarrow> nat \<Rightarrow> hunk list \<Rightarrow> (string \<times> string list) list" where
  "default_chunks p q [] = []"
| "default_chunks p q ((gap, _, es) # hs) =
     (let p' = p + length gap; q' = q + length gap; ds = removed_lines es; as = added_lines es
      in (default_header p' q' (length ds) (length as), default_lines ds as)
         # default_chunks (p' + length ds) (q' + length as) hs)"

definition print_default :: "hunk list \<Rightarrow> string list" where
  "print_default hs = concat (map (\<lambda>(h, b). h # b) (default_chunks 0 0 hs))"

definition default_hunk_ok :: "hunk \<Rightarrow> bool" where
  "default_hunk_ok h = (case h of (_, _, es) \<Rightarrow> replaces es \<and> (\<forall>x \<in> set (old_of es) \<union> set (new_of es). nl \<notin> set x))"

definition default_printable :: "hunk list \<Rightarrow> bool" where
  "default_printable hs \<longleftrightarrow> hs \<noteq> [] \<and> list_all default_hunk_ok hs"

lemma replaces_lines:
  assumes "replaces es"
  shows "es = map Del (removed_lines es) @ map Ins (added_lines es)" "old_of es = removed_lines es" "new_of es = added_lines es"
    "removed_lines es \<noteq> [] \<or> added_lines es \<noteq> []"
proof -
  show e: "es = map Del (removed_lines es) @ map Ins (added_lines es)" using assms by (simp add: replaces_def)
  show "old_of es = removed_lines es" by (subst e) simp
  show "new_of es = added_lines es" by (subst e) simp
  show "removed_lines es \<noteq> [] \<or> added_lines es \<noteq> []" using assms e by (auto simp: replaces_def)
qed

lemma end_range_read:
  assumes "v = [] \<or> \<not> is_digit (hd v) \<and> hd v \<noteq> CHR '',''" "match_pieces ps v = Some gs"
  shows "\<exists>a b. match_pieces (range_then ps) (end_range_text p len @ v) = Some (a # b # gs)
     \<and> int_of_digits a = int (if len = 0 then p else Suc p)
     \<and> range_length (int_of_digits a) b = (if len \<le> 1 then 0 else int len)"
proof (cases "len \<le> 1")
  case True
  have "match_pieces (range_then ps) (nat_str k @ v) = Some (nat_str k # [] # gs)" for k
  proof -
    have "match_pieces (grp0 is_digit # ps) v = Some ([] # gs)" using assms by (intro grp0_none) auto
    then have "match_pieces (opt (\<lambda>c. c = CHR '','') # grp0 is_digit # ps) v = Some ([] # gs)"
      using assms(1) by (auto simp: unfold_opt split: list.splits)
    with number_then [of v "opt (\<lambda>c. c = CHR '','') # grp0 is_digit # ps" "[] # gs" k] assms(1)
    show ?thesis by (auto simp: range_then_def)
  qed
  with True show ?thesis by (auto simp: end_range_text_def range_length_def le_Suc_eq)
next
  case False
  let ?ps = "opt (\<lambda>c. c = CHR '','') # grp0 is_digit # ps"
  have "match_pieces (grp0 is_digit # ps) (nat_str (p + len) @ v) = Some (nat_str (p + len) # gs)"
    using assms by (intro number0_then) auto
  then have "match_pieces ?ps (CHR '','' # nat_str (p + len) @ v) = Some (nat_str (p + len) # gs)"
    by (simp add: unfold_opt)
  moreover have "\<not> is_digit (CHR '','')" by code_simp
  ultimately have "match_pieces (grp1 is_digit # ?ps) (nat_str (Suc p) @ CHR '','' # nat_str (p + len) @ v)
     = Some (nat_str (Suc p) # nat_str (p + len) # gs)"
    by (intro number_then) auto
  with False show ?thesis by (simp add: range_then_def end_range_text_def range_length_def)
qed

lemma one_then:
  "c x \<Longrightarrow> match_pieces ps xs = Some gs \<Longrightarrow> match_pieces (one c # ps) (x # xs) = Some ([x] # gs)"
  by (simp add: one_def run_lengths_def Let_def)

lemma default_header_read:
  "\<exists>a b k c d. match_pieces default_hunk_start (default_header p q m n) = Some [a, b, k, c, d]
     \<and> int_of_digits a = int (if m = 0 then p else Suc p) \<and> range_length (int_of_digits a) b = (if m \<le> 1 then 0 else int m)
     \<and> int_of_digits c = int (if n = 0 then q else Suc q) \<and> range_length (int_of_digits c) d = (if n \<le> 1 then 0 else int n)"
proof -
  obtain c d where cd: "match_pieces (range_then [EndOfLine]) (end_range_text q n) = Some [c, d]"
    "int_of_digits c = int (if n = 0 then q else Suc q)" "range_length (int_of_digits c) d = (if n \<le> 1 then 0 else int n)"
    using end_range_read [of "[]" "[EndOfLine]" "[]" q n] by auto
  let ?k = "if m = 0 then CHR ''a'' else if n = 0 then CHR ''d'' else CHR ''c''"
  have "match_pieces (one (\<lambda>c. c \<in> set ''acd'') # range_then [EndOfLine]) (?k # end_range_text q n) = Some ([?k] # [c, d])"
    by (rule one_then [OF _ cd(1)]) simp
  moreover have "\<not> is_digit ?k \<and> ?k \<noteq> CHR '',''" by (auto simp: is_digit_def code_def)
  ultimately obtain a b where "match_pieces default_hunk_start (end_range_text p m @ ?k # end_range_text q n) = Some (a # b # [[?k], c, d])"
    "int_of_digits a = int (if m = 0 then p else Suc p)" "range_length (int_of_digits a) b = (if m \<le> 1 then 0 else int m)"
    unfolding default_hunk_start_def
    using end_range_read [of "?k # end_range_text q n" "one (\<lambda>c. c \<in> set ''acd'') # range_then [EndOfLine]" "[?k] # [c, d]" p m] by auto
  moreover have "default_header p q m n = end_range_text p m @ ?k # end_range_text q n" by (simp add: default_header_def)
  ultimately show ?thesis using cd(2,3) by auto
qed

lemma no_leading_digit: "\<not> is_digit x \<Longrightarrow> match_pieces (range_then ps) (x # xs) = None"
  by (simp add: range_then_def grp1_def run_lengths_def Let_def)

lemma default_lines_read:
  "match_pieces default_hunk_start (CHR ''<'' # space # x) = None"
  "match_pieces default_hunk_start (CHR ''>'' # space # x) = None"
  "match_pieces default_hunk_start ''---'' = None" "match_pieces default_change ''---'' = None"
  "nl \<notin> set x \<Longrightarrow> match_pieces default_change (CHR ''<'' # space # x) = Some [''<'', x]"
  "nl \<notin> set x \<Longrightarrow> match_pieces default_change (CHR ''>'' # space # x) = Some [''>'', x]"
proof -
  have d: "\<not> is_digit (CHR ''<'')" "\<not> is_digit (CHR ''>'')" "\<not> is_digit (CHR ''-'')" by code_simp+
  then show "match_pieces default_hunk_start (CHR ''<'' # space # x) = None"
    "match_pieces default_hunk_start (CHR ''>'' # space # x) = None" "match_pieces default_hunk_start ''---'' = None"
    by (simp_all only: default_hunk_start_def no_leading_digit not_False_eq_True)
  show "match_pieces default_change ''---'' = None"
    by (simp add: default_change_def one_def run_lengths_def Let_def)
  assume "nl \<notin> set x"
  then have "match_pieces [Lit '' '', grp0 dot, EndOfLine] (space # x) = Some [x]"
    using rest_of_line [of x 0 True] by (simp add: grp0_def del: match_pieces.simps(3))
  then show "match_pieces default_change (CHR ''<'' # space # x) = Some [''<'', x]"
    "match_pieces default_change (CHR ''>'' # space # x) = Some [''>'', x]"
    unfolding default_change_def by (simp_all add: one_then del: match_pieces.simps(2))
qed

lemma all_shown_simps [simp]: "all_shown []" "all_shown (c # cs) \<longleftrightarrow> ch_line c \<noteq> NoLine \<and> all_shown cs"
  "all_shown (cs @ ds) \<longleftrightarrow> all_shown cs \<and> all_shown ds"
  by (auto simp: all_shown_def)

text \<open>The removed and the added lines of a default hunk.\<close>

lemma default_removed:
  assumes "\<forall>x \<in> set ds. nl \<notin> set x" "ds \<noteq> [] \<longrightarrow> rg_old g + r = int p + 1" "0 \<le> r"
    "1 < r + int (length ds) \<longrightarrow> rg_old_len g = r + int (length ds)"
  shows "\<exists>cs. default_hunk n g r i (map ((@) ''< '') ds @ rest) = map_prod ((@) cs) id (default_hunk n g (r + int (length ds)) i rest)
     \<and> describes p q (map Del ds) cs \<and> all_shown cs"
  using assms
proof (induction ds arbitrary: r p)
  case Nil
  have "describes p q (map Del []) [] \<and> all_shown []" by (auto intro: describes.no_edit)
  then show ?case by (intro exI [of _ "[]"]) (simp add: map_prod_def case_prod_unfold)
next
  case (Cons x ds)
  have "\<exists>cs. default_hunk n g (r + 1) i (map ((@) ''< '') ds @ rest)
      = map_prod ((@) cs) id (default_hunk n g (r + 1 + int (length ds)) i rest)
    \<and> describes (Suc p) q (map Del ds) cs \<and> all_shown cs"
    by (rule Cons.IH) (use Cons.prems in auto)
  then obtain cs where cs: "default_hunk n g (r + 1) i (map ((@) ''< '') ds @ rest)
      = map_prod ((@) cs) id (default_hunk n g (r + 1 + int (length ds)) i rest)"
    "describes (Suc p) q (map Del ds) cs" "all_shown cs" by blast
  let ?c = "Change (Some (int p + 1)) None (TextLine x) (HunkNo n)"
  have "r \<noteq> rg_old_len g \<or> r = 0" using Cons.prems(3,4) by auto
  with Cons.prems cs(1) have "default_hunk n g r i (map ((@) ''< '') (x # ds) @ rest)
      = map_prod ((#) ?c) id (map_prod ((@) cs) id (default_hunk n g (r + 1 + int (length ds)) i rest))"
    by (auto simp: default_lines_read)
  then have h: "default_hunk n g r i (map ((@) ''< '') (x # ds) @ rest)
      = map_prod ((@) (?c # cs)) id (default_hunk n g (r + int (length (x # ds))) i rest)"
    by (simp add: map_prod_def case_prod_unfold add.assoc del: default_hunk.simps)
  have "describes p q (map Del (x # ds)) (?c # cs)" using cs(2) by (auto intro: describes.removal)
  moreover have "all_shown (?c # cs)" using cs(3) by simp
  ultimately show ?case using h by blast
qed

lemma default_added:
  assumes "\<forall>x \<in> set as. nl \<notin> set x" "as \<noteq> [] \<longrightarrow> rg_new g + i = int q + 1" "0 \<le> i"
    "1 < i + int (length as) \<longrightarrow> rg_new_len g = i + int (length as)"
  shows "\<exists>cs. default_hunk n g r i (map ((@) ''> '') as) = (cs, g) \<and> describes p q (map Ins as) cs \<and> all_shown cs"
  using assms
proof (induction as arbitrary: i q)
  case Nil
  have "describes p q (map Ins []) [] \<and> all_shown []" by (auto intro: describes.no_edit)
  then show ?case by simp
next
  case (Cons x as)
  have "\<exists>cs. default_hunk n g r (i + 1) (map ((@) ''> '') as) = (cs, g) \<and> describes p (Suc q) (map Ins as) cs \<and> all_shown cs"
    by (rule Cons.IH) (use Cons.prems in auto)
  then obtain cs where cs: "default_hunk n g r (i + 1) (map ((@) ''> '') as) = (cs, g)"
    "describes p (Suc q) (map Ins as) cs" "all_shown cs" by blast
  let ?c = "Change None (Some (int q + 1)) (TextLine x) (HunkNo n)"
  have "i \<noteq> rg_new_len g \<or> i = 0" using Cons.prems(3,4) by auto
  with Cons.prems cs(1) have h: "default_hunk n g r i (map ((@) ''> '') (x # as)) = (?c # cs, g)"
    by (auto simp: default_lines_read)
  have "describes p q (map Ins (x # as)) (?c # cs)" using cs(2) by (auto intro: describes.insertion)
  moreover have "all_shown (?c # cs)" using cs(3) by simp
  ultimately show ?case using h by blast
qed

lemma default_hunk_read:
  assumes "replaces es" "\<forall>x \<in> set (old_of es) \<union> set (new_of es). nl \<notin> set x"
  shows "\<exists>cs g'. default_hunk n g 0 0 (default_header p q (length (removed_lines es)) (length (added_lines es))
       # default_lines (removed_lines es) (added_lines es)) = (cs, g')
     \<and> describes p q es cs \<and> all_shown cs \<and> cs \<noteq> []"
proof -
  let ?ds = "removed_lines es" and ?as = "added_lines es"
  obtain a b k c d where m: "match_pieces default_hunk_start (default_header p q (length ?ds) (length ?as)) = Some [a, b, k, c, d]"
    "int_of_digits a = int (if length ?ds = 0 then p else Suc p)"
    "range_length (int_of_digits a) b = (if length ?ds \<le> 1 then 0 else int (length ?ds))"
    "int_of_digits c = int (if length ?as = 0 then q else Suc q)"
    "range_length (int_of_digits c) d = (if length ?as \<le> 1 then 0 else int (length ?as))"
    using default_header_read [of p q "length ?ds" "length ?as"] by blast
  let ?g = "\<lparr>rg_old = int_of_digits a, rg_old_len = range_length (int_of_digits a) b,
            rg_new = int_of_digits c, rg_new_len = range_length (int_of_digits c) d\<rparr>"
  note es = replaces_lines [OF assms(1)]
  let ?tail = "map ((@) ''> '') ?as"
  let ?mid = "if ?ds \<noteq> [] \<and> ?as \<noteq> [] then [''---''] else []"
  have "\<exists>cs. default_hunk n ?g 0 0 (map ((@) ''< '') ?ds @ (?mid @ ?tail))
       = map_prod ((@) cs) id (default_hunk n ?g (0 + int (length ?ds)) 0 (?mid @ ?tail))
     \<and> describes p q (map Del ?ds) cs \<and> all_shown cs"
    by (rule default_removed) (use m assms(2) es(2) in simp_all)
  then obtain ds' where ds': "default_hunk n ?g 0 0 (map ((@) ''< '') ?ds @ (?mid @ ?tail))
       = map_prod ((@) ds') id (default_hunk n ?g (int (length ?ds)) 0 (?mid @ ?tail))"
    "describes p q (map Del ?ds) ds'" "all_shown ds'"
    by auto
  have "\<exists>cs. default_hunk n ?g (int (length ?ds)) 0 ?tail = (cs, ?g)
     \<and> describes (p + length ?ds) q (map Ins ?as) cs \<and> all_shown cs"
    by (rule default_added) (use m assms(2) es(3) in simp_all)
  then obtain as' where as': "default_hunk n ?g (int (length ?ds)) 0 ?tail = (as', ?g)"
    "describes (p + length ?ds) q (map Ins ?as) as'" "all_shown as'"
    by blast
  have "default_hunk n ?g (int (length ?ds)) 0 (?mid @ ?tail) = (as', ?g)"
    using as'(1) by (auto simp: default_lines_read)
  with m(1) ds'(1) have "default_hunk n g 0 0 (default_header p q (length ?ds) (length ?as) # default_lines ?ds ?as) = (ds' @ as', ?g)"
    by (auto simp: default_lines_def)
  moreover have "describes p q es (ds' @ as')"
    using describes_append [OF ds'(2), of "map Ins ?as" as'] as'(2) es(1) by simp
  moreover from this have "ds' @ as' \<noteq> []"
    using es(1,4) by (cases ?ds; cases ?as) (auto elim: describes.cases)
  ultimately show ?thesis using ds'(3) as'(3) by auto
qed

lemma default_hunks_read:
  "list_all default_hunk_ok hs \<Longrightarrow>
   describes p q (script_of hs) (default_hunks n g (map (\<lambda>(h, b). h # b) (default_chunks p q hs)))
   \<and> all_shown (default_hunks n g (map (\<lambda>(h, b). h # b) (default_chunks p q hs)))
   \<and> (hs \<noteq> [] \<longrightarrow> default_hunks n g (map (\<lambda>(h, b). h # b) (default_chunks p q hs)) \<noteq> [])"
proof (induction hs arbitrary: p q n g)
  case (Cons h hs)
  obtain gap heading es where h: "h = (gap, heading, es)" by (cases h)
  let ?p = "p + length gap" and ?q = "q + length gap"
  from Cons.prems h have ok: "replaces es" "\<forall>x \<in> set (old_of es) \<union> set (new_of es). nl \<notin> set x"
    by (auto simp: default_hunk_ok_def)
  from default_hunk_read [OF ok, of n g ?p ?q] obtain cs g' where
    cs: "default_hunk n g 0 0 (default_header ?p ?q (length (removed_lines es)) (length (added_lines es))
       # default_lines (removed_lines es) (added_lines es)) = (cs, g')"
      "describes ?p ?q es cs" "all_shown cs" "cs \<noteq> []" by blast
  note IH = Cons.IH [of "?p + length (old_of es)" "?q + length (new_of es)" "Suc n" g']
  from describes_after_gap [OF describes_append [OF cs(2)]] IH Cons.prems h cs(1,3,4) replaces_lines(2,3) [OF ok(1)]
  show ?case by (simp add: Let_def)
qed (auto intro: describes.no_edit)

lemma default_chunks_match:
  "list_all default_hunk_ok hs \<Longrightarrow>
   \<forall>(h, b) \<in> set (default_chunks p q hs). matches default_hunk_start h \<and> (\<forall>x \<in> set b. \<not> matches default_hunk_start x)"
proof (induction hs arbitrary: p q)
  case (Cons h hs)
  obtain gap heading es where h: "h = (gap, heading, es)" by (cases h)
  let ?m = "length (removed_lines es)" and ?k = "length (added_lines es)"
  from default_header_read [of "p + length gap" "q + length gap" ?m ?k]
  have "matches default_hunk_start (default_header (p + length gap) (q + length gap) ?m ?k)" by (auto simp: matches_def)
  moreover have "\<not> matches default_hunk_start x" if "x \<in> set (default_lines ds as)" for x ds as
    using that by (auto simp: default_lines_def matches_def default_lines_read split: if_splits)
  ultimately show ?case using Cons h by (auto simp: Let_def)
qed simp

lemma print_default_read:
  assumes "default_printable hs"
  shows "\<exists>cs. parse_default_diff (print_default hs) = Some cs \<and> describes 0 0 (script_of hs) cs \<and> all_shown cs"
proof -
  have ok: "list_all default_hunk_ok hs" "hs \<noteq> []" using assms by (auto simp: default_printable_def)
  have "split_by_regex ([] @ print_default hs) default_hunk_start = [] # map (\<lambda>(h, b). h # b) (default_chunks 0 0 hs)"
    unfolding print_default_def using default_chunks_match [OF ok(1)] by (intro split_chunks) auto
  then have "parse_default_diff (print_default hs)
     = some_changes (default_hunks 1 no_ranges (map (\<lambda>(h, b). h # b) (default_chunks 0 0 hs)))"
    by (simp add: parse_default_diff_def)
  with default_hunks_read [OF ok(1), of 0 0 1 no_ranges] ok(2) show ?thesis by (simp add: some_changes_def)
qed

interpretation default_diff: reversible_format print_default parse_default_diff default_printable
proof unfold_locales
  fix hs cs
  assume hs: "default_printable hs"
  from print_default_read [OF hs] show "\<exists>cs. parse_default_diff (print_default hs) = Some cs \<and> describes 0 0 (script_of hs) cs" by blast
  assume "parse_default_diff (print_default hs) = Some cs"
  with print_default_read [OF hs] show "all_shown cs" by auto
qed

text \<open>RCS scripts number the lines of the old file; deletions do not show their lines.\<close>

definition rcs_command :: "string \<Rightarrow> nat \<Rightarrow> nat \<Rightarrow> string" where
  "rcs_command kind line len = kind @ nat_str line @ '' '' @ nat_str len"

definition rcs_commands :: "nat \<Rightarrow> string list \<Rightarrow> string list \<Rightarrow> (string \<times> string list) list" where
  "rcs_commands p ds as =
     (if ds = [] then [] else [(rcs_command ''d'' (Suc p) (length ds), [])])
     @ (if as = [] then [] else [(rcs_command ''a'' (p + length ds) (length as), as)])"

fun rcs_chunks :: "nat \<Rightarrow> hunk list \<Rightarrow> (string \<times> string list) list" where
  "rcs_chunks p [] = []"
| "rcs_chunks p ((gap, _, es) # hs) =
     (let p' = p + length gap
      in rcs_commands p' (removed_lines es) (added_lines es) @ rcs_chunks (p' + length (removed_lines es)) hs)"

definition print_rcs :: "hunk list \<Rightarrow> string list" where
  "print_rcs hs = concat (map (\<lambda>(h, b). h # b) (rcs_chunks 0 hs))"

definition rcs_hunk_ok :: "hunk \<Rightarrow> bool" where
  "rcs_hunk_ok h = (case h of (_, _, es) \<Rightarrow> replaces es \<and> (\<forall>x \<in> set (added_lines es). \<not> matches rcs_ed_hunk_start x))"

definition rcs_printable :: "hunk list \<Rightarrow> bool" where
  "rcs_printable hs \<longleftrightarrow> hs \<noteq> [] \<and> list_all rcs_hunk_ok hs"

lemma rcs_command_read:
  assumes "kind = ''a'' \<or> kind = ''d''"
  shows "match_pieces rcs_ed_hunk_start (rcs_command kind line len) = Some [kind, nat_str line, nat_str len]"
proof -
  have sp: "\<not> is_digit space" by code_simp
  have "match_pieces [grp0 is_digit, EndOfLine] (nat_str len @ []) = Some [nat_str len]"
    by (rule number0_then) simp_all
  then have "match_pieces [opt (\<lambda>c. c = space), grp0 is_digit, EndOfLine] (space # nat_str len) = Some [nat_str len]"
    by (simp add: unfold_opt)
  then have "match_pieces [grp1 is_digit, opt (\<lambda>c. c = space), grp0 is_digit, EndOfLine] (nat_str line @ space # nat_str len)
      = Some [nat_str line, nat_str len]"
    by (intro number_then) (simp_all add: sp)
  with assms show ?thesis unfolding rcs_ed_hunk_start_def rcs_command_def by (auto intro: one_then)
qed

lemma describes_deletions: "describes p q (map Del ds) (deletions n (int p + 1) (length ds))"
proof (induction ds arbitrary: p)
  case (Cons x ds)
  have "deletions n (int p + 1) (length (x # ds)) = Change (Some (int p + 1)) None NoLine (HunkNo n) # deletions n (int (Suc p) + 1) (length ds)"
  proof -
    have "[0..<length (x # ds)] = 0 # map Suc [0..<length ds]" by (simp add: map_Suc_upt upt_conv_Cons del: upt_Suc)
    then show ?thesis by (simp add: deletions_def o_def add.commute add.left_commute)
  qed
  with Cons.IH [of "Suc p"] show ?case by (auto intro: describes.removal)
qed (auto simp: deletions_def intro: describes.no_edit)

lemma describes_additions:
  "describes p q (map Ins as) (map (\<lambda>(k, l). Change None (Some (int q + 1 + int k)) (TextLine l) (HunkNo n)) (enumerate 0 as))"
proof (induction as arbitrary: q)
  case (Cons x as)
  have e: "enumerate (Suc 0) as = map (apfst Suc) (enumerate 0 as)" by (simp add: enumerate_Suc_eq)
  from Cons.IH [of "Suc q"] have "describes p (Suc q) (map Ins as)
     (map (\<lambda>(k, l). Change None (Some (int q + 1 + int k)) (TextLine l) (HunkNo n)) (enumerate (Suc 0) as))"
    by (simp add: e o_def case_prod_unfold apfst_def add.commute add.left_commute)
  then show ?case by (auto intro: describes.insertion)
qed (auto intro: describes.no_edit)

lemma rcs_delete_step:
  "rcs_hunks n t ([rcs_command ''d'' (Suc p) m] # rest) = deletions n (int p + 1) m @ rcs_hunks (Suc n) (t - int m) rest"
  using rcs_command_read [of "''d''" "Suc p" m] by (simp add: digits_val_nat_str add.commute)

lemma rcs_append_step:
  assumes "int p + t = int q"
  shows "rcs_hunks n t ((rcs_command ''a'' p (length as) # as) # rest)
     = map (\<lambda>(k, l). Change None (Some (int q + 1 + int k)) (TextLine l) (HunkNo n)) (enumerate 0 as)
       @ rcs_hunks (Suc n) (t + int (length as)) rest"
  using rcs_command_read [of "''a''" p "length as"] assms by (simp add: digits_val_nat_str)

lemma rcs_commands_read:
  assumes "replaces es" "int p + t = int q"
  shows "\<exists>cs n'. rcs_hunks n t (map (\<lambda>(h, b). h # b) (rcs_commands p (removed_lines es) (added_lines es)) @ rest)
        = cs @ rcs_hunks n' (t - int (length (removed_lines es)) + int (length (added_lines es))) rest
     \<and> describes p q es cs \<and> cs \<noteq> []"
proof -
  let ?ds = "removed_lines es" and ?as = "added_lines es"
  note es = replaces_lines [OF assms(1)]
  let ?a = "\<lambda>n. map (\<lambda>(k, l). Change None (Some (int q + 1 + int k)) (TextLine l) (HunkNo n)) (enumerate 0 ?as)"
  have a: "int (p + length ?ds) + (t - int (length ?ds)) = int q" using assms(2) by simp
  let ?d = "deletions n (int p + 1) (length ?ds)"
  have del: "describes p q (map Del ?ds) ?d" by (rule describes_deletions)
  have add: "describes (p + length ?ds) q (map Ins ?as) (?a m)" for m by (rule describes_additions)
  consider "?as = []" "?ds \<noteq> []" | "?ds = []" "?as \<noteq> []" | "?ds \<noteq> []" "?as \<noteq> []" using es(4) by blast
  then show ?thesis
  proof cases
    case 1
    then have e: "es = map Del ?ds" using es(1) by simp
    have "?d \<noteq> []" using 1 by (simp add: deletions_def)
    with 1 del show ?thesis
      by (subst (asm) e [symmetric], intro exI [of _ ?d] exI [of _ "Suc n"]) (simp add: rcs_commands_def rcs_delete_step del: rcs_hunks.simps)
  next
    case 2
    then have e: "es = map Ins ?as" using es(1) by simp
    have "?a n \<noteq> []" using 2 by (cases ?as) simp_all
    with 2 add [of n] show ?thesis
      by (subst (asm) e [symmetric], intro exI [of _ "?a n"] exI [of _ "Suc n"])
        (simp add: rcs_commands_def rcs_append_step [OF assms(2)] del: rcs_hunks.simps)
  next
    case 3
    have "describes p q es (?d @ ?a (Suc n))"
      using describes_append [OF del, of "map Ins ?as" "?a (Suc n)"] add es(1) by simp
    moreover have "?d @ ?a (Suc n) \<noteq> []" using 3 by (cases ?as) simp_all
    ultimately show ?thesis using 3
      by (intro exI [of _ "?d @ ?a (Suc n)"] exI [of _ "Suc (Suc n)"])
        (simp add: rcs_commands_def rcs_delete_step rcs_append_step [OF a] del: rcs_hunks.simps)
  qed
qed

lemma rcs_hunks_read:
  "list_all rcs_hunk_ok hs \<Longrightarrow> int p + t = int q \<Longrightarrow>
   describes p q (script_of hs) (rcs_hunks n t (map (\<lambda>(h, b). h # b) (rcs_chunks p hs)))
   \<and> (hs \<noteq> [] \<longrightarrow> rcs_hunks n t (map (\<lambda>(h, b). h # b) (rcs_chunks p hs)) \<noteq> [])"
proof (induction hs arbitrary: p q n t)
  case (Cons h hs)
  obtain gap heading es where h: "h = (gap, heading, es)" by (cases h)
  let ?p = "p + length gap" and ?q = "q + length gap"
  from Cons.prems h have ok: "replaces es" "int ?p + t = int ?q" by (auto simp: rcs_hunk_ok_def)
  let ?t = "t - int (length (removed_lines es)) + int (length (added_lines es))"
  let ?rest = "map (\<lambda>(h, b). h # b) (rcs_chunks (?p + length (removed_lines es)) hs)"
  from rcs_commands_read [OF ok, of n ?rest] obtain cs n' where
    cs: "rcs_hunks n t (map (\<lambda>(h, b). h # b) (rcs_commands ?p (removed_lines es) (added_lines es)) @ ?rest) = cs @ rcs_hunks n' ?t ?rest"
      "describes ?p ?q es cs" "cs \<noteq> []" by blast
  have "describes (?p + length (old_of es)) (?q + length (new_of es)) (script_of hs) (rcs_hunks n' ?t ?rest)"
    using Cons.IH [of "?p + length (removed_lines es)" ?t "?q + length (added_lines es)" n'] Cons.prems ok(2) h
      replaces_lines(2,3) [OF ok(1)] by simp
  from describes_after_gap [OF describes_append [OF cs(2) this]] h cs(1,3) show ?case by (simp add: Let_def)
qed (auto intro: describes.no_edit)

lemma rcs_chunks_match:
  "list_all rcs_hunk_ok hs \<Longrightarrow>
   \<forall>(h, b) \<in> set (rcs_chunks p hs). matches rcs_ed_hunk_start h \<and> (\<forall>x \<in> set b. \<not> matches rcs_ed_hunk_start x)"
proof (induction hs arbitrary: p)
  case (Cons h hs)
  obtain gap heading es where h: "h = (gap, heading, es)" by (cases h)
  have "matches rcs_ed_hunk_start (rcs_command ''a'' l m)" "matches rcs_ed_hunk_start (rcs_command ''d'' l m)" for l m
    using rcs_command_read [of "''a''" l m] rcs_command_read [of "''d''" l m] by (auto simp: matches_def)
  with Cons h show ?case by (auto simp: Let_def rcs_commands_def rcs_hunk_ok_def)
qed simp

lemma print_rcs_read:
  assumes "rcs_printable hs"
  shows "\<exists>cs. parse_rcs_ed_diff (print_rcs hs) = Some cs \<and> describes 0 0 (script_of hs) cs"
proof -
  have ok: "list_all rcs_hunk_ok hs" "hs \<noteq> []" using assms by (auto simp: rcs_printable_def)
  have "split_by_regex ([] @ print_rcs hs) rcs_ed_hunk_start = [] # map (\<lambda>(h, b). h # b) (rcs_chunks 0 hs)"
    unfolding print_rcs_def using rcs_chunks_match [OF ok(1)] by (intro split_chunks) auto
  then have "parse_rcs_ed_diff (print_rcs hs) = some_changes (rcs_hunks 1 0 (map (\<lambda>(h, b). h # b) (rcs_chunks 0 hs)))"
    by (simp add: parse_rcs_ed_diff_def)
  with rcs_hunks_read [OF ok(1), of 0 0 0 1] ok(2) show ?thesis by (simp add: some_changes_def)
qed

interpretation rcs: edit_format print_rcs parse_rcs_ed_diff rcs_printable
  by unfold_locales (rule print_rcs_read)

end
