(* ===== verification/Git_Patch.thy ===== *)
theory Git_Patch
  imports Patch_Scripts Event_Store
begin

text \<open>
  Applying a patch to a repository (\<open>apply_patch\<close> of \<open>src/openhands/resolver/send_pull_request.py\<close>). The files are a
  dictionary from paths to contents; directories are not part of it, so making and removing them has no
  effect here. Also the texts \<open>git diff\<close> prints for scripts, and the theorem that applying
  such a text turns every old file into the new one.
\<close>

section \<open>Files\<close>

text \<open>The bytes of a file are valid UTF-8, given as the text they stand for, or they are not.\<close>

datatype file_content = Utf8 string | NotUtf8 string

type_synonym files = "(string, file_content) dict"

definition raw_text :: "file_content \<Rightarrow> string" where
  "raw_text c = (case c of Utf8 s \<Rightarrow> s | NotUtf8 s \<Rightarrow> s)"

definition crlf :: string where "crlf = [CHR 0x0D, nl]"

text \<open>The line ending of a file: \<open>None\<close> leaves it to Python.\<close>

definition detected_newline :: "string \<Rightarrow> string option" where
  "detected_newline s = (if contains crlf s then Some crlf else if contains [nl] s then Some [nl] else None)"

text \<open>\<open>readlines\<close> of text opened with \<open>newline=\<close> this ending; each line keeps its end. Without one, universal newlines
  are translated.\<close>

function lines_with_end :: "string \<Rightarrow> string \<Rightarrow> string list" where
  "lines_with_end e s =
     (if s = [] \<or> e = [] then []
      else case split_once e s of
             None \<Rightarrow> [s]
           | Some (a, b) \<Rightarrow> (a @ e) # lines_with_end e b)"
  by pat_completeness auto
termination
proof (relation "measure (\<lambda>(e, s). length s)")
  fix e s :: string and x a b
  assume "\<not> (s = [] \<or> e = [])" "split_once e s = Some x" "(a, b) = x"
  then have "s = a @ e @ b" "e \<noteq> []" using split_once_Some [of e s a b] by auto
  then show "((e, b), e, s) \<in> measure (\<lambda>(e, s). length s)" by simp
qed simp

declare lines_with_end.simps [simp del]

fun universal :: "string \<Rightarrow> string" where
  "universal [] = []"
| "universal [c] = [if c = CHR 0x0D then nl else c]"
| "universal (c # d # cs) =
     (if c = CHR 0x0D then nl # universal (if d = nl then cs else d # cs) else c # universal (d # cs))"

definition read_lines :: "string option \<Rightarrow> string \<Rightarrow> string list" where
  "read_lines newline s = (case newline of Some e \<Rightarrow> lines_with_end e s | None \<Rightarrow> lines_with_end [nl] (universal s))"

text \<open>\<open>x.strip(newline)\<close>: strips the characters of the ending, or white space.\<close>

definition strip_set :: "(char \<Rightarrow> bool) \<Rightarrow> string \<Rightarrow> string" where
  "strip_set p s = rev (dropWhile p (rev (dropWhile p s)))"

definition strip_newline :: "string option \<Rightarrow> string \<Rightarrow> string" where
  "strip_newline newline s = strip_set (case newline of Some e \<Rightarrow> (\<lambda>c. c \<in> set e) | None \<Rightarrow> is_space) s"

text \<open>\<open>print(line, file=f)\<close>: bytes are printed as their \<open>repr\<close>; every newline of the text becomes the ending of the file.\<close>

definition write_lines :: "(string \<Rightarrow> string) \<Rightarrow> string option \<Rightarrow> line_value list \<Rightarrow> file_content" where
  "write_lines bytes_repr newline ls =
     Utf8 (replace [nl] (case newline of Some e \<Rightarrow> e | None \<Rightarrow> [nl]) (concat (map (\<lambda>l. line_shown bytes_repr l @ [nl]) ls)))"

section \<open>\<open>apply_patch\<close>\<close>

definition stripped_path :: "string \<Rightarrow> string" where
  "stripped_path p = removed_start ''b/'' (removed_start ''a/'' p)"

definition dev_null :: string where "dev_null = ''/dev/null''"

definition split_content :: "file_content \<Rightarrow> string option \<times> string list" where
  "split_content c =
     (let newline = detected_newline (raw_text c)
      in (newline, case c of Utf8 s \<Rightarrow> map (strip_newline newline) (read_lines newline s) | NotUtf8 _ \<Rightarrow> []))"

definition missing_file :: "string \<Rightarrow> 'a res" where
  "missing_file path = Inl (FileNotFoundError (''[Errno 2] No such file or directory: '' @ [CHR 0x27] @ path @ [CHR 0x27]))"

definition move_file :: "string \<Rightarrow> string \<Rightarrow> files \<Rightarrow> unit res \<times> files" where
  "move_file old new fs =
     (case dict_get fs old of
        None \<Rightarrow> (missing_file old, fs)
      | Some c \<Rightarrow> (Inr (), if old = new then fs else dict_set new c (dict_del old fs)))"

text \<open>The last part: read the old lines, apply the changes, write the new file.\<close>

definition rewrite_file ::
  "(string \<Rightarrow> string) \<Rightarrow> (diffobj \<Rightarrow> string list \<Rightarrow> bool \<Rightarrow> string list res) \<Rightarrow> diffobj \<Rightarrow> string option \<Rightarrow> string \<Rightarrow> files \<Rightarrow> unit res \<times> files"
where
  "rewrite_file bytes_repr run_patch d old_path new_path fs =
     (case (case old_path of
              None \<Rightarrow> Inr (Some [nl], [])
            | Some [] \<Rightarrow> Inr (Some [nl], [])
            | Some p \<Rightarrow> (case dict_get fs p of None \<Rightarrow> missing_file p | Some c \<Rightarrow> Inr (split_content c))) of
        Inl e \<Rightarrow> (Inl e, fs)
      | Inr (newline, ls) \<Rightarrow>
          if d_changes d = None then (Inr (), fs)
          else (case apply_diff bytes_repr run_patch d ls False False of
                  Inl e \<Rightarrow> (Inl e, fs)
                | Inr new_content \<Rightarrow> (Inr (), dict_set new_path (write_lines bytes_repr newline new_content) fs)))"

definition apply_one ::
  "(string \<Rightarrow> string) \<Rightarrow> (diffobj \<Rightarrow> string list \<Rightarrow> bool \<Rightarrow> string list res) \<Rightarrow> string \<Rightarrow> diffobj \<Rightarrow> files \<Rightarrow> unit res \<times> files"
where
  "apply_one bytes_repr run_patch repo_dir d fs =
     (case d_header d of
        None \<Rightarrow> (Inl (OtherError ''AttributeError'' ([CHR 0x27] @ ''NoneType'' @ [CHR 0x27] @ '' object has no attribute '' @ [CHR 0x27] @ ''new_path'' @ [CHR 0x27])), fs)
      | Some h \<Rightarrow>
          if ph_new_path h = [] then (Inr (), fs)
          else
            (let old_path = (if ph_old_path h \<noteq> [] \<and> ph_old_path h \<noteq> dev_null
                             then Some (os_path_join repo_dir (stripped_path (ph_old_path h))) else None);
                 new_path = os_path_join repo_dir (stripped_path (ph_new_path h))
             in if ph_new_path h = dev_null then
                  (case old_path of
                     None \<Rightarrow> (Inl (OtherError ''AssertionError'' []), fs)
                   | Some p \<Rightarrow> (Inr (), dict_del p fs))
                else if old_path \<noteq> None \<and> old_path \<noteq> Some [] \<and> new_path \<noteq> [] \<and> contains ''rename from'' (d_text d) then
                  move_file (the old_path) new_path fs
                else rewrite_file bytes_repr run_patch d old_path new_path fs))"

fun apply_all ::
  "(string \<Rightarrow> string) \<Rightarrow> (diffobj \<Rightarrow> string list \<Rightarrow> bool \<Rightarrow> string list res) \<Rightarrow> string \<Rightarrow> diffobj list \<Rightarrow> files \<Rightarrow> unit res \<times> files"
where
  "apply_all bytes_repr run_patch repo_dir [] fs = (Inr (), fs)"
| "apply_all bytes_repr run_patch repo_dir (d # ds) fs =
     (case apply_one bytes_repr run_patch repo_dir d fs of
        (Inl e, fs') \<Rightarrow> (Inl e, fs')
      | (Inr _, fs') \<Rightarrow> apply_all bytes_repr run_patch repo_dir ds fs')"

text \<open>The patch is parsed as it is applied: an exception of the parser comes after the diffs before it are applied.\<close>

definition apply_patch ::
  "(string \<Rightarrow> string res) \<Rightarrow> (string \<Rightarrow> string) \<Rightarrow> (diffobj \<Rightarrow> string list \<Rightarrow> bool \<Rightarrow> string list res) \<Rightarrow> string \<Rightarrow> string \<Rightarrow> files
     \<Rightarrow> unit res \<times> files"
where
  "apply_patch inflate bytes_repr run_patch repo_dir patch fs =
     (case parse_patch inflate patch of
        (ds, failure) \<Rightarrow>
          (case apply_all bytes_repr run_patch repo_dir ds fs of
             (Inl e, fs') \<Rightarrow> (Inl e, fs')
           | (Inr _, fs') \<Rightarrow> (case failure of Some e \<Rightarrow> (Inl e, fs') | None \<Rightarrow> (Inr (), fs'))))"

section \<open>Texts of lines\<close>

definition line_text :: "string list \<Rightarrow> string" where
  "line_text ls = concat (map (\<lambda>l. l @ [nl]) ls)"

definition unbroken :: "string \<Rightarrow> bool" where
  "unbroken s \<longleftrightarrow> (\<forall>c \<in> set s. \<not> is_break c)"

lemma break_chars: "is_break nl" "is_break (CHR 0x0D)"
  by code_simp+

lemma unbroken_nl: "unbroken s \<Longrightarrow> nl \<notin> set s"
  using break_chars(1) by (auto simp: unbroken_def)

lemma unbroken_cr: "unbroken s \<Longrightarrow> CHR 0x0D \<notin> set s"
  using break_chars(2) by (auto simp: unbroken_def)

lemma takeWhile_unbroken: "unbroken x \<Longrightarrow> takeWhile (\<lambda>c. \<not> is_break c) (x @ nl # r) = x"
  and dropWhile_unbroken: "unbroken x \<Longrightarrow> dropWhile (\<lambda>c. \<not> is_break c) (x @ nl # r) = nl # r"
  using break_chars(1) by (induction x) (auto simp: unbroken_def)

lemma splitlines_step:
  assumes "unbroken x"
  shows "splitlines (x @ nl # r) = x # splitlines r"
proof -
  obtain c cs where c: "x @ nl # r = c # cs" by (cases "x @ nl # r") auto
  have "splitlines (c # cs) = takeWhile (\<lambda>c. \<not> is_break c) (c # cs) # splitlines r"
    using dropWhile_unbroken [OF assms, of r] unfolding splitlines.simps c by simp
  with takeWhile_unbroken [OF assms, of r] c show ?thesis by simp
qed

lemma splitlines_line_text: "\<forall>l \<in> set ls. unbroken l \<Longrightarrow> splitlines (line_text ls) = ls"
  by (induction ls) (auto simp: line_text_def splitlines_step)

lemma first_line_unbroken: "unbroken x \<Longrightarrow> first_line x = x"
proof (cases x)
  case (Cons c cs)
  assume "unbroken x"
  then have "takeWhile (\<lambda>c. \<not> is_break c) x = x" by (auto simp: unbroken_def takeWhile_eq_all_conv)
  with Cons show ?thesis by (simp add: first_line_def)
qed (simp add: first_line_def)

section \<open>What \<open>git diff\<close> prints\<close>

datatype file_kind = Created | Modified | Deleted

record git_file =
  gf_path :: string
  gf_kind :: file_kind
  gf_from :: string
  gf_to :: string
  gf_hunks :: "hunk list"

definition git_command :: "git_file \<Rightarrow> string" where
  "git_command f = ''diff --git a/'' @ gf_path f @ '' b/'' @ gf_path f"

definition mode_lines :: "git_file \<Rightarrow> string list" where
  "mode_lines f = (case gf_kind f of Created \<Rightarrow> [''new file mode 100644''] | Modified \<Rightarrow> [] | Deleted \<Rightarrow> [''deleted file mode 100644''])"

definition index_line :: "git_file \<Rightarrow> string" where
  "index_line f = ''index '' @ gf_from f @ ''..'' @ gf_to f @ (if gf_kind f = Modified then '' 100644'' else [])"

definition old_name :: "git_file \<Rightarrow> string" where
  "old_name f = (if gf_kind f = Created then dev_null else ''a/'' @ gf_path f)"

definition new_name :: "git_file \<Rightarrow> string" where
  "new_name f = (if gf_kind f = Deleted then dev_null else ''b/'' @ gf_path f)"

definition git_head :: "git_file \<Rightarrow> string list" where
  "git_head f = mode_lines f @ [index_line f, ''--- '' @ old_name f, ''+++ '' @ new_name f]"

definition print_git :: "git_file \<Rightarrow> string list" where
  "print_git f = git_command f # git_head f @ print_unified (gf_hunks f)"

definition hash_ok :: "string \<Rightarrow> bool" where
  "hash_ok h \<longleftrightarrow> h \<noteq> [] \<and> (\<forall>c \<in> set h. Patching.hex_digit c)"

text \<open>The path must not begin with a directory \<open>a\<close> or \<open>b\<close>, whose names the parser strips twice.\<close>

definition plain_path :: "string \<Rightarrow> bool" where
  "plain_path p \<longleftrightarrow> p \<noteq> [] \<and> unbroken p \<and> \<not> prefix ''a/'' p \<and> \<not> prefix ''b/'' p"

definition unbroken_edit :: "edit \<Rightarrow> bool" where
  "unbroken_edit e = (case e of Keep x \<Rightarrow> unbroken x | Del x \<Rightarrow> unbroken x | Ins x \<Rightarrow> unbroken x)"

definition git_file_ok :: "git_file \<Rightarrow> bool" where
  "git_file_ok f \<longleftrightarrow> plain_path (gf_path f) \<and> hash_ok (gf_from f) \<and> hash_ok (gf_to f) \<and> unified_printable (gf_hunks f)
     \<and> (\<forall>(gap, heading, es) \<in> set (gf_hunks f). unbroken heading \<and> list_all unbroken_edit es)"

section \<open>The lines of a git diff are read back\<close>

lemma edit_line_first: "edit_line e \<noteq> [] \<and> hd (edit_line e) \<in> {space, CHR ''-'', CHR ''+''}"
  by (cases e) auto

lemma unified_line_first: "x \<in> set (print_unified hs) \<Longrightarrow> \<exists>c cs. x = c # cs \<and> c \<in> {space, CHR ''-'', CHR ''+'', CHR 0x40}"
proof -
  have "x \<in> set (concat (map (\<lambda>(h, b). h # b) (unified_chunks p q hs))) \<Longrightarrow>
     \<exists>c cs. x = c # cs \<and> c \<in> {space, CHR ''-'', CHR ''+'', CHR 0x40}" for p q
  proof (induction hs arbitrary: p q)
    case (Cons h hs)
    obtain gap heading es where h: "h = (gap, heading, es)" by (cases h)
    from Cons.prems h consider "x = hunk_header (p + length gap) (q + length gap) heading es"
      | e where "e \<in> set es" "x = edit_line e"
      | "x \<in> set (concat (map (\<lambda>(h, b). h # b) (unified_chunks (p + length gap + length (old_of es)) (q + length gap + length (new_of es)) hs)))"
      by (auto simp: Let_def)
    then show ?case
    proof cases
      case 1
      then show ?thesis by (simp add: hunk_header_def)
    next
      case 2
      then show ?thesis by (cases e rule: edit.exhaust) auto
    qed (rule Cons.IH)
  qed simp
  then show "x \<in> set (print_unified hs) \<Longrightarrow> \<exists>c cs. x = c # cs \<and> c \<in> {space, CHR ''-'', CHR ''+'', CHR 0x40}"
    unfolding print_unified_def .
qed

text \<open>A pattern that begins with another character matches no line of the hunks.\<close>

lemma unified_no_match:
  "x \<in> set (print_unified hs) \<Longrightarrow> c \<notin> {space, CHR ''-'', CHR ''+'', CHR 0x40} \<Longrightarrow> \<not> matches (Lit (c # w) # ps) x"
  by (drule unified_line_first) auto

lemma git_head_no_match:
  "x \<in> set (git_head f) \<Longrightarrow> \<not> matches (Lit (''Index'' @ w) # ps) x"
  "x \<in> set (git_head f) \<Longrightarrow> \<not> matches (Lit (''diff'' @ w) # ps) x"
  by (auto simp: git_head_def mode_lines_def index_line_def split: file_kind.splits)

fun captured :: "piece \<Rightarrow> bool" where
  "captured (Run cap _ _ _ _) = cap"
| "captured _ = False"

fun choice_free :: "piece \<Rightarrow> bool" where
  "choice_free (OneOf _) = False"
| "choice_free _ = True"

lemma first_some_in: "first_some xs = Some y \<Longrightarrow> Some y \<in> set xs"
  by (induction xs rule: first_some.induct) auto

lemma group_count:
  "list_all choice_free ps \<Longrightarrow> match_pieces ps s = Some gs \<Longrightarrow> length gs = length (filter captured ps)"
proof (induction ps s arbitrary: gs rule: match_pieces.induct)
  case (3 cap greedy c lo hi ps s)
  from 3(3) have "Some gs \<in> set (map (\<lambda>n. map_option (\<lambda>gs. if cap then take n s # gs else gs) (match_pieces ps (drop n s))) (run_lengths greedy c lo hi s))"
    unfolding match_pieces.simps by (rule first_some_in)
  then obtain n where n: "n \<in> set (run_lengths greedy c lo hi s)"
    "Some gs = map_option (\<lambda>gs. if cap then take n s # gs else gs) (match_pieces ps (drop n s))" by auto
  then obtain hs where "match_pieces ps (drop n s) = Some hs" "gs = (if cap then take n s # hs else hs)"
    by (cases "match_pieces ps (drop n s)") auto
  with 3(1) [OF n(1), of hs] 3(2) show ?case by simp
qed (auto split: if_splits)

lemma run_split:
  "\<forall>c \<in> set u. dot c \<Longrightarrow> lo \<le> length u \<Longrightarrow> matches ps v \<Longrightarrow> matches (Run cap True dot lo None # ps) (u @ v)"
  unfolding matches_Run by (intro exI [of _ "length u"]) (auto simp: takeWhile_append)

lemma command_matches:
  assumes "plain_path (gf_path f)"
  shows "matches diffcmd_header (git_command f)" "\<exists>p q. match_pieces git_diffcmd_header (git_command f) = Some [p, q]"
proof -
  have p: "\<forall>c \<in> set (gf_path f). dot c" "gf_path f \<noteq> []"
    using assms unbroken_nl [of "gf_path f"] by (auto simp: plain_path_def dot_def)
  have end_ok: "matches [grp1 dot, EndOfLine] (u @ gf_path f)" if "\<forall>c \<in> set u. dot c" for u
    using run_split [of "u @ gf_path f" 1 "[EndOfLine]" "[]" True] p that by (auto simp: grp1_def Suc_le_eq)
  have "matches (grp1 dot # [Lit '' '', grp1 dot, EndOfLine]) ((''a/'' @ gf_path f) @ '' b/'' @ gf_path f)"
    unfolding grp1_def [of dot] using p end_ok [of "''b/''"] by (intro run_split) (auto simp: dot_def grp1_def)
  then have "matches (many dot # Lit '' '' # grp1 dot # [Lit '' '', grp1 dot, EndOfLine]) ('' --git'' @ '' a/'' @ gf_path f @ '' b/'' @ gf_path f)"
    unfolding many_def by (intro run_split) (auto simp: dot_def)
  then show "matches diffcmd_header (git_command f)" by (simp add: diffcmd_header_def git_command_def)
  have "matches (grp1 dot # [Lit '' b/'', grp1 dot, EndOfLine]) (gf_path f @ '' b/'' @ gf_path f)"
    unfolding grp1_def [of dot] using p end_ok [of "[]"] by (intro run_split) (auto simp: grp1_def Suc_le_eq)
  then have "matches git_diffcmd_header (git_command f)" by (simp add: git_diffcmd_header_def git_command_def)
  then obtain gs where g: "match_pieces git_diffcmd_header (git_command f) = Some gs" by (auto simp: matches_def)
  have "length gs = length (filter captured git_diffcmd_header)"
    by (rule group_count [OF _ g]) (simp add: git_diffcmd_header_def piece_defs)
  then have "length gs = 2" by (simp add: git_diffcmd_header_def piece_defs)
  then obtain x y where "gs = [x, y]" by (auto simp: numeral_2_eq_2 length_Suc_conv)
  with g show "\<exists>p q. match_pieces git_diffcmd_header (git_command f) = Some [p, q]" by blast
qed

lemma times_step:
  "match_pieces (times k c # ps) s = (if k \<le> length (takeWhile c s) then match_pieces ps (drop k s) else None)"
  by (auto simp: times_def run_lengths_def Let_def option.map_ident)

lemma index_line_read:
  assumes "hash_ok (gf_from f)" "hash_ok (gf_to f)"
  shows "\<exists>m. match_pieces git_header_index (index_line f) = Some [gf_from f, gf_to f, m]"
proof -
  let ?tail = "if gf_kind f = Modified then '' 100644'' else []"
  have d: "is_digit (CHR ''1'')" "is_digit (CHR ''0'')" "is_digit (CHR ''6'')" "is_digit (CHR ''4'')" by code_simp+
  have h: "\<not> Patching.hex_digit space" "\<not> Patching.hex_digit (CHR ''.'')" by code_simp+
  have m: "match_pieces [grp0 is_digit, EndOfLine] ''100644'' = Some [''100644'']"
    using run_then [of "''100644''" is_digit "[]" 0 "[EndOfLine]" "[]" True] d by (auto simp: grp0_def)
  have e: "match_pieces [grp0 is_digit, EndOfLine] [] = Some [[]]" by (rule grp0_none) simp_all
  have "\<exists>w. match_pieces [opt (\<lambda>c. c = space), grp0 is_digit, EndOfLine] ?tail = Some [w]"
    using m e by (auto simp: unfold_opt)
  then obtain w where w: "match_pieces [opt (\<lambda>c. c = space), grp0 is_digit, EndOfLine] ?tail = Some [w]" ..
  have "match_pieces [grp1 Patching.hex_digit, opt (\<lambda>c. c = space), grp0 is_digit, EndOfLine] (gf_to f @ ?tail) = Some [gf_to f, w]"
    using run_then [of "gf_to f" Patching.hex_digit ?tail 1 _ "[w]" True, OF _ _ _ w] assms(2) h(1)
    by (simp add: grp1_def hash_ok_def Suc_le_eq)
  then have "match_pieces (times 2 dot # [grp1 Patching.hex_digit, opt (\<lambda>c. c = space), grp0 is_digit, EndOfLine])
      (''..'' @ gf_to f @ ?tail) = Some [gf_to f, w]" by (simp add: times_step dot_def)
  then have "match_pieces (grp1 Patching.hex_digit # times 2 dot # [grp1 Patching.hex_digit, opt (\<lambda>c. c = space), grp0 is_digit, EndOfLine])
      (gf_from f @ ''..'' @ gf_to f @ ?tail) = Some [gf_from f, gf_to f, w]"
    using run_then [of "gf_from f" Patching.hex_digit "''..'' @ gf_to f @ ?tail" 1 _ _ True] assms(1) h(2)
    by (simp add: grp1_def hash_ok_def Suc_le_eq)
  then show ?thesis by (simp add: git_header_index_def index_line_def)
qed

lemma name_line_read:
  assumes "nl \<notin> set name" "name \<noteq> []"
  shows "match_pieces git_header_old_line (''--- '' @ name) = Some [name]"
    "match_pieces git_header_new_line (''+++ '' @ name) = Some [name]"
  using rest_of_line [of name 1 True] assms
  by (simp_all add: git_header_old_line_def git_header_new_line_def grp1_def Suc_le_eq del: match_pieces.simps(3))

lemma other_line:
  "\<not> prefix w s \<Longrightarrow> match_pieces (Lit w # ps) s = None"
  by simp

lemmas git_patterns = git_diffcmd_header_def git_header_index_def git_header_old_line_def git_header_new_line_def
  git_header_binary_file_def

definition git_header_of :: "git_file \<Rightarrow> patch_header" where
  "git_header_of f = \<lparr>ph_index_path = None,
     ph_old_path = (if gf_kind f = Created then dev_null else gf_path f), ph_old_version = VersionText (gf_from f),
     ph_new_path = (if gf_kind f = Deleted then dev_null else gf_path f), ph_new_version = VersionText (gf_to f)\<rparr>"

lemma names_ok:
  assumes "plain_path (gf_path f)"
  shows "nl \<notin> set (old_name f)" "old_name f \<noteq> []" "nl \<notin> set (new_name f)" "new_name f \<noteq> []"
    "removed_start ''a/'' (old_name f) = ph_old_path (git_header_of f)" "removed_start ''b/'' (new_name f) = ph_new_path (git_header_of f)"
    "removed_start ''a/'' (ph_old_path (git_header_of f)) = ph_old_path (git_header_of f)"
    "removed_start ''b/'' (ph_new_path (git_header_of f)) = ph_new_path (git_header_of f)"
  using assms unbroken_nl [of "gf_path f"]
  by (auto simp: plain_path_def old_name_def new_name_def dev_null_def removed_start_def git_header_of_def)

lemma git_loop_read:
  assumes "plain_path (gf_path f)" "hash_ok (gf_from f)" "hash_ok (gf_to f)"
  shows "git_loop new_git_parse (git_command f # git_head f @ ls) = Some (git_header_of f)"
proof -
  obtain p q where c: "match_pieces git_diffcmd_header (git_command f) = Some [p, q]"
    using command_matches(2) [OF assms(1)] by blast
  let ?g = "new_git_parse\<lparr>gp_cmd_old_path := Some p, gp_cmd_new_path := Some q\<rparr>"
  let ?i = "?g\<lparr>gp_old_version := Some (gf_from f), gp_new_version := Some (gf_to f)\<rparr>"
  obtain m where i: "match_pieces git_header_index (index_line f) = Some [gf_from f, gf_to f, m]"
    using index_line_read [OF assms(2,3)] by blast
  note n = names_ok [OF assms(1)]
  have minus: "match_pieces git_diffcmd_header (''--- '' @ old_name f) = None" "match_pieces git_header_index (''--- '' @ old_name f) = None"
    "git_paths (''--- '' @ old_name f) g = g\<lparr>gp_old_path := Some (old_name f)\<rparr>" for g
    using name_line_read(1) [OF n(1,2)] by (simp_all add: git_paths_def Let_def) (simp_all add: git_patterns)
  have plus: "match_pieces git_diffcmd_header (''+++ '' @ new_name f) = None" "match_pieces git_header_index (''+++ '' @ new_name f) = None"
    "git_paths (''+++ '' @ new_name f) g = g\<lparr>gp_new_path := Some (new_name f)\<rparr>" for g
    using name_line_read(2) [OF n(3,4)] by (simp_all add: git_paths_def Let_def) (simp_all add: git_patterns)
  have idx: "match_pieces git_diffcmd_header (index_line f) = None" by (simp add: git_patterns index_line_def)
  have "git_loop ?i ([''--- '' @ old_name f, ''+++ '' @ new_name f] @ ls) = Some (git_header_of f)"
    using minus plus n by (simp add: new_git_parse_def Let_def opt_version_def) (simp add: git_header_of_def)
  then have "git_loop ?g ([index_line f, ''--- '' @ old_name f, ''+++ '' @ new_name f] @ ls) = Some (git_header_of f)"
    using idx i by simp
  moreover have "git_loop ?g (mode_lines f @ rest) = git_loop ?g rest" for rest
  proof -
    have "match_pieces git_diffcmd_header x = None \<and> match_pieces git_header_index x = None \<and> git_paths x ?g = ?g"
      if "x = ''new file mode 100644'' \<or> x = ''deleted file mode 100644''" for x
      using that by (auto simp: git_paths_def Let_def git_patterns)
    then show ?thesis by (cases "gf_kind f") (simp_all add: mode_lines_def Let_def new_git_parse_def)
  qed
  ultimately show ?thesis using c by (simp add: git_head_def)
qed

lemma parse_header_git:
  assumes "plain_path (gf_path f)" "hash_ok (gf_from f)" "hash_ok (gf_to f)"
  shows "parse_header (git_command f # git_head f @ ls) = Inr (Some (git_header_of f), git_command f # git_head f @ ls)"
proof -
  let ?ls = "git_command f # git_head f @ ls"
  have "matches git_header_index (index_line f)" "index_line f \<in> set (git_head f)"
    using index_line_read [OF assms(2,3)] by (auto simp: matches_def git_head_def)
  then have "has_match ?ls git_header_index" by auto
  moreover have "has_match ?ls git_diffcmd_header" using command_matches(2) [OF assms(1)] by (auto simp: matches_def)
  ultimately have "parse_scm_header ?ls = Inr (scm_stripped True (parse_git_header ?ls))"
    unfolding parse_scm_header_def by (simp only: Let_def if_True)
  moreover have "scm_stripped True (parse_git_header ?ls) = (Some (git_header_of f), ?ls)"
    using git_loop_read [OF assms, of ls] names_ok(7,8) [OF assms(1)]
    by (simp add: scm_stripped_def parse_git_header_def)
  ultimately show ?thesis by (simp add: parse_header_def)
qed

definition git_diffobj :: "git_file \<Rightarrow> diffobj" where
  "git_diffobj f = \<lparr>d_header = Some (git_header_of f), d_changes = parse_unified_diff (print_unified (gf_hunks f)),
     d_text = join [nl] (print_git f) @ [nl]\<rparr>"

lemma parse_unified_prefix:
  assumes "unified_printable hs" "\<forall>x \<in> set pre. \<not> matches unified_hunk_start x"
  shows "parse_unified_diff (pre @ print_unified hs) = parse_unified_diff (print_unified hs)"
proof -
  have clean: "\<forall>(gap, heading, es) \<in> set hs. nl \<notin> set heading" using assms(1) by (auto simp: unified_printable_def)
  have skip: "unified_start no_ranges pre = (no_ranges, [])" using assms(2)
    by (induction pre) (auto simp: matches_def)
  have "split_by_regex (pre @ print_unified hs) unified_hunk_start = pre # map (\<lambda>(h, b). h # b) (unified_chunks 0 0 hs)"
    "split_by_regex ([] @ print_unified hs) unified_hunk_start = [] # map (\<lambda>(h, b). h # b) (unified_chunks 0 0 hs)"
    unfolding print_unified_def
    using split_chunks [OF assms(2) unified_chunks_match [OF clean]]
      split_chunks [of "[]", OF _ unified_chunks_match [OF clean]] by simp_all
  with skip show ?thesis by (simp add: parse_unified_diff_def)
qed

lemma git_head_no_hunk: "x \<in> set (git_command f # git_head f) \<Longrightarrow> \<not> matches unified_hunk_start x"
  by (auto simp: git_head_def mode_lines_def index_line_def git_command_def unified_hunk_start_def split: file_kind.splits)

lemma print_unified_has_hunk:
  assumes "unified_printable hs"
  shows "\<exists>x \<in> set (print_unified hs). matches unified_hunk_start x"
proof (cases hs)
  case (Cons h hs')
  obtain gap heading es where h: "h = (gap, heading, es)" by (cases h)
  have "\<forall>(gap, heading, es) \<in> set hs. nl \<notin> set heading" using assms by (auto simp: unified_printable_def)
  from unified_chunks_match [OF this, of 0 0] show ?thesis
    by (auto simp: print_unified_def Cons h Let_def)
qed (use assms in \<open>simp add: unified_printable_def\<close>)

lemma parse_part_git:
  assumes "git_file_ok f"
  shows "parse_part inflate (print_git f) = Inr (Some (git_diffobj f))"
proof -
  have ok: "plain_path (gf_path f)" "hash_ok (gf_from f)" "hash_ok (gf_to f)" "unified_printable (gf_hunks f)"
    using assms by (auto simp: git_file_ok_def)
  let ?ls = "print_git f"
  have "has_match ?ls unified_hunk_start" using print_unified_has_hunk [OF ok(4)] by (auto simp: print_git_def)
  then have "parse_diff inflate ?ls = Inr (parse_unified_diff ?ls)" unfolding parse_diff_def by (simp only: if_True)
  also have "parse_unified_diff ?ls = parse_unified_diff (print_unified (gf_hunks f))"
    using parse_unified_prefix [OF ok(4), of "git_command f # git_head f"] git_head_no_hunk by (auto simp: print_git_def)
  finally show ?thesis
    using parse_header_git [OF ok(1-3), of "print_unified (gf_hunks f)"]
    by (simp add: parse_part_def print_git_def git_diffobj_def)
qed

lemma git_chunks_match:
  assumes "git_file_ok f"
  shows "matches diffcmd_header (git_command f)" "\<forall>x \<in> set (git_head f @ print_unified (gf_hunks f)). \<not> matches diffcmd_header x"
    "\<forall>x \<in> set (print_git f). \<not> matches unified_header_index x"
proof -
  have p: "plain_path (gf_path f)" using assms by (simp add: git_file_ok_def)
  show "matches diffcmd_header (git_command f)" by (rule command_matches(1) [OF p])
  have "\<not> matches diffcmd_header x" if "x \<in> set (git_head f)" for x
    using git_head_no_match(2) [OF that, of "[]"] unfolding diffcmd_header_def by simp
  moreover have "\<not> matches diffcmd_header x" if "x \<in> set (print_unified (gf_hunks f))" for x
    unfolding diffcmd_header_def by (rule unified_no_match [OF that]) simp
  ultimately show "\<forall>x \<in> set (git_head f @ print_unified (gf_hunks f)). \<not> matches diffcmd_header x" by auto
  have "\<not> matches unified_header_index x" if "x \<in> set (git_head f)" for x
    using git_head_no_match(1) [OF that, of "'': ''"] unfolding unified_header_index_def by simp
  moreover have "\<not> matches unified_header_index x" if "x \<in> set (print_unified (gf_hunks f))" for x
    unfolding unified_header_index_def by (rule unified_no_match [OF that]) simp
  moreover have "\<not> matches unified_header_index (git_command f)" by (simp add: unified_header_index_def git_command_def)
  ultimately show "\<forall>x \<in> set (print_git f). \<not> matches unified_header_index x" by (auto simp: print_git_def)
qed

lemma parse_parts_git:
  "\<forall>f \<in> set fs. git_file_ok f \<Longrightarrow> parse_parts inflate (map print_git fs) = (map git_diffobj fs, None)"
  by (induction fs) (simp_all add: parse_part_git)

lemma parse_part_empty: "parse_part inflate [] = Inr None"
  by (simp add: parse_part_def parse_header_def parse_scm_header_def parse_diff_header_def parse_diff_def Let_def)

lemma split_unmatched: "\<forall>x \<in> set xs. \<not> matches p x \<Longrightarrow> split_by_regex xs p = [xs]"
  using splits_unmatched [of xs p "[]"] by (simp add: split_by_regex_splits)

lemma parse_patch_git_lines:
  assumes "\<forall>f \<in> set fs. git_file_ok f" "fs \<noteq> []" "\<forall>l \<in> set (concat (map print_git fs)). unbroken l"
  shows "parse_patch_lines inflate (concat (map print_git fs)) = (map git_diffobj fs, None)"
proof -
  let ?ls = "concat (map print_git fs)"
  have "map first_line ?ls = ?ls" using assms(3) by (intro map_idI) (blast intro: first_line_unbroken)
  moreover have "split_by_regex ?ls unified_header_index = [?ls]"
    using assms(1) git_chunks_match(3) by (intro split_unmatched) auto
  moreover have "split_by_regex ?ls diffcmd_header = [] # map print_git fs"
  proof -
    let ?chunks = "map (\<lambda>f. (git_command f, git_head f @ print_unified (gf_hunks f))) fs"
    have "concat (map (\<lambda>(h, b). h # b) ?chunks) = ?ls" "map (\<lambda>(h, b). h # b) ?chunks = map print_git fs"
      by (simp_all add: o_def print_git_def [abs_def])
    moreover have "\<forall>(h, b) \<in> set ?chunks. matches diffcmd_header h \<and> (\<forall>x \<in> set b. \<not> matches diffcmd_header x)"
      using assms(1) git_chunks_match(1,2) by auto
    ultimately show ?thesis using split_chunks [of "[]" diffcmd_header ?chunks] by simp
  qed
  moreover have "1 < length ([] # map print_git fs)" using assms(2) by simp
  ultimately show ?thesis
    by (simp add: parse_patch_lines_def parse_part_empty parse_parts_git [OF assms(1)])
qed

section \<open>The lines have no breaks\<close>

lemma unbroken_simps [simp]: "unbroken []" "unbroken (c # s) \<longleftrightarrow> \<not> is_break c \<and> unbroken s"
  "unbroken (s @ t) \<longleftrightarrow> unbroken s \<and> unbroken t"
  by (auto simp: unbroken_def)

lemma unbroken_nat_str [simp]: "unbroken (nat_str n)"
  by (auto simp: unbroken_def is_break_def Let_def is_digit_def dest!: nat_str_digits)

lemma hex_not_break: "Patching.hex_digit c \<Longrightarrow> \<not> is_break c"
  by (auto simp: Patching.hex_digit_def is_break_def Let_def is_digit_def)

lemma print_unified_unbroken:
  "\<forall>(gap, heading, es) \<in> set hs. unbroken heading \<and> list_all unbroken_edit es \<Longrightarrow> \<forall>l \<in> set (print_unified hs). unbroken l"
proof -
  have "\<forall>(gap, heading, es) \<in> set hs. unbroken heading \<and> list_all unbroken_edit es \<Longrightarrow>
     \<forall>l \<in> set (concat (map (\<lambda>(h, b). h # b) (unified_chunks p q hs))). unbroken l" for p q
  proof (induction hs arbitrary: p q)
    case (Cons h hs)
    obtain gap heading es where h: "h = (gap, heading, es)" by (cases h)
    have b: "\<not> is_break (CHR 0x40)" "\<not> is_break (CHR ''-'')" "\<not> is_break (CHR ''+'')" "\<not> is_break space" "\<not> is_break (CHR '','')"
      by code_simp+
    have "unbroken (edit_line e)" if "unbroken_edit e" for e using that b by (cases e) (auto simp: unbroken_edit_def)
    with Cons h b show ?case by (auto simp: Let_def hunk_header_def range_text_def list_all_iff)
  qed simp
  then show "\<forall>(gap, heading, es) \<in> set hs. unbroken heading \<and> list_all unbroken_edit es \<Longrightarrow> \<forall>l \<in> set (print_unified hs). unbroken l"
    unfolding print_unified_def .
qed

lemma print_git_unbroken:
  assumes "git_file_ok f"
  shows "\<forall>l \<in> set (print_git f). unbroken l"
proof -
  have p: "unbroken (gf_path f)" "unbroken (gf_from f)" "unbroken (gf_to f)"
    using assms hex_not_break by (auto simp: git_file_ok_def plain_path_def hash_ok_def unbroken_def)
  have "\<forall>l \<in> set (git_command f # git_head f). unbroken l"
    using p by (cases "gf_kind f")
      (simp_all add: git_command_def git_head_def mode_lines_def index_line_def old_name_def new_name_def dev_null_def
        is_break_def Let_def code_def)
  moreover have "\<forall>l \<in> set (print_unified (gf_hunks f)). unbroken l"
    by (rule print_unified_unbroken) (use assms in \<open>auto simp: git_file_ok_def\<close>)
  ultimately show ?thesis by (auto simp: print_git_def)
qed

lemma parse_patch_git:
  assumes "\<forall>f \<in> set fs. git_file_ok f" "fs \<noteq> []"
  shows "parse_patch inflate (line_text (concat (map print_git fs))) = (map git_diffobj fs, None)"
proof -
  have u: "\<forall>l \<in> set (concat (map print_git fs)). unbroken l" using assms(1) print_git_unbroken by auto
  show ?thesis
    unfolding parse_patch_def splitlines_line_text [OF u] by (rule parse_patch_git_lines [OF assms u])
qed

section \<open>Reading and writing text files\<close>

definition plain_line :: "string \<Rightarrow> bool" where
  "plain_line l \<longleftrightarrow> nl \<notin> set l \<and> CHR 0x0D \<notin> set l"

lemma split_once_nl: "nl \<notin> set x \<Longrightarrow> split_once [nl] (x @ nl # r) = Some (x, r)"
  by (induction x) auto

lemma lines_with_end_text: "\<forall>l \<in> set ls. plain_line l \<Longrightarrow> lines_with_end [nl] (line_text ls) = map (\<lambda>l. l @ [nl]) ls"
proof (induction ls)
  case Nil
  then show ?case by (simp add: line_text_def lines_with_end.simps)
next
  case (Cons l ls)
  then have "split_once [nl] (line_text (l # ls)) = Some (l, line_text ls)"
    by (simp add: line_text_def split_once_nl plain_line_def)
  with Cons show ?case by (subst lines_with_end.simps) (simp add: line_text_def)
qed

lemma dropWhile_no: "x \<notin> set l \<Longrightarrow> dropWhile (\<lambda>c. c = x) l = l"
  by (cases l) auto

lemma strip_newline_line: "plain_line l \<Longrightarrow> strip_newline (Some [nl]) (l @ [nl]) = l"
proof (cases l)
  case (Cons c cs)
  assume l: "plain_line l"
  then have "dropWhile (\<lambda>c. c = nl) (rev l) = rev l" by (intro dropWhile_no) (simp add: plain_line_def)
  with l Cons show ?thesis by (auto simp: strip_newline_def strip_set_def plain_line_def)
qed (simp add: strip_newline_def strip_set_def)

lemma line_text_set: "set (line_text ls) \<subseteq> \<Union> (set ` set ls) \<union> {nl}"
  by (auto simp: line_text_def)

lemma split_content_text:
  assumes "\<forall>l \<in> set ls. plain_line l"
  shows "\<exists>e. split_content (Utf8 (line_text ls)) = (e, ls) \<and> (e = None \<or> e = Some [nl])"
proof -
  have "CHR 0x0D \<notin> set (line_text ls)" using assms line_text_set [of ls] by (auto simp: plain_line_def)
  then have c: "\<not> contains crlf (line_text ls)" by (auto simp: contains_iff crlf_def)
  show ?thesis
  proof (cases "ls = []")
    case True
    then show ?thesis
      by (simp add: split_content_def raw_text_def line_text_def detected_newline_def read_lines_def lines_with_end.simps Let_def crlf_def)
  next
    case False
    then have "nl \<in> set (line_text ls)" by (cases ls) (auto simp: line_text_def)
    then have "contains [nl] (line_text ls)" by (auto simp: contains_iff in_set_conv_decomp)
    with c have "detected_newline (line_text ls) = Some [nl]" by (simp add: detected_newline_def)
    with assms lines_with_end_text [OF assms] show ?thesis
      by (auto simp: split_content_def raw_text_def read_lines_def Let_def strip_newline_line intro!: map_idI)
  qed
qed

lemma write_lines_text: "e = None \<or> e = Some [nl] \<Longrightarrow> write_lines br e (map TextLine ls) = Utf8 (line_text ls)"
  by (auto simp: write_lines_def line_shown_def line_text_def replace_char_map o_def)

section \<open>A patch turns the old files into the new ones\<close>

definition target :: "string \<Rightarrow> git_file \<Rightarrow> string" where
  "target repo_dir f = os_path_join repo_dir (gf_path f)"

definition old_lines :: "git_file \<Rightarrow> string list" where "old_lines f = old_of (script_of (gf_hunks f))"
definition new_lines :: "git_file \<Rightarrow> string list" where "new_lines f = new_of (script_of (gf_hunks f))"

text \<open>A repository fits a file of the patch: what is to be changed has the old lines and some more after them.\<close>

definition fits :: "string \<Rightarrow> files \<Rightarrow> git_file \<times> string list \<Rightarrow> bool" where
  "fits repo_dir fs = (\<lambda>(f, post).
     case gf_kind f of
       Created \<Rightarrow> old_lines f = [] \<and> post = []
     | Modified \<Rightarrow> dict_get fs (target repo_dir f) = Some (Utf8 (line_text (old_lines f @ post)))
         \<and> (\<forall>l \<in> set (old_lines f @ post). plain_line l) \<and> \<not> contains ''rename from'' (d_text (git_diffobj f))
     | Deleted \<Rightarrow> True)"

definition patched :: "string \<Rightarrow> git_file \<times> string list \<Rightarrow> files \<Rightarrow> files" where
  "patched repo_dir = (\<lambda>(f, post) fs.
     if gf_kind f = Deleted then dict_del (target repo_dir f) fs
     else dict_set (target repo_dir f) (Utf8 (line_text (new_lines f @ post))) fs)"

lemma stripped_plain: "plain_path p \<Longrightarrow> stripped_path p = p"
  by (simp add: stripped_path_def removed_start_def plain_path_def)

lemma plain_not_null: "plain_path p \<Longrightarrow> repo_dir \<noteq> [] \<Longrightarrow> os_path_join repo_dir p \<noteq> [] \<and> p \<noteq> []"
  by (auto simp: os_path_join_def plain_path_def)

lemma git_apply:
  assumes "git_file_ok f"
  shows "apply_diff br run (git_diffobj f) (old_lines f @ post) False False = Inr (map TextLine (new_lines f @ post))"
    and "d_changes (git_diffobj f) \<noteq> None"
proof -
  have u: "unified_printable (gf_hunks f)" using assms by (simp add: git_file_ok_def)
  show "apply_diff br run (git_diffobj f) (old_lines f @ post) False False = Inr (map TextLine (new_lines f @ post))"
    unfolding old_lines_def new_lines_def by (rule unified.printed_diff_applies [OF u]) (simp add: git_diffobj_def)
  show "d_changes (git_diffobj f) \<noteq> None" using unified.parse_print [OF u] by (auto simp: git_diffobj_def)
qed

lemma apply_one_git:
  assumes "git_file_ok f" "gf_path f \<noteq> dev_null" "repo_dir \<noteq> []" "fits repo_dir fs (f, post)"
  shows "apply_one br run repo_dir (git_diffobj f) fs = (Inr (), patched repo_dir (f, post) fs)"
proof -
  have p: "plain_path (gf_path f)" using assms(1) by (simp add: git_file_ok_def)
  note path = stripped_plain [OF p] plain_not_null [OF p assms(3)]
  have h: "d_header (git_diffobj f) = Some (git_header_of f)" by (simp add: git_diffobj_def)
  have null: "stripped_path dev_null = dev_null" "dev_null \<noteq> []" by code_simp+
  note apply' = git_apply(1) [OF assms(1)]
  obtain cs0 where cs0: "d_changes (git_diffobj f) = Some cs0" using git_apply(2) [OF assms(1)] by auto
  show ?thesis
  proof (cases "gf_kind f")
    case Created
    with assms(4) have o': "old_lines f = []" "post = []" by (auto simp: fits_def)
    have "apply_diff br run (git_diffobj f) [] False False = Inr (map TextLine (new_lines f))"
      using apply' [of br run "[]"] o' by simp
    with cs0 o' path null h Created assms(2) write_lines_text [of "Some [nl]" br "new_lines f"]
    show ?thesis by (simp add: apply_one_def git_header_of_def Let_def rewrite_file_def patched_def target_def)
  next
    case Modified
    with assms(4) have m: "dict_get fs (os_path_join repo_dir (gf_path f)) = Some (Utf8 (line_text (old_lines f @ post)))"
      "\<forall>l \<in> set (old_lines f @ post). plain_line l" "\<not> contains ''rename from'' (d_text (git_diffobj f))"
      by (auto simp: fits_def target_def)
    obtain e where e: "split_content (Utf8 (line_text (old_lines f @ post))) = (e, old_lines f @ post)" "e = None \<or> e = Some [nl]"
      using split_content_text [OF m(2)] by blast
    obtain c cs where P: "os_path_join repo_dir (gf_path f) = c # cs" using path(2) by (cases "os_path_join repo_dir (gf_path f)") auto
    have "rewrite_file br run (git_diffobj f) (Some (os_path_join repo_dir (gf_path f))) (os_path_join repo_dir (gf_path f)) fs
       = (Inr (), patched repo_dir (f, post) fs)"
      using e m(1) apply' cs0 P write_lines_text [OF e(2)] Modified
      by (simp add: rewrite_file_def patched_def target_def del: map_append)
    with m(3) path h Modified assms(2) show ?thesis by (simp add: apply_one_def git_header_of_def Let_def)
  next
    case Deleted
    with path null h assms(2) show ?thesis by (simp add: apply_one_def git_header_of_def Let_def patched_def target_def)
  qed
qed

lemma dict_get_patched: "dict_get (patched repo_dir (g, post) fs) k =
   (if k = target repo_dir g then if gf_kind g = Deleted then None else Some (Utf8 (line_text (new_lines g @ post))) else dict_get fs k)"
  by (simp add: patched_def)

lemma fits_patched:
  "target repo_dir f \<noteq> target repo_dir g \<Longrightarrow> fits repo_dir (patched repo_dir (g, post) fs) (f, post') = fits repo_dir fs (f, post')"
  by (simp add: fits_def dict_get_patched split: file_kind.splits)

definition patch_ok :: "git_file \<Rightarrow> bool" where
  "patch_ok f \<longleftrightarrow> git_file_ok f \<and> gf_path f \<noteq> dev_null"

lemma apply_all_git:
  assumes "repo_dir \<noteq> []" "\<forall>(f, post) \<in> set ps. patch_ok f" "distinct (map (target repo_dir \<circ> fst) ps)" "\<forall>p \<in> set ps. fits repo_dir fs p"
  shows "apply_all br run repo_dir (map (git_diffobj \<circ> fst) ps) fs = (Inr (), fold (patched repo_dir) ps fs)"
  using assms(2-)
proof (induction ps arbitrary: fs)
  case (Cons p ps)
  obtain f post where p: "p = (f, post)" by (cases p)
  have "apply_one br run repo_dir (git_diffobj f) fs = (Inr (), patched repo_dir (f, post) fs)"
    using Cons.prems p by (intro apply_one_git assms(1)) (auto simp: patch_ok_def)
  moreover have "\<forall>q \<in> set ps. fits repo_dir (patched repo_dir (f, post) fs) q"
  proof
    fix q
    assume q: "q \<in> set ps"
    obtain g post' where g: "q = (g, post')" by (cases q)
    with q Cons.prems(2) p have "target repo_dir g \<noteq> target repo_dir f" by (auto simp: image_iff)
    moreover have "fits repo_dir fs q" using q Cons.prems(3) by simp
    ultimately show "fits repo_dir (patched repo_dir (f, post) fs) q" using fits_patched g by simp
  qed
  ultimately show ?case using Cons.IH [of "patched repo_dir (f, post) fs"] Cons.prems p by simp
qed simp

lemma get_patched_all:
  "distinct (map (target repo_dir \<circ> fst) ps) \<Longrightarrow>
   dict_get (fold (patched repo_dir) ps fs) k =
     (case find (\<lambda>(f, post). target repo_dir f = k) ps of
        Some (f, post) \<Rightarrow> if gf_kind f = Deleted then None else Some (Utf8 (line_text (new_lines f @ post)))
      | None \<Rightarrow> dict_get fs k)"
proof (induction ps arbitrary: fs)
  case (Cons p ps)
  obtain f post where p: "p = (f, post)" by (cases p)
  have IH: "dict_get (fold (patched repo_dir) ps (patched repo_dir (f, post) fs)) k =
     (case find (\<lambda>(f, post). target repo_dir f = k) ps of
        Some (f, post) \<Rightarrow> if gf_kind f = Deleted then None else Some (Utf8 (line_text (new_lines f @ post)))
      | None \<Rightarrow> dict_get (patched repo_dir (f, post) fs) k)"
    by (rule Cons.IH) (use Cons.prems in simp)
  show ?case
  proof (cases "target repo_dir f = k")
    case True
    with Cons.prems p have "find (\<lambda>(f, post). target repo_dir f = k) ps = None"
      by (auto simp: find_None_iff image_iff)
    with IH True p show ?thesis by (simp add: dict_get_patched)
  next
    case False
    with IH p show ?thesis by (auto simp: dict_get_patched split: option.splits)
  qed
qed simp

section \<open>Properties\<close>

definition patched_content :: "git_file \<times> string list \<Rightarrow> file_content option" where
  "patched_content = (\<lambda>(f, post). if gf_kind f = Deleted then None else Some (Utf8 (line_text (new_lines f @ post))))"

lemma apply_patch_git:
  assumes "repo_dir \<noteq> []" "ps \<noteq> []" "\<forall>(f, post) \<in> set ps. patch_ok f" "distinct (map (target repo_dir \<circ> fst) ps)"
    "\<forall>p \<in> set ps. fits repo_dir fs p"
  shows "apply_patch inflate br run repo_dir (line_text (concat (map (print_git \<circ> fst) ps))) fs = (Inr (), fold (patched repo_dir) ps fs)"
proof -
  have "\<forall>f \<in> set (map fst ps). git_file_ok f" using assms(3) by (auto simp: patch_ok_def)
  from parse_patch_git [OF this, of inflate] assms(2)
  have "parse_patch inflate (line_text (concat (map (print_git \<circ> fst) ps))) = (map (git_diffobj \<circ> fst) ps, None)"
    by simp
  with apply_all_git [OF assms(1,3-5), of br run] show ?thesis by (simp add: apply_patch_def)
qed

lemma get_patched_member:
  assumes "distinct (map (target repo_dir \<circ> fst) ps)" "p \<in> set ps"
  shows "dict_get (fold (patched repo_dir) ps fs) (target repo_dir (fst p)) = patched_content p"
proof -
  obtain f post where p: "p = (f, post)" by (cases p)
  have "find (\<lambda>(g, _). target repo_dir g = target repo_dir f) ps = Some p"
    using assms p
  proof (induction ps)
    case (Cons q ps)
    show ?case
    proof (cases "q = p")
      case False
      with Cons.prems have "p \<in> set ps" by auto
      moreover from this Cons.prems p have "target repo_dir (fst q) \<noteq> target repo_dir f" by (force simp: image_iff)
      ultimately show ?thesis using Cons by (auto simp: case_prod_unfold)
    qed (use Cons.prems in \<open>auto simp: case_prod_unfold\<close>)
  qed simp
  with get_patched_all [OF assms(1), of fs "target repo_dir f"] p show ?thesis by (simp add: patched_content_def)
qed

lemma get_patched_other:
  assumes "distinct (map (target repo_dir \<circ> fst) ps)" "k \<notin> (target repo_dir \<circ> fst) ` set ps"
  shows "dict_get (fold (patched repo_dir) ps fs) k = dict_get fs k"
proof -
  have "find (\<lambda>(f, post). target repo_dir f = k) ps = None"
    using assms(2) by (auto simp: find_None_iff image_iff)
  with get_patched_all [OF assms(1), of fs k] show ?thesis by simp
qed


definition demo_patch :: "(git_file \<times> string list) list" where
  "demo_patch =
     [(\<lparr>gf_path = ''src/m.py'', gf_kind = Modified, gf_from = ''1a'', gf_to = ''2b'',
        gf_hunks = [([''import os''], '' def f():'', [Keep ''x = 1'', Del ''y = 2'', Ins ''y = 3'', Ins '''']),
                    ([''pass'', ''pass''], [], [Del ''-- end''])]\<rparr>, [''last'']),
      (\<lparr>gf_path = ''n.txt'', gf_kind = Created, gf_from = ''0000000'', gf_to = ''3c'', gf_hunks = [([], [], [Ins ''new''])]\<rparr>, []),
      (\<lparr>gf_path = ''o.txt'', gf_kind = Deleted, gf_from = ''4d'', gf_to = ''0000000'', gf_hunks = [([], [], [Del ''old''])]\<rparr>, [])]"

definition demo_repo :: files where
  "demo_repo = [(''r/src/m.py'', Utf8 (line_text [''import os'', ''x = 1'', ''y = 2'', ''pass'', ''pass'', ''-- end'', ''last''])),
     (''r/o.txt'', Utf8 (line_text [''old''])), (''r/k.txt'', Utf8 ''kept'')]"


text \<open>C18. A unified diff turns the old lines into the new ones, and in reverse the new lines into the old ones,
  whatever lines follow.\<close>

theorem unified_diff_reversible:
  assumes "unified_printable hs" "d_changes d = parse_unified_diff (print_unified hs)"
  shows "apply_diff br run d (old_of (script_of hs) @ post) False False = Inr (map TextLine (new_of (script_of hs) @ post))
     \<and> apply_diff br run d (new_of (script_of hs) @ post) True False = Inr (map TextLine (old_of (script_of hs) @ post))"
  using unified.printed_diff_applies [OF assms] unified.printed_diff_reverses [OF assms] by blast

definition demo_hunks :: "hunk list" where
  "demo_hunks = [([''a''], [], [Keep ''b'', Del ''c'', Ins ''C'', Ins ''D'']), ([''e'', ''f''], ''g'', [Ins ''h'', Del ''i''])]"

definition demo_diffobj :: diffobj where
  "demo_diffobj = \<lparr>d_header = None, d_changes = parse_unified_diff (print_unified demo_hunks), d_text = []\<rparr>"

theorem unified_diff_reversible_witness:
  "apply_diff id (\<lambda>_ ls _. Inr ls) demo_diffobj (old_of (script_of demo_hunks) @ [''z'']) False False
       = Inr (map TextLine (new_of (script_of demo_hunks) @ [''z'']))
   \<and> apply_diff id (\<lambda>_ ls _. Inr ls) demo_diffobj (new_of (script_of demo_hunks) @ [''z'']) True False
       = Inr (map TextLine (old_of (script_of demo_hunks) @ [''z'']))"
proof (rule unified_diff_reversible)
  show "unified_printable demo_hunks" by (simp add: unified_printable_def demo_hunks_def)
qed (simp add: demo_diffobj_def)


definition demo_plain_hunks :: "hunk list" where
  "demo_plain_hunks = [([''a''], [], [Del ''b'', Del ''c'', Ins ''x'']), ([''d''], [], [Ins ''y'', Ins ''z'']), ([''e''], [], [Del ''f''])]"

definition with_changes :: "change list option \<Rightarrow> diffobj" where
  "with_changes cs = \<lparr>d_header = None, d_changes = cs, d_text = []\<rparr>"




section \<open>Where patches go wrong\<close>

definition no_inflate :: "string \<Rightarrow> string res" where "no_inflate s = Inl (ValueError [])"

definition first_changes :: "string list \<Rightarrow> change list option" where
  "first_changes ls = (case fst (parse_patch no_inflate (line_text ls)) of d # _ \<Rightarrow> d_changes d | [] \<Rightarrow> None)"

definition applied :: "string list \<Rightarrow> string list \<Rightarrow> line_value list res" where
  "applied patch ls = apply_diff id (\<lambda>_ ls _. Inr ls) (with_changes (first_changes patch)) ls False False"

text \<open>An \<open>ed\<close> script that changes one line into three puts the third after the line that follows.\<close>

theorem ed_change_misplaced:
  "applied [''2c'', ''xx'', ''yy'', ''zz'', ''.''] [''a'', ''b'', ''c'', ''d'']
     = Inr (map TextLine [''a'', ''xx'', ''yy'', ''c'', ''zz'', ''d''])"
  by code_simp

text \<open>A line of one character, whichever it is, is taken for the end of the text of an \<open>ed\<close> command.\<close>

theorem ed_single_character_lost:
  "applied [''1a'', ''{'', ''xx'', ''}'', ''.''] [''a''] = Inr (map TextLine [''a'', ''xx''])"
  by code_simp

definition context_top :: "string list" where
  "context_top = [''*** f'' @ [tab] @ ''1'', ''--- f'' @ [tab] @ ''2'', replicate 15 (CHR ''*'')]"

text \<open>A context diff that changes the last line of a file deletes the line and loses its replacement.\<close>

theorem context_change_at_end_lost:
  "applied (context_top @ [''*** 1,2 ****'', ''  a'', ''! b'', ''--- 1,2 ----'', ''  a'', ''! x'']) [''a'', ''b'']
     = Inr (map TextLine [''a''])"
  by code_simp

text \<open>A context diff with a range of one line, which is printed without a comma, is not parsed.\<close>

theorem context_single_line_raises:
  "\<exists>m. parse_patch no_inflate (line_text (context_top @ [''*** 1 ****'', ''! a'', ''--- 1 ----'', ''! x''])) = ([], Some (ValueError m))"
proof -
  have "(case parse_patch no_inflate (line_text (context_top @ [''*** 1 ****'', ''! a'', ''--- 1 ----'', ''! x''])) of
     ([], Some (ValueError _)) \<Rightarrow> True | _ \<Rightarrow> False)" by code_simp
  then show ?thesis by (auto split: prod.splits list.splits option.splits py_exn.splits)
qed

text \<open>A removed line that begins with two dashes and a space, a comment of SQL or Lua with a colon, ends the diff when there is no
  \<open>diff\<close> line: what follows is dropped without an error.\<close>

theorem removed_comment_cuts_diff:
  "applied [''--- f'' @ [tab] @ ''1'', ''+++ f'' @ [tab] @ ''2'', ''@@ -1,3 +1,2 @@'', '' a'', ''--- TODO: b'', ''-c'', ''+d''] [''a'', ''-- TODO: b'', ''c'']
     = Inr (map TextLine [''a'', ''-- TODO: b'', ''c''])"
  by code_simp

text \<open>A form feed in an added line cuts the line, because the patch is split where \<open>splitlines\<close> sees a line end.\<close>

theorem form_feed_cuts_line:
  "applied [''diff --git a/f b/f'', ''index 1..2'', ''--- a/f'', ''+++ b/f'', ''@@ -1 +1,2 @@'', '' a'', ''+b'' @ [CHR 0x0C] @ ''c''] [''a'']
     = Inr (map TextLine [''a'', ''b''])"
  by code_simp

text \<open>An empty line at the end of a patch is a line of context.\<close>

theorem trailing_empty_line_is_context:
  "\<exists>m. applied [''diff --git a/f b/f'', ''index 1..2'', ''--- a/f'', ''+++ b/f'', ''@@ -1 +1 @@'', ''-a'', ''+b'', ''''] [''a'']
     = Inl (OtherError ''HunkApplyException'' m)"
proof -
  have "(case applied [''diff --git a/f b/f'', ''index 1..2'', ''--- a/f'', ''+++ b/f'', ''@@ -1 +1 @@'', ''-a'', ''+b'', ''''] [''a''] of
     Inl (OtherError c _) \<Rightarrow> c = ''HunkApplyException'' | _ \<Rightarrow> False)" by code_simp
  then show ?thesis by (auto split: sum.splits py_exn.splits)
qed

definition patch_run :: "string list \<Rightarrow> files \<Rightarrow> unit res \<times> files" where
  "patch_run patch fs = apply_patch Inr (\<lambda>b. ''b'' @ b) (\<lambda>_ ls _. Inr ls) ''r'' (line_text patch) fs"

definition git_lines :: "string \<Rightarrow> string list \<Rightarrow> string list" where
  "git_lines p hunk = [''diff --git a/'' @ p @ '' b/'' @ p, ''index 1..2 100644'', ''--- a/'' @ p, ''+++ b/'' @ p] @ hunk"

text \<open>A file in a directory \<open>a\<close> at the top of the repository is looked for outside that directory: the prefix of the
  path is stripped by the parser of the header, again by its caller and again by \<open>apply_patch\<close>.\<close>

theorem git_path_stripped_again:
  "patch_run (git_lines ''a/f'' [''@@ -1 +1 @@'', ''-xx'', ''+yy'']) [(''r/a/f'', Utf8 (line_text [''xx''])), (''r/f'', Utf8 (line_text [''xx'']))]
     = (Inr (), [(''r/a/f'', Utf8 (line_text [''xx''])), (''r/f'', Utf8 (line_text [''yy'']))])"
  by code_simp

text \<open>A patch whose text has the words \<open>rename from\<close> anywhere, here in an added line, is taken for a renaming: its changes are
  dropped and nothing is reported.\<close>

theorem rename_words_drop_changes:
  "patch_run (git_lines ''f'' [''@@ -1 +1 @@'', ''-xx'', ''+rename from here'']) [(''r/f'', Utf8 (line_text [''xx'']))]
     = (Inr (), [(''r/f'', Utf8 (line_text [''xx'']))])"
  by code_simp

text \<open>A renaming that also changes the file leaves the file unchanged under its new name.\<close>

theorem rename_drops_changes:
  "patch_run [''diff --git a/f b/g'', ''similarity index 50%'', ''rename from f'', ''rename to g'', ''index 1..2 100644'', ''--- a/f'', ''+++ b/g'',
       ''@@ -1,2 +1,2 @@'', ''-xx'', ''+yy'', '' zz''] [(''r/f'', Utf8 (line_text [''xx'', ''zz'']))]
     = (Inr (), [(''r/g'', Utf8 (line_text [''xx'', ''zz'']))])"
  by code_simp

text \<open>A file of one line without a line end loses the indentation of that line.\<close>

theorem unterminated_line_stripped:
  "patch_run (git_lines ''f'' [''@@ -1 +1,2 @@'', ''   xx'', ''+yy'']) [(''r/f'', Utf8 ''  xx'')] = (Inr (), [(''r/f'', Utf8 (line_text [''xx'', ''yy'']))])"
  by code_simp

text \<open>A path that is absolute is written outside the repository.\<close>

theorem absolute_path_leaves_repository:
  "patch_run (git_lines ''/etc/x'' [''@@ -1 +1 @@'', ''-xx'', ''+yy'']) [(''/etc/x'', Utf8 (line_text [''xx'']))]
     = (Inr (), [(''/etc/x'', Utf8 (line_text [''yy'']))])"
  by code_simp

text \<open>In a binary patch the old content, which comes second, is read as a second added content, and the file is written as
  the printed bytes of both.\<close>

theorem binary_patch_writes_printed_bytes:
  "patch_run [''diff --git a/f b/f'', ''index 1..2 100644'', ''GIT binary patch'', ''literal 5'', ''EAAAAA'', '''', ''literal 5'', ''EBBBBB'', '''']
       [(''r/f'', NotUtf8 ''x'')]
     = (Inr (), [(''r/f'', Utf8 (line_text [''bBBBBB'', ''bAAAAA'']))])"
  by code_simp

end
