(* ===== verification/Task_Protocol.thy ===== *)
theory Task_Protocol
  imports Py_Str
begin

text \<open>
  \<open>control_plane/task_protocol.py\<close>: the Plan, Execute, Verify, Report protocol, the task
  specification records, and the choice of verification commands by language.
\<close>

section \<open>Data\<close>

datatype task_phase = PLAN | EXECUTE_PHASE | VERIFY | REPORT_PHASE

fun task_phase_value :: "task_phase \<Rightarrow> string" where
  "task_phase_value PLAN = ''plan''"
| "task_phase_value EXECUTE_PHASE = ''execute''"
| "task_phase_value VERIFY = ''verify''"
| "task_phase_value REPORT_PHASE = ''report''"

definition DEFAULT_TASK_PROTOCOL :: "task_phase list" where
  "DEFAULT_TASK_PROTOCOL = [PLAN, EXECUTE_PHASE, VERIFY, REPORT_PHASE]"

record change_boundary =
  allowed_paths :: "string list"
  allowed_file_extensions :: "string list"
  blocked_path_patterns :: "string list"

datatype confirmation_mode = Auto | OnRequest | Manual
datatype network_access = Deny | Allowlist | Open

record task_execution_policy =
  confirmation_mode :: confirmation_mode
  network_access :: network_access
  readonly_research_mode :: bool
  review_mode :: bool
  handoff_mode :: bool
  max_self_heal_rounds :: int

text \<open>The model's defaults, and pydantic's \<open>ge=0, le=10\<close> check of the round limit.\<close>

definition default_execution_policy :: task_execution_policy where
  "default_execution_policy = \<lparr>confirmation_mode = OnRequest, network_access = Allowlist,
     readonly_research_mode = False, review_mode = False, handoff_mode = False,
     max_self_heal_rounds = 2\<rparr>"

definition make_execution_policy :: "task_execution_policy \<Rightarrow> task_execution_policy res" where
  "make_execution_policy p =
     (if 0 \<le> max_self_heal_rounds p \<and> max_self_heal_rounds p \<le> 10 then Inr p
      else Inl (ValueError ''max_self_heal_rounds''))"

record task_spec =
  title :: string
  objective :: string
  language :: string
  acceptance_criteria :: "string list"
  change_boundary :: change_boundary
  execution_policy :: task_execution_policy

definition make_task_spec :: "string \<Rightarrow> string \<Rightarrow> task_spec" where
  "make_task_spec t obj = \<lparr>title = t, objective = obj, language = ''generic'',
     acceptance_criteria = [],
     change_boundary = \<lparr>allowed_paths = [], allowed_file_extensions = [], blocked_path_patterns = []\<rparr>,
     execution_policy = default_execution_policy\<rparr>"

section \<open>Verification commands\<close>

definition VERIFICATION_COMMANDS :: "(string, string list) dict" where
  "VERIFICATION_COMMANDS =
    [(''python'', [''pytest -q'']),
     (''javascript'', [''npm test -- --runInBand'']),
     (''typescript'', [''npm run typecheck'', ''npm test -- --runInBand'']),
     (''java'', [''mvn -q test'']),
     (''kotlin'', [''./gradlew test'']),
     (''go'', [''go test ./...'']),
     (''rust'', [''cargo test'']),
     (''csharp'', [''dotnet test'']),
     (''generic'', [''echo '' @ [CHR 0x27] @ ''No built-in verifier; define project-specific command.'' @ [CHR 0x27]])]"

definition language_aliases :: "(string, string) dict" where
  "language_aliases =
    [(''py'', ''python''), (''js'', ''javascript''), (''ts'', ''typescript''),
     (''node'', ''javascript''), (''golang'', ''go''), (''cs'', ''csharp'')]"

definition normalize_language :: "string \<Rightarrow> string" where
  "normalize_language lang =
     (let value = lower (strip lang)
      in dict_get_default language_aliases value (if value = [] then ''generic'' else value))"

definition generic_commands :: "string list" where
  "generic_commands = dict_get_default VERIFICATION_COMMANDS ''generic'' []"

definition select_verification_commands :: "string \<Rightarrow> string list" where
  "select_verification_commands lang =
     dict_get_default VERIFICATION_COMMANDS (normalize_language lang) generic_commands"

section \<open>Phase transitions\<close>

text \<open>\<open>order.index(p)\<close> over the default protocol.\<close>

fun index_of :: "'a list \<Rightarrow> 'a \<Rightarrow> nat" where
  "index_of [] x = 0"
| "index_of (y # ys) x = (if x = y then 0 else Suc (index_of ys x))"

definition is_valid_phase_transition :: "task_phase option \<Rightarrow> task_phase \<Rightarrow> bool" where
  "is_valid_phase_transition current_phase next_phase =
     (case current_phase of
        None \<Rightarrow> next_phase = PLAN
      | Some cur \<Rightarrow>
          if next_phase = cur then True
          else index_of DEFAULT_TASK_PROTOCOL next_phase = index_of DEFAULT_TASK_PROTOCOL cur + 1)"

text \<open>The loop of \<open>validate_phase_sequence\<close>: \<open>None\<close> when a transition is refused, otherwise the
  last phase seen.\<close>

fun scan_phases :: "task_phase option \<Rightarrow> task_phase list \<Rightarrow> task_phase option option" where
  "scan_phases prev [] = Some prev"
| "scan_phases prev (p # ps) =
     (if is_valid_phase_transition prev p then scan_phases (Some p) ps else None)"

definition validate_phase_sequence :: "task_phase list \<Rightarrow> bool \<Rightarrow> bool" where
  "validate_phase_sequence phases require_complete =
     (case scan_phases None phases of
        None \<Rightarrow> False
      | Some None \<Rightarrow> False
      | Some (Some last_phase) \<Rightarrow>
          if require_complete then last_phase = REPORT_PHASE else True)"

section \<open>Lemmas\<close>

text \<open>The protocol as a step relation: stay, or move to the next phase.\<close>

inductive phase_step :: "task_phase option \<Rightarrow> task_phase \<Rightarrow> bool" where
  start: "phase_step None PLAN"
| stay: "phase_step (Some p) p"
| plan_execute: "phase_step (Some PLAN) EXECUTE_PHASE"
| execute_verify: "phase_step (Some EXECUTE_PHASE) VERIFY"
| verify_report: "phase_step (Some VERIFY) REPORT_PHASE"

inductive_simps phase_step_simps: "phase_step a b"

lemma transition_iff_step: "is_valid_phase_transition a b \<longleftrightarrow> phase_step a b"
proof (cases a)
  case None
  then show ?thesis by (auto simp: is_valid_phase_transition_def phase_step_simps)
next
  case (Some p)
  then show ?thesis
    by (cases p; cases b)
      (auto simp: is_valid_phase_transition_def DEFAULT_TASK_PROTOCOL_def phase_step_simps)
qed

lemma transition_from_None [simp]: "is_valid_phase_transition None p \<longleftrightarrow> p = PLAN"
  by (simp add: is_valid_phase_transition_def)

lemma transition_from_PLAN [simp]:
  "is_valid_phase_transition (Some PLAN) p \<longleftrightarrow> p = PLAN \<or> p = EXECUTE_PHASE"
  by (auto simp: transition_iff_step phase_step_simps)

lemma transition_from_EXECUTE [simp]:
  "is_valid_phase_transition (Some EXECUTE_PHASE) p \<longleftrightarrow> p = EXECUTE_PHASE \<or> p = VERIFY"
  by (auto simp: transition_iff_step phase_step_simps)

lemma transition_from_VERIFY [simp]:
  "is_valid_phase_transition (Some VERIFY) p \<longleftrightarrow> p = VERIFY \<or> p = REPORT_PHASE"
  by (auto simp: transition_iff_step phase_step_simps)

lemma transition_from_REPORT [simp]:
  "is_valid_phase_transition (Some REPORT_PHASE) p \<longleftrightarrow> p = REPORT_PHASE"
  by (auto simp: transition_iff_step phase_step_simps)

lemma scan_append:
  "scan_phases prev (ps @ qs) =
     (case scan_phases prev ps of None \<Rightarrow> None | Some l \<Rightarrow> scan_phases l qs)"
  by (induction prev ps rule: scan_phases.induct) auto

lemma scan_replicate: "scan_phases (Some p) (replicate n p @ ps) = scan_phases (Some p) ps"
  by (induction n) (auto simp: is_valid_phase_transition_def)

text \<open>A phase \<open>p\<close> whose only ways on are itself and \<open>q\<close> is left exactly by repeating \<open>p\<close> and
  then taking \<open>q\<close>.\<close>

lemma scan_through:
  assumes "p \<noteq> q" and "r \<noteq> p"
    and ways: "\<And>x. is_valid_phase_transition (Some p) x \<longleftrightarrow> x = p \<or> x = q"
  shows "scan_phases (Some p) ps = Some (Some r) \<longleftrightarrow>
    (\<exists>n ps'. ps = replicate n p @ q # ps' \<and> scan_phases (Some q) ps' = Some (Some r))"
proof
  assume "scan_phases (Some p) ps = Some (Some r)"
  then show "\<exists>n ps'. ps = replicate n p @ q # ps' \<and> scan_phases (Some q) ps' = Some (Some r)"
  proof (induction ps)
    case Nil
    with assms show ?case by simp
  next
    case (Cons x ps)
    then consider "x = p" "scan_phases (Some p) ps = Some (Some r)"
      | "x = q" "scan_phases (Some q) ps = Some (Some r)" using ways by (auto split: if_splits)
    then show ?case
    proof cases
      case 1
      with Cons.IH obtain n ps' where "ps = replicate n p @ q # ps'"
        and "scan_phases (Some q) ps' = Some (Some r)" by blast
      with 1 show ?thesis by (intro exI [of _ "Suc n"] exI [of _ ps']) simp
    next
      case 2
      then show ?thesis by (intro exI [of _ 0] exI [of _ ps]) simp
    qed
  qed
next
  assume "\<exists>n ps'. ps = replicate n p @ q # ps' \<and> scan_phases (Some q) ps' = Some (Some r)"
  with assms show "scan_phases (Some p) ps = Some (Some r)" by (auto simp: scan_replicate)
qed

lemma scan_from_REPORT:
  "scan_phases (Some REPORT_PHASE) ps = Some (Some REPORT_PHASE) \<longleftrightarrow>
     ps = replicate (length ps) REPORT_PHASE"
  by (induction ps) auto

lemmas scan_from =
  scan_through [of PLAN EXECUTE_PHASE REPORT_PHASE, simplified]
  scan_through [of EXECUTE_PHASE VERIFY REPORT_PHASE, simplified]
  scan_through [of VERIFY REPORT_PHASE REPORT_PHASE, simplified]

lemma scan_reaches:
  "scan_phases (Some p) ps = Some (Some l) \<Longrightarrow> \<exists>qs. scan_phases (Some l) qs = Some (Some REPORT_PHASE)"
proof -
  have "scan_phases (Some l) (case l of PLAN \<Rightarrow> [EXECUTE_PHASE, VERIFY, REPORT_PHASE]
      | EXECUTE_PHASE \<Rightarrow> [VERIFY, REPORT_PHASE] | VERIFY \<Rightarrow> [REPORT_PHASE] | REPORT_PHASE \<Rightarrow> [])
    = Some (Some REPORT_PHASE)"
    by (cases l) simp_all
  then show ?thesis by blast
qed

lemma scan_last: "scan_phases prev ps = Some l \<Longrightarrow> ps \<noteq> [] \<Longrightarrow> l = Some (last ps)"
  by (induction prev ps rule: scan_phases.induct) (auto split: if_splits)

lemma scan_None_start: "scan_phases None ps = Some (Some l) \<longleftrightarrow>
    (\<exists>ps'. ps = PLAN # ps' \<and> scan_phases (Some PLAN) ps' = Some (Some l))"
  by (cases ps) auto

section \<open>Properties\<close>

text \<open>A complete phase trace is accepted exactly when it is one or more rounds of PLAN,
  then of EXECUTE, of VERIFY and of REPORT, in this order: no phase is skipped, none is revisited,
  and the trace ends in REPORT.\<close>

theorem validate_complete_iff:
  "validate_phase_sequence ps True \<longleftrightarrow>
     (\<exists>a b c d. ps = replicate (Suc a) PLAN @ replicate (Suc b) EXECUTE_PHASE
                  @ replicate (Suc c) VERIFY @ replicate (Suc d) REPORT_PHASE)"
proof -
  have "validate_phase_sequence ps True \<longleftrightarrow> scan_phases None ps = Some (Some REPORT_PHASE)"
    by (auto simp: validate_phase_sequence_def split: option.splits)
  also have "\<dots> \<longleftrightarrow> (\<exists>a b c d. ps = PLAN # replicate a PLAN @ EXECUTE_PHASE #
      replicate b EXECUTE_PHASE @ VERIFY # replicate c VERIFY @ REPORT_PHASE # replicate d REPORT_PHASE)"
    by (auto simp: scan_None_start scan_from scan_from_REPORT)
      (metis length_replicate)+
  finally show ?thesis by simp
qed

text \<open>Validating a trace in progress (\<open>require_complete=False\<close>) accepts exactly the
  non-empty traces that can still be continued to an accepted complete trace.\<close>

theorem validate_prefix_iff:
  "validate_phase_sequence ps False \<longleftrightarrow>
     ps \<noteq> [] \<and> (\<exists>qs. validate_phase_sequence (ps @ qs) True)"
proof
  assume "validate_phase_sequence ps False"
  then obtain l where l: "scan_phases None ps = Some (Some l)"
    by (auto simp: validate_phase_sequence_def split: option.splits)
  then obtain qs where "scan_phases (Some l) qs = Some (Some REPORT_PHASE)"
    by (metis scan_None_start scan_reaches)
  with l have "validate_phase_sequence (ps @ qs) True"
    by (simp add: validate_phase_sequence_def scan_append)
  moreover from l have "ps \<noteq> []" by auto
  ultimately show "ps \<noteq> [] \<and> (\<exists>qs. validate_phase_sequence (ps @ qs) True)" by blast
next
  assume *: "ps \<noteq> [] \<and> (\<exists>qs. validate_phase_sequence (ps @ qs) True)"
  then obtain l where "scan_phases None ps = Some l"
    by (auto simp: validate_phase_sequence_def scan_append split: option.splits)
  with * scan_last [of None ps l] show "validate_phase_sequence ps False"
    by (auto simp: validate_phase_sequence_def)
qed

end
