(* ===== verification/Budget_Policy.thy ===== *)
theory Budget_Policy
  imports Py_Float
begin

text \<open>
  \<open>control_plane/budget_policy.py\<close>: the decision a running task gets from its cost so far and
  its cap. Costs and ratios are Python floats; the quotient is the rounded one.
\<close>

section \<open>Data\<close>

datatype budget_action = BCONTINUE | BWARN | BPAUSE | BDOWNGRADE_MODEL | BREQUIRE_APPROVAL

record budget_decision =
  bd_action :: budget_action
  bd_current_cost_usd :: rat
  bd_max_budget_usd :: rat
  bd_detail :: string
  bd_target_model :: "string option"

record budget_policy =
  warn_at_ratio :: rat
  downgrade_at_ratio :: rat
  pause_when_exceeded :: bool
  require_approval_when_exceeded :: bool
  fallback_model :: "string option"

text \<open>Pydantic's \<open>ge=0.0, le=1.0\<close> check of the two ratios.\<close>

definition make_budget_policy :: "budget_policy \<Rightarrow> budget_policy res" where
  "make_budget_policy p =
     (if 0 \<le> warn_at_ratio p \<and> warn_at_ratio p \<le> 1 \<and>
         0 \<le> downgrade_at_ratio p \<and> downgrade_at_ratio p \<le> 1
      then Inr p else Inl (ValueError ''ratio''))"

definition default_budget_policy_fields :: budget_policy where
  "default_budget_policy_fields = \<lparr>warn_at_ratio = fl (8/10), downgrade_at_ratio = fl (95/100),
     pause_when_exceeded = True, require_approval_when_exceeded = True, fallback_model = None\<rparr>"

definition DEFAULT_BUDGET_POLICY :: budget_policy where
  "DEFAULT_BUDGET_POLICY = default_budget_policy_fields\<lparr>fallback_model := Some ''gpt-4.1-mini''\<rparr>"

text \<open>A Python optional string is true when it is present and not empty.\<close>

definition truthy_str :: "string option \<Rightarrow> bool" where
  "truthy_str s = (case s of None \<Rightarrow> False | Some t \<Rightarrow> t \<noteq> [])"

section \<open>Evaluation\<close>

definition budget_evaluate :: "budget_policy \<Rightarrow> rat \<Rightarrow> rat option \<Rightarrow> budget_decision" where
  "budget_evaluate self current_cost_usd max_budget_usd =
    (case max_budget_usd of
       None \<Rightarrow> \<lparr>bd_action = BCONTINUE, bd_current_cost_usd = current_cost_usd,
                bd_max_budget_usd = 0, bd_detail = ''no budget cap configured'',
                bd_target_model = None\<rparr>
     | Some cap \<Rightarrow>
        if cap \<le> 0 then
          \<lparr>bd_action = BCONTINUE, bd_current_cost_usd = current_cost_usd,
           bd_max_budget_usd = 0, bd_detail = ''no budget cap configured'',
           bd_target_model = None\<rparr>
        else let ratio = fl (current_cost_usd / cap) in
          if 1 \<le> ratio \<and> require_approval_when_exceeded self then
            \<lparr>bd_action = (if pause_when_exceeded self then BPAUSE else BREQUIRE_APPROVAL),
             bd_current_cost_usd = current_cost_usd, bd_max_budget_usd = cap,
             bd_detail = ''budget exceeded; waiting for operator approval'',
             bd_target_model = fallback_model self\<rparr>
          else if downgrade_at_ratio self \<le> ratio \<and> truthy_str (fallback_model self) then
            \<lparr>bd_action = BDOWNGRADE_MODEL,
             bd_current_cost_usd = current_cost_usd, bd_max_budget_usd = cap,
             bd_detail = ''budget near cap; downgrade model for remaining steps'',
             bd_target_model = fallback_model self\<rparr>
          else if warn_at_ratio self \<le> ratio then
            \<lparr>bd_action = BWARN,
             bd_current_cost_usd = current_cost_usd, bd_max_budget_usd = cap,
             bd_detail = ''budget warning threshold reached'', bd_target_model = None\<rparr>
          else
            \<lparr>bd_action = BCONTINUE,
             bd_current_cost_usd = current_cost_usd, bd_max_budget_usd = cap,
             bd_detail = ''within budget'', bd_target_model = None\<rparr>)"

section \<open>Lemmas\<close>

text \<open>How much an action restrains the task.\<close>

fun severity :: "budget_action \<Rightarrow> nat" where
  "severity BCONTINUE = 0"
| "severity BWARN = 1"
| "severity BDOWNGRADE_MODEL = 2"
| "severity BREQUIRE_APPROVAL = 3"
| "severity BPAUSE = 3"

definition stops :: "budget_action \<Rightarrow> bool" where
  "stops a \<longleftrightarrow> a = BPAUSE \<or> a = BREQUIRE_APPROVAL"

text \<open>The action as a function of the computed ratio alone.\<close>

definition action_at :: "budget_policy \<Rightarrow> rat \<Rightarrow> budget_action" where
  "action_at p r =
     (if 1 \<le> r \<and> require_approval_when_exceeded p
      then (if pause_when_exceeded p then BPAUSE else BREQUIRE_APPROVAL)
      else if downgrade_at_ratio p \<le> r \<and> truthy_str (fallback_model p) then BDOWNGRADE_MODEL
      else if warn_at_ratio p \<le> r then BWARN else BCONTINUE)"

lemma evaluate_action:
  "0 < cap \<Longrightarrow> bd_action (budget_evaluate p c (Some cap)) = action_at p (fl (c / cap))"
  by (simp add: budget_evaluate_def action_at_def Let_def)

lemma stops_action_at: "stops (action_at p r) \<longleftrightarrow> 1 \<le> r \<and> require_approval_when_exceeded p"
  by (simp add: stops_def action_at_def)

lemma action_at_mono: "r \<le> r' \<Longrightarrow> severity (action_at p r) \<le> severity (action_at p r')"
  by (auto simp: action_at_def)

section \<open>Properties\<close>

text \<open>C37. With approval required on excess, a task with a positive cap is stopped (paused, or
  held for approval) exactly when its cost has reached the cap, although the comparison is made
  on the rounded quotient.\<close>

theorem budget_stop_iff:
  assumes "fl cost = cost" and "fl cap = cap" and "0 < cap"
    and "require_approval_when_exceeded p"
  shows "stops (bd_action (budget_evaluate p cost (Some cap))) \<longleftrightarrow> cap \<le> cost"
  using assms by (simp add: evaluate_action stops_action_at fl_quotient_ge_1_iff)

theorem budget_stop_iff_witness:
  "stops (bd_action (budget_evaluate DEFAULT_BUDGET_POLICY 7 (Some 7))) \<longleftrightarrow> (7::rat) \<le> 7"
  by (rule budget_stop_iff) code_simp+

text \<open>Spending more under the same cap never relaxes the decision: severity grows from
  continue through warn and downgrade to stop.\<close>

theorem budget_severity_mono:
  assumes "cost \<le> cost'"
  shows "severity (bd_action (budget_evaluate p cost cap))
    \<le> severity (bd_action (budget_evaluate p cost' cap))"
proof (cases "\<exists>c. cap = Some c \<and> 0 < c")
  case True
  then obtain c where c: "cap = Some c" "0 < c" by blast
  with assms have "fl (cost / c) \<le> fl (cost' / c)" by (intro ieee.rnd_quotient_mono)
  with c show ?thesis by (simp add: evaluate_action action_at_mono)
next
  case False
  then show ?thesis by (cases cap) (auto simp: budget_evaluate_def)
qed

theorem budget_severity_mono_witness:
  "severity (bd_action (budget_evaluate DEFAULT_BUDGET_POLICY 5 (Some 10)))
    \<le> severity (bd_action (budget_evaluate DEFAULT_BUDGET_POLICY 12 (Some 10)))"
  by (rule budget_severity_mono) simp

text \<open>When \<open>require_approval_when_exceeded\<close> is off, no cost ever stops the task, whatever
  \<open>pause_when_exceeded\<close> says: the pause switch alone has no effect.\<close>

theorem budget_pause_needs_approval_flag:
  assumes "\<not> require_approval_when_exceeded p"
  shows "\<not> stops (bd_action (budget_evaluate p cost cap))"
  using assms by (cases cap) (auto simp: budget_evaluate_def stops_def Let_def)

theorem budget_pause_needs_approval_flag_witness:
  "\<not> stops (bd_action (budget_evaluate
      (DEFAULT_BUDGET_POLICY\<lparr>require_approval_when_exceeded := False, pause_when_exceeded := True\<rparr>)
      1000 (Some 1)))"
  by (rule budget_pause_needs_approval_flag) simp

end
