(* ===== verification/Team_Space.thy ===== *)
theory Team_Space
  imports Py_Str
begin

text \<open>
  \<open>teamspace/__init__.py\<close>: team spaces, their members and roles, the permission guard and the
  in-memory registry. A registry is a dictionary of spaces; each operation that changes it
  returns the new registry or the exception it raises. The clock is an argument (\<open>now\<close>).
\<close>

section \<open>Roles and permissions\<close>

datatype space_role = OWNER | ADMIN | MEMBER | VIEWER
datatype space_type = PERSONAL | TEAM_SPACE | SHARED_TEMPLATE

fun ROLE_HIERARCHY :: "space_role \<Rightarrow> int" where
  "ROLE_HIERARCHY OWNER = 4"
| "ROLE_HIERARCHY ADMIN = 3"
| "ROLE_HIERARCHY MEMBER = 2"
| "ROLE_HIERARCHY VIEWER = 1"

definition PERMISSION_MATRIX :: "(string, space_role list) dict" where
  "PERMISSION_MATRIX =
    [(''space:read'', [VIEWER, MEMBER, ADMIN, OWNER]),
     (''space:write'', [MEMBER, ADMIN, OWNER]),
     (''space:manage'', [ADMIN, OWNER]),
     (''space:delete'', [OWNER]),
     (''task:create'', [MEMBER, ADMIN, OWNER]),
     (''task:read'', [VIEWER, MEMBER, ADMIN, OWNER]),
     (''task:manage'', [ADMIN, OWNER]),
     (''template:read'', [VIEWER, MEMBER, ADMIN, OWNER]),
     (''template:write'', [ADMIN, OWNER]),
     (''audit:read'', [MEMBER, ADMIN, OWNER]),
     (''billing:read'', [ADMIN, OWNER]),
     (''billing:manage'', [OWNER])]"

record space_member =
  sm_user_id :: string
  sm_role :: space_role
  sm_joined_at :: int

record team_space =
  space_id :: string
  space_name :: string
  space_type :: space_type
  owner_id :: string
  members :: "(string, space_member) dict"
  created_at :: int
  quota_tasks :: int
  quota_storage_mb :: int
  is_archived :: bool

text \<open>The \<open>model_validator\<close> that runs after construction.\<close>

definition ensure_owner_is_member :: "team_space \<Rightarrow> team_space" where
  "ensure_owner_is_member self =
     (if owner_id self \<in> set (dict_keys (members self)) then self
      else self\<lparr>members := dict_set (owner_id self)
             \<lparr>sm_user_id = owner_id self, sm_role = OWNER, sm_joined_at = created_at self\<rparr>
             (members self)\<rparr>)"

section \<open>The permission guard\<close>

definition get_role :: "team_space \<Rightarrow> string \<Rightarrow> space_role option" where
  "get_role sp user_id = map_option sm_role (dict_get (members sp) user_id)"

definition can :: "team_space \<Rightarrow> string \<Rightarrow> string \<Rightarrow> bool" where
  "can sp user_id permission =
     (case get_role sp user_id of
        None \<Rightarrow> False
      | Some role \<Rightarrow> role \<in> set (dict_get_default PERMISSION_MATRIX permission []))"

fun role_text :: "space_role option \<Rightarrow> string" where
  "role_text None = ''None''"
| "role_text (Some OWNER) = ''SpaceRole.OWNER''"
| "role_text (Some ADMIN) = ''SpaceRole.ADMIN''"
| "role_text (Some MEMBER) = ''SpaceRole.MEMBER''"
| "role_text (Some VIEWER) = ''SpaceRole.VIEWER''"

definition require_perm :: "team_space \<Rightarrow> string \<Rightarrow> string \<Rightarrow> unit res" where
  "require_perm sp user_id permission =
     (if \<not> can sp user_id permission
      then Inl (PermissionError (''User '' @ user_id @ '' (role='' @ role_text (get_role sp user_id)
             @ '') lacks permission '' @ permission @ '' in space '' @ space_id sp))
      else Inr ())"

definition is_at_least :: "team_space \<Rightarrow> string \<Rightarrow> space_role \<Rightarrow> bool" where
  "is_at_least sp user_id min_role =
     (case get_role sp user_id of
        None \<Rightarrow> False
      | Some role \<Rightarrow> ROLE_HIERARCHY min_role \<le> ROLE_HIERARCHY role)"

definition list_members_with_role :: "team_space \<Rightarrow> space_role \<Rightarrow> string list" where
  "list_members_with_role sp min_role =
     map fst (filter (\<lambda>(uid, m). ROLE_HIERARCHY min_role \<le> ROLE_HIERARCHY (sm_role m)) (members sp))"

section \<open>The registry\<close>

type_synonym space_registry = "(string, team_space) dict"

definition create_space ::
  "int \<Rightarrow> string \<Rightarrow> string \<Rightarrow> string \<Rightarrow> space_type \<Rightarrow> space_registry \<Rightarrow> space_registry res" where
  "create_space now sid nm owner ty spaces =
     (if sid \<in> set (dict_keys spaces)
      then Inl (ValueError (''Space '' @ sid @ '' already exists''))
      else Inr (dict_set sid
        (ensure_owner_is_member
          \<lparr>space_id = sid, space_name = nm, space_type = ty, owner_id = owner, members = [],
           created_at = now, quota_tasks = 100, quota_storage_mb = 1024, is_archived = False\<rparr>)
        spaces))"

definition get_space :: "string \<Rightarrow> space_registry \<Rightarrow> team_space option" where
  "get_space sid spaces = dict_get spaces sid"

definition list_user_spaces :: "string \<Rightarrow> space_registry \<Rightarrow> team_space list" where
  "list_user_spaces user_id spaces =
     filter (\<lambda>s. user_id \<in> set (dict_keys (members s))) (dict_values spaces)"

definition get_space_or_raise :: "string \<Rightarrow> space_registry \<Rightarrow> team_space res" where
  "get_space_or_raise sid spaces =
     (case dict_get spaces sid of
        None \<Rightarrow> Inl (ValueError (''Space '' @ sid @ '' not found''))
      | Some sp \<Rightarrow> Inr sp)"

definition owner_fixed_msg :: string where
  "owner_fixed_msg = ''OWNER role is fixed at space creation and cannot be granted''"

definition add_member ::
  "int \<Rightarrow> string \<Rightarrow> string \<Rightarrow> space_role \<Rightarrow> string \<Rightarrow> space_registry \<Rightarrow> space_registry res" where
  "add_member now sid user_id role actor_id spaces =
     (case get_space_or_raise sid spaces of
        Inl e \<Rightarrow> Inl e
      | Inr sp \<Rightarrow>
        (case require_perm sp actor_id ''space:manage'' of
           Inl e \<Rightarrow> Inl e
         | Inr _ \<Rightarrow>
            if role = OWNER then Inl (PermissionError owner_fixed_msg)
            else Inr (dict_set sid
              (sp\<lparr>members := dict_set user_id
                  \<lparr>sm_user_id = user_id, sm_role = role, sm_joined_at = now\<rparr> (members sp)\<rparr>)
              spaces)))"

definition remove_member ::
  "string \<Rightarrow> string \<Rightarrow> string \<Rightarrow> space_registry \<Rightarrow> space_registry res" where
  "remove_member sid user_id actor_id spaces =
     (case get_space_or_raise sid spaces of
        Inl e \<Rightarrow> Inl e
      | Inr sp \<Rightarrow>
        (case require_perm sp actor_id ''space:manage'' of
           Inl e \<Rightarrow> Inl e
         | Inr _ \<Rightarrow>
            if user_id = owner_id sp then Inl (PermissionError ''Cannot remove the space owner'')
            else Inr (dict_set sid (sp\<lparr>members := dict_del user_id (members sp)\<rparr>) spaces)))"

definition change_role ::
  "string \<Rightarrow> string \<Rightarrow> space_role \<Rightarrow> string \<Rightarrow> space_registry \<Rightarrow> space_registry res" where
  "change_role sid user_id new_role actor_id spaces =
     (case get_space_or_raise sid spaces of
        Inl e \<Rightarrow> Inl e
      | Inr sp \<Rightarrow>
        (case require_perm sp actor_id ''space:manage'' of
           Inl e \<Rightarrow> Inl e
         | Inr _ \<Rightarrow>
            (case dict_get (members sp) user_id of
               None \<Rightarrow> Inl (ValueError (''User '' @ user_id @ '' is not a member''))
             | Some m \<Rightarrow>
                if user_id = owner_id sp
                then Inl (PermissionError ''Cannot change the space owner role'')
                else if new_role = OWNER then Inl (PermissionError owner_fixed_msg)
                else Inr (dict_set sid
                  (sp\<lparr>members := dict_set user_id (m\<lparr>sm_role := new_role\<rparr>) (members sp)\<rparr>)
                  spaces))))"

definition guard :: "string \<Rightarrow> space_registry \<Rightarrow> team_space res" where
  "guard sid spaces = get_space_or_raise sid spaces"

text \<open>The operations that change a registry, and a step: a raised exception leaves it as it was.\<close>

datatype space_op =
    CreateSpace int string string string space_type
  | AddMember int string string space_role string
  | RemoveMember string string string
  | ChangeRole string string space_role string

fun apply_space_op :: "space_op \<Rightarrow> space_registry \<Rightarrow> space_registry res" where
  "apply_space_op (CreateSpace now sid nm owner ty) r = create_space now sid nm owner ty r"
| "apply_space_op (AddMember now sid u role a) r = add_member now sid u role a r"
| "apply_space_op (RemoveMember sid u a) r = remove_member sid u a r"
| "apply_space_op (ChangeRole sid u role a) r = change_role sid u role a r"

definition space_step :: "space_op \<Rightarrow> space_registry \<Rightarrow> space_registry" where
  "space_step x r = (case apply_space_op x r of Inl _ \<Rightarrow> r | Inr r' \<Rightarrow> r')"

fun op_actor :: "space_op \<Rightarrow> string option" where
  "op_actor (CreateSpace _ _ _ _ _) = None"
| "op_actor (AddMember _ _ _ _ a) = Some a"
| "op_actor (RemoveMember _ _ a) = Some a"
| "op_actor (ChangeRole _ _ _ a) = Some a"

fun op_space :: "space_op \<Rightarrow> string" where
  "op_space (CreateSpace _ sid _ _ _) = sid"
| "op_space (AddMember _ sid _ _ _) = sid"
| "op_space (RemoveMember sid _ _) = sid"
| "op_space (ChangeRole sid _ _ _) = sid"

section \<open>Invariant\<close>

definition space_ok :: "team_space \<Rightarrow> bool" where
  "space_ok sp \<longleftrightarrow> dict_ok (members sp)
     \<and> get_role sp (owner_id sp) \<noteq> None
     \<and> (\<forall>u. get_role sp u = Some OWNER \<longrightarrow> u = owner_id sp)"

definition registry_ok :: "space_registry \<Rightarrow> bool" where
  "registry_ok r \<longleftrightarrow> dict_ok r \<and>
     (\<forall>sid sp. dict_get r sid = Some sp \<longrightarrow> space_id sp = sid \<and> space_ok sp)"

text \<open>The owner still holds the owner role.\<close>

definition owner_in_charge :: "team_space \<Rightarrow> bool" where
  "owner_in_charge sp \<longleftrightarrow> get_role sp (owner_id sp) = Some OWNER"

lemma require_Inr [simp]: "require_perm sp u p = Inr x \<longleftrightarrow> can sp u p"
  by (simp add: require_perm_def)

lemma raise_Inr [simp]: "get_space_or_raise sid r = Inr sp \<longleftrightarrow> dict_get r sid = Some sp"
  by (simp add: get_space_or_raise_def split: option.splits)

lemma can_manage_iff:
  "can sp u ''space:manage'' \<longleftrightarrow> get_role sp u = Some ADMIN \<or> get_role sp u = Some OWNER"
  by (auto simp: can_def dict_get_default_def PERMISSION_MATRIX_def split: option.splits)

lemma get_role_set [simp]:
  "get_role (sp\<lparr>members := dict_set u m (members sp)\<rparr>) v =
     (if v = u then Some (sm_role m) else get_role sp v)"
  by (simp add: get_role_def)

lemma get_role_del [simp]:
  "get_role (sp\<lparr>members := dict_del u (members sp)\<rparr>) v = (if v = u then None else get_role sp v)"
  by (simp add: get_role_def)

lemma add_member_Inr:
  "add_member now sid u role a r = Inr r' \<longleftrightarrow>
     (\<exists>sp. dict_get r sid = Some sp \<and> can sp a ''space:manage'' \<and> role \<noteq> OWNER \<and>
        r' = dict_set sid (sp\<lparr>members := dict_set u
               \<lparr>sm_user_id = u, sm_role = role, sm_joined_at = now\<rparr> (members sp)\<rparr>) r)"
  by (auto simp: add_member_def get_space_or_raise_def require_perm_def split: option.splits)

lemma remove_member_Inr:
  "remove_member sid u a r = Inr r' \<longleftrightarrow>
     (\<exists>sp. dict_get r sid = Some sp \<and> can sp a ''space:manage'' \<and> u \<noteq> owner_id sp \<and>
        r' = dict_set sid (sp\<lparr>members := dict_del u (members sp)\<rparr>) r)"
  by (auto simp: remove_member_def get_space_or_raise_def require_perm_def split: option.splits)

lemma change_role_Inr:
  "change_role sid u role a r = Inr r' \<longleftrightarrow>
     (\<exists>sp m. dict_get r sid = Some sp \<and> can sp a ''space:manage'' \<and> dict_get (members sp) u = Some m \<and>
        u \<noteq> owner_id sp \<and> role \<noteq> OWNER \<and>
        r' = dict_set sid (sp\<lparr>members := dict_set u (m\<lparr>sm_role := role\<rparr>) (members sp)\<rparr>) r)"
  by (auto simp: change_role_def get_space_or_raise_def require_perm_def split: option.splits)

lemmas member_op_Inr = add_member_Inr remove_member_Inr change_role_Inr

lemma registry_ok_set:
  "registry_ok r \<Longrightarrow> space_id sp = sid \<Longrightarrow> space_ok sp \<Longrightarrow> registry_ok (dict_set sid sp r)"
  by (auto simp: registry_ok_def)

lemma registry_ok_get:
  "registry_ok r \<Longrightarrow> dict_get r sid = Some sp \<Longrightarrow> space_id sp = sid \<and> space_ok sp"
  by (simp add: registry_ok_def)

lemma create_space_ok: "registry_ok r \<Longrightarrow> create_space now sid nm ow ty r = Inr r' \<Longrightarrow> registry_ok r'"
  by (auto simp: create_space_def ensure_owner_is_member_def space_ok_def get_role_def
      intro!: registry_ok_set split: if_splits)

lemma add_member_ok: "registry_ok r \<Longrightarrow> add_member now sid u role a r = Inr r' \<Longrightarrow> registry_ok r'"
  unfolding add_member_Inr
  by (elim exE conjE, frule (1) registry_ok_get) (auto simp: space_ok_def intro!: registry_ok_set)

lemma remove_member_ok: "registry_ok r \<Longrightarrow> remove_member sid u a r = Inr r' \<Longrightarrow> registry_ok r'"
  unfolding remove_member_Inr
  by (elim exE conjE, frule (1) registry_ok_get) (auto simp: space_ok_def intro!: registry_ok_set)

lemma change_role_ok: "registry_ok r \<Longrightarrow> change_role sid u role a r = Inr r' \<Longrightarrow> registry_ok r'"
  unfolding change_role_Inr
  by (elim exE conjE, frule (1) registry_ok_get) (auto simp: space_ok_def intro!: registry_ok_set)

lemma apply_space_op_ok: "registry_ok r \<Longrightarrow> apply_space_op x r = Inr r' \<Longrightarrow> registry_ok r'"
  by (cases x) (auto intro: create_space_ok add_member_ok remove_member_ok change_role_ok)

interpretation spaces: guarded_steps space_step registry_ok
  by unfold_locales (auto simp: space_step_def intro: apply_space_op_ok split: sum.splits)

text \<open>A space without an owner stays without one: the role is never granted, and an existing
  space is never created again.\<close>

definition ownerless :: "string \<Rightarrow> space_registry \<Rightarrow> bool" where
  "ownerless sid r \<longleftrightarrow> (\<exists>sp. dict_get r sid = Some sp \<and> (\<forall>u. get_role sp u \<noteq> Some OWNER))"

lemma create_space_keeps:
  "create_space now sid nm ow ty r = Inr r' \<Longrightarrow> dict_get r sid' = Some sp \<Longrightarrow> dict_get r' sid' = Some sp"
  using dict_get_None_iff [of r sid] by (auto simp: create_space_def split: if_splits)

lemma apply_space_op_ownerless:
  "ownerless sid r \<Longrightarrow> apply_space_op x r = Inr r' \<Longrightarrow> ownerless sid r'"
  by (cases x) (auto simp: ownerless_def member_op_Inr dest: create_space_keeps)

interpretation lockout: guarded_steps space_step "ownerless sid" for sid
  by unfold_locales (auto simp: space_step_def intro: apply_space_op_ownerless split: sum.splits)

lemma registry_ok_empty: "registry_ok []"
  by (simp add: registry_ok_def)

lemma can_delete_iff: "can sp u ''space:delete'' \<longleftrightarrow> get_role sp u = Some OWNER"
  by (auto simp: can_def dict_get_default_def PERMISSION_MATRIX_def split: option.splits)

text \<open>Each row of the matrix is closed upwards in the role hierarchy.\<close>

lemma matrix_upward:
  assumes "dict_get PERMISSION_MATRIX p = Some roles" and "r \<in> set roles"
    and "ROLE_HIERARCHY r \<le> ROLE_HIERARCHY r'"
  shows "r' \<in> set roles"
  using assms by (cases r; cases r') (auto simp: PERMISSION_MATRIX_def split: if_splits)

section \<open>Properties\<close>

text \<open>C28. After any sequence of registry operations, failed ones included, every space is stored
  under its own id, its owner is one of its members, and nobody but its owner holds the OWNER role.\<close>

theorem space_registry_invariant: "registry_ok (fold space_step xs [])"
  by (rule spaces.run_inv) (rule registry_ok_empty)

text \<open>A membership operation that succeeds was made by an actor who is ADMIN or OWNER of that
  very space, and it leaves every other space as it was.\<close>

theorem member_op_authorised:
  assumes "apply_space_op x r = Inr r'" and "op_actor x = Some a"
  shows "\<exists>sp. dict_get r (op_space x) = Some sp
           \<and> (get_role sp a = Some ADMIN \<or> get_role sp a = Some OWNER)
           \<and> (\<forall>sid. sid \<noteq> op_space x \<longrightarrow> dict_get r' sid = dict_get r sid)"
  using assms by (cases x) (auto simp: member_op_Inr can_manage_iff)

definition demo_registry :: space_registry where
  "demo_registry = fold space_step
     [CreateSpace 0 ''s1'' ''Space'' ''alice'' TEAM_SPACE, AddMember 1 ''s1'' ''bob'' ADMIN ''alice''] []"

theorem member_op_authorised_witness:
  "\<exists>sp. dict_get demo_registry ''s1'' = Some sp
     \<and> (get_role sp ''bob'' = Some ADMIN \<or> get_role sp ''bob'' = Some OWNER)
     \<and> (\<forall>sid. sid \<noteq> ''s1'' \<longrightarrow>
          dict_get (space_step (AddMember 2 ''s1'' ''carol'' VIEWER ''bob'') demo_registry) sid
          = dict_get demo_registry sid)"
proof -
  let ?op = "AddMember 2 ''s1'' ''carol'' VIEWER ''bob''"
  have "apply_space_op ?op demo_registry = Inr (space_step ?op demo_registry)" by code_simp
  from member_op_authorised [OF this, of "''bob''"] show ?thesis by simp
qed

text \<open>Permissions respect the role hierarchy: whatever a member may do, every member of an
  equal or higher role may do too.\<close>

theorem permission_upward_closed:
  assumes "can sp u p" and "get_role sp u = Some r" and "is_at_least sp v r"
  shows "can sp v p"
  using assms matrix_upward [of p _ r]
  by (cases "dict_get PERMISSION_MATRIX p") (auto simp: can_def is_at_least_def dict_get_default_def
      split: option.splits)

theorem permission_upward_closed_witness:
  "can (the (dict_get demo_registry ''s1'')) ''alice'' ''space:manage''"
  by (rule permission_upward_closed [of _ "''bob''" _ ADMIN]) code_simp+

text \<open>The owner keeps the OWNER role under every operation except one: re-adding the owner
  through \<open>add_member\<close>.\<close>

theorem owner_kept_except_readd:
  assumes "dict_get r sid = Some sp" and "owner_in_charge sp"
    and "\<forall>now role a. x \<noteq> AddMember now sid (owner_id sp) role a"
  shows "\<exists>sp'. dict_get (space_step x r) sid = Some sp' \<and> owner_id sp' = owner_id sp \<and> owner_in_charge sp'"
proof (cases "apply_space_op x r")
  case (Inl e)
  with assms show ?thesis by (simp add: space_step_def)
next
  case (Inr r')
  then have "space_step x r = r'" by (simp add: space_step_def)
  with Inr assms show ?thesis
    by (cases x) (auto simp: owner_in_charge_def member_op_Inr dest: create_space_keeps)
qed

theorem owner_kept_except_readd_witness:
  "\<exists>sp'. dict_get (space_step (RemoveMember ''s1'' ''alice'' ''bob'') demo_registry) ''s1'' = Some sp'
     \<and> owner_id sp' = owner_id (the (dict_get demo_registry ''s1'')) \<and> owner_in_charge sp'"
  by (rule owner_kept_except_readd) (code_simp, code_simp, simp)

text \<open>\<open>add_member\<close> does not protect the owner: any administrator can re-add the owner with a
  lower role. The space then has no owner, nobody may delete it, and no later sequence of
  operations restores one.\<close>

theorem add_member_demotes_owner:
  assumes "registry_ok r" and "dict_get r sid = Some sp"
    and "can sp a ''space:manage''" and "role \<noteq> OWNER"
  shows "\<exists>r'. add_member now sid (owner_id sp) role a r = Inr r'
     \<and> (\<forall>xs. \<exists>sp'. dict_get (fold space_step xs r') sid = Some sp'
            \<and> (\<forall>u. get_role sp' u \<noteq> Some OWNER \<and> \<not> can sp' u ''space:delete''))"
proof -
  define sp1 where "sp1 = sp\<lparr>members := dict_set (owner_id sp)
    \<lparr>sm_user_id = owner_id sp, sm_role = role, sm_joined_at = now\<rparr> (members sp)\<rparr>"
  have add: "add_member now sid (owner_id sp) role a r = Inr (dict_set sid sp1 r)"
    using assms by (auto simp: add_member_Inr sp1_def)
  have "ownerless sid (dict_set sid sp1 r)"
    using registry_ok_get [OF assms(1,2)] assms(4) by (auto simp: ownerless_def sp1_def space_ok_def)
  then have "ownerless sid (fold space_step xs (dict_set sid sp1 r))" for xs
    by (rule lockout.run_inv)
  with add show ?thesis by (auto simp: ownerless_def can_delete_iff)
qed

theorem add_member_demotes_owner_witness:
  "\<exists>r'. add_member 2 ''s1'' (owner_id (the (dict_get demo_registry ''s1''))) VIEWER ''bob'' demo_registry = Inr r'
     \<and> (\<forall>xs. \<exists>sp'. dict_get (fold space_step xs r') ''s1'' = Some sp'
            \<and> (\<forall>u. get_role sp' u \<noteq> Some OWNER \<and> \<not> can sp' u ''space:delete''))"
proof (rule add_member_demotes_owner)
  show "registry_ok demo_registry"
    unfolding demo_registry_def by (rule spaces.run_inv) (rule registry_ok_empty)
qed code_simp+

end
