(* ===== verification/Py_Shlex.thy ===== *)
theory Py_Shlex
  imports Py_Str
begin

text \<open>
  \<open>shlex.split\<close> (POSIX mode, split on whitespace, no comment character), \<open>shlex.quote\<close> and
  \<open>shlex.join\<close>. The tokenizer is the state machine of the library: between words, inside a
  word, inside quotes, or after a backslash. Reading back what \<open>shlex.join\<close> wrote gives the
  argument vector it was given (\<open>shlex_split_join\<close>).
\<close>

section \<open>Splitting\<close>

datatype lex_state =
    Between            \<comment> \<open>state ' '\<close>
  | InWord             \<comment> \<open>state 'a'\<close>
  | InQuote char       \<comment> \<open>state is the quote character\<close>
  | EscapeWord         \<comment> \<open>after a backslash, returning to 'a'\<close>
  | EscapeQuote char   \<comment> \<open>after a backslash inside a quote that allows escapes\<close>

abbreviation squote :: char where "squote \<equiv> CHR 0x27"
abbreviation dquote :: char where "dquote \<equiv> CHR 0x22"
abbreviation backslash :: char where "backslash \<equiv> CHR 0x5C"

definition shlex_space :: "char \<Rightarrow> bool" where
  "shlex_space c = (c = CHR '' '' \<or> c = CHR 0x09 \<or> c = CHR 0x0D \<or> c = CHR 0x0A)"

definition is_quote :: "char \<Rightarrow> bool" where
  "is_quote c = (c = squote \<or> c = dquote)"

text \<open>The token read so far, whether a quote was seen in it, and the rest of the input.\<close>

fun shlex_read :: "lex_state \<Rightarrow> string \<Rightarrow> bool \<Rightarrow> string \<Rightarrow> string list res" where
  "shlex_read Between tok q [] = Inr (if tok \<noteq> [] \<or> q then [tok] else [])"
| "shlex_read InWord tok q [] = Inr (if tok \<noteq> [] \<or> q then [tok] else [])"
| "shlex_read (InQuote c) tok q [] = Inl (ValueError ''No closing quotation'')"
| "shlex_read EscapeWord tok q [] = Inl (ValueError ''No escaped character'')"
| "shlex_read (EscapeQuote c) tok q [] = Inl (ValueError ''No escaped character'')"
| "shlex_read Between tok q (c # cs) =
     (if shlex_space c then
        (if tok \<noteq> [] \<or> q then map_sum id ((#) tok) (shlex_read Between [] False cs)
         else shlex_read Between tok q cs)
      else if c = backslash then shlex_read EscapeWord tok q cs
      else if is_quote c then shlex_read (InQuote c) tok q cs
      else shlex_read InWord [c] q cs)"
| "shlex_read InWord tok q (c # cs) =
     (if shlex_space c then
        (if tok \<noteq> [] \<or> q then map_sum id ((#) tok) (shlex_read Between [] False cs)
         else shlex_read Between tok q cs)
      else if is_quote c then shlex_read (InQuote c) tok q cs
      else if c = backslash then shlex_read EscapeWord tok q cs
      else shlex_read InWord (tok @ [c]) q cs)"
| "shlex_read (InQuote d) tok q (c # cs) =
     (if c = d then shlex_read InWord tok True cs
      else if c = backslash \<and> d = dquote then shlex_read (EscapeQuote d) tok True cs
      else shlex_read (InQuote d) (tok @ [c]) True cs)"
| "shlex_read EscapeWord tok q (c # cs) = shlex_read InWord (tok @ [c]) q cs"
| "shlex_read (EscapeQuote d) tok q (c # cs) =
     shlex_read (InQuote d)
       (if c \<noteq> backslash \<and> c \<noteq> d then tok @ [backslash, c] else tok @ [c]) q cs"

definition shlex_split :: "string \<Rightarrow> string list res" where
  "shlex_split s = shlex_read Between [] False s"

section \<open>Quoting and joining\<close>

text \<open>The characters \<open>[a-zA-Z0-9@%+=:,./-]\<close> and the underscore need no quotes.\<close>

definition safe_char :: "char \<Rightarrow> bool" where
  "safe_char c = (let n = code c in
     (97 \<le> n \<and> n \<le> 122) \<or> (65 \<le> n \<and> n \<le> 90) \<or> (48 \<le> n \<and> n \<le> 57) \<or>
     c \<in> set ''@%+=:,./-_'')"

definition shlex_quote :: "string \<Rightarrow> string" where
  "shlex_quote s =
     (if s = [] then [squote, squote]
      else if list_all safe_char s then s
      else [squote] @ replace [squote] [squote, dquote, squote, dquote, squote] s @ [squote])"

definition shlex_join :: "string list \<Rightarrow> string" where
  "shlex_join argv = join '' '' (map shlex_quote argv)"

section \<open>Round trip\<close>

definition plain_char :: "char \<Rightarrow> bool" where
  "plain_char c \<longleftrightarrow> \<not> shlex_space c \<and> \<not> is_quote c \<and> c \<noteq> backslash"

lemma safe_plain: "safe_char c \<Longrightarrow> plain_char c"
  by (auto simp: safe_char_def plain_char_def shlex_space_def is_quote_def Let_def code_def)

lemma read_plain:
  "list_all plain_char s \<Longrightarrow> shlex_read InWord tok q (s @ rest) = shlex_read InWord (tok @ s) q rest"
  by (induction s arbitrary: tok) (auto simp: plain_char_def)

lemma replace_one: "replace [a] new s = concat (map (\<lambda>c. if c = a then new else [c]) s)"
proof -
  have "replace_from [a] new s = concat (map (\<lambda>c. if c = a then new else [c]) s)"
    by (induction s) auto
  then show ?thesis by (simp add: replace_def)
qed

lemma read_squoted:
  "shlex_read (InQuote squote) tok q
     (concat (map (\<lambda>c. if c = squote then [squote, dquote, squote, dquote, squote] else [c]) s)
        @ squote # rest)
   = shlex_read InWord (tok @ s) True rest"
proof (induction s arbitrary: tok q)
  case Nil
  then show ?case by simp
next
  case (Cons c cs)
  then show ?case by (simp add: shlex_space_def is_quote_def)
qed

text \<open>A quoted word is read as the word, whatever follows.\<close>

lemma read_quote:
  "\<exists>q. (s = [] \<longrightarrow> q) \<and>
     shlex_read Between [] False (shlex_quote s @ rest) = shlex_read InWord s q rest"
proof (cases "s = []")
  case True
  then show ?thesis
    by (intro exI [of _ True]) (simp add: shlex_quote_def shlex_space_def is_quote_def)
next
  case ne: False
  show ?thesis
  proof (cases "list_all safe_char s")
    case True
    then have pl: "list_all plain_char s" by (auto simp: list_all_iff safe_plain)
    obtain c cs where s: "s = c # cs" using ne by (cases s) auto
    with pl have "shlex_read Between [] False (s @ rest) = shlex_read InWord [c] False (cs @ rest)"
      by (simp add: plain_char_def)
    also have "\<dots> = shlex_read InWord s False rest"
      using read_plain [of cs "[c]" False rest] pl s by simp
    finally show ?thesis using True ne by (auto simp: shlex_quote_def)
  next
    case False
    then show ?thesis
      using ne read_squoted [of "[]" False s rest]
      by (intro exI [of _ True]) (simp add: shlex_quote_def replace_one shlex_space_def is_quote_def)
  qed
qed

theorem shlex_split_join: "shlex_split (shlex_join argv) = Inr argv"
  unfolding shlex_split_def
proof (induction argv)
  case Nil
  then show ?case by (simp add: shlex_join_def)
next
  case (Cons w ws)
  show ?case
  proof (cases ws)
    case Nil
    obtain q where q: "w = [] \<longrightarrow> q"
      "shlex_read Between [] False (shlex_quote w @ []) = shlex_read InWord w q []"
      using read_quote [of w "[]"] by blast
    with Nil show ?thesis by (auto simp: shlex_join_def)
  next
    case (Cons v vs)
    let ?rest = "'' '' @ shlex_join ws"
    obtain q where q: "w = [] \<longrightarrow> q"
      "shlex_read Between [] False (shlex_quote w @ ?rest) = shlex_read InWord w q ?rest"
      using read_quote [of w ?rest] by blast
    have "shlex_join (w # ws) = shlex_quote w @ ?rest"
      using Cons by (simp add: shlex_join_def)
    with q Cons.IH show ?thesis by (auto simp: shlex_space_def)
  qed
qed

text \<open>Text without quotes and backslashes is never refused.\<close>

lemma read_no_quotes:
  "list_all (\<lambda>c. \<not> is_quote c \<and> c \<noteq> backslash) s \<Longrightarrow>
   \<exists>ws. shlex_read Between tok q s = Inr ws \<and> (\<exists>ws'. shlex_read InWord tok q s = Inr ws')"
proof (induction s arbitrary: tok q)
  case (Cons c cs)
  then have "list_all (\<lambda>c. \<not> is_quote c \<and> c \<noteq> backslash) cs" by simp
  from Cons.IH [OF this] Cons.prems show ?case
    by (auto split: if_splits) (metis map_sum.simps(2))+
qed simp

end
