(* ===== verification/Py_Path.thy ===== *)
theory Py_Path
  imports Py_Str
begin

text \<open>
  \<open>pathlib\<close> on POSIX: a path is its root (empty, one slash or two) and its components, with empty
  and \<open>.\<close> components dropped. \<open>Path.resolve\<close> depends on the file system (symbolic links) and is
  an argument of the definitions that use it.
\<close>

record posix_path =
  root :: string
  comps :: "string list"

definition path_root :: "string \<Rightarrow> string" where
  "path_root s =
     (if prefix ''//'' s \<and> \<not> prefix ''///'' s then ''//''
      else if prefix ''/'' s then ''/'' else [])"

definition pure_posix_path :: "string \<Rightarrow> posix_path" where
  "pure_posix_path s = \<lparr>root = path_root s,
     comps = filter (\<lambda>c. c \<noteq> [] \<and> c \<noteq> ''.'') (split_char (CHR ''/'') s)\<rparr>"

text \<open>\<open>path.parts\<close>.\<close>

definition parts :: "posix_path \<Rightarrow> string list" where
  "parts p = (if root p = [] then comps p else root p # comps p)"

definition path_str :: "posix_path \<Rightarrow> string" where
  "path_str p = (if root p = [] \<and> comps p = [] then ''.'' else root p @ join ''/'' (comps p))"

text \<open>\<open>base / other\<close>: an absolute right operand replaces the left one.\<close>

definition path_join :: "posix_path \<Rightarrow> string \<Rightarrow> posix_path" where
  "path_join base s =
     (let p = pure_posix_path s
      in if root p \<noteq> [] then p else base\<lparr>comps := comps base @ comps p\<rparr>)"

text \<open>\<open>path.relative_to(base)\<close>: \<open>None\<close> when it raises \<open>ValueError\<close>.\<close>

definition relative_to :: "posix_path \<Rightarrow> posix_path \<Rightarrow> posix_path option" where
  "relative_to p base =
     (if root p = root base \<and> prefix (comps base) (comps p)
      then Some \<lparr>root = [], comps = drop (length (comps base)) (comps p)\<rparr> else None)"

text \<open>\<open>posixpath.basename\<close>.\<close>

definition basename :: "string \<Rightarrow> string" where
  "basename s = last (split_char (CHR ''/'') s)"

lemma relative_to_Some:
  "relative_to p base = Some r \<longleftrightarrow>
     root p = root base \<and> comps p = comps base @ comps r \<and> root r = []"
proof -
  have "r = \<lparr>root = [], comps = comps r\<rparr> \<longleftrightarrow> root r = []" by (cases r) auto
  then show ?thesis
    by (cases r) (auto simp: relative_to_def prefix_def)
qed

lemma comps_clean:
  "c \<in> set (comps (pure_posix_path s)) \<Longrightarrow> c \<noteq> [] \<and> c \<noteq> ''.'' \<and> CHR ''/'' \<notin> set c"
  by (auto simp: pure_posix_path_def dest: split_char_parts)

text \<open>Printing a path without a root and parsing it back.\<close>

lemma pure_posix_path_str:
  assumes "\<forall>c \<in> set cs. c \<noteq> [] \<and> c \<noteq> ''.'' \<and> CHR ''/'' \<notin> set c"
  shows "pure_posix_path (path_str \<lparr>root = [], comps = cs\<rparr>) = \<lparr>root = [], comps = cs\<rparr>"
proof (cases cs)
  case Nil
  then show ?thesis by (simp add: path_str_def pure_posix_path_def path_root_def)
next
  case (Cons c cs')
  then have sp: "split_char (CHR ''/'') (join ''/'' cs) = cs"
    using assms by (intro split_join) auto
  have "join ''/'' cs \<noteq> []" "hd (join ''/'' cs) \<noteq> CHR ''/''"
    using Cons assms by (cases cs'; cases c; auto)+
  then have "path_root (join ''/'' cs) = []"
    by (cases "join ''/'' cs") (auto simp: path_root_def)
  with sp Cons assms show ?thesis by (simp add: path_str_def pure_posix_path_def)
qed

end
