(* ===== verification/Approval_Policy.thy ===== *)
theory Approval_Policy
  imports Py_Regex Py_Shlex Py_Path
begin

text \<open>
  \<open>control_plane/approval_policy.py\<close>: which commands and file changes need a human decision. A
  command is matched by the configured regular expressions and by a structural check of every
  pipeline segment, payloads of \<open>sh -c\<close> included down to two levels; a path is matched component
  by component, with \<open>**\<close> crossing directories.
\<close>

section \<open>Data\<close>

datatype approval_reason = HIGH_RISK_COMMAND | EXTERNAL_NETWORK | DEPLOYMENT_COMMAND | SENSITIVE_FILE_CHANGE

fun approval_reason_value :: "approval_reason \<Rightarrow> string" where
  "approval_reason_value HIGH_RISK_COMMAND = ''high_risk_command''"
| "approval_reason_value EXTERNAL_NETWORK = ''external_network''"
| "approval_reason_value DEPLOYMENT_COMMAND = ''deployment_command''"
| "approval_reason_value SENSITIVE_FILE_CHANGE = ''sensitive_file_change''"

datatype approval_decision = APPROVED | REJECTED

record approval_request =
  request_id :: string
  subject_type :: string
  subject :: string
  reasons :: "approval_reason list"
  detail :: string
  required :: bool

definition COMMAND_SEPARATORS :: "string list" where
  "COMMAND_SEPARATORS = [''|'', ''||'', '';'', ''&&'', ''&'']"

definition SHELL_PROGRAMS :: "string list" where
  "SHELL_PROGRAMS = [''sh'', ''bash'', ''zsh'', ''dash'', ''ksh'']"

definition MAX_NESTED_DEPTH :: nat where
  "MAX_NESTED_DEPTH = 2"

definition NPM_INSTALL_SUBCOMMANDS :: "string list" where
  "NPM_INSTALL_SUBCOMMANDS = [''install'', ''i'', ''add'']"
definition KUBECTL_DEPLOY_SUBCOMMANDS :: "string list" where
  "KUBECTL_DEPLOY_SUBCOMMANDS = [''apply'', ''delete'', ''rollout'', ''scale'']"
definition HELM_DEPLOY_SUBCOMMANDS :: "string list" where
  "HELM_DEPLOY_SUBCOMMANDS = [''install'', ''upgrade'', ''delete'', ''rollback'']"
definition TERRAFORM_DEPLOY_SUBCOMMANDS :: "string list" where
  "TERRAFORM_DEPLOY_SUBCOMMANDS = [''apply'', ''destroy'']"

section \<open>Structural command analysis\<close>

definition tokenize :: "string \<Rightarrow> string list" where
  "tokenize command = (case shlex_split command of Inr ts \<Rightarrow> ts | Inl _ \<Rightarrow> split_ws command)"

definition add_token :: "string list list \<Rightarrow> string \<Rightarrow> string list list" where
  "add_token segments token =
     (if token \<in> set COMMAND_SEPARATORS then segments @ [[]]
      else butlast segments @ [last segments @ [token]])"

definition pipeline_segments :: "string list \<Rightarrow> string list list" where
  "pipeline_segments tokens = filter (\<lambda>seg. seg \<noteq> []) (foldl add_token [[]] tokens)"

fun unwrap_sudo :: "string list \<Rightarrow> string list" where
  "unwrap_sudo (a # b # rest) =
     (if a = ''sudo'' \<and> \<not> prefix ''-'' b then unwrap_sudo (b # rest) else a # b # rest)"
| "unwrap_sudo argv = argv"

definition program_of :: "string list \<Rightarrow> string \<times> string list" where
  "program_of segment =
     (case unwrap_sudo segment of [] \<Rightarrow> ([], []) | a # args \<Rightarrow> (basename a, args))"

text \<open>\<open>s.isalpha()\<close>: not empty and letters only.\<close>

definition str_isalpha :: "string \<Rightarrow> bool" where
  "str_isalpha s = (s \<noteq> [] \<and> list_all is_alpha s)"

definition short_flag :: "string \<Rightarrow> bool" where
  "short_flag arg = (prefix ''-'' arg \<and> 1 < length arg \<and> \<not> prefix ''--'' arg)"

definition is_recursive_rm :: "string list \<Rightarrow> bool" where
  "is_recursive_rm args =
     list_ex (\<lambda>arg. arg = ''--recursive'' \<or>
       (short_flag arg \<and> (let body = lstrip_char (CHR ''-'') arg in
          str_isalpha body \<and> CHR ''r'' \<in> set (lower body)))) args"

definition has_recursive_flag :: "string list \<Rightarrow> bool" where
  "has_recursive_flag args =
     (''--recursive'' \<in> set args \<or>
      list_ex (\<lambda>arg. short_flag arg \<and> str_isalpha (lstrip_char (CHR ''-'') arg) \<and> CHR ''R'' \<in> set arg) args)"

definition is_high_risk_segment :: "string \<Rightarrow> string list \<Rightarrow> bool" where
  "is_high_risk_segment program args =
     (if program = ''sudo'' then True
      else if program = ''rm'' then is_recursive_rm args
      else if program = ''chmod'' \<or> program = ''chown'' then has_recursive_flag args
      else if program = ''dd'' \<or> program = ''mkfs'' \<or> prefix ''mkfs.'' program then True
      else if program = ''docker'' then take 1 args = [''system''] \<and> ''prune'' \<in> set args
      else False)"

definition is_external_network_segment :: "string \<Rightarrow> string list \<Rightarrow> bool" where
  "is_external_network_segment program args =
     (if program \<in> set [''curl'', ''wget'', ''ssh'', ''scp'', ''rsync''] then True
      else case args of
        [] \<Rightarrow> False
      | subcommand # _ \<Rightarrow>
          if program = ''npm'' then subcommand \<in> set NPM_INSTALL_SUBCOMMANDS
          else if program = ''pip'' \<or> program = ''pip3'' then subcommand = ''install''
          else if program = ''poetry'' then subcommand = ''add''
          else False)"

definition is_deployment_segment :: "string \<Rightarrow> string list \<Rightarrow> bool" where
  "is_deployment_segment program args =
     (case args of
        [] \<Rightarrow> False
      | subcommand # _ \<Rightarrow>
          if program = ''kubectl'' then subcommand \<in> set KUBECTL_DEPLOY_SUBCOMMANDS
          else if program = ''helm'' then subcommand \<in> set HELM_DEPLOY_SUBCOMMANDS
          else if program = ''terraform'' then subcommand \<in> set TERRAFORM_DEPLOY_SUBCOMMANDS
          else if program = ''docker'' then subcommand = ''push''
          else if program = ''git'' then subcommand = ''push''
          else if program = ''gh'' then subcommand = ''release''
          else if program = ''npm'' then subcommand = ''publish''
          else if program = ''twine'' then subcommand = ''upload''
          else False)"

text \<open>The arguments that follow a \<open>-c\<close>.\<close>

fun c_payloads :: "string list \<Rightarrow> string list" where
  "c_payloads (a # b # rest) = (if a = ''-c'' then b # c_payloads (b # rest) else c_payloads (b # rest))"
| "c_payloads _ = []"

function segments_match :: "(string \<Rightarrow> string list \<Rightarrow> bool) \<Rightarrow> nat \<Rightarrow> string list list \<Rightarrow> bool" where
  "segments_match predicate depth segments =
     list_ex (\<lambda>segment.
       let (program, args) = program_of segment in
       if predicate program args then True
       else if depth < MAX_NESTED_DEPTH \<and> program \<in> set SHELL_PROGRAMS then
         list_ex (\<lambda>payload. segments_match predicate (depth + 1) (pipeline_segments (tokenize payload)))
           (c_payloads args)
       else False) segments"
  by pat_completeness auto
termination
  by (relation "measure (\<lambda>(p, depth, segs). MAX_NESTED_DEPTH - depth)") auto

declare segments_match.simps [simp del]

definition matches_any :: "string \<Rightarrow> rx list \<Rightarrow> bool" where
  "matches_any value patterns = list_ex (\<lambda>p. rx_search p value) patterns"

definition command_matches ::
  "string \<Rightarrow> rx list \<Rightarrow> (string \<Rightarrow> string list \<Rightarrow> bool) \<Rightarrow> bool" where
  "command_matches command patterns predicate =
     (if matches_any command patterns then True
      else segments_match predicate 0 (pipeline_segments (tokenize command)))"

section \<open>Sensitive path matching\<close>

definition pattern_parts :: "string \<Rightarrow> string list" where
  "pattern_parts pattern =
     filter (\<lambda>p. p \<noteq> ''.'') (parts (pure_posix_path (replace [backslash] ''/'' pattern)))"

fun parts_match :: "string list \<Rightarrow> string list \<Rightarrow> bool" where
  "parts_match ps [] = (ps = [])"
| "parts_match ps (head # pats) =
     (if head = ''**'' then list_ex (\<lambda>i. parts_match (drop i ps) pats) [0..<length ps + 1]
      else (case ps of [] \<Rightarrow> False | p # rest \<Rightarrow> fnmatch p head \<and> parts_match rest pats))"

definition path_matches :: "posix_path \<Rightarrow> string \<Rightarrow> bool" where
  "path_matches path pattern = parts_match (parts path) (pattern_parts pattern)"

section \<open>The policy\<close>

record approval_policy =
  high_risk_command_patterns :: "rx list"
  external_network_patterns :: "rx list"
  deployment_command_patterns :: "rx list"
  sensitive_file_patterns :: "string list"

text \<open>A pattern \<open>\bA\s+B\b\<close>, for literals \<open>A\<close> and \<open>B\<close>.\<close>

definition two_words :: "string \<Rightarrow> string \<Rightarrow> rx" where
  "two_words a b = rx_seqs [WordB, lit_ic a, rx_spaces, lit_ic b, WordB]"

definition two_words_of :: "string \<Rightarrow> string list \<Rightarrow> rx" where
  "two_words_of a bs = rx_seqs [WordB, lit_ic a, rx_spaces, rx_alts (map lit_ic bs), WordB]"

definition fetch_url :: "string \<Rightarrow> rx" where
  "fetch_url a = rx_seqs [WordB, lit_ic a, rx_spaces, lit_ic ''http'', rx_opt (lit_ic ''s''), lit_ic ''://'']"

definition word_then_space :: "string \<Rightarrow> rx" where
  "word_then_space a = rx_seqs [WordB, lit_ic a, rx_spaces]"

definition whole_word :: "string \<Rightarrow> rx" where
  "whole_word a = rx_seqs [WordB, lit_ic a, WordB]"

definition three_words :: "string \<Rightarrow> string \<Rightarrow> string \<Rightarrow> rx" where
  "three_words a b c = rx_seqs [WordB, lit_ic a, rx_spaces, lit_ic b, rx_spaces, lit_ic c, WordB]"

definition DEFAULT_APPROVAL_POLICY :: approval_policy where
  "DEFAULT_APPROVAL_POLICY = \<lparr>
     high_risk_command_patterns =
       [two_words ''rm'' ''-rf'', whole_word ''sudo'', two_words ''chmod'' ''-R'',
        two_words ''chown'' ''-R'', word_then_space ''dd'', whole_word ''mkfs'',
        three_words ''docker'' ''system'' ''prune''],
     external_network_patterns =
       [fetch_url ''curl'', fetch_url ''wget'', word_then_space ''ssh'', word_then_space ''scp'',
        word_then_space ''rsync'', two_words ''npm'' ''install'', two_words ''pip'' ''install'',
        two_words ''poetry'' ''add''],
     deployment_command_patterns =
       [two_words_of ''kubectl'' [''apply'', ''delete'', ''rollout'', ''scale''],
        two_words_of ''helm'' [''install'', ''upgrade'', ''delete'', ''rollback''],
        two_words_of ''terraform'' [''apply'', ''destroy''],
        two_words ''docker'' ''push'', two_words ''git'' ''push'', two_words ''gh'' ''release'',
        two_words ''npm'' ''publish'', two_words ''twine'' ''upload''],
     sensitive_file_patterns =
       [''**/.env'', ''**/.env.*'', ''**/*secret*'', ''**/*credential*'', ''**/secrets/**'',
        ''**/.ssh/**'', ''**/id_rsa'', ''**/id_ed25519'']\<rparr>"

definition command_reasons :: "approval_policy \<Rightarrow> string \<Rightarrow> approval_reason list" where
  "command_reasons self command =
     (if command_matches command (high_risk_command_patterns self) is_high_risk_segment
      then [HIGH_RISK_COMMAND] else []) @
     (if command_matches command (external_network_patterns self) is_external_network_segment
      then [EXTERNAL_NETWORK] else []) @
     (if command_matches command (deployment_command_patterns self) is_deployment_segment
      then [DEPLOYMENT_COMMAND] else [])"

definition evaluate_command :: "string \<Rightarrow> approval_policy \<Rightarrow> string \<Rightarrow> approval_request option" where
  "evaluate_command uuid self command =
     (let rs = command_reasons self command in
      if rs = [] then None
      else Some \<lparr>request_id = uuid, subject_type = ''command'', subject = command, reasons = rs,
                 detail = join '', '' (map approval_reason_value rs), required = True\<rparr>)"

definition evaluate_file_change :: "string \<Rightarrow> approval_policy \<Rightarrow> string \<Rightarrow> approval_request option" where
  "evaluate_file_change uuid self path =
     (let normalized = replace [backslash] ''/'' path;
          p = pure_posix_path normalized in
      if \<not> list_ex (path_matches p) (sensitive_file_patterns self) then None
      else Some \<lparr>request_id = uuid, subject_type = ''file_change'', subject = normalized,
                 reasons = [SENSITIVE_FILE_CHANGE],
                 detail = ''sensitive file pattern matched: '' @ normalized, required = True\<rparr>)"

text \<open>\<open>uuid i\<close> is the identifier drawn for the \<open>i\<close>-th item evaluated.\<close>

definition evaluate_batch ::
  "(nat \<Rightarrow> string) \<Rightarrow> approval_policy \<Rightarrow> string list \<Rightarrow> string list \<Rightarrow> approval_request list" where
  "evaluate_batch uuid self commands file_changes =
     List.map_filter (\<lambda>(i, c). evaluate_command (uuid i) self c)
       (enumerate 0 commands) @
     List.map_filter (\<lambda>(i, p). evaluate_file_change (uuid i) self p)
       (enumerate (length commands) file_changes)"

section \<open>Structural detection survives quoting and wrapping\<close>

lemma tokenize_join [simp]: "tokenize (shlex_join argv) = argv"
  by (simp add: tokenize_def shlex_split_join)

text \<open>What \<open>shlex.join\<close> prints is never a bare separator: separators are quoted.\<close>

lemma join_not_separator: "shlex_join ts \<notin> set COMMAND_SEPARATORS"
proof
  assume sep: "shlex_join ts \<in> set COMMAND_SEPARATORS"
  have "\<forall>s \<in> set COMMAND_SEPARATORS. shlex_split s = Inr [s] \<and> shlex_join [s] \<noteq> s"
    by code_simp
  with sep have "shlex_split (shlex_join ts) = Inr [shlex_join ts]"
    and ne: "shlex_join [shlex_join ts] \<noteq> shlex_join ts" by blast+
  then have "ts = [shlex_join ts]" by (simp add: shlex_split_join)
  with ne show False by metis
qed

lemma segments_match_direct:
  "seg \<in> set segs \<Longrightarrow> case_prod p (program_of seg) \<Longrightarrow> segments_match p d segs"
  by (subst segments_match.simps) (auto simp: list_ex_iff split: prod.splits intro!: bexI [of _ seg])

lemma shell_not_special:
  assumes "sh \<in> set SHELL_PROGRAMS"
  shows "sh \<notin> set COMMAND_SEPARATORS" and "program_of [sh, ''-c'', pl] = (sh, [''-c'', pl])"
  using assms
  by (auto simp: SHELL_PROGRAMS_def COMMAND_SEPARATORS_def program_of_def basename_def)

lemma segments_match_wrapped:
  assumes "segments_match p (Suc d) (pipeline_segments ts)" and "d < MAX_NESTED_DEPTH"
    and sh: "sh \<in> set SHELL_PROGRAMS"
  shows "segments_match p d (pipeline_segments [sh, ''-c'', shlex_join ts])"
proof -
  have "''-c'' \<notin> set COMMAND_SEPARATORS" by code_simp
  then have "pipeline_segments [sh, ''-c'', shlex_join ts] = [[sh, ''-c'', shlex_join ts]]"
    using shell_not_special(1) [OF sh] join_not_separator [of ts]
    by (simp add: pipeline_segments_def add_token_def)
  with assms show ?thesis
    by (simp add: segments_match.simps [of p d] shell_not_special(2))
qed

text \<open>\<open>wrap_shell [sh1, sh2] argv\<close> is the argument vector \<open>sh1 -c "sh2 -c '...'"\<close>.\<close>

fun wrap_shell :: "string list \<Rightarrow> string list \<Rightarrow> string list" where
  "wrap_shell [] argv = argv"
| "wrap_shell (sh # shs) argv = [sh, ''-c'', shlex_join (wrap_shell shs argv)]"

lemma segments_match_wrap:
  "segments_match p (d + length shs) (pipeline_segments ts) \<Longrightarrow>
   d + length shs \<le> MAX_NESTED_DEPTH \<Longrightarrow> set shs \<subseteq> set SHELL_PROGRAMS \<Longrightarrow>
   segments_match p d (pipeline_segments (wrap_shell shs ts))"
  by (induction shs arbitrary: d) (auto intro: segments_match_wrapped)

fun segment_check :: "approval_reason \<Rightarrow> string \<Rightarrow> string list \<Rightarrow> bool" where
  "segment_check HIGH_RISK_COMMAND = is_high_risk_segment"
| "segment_check EXTERNAL_NETWORK = is_external_network_segment"
| "segment_check DEPLOYMENT_COMMAND = is_deployment_segment"
| "segment_check SENSITIVE_FILE_CHANGE = (\<lambda>_ _. False)"

lemma evaluate_command_reported:
  assumes "segments_match (segment_check r) 0 (pipeline_segments (tokenize command))"
    and "r \<noteq> SENSITIVE_FILE_CHANGE"
  shows "\<exists>req. evaluate_command u self command = Some req \<and> r \<in> set (reasons req) \<and> required req"
proof -
  have "r \<in> set (command_reasons self command)"
    using assms by (cases r) (auto simp: command_reasons_def command_matches_def)
  then show ?thesis by (auto simp: evaluate_command_def Let_def)
qed

section \<open>Component-wise globbing\<close>

lemma parts_match_starstar:
  "parts_match ps (''**'' # pats) \<longleftrightarrow> (\<exists>us vs. ps = us @ vs \<and> parts_match vs pats)"
proof
  assume "parts_match ps (''**'' # pats)"
  then have "\<exists>i \<in> set [0..<length ps + 1]. parts_match (drop i ps) pats"
    by (simp only: parts_match.simps if_True list_ex_iff simp_thms)
  then obtain i where "parts_match (drop i ps) pats" by blast
  then show "\<exists>us vs. ps = us @ vs \<and> parts_match vs pats" by (metis append_take_drop_id)
next
  assume "\<exists>us vs. ps = us @ vs \<and> parts_match vs pats"
  then obtain us vs where "ps = us @ vs" "parts_match vs pats" by blast
  then show "parts_match ps (''**'' # pats)"
    by (auto simp: list_ex_iff intro!: bexI [of _ "length us"])
qed

lemma parts_match_one: "head \<noteq> ''**'' \<Longrightarrow> parts_match vs [head] \<longleftrightarrow> (\<exists>v. vs = [v] \<and> fnmatch v head)"
  by (cases vs) auto

lemma parts_match_last:
  assumes "head \<noteq> ''**''"
  shows "parts_match ps [''**'', head] \<longleftrightarrow> ps \<noteq> [] \<and> fnmatch (last ps) head"
proof -
  have "parts_match ps [''**'', head] \<longleftrightarrow> (\<exists>us v. ps = us @ [v] \<and> fnmatch v head)"
    unfolding parts_match_starstar using parts_match_one [OF assms] by blast
  also have "\<dots> \<longleftrightarrow> ps \<noteq> [] \<and> fnmatch (last ps) head"
    by (cases ps rule: rev_cases) auto
  finally show ?thesis .
qed

lemma parts_match_inside:
  assumes "head \<noteq> ''**''"
  shows "parts_match ps [''**'', head, ''**''] \<longleftrightarrow> (\<exists>p \<in> set ps. fnmatch p head)"
proof -
  have any: "parts_match vs [''**'']" for vs
    unfolding parts_match_starstar by (rule exI [of _ vs], rule exI [of _ "[]"]) simp
  have step: "parts_match vs [head, ''**''] \<longleftrightarrow> (\<exists>v vs'. vs = v # vs' \<and> fnmatch v head)" for vs
    using assms any by (cases vs) (simp_all del: parts_match.simps(2) add: parts_match.simps(2) [of _ head])
  have "parts_match ps [''**'', head, ''**''] \<longleftrightarrow> (\<exists>us v vs'. ps = us @ v # vs' \<and> fnmatch v head)"
    unfolding parts_match_starstar [of ps] step by blast
  also have "\<dots> \<longleftrightarrow> (\<exists>p \<in> set ps. fnmatch p head)"
    by (metis in_set_conv_decomp)
  finally show ?thesis .
qed

lemma default_pattern_parts:
  "map pattern_parts (sensitive_file_patterns DEFAULT_APPROVAL_POLICY) =
    [[''**'', ''.env''], [''**'', ''.env.*''], [''**'', ''*secret*''], [''**'', ''*credential*''],
     [''**'', ''secrets'', ''**''], [''**'', ''.ssh'', ''**''], [''**'', ''id_rsa''], [''**'', ''id_ed25519'']]"
  by code_simp

text \<open>The components of the path a change is judged by.\<close>

definition change_parts :: "string \<Rightarrow> string list" where
  "change_parts path = parts (pure_posix_path (replace [backslash] ''/'' path))"

definition sensitive_parts :: "string list \<Rightarrow> bool" where
  "sensitive_parts ps \<longleftrightarrow>
     (ps \<noteq> [] \<and> (last ps \<in> {''.env'', ''id_rsa'', ''id_ed25519''} \<or> prefix ''.env.'' (last ps)
        \<or> contains ''secret'' (last ps) \<or> contains ''credential'' (last ps)))
     \<or> ''secrets'' \<in> set ps \<or> ''.ssh'' \<in> set ps"

lemma default_globs:
  "fnmatch s ''.env'' \<longleftrightarrow> s = ''.env''" "fnmatch s ''secrets'' \<longleftrightarrow> s = ''secrets''"
  "fnmatch s ''.ssh'' \<longleftrightarrow> s = ''.ssh''" "fnmatch s ''id_rsa'' \<longleftrightarrow> s = ''id_rsa''"
  "fnmatch s ''id_ed25519'' \<longleftrightarrow> s = ''id_ed25519''" "fnmatch s ''.env.*'' \<longleftrightarrow> prefix ''.env.'' s"
  "fnmatch s ''*secret*'' \<longleftrightarrow> contains ''secret'' s"
  "fnmatch s ''*credential*'' \<longleftrightarrow> contains ''credential'' s"
  using fnmatch_prefix [of "''.env.''" s] fnmatch_infix [of "''secret''" s]
    fnmatch_infix [of "''credential''" s]
  by (simp_all add: fnmatch_plain glob_plain_def)

lemma default_sensitive_iff:
  "list_ex (path_matches p) (sensitive_file_patterns DEFAULT_APPROVAL_POLICY) \<longleftrightarrow> sensitive_parts (parts p)"
proof -
  have "list_ex (path_matches p) (sensitive_file_patterns DEFAULT_APPROVAL_POLICY)
    \<longleftrightarrow> list_ex (parts_match (parts p)) (map pattern_parts (sensitive_file_patterns DEFAULT_APPROVAL_POLICY))"
    by (simp add: list_ex_iff path_matches_def)
  also have "\<dots> \<longleftrightarrow> sensitive_parts (parts p)"
    unfolding default_pattern_parts
    by (simp del: parts_match.simps add: parts_match_last parts_match_inside default_globs sensitive_parts_def)
      blast
  finally show ?thesis .
qed

section \<open>Refuting the default patterns\<close>

text \<open>A pattern does not match a text that lacks one of its words.\<close>

lemma pattern_needs:
  "\<not> contains (lower a) (lower s) \<Longrightarrow> \<not> rx_search (two_words a b) s"
  "\<not> contains (lower b) (lower s) \<Longrightarrow> \<not> rx_search (two_words a b) s"
  "\<not> contains (lower a) (lower s) \<Longrightarrow> \<not> rx_search (two_words_of a bs) s"
  "\<not> contains (lower a) (lower s) \<Longrightarrow> \<not> rx_search (fetch_url a) s"
  "\<not> contains (lower a) (lower s) \<Longrightarrow> \<not> rx_search (word_then_space a) s"
  "\<not> contains (lower a) (lower s) \<Longrightarrow> \<not> rx_search (whole_word a) s"
  "\<not> contains (lower a) (lower s) \<Longrightarrow> \<not> rx_search (three_words a b c) s"
  unfolding two_words_def two_words_of_def fetch_url_def word_then_space_def whole_word_def three_words_def
  by (auto simp del: rx_seqs.simps lit_ic.simps
      dest: rx_search_needs [where w = a] rx_search_needs [where w = b])

lemmas refute_patterns =
  matches_any_def DEFAULT_APPROVAL_POLICY_def pattern_needs lower_def lower_char_def code_def

section \<open>Properties\<close>



text \<open>Under the default policy a file change needs approval exactly when its last component is
  an environment file, a private key, or carries \<open>secret\<close> or \<open>credential\<close> in its name, or when a
  \<open>secrets\<close> or \<open>.ssh\<close> component lies anywhere on the path, at the root of the repository too.\<close>

theorem default_file_change_iff:
  "evaluate_file_change u DEFAULT_APPROVAL_POLICY path \<noteq> None \<longleftrightarrow> sensitive_parts (change_parts path)"
  by (simp add: evaluate_file_change_def Let_def default_sensitive_iff change_parts_def)

text \<open>The structural check sees separators and payloads only as separate words. A recursive
  delete after \<open>ls;\<close>, and one inside \<open>bash -lc\<close>, are not reported at all under the default
  policy.\<close>

theorem glued_separator_not_reported:
  "evaluate_command u DEFAULT_APPROVAL_POLICY ''ls; rm -fr /'' = None
   \<and> HIGH_RISK_COMMAND \<notin> set (command_reasons DEFAULT_APPROVAL_POLICY
        (shlex_join [''bash'', ''-lc'', ''rm -fr /'']))"
proof -
  let ?c = "''ls; rm -fr /''" and ?d = "shlex_join [''bash'', ''-lc'', ''rm -fr /'']"
  have toks: "pipeline_segments (tokenize ?c) = [[''ls;'', ''rm'', ''-fr'', ''/'']]"
    "pipeline_segments [''bash'', ''-lc'', ''rm -fr /''] = [[''bash'', ''-lc'', ''rm -fr /'']]"
    by code_simp+
  have d: "?d = ''bash -lc '' @ [squote] @ ''rm -fr /'' @ [squote]" by code_simp
  have "\<not> matches_any ?c (high_risk_command_patterns DEFAULT_APPROVAL_POLICY)"
    "\<not> matches_any ?c (external_network_patterns DEFAULT_APPROVAL_POLICY)"
    "\<not> matches_any ?c (deployment_command_patterns DEFAULT_APPROVAL_POLICY)"
    "\<not> matches_any ?d (high_risk_command_patterns DEFAULT_APPROVAL_POLICY)"
    unfolding d by (simp_all add: refute_patterns)
  moreover have "\<not> segments_match is_high_risk_segment 0 [[''ls;'', ''rm'', ''-fr'', ''/'']]"
    "\<not> segments_match is_external_network_segment 0 [[''ls;'', ''rm'', ''-fr'', ''/'']]"
    "\<not> segments_match is_deployment_segment 0 [[''ls;'', ''rm'', ''-fr'', ''/'']]" by code_simp+
  moreover have "\<not> segments_match is_high_risk_segment 0 [[''bash'', ''-lc'', ''rm -fr /'']]" by code_simp
  ultimately show ?thesis
    by (simp add: evaluate_command_def command_reasons_def command_matches_def toks)
qed

end
