(* ===== verification/Tool_Schema.thy ===== *)
theory Tool_Schema
  imports Py_Json
begin

text \<open>\<open>tool_registry/schema.py\<close>: the data of registered tools and the output summary.\<close>

section \<open>Data\<close>

datatype tool_permission = READ | WRITE | EXECUTE | CONFIRM

fun tool_permission_value :: "tool_permission \<Rightarrow> string" where
  "tool_permission_value READ = ''read''"
| "tool_permission_value WRITE = ''write''"
| "tool_permission_value EXECUTE = ''execute''"
| "tool_permission_value CONFIRM = ''confirm''"

text \<open>\<open>ToolPermission(value)\<close>: \<open>None\<close> when it raises \<open>ValueError\<close>.\<close>

definition tool_permission_of :: "string \<Rightarrow> tool_permission option" where
  "tool_permission_of s =
     find (\<lambda>p. tool_permission_value p = s) [READ, WRITE, EXECUTE, CONFIRM]"

datatype tool_mode = LIVE | MOCK

fun tool_mode_value :: "tool_mode \<Rightarrow> string" where
  "tool_mode_value LIVE = ''live''"
| "tool_mode_value MOCK = ''mock''"

datatype tool_health_status = UNKNOWN_HEALTH | HEALTHY | DEGRADED | UNREACHABLE

record tool_schema_ref =
  schema_type :: string
  schema_location :: string
  checksum :: "string option"

record tool_health_check =
  hc_status :: tool_health_status
  hc_checked_at :: int
  hc_detail :: "string option"

record tool_cost =
  model_cost_usd :: rat
  ci_cost_usd :: rat
  external_api_cost_usd :: rat

definition no_cost :: tool_cost where
  "no_cost = \<lparr>model_cost_usd = 0, ci_cost_usd = 0, external_api_cost_usd = 0\<rparr>"

definition total_cost_usd :: "tool_cost \<Rightarrow> rat" where
  "total_cost_usd c =
     py_round (fl (fl (model_cost_usd c + ci_cost_usd c) + external_api_cost_usd c)) 6"

record tool_entry =
  tool_id :: string
  display_name :: string
  provider :: string
  enabled :: bool
  permission :: tool_permission
  permission_scopes :: "string list"
  mode :: tool_mode
  schema_ref :: "tool_schema_ref option"
  health_check :: "tool_health_check option"
  cost :: tool_cost

definition summarize_tool_output :: "string \<Rightarrow> nat \<Rightarrow> string" where
  "summarize_tool_output output max_chars =
     (let normalized = strip output in
      if length normalized \<le> max_chars then normalized
      else let keep_head = max_chars div 2;
               keep_tail = max_chars - keep_head;
               head = rstrip (take keep_head normalized);
               tail = lstrip (last_slice keep_tail normalized)
           in head @ [nl] @ ''...'' @ [nl] @ tail)"

section \<open>Lemmas\<close>

lemma tool_permission_of_value [simp]: "tool_permission_of (tool_permission_value p) = Some p"
  by (cases p) (simp_all add: tool_permission_of_def)

lemma tool_permission_value_inj: "tool_permission_value p = tool_permission_value q \<longleftrightarrow> p = q"
  by (metis option.inject tool_permission_of_value)

lemma summarize_short: "length (strip s) \<le> n \<Longrightarrow> summarize_tool_output s n = strip s"
  by (simp add: summarize_tool_output_def Let_def)

lemma suffix_lstrip: "suffix (lstrip s) s"
  by (simp add: lstrip_def suffix_dropWhile)

lemma prefix_rstrip: "prefix (rstrip s) s"
  using rstrip_eq_prefix [of s] by (auto simp: prefix_def)

lemma suffix_last_slice: "suffix (last_slice n s) s"
  by (simp add: last_slice_def suffix_drop)

section \<open>Properties\<close>

text \<open>A summary is the stripped output itself when that fits the limit. Otherwise it is a
  beginning and an end of the stripped output around the elision mark, together no longer than
  the limit.\<close>

theorem summarize_tool_output_spec:
  assumes "0 < max_chars"
  shows "if length (strip output) \<le> max_chars
         then summarize_tool_output output max_chars = strip output
         else \<exists>h t. summarize_tool_output output max_chars = h @ [nl] @ ''...'' @ [nl] @ t
                \<and> prefix h (strip output) \<and> suffix t (strip output) \<and> length h + length t \<le> max_chars"
proof (cases "length (strip output) \<le> max_chars")
  case True
  then show ?thesis by (simp add: summarize_short)
next
  case False
  let ?s = "strip output" and ?k = "max_chars div 2"
  let ?h = "rstrip (take ?k ?s)" and ?t = "lstrip (last_slice (max_chars - ?k) ?s)"
  have "prefix ?h ?s" using prefix_rstrip take_is_prefix by (rule prefix_order.trans)
  moreover have "suffix ?t ?s" using suffix_lstrip suffix_last_slice by (rule suffix_order.trans)
  moreover have "length ?h \<le> ?k" using length_rstrip_le [of "take ?k ?s"] by simp
  moreover have "length ?t \<le> max_chars - ?k"
    using length_lstrip_le [of "last_slice (max_chars - ?k) ?s"] assms
      length_last_slice [of "max_chars - ?k" ?s] by simp
  ultimately have "summarize_tool_output output max_chars = ?h @ [nl] @ ''...'' @ [nl] @ ?t
      \<and> prefix ?h ?s \<and> suffix ?t ?s \<and> length ?h + length ?t \<le> max_chars"
    using False by (simp add: summarize_tool_output_def Let_def)
  with False show ?thesis by (simp only: if_False) blast
qed

theorem summarize_tool_output_spec_witness:
  "if length (strip ''  hello world '') \<le> 4
   then summarize_tool_output ''  hello world '' 4 = strip ''  hello world ''
   else \<exists>h t. summarize_tool_output ''  hello world '' 4 = h @ [nl] @ ''...'' @ [nl] @ t
          \<and> prefix h (strip ''  hello world '') \<and> suffix t (strip ''  hello world '') \<and> length h + length t \<le> 4"
  by (rule summarize_tool_output_spec) simp

end
