(* ===== verification/Tool_Registry.thy ===== *)
theory Tool_Registry
  imports Tool_Schema "HOL-Library.List_Lexorder" "HOL-Library.Char_ord"
begin

text \<open>
  \<open>tool_registry/registry.py\<close>: the tool registry with its call history, mock responses, health
  checks and cost accounting. The state is a record; every operation returns what the Python
  method returns or raises together with the new state. Executors, the clock and fresh
  identifiers are arguments.
\<close>

section \<open>Data\<close>

record connector_template =
  template_id :: string
  ct_display_name :: string
  ct_provider :: string
  required_env_vars :: "string list"
  default_permission :: tool_permission
  ct_schema_location :: string

record tool_call_record =
  cr_trace_id :: string
  cr_tool_id :: string
  cr_started_at :: int
  cr_duration_ms :: int
  cr_parameters_summary :: string
  cr_output_summary :: string
  cr_error :: "string option"
  cr_mode :: tool_mode

record tool_mock_spec =
  ms_output :: string
  ms_error :: "string option"
  ms_duration_ms :: int

definition default_mock :: tool_mock_spec where
  "default_mock = \<lparr>ms_output = ''mock response'', ms_error = None, ms_duration_ms = 20\<rparr>"

record http_connector_config =
  connector_id :: string
  base_url :: string
  hc_path :: string
  hc_method :: string
  hc_headers :: "(string, string) dict"
  hc_query_params :: "(string, string) dict"
  hc_body :: "pyval option"

record http_request =
  rq_connector_id :: string
  rq_method :: string
  rq_url :: string
  rq_headers :: "(string, string) dict"
  rq_query_params :: "(string, string) dict"
  rq_body :: "pyval option"

section \<open>Connectors\<close>

text \<open>Substituting \<open>{{key}}\<close> for each variable in turn.\<close>

definition render_template :: "(pyval \<Rightarrow> string) \<Rightarrow> string \<Rightarrow> payload \<Rightarrow> string" where
  "render_template rp template variables =
     foldl (\<lambda>rendered (key, v). replace (''{{'' @ key @ ''}}'') (py_str rp v) rendered) template variables"

definition build_http_connector_request ::
  "(pyval \<Rightarrow> string) \<Rightarrow> http_connector_config \<Rightarrow> payload \<Rightarrow> http_request" where
  "build_http_connector_request rp config variables =
     (let path = lstrip_char (CHR ''/'') (render_template rp (hc_path config) variables);
          base = rstrip_char (CHR ''/'') (base_url config);
          url = (if path \<noteq> [] then base @ ''/'' @ path else base);
          render = map (\<lambda>(k, v). (k, render_template rp v variables))
      in \<lparr>rq_connector_id = connector_id config, rq_method = upper (hc_method config), rq_url = url,
          rq_headers = render (hc_headers config), rq_query_params = render (hc_query_params config),
          rq_body = hc_body config\<rparr>)"

definition template :: "string \<Rightarrow> string \<Rightarrow> string list \<Rightarrow> tool_permission \<Rightarrow> connector_template" where
  "template i nm env perm = \<lparr>template_id = i, ct_display_name = nm, ct_provider = i,
     required_env_vars = env, default_permission = perm,
     ct_schema_location = ''app://'' @ i @ ''/schema''\<rparr>"

definition BUILTIN_CONNECTOR_TEMPLATES :: "connector_template list" where
  "BUILTIN_CONNECTOR_TEMPLATES =
    [template ''github'' ''GitHub'' [''GITHUB_TOKEN''] CONFIRM,
     template ''gitlab'' ''GitLab'' [''GITLAB_TOKEN''] CONFIRM,
     template ''jira'' ''Jira'' [''JIRA_BASE_URL'', ''JIRA_API_TOKEN''] WRITE,
     template ''linear'' ''Linear'' [''LINEAR_API_KEY''] WRITE,
     template ''notion'' ''Notion'' [''NOTION_API_KEY''] WRITE,
     template ''sentry'' ''Sentry'' [''SENTRY_AUTH_TOKEN''] READ,
     template ''slack'' ''Slack'' [''SLACK_BOT_TOKEN''] WRITE]"

section \<open>The registry state\<close>

record tool_registry =
  entries :: "(string, tool_entry) dict"
  call_records :: "tool_call_record list"
  mock_specs :: "(string, tool_mock_spec) dict"

definition new_registry :: "tool_entry list \<Rightarrow> tool_registry" where
  "new_registry es = \<lparr>entries = fold (\<lambda>e. dict_set (tool_id e) e) es [], call_records = [], mock_specs = []\<rparr>"

definition template_entry :: "connector_template \<Rightarrow> tool_entry" where
  "template_entry t = \<lparr>tool_id = ''connector.'' @ template_id t, display_name = ct_display_name t,
     provider = ct_provider t, enabled = True, permission = default_permission t,
     permission_scopes = [tool_permission_value (default_permission t)], mode = LIVE,
     schema_ref = Some \<lparr>schema_type = ''json_schema'', schema_location = ct_schema_location t, checksum = None\<rparr>,
     health_check = None, cost = no_cost\<rparr>"

definition from_builtin_templates :: tool_registry where
  "from_builtin_templates = new_registry (map template_entry BUILTIN_CONNECTOR_TEMPLATES)"

definition list_entries :: "tool_registry \<Rightarrow> tool_entry list" where
  "list_entries r = map (\<lambda>k. the (dict_get (entries r) k)) (sort (dict_keys (entries r)))"

definition get_entry :: "tool_registry \<Rightarrow> string \<Rightarrow> tool_entry res" where
  "get_entry r tid = (case dict_get (entries r) tid of None \<Rightarrow> Inl (KeyError tid) | Some e \<Rightarrow> Inr e)"

definition register :: "tool_entry \<Rightarrow> tool_registry \<Rightarrow> tool_registry" where
  "register e r = r\<lparr>entries := dict_set (tool_id e) e (entries r)\<rparr>"

text \<open>The setters share their shape: look the entry up, change one field in place.\<close>

definition modify_entry :: "string \<Rightarrow> (tool_entry \<Rightarrow> tool_entry) \<Rightarrow> tool_registry \<Rightarrow> tool_entry res \<times> tool_registry" where
  "modify_entry tid f r =
     (case get_entry r tid of
        Inl e \<Rightarrow> (Inl e, r)
      | Inr en \<Rightarrow> (Inr (f en), r\<lparr>entries := dict_set tid (f en) (entries r)\<rparr>))"

definition set_enabled :: "string \<Rightarrow> bool \<Rightarrow> tool_registry \<Rightarrow> tool_entry res \<times> tool_registry" where
  "set_enabled tid b = modify_entry tid (\<lambda>e. e\<lparr>enabled := b\<rparr>)"

definition set_permission :: "string \<Rightarrow> tool_permission \<Rightarrow> tool_registry \<Rightarrow> tool_entry res \<times> tool_registry" where
  "set_permission tid p = modify_entry tid (\<lambda>e. e\<lparr>permission := p\<rparr>)"

definition set_permission_scopes :: "string \<Rightarrow> string list \<Rightarrow> tool_registry \<Rightarrow> tool_entry res \<times> tool_registry" where
  "set_permission_scopes tid ss = modify_entry tid (\<lambda>e. e\<lparr>permission_scopes := ss\<rparr>)"

definition set_mode :: "string \<Rightarrow> tool_mode \<Rightarrow> tool_registry \<Rightarrow> tool_entry res \<times> tool_registry" where
  "set_mode tid m = modify_entry tid (\<lambda>e. e\<lparr>mode := m\<rparr>)"

definition set_mock_response ::
  "string \<Rightarrow> tool_mock_spec \<Rightarrow> tool_registry \<Rightarrow> tool_mock_spec res \<times> tool_registry" where
  "set_mock_response tid spec r =
     (case get_entry r tid of
        Inl e \<Rightarrow> (Inl e, r)
      | Inr _ \<Rightarrow> (Inr spec, r\<lparr>mock_specs := dict_set tid spec (mock_specs r)\<rparr>))"

definition clear_mock_response :: "string \<Rightarrow> tool_registry \<Rightarrow> tool_registry" where
  "clear_mock_response tid r = r\<lparr>mock_specs := dict_del tid (mock_specs r)\<rparr>"

section \<open>Recording and invoking\<close>

datatype params = PMap payload | PText string

definition params_text :: "(pyval \<Rightarrow> string) \<Rightarrow> params \<Rightarrow> string" where
  "params_text rp ps = (case ps of PMap d \<Rightarrow> json_dumps rp (PDict d) | PText s \<Rightarrow> s)"

text \<open>\<open>trace_id or uuid4().hex\<close>.\<close>

definition trace_or_fresh :: "string option \<Rightarrow> string \<Rightarrow> string" where
  "trace_or_fresh t fresh = (case t of None \<Rightarrow> fresh | Some s \<Rightarrow> if s = [] then fresh else s)"

definition record_call ::
  "py_env \<Rightarrow> string \<Rightarrow> params \<Rightarrow> string \<Rightarrow> int \<Rightarrow> string option \<Rightarrow> string option \<Rightarrow> tool_registry
    \<Rightarrow> tool_call_record \<times> tool_registry" where
  "record_call ev tid ps output duration_ms error trace_id r =
     (let entry = dict_get (entries r) tid;
          rec = \<lparr>cr_trace_id = trace_or_fresh trace_id (env_uuid ev), cr_tool_id = tid,
                 cr_started_at = env_now ev, cr_duration_ms = duration_ms,
                 cr_parameters_summary = summarize_tool_output (params_text (env_repr ev) ps) 300,
                 cr_output_summary = summarize_tool_output output 800, cr_error = error,
                 cr_mode = (case entry of None \<Rightarrow> LIVE | Some e \<Rightarrow> mode e)\<rparr>
      in (rec, r\<lparr>call_records := call_records r @ [rec]\<rparr>))"

text \<open>What running an executor does: it finishes after some seconds with a result, an exception or
  a \<open>BaseException\<close> that is not an \<open>Exception\<close>, or it never finishes.\<close>

datatype exec_result = Ret string | Exn string string | BaseExn string string
datatype exec_outcome = Finishes rat exec_result | Hangs

type_synonym executor = "string \<Rightarrow> params \<Rightarrow> exec_outcome"

definition record_executor_failure ::
  "py_env \<Rightarrow> string \<Rightarrow> params \<Rightarrow> string option \<Rightarrow> string \<Rightarrow> string \<Rightarrow> tool_registry
    \<Rightarrow> tool_call_record \<times> tool_registry" where
  "record_executor_failure ev tid ps trace_id cls msg r =
     record_call ev tid ps [] (env_elapsed_ms ev) (Some (cls @ '': '' @ msg)) trace_id r"

definition lift_call :: "'a \<times> 's \<Rightarrow> 'a outcome \<times> 's" where
  "lift_call x = (Returns (fst x), snd x)"

text \<open>\<open>concurrent.futures.TimeoutError\<close> is the built-in \<open>TimeoutError\<close>, so one raised by the executor
  itself is caught by the same handler.\<close>

definition invoke_with_timeout ::
  "py_env \<Rightarrow> string \<Rightarrow> params \<Rightarrow> executor \<Rightarrow> string option \<Rightarrow> rat \<Rightarrow> tool_registry
    \<Rightarrow> tool_call_record outcome \<times> tool_registry" where
  "invoke_with_timeout ev tid ps ex trace_id timeout r =
     (let timed_out = lift_call (record_call ev tid ps [] (env_elapsed_ms ev)
            (Some (''executor timed out after '' @ env_repr ev (PFloat timeout) @ ''s'')) trace_id r)
      in case ex tid ps of
           Hangs \<Rightarrow> timed_out
         | Finishes d res \<Rightarrow>
             if timeout < d then timed_out
             else (case res of
                 Ret output \<Rightarrow> lift_call (record_call ev tid ps output (env_elapsed_ms ev) None trace_id r)
               | Exn cls msg \<Rightarrow>
                   if cls = ''TimeoutError'' then timed_out
                   else lift_call (record_executor_failure ev tid ps trace_id cls msg r)
               | BaseExn cls msg \<Rightarrow> (Raises (OtherError cls msg), r)))"

definition confirm_required_msg :: string where
  "confirm_required_msg = ''confirmation required for CONFIRM tools''"

definition invoke ::
  "py_env \<Rightarrow> string \<Rightarrow> params \<Rightarrow> executor option \<Rightarrow> string option \<Rightarrow> bool \<Rightarrow> rat option \<Rightarrow> tool_registry
    \<Rightarrow> tool_call_record outcome \<times> tool_registry" where
  "invoke ev tid ps executor trace_id confirmed timeout r =
     (case get_entry r tid of
        Inl e \<Rightarrow> (Raises e, r)
      | Inr entry \<Rightarrow>
        if permission entry = CONFIRM \<and> \<not> confirmed then
          lift_call (record_call ev tid ps [] 0 (Some confirm_required_msg) trace_id r)
        else let mock_spec = dict_get (mock_specs r) tid in
        if mode entry = MOCK \<or> mock_spec \<noteq> None then
          let active = (case mock_spec of None \<Rightarrow> default_mock | Some m \<Rightarrow> m) in
          lift_call (record_call ev tid ps (ms_output active) (ms_duration_ms active) (ms_error active) trace_id r)
        else case executor of
          None \<Rightarrow> lift_call (record_call ev tid ps [] 0
                    (Some ''live executor is required when mock mode is disabled'') trace_id r)
        | Some ex \<Rightarrow>
            if (case timeout of None \<Rightarrow> False | Some t \<Rightarrow> 0 < t)
            then invoke_with_timeout ev tid ps ex trace_id (the timeout) r
            else (case ex tid ps of
                Hangs \<Rightarrow> (Diverges, r)
              | Finishes _ (Ret output) \<Rightarrow>
                  lift_call (record_call ev tid ps output (env_elapsed_ms ev) None trace_id r)
              | Finishes _ (Exn cls msg) \<Rightarrow>
                  lift_call (record_executor_failure ev tid ps trace_id cls msg r)
              | Finishes _ (BaseExn cls msg) \<Rightarrow> (Raises (OtherError cls msg), r)))"

section \<open>History, schema, health and cost\<close>

definition list_call_records :: "string option \<Rightarrow> tool_registry \<Rightarrow> tool_call_record list" where
  "list_call_records tid r =
     (case tid of None \<Rightarrow> call_records r
      | Some t \<Rightarrow> filter (\<lambda>c. cr_tool_id c = t) (call_records r))"

fun drop_records :: "string \<Rightarrow> tool_call_record list \<Rightarrow> int \<Rightarrow> tool_call_record list \<Rightarrow> int \<times> tool_call_record list" where
  "drop_records t [] dropped kept = (dropped, kept)"
| "drop_records t (c # cs) dropped kept =
     (if cr_tool_id c = t then drop_records t cs (dropped + 1) kept
      else drop_records t cs dropped (kept @ [c]))"

definition clear_call_records :: "string option \<Rightarrow> tool_registry \<Rightarrow> int \<times> tool_registry" where
  "clear_call_records tid r =
     (case tid of
        None \<Rightarrow> (int (length (call_records r)), r\<lparr>call_records := []\<rparr>)
      | Some t \<Rightarrow> (case drop_records t (call_records r) 0 [] of
                     (n, kept) \<Rightarrow> (n, r\<lparr>call_records := kept\<rparr>)))"

definition opt_str :: "string option \<Rightarrow> pyval" where
  "opt_str s = (case s of None \<Rightarrow> PNone | Some t \<Rightarrow> PStr t)"

definition preview_schema :: "tool_registry \<Rightarrow> string \<Rightarrow> pyval res" where
  "preview_schema r tid =
     (case get_entry r tid of
        Inl e \<Rightarrow> Inl e
      | Inr en \<Rightarrow> Inr (PDict
          [(''tool_id'', PStr (tool_id en)), (''display_name'', PStr (display_name en)),
           (''provider'', PStr (provider en)), (''enabled'', PBool (enabled en)),
           (''permission'', PStr (tool_permission_value (permission en))),
           (''permission_scopes'', PList (map PStr (permission_scopes en))),
           (''mode'', PStr (tool_mode_value (mode en))),
           (''schema_ref'', case schema_ref en of None \<Rightarrow> PNone
              | Some s \<Rightarrow> PDict [(''schema_type'', PStr (schema_type s)),
                   (''location'', PStr (schema_location s)), (''checksum'', opt_str (checksum s))])]))"

definition missing_env :: "(string, string option) dict \<Rightarrow> string list \<Rightarrow> string list" where
  "missing_env env names =
     filter (\<lambda>n. case dict_get env n of Some (Some v) \<Rightarrow> v = [] | _ \<Rightarrow> True) names"

definition health_of ::
  "int \<Rightarrow> tool_entry \<Rightarrow> (string, string option) dict \<Rightarrow> bool \<Rightarrow> bool \<Rightarrow> tool_health_check" where
  "health_of now en env network_ok version_compatible =
     (let tmpl = find (\<lambda>t. ct_provider t = provider en) BUILTIN_CONNECTOR_TEMPLATES;
          needed = (case tmpl of None \<Rightarrow> [] | Some t \<Rightarrow> required_env_vars t);
          missing = missing_env env needed;
          details = (if missing \<noteq> [] then [''missing credentials: '' @ join '', '' missing]
             else (if \<not> network_ok then [''network check failed''] else []) @
                  (if \<not> version_compatible then [''version compatibility check failed''] else []));
          status = (if missing \<noteq> [] then UNREACHABLE
             else if \<not> network_ok \<or> \<not> version_compatible then DEGRADED else HEALTHY)
      in \<lparr>hc_status = status, hc_checked_at = now,
          hc_detail = Some (if details \<noteq> [] then join ''; '' details else ''ready'')\<rparr>)"

definition run_health_check ::
  "int \<Rightarrow> string \<Rightarrow> (string, string option) dict \<Rightarrow> bool \<Rightarrow> bool \<Rightarrow> tool_registry
    \<Rightarrow> tool_health_check res \<times> tool_registry" where
  "run_health_check now tid env network_ok version_compatible r =
     (case get_entry r tid of
        Inl e \<Rightarrow> (Inl e, r)
      | Inr en \<Rightarrow>
          (let h = health_of now en env network_ok version_compatible
           in (Inr h, r\<lparr>entries := dict_set tid (en\<lparr>health_check := Some h\<rparr>) (entries r)\<rparr>)))"

definition add_cost :: "tool_cost \<Rightarrow> tool_cost \<Rightarrow> tool_cost" where
  "add_cost a b = \<lparr>model_cost_usd = py_round (fl (model_cost_usd a + model_cost_usd b)) 6,
     ci_cost_usd = py_round (fl (ci_cost_usd a + ci_cost_usd b)) 6,
     external_api_cost_usd = py_round (fl (external_api_cost_usd a + external_api_cost_usd b)) 6\<rparr>"

definition record_cost :: "string \<Rightarrow> tool_cost \<Rightarrow> tool_registry \<Rightarrow> tool_cost res \<times> tool_registry" where
  "record_cost tid c r =
     (case get_entry r tid of
        Inl e \<Rightarrow> (Inl e, r)
      | Inr en \<Rightarrow>
          (let c' = add_cost (cost en) c
           in (Inr c', r\<lparr>entries := dict_set tid (en\<lparr>cost := c'\<rparr>) (entries r)\<rparr>)))"

definition aggregate_costs :: "tool_registry \<Rightarrow> tool_cost" where
  "aggregate_costs r = foldl (\<lambda>total e. add_cost total (cost e)) no_cost (dict_values (entries r))"

section \<open>Invariant\<close>

text \<open>Every entry is stored under its own id; mock responses belong to registered tools.\<close>

definition tools_ok :: "tool_registry \<Rightarrow> bool" where
  "tools_ok r \<longleftrightarrow> dict_ok (entries r) \<and> dict_ok (mock_specs r)
     \<and> (\<forall>(t, e) \<in> set (entries r). tool_id e = t)
     \<and> set (dict_keys (mock_specs r)) \<subseteq> set (dict_keys (entries r))"

lemma get_entry_Inr [simp]: "get_entry r t = Inr e \<longleftrightarrow> dict_get (entries r) t = Some e"
  by (simp add: get_entry_def split: option.splits)

lemma get_entry_Inl: "get_entry r t = Inl x \<longleftrightarrow> dict_get (entries r) t = None \<and> x = KeyError t"
  by (auto simp: get_entry_def split: option.splits)

lemma record_call_registry [frame_simps]:
  "entries (snd (record_call ev t ps out d err tr r)) = entries r"
  "mock_specs (snd (record_call ev t ps out d err tr r)) = mock_specs r"
  "call_records (snd (record_call ev t ps out d err tr r))
     = call_records r @ [fst (record_call ev t ps out d err tr r)]"
  by (simp_all add: record_call_def Let_def)

lemma record_call_appends:
  "record_call ev t ps out d err tr r = (c, r') \<Longrightarrow>
     r' = r\<lparr>call_records := call_records r @ [c]\<rparr> \<and> cr_tool_id c = t \<and> cr_error c = err"
  by (auto simp: record_call_def Let_def)

text \<open>A call that returns has appended the record it returns, and nothing else.\<close>

definition logs_one :: "string \<Rightarrow> tool_registry \<Rightarrow> tool_call_record outcome \<times> tool_registry \<Rightarrow> bool" where
  "logs_one t r res \<longleftrightarrow>
     (\<exists>c. res = (Returns c, r\<lparr>call_records := call_records r @ [c]\<rparr>) \<and> cr_tool_id c = t)
     \<or> (\<forall>c. fst res \<noteq> Returns c) \<and> snd res = r"

lemma logs_one_record [simp]: "logs_one t r (lift_call (record_call ev t ps out d err tr r))"
  by (simp add: logs_one_def lift_call_def record_call_def Let_def)

lemma logs_one_failure [simp]: "logs_one t r (lift_call (record_executor_failure ev t ps tr c m r))"
  by (simp add: record_executor_failure_def)

lemma logs_one_no_return [simp]: "logs_one t r (Raises x, r)" "logs_one t r (Diverges, r)"
  by (simp_all add: logs_one_def)

lemma logs_one_timeout: "logs_one t r (invoke_with_timeout ev t ps ex tr n r)"
  by (auto simp: invoke_with_timeout_def Let_def split: exec_outcome.splits exec_result.splits)

lemma logs_one_invoke: "logs_one t r (invoke ev t ps ex tr conf n r)"
  unfolding invoke_def Let_def
  by (auto simp: logs_one_timeout split: sum.splits option.splits exec_outcome.splits exec_result.splits)

lemma tools_ok_records [simp]: "tools_ok (r\<lparr>call_records := cs\<rparr>) = tools_ok r"
  by (simp add: tools_ok_def)

lemma tools_ok_set:
  "tools_ok r \<Longrightarrow> tool_id e = t \<Longrightarrow> tools_ok (r\<lparr>entries := dict_set t e (entries r)\<rparr>)"
  by (auto simp: tools_ok_def dict_items_set keys_set simp del: image_subset_iff split: if_splits)

lemma tools_ok_get: "tools_ok r \<Longrightarrow> dict_get (entries r) t = Some e \<Longrightarrow> tool_id e = t"
  by (auto simp: tools_ok_def dest: map_of_SomeD)

datatype tool_op =
    Register tool_entry
  | SetEnabled string bool
  | SetPermission string tool_permission
  | SetScopes string "string list"
  | SetMode string tool_mode
  | SetMock string tool_mock_spec
  | ClearMock string
  | Invoke py_env string params "executor option" "string option" bool "rat option"
  | ClearRecords "string option"
  | HealthCheck int string "(string, string option) dict" bool bool
  | RecordCost string tool_cost

fun tool_step :: "tool_op \<Rightarrow> tool_registry \<Rightarrow> tool_registry" where
  "tool_step (Register e) r = register e r"
| "tool_step (SetEnabled t b) r = snd (set_enabled t b r)"
| "tool_step (SetPermission t p) r = snd (set_permission t p r)"
| "tool_step (SetScopes t ss) r = snd (set_permission_scopes t ss r)"
| "tool_step (SetMode t m) r = snd (set_mode t m r)"
| "tool_step (SetMock t m) r = snd (set_mock_response t m r)"
| "tool_step (ClearMock t) r = clear_mock_response t r"
| "tool_step (Invoke ev t ps ex tr conf n) r = snd (invoke ev t ps ex tr conf n r)"
| "tool_step (ClearRecords t) r = snd (clear_call_records t r)"
| "tool_step (HealthCheck now t env a b) r = snd (run_health_check now t env a b r)"
| "tool_step (RecordCost t c) r = snd (record_cost t c r)"

lemma modify_entry_ok:
  "tools_ok r \<Longrightarrow> (\<And>e. tool_id (f e) = tool_id e) \<Longrightarrow> tools_ok (snd (modify_entry t f r))"
  by (auto simp: modify_entry_def intro!: tools_ok_set dest: tools_ok_get split: sum.splits)

lemma clear_records_ok: "tools_ok r \<Longrightarrow> tools_ok (snd (clear_call_records t r))"
  by (auto simp: clear_call_records_def split: option.splits prod.splits)

lemma invoke_ok: "tools_ok r \<Longrightarrow> tools_ok (snd (invoke ev t ps ex tr conf n r))"
  using logs_one_invoke [of t r ev ps ex tr conf n] by (auto simp: logs_one_def)

lemma mock_ok: "tools_ok r \<Longrightarrow> tools_ok (snd (set_mock_response t m r))"
  by (simp add: set_mock_response_def tools_ok_def keys_set get_entry_def image_iff split: option.splits)
    (metis dict_mem_iff fst_conv)

lemma clear_mock_ok: "tools_ok r \<Longrightarrow> tools_ok (clear_mock_response t r)"
  by (simp add: clear_mock_response_def tools_ok_def keys_del) blast

lemma health_ok: "tools_ok r \<Longrightarrow> tools_ok (snd (run_health_check now t env a b r))"
  by (auto simp: run_health_check_def Let_def intro!: tools_ok_set dest: tools_ok_get split: sum.splits)

lemma cost_ok: "tools_ok r \<Longrightarrow> tools_ok (snd (record_cost t c r))"
  by (auto simp: record_cost_def Let_def intro!: tools_ok_set dest: tools_ok_get split: sum.splits)

lemma tool_step_ok: "tools_ok r \<Longrightarrow> tools_ok (tool_step x r)"
proof (cases x)
  case (Register e)
  assume "tools_ok r"
  with Register show ?thesis by (simp add: register_def tools_ok_set)
qed (auto simp: set_enabled_def set_permission_def set_permission_scopes_def set_mode_def
    intro: modify_entry_ok mock_ok clear_mock_ok invoke_ok clear_records_ok health_ok cost_ok)

interpretation tools: guarded_steps tool_step tools_ok
  by unfold_locales (rule tool_step_ok)

text \<open>An invocation, with everything it reads from outside.\<close>

datatype tool_call = ToolCall py_env string params "executor option" "string option" bool "rat option"

fun call_tool :: "tool_call \<Rightarrow> tool_registry \<Rightarrow> tool_call_record outcome \<times> tool_registry" where
  "call_tool (ToolCall ev t ps ex tr conf n) r = invoke ev t ps ex tr conf n r"

lemma call_tool_logged:
  "case call_tool c r of
     (Returns rec, r') \<Rightarrow> call_records r' = call_records r @ [rec] | (_, r') \<Rightarrow> call_records r' = call_records r"
proof (cases c)
  case (ToolCall ev t ps ex tr conf n)
  with logs_one_invoke [of t r ev ps ex tr conf n] show ?thesis
    by (auto simp: logs_one_def split: prod.splits outcome.splits)
qed

interpretation calls: logged_calls call_tool call_records "\<lambda>c. c"
proof
  show "call_tool c s = (Returns r, s') \<Longrightarrow> call_records s' = call_records s @ [r]" for c s r s'
    using call_tool_logged [where c = c and r = s] by simp
  show "call_tool c s = (out, s') \<Longrightarrow> \<forall>r. out \<noteq> Returns r \<Longrightarrow> call_records s' = call_records s" for c s out s'
    using call_tool_logged [where c = c and r = s] by (cases out) simp_all
qed

text \<open>The constructor's writes are those of a keyed store.\<close>

lemma new_registry_get:
  "dict_get (entries (new_registry es)) t =
     (case filter (\<lambda>e. tool_id e = t) (rev es) of [] \<Rightarrow> None | e # _ \<Rightarrow> Some e)"
  using dict.get_put_all [of tool_id "\<lambda>e. e" es "[]" t]
  by (simp add: new_registry_def cong: list.case_cong)

lemma fold_set_ok: "dict_ok d \<Longrightarrow> dict_ok (fold (\<lambda>e. dict_set (tool_id e) e) es d)"
  by (induction es arbitrary: d) auto

lemma new_registry_ok: "tools_ok (new_registry es)"
proof -
  have "tool_id e = t" if "dict_get (entries (new_registry es)) t = Some e" for t e
  proof -
    from that obtain rest where "filter (\<lambda>e. tool_id e = t) (rev es) = e # rest"
      by (auto simp: new_registry_get split: list.splits)
    then have "e \<in> set (filter (\<lambda>e. tool_id e = t) (rev es))" by simp
    then show ?thesis by simp
  qed
  moreover have "dict_ok (entries (new_registry es))" by (simp add: new_registry_def fold_set_ok)
  moreover have "mock_specs (new_registry es) = []" by (simp add: new_registry_def)
  ultimately show ?thesis unfolding tools_ok_def using dict_mem_iff by fastforce
qed

lemma map_tool_id_list_entries:
  assumes "tools_ok r"
  shows "map tool_id (list_entries r) = sort (dict_keys (entries r))"
proof -
  have "tool_id (the (dict_get (entries r) k)) = k" if "k \<in> set (dict_keys (entries r))" for k
    using that assms by (metis dict_get_None_iff option.collapse tools_ok_get)
  then show ?thesis unfolding list_entries_def map_map o_def by (intro map_idI) simp
qed

lemma set_list_entries:
  assumes "tools_ok r"
  shows "e \<in> set (list_entries r) \<longleftrightarrow> dict_get (entries r) (tool_id e) = Some e"
proof
  assume "e \<in> set (list_entries r)"
  then obtain k where "k \<in> set (dict_keys (entries r))" and e: "e = the (dict_get (entries r) k)"
    by (auto simp: list_entries_def)
  then have "dict_get (entries r) k = Some e" by (metis dict_get_None_iff option.collapse)
  with assms show "dict_get (entries r) (tool_id e) = Some e" by (simp add: tools_ok_get)
next
  assume *: "dict_get (entries r) (tool_id e) = Some e"
  then have "tool_id e \<in> set (dict_keys (entries r))" by (metis dict_get_None_iff option.discI)
  with * show "e \<in> set (list_entries r)" by (force simp: list_entries_def image_iff)
qed

lemma drop_records_eq:
  "drop_records t cs n kept =
     (n + int (length (filter (\<lambda>c. cr_tool_id c = t) cs)), kept @ filter (\<lambda>c. cr_tool_id c \<noteq> t) cs)"
  by (induction t cs n kept rule: drop_records.induct) auto

section \<open>Properties\<close>

text \<open>From any constructed registry, after any sequence of operations, every entry is stored
  under its own id, mock responses exist only for registered tools, and \<open>list_entries\<close> lists every
  registered tool exactly once, in increasing order of its id.\<close>

theorem tool_registry_listing:
  "let r = fold tool_step ops (new_registry es) in
     tools_ok r \<and> sorted (map tool_id (list_entries r)) \<and> distinct (map tool_id (list_entries r))
     \<and> (\<forall>e. e \<in> set (list_entries r) \<longleftrightarrow> dict_get (entries r) (tool_id e) = Some e)"
proof -
  define r where "r = fold tool_step ops (new_registry es)"
  have ok: "tools_ok r" unfolding r_def by (rule tools.run_inv) (rule new_registry_ok)
  then have "dict_ok (entries r)" by (simp add: tools_ok_def)
  with ok show ?thesis
    unfolding r_def [symmetric] Let_def by (simp add: map_tool_id_list_entries set_list_entries)
qed

text \<open>A tool with CONFIRM permission is never run without confirmation, whatever executor,
  mock response or timeout is supplied: the call returns a refusal record, logged in the history.\<close>

theorem confirm_tool_not_run:
  assumes "dict_get (entries r) t = Some e" and "permission e = CONFIRM"
  shows "\<exists>c. invoke ev t ps ex tr False n r = (Returns c, r\<lparr>call_records := call_records r @ [c]\<rparr>)
      \<and> cr_error c = Some ''confirmation required for CONFIRM tools'' \<and> cr_output_summary c = []
      \<and> (\<forall>ex' n'. invoke ev t ps ex' tr False n' r = invoke ev t ps ex tr False n r)"
  using assms
  by (simp add: invoke_def get_entry_def lift_call_def record_call_def Let_def confirm_required_msg_def
      summarize_tool_output_def strip_defs)

definition demo_env :: py_env where
  "demo_env = \<lparr>env_now = 0, env_uuid = ''u0'', env_elapsed_ms = 5, env_repr = (\<lambda>_. ''1.5'')\<rparr>"

definition rogue :: executor where
  "rogue = (\<lambda>_ _. Finishes 1 (Ret ''pushed''))"

theorem confirm_tool_not_run_witness:
  "\<exists>c. invoke demo_env ''connector.github'' (PText ''x'') (Some rogue) None False None from_builtin_templates
      = (Returns c, from_builtin_templates\<lparr>call_records := call_records from_builtin_templates @ [c]\<rparr>)
      \<and> cr_error c = Some ''confirmation required for CONFIRM tools'' \<and> cr_output_summary c = []
      \<and> (\<forall>ex' n'. invoke demo_env ''connector.github'' (PText ''x'') ex' None False n' from_builtin_templates
           = invoke demo_env ''connector.github'' (PText ''x'') (Some rogue) None False None from_builtin_templates)"
proof (rule confirm_tool_not_run)
  show "dict_get (entries from_builtin_templates) ''connector.github''
    = Some (template_entry (template ''github'' ''GitHub'' [''GITHUB_TOKEN''] CONFIRM))" by code_simp
qed (simp add: template_entry_def template_def)

text \<open>Every invocation that returns leaves exactly one new record, the one it returns, under the
  invoked tool's id; an invocation that raises or hangs leaves the registry as it was.\<close>

theorem invoke_logs_exactly_once:
  "(\<exists>c. invoke ev t ps ex tr conf n r = (Returns c, r\<lparr>call_records := call_records r @ [c]\<rparr>) \<and> cr_tool_id c = t)
   \<or> ((\<nexists>c. fst (invoke ev t ps ex tr conf n r) = Returns c) \<and> snd (invoke ev t ps ex tr conf n r) = r)"
  using logs_one_invoke [of t r ev ps ex tr conf n] by (auto simp: logs_one_def)



text \<open>Clearing the history of one tool removes exactly its records, keeps the order of the
  others, and returns how many were removed.\<close>

theorem clear_call_records_spec:
  "clear_call_records (Some t) r =
     (int (length (list_call_records (Some t) r)),
      r\<lparr>call_records := filter (\<lambda>c. cr_tool_id c \<noteq> t) (call_records r)\<rparr>)"
  by (simp add: clear_call_records_def drop_records_eq list_call_records_def)

end
