(* ===== verification/Tool_Enforcement.thy ===== *)
theory Tool_Enforcement
  imports Tool_Registry Py_Path Py_Regex
begin

text \<open>
  \<open>tool_registry/enforcement.py\<close>: the access guard around \<open>ToolRegistry.invoke\<close> and the schema
  visualisation. The guard owns the registry it wraps. \<open>Path.resolve\<close> follows symbolic links, so it
  is an argument (\<open>rslv\<close>), arbitrary in every theorem; it may raise, and the exception then leaves
  \<open>check\<close> as it does in the code.
\<close>

section \<open>Guard state\<close>

record permission_violation =
  pv_tool_id :: string
  required_permission :: tool_permission
  actual_permission :: tool_permission
  pv_detail :: string

record access_guard =
  g_registry :: tool_registry
  workspace_root :: "posix_path option"
  path_allowlist :: "string list"
  path_blocklist :: "string list"
  violations :: "permission_violation list"
  block_on_violation :: bool

type_synonym resolver = "posix_path \<Rightarrow> posix_path res"

definition new_guard ::
  "resolver \<Rightarrow> tool_registry \<Rightarrow> string option \<Rightarrow> string list \<Rightarrow> string list \<Rightarrow> access_guard res" where
  "new_guard rslv reg wr allow block =
     (let make = (\<lambda>rt. \<lparr>g_registry = reg, workspace_root = rt, path_allowlist = allow,
                          path_blocklist = block, violations = [], block_on_violation = True\<rparr>)
      in case wr of
           None \<Rightarrow> Inr (make None)
         | Some s \<Rightarrow> (case rslv (pure_posix_path s) of Inl e \<Rightarrow> Inl e | Inr p \<Rightarrow> Inr (make (Some p))))"

section \<open>Checks\<close>

fun permission_level :: "tool_permission \<Rightarrow> int" where
  "permission_level READ = 0"
| "permission_level WRITE = 1"
| "permission_level EXECUTE = 2"
| "permission_level CONFIRM = 2"

definition meets_permission :: "tool_permission \<Rightarrow> tool_permission \<Rightarrow> bool" where
  "meets_permission actual req \<longleftrightarrow> permission_level req \<le> permission_level actual"

text \<open>The inner sum is the pair the code returns: \<open>Inl\<close> the error detail, \<open>Inr\<close> the relative path.
  \<open>os.sep\<close> is the slash, so replacing it by a slash changes nothing.\<close>

definition resolve_target_path ::
  "resolver \<Rightarrow> (pyval \<Rightarrow> string) \<Rightarrow> access_guard \<Rightarrow> string \<Rightarrow> (string + posix_path) res" where
  "resolve_target_path rslv rp g raw_path =
     (case workspace_root g of
        None \<Rightarrow> Inr (Inr (pure_posix_path raw_path))
      | Some wroot \<Rightarrow>
        let normalised_input = replace [CHR 0x5C] ''/'' raw_path in
        case rslv (path_join wroot normalised_input) of
          Inl e \<Rightarrow> Inl e
        | Inr candidate \<Rightarrow>
            (case relative_to candidate wroot of
               None \<Rightarrow> Inr (Inl (''path '' @ rp (PStr raw_path) @ '' escapes workspace (resolved to ''
                               @ path_str candidate @ '')''))
             | Some relative \<Rightarrow> Inr (Inr (pure_posix_path (path_str relative)))))"

definition deny ::
  "string \<Rightarrow> tool_permission \<Rightarrow> tool_permission \<Rightarrow> string \<Rightarrow> access_guard \<Rightarrow> access_guard" where
  "deny tid req actual detail g =
     g\<lparr>violations := violations g @ [\<lparr>pv_tool_id = tid, required_permission = req,
                                      actual_permission = actual, pv_detail = detail\<rparr>]\<rparr>"

definition check_path_rules ::
  "string \<Rightarrow> tool_permission \<Rightarrow> tool_entry \<Rightarrow> string \<Rightarrow> access_guard \<Rightarrow> bool \<times> access_guard" where
  "check_path_rules tid req entry resolved_path g =
     (if path_blocklist g \<noteq> [] \<and> list_ex (fnmatch resolved_path) (path_blocklist g)
      then (False, deny tid req (permission entry) (''path '' @ resolved_path @ '' is blocked'') g)
      else if path_allowlist g \<noteq> [] \<and> \<not> list_ex (fnmatch resolved_path) (path_allowlist g)
      then (False, deny tid req (permission entry) (''path '' @ resolved_path @ '' is not in allowlist'') g)
      else (True, g))"

definition check ::
  "resolver \<Rightarrow> (pyval \<Rightarrow> string) \<Rightarrow> string \<Rightarrow> tool_permission \<Rightarrow> string option \<Rightarrow> access_guard
    \<Rightarrow> bool res \<times> access_guard" where
  "check rslv rp tid req target_path g =
     (case get_entry (g_registry g) tid of
        Inl _ \<Rightarrow> (Inr False, deny tid req READ (''unknown tool: '' @ tid) g)
      | Inr entry \<Rightarrow>
        if \<not> enabled entry then (Inr False, deny tid req (permission entry) ''tool is disabled'' g)
        else if \<not> meets_permission (permission entry) req then
          (Inr False, deny tid req (permission entry)
             (''insufficient permission: need '' @ tool_permission_value req @ '', have ''
                @ tool_permission_value (permission entry)) g)
        else case target_path of
          None \<Rightarrow> (Inr True, g)
        | Some raw \<Rightarrow>
            (case resolve_target_path rslv rp g raw of
               Inl e \<Rightarrow> (Inl e, g)
             | Inr (Inl err_detail) \<Rightarrow> (Inr False, deny tid req (permission entry) err_detail g)
             | Inr (Inr resolved) \<Rightarrow> map_prod Inr id (check_path_rules tid req entry (path_str resolved) g)))"

definition on_registry :: "access_guard \<Rightarrow> 'a \<times> tool_registry \<Rightarrow> 'a \<times> access_guard" where
  "on_registry g x = (fst x, g\<lparr>g_registry := snd x\<rparr>)"

text \<open>Characters outside Latin-1 in message texts are written as their UTF-8 bytes.\<close>

definition em_dash :: string where
  "em_dash = [CHR 0xE2, CHR 0x80, CHR 0x94]"

definition guard_invoke ::
  "resolver \<Rightarrow> py_env \<Rightarrow> string \<Rightarrow> params \<Rightarrow> executor option \<Rightarrow> string option \<Rightarrow> string option
    \<Rightarrow> tool_permission \<Rightarrow> bool \<Rightarrow> access_guard \<Rightarrow> tool_call_record outcome \<times> access_guard" where
  "guard_invoke rslv ev tid ps ex trace_id target_path req confirmed g =
     (case check rslv (env_repr ev) tid req target_path g of
        (Inl e, g1) \<Rightarrow> (Raises e, g1)
      | (Inr False, g1) \<Rightarrow>
          let latest = last (violations g1) in
          if block_on_violation g1 then
            (Raises (PermissionError (''Tool access denied: '' @ pv_tool_id latest @ '' '' @ em_dash @ '' ''
                                        @ pv_detail latest)), g1)
          else on_registry g1 (lift_call (record_call ev tid ps [] 0
                 (Some (''permission denied: '' @ pv_detail latest)) trace_id (g_registry g1)))
      | (Inr True, g1) \<Rightarrow>
          (case get_entry (g_registry g1) tid of
             Inl e \<Rightarrow> (Raises e, g1)
           | Inr entry \<Rightarrow>
             if permission entry = CONFIRM \<and> \<not> confirmed then
               let g2 = deny tid req (permission entry) confirm_required_msg g1 in
               if block_on_violation g2 then
                 (Raises (PermissionError (''Tool access denied: '' @ tid @ '' '' @ em_dash
                                             @ '' confirmation required'')), g2)
               else on_registry g2 (lift_call (record_call ev tid ps [] 0
                      (Some confirm_required_msg) trace_id (g_registry g2)))
             else on_registry g1 (invoke ev tid ps ex trace_id confirmed None (g_registry g1))))"

section \<open>Schema visualisation\<close>

definition escape_mermaid_label :: "string \<Rightarrow> string" where
  "escape_mermaid_label s = replace [nl] '' '' (replace [CHR 0x22] ''&quot;'' s)"

definition safe_id :: "string \<Rightarrow> string" where
  "safe_id s = replace '':'' ''_'' (replace ''-'' ''_'' (replace ''.'' ''_'' s))"

definition dquoted :: "string \<Rightarrow> string" where
  "dquoted s = [CHR 0x22] @ s @ [CHR 0x22]"

definition entry_lines :: "tool_entry \<Rightarrow> string list" where
  "entry_lines entry =
     (let node_id = safe_id (tool_id entry);
          prov = escape_mermaid_label (if provider entry = [] then ''unknown'' else provider entry);
          perm = tool_permission_value (permission entry);
          status = (if enabled entry then ''enabled'' else ''disabled'');
          nm = escape_mermaid_label (display_name entry);
          tid = escape_mermaid_label (tool_id entry)
      in [''  '' @ node_id @ ''['' @ dquoted (nm @ '' ('' @ tid @ '')<br/>'' @ prov @ '' | '' @ perm
            @ '' | '' @ status) @ '']'']
         @ (case schema_ref entry of
              None \<Rightarrow> []
            | Some ref \<Rightarrow>
                let schema_id = node_id @ ''_schema'';
                    stype = escape_mermaid_label (schema_type ref)
                in [''  '' @ schema_id @ ''[('' @ dquoted (''Schema: '' @ stype) @ '')]'',
                    ''  '' @ node_id @ '' --> '' @ schema_id]))"

definition entries_to_graph :: "tool_entry list \<Rightarrow> string" where
  "entries_to_graph es =
     join [nl] ([''graph TD'', ''  TITLE[MCP Tool Registry]''] @ concat (map entry_lines es))"

definition generate_mermaid_registry_graph :: "tool_registry \<Rightarrow> string" where
  "generate_mermaid_registry_graph r = entries_to_graph (list_entries r)"

definition const_string :: "string \<Rightarrow> pyval" where
  "const_string s = PDict [(''type'', PStr ''string''), (''const'', PStr s)]"

definition entry_to_json_schema :: "tool_entry \<Rightarrow> pyval" where
  "entry_to_json_schema e = PDict
     [(''$schema'', PStr ''https://json-schema.org/draft/2020-12/schema''),
      (''title'', PStr (display_name e)),
      (''type'', PStr ''object''),
      (''properties'', PDict
        [(''tool_id'', const_string (tool_id e)),
         (''provider'', const_string (provider e)),
         (''permission'', PDict [(''type'', PStr ''string''),
            (''enum'', PList (map (PStr \<circ> tool_permission_value) [READ, WRITE, EXECUTE, CONFIRM])),
            (''default'', PStr (tool_permission_value (permission e)))]),
         (''permission_scopes'', PDict [(''type'', PStr ''array''),
            (''items'', PDict [(''type'', PStr ''string'')]),
            (''default'', PList (map PStr (permission_scopes e)))]),
         (''enabled'', PDict [(''type'', PStr ''boolean''), (''default'', PBool (enabled e))]),
         (''mode'', PDict [(''type'', PStr ''string''),
            (''enum'', PList (map (PStr \<circ> tool_mode_value) [LIVE, MOCK])),
            (''default'', PStr (tool_mode_value (mode e)))]),
         (''health_status'', PDict [(''type'', PStr ''string''),
            (''enum'', PList (map PStr [''unknown'', ''healthy'', ''degraded'', ''unreachable'']))])])]"

definition generate_json_schemas :: "tool_registry \<Rightarrow> (string, pyval) dict" where
  "generate_json_schemas r =
     fold (\<lambda>e. dict_set (tool_id e) (entry_to_json_schema e)) (list_entries r) []"

section \<open>Lemmas\<close>

text \<open>What the guard promises to let through, as one condition.\<close>

definition rules_allow :: "access_guard \<Rightarrow> string \<Rightarrow> bool" where
  "rules_allow g s \<longleftrightarrow> (\<forall>pat \<in> set (path_blocklist g). \<not> fnmatch s pat)
     \<and> (path_allowlist g = [] \<or> (\<exists>pat \<in> set (path_allowlist g). fnmatch s pat))"

definition path_allowed :: "resolver \<Rightarrow> (pyval \<Rightarrow> string) \<Rightarrow> access_guard \<Rightarrow> string option \<Rightarrow> bool" where
  "path_allowed rslv rp g t \<longleftrightarrow> (case t of None \<Rightarrow> True | Some raw \<Rightarrow>
     (\<exists>p. resolve_target_path rslv rp g raw = Inr (Inr p) \<and> rules_allow g (path_str p)))"

definition access_allowed ::
  "resolver \<Rightarrow> (pyval \<Rightarrow> string) \<Rightarrow> string \<Rightarrow> tool_permission \<Rightarrow> string option \<Rightarrow> access_guard \<Rightarrow> bool" where
  "access_allowed rslv rp tid req t g \<longleftrightarrow>
     (\<exists>e. dict_get (entries (g_registry g)) tid = Some e \<and> enabled e
        \<and> meets_permission (permission e) req \<and> path_allowed rslv rp g t)"

text \<open>A result with its effect on the guard: allowed and nothing recorded, or denied and exactly one
  violation recorded.\<close>

definition verdict :: "bool \<Rightarrow> access_guard \<Rightarrow> bool \<times> access_guard \<Rightarrow> bool" where
  "verdict ok g res \<longleftrightarrow>
     (if ok then res = (True, g)
      else fst res = False \<and> (\<exists>v. snd res = g\<lparr>violations := violations g @ [v]\<rparr>))"

lemma verdict_deny [simp]: "verdict ok g (False, deny t q a d g) \<longleftrightarrow> \<not> ok"
  by (auto simp: verdict_def deny_def)

lemma verdict_allow [simp]: "verdict ok g (True, g) \<longleftrightarrow> ok"
  by (auto simp: verdict_def)

lemma check_path_rules_verdict: "verdict (rules_allow g p) g (check_path_rules tid req e p g)"
  by (auto simp: check_path_rules_def rules_allow_def list_ex_iff)

lemma deny_registry [frame_simps]:
  "g_registry (deny t q a d g) = g_registry g"
  "block_on_violation (deny t q a d g) = block_on_violation g"
  by (simp_all add: deny_def)

lemma check_verdict:
  assumes "check rslv rp tid req t g = (Inr b, g')"
  shows "verdict (access_allowed rslv rp tid req t g) g (b, g')"
proof (cases "dict_get (entries (g_registry g)) tid")
  case None
  with assms show ?thesis by (auto simp: check_def get_entry_def access_allowed_def)
next
  case (Some e)
  show ?thesis
  proof (cases "enabled e \<and> meets_permission (permission e) req")
    case False
    with assms Some show ?thesis by (auto simp: check_def get_entry_def access_allowed_def split: if_splits)
  next
    case True
    show ?thesis
    proof (cases t)
      case None
      with assms Some True show ?thesis
        by (auto simp: check_def get_entry_def access_allowed_def path_allowed_def)
    next
      case (Some raw)
      show ?thesis
      proof (cases "\<exists>p. resolve_target_path rslv rp g raw = Inr (Inr p)")
        case p: True
        then obtain p where p: "resolve_target_path rslv rp g raw = Inr (Inr p)" by blast
        with assms True Some \<open>dict_get _ _ = Some e\<close>
        have "(b, g') = check_path_rules tid req e (path_str p) g"
          by (cases "check_path_rules tid req e (path_str p) g") (auto simp: check_def get_entry_def)
        with check_path_rules_verdict [of g "path_str p" tid req e] True Some p \<open>dict_get _ _ = Some e\<close>
        show ?thesis by (simp add: access_allowed_def path_allowed_def)
      next
        case False
        with assms True Some \<open>dict_get _ _ = Some e\<close> show ?thesis
          by (auto simp: check_def get_entry_def access_allowed_def path_allowed_def split: sum.splits)
      qed
    qed
  qed
qed

lemma check_raises_keeps: "check rslv rp tid req t g = (Inl e, g') \<Longrightarrow> g' = g"
  by (auto simp: check_def check_path_rules_def split: sum.splits option.splits if_splits)

text \<open>The components of a \<open>pathlib\<close> path are never empty, a single dot, or contain a slash.\<close>

definition path_clean :: "posix_path \<Rightarrow> bool" where
  "path_clean p \<longleftrightarrow> (\<forall>c \<in> set (comps p). c \<noteq> [] \<and> c \<noteq> ''.'' \<and> CHR ''/'' \<notin> set c)"

lemma resolve_target_inside:
  assumes "resolve_target_path rslv rp g raw = Inr (Inr p)" and "workspace_root g = Some wr"
    and "\<forall>a b. rslv a = Inr b \<longrightarrow> path_clean b"
  shows "\<exists>q. rslv (path_join wr (replace [CHR 0x5C] ''/'' raw)) = Inr q \<and> root q = root wr
           \<and> comps q = comps wr @ comps p \<and> root p = []"
proof -
  from assms(1,2) obtain q rel where q: "rslv (path_join wr (replace [CHR 0x5C] ''/'' raw)) = Inr q"
    and rel: "relative_to q wr = Some rel" and p: "p = pure_posix_path (path_str rel)"
    by (auto simp: resolve_target_path_def Let_def split: sum.splits option.splits)
  from rel have r: "root q = root wr" "comps q = comps wr @ comps rel" "root rel = []"
    by (simp_all add: relative_to_Some)
  from assms(3) q have "path_clean q" by blast
  with r have "\<forall>c \<in> set (comps rel). c \<noteq> [] \<and> c \<noteq> ''.'' \<and> CHR ''/'' \<notin> set c"
    by (auto simp: path_clean_def)
  then have "pure_posix_path (path_str \<lparr>root = [], comps = comps rel\<rparr>) = \<lparr>root = [], comps = comps rel\<rparr>"
    by (rule pure_posix_path_str)
  with r have "p = rel" by (cases rel) (simp add: p)
  with q r show ?thesis by blast
qed

lemma escape_mermaid_label_eq:
  "escape_mermaid_label s =
     concat (map (\<lambda>c. if c = CHR 0x22 then ''&quot;'' else if c = nl then '' '' else [c]) s)"
  unfolding escape_mermaid_label_def replace_char_concat by (induction s) auto

lemma label_chars: "c \<in> set (escape_mermaid_label s) \<Longrightarrow> c \<noteq> nl \<and> c \<noteq> CHR 0x22"
  by (auto simp: escape_mermaid_label_eq split: if_splits)

lemma safe_id_chars: "c \<in> set (safe_id s) \<Longrightarrow> c = CHR ''_'' \<or> c \<in> set s"
  by (auto simp: safe_id_def replace_char_map split: if_splits)

definition id_safe :: "string \<Rightarrow> bool" where
  "id_safe s \<longleftrightarrow> nl \<notin> set s \<and> CHR 0x22 \<notin> set s"

lemma permission_value_chars: "nl \<notin> set (tool_permission_value p) \<and> CHR 0x22 \<notin> set (tool_permission_value p)"
  by (cases p) auto

lemma count_list_notin: "x \<notin> set xs \<Longrightarrow> count_list xs x = 0"
  by simp

lemma entry_lines_safe:
  assumes "id_safe (tool_id e)" and "l \<in> set (entry_lines e)"
  shows "nl \<notin> set l \<and> count_list l (CHR 0x22) \<in> {0, 2}"
proof -
  have i: "nl \<notin> set (safe_id (tool_id e))" "CHR 0x22 \<notin> set (safe_id (tool_id e))"
    using assms(1) by (auto simp: id_safe_def dest: safe_id_chars)
  have l: "nl \<notin> set (escape_mermaid_label s)" "CHR 0x22 \<notin> set (escape_mermaid_label s)" for s
    using label_chars by blast+
  show ?thesis
    using assms(2) i l permission_value_chars [of "permission e"]
    by (cases "enabled e") (auto simp: entry_lines_def Let_def dquoted_def count_list_0_iff split: option.splits)
qed

section \<open>Properties\<close>

text \<open>\<open>check\<close> allows a call exactly when the tool is registered and enabled, its permission level
  covers the required one, and the target path resolves inside the workspace and passes the block
  and allow lists; an allowed check records nothing, and a denied one records exactly one
  violation and changes nothing else.\<close>

theorem check_spec:
  assumes "check rslv rp tid req t g = (Inr b, g')"
  shows "(b \<longleftrightarrow> access_allowed rslv rp tid req t g)
    \<and> (if b then g' = g else \<exists>v. g' = g\<lparr>violations := violations g @ [v]\<rparr>)"
  using check_verdict [OF assms] by (auto simp: verdict_def split: if_splits)

text \<open>C4. Whatever the file system does, an allowed target path denotes a place inside the
  workspace: the resolved path extends the workspace root, and the part below the root is what the
  block and allow lists have passed.\<close>

theorem workspace_containment:
  assumes "check rslv rp tid req (Some raw) g = (Inr True, g')" and "workspace_root g = Some wr"
    and "\<forall>a b. rslv a = Inr b \<longrightarrow> path_clean b"
  shows "\<exists>q cs. rslv (path_join wr (replace [CHR 0x5C] ''/'' raw)) = Inr q \<and> root q = root wr
      \<and> comps q = comps wr @ cs \<and> rules_allow g (path_str \<lparr>root = [], comps = cs\<rparr>)"
proof -
  from check_verdict [OF assms(1)] obtain p
    where p: "resolve_target_path rslv rp g raw = Inr (Inr p)" and ok: "rules_allow g (path_str p)"
    by (auto simp: verdict_def access_allowed_def path_allowed_def split: if_splits)
  from resolve_target_inside [OF p assms(2,3)] obtain q
    where "rslv (path_join wr (replace [CHR 0x5C] ''/'' raw)) = Inr q" "root q = root wr"
      "comps q = comps wr @ comps p" "root p = []" by blast
  moreover from \<open>root p = []\<close> have "p = \<lparr>root = [], comps = comps p\<rparr>" by (cases p) simp
  ultimately show ?thesis using ok by metis
qed

text \<open>A resolver for a file system without symbolic links.\<close>

definition lexical_resolve :: resolver where
  "lexical_resolve p =
     Inr \<lparr>root = root p, comps = filter (\<lambda>c. c \<noteq> [] \<and> c \<noteq> ''.'' \<and> CHR ''/'' \<notin> set c)
        (foldl (\<lambda>acc c. if c = ''..'' then butlast acc else acc @ [c]) [] (comps p))\<rparr>"

definition demo_guard :: access_guard where
  "demo_guard = \<lparr>g_registry = from_builtin_templates,
     workspace_root = Some \<lparr>root = ''/'', comps = [''work'', ''repo'']\<rparr>,
     path_allowlist = [''src/*''], path_blocklist = [''*.pem''], violations = [], block_on_violation = True\<rparr>"

theorem check_spec_witness:
  "(False \<longleftrightarrow> access_allowed lexical_resolve (\<lambda>_. ''r'') ''connector.jira'' EXECUTE None demo_guard)
    \<and> (if False then deny ''connector.jira'' EXECUTE WRITE
          ''insufficient permission: need execute, have write'' demo_guard = demo_guard
       else \<exists>v. deny ''connector.jira'' EXECUTE WRITE
          ''insufficient permission: need execute, have write'' demo_guard
        = demo_guard\<lparr>violations := violations demo_guard @ [v]\<rparr>)"
proof (rule check_spec)
  have "dict_get (entries from_builtin_templates) ''connector.jira''
     = Some (template_entry (template ''jira'' ''Jira'' [''JIRA_BASE_URL'', ''JIRA_API_TOKEN''] WRITE))"
    by code_simp
  then show "check lexical_resolve (\<lambda>_. ''r'') ''connector.jira'' EXECUTE None demo_guard =
    (Inr False, deny ''connector.jira'' EXECUTE WRITE
       ''insufficient permission: need execute, have write'' demo_guard)"
    by (simp add: check_def get_entry_def demo_guard_def template_entry_def template_def meets_permission_def)
qed

theorem workspace_containment_witness:
  "\<exists>q cs. lexical_resolve (path_join \<lparr>root = ''/'', comps = [''work'', ''repo'']\<rparr>
        (replace [CHR 0x5C] ''/'' ''lib/../src/main.py'')) = Inr q \<and> root q = ''/''
      \<and> comps q = [''work'', ''repo''] @ cs \<and> rules_allow demo_guard (path_str \<lparr>root = [], comps = cs\<rparr>)"
proof -
  have "check lexical_resolve (\<lambda>_. ''r'') ''connector.jira'' READ (Some ''lib/../src/main.py'') demo_guard
      = (Inr True, demo_guard)" by code_simp
  from workspace_containment [OF this, of "\<lparr>root = ''/'', comps = [''work'', ''repo'']\<rparr>"]
  show ?thesis by (auto simp: demo_guard_def lexical_resolve_def path_clean_def)
qed

text \<open>C25. A blocking guard refines the registry: a call that passes the check, and is confirmed where
  the tool asks for it, behaves exactly as \<open>ToolRegistry.invoke\<close>; any other call raises
  \<open>PermissionError\<close> with one violation recorded, the registry untouched, and no use of the executor.\<close>

theorem guard_invoke_refines:
  assumes "block_on_violation g" and "fst (check rslv (env_repr ev) tid req t g) = Inr b"
  shows "if access_allowed rslv (env_repr ev) tid req t g
            \<and> (permission (the (dict_get (entries (g_registry g)) tid)) = CONFIRM \<longrightarrow> conf)
         then guard_invoke rslv ev tid ps ex tr t req conf g
              = on_registry g (invoke ev tid ps ex tr conf None (g_registry g))
         else \<exists>msg v. \<forall>ex'. guard_invoke rslv ev tid ps ex' tr t req conf g
              = (Raises (PermissionError msg), g\<lparr>violations := violations g @ [v]\<rparr>)"
proof -
  obtain g' where c: "check rslv (env_repr ev) tid req t g = (Inr b, g')"
    using assms(2) by (metis prod.collapse)
  note v = check_verdict [OF c]
  show ?thesis
  proof (cases "access_allowed rslv (env_repr ev) tid req t g")
    case True
    with v have "b" "g' = g" by (auto simp: verdict_def)
    moreover from True obtain e where "dict_get (entries (g_registry g)) tid = Some e"
      by (auto simp: access_allowed_def)
    ultimately show ?thesis using True c assms(1)
      by (simp add: guard_invoke_def get_entry_def Let_def frame_simps) (auto simp: deny_def)
  next
    case False
    with v obtain w where "\<not> b" "g' = g\<lparr>violations := violations g @ [w]\<rparr>" by (auto simp: verdict_def)
    with False c assms(1) show ?thesis by (simp add: guard_invoke_def Let_def) blast
  qed
qed

theorem guard_invoke_refines_witness:
  "\<exists>msg v. \<forall>ex'. guard_invoke lexical_resolve demo_env ''connector.jira'' (PText ''x'') ex' None
        (Some ''src/../../secret'') READ True demo_guard
      = (Raises (PermissionError msg), demo_guard\<lparr>violations := violations demo_guard @ [v]\<rparr>)"
proof -
  let ?c = "check lexical_resolve (env_repr demo_env) ''connector.jira'' READ (Some ''src/../../secret'') demo_guard"
  have no: "fst ?c = Inr False" by code_simp
  then have "?c = (Inr False, snd ?c)" by (metis prod.collapse)
  then have "\<not> access_allowed lexical_resolve (env_repr demo_env) ''connector.jira'' READ
      (Some ''src/../../secret'') demo_guard"
    by (drule_tac check_verdict) (auto simp: verdict_def split: if_splits)
  with guard_invoke_refines [OF _ no, where ps = "PText ''x''" and tr = None and conf = True]
  show ?thesis by (simp add: demo_guard_def)
qed

text \<open>When no tool id holds a line break or a double quote, the diagram has exactly the lines it
  is meant to have, and no display name, provider or schema type closes its label: each line
  has no quote or the two around its label.\<close>

theorem mermaid_lines:
  assumes "\<forall>e \<in> set es. id_safe (tool_id e)"
  shows "split_char nl (entries_to_graph es)
           = [''graph TD'', ''  TITLE[MCP Tool Registry]''] @ concat (map entry_lines es)
     \<and> (\<forall>l \<in> set (split_char nl (entries_to_graph es)). count_list l (CHR 0x22) \<in> {0, 2})"
proof -
  have lines: "nl \<notin> set l \<and> count_list l (CHR 0x22) \<in> {0, 2}"
    if "l \<in> set ([''graph TD'', ''  TITLE[MCP Tool Registry]''] @ concat (map entry_lines es))" for l
    using that assms entry_lines_safe by fastforce
  then have "split_char nl (entries_to_graph es)
      = [''graph TD'', ''  TITLE[MCP Tool Registry]''] @ concat (map entry_lines es)"
    unfolding entries_to_graph_def by (intro split_join) auto
  with lines show ?thesis by simp
qed

theorem mermaid_lines_witness:
  "split_char nl (entries_to_graph [template_entry (template ''jira'' [CHR 0x22, nl] [] WRITE)])
     = [''graph TD'', ''  TITLE[MCP Tool Registry]'']
        @ concat (map entry_lines [template_entry (template ''jira'' [CHR 0x22, nl] [] WRITE)])
   \<and> (\<forall>l \<in> set (split_char nl (entries_to_graph [template_entry (template ''jira'' [CHR 0x22, nl] [] WRITE)])).
        count_list l (CHR 0x22) \<in> {0, 2})"
  by (rule mermaid_lines) code_simp

text \<open>The node identifier is not escaped: a line break in a tool id adds a line of the id's own.\<close>

lemma tool_id_breaks_graph:
  "''B[forged]'' \<in> set (split_char nl (entries_to_graph
      [(template_entry (template ''x'' ''X'' [] READ))\<lparr>tool_id := ''A'' @ [nl] @ ''B[forged]'' @ [nl] @ ''C''\<rparr>]))"
  by code_simp

end
