(* ===== verification/Shell_Tools.thy ===== *)
theory Shell_Tools
  imports Tool_Enforcement Py_Shlex
begin

text \<open>
  \<open>tool_registry/shell_tools.py\<close>: running a configured command behind the permission checks.
  \<open>subprocess.run\<close> is an argument (\<open>run\<close>): it completes, times out with the text it captured, or
  raises. The guard may wrap the registry the call works on (\<open>aliased\<close>) or another one.
\<close>

section \<open>Data\<close>

record shell_tool_spec =
  st_tool_id :: string
  st_display_name :: string
  st_command :: string
  st_args :: "string list"
  st_cwd :: "string option"
  st_timeout_seconds :: int

definition make_shell_tool_spec :: "shell_tool_spec \<Rightarrow> shell_tool_spec res" where
  "make_shell_tool_spec s =
     (if 1 \<le> st_timeout_seconds s \<and> st_timeout_seconds s \<le> 1800 then Inr s
      else Inl (ValueError ''timeout_seconds''))"

record shell_tool_result =
  exit_code :: int
  sr_stdout :: string
  sr_stderr :: string
  command_line :: string

text \<open>\<open>TimedOut out err\<close> carries the captured output where it is a \<open>str\<close>.\<close>

datatype proc_result = Completed int string string | TimedOut "string option" "string option" | ProcRaises py_exn

type_synonym runner = "string list \<Rightarrow> string \<Rightarrow> int \<Rightarrow> proc_result"

section \<open>Operations\<close>

definition render_arg :: "(pyval \<Rightarrow> string) \<Rightarrow> payload \<Rightarrow> string \<Rightarrow> string" where
  "render_arg rp ps arg = foldl (\<lambda>rendered (key, v). replace (''{{'' @ key @ ''}}'') (py_str rp v) rendered) arg ps"

definition build_command :: "(pyval \<Rightarrow> string) \<Rightarrow> shell_tool_spec \<Rightarrow> payload \<Rightarrow> string list" where
  "build_command rp spec ps = st_command spec # map (render_arg rp ps) (st_args spec)"

definition summarize_result :: "shell_tool_result \<Rightarrow> string" where
  "summarize_result r = join [nl]
     ([''command: '' @ command_line r, ''exit_code: '' @ int_str (exit_code r)]
      @ (if sr_stdout r \<noteq> [] then [''stdout: '' @ strip (sr_stdout r)] else [])
      @ (if sr_stderr r \<noteq> [] then [''stderr: '' @ strip (sr_stderr r)] else []))"

type_synonym shell_state = "tool_registry \<times> access_guard option"

definition guard_view :: "bool \<Rightarrow> tool_registry \<Rightarrow> access_guard \<Rightarrow> access_guard" where
  "guard_view aliased r g = (if aliased then g\<lparr>g_registry := r\<rparr> else g)"

text \<open>Every path that returns builds a result, logs it and returns both.\<close>

definition conclude ::
  "py_env \<Rightarrow> shell_tool_spec \<Rightarrow> payload \<Rightarrow> string option \<Rightarrow> bool \<Rightarrow> shell_tool_result \<Rightarrow> int \<Rightarrow> string option
    \<Rightarrow> shell_state \<Rightarrow> (shell_tool_result \<times> tool_call_record) res \<times> shell_state" where
  "conclude ev spec ps trace_id aliased result duration_ms error st =
     (let (rec, r') = record_call ev (st_tool_id spec) (PMap ps) (summarize_result result) duration_ms error trace_id (fst st)
      in (Inr (result, rec), (r', map_option (guard_view aliased r') (snd st))))"

definition refusal :: "string \<Rightarrow> string \<Rightarrow> shell_tool_result" where
  "refusal cl detail = \<lparr>exit_code = 126, sr_stdout = [], sr_stderr = detail, command_line = cl\<rparr>"

text \<open>The permission stage: the entry to run, a refusal with its logged error, or an exception.\<close>

datatype gate = Proceed tool_entry | Refuse string string | Fail py_exn

definition shell_gate ::
  "resolver \<Rightarrow> (pyval \<Rightarrow> string) \<Rightarrow> bool \<Rightarrow> shell_tool_spec \<Rightarrow> shell_state \<Rightarrow> gate \<times> shell_state" where
  "shell_gate rslv rp aliased spec st =
     (let r = fst st; tid = st_tool_id spec in
      case snd st of
        Some g \<Rightarrow>
          let target = (case st_cwd spec of None \<Rightarrow> None | Some c \<Rightarrow> if c = [] then None else Some c) in
          (case check rslv rp tid EXECUTE target (guard_view aliased r g) of
             (Inl e, g') \<Rightarrow> (Fail e, (r, Some g'))
           | (Inr False, g') \<Rightarrow>
               let detail = (if violations g' = [] then ''denied'' else pv_detail (last (violations g')))
               in (Refuse detail detail, (r, Some g'))
           | (Inr True, g') \<Rightarrow>
               ((case get_entry r tid of Inl e \<Rightarrow> Fail e | Inr entry \<Rightarrow> Proceed entry), (r, Some g')))
      | None \<Rightarrow>
          ((case get_entry r tid of
              Inl _ \<Rightarrow> Refuse (''unknown tool: '' @ tid) (''unknown tool: '' @ tid)
            | Inr entry \<Rightarrow>
                if \<not> enabled entry then Refuse ''tool is disabled'' ''tool is disabled''
                else if permission entry \<notin> {EXECUTE, CONFIRM} then
                  Refuse (''permission '' @ tool_permission_value (permission entry)
                            @ '' does not allow shell execution'') ''permission denied''
                else Proceed entry), st))"

definition nonempty_or :: "string option \<Rightarrow> string \<Rightarrow> string" where
  "nonempty_or s d = (case s of None \<Rightarrow> d | Some t \<Rightarrow> if t = [] then d else t)"

definition execute_shell_tool ::
  "resolver \<Rightarrow> posix_path \<Rightarrow> runner \<Rightarrow> py_env \<Rightarrow> shell_tool_spec \<Rightarrow> payload \<Rightarrow> string option \<Rightarrow> posix_path option
    \<Rightarrow> bool \<Rightarrow> bool \<Rightarrow> shell_state \<Rightarrow> (shell_tool_result \<times> tool_call_record) res \<times> shell_state" where
  "execute_shell_tool rslv getcwd run ev spec ps trace_id wroot confirmed aliased st =
     (let cmd = build_command (env_repr ev) spec ps;
          cl = shlex_join cmd;
          finish = conclude ev spec ps trace_id aliased
      in case shell_gate rslv (env_repr ev) aliased spec st of
           (Fail e, st') \<Rightarrow> (Inl e, st')
         | (Refuse detail err, st') \<Rightarrow> finish (refusal cl detail) 0 (Some err) st'
         | (Proceed entry, st') \<Rightarrow>
             if permission entry = CONFIRM \<and> \<not> confirmed then
               finish (refusal cl ''confirmation is required for this tool'') 0 (Some ''confirmation required'') st'
             else
               let cwd = (case st_cwd spec of
                            Some c \<Rightarrow> if c \<noteq> [] then pure_posix_path c else (case wroot of Some w \<Rightarrow> w | None \<Rightarrow> getcwd)
                          | None \<Rightarrow> (case wroot of Some w \<Rightarrow> w | None \<Rightarrow> getcwd))
               in case run cmd (path_str cwd) (st_timeout_seconds spec) of
                    ProcRaises e \<Rightarrow> (Inl e, st')
                  | TimedOut out err \<Rightarrow>
                      let detail = ''timed out after '' @ int_str (st_timeout_seconds spec) @ ''s''
                      in finish \<lparr>exit_code = 124, sr_stdout = (case out of None \<Rightarrow> [] | Some o' \<Rightarrow> o'),
                                 sr_stderr = nonempty_or err detail, command_line = cl\<rparr>
                           (env_elapsed_ms ev) (Some detail) st'
                  | Completed rc out err \<Rightarrow>
                      finish \<lparr>exit_code = rc, sr_stdout = out, sr_stderr = err, command_line = cl\<rparr>
                        (env_elapsed_ms ev)
                        (if rc = 0 then None else Some (''exit code '' @ int_str rc)) st')"

section \<open>Lemmas\<close>

text \<open>A call that returns has logged the record it returns, with an error exactly when the exit code is
  not zero, and reports the command line given.\<close>

definition logged :: "string \<Rightarrow> tool_registry \<Rightarrow> (shell_tool_result \<times> tool_call_record) res \<times> shell_state \<Rightarrow> bool" where
  "logged cl r res \<longleftrightarrow> (case res of
     (Inl e, st') \<Rightarrow> fst st' = r
   | (Inr (result, rec), st') \<Rightarrow> fst st' = r\<lparr>call_records := call_records r @ [rec]\<rparr>
       \<and> command_line result = cl \<and> (cr_error rec = None \<longleftrightarrow> exit_code result = 0))"

lemma logged_conclude [simp]:
  "fst st = r \<Longrightarrow> logged cl r (conclude ev spec ps tr al result d err st)
     \<longleftrightarrow> command_line result = cl \<and> (err = None \<longleftrightarrow> exit_code result = 0)"
  by (auto simp: logged_def conclude_def record_call_def Let_def)

lemma logged_Inl [simp]: "fst st = r \<Longrightarrow> logged cl r (Inl e, st)"
  by (simp add: logged_def)

lemma shell_gate_registry: "fst (snd (shell_gate rslv rp al spec st)) = fst st"
  by (simp add: shell_gate_def Let_def split: option.splits prod.splits sum.splits bool.splits)

text \<open>What must hold for the command to be started.\<close>

definition shell_allowed ::
  "resolver \<Rightarrow> (pyval \<Rightarrow> string) \<Rightarrow> bool \<Rightarrow> shell_tool_spec \<Rightarrow> bool \<Rightarrow> shell_state \<Rightarrow> bool" where
  "shell_allowed rslv rp al spec confirmed st \<longleftrightarrow>
     (\<exists>e. dict_get (entries (fst st)) (st_tool_id spec) = Some e
        \<and> (permission e = CONFIRM \<longrightarrow> confirmed)
        \<and> (case snd st of
             None \<Rightarrow> enabled e \<and> permission e \<in> {EXECUTE, CONFIRM}
           | Some g \<Rightarrow> access_allowed rslv rp (st_tool_id spec) EXECUTE
               (case st_cwd spec of None \<Rightarrow> None | Some c \<Rightarrow> if c = [] then None else Some c) (guard_view al (fst st) g)))"

lemma gate_proceed:
  assumes "shell_gate rslv rp al spec st = (Proceed e, st')" and "permission e = CONFIRM \<longrightarrow> confirmed"
  shows "shell_allowed rslv rp al spec confirmed st"
proof (cases "snd st")
  case None
  with assms show ?thesis
    by (auto simp: shell_gate_def shell_allowed_def Let_def split: sum.splits if_splits)
next
  case (Some g)
  with assms obtain g' where c: "check rslv rp (st_tool_id spec) EXECUTE
      (case st_cwd spec of None \<Rightarrow> None | Some c \<Rightarrow> if c = [] then None else Some c) (guard_view al (fst st) g) = (Inr True, g')"
    and e: "get_entry (fst st) (st_tool_id spec) = Inr e"
    by (auto simp: shell_gate_def Let_def split: sum.splits prod.splits bool.splits)
  from check_verdict [OF c] e assms(2) Some show ?thesis
    by (auto simp: shell_allowed_def verdict_def split: if_splits)
qed

lemma shell_logged:
  "logged (shlex_join (build_command (env_repr ev) spec ps)) (fst st)
     (execute_shell_tool rslv gc run ev spec ps tr w conf al st)"
proof -
  let ?g = "shell_gate rslv (env_repr ev) al spec st"
  have "fst (snd ?g) = fst st" by (rule shell_gate_registry)
  then show ?thesis
    by (cases ?g; cases "fst ?g")
      (auto simp: execute_shell_tool_def Let_def refusal_def split: proc_result.splits)
qed

text \<open>Refused calls do not depend on the process runner.\<close>

lemma execute_refused:
  assumes "\<not> shell_allowed rslv (env_repr ev) al spec conf st"
  shows "(\<exists>result rec st'. execute_shell_tool rslv gc run ev spec ps tr w conf al st = (Inr (result, rec), st')
            \<and> exit_code result = 126)
         \<or> (\<exists>e st'. execute_shell_tool rslv gc run ev spec ps tr w conf al st = (Inl e, st'))"
    and "execute_shell_tool rslv gc run ev spec ps tr w conf al st
         = execute_shell_tool rslv gc run' ev spec ps tr w conf al st"
proof -
  let ?g = "shell_gate rslv (env_repr ev) al spec st"
  have p: "permission e = CONFIRM \<and> \<not> conf" if "?g = (Proceed e, st')" for e st'
    using assms gate_proceed that by blast
  show "execute_shell_tool rslv gc run ev spec ps tr w conf al st
         = execute_shell_tool rslv gc run' ev spec ps tr w conf al st"
    using p by (cases ?g; cases "fst ?g") (auto simp: execute_shell_tool_def Let_def)
  show "(\<exists>result rec st'. execute_shell_tool rslv gc run ev spec ps tr w conf al st = (Inr (result, rec), st')
            \<and> exit_code result = 126)
         \<or> (\<exists>e st'. execute_shell_tool rslv gc run ev spec ps tr w conf al st = (Inl e, st'))"
    using p by (cases ?g; cases "fst ?g")
      (auto simp: execute_shell_tool_def Let_def conclude_def refusal_def split: prod.splits)
qed

section \<open>Properties\<close>

text \<open>No process is started for a tool that is unknown, disabled, not granted shell execution by
  the guard or the entry, or waiting for confirmation: the result is the same for every process
  runner, and if the call returns, its exit code is 126.\<close>

theorem shell_refused_not_started:
  assumes "\<not> shell_allowed rslv (env_repr ev) al spec conf st"
  shows "(\<forall>run'. execute_shell_tool rslv gc run' ev spec ps tr w conf al st
                = execute_shell_tool rslv gc run ev spec ps tr w conf al st)
     \<and> ((\<exists>result rec st'. execute_shell_tool rslv gc run ev spec ps tr w conf al st = (Inr (result, rec), st')
            \<and> exit_code result = 126)
        \<or> (\<exists>e st'. execute_shell_tool rslv gc run ev spec ps tr w conf al st = (Inl e, st')))"
  using execute_refused [OF assms] by blast

definition demo_spec :: shell_tool_spec where
  "demo_spec = \<lparr>st_tool_id = ''connector.github'', st_display_name = ''GitHub'', st_command = ''gh'',
     st_args = [''pr'', ''{{id}}''], st_cwd = None, st_timeout_seconds = 120\<rparr>"

theorem shell_refused_not_started_witness:
  "(\<forall>run'. execute_shell_tool lexical_resolve \<lparr>root = ''/'', comps = []\<rparr> run' demo_env demo_spec [] None None False True (from_builtin_templates, None)
       = execute_shell_tool lexical_resolve \<lparr>root = ''/'', comps = []\<rparr> (\<lambda>_ _ _. Completed 0 [] []) demo_env demo_spec [] None None False True (from_builtin_templates, None))
   \<and> ((\<exists>result rec st'. execute_shell_tool lexical_resolve \<lparr>root = ''/'', comps = []\<rparr> (\<lambda>_ _ _. Completed 0 [] []) demo_env demo_spec [] None None False True (from_builtin_templates, None)
         = (Inr (result, rec), st') \<and> exit_code result = 126)
      \<or> (\<exists>e st'. execute_shell_tool lexical_resolve \<lparr>root = ''/'', comps = []\<rparr> (\<lambda>_ _ _. Completed 0 [] []) demo_env demo_spec [] None None False True (from_builtin_templates, None)
         = (Inl e, st')))"
proof (rule shell_refused_not_started)
  have "dict_get (entries from_builtin_templates) ''connector.github''
    = Some (template_entry (template ''github'' ''GitHub'' [''GITHUB_TOKEN''] CONFIRM))" by code_simp
  then show "\<not> shell_allowed lexical_resolve (env_repr demo_env) True demo_spec False (from_builtin_templates, None)"
    by (simp add: shell_allowed_def demo_spec_def template_entry_def template_def)
qed

text \<open>Every shell call that returns has appended exactly the record it returns, with an error
  exactly when the exit code is not zero; and the reported command line, read back by
  \<open>shlex.split\<close>, is the program with one word for each configured argument, so no parameter value
  adds, removes or splits an argument.\<close>

theorem shell_result_logged:
  assumes "execute_shell_tool rslv gc run ev spec ps tr w conf al st = (Inr (result, rec), st')"
  shows "call_records (fst st') = call_records (fst st) @ [rec]
     \<and> (cr_error rec = None \<longleftrightarrow> exit_code result = 0)
     \<and> (\<exists>rendered. shlex_split (command_line result) = Inr (st_command spec # rendered)
          \<and> length rendered = length (st_args spec))"
  using shell_logged [of ev spec ps st rslv gc run tr w conf al] assms
  by (simp add: logged_def shlex_split_join build_command_def)

definition demo_shell_registry :: tool_registry where
  "demo_shell_registry = snd (set_permission ''connector.github'' EXECUTE from_builtin_templates)"

definition demo_shell_run :: "(shell_tool_result \<times> tool_call_record) res \<times> shell_state" where
  "demo_shell_run = execute_shell_tool lexical_resolve \<lparr>root = ''/'', comps = []\<rparr> (\<lambda>_ _ _. Completed 1 ''out'' [])
      demo_env demo_spec [(''id'', PStr ''1; rm -rf /'')] None None False True (demo_shell_registry, None)"

theorem shell_result_logged_witness:
  "\<exists>result rec st'. demo_shell_run = (Inr (result, rec), st')
     \<and> call_records (fst st') = call_records demo_shell_registry @ [rec] \<and> (cr_error rec = None \<longleftrightarrow> exit_code result = 0)
     \<and> (\<exists>rendered. shlex_split (command_line result) = Inr (''gh'' # rendered) \<and> length rendered = 2)"
proof -
  have "\<not> isl (fst demo_shell_run)" by code_simp
  then obtain result rec st' where run: "demo_shell_run = (Inr (result, rec), st')"
    by (metis prod.collapse sum.collapse(2))
  from shell_result_logged [OF run [unfolded demo_shell_run_def]]
  have "call_records (fst st') = call_records demo_shell_registry @ [rec]
     \<and> (cr_error rec = None \<longleftrightarrow> exit_code result = 0)
     \<and> (\<exists>rendered. shlex_split (command_line result) = Inr (''gh'' # rendered) \<and> length rendered = 2)"
    by (simp add: demo_spec_def numeral_2_eq_2)
  with run show ?thesis by (intro exI [of _ result] exI [of _ rec] exI [of _ "st'"]) (simp add: numeral_2_eq_2)
qed

end
