(* ===== verification/Audit_Schema.thy ===== *)
theory Audit_Schema
  imports Py_Json "HOL-Library.List_Lexorder" "HOL-Library.Char_ord"
begin

text \<open>
  \<open>audit/schema.py\<close>: audit events, the ordered timeline, the JSONL and CSV exports and the evidence
  pack. A \<open>datetime\<close> is its microseconds since 1970 (of the instant when it is aware, of the local
  reading when it is naive) and its UTC offset in seconds, if it has one. Comparing an aware with a
  naive one raises \<open>TypeError\<close>. \<open>csv.DictWriter\<close> is modelled with the dialect the code uses.
\<close>

section \<open>Datetimes\<close>

record timestamp =
  ts_micros :: int
  ts_offset :: "int option"

definition ts_aware :: "timestamp \<Rightarrow> bool" where
  "ts_aware t \<longleftrightarrow> ts_offset t \<noteq> None"

fun pad_zeros :: "nat \<Rightarrow> string \<Rightarrow> string" where
  "pad_zeros n s = replicate (n - length s) (CHR ''0'') @ s"

definition zfill :: "nat \<Rightarrow> int \<Rightarrow> string" where
  "zfill n i = pad_zeros n (int_str i)"

text \<open>Year, month and day of a day number counted from 1970-01-01, in the Gregorian calendar.\<close>

definition civil_of_days :: "int \<Rightarrow> int \<times> int \<times> int" where
  "civil_of_days days =
     (let z = days + 719468; era = z div 146097; doe = z mod 146097;
          yoe = (doe - doe div 1460 + doe div 36524 - doe div 146096) div 365;
          doy = doe - (365 * yoe + yoe div 4 - yoe div 100);
          mp = (5 * doy + 2) div 153; d = doy - (153 * mp + 2) div 5 + 1;
          m = (if mp < 10 then mp + 3 else mp - 9)
      in (yoe + era * 400 + (if m \<le> 2 then 1 else 0), m, d))"

definition iso_offset :: "int \<Rightarrow> string" where
  "iso_offset off =
     (let a = \<bar>off\<bar> in (if off < 0 then ''-'' else ''+'') @ zfill 2 (a div 3600) @ '':'' @ zfill 2 (a div 60 mod 60)
        @ (if a mod 60 = 0 then [] else '':'' @ zfill 2 (a mod 60)))"

definition isoformat :: "timestamp \<Rightarrow> string" where
  "isoformat t =
     (let loc = ts_micros t + (case ts_offset t of None \<Rightarrow> 0 | Some o' \<Rightarrow> o' * 1000000);
          us = loc mod 1000000; secs = loc div 1000000; s = secs mod 86400;
          (y, m, d) = civil_of_days (secs div 86400)
      in zfill 4 y @ ''-'' @ zfill 2 m @ ''-'' @ zfill 2 d @ ''T'' @ zfill 2 (s div 3600) @ '':''
         @ zfill 2 (s div 60 mod 60) @ '':'' @ zfill 2 (s mod 60)
         @ (if us = 0 then [] else ''.'' @ zfill 6 us)
         @ (case ts_offset t of None \<Rightarrow> [] | Some o' \<Rightarrow> iso_offset o'))"

section \<open>Events\<close>

datatype audit_event_type =
    TASK_CREATED | USER_MESSAGE | MODEL_RESPONSE | COMMAND_RUN | TEST_RESULT | APPROVAL_REQUESTED
  | APPROVAL_DECISION | MODEL | COMMAND | FILE_CHANGE | TOOL_CALL | VERIFICATION | REPORT

fun audit_event_type_value :: "audit_event_type \<Rightarrow> string" where
  "audit_event_type_value TASK_CREATED = ''task_created''"
| "audit_event_type_value USER_MESSAGE = ''user_message''"
| "audit_event_type_value MODEL_RESPONSE = ''model_response''"
| "audit_event_type_value COMMAND_RUN = ''command_run''"
| "audit_event_type_value TEST_RESULT = ''test_result''"
| "audit_event_type_value APPROVAL_REQUESTED = ''approval_requested''"
| "audit_event_type_value APPROVAL_DECISION = ''approval_decision''"
| "audit_event_type_value MODEL = ''model''"
| "audit_event_type_value COMMAND = ''command''"
| "audit_event_type_value FILE_CHANGE = ''file_change''"
| "audit_event_type_value TOOL_CALL = ''tool_call''"
| "audit_event_type_value VERIFICATION = ''verification''"
| "audit_event_type_value REPORT = ''report''"

record audit_event =
  ae_trace_id :: string
  ae_task_id :: "string option"
  ae_event_type :: audit_event_type
  ae_phase :: "string option"
  ae_timestamp :: timestamp
  ae_summary :: string
  ae_payload :: payload
  ae_duration_ms :: "int option"
  ae_cost_usd :: "rat option"

definition str_or_empty :: "string option \<Rightarrow> string" where
  "str_or_empty s = (case s of None \<Rightarrow> [] | Some t \<Rightarrow> t)"

text \<open>\<open>duration_ms or ''\<close> is the empty string for zero as well.\<close>

definition event_dump_for_export :: "audit_event \<Rightarrow> payload" where
  "event_dump_for_export e =
     [(''trace_id'', PStr (ae_trace_id e)),
      (''task_id'', PStr (str_or_empty (ae_task_id e))),
      (''event_type'', PStr (audit_event_type_value (ae_event_type e))),
      (''phase'', PStr (str_or_empty (ae_phase e))),
      (''timestamp'', PStr (isoformat (ae_timestamp e))),
      (''summary'', PStr (ae_summary e)),
      (''duration_ms'', (case ae_duration_ms e of None \<Rightarrow> PStr [] | Some d \<Rightarrow> if d = 0 then PStr [] else PInt d)),
      (''cost_usd'', (case ae_cost_usd e of None \<Rightarrow> PStr [] | Some c \<Rightarrow> PFloat c)),
      (''payload'', PDict (ae_payload e))]"

section \<open>Ordering and exports\<close>

text \<open>Sorting compares an aware with a naive timestamp as soon as both occur, and then raises.\<close>

definition ordered_timeline :: "audit_event list \<Rightarrow> audit_event list res" where
  "ordered_timeline es =
     (if list_ex (ts_aware \<circ> ae_timestamp) es \<and> list_ex (Not \<circ> ts_aware \<circ> ae_timestamp) es
      then Inl (TypeError ''can't compare offset-naive and offset-aware datetimes'')
      else Inr (py_sorted (ts_micros \<circ> ae_timestamp) es))"

definition export_audit_events_jsonl :: "(pyval \<Rightarrow> string) \<Rightarrow> audit_event list \<Rightarrow> string res" where
  "export_audit_events_jsonl rp es =
     (case ordered_timeline es of
        Inl x \<Rightarrow> Inl x
      | Inr timeline \<Rightarrow> Inr (join [nl] (map (\<lambda>e. json_dumps rp (PDict (event_dump_for_export e))) timeline)))"

definition CSV_FORMULA_PREFIXES :: "char list" where
  "CSV_FORMULA_PREFIXES = [CHR ''='', CHR ''+'', CHR ''-'', CHR ''@'', CHR 0x09, CHR 0x0D]"

fun sanitize_csv_cell :: "pyval \<Rightarrow> pyval" where
  "sanitize_csv_cell (PStr s) =
     (if s \<noteq> [] \<and> hd s \<in> set CSV_FORMULA_PREFIXES then PStr (CHR 0x27 # s) else PStr s)"
| "sanitize_csv_cell v = v"

text \<open>The writer: comma, double quote, minimal quoting, rows ended by CR LF.\<close>

definition csv_special :: "char \<Rightarrow> bool" where
  "csv_special c \<longleftrightarrow> c \<in> {CHR '','', CHR 0x22, CHR 0x0D, CHR 0x0A}"

definition csv_cell :: "string \<Rightarrow> string" where
  "csv_cell s =
     (if list_ex csv_special s
      then [CHR 0x22] @ concat (map (\<lambda>c. if c = CHR 0x22 then [CHR 0x22, CHR 0x22] else [c]) s) @ [CHR 0x22]
      else s)"

definition csv_row :: "string list \<Rightarrow> string" where
  "csv_row cells = join '','' (map csv_cell cells) @ [CHR 0x0D, CHR 0x0A]"

definition csv_fieldnames :: "string list" where
  "csv_fieldnames = [''trace_id'', ''task_id'', ''event_type'', ''phase'', ''timestamp'', ''summary'',
     ''duration_ms'', ''cost_usd'', ''payload'']"

definition csv_event_row :: "(pyval \<Rightarrow> string) \<Rightarrow> audit_event \<Rightarrow> payload" where
  "csv_event_row rp e =
     (let row = event_dump_for_export e;
          row' = dict_set ''payload'' (PStr (json_dumps rp (PDict (ae_payload e)))) row
      in map (\<lambda>(k, v). (k, sanitize_csv_cell v)) row')"

definition csv_cells :: "(pyval \<Rightarrow> string) \<Rightarrow> payload \<Rightarrow> string list" where
  "csv_cells rp row = map (\<lambda>k. py_str rp (the (dict_get row k))) csv_fieldnames"

definition export_audit_events_csv :: "(pyval \<Rightarrow> string) \<Rightarrow> audit_event list \<Rightarrow> string res" where
  "export_audit_events_csv rp es =
     (case ordered_timeline es of
        Inl x \<Rightarrow> Inl x
      | Inr timeline \<Rightarrow> Inr (concat (csv_row csv_fieldnames # map (\<lambda>e. csv_row (csv_cells rp (csv_event_row rp e))) timeline)))"

section \<open>Evidence pack\<close>

record task_evidence_pack =
  ep_task_id :: string
  ep_generated_at :: timestamp
  event_count :: int
  event_types :: "string list"
  audit_jsonl :: string
  first_event_at :: "timestamp option"
  last_event_at :: "timestamp option"

definition iso_or_empty :: "timestamp option \<Rightarrow> pyval" where
  "iso_or_empty t = PStr (case t of None \<Rightarrow> [] | Some x \<Rightarrow> isoformat x)"

definition pack_dump_for_export :: "task_evidence_pack \<Rightarrow> payload" where
  "pack_dump_for_export p =
     [(''task_id'', PStr (ep_task_id p)), (''generated_at'', PStr (isoformat (ep_generated_at p))),
      (''event_count'', PInt (event_count p)), (''event_types'', PList (map PStr (event_types p))),
      (''first_event_at'', iso_or_empty (first_event_at p)),
      (''last_event_at'', iso_or_empty (last_event_at p)),
      (''audit_jsonl'', PStr (audit_jsonl p))]"

definition build_task_evidence_pack ::
  "(pyval \<Rightarrow> string) \<Rightarrow> timestamp \<Rightarrow> audit_event list \<Rightarrow> string option \<Rightarrow> task_evidence_pack res" where
  "build_task_evidence_pack rp now es task_id =
     (case ordered_timeline es of
        Inl x \<Rightarrow> Inl x
      | Inr timeline \<Rightarrow>
        let given = str_or_empty task_id;
            inferred = (if given \<noteq> [] then given
                        else case filter (\<lambda>t. t \<noteq> []) (map (str_or_empty \<circ> ae_task_id) timeline) of
                               [] \<Rightarrow> [] | t # _ \<Rightarrow> t)
        in case export_audit_events_jsonl rp timeline of
             Inl x \<Rightarrow> Inl x
           | Inr text \<Rightarrow> Inr
               \<lparr>ep_task_id = inferred, ep_generated_at = now, event_count = int (length timeline),
                event_types = sort (remdups (map (audit_event_type_value \<circ> ae_event_type) timeline)),
                audit_jsonl = text,
                first_event_at = (if timeline = [] then None else Some (ae_timestamp (hd timeline))),
                last_event_at = (if timeline = [] then None else Some (ae_timestamp (last timeline)))\<rparr>)"

section \<open>Reading a CSV text\<close>

text \<open>A reader for the same dialect: what a spreadsheet sees.\<close>

datatype csv_mode = Plain | Quoted | QuoteSeen

function csv_read :: "csv_mode \<Rightarrow> string \<Rightarrow> string list \<Rightarrow> string \<Rightarrow> string list list" where
  "csv_read m cell row [] = (if m = Plain \<and> cell = [] \<and> row = [] then [] else [row @ [cell]])"
| "csv_read m cell row (c # cs) =
     (if m = Quoted then
        (if c = CHR 0x22 then csv_read QuoteSeen cell row cs else csv_read Quoted (cell @ [c]) row cs)
      else if c = CHR 0x22 \<and> m = QuoteSeen then csv_read Quoted (cell @ [c]) row cs
      else if c = CHR 0x22 \<and> cell = [] then csv_read Quoted [] row cs
      else if c = CHR '','' then csv_read Plain [] (row @ [cell]) cs
      else if c = CHR 0x0D \<and> cs \<noteq> [] \<and> hd cs = CHR 0x0A then (row @ [cell]) # csv_read Plain [] [] (tl cs)
      else csv_read Plain (cell @ [c]) row cs)"
  by pat_completeness auto
termination
  by (relation "measure (\<lambda>(m, cell, row, s). length s)") auto

definition csv_rows :: "string \<Rightarrow> string list list" where
  "csv_rows s = csv_read Plain [] [] s"

section \<open>Lemmas\<close>

lemma ordered_timeline_Inr:
  "ordered_timeline es = Inr ts \<longleftrightarrow>
     (\<forall>a \<in> set es. \<forall>b \<in> set es. ts_aware (ae_timestamp a) = ts_aware (ae_timestamp b))
     \<and> ts = sort_key (ts_micros \<circ> ae_timestamp) es"
  by (auto simp: ordered_timeline_def list_ex_iff)

lemma ordered_timeline_idem: "ordered_timeline es = Inr ts \<Longrightarrow> ordered_timeline ts = Inr ts"
  by (auto simp: ordered_timeline_def list_ex_iff split: if_splits)

lemma csv_read_quoted:
  "csv_read Quoted cell row (concat (map (\<lambda>c. if c = CHR 0x22 then [CHR 0x22, CHR 0x22] else [c]) s) @ CHR 0x22 # rest)
     = csv_read QuoteSeen (cell @ s) row rest"
  by (induction s arbitrary: cell) auto

lemma csv_read_plain:
  "\<not> list_ex csv_special s \<Longrightarrow> csv_read Plain cell row (s @ rest) = csv_read Plain (cell @ s) row rest"
  by (induction s arbitrary: cell) (auto simp: csv_special_def)

text \<open>After a written cell the reader holds that cell.\<close>

lemma csv_read_cell:
  "csv_read Plain [] row (csv_cell s @ rest)
     = csv_read (if list_ex csv_special s then QuoteSeen else Plain) s row rest"
  by (simp add: csv_cell_def csv_read_quoted csv_read_plain)

lemma csv_read_comma: "m \<noteq> Quoted \<Longrightarrow> csv_read m cell row (CHR '','' # rest) = csv_read Plain [] (row @ [cell]) rest"
  by simp

lemma csv_read_eol:
  "m \<noteq> Quoted \<Longrightarrow> csv_read m cell row (CHR 0x0D # CHR 0x0A # rest) = (row @ [cell]) # csv_read Plain [] [] rest"
  by simp

lemma csv_read_row:
  "cells \<noteq> [] \<Longrightarrow> csv_read Plain [] row (csv_row cells @ rest) = (row @ cells) # csv_read Plain [] [] rest"
proof (induction cells arbitrary: row)
  case Nil
  then show ?case by simp
next
  case (Cons c cs)
  show ?case
  proof (cases cs)
    case Nil
    then show ?thesis by (simp add: csv_row_def csv_read_cell csv_read_eol del: csv_read.simps)
  next
    case (Cons d ds)
    with Cons.IH [of "row @ [c]"] show ?thesis
      by (simp add: csv_row_def csv_read_cell csv_read_comma del: csv_read.simps)
  qed
qed

lemma csv_rows_concat: "\<forall>r \<in> set rs. r \<noteq> [] \<Longrightarrow> csv_rows (concat (map csv_row rs)) = rs"
  unfolding csv_rows_def by (induction rs) (auto simp: csv_read_row)

lemma csv_cells_ne [simp]: "csv_cells rp row \<noteq> []"
  by (simp add: csv_cells_def csv_fieldnames_def)

definition formula_start :: "string \<Rightarrow> bool" where
  "formula_start s \<longleftrightarrow> s \<noteq> [] \<and> hd s \<in> set CSV_FORMULA_PREFIXES"

lemma sanitize_not_formula: "\<not> formula_start (py_str rp (sanitize_csv_cell (PStr s)))"
  by (simp add: formula_start_def CSV_FORMULA_PREFIXES_def)

lemma csv_cells_eq:
  "csv_cells rp (csv_event_row rp e) = map (\<lambda>v. py_str rp (sanitize_csv_cell v))
     [PStr (ae_trace_id e), PStr (str_or_empty (ae_task_id e)), PStr (audit_event_type_value (ae_event_type e)),
      PStr (str_or_empty (ae_phase e)), PStr (isoformat (ae_timestamp e)), PStr (ae_summary e),
      (case ae_duration_ms e of None \<Rightarrow> PStr [] | Some d \<Rightarrow> if d = 0 then PStr [] else PInt d),
      (case ae_cost_usd e of None \<Rightarrow> PStr [] | Some c \<Rightarrow> PFloat c),
      PStr (json_dumps rp (PDict (ae_payload e)))]"
  by (simp add: csv_cells_def csv_event_row_def csv_fieldnames_def event_dump_for_export_def Let_def
      del: sanitize_csv_cell.simps)

lemma last_sorted_ge: "sorted (map f xs) \<Longrightarrow> x \<in> set xs \<Longrightarrow> f x \<le> f (last xs)"
  by (induction xs) (auto split: if_splits)

lemma hd_sorted_le: "sorted (map f xs) \<Longrightarrow> x \<in> set xs \<Longrightarrow> f (hd xs) \<le> f x"
  by (cases xs) auto

lemma pack_Inr:
  assumes "ordered_timeline es = Inr ts"
  shows "\<exists>p. build_task_evidence_pack rp now es task = Inr p \<and> event_count p = int (length ts)
     \<and> event_types p = sort (remdups (map (audit_event_type_value \<circ> ae_event_type) ts))
     \<and> first_event_at p = (if ts = [] then None else Some (ae_timestamp (hd ts)))
     \<and> last_event_at p = (if ts = [] then None else Some (ae_timestamp (last ts)))
     \<and> export_audit_events_jsonl rp es = Inr (audit_jsonl p)"
  using assms ordered_timeline_idem [OF assms]
  by (simp add: build_task_evidence_pack_def Let_def export_audit_events_jsonl_def)

lemma jsonl_lines:
  assumes "one_line_repr rp" and "export_audit_events_jsonl rp es = Inr text" and "es \<noteq> []"
  shows "split_char nl text = map (\<lambda>e. json_dumps rp (PDict (event_dump_for_export e)))
           (sort_key (ts_micros \<circ> ae_timestamp) es)"
proof -
  from assms(2) have eq: "text = join [nl] (map (\<lambda>e. json_dumps rp (PDict (event_dump_for_export e)))
      (sort_key (ts_micros \<circ> ae_timestamp) es))"
    by (auto simp: export_audit_events_jsonl_def ordered_timeline_def split: if_splits)
  show ?thesis
    unfolding eq using json_dumps_no_nl [OF assms(1)] assms(3)
    by (intro split_join) (auto dest: arg_cong [where f = length] simp del: json_dumps.simps)
qed

section \<open>Properties\<close>

text \<open>The CSV export loses nothing and cannot be broken out of: reading it back gives the header
  and one row of nine cells for each event, in timestamp order, each text cell exactly its
  sanitised value, and no text cell starts like a formula.\<close>

theorem csv_export_read_back:
  assumes "export_audit_events_csv rp es = Inr text"
  shows "\<exists>ts. ordered_timeline es = Inr ts
     \<and> csv_rows text = csv_fieldnames # map (\<lambda>e. csv_cells rp (csv_event_row rp e)) ts
     \<and> (\<forall>e \<in> set ts. \<forall>i \<in> {0, 1, 2, 3, 4, 5, 8}. \<not> formula_start (csv_cells rp (csv_event_row rp e) ! i))"
proof -
  from assms obtain ts where ts: "ordered_timeline es = Inr ts"
    and eq: "text = concat (map csv_row (csv_fieldnames # map (\<lambda>e. csv_cells rp (csv_event_row rp e)) ts))"
    by (auto simp: export_audit_events_csv_def o_def split: sum.splits)
  have "csv_rows text = csv_fieldnames # map (\<lambda>e. csv_cells rp (csv_event_row rp e)) ts"
    unfolding eq by (rule csv_rows_concat) (auto simp: csv_fieldnames_def)
  moreover have "\<not> formula_start (csv_cells rp (csv_event_row rp e) ! i)" if "i \<in> {0, 1, 2, 3, 4, 5, 8}" for e i
    using that unfolding csv_cells_eq
    by (elim insertE emptyE) (simp_all add: sanitize_not_formula del: sanitize_csv_cell.simps py_str.simps)
  ultimately show ?thesis using ts by blast
qed

definition demo_event :: "int \<Rightarrow> string \<Rightarrow> audit_event" where
  "demo_event t s = \<lparr>ae_trace_id = ''t1'', ae_task_id = None, ae_event_type = REPORT, ae_phase = None,
     ae_timestamp = \<lparr>ts_micros = t, ts_offset = Some 0\<rparr>, ae_summary = s, ae_payload = [],
     ae_duration_ms = None, ae_cost_usd = None\<rparr>"

definition demo_csv :: string where
  "demo_csv = (case export_audit_events_csv (\<lambda>_. []) [demo_event 5 ''=1+1'', demo_event 0 ''a,b''] of Inr s \<Rightarrow> s)"

theorem csv_export_read_back_witness:
  "\<exists>ts. ordered_timeline [demo_event 5 ''=1+1'', demo_event 0 ''a,b''] = Inr ts
     \<and> csv_rows demo_csv = csv_fieldnames # map (\<lambda>e. csv_cells (\<lambda>_. []) (csv_event_row (\<lambda>_. []) e)) ts
     \<and> (\<forall>e \<in> set ts. \<forall>i \<in> {0, 1, 2, 3, 4, 5, 8}.
          \<not> formula_start (csv_cells (\<lambda>_. []) (csv_event_row (\<lambda>_. []) e) ! i))"
  by (rule csv_export_read_back) (simp add: demo_csv_def export_audit_events_csv_def ordered_timeline_def
      demo_event_def ts_aware_def)

text \<open>The JSONL export has exactly one line for each event, in timestamp order and with events of
  equal time in their given order: the n-th line is the n-th event's object.\<close>

theorem jsonl_one_line_per_event:
  assumes "one_line_repr rp" and "export_audit_events_jsonl rp es = Inr text" and "es \<noteq> []"
  shows "split_char nl text = map (\<lambda>e. json_dumps rp (PDict (event_dump_for_export e)))
           (sort_key (ts_micros \<circ> ae_timestamp) es)"
  by (rule jsonl_lines [OF assms])

theorem jsonl_one_line_per_event_witness:
  "split_char nl (case export_audit_events_jsonl (\<lambda>_. ''1.5'') [demo_event 5 [nl], demo_event 0 ''x''] of Inr s \<Rightarrow> s)
     = map (\<lambda>e. json_dumps (\<lambda>_. ''1.5'') (PDict (event_dump_for_export e)))
         (sort_key (ts_micros \<circ> ae_timestamp) [demo_event 5 [nl], demo_event 0 ''x''])"
  by (rule jsonl_one_line_per_event)
    (auto simp: one_line_repr_def export_audit_events_jsonl_def ordered_timeline_def demo_event_def ts_aware_def)

text \<open>C39. Building an evidence pack fails exactly when naive and aware timestamps are mixed;
  otherwise it counts every event, lists each occurring event type once in alphabetical order, and
  its first and last times bound the times of all events.\<close>

theorem evidence_pack_spec:
  "case build_task_evidence_pack rp now es task of
     Inl _ \<Rightarrow> \<exists>a \<in> set es. \<exists>b \<in> set es. ts_aware (ae_timestamp a) \<noteq> ts_aware (ae_timestamp b)
   | Inr p \<Rightarrow> (\<forall>a \<in> set es. \<forall>b \<in> set es. ts_aware (ae_timestamp a) = ts_aware (ae_timestamp b))
       \<and> event_count p = int (length es)
       \<and> sorted (event_types p) \<and> distinct (event_types p)
       \<and> set (event_types p) = (audit_event_type_value \<circ> ae_event_type) ` set es
       \<and> (\<forall>e \<in> set es. \<exists>a b. first_event_at p = Some a \<and> last_event_at p = Some b
            \<and> ts_micros a \<le> ts_micros (ae_timestamp e) \<and> ts_micros (ae_timestamp e) \<le> ts_micros b)"
proof (cases "ordered_timeline es")
  case (Inl x)
  then show ?thesis
    by (auto simp: build_task_evidence_pack_def ordered_timeline_def list_ex_iff split: if_splits)
next
  case (Inr ts)
  then have ts: "ts = sort_key (ts_micros \<circ> ae_timestamp) es" by (auto simp: ordered_timeline_def split: if_splits)
  then have s: "sorted (map (ts_micros \<circ> ae_timestamp) ts)" by simp
  have ne: "ts \<noteq> []" if "e \<in> set es" for e using that ts by (metis empty_iff set_sort list.set(1))
  obtain p where p: "build_task_evidence_pack rp now es task = Inr p" "event_count p = int (length ts)"
      "event_types p = sort (remdups (map (audit_event_type_value \<circ> ae_event_type) ts))"
      "first_event_at p = (if ts = [] then None else Some (ae_timestamp (hd ts)))"
      "last_event_at p = (if ts = [] then None else Some (ae_timestamp (last ts)))"
    using pack_Inr [OF Inr, of rp now task] by blast
  have "ts_micros (ae_timestamp (hd ts)) \<le> ts_micros (ae_timestamp e)
      \<and> ts_micros (ae_timestamp e) \<le> ts_micros (ae_timestamp (last ts))" if "e \<in> set es" for e
    using that ts hd_sorted_le [OF s, of e] last_sorted_ge [OF s, of e] by simp
  then have rest: "event_count p = int (length es)
       \<and> sorted (event_types p) \<and> distinct (event_types p)
       \<and> set (event_types p) = (audit_event_type_value \<circ> ae_event_type) ` set es
       \<and> (\<forall>e \<in> set es. \<exists>a b. first_event_at p = Some a \<and> last_event_at p = Some b
            \<and> ts_micros a \<le> ts_micros (ae_timestamp e) \<and> ts_micros (ae_timestamp e) \<le> ts_micros b)"
    using p ne by (simp add: ts)
  have aware: "\<forall>a \<in> set es. \<forall>b \<in> set es. ts_aware (ae_timestamp a) = ts_aware (ae_timestamp b)"
    using Inr by (auto simp: ordered_timeline_def list_ex_iff split: if_splits)
  show ?thesis unfolding p(1) sum.case by (rule conjI [OF aware rest])
qed

theorem evidence_pack_spec_witness:
  "\<exists>p. build_task_evidence_pack (\<lambda>_. []) \<lparr>ts_micros = 9, ts_offset = Some 0\<rparr> [demo_event 5 ''b'', demo_event 3 ''a''] None = Inr p
     \<and> event_count p = 2
     \<and> (\<forall>e \<in> {demo_event 5 ''b'', demo_event 3 ''a''}. \<exists>a b. first_event_at p = Some a \<and> last_event_at p = Some b
            \<and> ts_micros a \<le> ts_micros (ae_timestamp e) \<and> ts_micros (ae_timestamp e) \<le> ts_micros b)"
proof (cases "build_task_evidence_pack (\<lambda>_. []) \<lparr>ts_micros = 9, ts_offset = Some 0\<rparr>
    [demo_event 5 ''b'', demo_event 3 ''a''] None")
  case (Inl x)
  with evidence_pack_spec [where rp = "\<lambda>_. []" and now = "\<lparr>ts_micros = 9, ts_offset = Some 0\<rparr>"
      and es = "[demo_event 5 ''b'', demo_event 3 ''a'']" and task = None]
  show ?thesis by (simp add: demo_event_def ts_aware_def)
next
  case (Inr p)
  with evidence_pack_spec [where rp = "\<lambda>_. []" and now = "\<lparr>ts_micros = 9, ts_offset = Some 0\<rparr>"
      and es = "[demo_event 5 ''b'', demo_event 3 ''a'']" and task = None]
  show ?thesis by simp
qed

end
