(* ===== verification/Harness_Action.thy ===== *)
theory Harness_Action
  imports Tool_Schema Py_Shlex Py_Regex Audit_Schema
begin

text \<open>
  \<open>harness/action_schema.py\<close>, \<open>harness/policy.py\<close>, \<open>harness/observation.py\<close> and \<open>harness/audit.py\<close>: how a
  runtime action becomes a harness action with its permission, what the policy decides about it,
  and how the outcome is redacted and written down. A runtime action and a runtime result are
  objects of any class: a class name with its attributes. An enum member stands for its value.
\<close>

section \<open>Actions\<close>

datatype harness_action_type = TERMINAL | FILE_READ | FILE_WRITE | FILE_PATCH | GIT | MCP_TOOL | UNKNOWN_ACTION

fun harness_action_type_value :: "harness_action_type \<Rightarrow> string" where
  "harness_action_type_value TERMINAL = ''terminal''"
| "harness_action_type_value FILE_READ = ''file_read''"
| "harness_action_type_value FILE_WRITE = ''file_write''"
| "harness_action_type_value FILE_PATCH = ''file_patch''"
| "harness_action_type_value GIT = ''git''"
| "harness_action_type_value MCP_TOOL = ''mcp_tool''"
| "harness_action_type_value UNKNOWN_ACTION = ''unknown''"

record harness_action =
  ha_action_type :: harness_action_type
  ha_permission :: tool_permission
  ha_target :: string
  ha_input :: payload
  raw_action_name :: string
  ha_requires_confirmation :: bool

definition confirmation_subject :: "harness_action \<Rightarrow> string" where
  "confirmation_subject a = harness_action_type_value (ha_action_type a) @ '':'' @ ha_target a"

record runtime_action =
  ra_class :: string
  ra_attrs :: payload
  ra_repr :: string

text \<open>\<open>getattr(obj, name, default)\<close>.\<close>

abbreviation getattr :: "runtime_action \<Rightarrow> string \<Rightarrow> pyval \<Rightarrow> pyval" where
  "getattr a k d \<equiv> dict_get_default (ra_attrs a) k d"

definition is_git_command :: "string \<Rightarrow> bool" where
  "is_git_command command =
     (let ws = (case shlex_split command of Inl _ \<Rightarrow> split_ws (strip command) | Inr ws \<Rightarrow> ws)
      in ws \<noteq> [] \<and> (hd ws = ''git'' \<or> suffix ''/git'' (hd ws)))"

definition target_from_command :: "(pyval \<Rightarrow> string) \<Rightarrow> string \<Rightarrow> pyval \<Rightarrow> string" where
  "target_from_command rp command cwd =
     strip ((if py_truthy cwd then py_str rp cwd @ '': '' else []) @ command)"

text \<open>Configured permissions: a text, a permission, a mapping, or anything else.\<close>

datatype perm_value = PermStr string | PermEnum tool_permission | PermMap "(string \<times> perm_value) list" | PermOther

fun coerce_permission :: "perm_value \<Rightarrow> tool_permission \<Rightarrow> tool_permission" where
  "coerce_permission (PermEnum p) d = p"
| "coerce_permission (PermStr s) d = (case tool_permission_of s of Some p \<Rightarrow> p | None \<Rightarrow> d)"
| "coerce_permission _ d = d"

definition fromkeys :: "'a list \<Rightarrow> 'a list" where
  "fromkeys xs = rev (remdups (rev xs))"

definition mcp_lookup_keys :: "string \<Rightarrow> string list" where
  "mcp_lookup_keys tool_name = fromkeys (tool_name #
     concat (map (\<lambda>sep. case split_once sep tool_name of None \<Rightarrow> [] | Some (a, _) \<Rightarrow> [a])
       [''.'', '':'', ''/'', ''__'']))"

fun first_permission :: "(string, perm_value) dict \<Rightarrow> tool_permission \<Rightarrow> string list \<Rightarrow> tool_permission" where
  "first_permission perms d [] = d"
| "first_permission perms d (key # keys) =
     (case dict_get perms key of
        None \<Rightarrow> first_permission perms d keys
      | Some (PermMap m) \<Rightarrow> coerce_permission (dict_get_default m ''permission'' (PermEnum d)) d
      | Some v \<Rightarrow> coerce_permission v d)"

definition mcp_permission_from_mapping :: "string \<Rightarrow> (string, perm_value) dict \<Rightarrow> tool_permission \<Rightarrow> tool_permission" where
  "mcp_permission_from_mapping tool_name perms d =
     (if perms = [] then d else first_permission perms d (mcp_lookup_keys tool_name))"

definition action_from_runtime_action ::
  "(pyval \<Rightarrow> string) \<Rightarrow> runtime_action \<Rightarrow> (string, perm_value) dict \<Rightarrow> harness_action" where
  "action_from_runtime_action rp action mcp_permissions =
     (let name = ra_class action; path = py_str rp (getattr action ''path'' (PStr [])) in
      if name = ''CmdRunAction'' then
        let command = py_str rp (getattr action ''command'' (PStr [])); cwd = getattr action ''cwd'' PNone in
        \<lparr>ha_action_type = (if is_git_command command then GIT else TERMINAL), ha_permission = EXECUTE,
         ha_target = target_from_command rp command cwd,
         ha_input = [(''command'', PStr command), (''cwd'', cwd),
                     (''blocking'', getattr action ''blocking'' (PBool False)),
                     (''is_input'', getattr action ''is_input'' (PBool False))],
         raw_action_name = name, ha_requires_confirmation = True\<rparr>
      else if name = ''FileReadAction'' then
        \<lparr>ha_action_type = FILE_READ, ha_permission = READ, ha_target = path,
         ha_input = [(''path'', PStr path), (''start'', getattr action ''start'' (PInt 0)),
                     (''end'', getattr action ''end'' (PInt (-1)))],
         raw_action_name = name, ha_requires_confirmation = False\<rparr>
      else if name = ''FileWriteAction'' then
        \<lparr>ha_action_type = FILE_WRITE, ha_permission = WRITE, ha_target = path,
         ha_input = [(''path'', PStr path), (''content'', getattr action ''content'' (PStr [])),
                     (''start'', getattr action ''start'' (PInt 0)), (''end'', getattr action ''end'' (PInt (-1)))],
         raw_action_name = name, ha_requires_confirmation = True\<rparr>
      else if name = ''FileEditAction'' then
        \<lparr>ha_action_type = FILE_PATCH, ha_permission = WRITE, ha_target = path,
         ha_input = [(''path'', PStr path), (''command'', getattr action ''command'' (PStr [])),
                     (''content'', getattr action ''content'' (PStr [])),
                     (''file_text'', getattr action ''file_text'' PNone),
                     (''old_str'', getattr action ''old_str'' PNone),
                     (''new_str'', getattr action ''new_str'' PNone),
                     (''insert_line'', getattr action ''insert_line'' PNone)],
         raw_action_name = name, ha_requires_confirmation = True\<rparr>
      else if name = ''MCPAction'' then
        let tool_name = py_str rp (getattr action ''name'' (PStr []));
            perm = mcp_permission_from_mapping tool_name mcp_permissions READ in
        \<lparr>ha_action_type = MCP_TOOL, ha_permission = perm, ha_target = tool_name,
         ha_input = [(''name'', PStr tool_name), (''arguments'', getattr action ''arguments'' (PDict []))],
         raw_action_name = name, ha_requires_confirmation = perm \<in> {EXECUTE, CONFIRM}\<rparr>
      else
        \<lparr>ha_action_type = UNKNOWN_ACTION, ha_permission = READ, ha_target = name,
         ha_input = [(''repr'', PStr (ra_repr action))],
         raw_action_name = name, ha_requires_confirmation = False\<rparr>)"

section \<open>Policy\<close>

record policy_decision =
  pd_allowed :: bool
  pd_permission :: tool_permission
  pd_requires_confirmation :: bool
  pd_reason :: string

record harness_policy =
  allowed_permissions :: "tool_permission list"
  blocked_targets :: "string list"
  require_confirmation_for :: "tool_permission list"
  block_unknown_actions :: bool

definition default_harness_policy :: harness_policy where
  "default_harness_policy = \<lparr>allowed_permissions = [READ, WRITE, EXECUTE, CONFIRM], blocked_targets = [],
     require_confirmation_for = [CONFIRM], block_unknown_actions = False\<rparr>"

definition policy_evaluate :: "harness_policy \<Rightarrow> harness_action \<Rightarrow> policy_decision" where
  "policy_evaluate self action =
     (let refuse = (\<lambda>reason. \<lparr>pd_allowed = False, pd_permission = ha_permission action,
                                pd_requires_confirmation = False, pd_reason = reason\<rparr>) in
      if block_unknown_actions self \<and> harness_action_type_value (ha_action_type action) = ''unknown''
      then refuse ''unknown action type''
      else if ha_permission action \<notin> set (allowed_permissions self)
      then refuse (''permission '' @ tool_permission_value (ha_permission action) @ '' is not allowed'')
      else if list_ex (fnmatch (ha_target action)) (blocked_targets self)
      then refuse (''target '' @ ha_target action @ '' is blocked by policy'')
      else \<lparr>pd_allowed = True, pd_permission = ha_permission action,
            pd_requires_confirmation = ha_requires_confirmation action
               \<or> ha_permission action \<in> set (require_confirmation_for self),
            pd_reason = ''allowed''\<rparr>)"

section \<open>Observations\<close>

datatype observation_status = SUCCESS | ERROR | DENIED | CONFIRMATION_REQUIRED

fun observation_status_value :: "observation_status \<Rightarrow> string" where
  "observation_status_value SUCCESS = ''success''"
| "observation_status_value ERROR = ''error''"
| "observation_status_value DENIED = ''denied''"
| "observation_status_value CONFIRMATION_REQUIRED = ''confirmation_required''"

record harness_observation =
  ob_trace_id :: string
  ob_action_type :: harness_action_type
  ob_permission :: tool_permission
  ob_target :: string
  redacted_input :: pyval
  ob_status :: observation_status
  latency_ms :: int
  ob_output_summary :: string
  ob_error :: "string option"
  ob_timestamp :: timestamp

definition SENSITIVE_KEY_PARTS :: "string list" where
  "SENSITIVE_KEY_PARTS = [''api_key'', ''apikey'', ''authorization'', ''credential'', ''password'',
     ''refresh_token'', ''secret'', ''token'']"

definition is_sensitive_key :: "string \<Rightarrow> bool" where
  "is_sensitive_key key =
     (let normalized = replace ''-'' ''_'' (lower key)
      in list_ex (\<lambda>part. contains part normalized) SENSITIVE_KEY_PARTS)"

text \<open>\<open>_INLINE_SECRET_PATTERN\<close>: the word boundary is zero-width and stands inside the group.\<close>

definition inline_secret_group :: rx where
  "inline_secret_group = Seq WordB (rx_alts
     [rx_seqs [lit_ic ''api'', rx_opt (Cls (\<lambda>c. c = CHR ''_'' \<or> c = CHR ''-'')), lit_ic ''key''],
      lit_ic ''authorization'', lit_ic ''password'', lit_ic ''secret'', lit_ic ''token''])"

definition inline_secret_rest :: rx where
  "inline_secret_rest = rx_seqs [Star (Cls is_space), Cls (\<lambda>c. c = CHR '':'' \<or> c = CHR ''=''), Star (Cls is_space),
     rx_plus (Cls (\<lambda>c. \<not> is_space c \<and> c \<noteq> CHR '','' \<and> c \<noteq> CHR '';''))]"

definition ascii_letter :: "char \<Rightarrow> bool" where
  "ascii_letter c \<longleftrightarrow> (65 \<le> code c \<and> code c \<le> 90) \<or> (97 \<le> code c \<and> code c \<le> 122)"

definition url_scheme :: rx where
  "url_scheme = rx_seqs [Cls ascii_letter,
     Star (Cls (\<lambda>c. ascii_letter c \<or> is_digit c \<or> c = CHR ''+'' \<or> c = CHR ''.'' \<or> c = CHR ''-'')), lit ''://'']"

definition userinfo_char :: rx where
  "userinfo_char = Cls (\<lambda>c. c \<noteq> CHR ''/'' \<and> \<not> is_space c \<and> c \<noteq> CHR ''@'')"

definition url_userinfo :: rx where
  "url_userinfo = rx_seqs [rx_plus userinfo_char, lit '':'', rx_plus userinfo_char, lit ''@'']"

definition redact_text :: "string \<Rightarrow> string" where
  "redact_text s =
     (let scrubbed = rx_sub inline_secret_group inline_secret_rest (\<lambda>g. g @ ''=[REDACTED]'') [] s
      in rx_sub url_scheme url_userinfo (\<lambda>g. g @ ''[REDACTED]@'') [] scrubbed)"

fun redact_payload :: "pyval \<Rightarrow> pyval" where
  "redact_payload (PDict kvs) =
     PDict (map (\<lambda>(k, v). (k, if is_sensitive_key k then PStr ''[REDACTED]'' else redact_payload v)) kvs)"
| "redact_payload (PList vs) = PList (map redact_payload vs)"
| "redact_payload (PTuple vs) = PList (map redact_payload vs)"
| "redact_payload (PStr s) = PStr (redact_text s)"
| "redact_payload v = v"

text \<open>A runtime result; \<open>None\<close> is \<open>None\<close>.\<close>

record runtime_output =
  ro_class :: string
  ro_attrs :: payload
  ro_str :: string

definition summarize_runtime_output :: "(pyval \<Rightarrow> string) \<Rightarrow> runtime_output option \<Rightarrow> string" where
  "summarize_runtime_output rp result =
     (case result of
        None \<Rightarrow> []
      | Some o' \<Rightarrow> summarize_tool_output
          (case dict_get (ro_attrs o') ''content'' of
             Some v \<Rightarrow> py_str rp v
           | None \<Rightarrow> (case dict_get (ro_attrs o') ''output_summary'' of Some v \<Rightarrow> py_str rp v | None \<Rightarrow> ro_str o')) 1200)"

definition status_from_runtime_output :: "runtime_output option \<Rightarrow> observation_status" where
  "status_from_runtime_output result =
     (case result of
        None \<Rightarrow> SUCCESS
      | Some o' \<Rightarrow>
        if ro_class o' = ''ErrorObservation'' then ERROR
        else if py_truthy (dict_get_default (ro_attrs o') ''error'' (PBool False)) then ERROR else SUCCESS)"

definition runtime_error_text :: "(pyval \<Rightarrow> string) \<Rightarrow> runtime_output option \<Rightarrow> string option" where
  "runtime_error_text rp result =
     (case result of
        None \<Rightarrow> None
      | Some o' \<Rightarrow>
        if ro_class o' = ''ErrorObservation''
        then Some (py_str rp (dict_get_default (ro_attrs o') ''content'' (PStr ''runtime error'')))
        else (case dict_get_default (ro_attrs o') ''error'' PNone of
                PBool b \<Rightarrow> if b then Some (summarize_runtime_output rp result) else None
              | v \<Rightarrow> if py_truthy v then Some (py_str rp v) else None))"

section \<open>Audit events\<close>

definition audit_event_type_of :: "harness_observation \<Rightarrow> audit_event_type" where
  "audit_event_type_of ob =
     (if ob_status ob = CONFIRMATION_REQUIRED then APPROVAL_REQUESTED
      else if ob_action_type ob \<in> {TERMINAL, GIT} then COMMAND_RUN
      else if ob_action_type ob \<in> {FILE_WRITE, FILE_PATCH} then FILE_CHANGE
      else TOOL_CALL)"

definition audit_event_from_observation :: "harness_observation \<Rightarrow> string option \<Rightarrow> audit_event" where
  "audit_event_from_observation ob task_id =
     \<lparr>ae_trace_id = ob_trace_id ob, ae_task_id = task_id, ae_event_type = audit_event_type_of ob,
      ae_phase = Some ''execute'', ae_timestamp = ob_timestamp ob,
      ae_summary = harness_action_type_value (ob_action_type ob) @ '' '' @ observation_status_value (ob_status ob)
        @ '': '' @ ob_target ob,
      ae_payload = [(''action_type'', PStr (harness_action_type_value (ob_action_type ob))),
        (''permission_level'', PStr (tool_permission_value (ob_permission ob))),
        (''target'', PStr (ob_target ob)), (''redacted_input'', redacted_input ob),
        (''status'', PStr (observation_status_value (ob_status ob))),
        (''latency_ms'', PInt (latency_ms ob)), (''output_summary'', PStr (ob_output_summary ob)),
        (''error'', (case ob_error ob of None \<Rightarrow> PNone | Some e \<Rightarrow> PStr e))],
      ae_duration_ms = Some (latency_ms ob), ae_cost_usd = None\<rparr>"

end
