(* ===== verification/Confirmation.thy ===== *)
theory Confirmation
  imports Prelude
begin

text \<open>
  \<open>harness/confirmation.py\<close>: the gate of single-use confirmation tokens. Times are microseconds;
  the token text of \<open>issue\<close> is the \<open>uuid4().hex\<close> it draws and an argument here.
\<close>

section \<open>State and operations\<close>

record confirmation_token =
  ct_token :: string
  ct_subject :: string
  ct_issued_at :: int
  ct_expires_at :: "int option"
  ct_consumed_at :: "int option"

definition consumed :: "confirmation_token \<Rightarrow> bool" where
  "consumed c \<longleftrightarrow> ct_consumed_at c \<noteq> None"

type_synonym confirmation_gate = "(string, confirmation_token) dict"

definition expired :: "int \<Rightarrow> confirmation_token \<Rightarrow> bool" where
  "expired now c \<longleftrightarrow> (case ct_expires_at c of None \<Rightarrow> False | Some t \<Rightarrow> t < now)"

definition prune :: "int \<Rightarrow> confirmation_gate \<Rightarrow> confirmation_gate" where
  "prune now g =
     (let stale = map fst (filter (\<lambda>(t, c). consumed c \<or> expired now c) g)
      in fold dict_del stale g)"

definition issue ::
  "int \<Rightarrow> string \<Rightarrow> string \<Rightarrow> int option \<Rightarrow> confirmation_gate \<Rightarrow> confirmation_token \<times> confirmation_gate" where
  "issue now uuid subject ttl_seconds g =
     (let c = \<lparr>ct_token = uuid, ct_subject = subject, ct_issued_at = now,
               ct_expires_at = map_option (\<lambda>s. now + s * 1000000) ttl_seconds, ct_consumed_at = None\<rparr>
      in (c, dict_set uuid c (prune now g)))"

definition consume ::
  "int \<Rightarrow> string \<Rightarrow> string option \<Rightarrow> confirmation_gate \<Rightarrow> bool \<times> confirmation_gate" where
  "consume now token subject g =
     (case dict_get g token of
        None \<Rightarrow> (False, g)
      | Some c \<Rightarrow>
        if consumed c then (False, g)
        else if (case subject of None \<Rightarrow> False | Some s \<Rightarrow> ct_subject c \<noteq> s) then (False, g)
        else if expired now c then (False, g)
        else (True, dict_set token (c\<lparr>ct_consumed_at := Some now\<rparr>) g))"

section \<open>Reading the gate\<close>

lemma get_fold_del: "dict_get (fold dict_del ks d) k = (if k \<in> set ks then None else dict_get d k)"
  by (induction ks arbitrary: d) auto

lemma dict_ok_fold_del: "dict_ok d \<Longrightarrow> dict_ok (fold dict_del ks d)"
  by (induction ks arbitrary: d) auto

text \<open>Pruning drops a token exactly when it can no longer be used.\<close>

lemma prune_get:
  assumes "dict_ok g"
  shows "dict_get (prune now g) t =
     (case dict_get g t of None \<Rightarrow> None | Some c \<Rightarrow> if consumed c \<or> expired now c then None else Some c)"
proof -
  have "t \<in> fst ` {x \<in> set g. case x of (t, c) \<Rightarrow> consumed c \<or> expired now c}
      \<longleftrightarrow> (\<exists>c. dict_get g t = Some c \<and> (consumed c \<or> expired now c))"
    by (auto simp: image_iff dict_mem_iff [OF assms, symmetric])
  then show ?thesis by (auto simp: prune_def get_fold_del split: option.splits)
qed

lemma expired_mono: "expired a c \<Longrightarrow> a \<le> b \<Longrightarrow> expired b c"
  by (auto simp: expired_def split: option.splits)

text \<open>The condition under which \<open>consume\<close> accepts.\<close>

definition usable :: "int \<Rightarrow> string \<Rightarrow> string option \<Rightarrow> confirmation_gate \<Rightarrow> bool" where
  "usable now t subj g \<longleftrightarrow>
     (\<exists>c. dict_get g t = Some c \<and> \<not> consumed c \<and> \<not> expired now c \<and> (\<forall>s. subj = Some s \<longrightarrow> ct_subject c = s))"

lemma consume_eq:
  "consume now t subj g =
     (if usable now t subj g
      then (True, dict_set t ((the (dict_get g t))\<lparr>ct_consumed_at := Some now\<rparr>) g) else (False, g))"
  by (auto simp: consume_def usable_def split: option.splits)

lemma usable_prune: "dict_ok g \<Longrightarrow> now \<le> t' \<Longrightarrow> usable t' tok subj (prune now g) \<longleftrightarrow> usable t' tok subj g"
  by (auto simp: usable_def prune_get split: option.splits if_splits dest: expired_mono)

section \<open>Runs of the gate\<close>

datatype gate_op = Issue int string string "int option" | Consume int string "string option"

fun gate_step :: "gate_op \<Rightarrow> confirmation_gate \<Rightarrow> confirmation_gate" where
  "gate_step (Issue now u s ttl) g = snd (issue now u s ttl g)"
| "gate_step (Consume now t s) g = snd (consume now t s g)"

text \<open>How often a token is accepted along a run.\<close>

fun accepts :: "string \<Rightarrow> gate_op list \<Rightarrow> confirmation_gate \<Rightarrow> nat" where
  "accepts t [] g = 0"
| "accepts t (x # xs) g =
     (case x of Consume now t' s \<Rightarrow> (if t' = t \<and> fst (consume now t' s g) then 1 else 0) | _ \<Rightarrow> 0)
     + accepts t xs (gate_step x g)"

fun issued :: "gate_op list \<Rightarrow> string list" where
  "issued [] = []"
| "issued (Issue now u s ttl # xs) = u # issued xs"
| "issued (Consume now t s # xs) = issued xs"

definition spent :: "string \<Rightarrow> confirmation_gate \<Rightarrow> bool" where
  "spent t g \<longleftrightarrow> (case dict_get g t of None \<Rightarrow> True | Some c \<Rightarrow> consumed c)"

lemma issue_ok: "dict_ok g \<Longrightarrow> dict_ok (snd (issue now u s ttl g))"
  by (simp add: issue_def prune_def Let_def dict_ok_fold_del)

lemma gate_step_ok: "dict_ok g \<Longrightarrow> dict_ok (gate_step x g)"
  by (cases x) (auto simp: issue_ok consume_eq)

interpretation gate: guarded_steps gate_step dict_ok
  by unfold_locales (rule gate_step_ok)

lemma consume_spends: "fst (consume now t s g) \<Longrightarrow> spent t (snd (consume now t s g))"
  by (auto simp: consume_eq spent_def consumed_def split: if_splits)

lemma spent_step:
  assumes "spent t g" and "t \<notin> set (issued [x])" and "dict_ok g"
  shows "spent t (gate_step x g)"
  using assms by (cases x)
    (auto simp: issue_def Let_def spent_def consume_eq usable_def prune_get split: option.splits if_splits)

lemma spent_no_accept:
  "spent t g \<Longrightarrow> t \<notin> set (issued xs) \<Longrightarrow> dict_ok g \<Longrightarrow> accepts t xs g = 0"
proof (induction xs arbitrary: g)
  case Nil
  then show ?case by simp
next
  case (Cons x xs)
  then have "spent t (gate_step x g)" by (intro spent_step) (cases x; simp)+
  moreover have "t \<notin> set (issued xs)" using Cons.prems by (cases x) simp_all
  ultimately have "accepts t xs (gate_step x g) = 0" using Cons by (simp add: gate_step_ok)
  then show ?case using Cons.prems(1)
    by (cases x) (auto simp: consume_eq usable_def spent_def split: option.splits)
qed

lemma accepts_le_1:
  "distinct (issued xs) \<Longrightarrow> dict_ok g \<Longrightarrow> t \<in> set (issued xs) \<longrightarrow> spent t g \<Longrightarrow> accepts t xs g \<le> 1"
proof (induction xs arbitrary: g)
  case Nil
  then show ?case by simp
next
  case (Cons x xs)
  show ?case
  proof (cases x)
    case (Issue now u s ttl)
    have "t \<in> set (issued xs) \<longrightarrow> spent t (gate_step x g)"
      using Cons.prems Issue by (auto intro!: spent_step simp del: gate_step.simps)
    with Cons Issue show ?thesis by (simp add: gate_step_ok [of g x, unfolded Issue, simplified])
  next
    case (Consume now t' s)
    let ?g = "snd (consume now t' s g)"
    have ok: "dict_ok ?g" using gate_step_ok [OF Cons.prems(2), of x] Consume by simp
    show ?thesis
    proof (cases "t' = t \<and> fst (consume now t' s g)")
      case True
      then have "t \<notin> set (issued xs)"
        using Cons.prems(3) Consume by (auto simp: consume_eq usable_def spent_def split: option.splits if_splits)
      with True ok have "accepts t xs ?g = 0" by (metis consume_spends spent_no_accept)
      with True Consume show ?thesis by simp
    next
      case False
      have "t \<in> set (issued xs) \<longrightarrow> spent t ?g"
        using Cons.prems Consume spent_step [of t g x] by auto
      with Cons.IH [of ?g] Cons.prems(1) Consume ok have "accepts t xs ?g \<le> 1" by simp
      with False Consume show ?thesis by auto
    qed
  qed
qed

section \<open>Properties\<close>

text \<open>C3. In any sequence of issued and presented tokens, in any interleaving and with any clock
  readings, each token is accepted at most once, pruning included; only the freshness of the drawn
  token texts is assumed.\<close>

theorem token_accepted_at_most_once:
  assumes "distinct (issued xs)"
  shows "accepts t xs [] \<le> 1"
  using assms by (intro accepts_le_1) (simp_all add: spent_def)

definition demo_gate_run :: "gate_op list" where
  "demo_gate_run = [Issue 0 ''u1'' ''git:push'' (Some 300), Consume 1 ''u1'' (Some ''git:push''),
     Consume 2 ''u1'' (Some ''git:push''), Issue 3 ''u2'' ''git:push'' None, Consume 4 ''u1'' None]"

theorem token_accepted_at_most_once_witness: "accepts ''u1'' demo_gate_run [] \<le> 1"
  by (rule token_accepted_at_most_once) code_simp

text \<open>Pruning does not change what \<open>consume\<close> answers, then or at any later time.\<close>

theorem prune_keeps_answers:
  assumes "now \<le> later"
  shows "fst (consume later tok subj (prune now (fold gate_step xs [])))
       = fst (consume later tok subj (fold gate_step xs []))"
proof -
  have "dict_ok (fold gate_step xs [])" by (rule gate.run_inv) simp
  with assms show ?thesis by (simp add: consume_eq usable_prune)
qed

theorem prune_keeps_answers_witness:
  "fst (consume 2 ''u2'' None (prune 2 (fold gate_step demo_gate_run [])))
     = fst (consume 2 ''u2'' None (fold gate_step demo_gate_run []))"
  by (rule prune_keeps_answers) simp

text \<open>An issued token is accepted when it is presented for its own subject, or for none, within
  its lifetime, and rejected for another subject or after it has expired.\<close>

theorem issued_token_answer:
  assumes "issue now u s ttl g = (c, g')"
  shows "fst (consume later (ct_token c) subj g') \<longleftrightarrow>
     (subj = None \<or> subj = Some s) \<and> (ttl = None \<or> later \<le> now + the ttl * 1000000)"
  using assms
  by (cases ttl; cases subj) (auto simp: issue_def Let_def consume_eq usable_def consumed_def expired_def)

theorem issued_token_answer_witness:
  "fst (consume 7 (ct_token (fst (issue 0 ''u1'' ''git:push'' (Some 300) [])))
      (Some ''git:pull'') (snd (issue 0 ''u1'' ''git:push'' (Some 300) []))) \<longleftrightarrow>
     (Some ''git:pull'' = None \<or> Some ''git:pull'' = Some ''git:push'')
     \<and> (Some (300::int) = None \<or> (7::int) \<le> 0 + the (Some 300) * 1000000)"
  by (rule issued_token_answer) simp

end
