(* ===== verification/Harness_Service.thy ===== *)
theory Harness_Service
  imports Harness_Action Confirmation
begin

text \<open>
  \<open>harness/service.py\<close>: the execution harness, through which every runtime action passes: policy,
  confirmation, execution, and one audit event. The executor is an argument. During the \<open>await\<close> of
  the asynchronous entry point other tasks may use the same harness; what they do to its state is
  the argument \<open>others\<close>.
\<close>

section \<open>State\<close>

record execution_harness =
  h_policy :: harness_policy
  h_gate :: confirmation_gate
  h_task_id :: "string option"
  h_mcp_permissions :: "(string, perm_value) dict"
  h_audit_events :: "audit_event list"

definition new_harness ::
  "harness_policy option \<Rightarrow> confirmation_gate \<Rightarrow> string option \<Rightarrow> (string, perm_value) dict \<Rightarrow> execution_harness" where
  "new_harness pol gate task_id perms =
     \<lparr>h_policy = (case pol of None \<Rightarrow> default_harness_policy | Some p \<Rightarrow> p), h_gate = gate,
      h_task_id = task_id, h_mcp_permissions = perms, h_audit_events = []\<rparr>"

record harness_result =
  hr_observation :: harness_observation
  hr_audit_event :: audit_event
  runtime_observation :: "runtime_output option"

definition audit_events_by_task :: "execution_harness \<Rightarrow> string \<Rightarrow> audit_event list" where
  "audit_events_by_task h task_id = filter (\<lambda>e. ae_task_id e = Some task_id) (h_audit_events h)"

section \<open>Operations\<close>

definition utc_now :: "py_env \<Rightarrow> timestamp" where
  "utc_now ev = \<lparr>ts_micros = env_now ev, ts_offset = Some 0\<rparr>"

definition effective_task :: "string option \<Rightarrow> execution_harness \<Rightarrow> string option" where
  "effective_task task_id h = (case task_id of None \<Rightarrow> h_task_id h | Some t \<Rightarrow> Some t)"

definition record_result ::
  "py_env \<Rightarrow> harness_action \<Rightarrow> observation_status \<Rightarrow> int \<Rightarrow> string \<Rightarrow> string option \<Rightarrow> runtime_output option
    \<Rightarrow> string option \<Rightarrow> execution_harness \<Rightarrow> harness_result \<times> execution_harness" where
  "record_result ev act status lat output_summary error result task_id h =
     (let ob = \<lparr>ob_trace_id = env_uuid ev, ob_action_type = ha_action_type act, ob_permission = ha_permission act,
                ob_target = ha_target act, redacted_input = redact_payload (PDict (ha_input act)),
                ob_status = status, latency_ms = lat, ob_output_summary = output_summary,
                ob_error = error, ob_timestamp = utc_now ev\<rparr>;
          event = audit_event_from_observation ob (effective_task task_id h)
      in (\<lparr>hr_observation = ob, hr_audit_event = event, runtime_observation = result\<rparr>,
          h\<lparr>h_audit_events := h_audit_events h @ [event]\<rparr>))"

definition ui_confirmation_state :: "(pyval \<Rightarrow> string) \<Rightarrow> runtime_action \<Rightarrow> string option" where
  "ui_confirmation_state rp action =
     (case getattr action ''confirmation_state'' PNone of PNone \<Rightarrow> None | v \<Rightarrow> Some (py_str rp v))"

text \<open>The result that ends the call early, if there is one.\<close>

definition preflight_result ::
  "py_env \<Rightarrow> runtime_action \<Rightarrow> harness_action \<Rightarrow> policy_decision \<Rightarrow> string option \<Rightarrow> string option
    \<Rightarrow> execution_harness \<Rightarrow> harness_result option \<times> execution_harness" where
  "preflight_result ev action act decision token task_id h =
     (let stop = (\<lambda>status msg h. map_prod Some id (record_result ev act status 0 msg (Some msg) None task_id h)) in
      if \<not> pd_allowed decision then stop DENIED (pd_reason decision) h
      else if \<not> pd_requires_confirmation decision then (None, h)
      else if ui_confirmation_state (env_repr ev) action = Some ''rejected'' then stop DENIED ''confirmation rejected'' h
      else if ui_confirmation_state (env_repr ev) action = Some ''confirmed'' then (None, h)
      else if str_or_empty token \<noteq> [] then
        (case consume (env_now ev) (str_or_empty token) (Some (confirmation_subject act)) (h_gate h) of
           (True, g') \<Rightarrow> (None, h\<lparr>h_gate := g'\<rparr>)
         | (False, g') \<Rightarrow> stop CONFIRMATION_REQUIRED ''confirmation required'' (h\<lparr>h_gate := g'\<rparr>))
      else stop CONFIRMATION_REQUIRED ''confirmation required'' h)"

text \<open>What running the executor does: it returns, raises an \<open>Exception\<close> with a text, raises another
  \<open>BaseException\<close>, or never comes back.\<close>

datatype action_outcome = ActReturns "runtime_output option" | ActExn string | ActBase py_exn | ActHangs

definition finish ::
  "py_env \<Rightarrow> harness_action \<Rightarrow> action_outcome \<Rightarrow> string option \<Rightarrow> execution_harness
    \<Rightarrow> harness_result outcome \<times> execution_harness" where
  "finish ev act out task_id h =
     (case out of
        ActReturns result \<Rightarrow> map_prod Returns id
          (record_result ev act (status_from_runtime_output result) (env_elapsed_ms ev)
            (summarize_runtime_output (env_repr ev) result) (runtime_error_text (env_repr ev) result) result task_id h)
      | ActExn msg \<Rightarrow> map_prod Returns id (record_result ev act ERROR (env_elapsed_ms ev) [] (Some msg) None task_id h)
      | ActBase e \<Rightarrow> (Raises e, h)
      | ActHangs \<Rightarrow> (Diverges, h))"

definition effective_perms :: "(string, perm_value) dict \<Rightarrow> execution_harness \<Rightarrow> (string, perm_value) dict" where
  "effective_perms perms h = (if perms = [] then h_mcp_permissions h else perms)"

definition execute ::
  "py_env \<Rightarrow> runtime_action \<Rightarrow> (runtime_action \<Rightarrow> action_outcome) \<Rightarrow> string option \<Rightarrow> string option
    \<Rightarrow> (string, perm_value) dict \<Rightarrow> execution_harness \<Rightarrow> harness_result outcome \<times> execution_harness" where
  "execute ev action executor token task_id perms h =
     (let act = action_from_runtime_action (env_repr ev) action (effective_perms perms h);
          decision = policy_evaluate (h_policy h) act
      in case preflight_result ev action act decision token task_id h of
           (Some r, h') \<Rightarrow> (Returns r, h')
         | (None, h') \<Rightarrow> finish ev act (executor action) task_id h')"

datatype maybe_awaitable = Ready action_outcome | Awaitable action_outcome

definition execute_async ::
  "py_env \<Rightarrow> runtime_action \<Rightarrow> (runtime_action \<Rightarrow> maybe_awaitable) \<Rightarrow> string option \<Rightarrow> string option
    \<Rightarrow> (string, perm_value) dict \<Rightarrow> (execution_harness \<Rightarrow> execution_harness) \<Rightarrow> execution_harness
    \<Rightarrow> harness_result outcome \<times> execution_harness" where
  "execute_async ev action executor token task_id perms others h =
     (let act = action_from_runtime_action (env_repr ev) action (effective_perms perms h);
          decision = policy_evaluate (h_policy h) act
      in case preflight_result ev action act decision token task_id h of
           (Some r, h') \<Rightarrow> (Returns r, h')
         | (None, h') \<Rightarrow>
             (case executor action of
                Ready out \<Rightarrow> finish ev act out task_id h'
              | Awaitable out \<Rightarrow> finish ev act out task_id (others h')))"

section \<open>Lemmas\<close>

abbreviation the_action :: "py_env \<Rightarrow> runtime_action \<Rightarrow> (string, perm_value) dict \<Rightarrow> execution_harness \<Rightarrow> harness_action" where
  "the_action ev a perms h \<equiv> action_from_runtime_action (env_repr ev) a (effective_perms perms h)"

abbreviation the_decision :: "py_env \<Rightarrow> runtime_action \<Rightarrow> (string, perm_value) dict \<Rightarrow> execution_harness \<Rightarrow> policy_decision" where
  "the_decision ev a perms h \<equiv> policy_evaluate (h_policy h) (the_action ev a perms h)"

text \<open>When the executor may run: the policy allows the action and, where confirmation is required, the
  user has confirmed in the interface or a valid token for this very action is presented.\<close>

definition cleared :: "py_env \<Rightarrow> runtime_action \<Rightarrow> string option \<Rightarrow> (string, perm_value) dict \<Rightarrow> execution_harness \<Rightarrow> bool" where
  "cleared ev a token perms h \<longleftrightarrow>
     pd_allowed (the_decision ev a perms h)
     \<and> (pd_requires_confirmation (the_decision ev a perms h) \<longrightarrow>
          ui_confirmation_state (env_repr ev) a \<noteq> Some ''rejected''
          \<and> (ui_confirmation_state (env_repr ev) a = Some ''confirmed''
             \<or> str_or_empty token \<noteq> [] \<and> usable (env_now ev) (str_or_empty token)
                 (Some (confirmation_subject (the_action ev a perms h))) (h_gate h)))"

lemma record_result_eq:
  "\<exists>r. record_result ev act st lat out err res task h = (r, h\<lparr>h_audit_events := h_audit_events h @ [hr_audit_event r]\<rparr>)
     \<and> ob_status (hr_observation r) = st
     \<and> ae_task_id (hr_audit_event r) = effective_task task h
     \<and> ae_trace_id (hr_audit_event r) = ob_trace_id (hr_observation r)"
  by (simp add: record_result_def Let_def audit_event_from_observation_def)

lemma effective_task_cong: "h_task_id h = h_task_id h' \<Longrightarrow> effective_task t h = effective_task t h'"
  by (simp add: effective_task_def split: option.splits)

lemma effective_task_gate [simp]: "effective_task t (h\<lparr>h_gate := g\<rparr>) = effective_task t h"
  by (rule effective_task_cong) simp

lemma h_gate_same [simp]: "h\<lparr>h_gate := h_gate h\<rparr> = h"
  by (cases h) simp

text \<open>The preflight stops exactly the calls that are not cleared, with one audit event.\<close>

lemma preflight_cleared:
  assumes "preflight_result ev a (the_action ev a perms h) (the_decision ev a perms h) token task h = (x, h')"
  shows "x = None \<longleftrightarrow> cleared ev a token perms h"
    and "x = None \<Longrightarrow> h_audit_events h' = h_audit_events h \<and> h_task_id h' = h_task_id h"
    and "x = Some r \<Longrightarrow> h' = h\<lparr>h_audit_events := h_audit_events h @ [hr_audit_event r]\<rparr>
           \<and> ob_status (hr_observation r) \<in> {DENIED, CONFIRMATION_REQUIRED}
           \<and> ae_task_id (hr_audit_event r) = effective_task task h"
  using assms
  by (auto simp: preflight_result_def cleared_def Let_def record_result_def audit_event_from_observation_def
      consume_eq simp del: redact_payload.simps split: if_splits)

lemma execute_uncleared:
  assumes "\<not> cleared ev a token perms h"
  obtains r h' where "\<And>ex. execute ev a ex token task perms h = (Returns r, h')"
    and "\<And>ex others. execute_async ev a ex token task perms others h = (Returns r, h')"
    and "ob_status (hr_observation r) \<in> {DENIED, CONFIRMATION_REQUIRED}"
proof -
  obtain x h' where p: "preflight_result ev a (the_action ev a perms h) (the_decision ev a perms h) token task h = (x, h')"
    by fastforce
  with assms preflight_cleared(1) [OF p] obtain r where "x = Some r" by blast
  with p preflight_cleared(3) [OF p] that show ?thesis
    by (auto simp: execute_def execute_async_def Let_def)
qed

lemma finish_logs:
  "(\<exists>r. finish ev act out task h = (Returns r, h\<lparr>h_audit_events := h_audit_events h @ [hr_audit_event r]\<rparr>)
      \<and> ae_task_id (hr_audit_event r) = effective_task task h)
   \<or> (\<forall>r. fst (finish ev act out task h) \<noteq> Returns r) \<and> snd (finish ev act out task h) = h"
  by (cases out) (auto simp: finish_def record_result_def Let_def audit_event_from_observation_def)

text \<open>A call logs the event of the result it returns; a call that does not return logs nothing, and only
  an executor that leaves with a \<open>BaseException\<close> or never comes back makes it do so.\<close>

lemma execute_logged:
  "case execute ev a ex token task perms h of
     (Returns r, h') \<Rightarrow> h_audit_events h' = h_audit_events h @ [hr_audit_event r]
       \<and> ae_task_id (hr_audit_event r) = effective_task task h
   | (Raises e, h') \<Rightarrow> h_audit_events h' = h_audit_events h \<and> ex a = ActBase e
   | (Diverges, h') \<Rightarrow> h_audit_events h' = h_audit_events h \<and> ex a = ActHangs"
proof -
  obtain x h' where p: "preflight_result ev a (the_action ev a perms h) (the_decision ev a perms h) token task h = (x, h')"
    by fastforce
  show ?thesis
  proof (cases x)
    case (Some r)
    with p preflight_cleared(3) [OF p] show ?thesis by (simp add: execute_def Let_def)
  next
    case None
    with p have "execute ev a ex token task perms h = finish ev (the_action ev a perms h) (ex a) task h'"
      by (simp add: execute_def Let_def)
    moreover have "h_audit_events h' = h_audit_events h" "h_task_id h' = h_task_id h"
      using preflight_cleared(2) [OF p None] by simp_all
    ultimately show ?thesis
      using finish_logs [of ev "the_action ev a perms h" "ex a" task h']
        effective_task_cong [of h' h task]
      by (cases "ex a") (auto simp: finish_def)
  qed
qed

text \<open>A call of the harness, with everything it reads from outside.\<close>

datatype harness_call = HCall py_env runtime_action "runtime_action \<Rightarrow> action_outcome" "string option" "string option"
  "(string, perm_value) dict"

fun perform :: "harness_call \<Rightarrow> execution_harness \<Rightarrow> harness_result outcome \<times> execution_harness" where
  "perform (HCall ev a ex token task perms) h = execute ev a ex token task perms h"

lemma perform_logged:
  "case perform c h of
     (Returns r, h') \<Rightarrow> h_audit_events h' = h_audit_events h @ [hr_audit_event r]
   | (_, h') \<Rightarrow> h_audit_events h' = h_audit_events h"
  by (cases c) (use execute_logged in \<open>fastforce split: prod.splits outcome.splits\<close>)

interpretation history: logged_calls perform h_audit_events hr_audit_event
proof
  show "perform c s = (Returns r, s') \<Longrightarrow> h_audit_events s' = h_audit_events s @ [hr_audit_event r]" for c s r s'
    using perform_logged [where c = c and h = s] by simp
  show "perform c s = (out, s') \<Longrightarrow> \<forall>r. out \<noteq> Returns r \<Longrightarrow> h_audit_events s' = h_audit_events s" for c s out s'
    using perform_logged [where c = c and h = s] by (cases out) simp_all
qed

text \<open>After a token has let an action through it is spent.\<close>

lemma preflight_spends:
  assumes "cleared ev a token perms h" and "pd_requires_confirmation (the_decision ev a perms h)"
    and "ui_confirmation_state (env_repr ev) a \<noteq> Some ''confirmed''"
  shows "spent (str_or_empty token) (h_gate (snd (execute ev a ex token task perms h)))"
proof -
  let ?act = "the_action ev a perms h"
  let ?c = "consume (env_now ev) (str_or_empty token) (Some (confirmation_subject ?act)) (h_gate h)"
  from assms have "fst ?c" and ne: "str_or_empty token \<noteq> []" by (auto simp: cleared_def consume_eq)
  then have sp: "spent (str_or_empty token) (snd ?c)" by (intro consume_spends)
  have "preflight_result ev a ?act (the_decision ev a perms h) token task h = (None, h\<lparr>h_gate := snd ?c\<rparr>)"
    using assms ne \<open>fst ?c\<close> by (auto simp: preflight_result_def cleared_def Let_def split: prod.splits bool.splits)
  moreover have "h_gate (snd (finish ev' act out task' h')) = h_gate h'" for ev' act out task' h'
    using finish_logs [of ev' act out task' h'] by auto
  ultimately show ?thesis using sp by (simp add: execute_def Let_def)
qed

lemma spent_not_usable: "spent t g \<Longrightarrow> \<not> usable now t subj g"
  by (auto simp: spent_def usable_def split: option.splits)

text \<open>What redaction leaves: under a sensitive key, at any depth, nothing but the mark.\<close>

fun no_secrets :: "pyval \<Rightarrow> bool" where
  "no_secrets (PDict kvs) = (\<forall>(k, v) \<in> set kvs. if is_sensitive_key k then v = PStr ''[REDACTED]'' else no_secrets v)"
| "no_secrets (PList vs) = (\<forall>v \<in> set vs. no_secrets v)"
| "no_secrets (PTuple vs) = (\<forall>v \<in> set vs. no_secrets v)"
| "no_secrets v = True"

lemma redact_no_secrets: "no_secrets (redact_payload v)"
  by (induction v rule: redact_payload.induct) force+

lemma record_redacted:
  "no_secrets (redacted_input (hr_observation (fst (record_result ev act st lat out err res task h))))"
  by (simp add: record_result_def Let_def redact_no_secrets del: redact_payload.simps no_secrets.simps)

lemma finish_redacted:
  "fst (finish ev act out task h) = Returns r \<Longrightarrow> no_secrets (redacted_input (hr_observation r))"
  using record_redacted by (cases out) (auto simp: finish_def simp del: no_secrets.simps)

lemma stop_redacted:
  "map_prod Some id (record_result ev act st lat out err res task h) = (Some r, h')
     \<Longrightarrow> no_secrets (redacted_input (hr_observation r))"
  using record_redacted [of ev act st lat out err res task h]
  by (cases "record_result ev act st lat out err res task h") (simp del: no_secrets.simps)

lemma preflight_redacted:
  assumes "preflight_result ev a act d token task h = (Some r, h')"
  shows "no_secrets (redacted_input (hr_observation r))"
  using assms
  by (cases "consume (env_now ev) (str_or_empty token) (Some (confirmation_subject act)) (h_gate h)")
    (auto simp: preflight_result_def Let_def simp del: no_secrets.simps
      split: if_splits bool.splits dest: stop_redacted)

section \<open>Properties\<close>


definition demo_push :: runtime_action where
  "demo_push = \<lparr>ra_class = ''CmdRunAction'', ra_attrs = [(''command'', PStr ''git push'')], ra_repr = ''push''\<rparr>"

definition harness_env :: py_env where
  "harness_env = \<lparr>env_now = 5, env_uuid = ''u9'', env_elapsed_ms = 1, env_repr = (\<lambda>_. ''1.5'')\<rparr>"



text \<open>The audit trail is the complete history of the harness: after any sequence of calls it holds,
  after what was there before, exactly the events of the results handed back, in order.\<close>

theorem harness_history_complete:
  "h_audit_events (snd (run_calls perform calls h))
     = h_audit_events h @ map hr_audit_event (returned (fst (run_calls perform calls h)))"
  by (rule history.run_log)

text \<open>A token that let an action through does not let anything through again: any later action
  that needs confirmation and is not confirmed in the interface is refused with that token.\<close>

theorem token_not_reusable:
  assumes "cleared ev a token perms h" and "pd_requires_confirmation (the_decision ev a perms h)"
    and "ui_confirmation_state (env_repr ev) a \<noteq> Some ''confirmed''"
    and "pd_requires_confirmation (the_decision ev' b perms' (snd (execute ev a ex token task perms h)))"
    and "ui_confirmation_state (env_repr ev') b \<noteq> Some ''confirmed''"
  shows "\<not> cleared ev' b token perms' (snd (execute ev a ex token task perms h))"
  using assms(4,5) spent_not_usable [OF preflight_spends [OF assms(1-3)]] by (auto simp: cleared_def)

definition demo_harness :: execution_harness where
  "demo_harness = new_harness None (snd (issue 0 ''u1'' ''git:git push'' None [])) None []"

theorem token_not_reusable_witness:
  "\<not> cleared harness_env demo_push (Some ''u1'') []
      (snd (execute harness_env demo_push (\<lambda>_. ActReturns None) (Some ''u1'') None [] demo_harness))"
proof (rule token_not_reusable)
  have g: "h_gate demo_harness = [(''u1'', \<lparr>ct_token = ''u1'', ct_subject = ''git:git push'', ct_issued_at = 0,
      ct_expires_at = None, ct_consumed_at = None\<rparr>)]"
    by (simp add: demo_harness_def new_harness_def issue_def Let_def prune_def)
  have d: "pd_allowed (the_decision harness_env demo_push [] demo_harness)"
    "ui_confirmation_state (env_repr harness_env) demo_push = None"
    "confirmation_subject (the_action harness_env demo_push [] demo_harness) = ''git:git push''" by code_simp+
  show "cleared harness_env demo_push (Some ''u1'') [] demo_harness"
    unfolding cleared_def usable_def g d using d(1) by (simp add: consumed_def expired_def str_or_empty_def)
  show "pd_requires_confirmation (the_decision harness_env demo_push [] demo_harness)" by code_simp
  show "pd_requires_confirmation (the_decision harness_env demo_push []
      (snd (execute harness_env demo_push (\<lambda>_. ActReturns None) (Some ''u1'') None [] demo_harness)))" by code_simp
  show "ui_confirmation_state (env_repr harness_env) demo_push \<noteq> Some ''confirmed''" by code_simp
  show "ui_confirmation_state (env_repr harness_env) demo_push \<noteq> Some ''confirmed''" by code_simp
qed

text \<open>Redaction reaches every depth: in the recorded input no sensitive key, in any dictionary
  inside lists, tuples or dictionaries, keeps a value other than the mark.\<close>

theorem recorded_input_redacted:
  "case execute ev a ex token task perms h of
     (Returns r, _) \<Rightarrow> no_secrets (redacted_input (hr_observation r)) | _ \<Rightarrow> True"
proof -
  obtain x h' where p: "preflight_result ev a (the_action ev a perms h) (the_decision ev a perms h) token task h = (x, h')"
    by fastforce
  show ?thesis
    using p preflight_redacted finish_redacted [of ev "the_action ev a perms h" "ex a" task h']
    by (cases x) (auto simp: execute_def Let_def split: prod.splits outcome.splits)
qed

text \<open>The asynchronous entry point makes the same decision as the synchronous one and gives the
  same result, whatever other tasks do while it waits: only events they log come in between.\<close>

theorem async_refines_sync:
  assumes "h_task_id (others (snd (preflight_result ev a (the_action ev a perms h) (the_decision ev a perms h) token task h)))
     = h_task_id h"
  shows "fst (execute_async ev a (\<lambda>x. Awaitable (ex x)) token task perms others h) = fst (execute ev a ex token task perms h)"
proof -
  obtain x h' where p: "preflight_result ev a (the_action ev a perms h) (the_decision ev a perms h) token task h = (x, h')"
    by fastforce
  have "h_task_id h' = h_task_id h" if "x = None" using preflight_cleared(2) [OF p that] by simp
  then have "effective_task task (others h') = effective_task task h'" if "x = None"
    using assms p that by (intro effective_task_cong) simp
  with p show ?thesis
    by (cases x; cases "ex a") (simp_all add: execute_def execute_async_def Let_def finish_def record_result_def
        del: redact_payload.simps)
qed

theorem async_refines_sync_witness:
  "fst (execute_async harness_env demo_push (\<lambda>x. Awaitable (ActExn ''boom'')) (Some ''u1'') None []
      (\<lambda>h. h\<lparr>h_audit_events := []\<rparr>) demo_harness)
   = fst (execute harness_env demo_push (\<lambda>_. ActExn ''boom'') (Some ''u1'') None [] demo_harness)"
  by (rule async_refines_sync) code_simp

text \<open>The inline redaction stops at the first blank: of an authorization header only the scheme
  word is removed and the credential itself stays; and the audit event of a command carries the
  command unredacted in its target and summary.\<close>

theorem bearer_credential_kept:
  "redact_payload (PStr ''Authorization: Bearer s3cr3t'') = PStr ''Authorization=[REDACTED] s3cr3t''
   \<and> (case execute harness_env \<lparr>ra_class = ''CmdRunAction'', ra_attrs = [(''command'', PStr ''x token=s3cr3t'')], ra_repr = []\<rparr>
         (\<lambda>_. ActReturns None) None None [] (new_harness None [] None []) of
        (Returns r, _) \<Rightarrow> ae_summary (hr_audit_event r) = ''terminal confirmation_required: x token=s3cr3t''
           \<and> dict_get (ae_payload (hr_audit_event r)) ''target'' = Some (PStr ''x token=s3cr3t'')
      | _ \<Rightarrow> False)"
  by (rule conjI) code_simp+

end
