(* ===== verification/Audit_Timeline.thy ===== *)
theory Audit_Timeline
  imports Audit_Schema
begin

text \<open>
  \<open>audit/timeline.py\<close>: node ids, the sliding window of recent events, and the construction of the
  causal chains. Times are subtracted in microseconds; \<open>total_seconds() * 1000\<close> is computed in
  floating point as the code does. The walk over the children is a worklist function with a
  termination proof.
\<close>

section \<open>Data\<close>

record timeline_link =
  source_id :: string
  target_id :: string
  relation :: string
  tl_detail :: string

record timeline_node =
  tn_event :: audit_event
  node_id :: string
  parent_ids :: "string list"
  child_ids :: "string list"
  depth :: int
  chain_label :: string

record timeline_chain =
  chain_id :: string
  chain_nodes :: "timeline_node list"
  started_at :: "timestamp option"
  completed_at :: "timestamp option"
  self_heal_round :: int

record audit_timeline =
  at_task_id :: string
  chains :: "timeline_chain list"
  orphan_nodes :: "timeline_node list"
  at_total_cost_usd :: rat
  at_total_duration_ms :: int
  at_summary :: string

definition CORRELATION_WINDOW_MS :: int where
  "CORRELATION_WINDOW_MS = 5000"

definition is_model :: "audit_event \<Rightarrow> bool" where
  "is_model e \<longleftrightarrow> ae_event_type e \<in> {MODEL, MODEL_RESPONSE}"

definition is_command :: "audit_event \<Rightarrow> bool" where
  "is_command e \<longleftrightarrow> ae_event_type e \<in> {COMMAND, COMMAND_RUN}"

definition is_verification :: "audit_event \<Rightarrow> bool" where
  "is_verification e \<longleftrightarrow> ae_event_type e \<in> {VERIFICATION, TEST_RESULT}"

section \<open>Node ids\<close>

definition make_node :: "string \<Rightarrow> audit_event \<Rightarrow> string list \<Rightarrow> string \<Rightarrow> timeline_node" where
  "make_node nid e ps label =
     \<lparr>tn_event = e, node_id = (if nid = [] then ae_trace_id e else nid), parent_ids = ps, child_ids = [],
      depth = 0, chain_label = label\<rparr>"

fun number_events :: "(string, int) dict \<Rightarrow> audit_event list \<Rightarrow> (string \<times> audit_event) list" where
  "number_events occ [] = []"
| "number_events occ (e # es) =
     (let count = dict_get_default occ (ae_trace_id e) 0 + 1;
          nid = (if count = 1 then ae_trace_id e else ae_trace_id e @ ''#'' @ int_str count)
      in (nid, e) # number_events (dict_set (ae_trace_id e) count occ) es)"

definition assign_unique_node_ids :: "audit_event list \<Rightarrow> (string \<times> audit_event) list res" where
  "assign_unique_node_ids es =
     (case ordered_timeline es of Inl x \<Rightarrow> Inl x | Inr ts \<Rightarrow> Inr (number_events [] ts))"

section \<open>The sliding window\<close>

record recent_events =
  window_ms :: int
  recent_entries :: "(string \<times> timestamp) list"

definition delta_ms :: "timestamp \<Rightarrow> timestamp \<Rightarrow> rat" where
  "delta_ms now t = fl (fl (of_int (ts_micros now - ts_micros t) / 1000000) * 1000)"

fun prune_entries :: "int \<Rightarrow> timestamp \<Rightarrow> (string \<times> timestamp) list \<Rightarrow> (string \<times> timestamp) list" where
  "prune_entries w now [] = []"
| "prune_entries w now (x # xs) =
     (if delta_ms now (snd x) < 0 \<or> delta_ms now (snd x) \<le> of_int w then x # xs else prune_entries w now xs)"

definition recent_prune :: "timestamp \<Rightarrow> recent_events \<Rightarrow> recent_events" where
  "recent_prune now r = r\<lparr>recent_entries := prune_entries (window_ms r) now (recent_entries r)\<rparr>"

definition push :: "string \<Rightarrow> timestamp \<Rightarrow> recent_events \<Rightarrow> recent_events" where
  "push nid t r = (let r' = recent_prune t r in r'\<lparr>recent_entries := recent_entries r' @ [(nid, t)]\<rparr>)"

definition latest_within_window :: "timestamp \<Rightarrow> recent_events \<Rightarrow> string option \<times> recent_events" where
  "latest_within_window t r =
     (let r' = recent_prune t r
      in (if recent_entries r' = [] then None else Some (fst (last (recent_entries r'))), r'))"

text \<open>\<open>_find_preceding\<close>, the earlier quadratic search, is still in the module.\<close>

definition find_preceding :: "audit_event \<Rightarrow> audit_event list \<Rightarrow> string list" where
  "find_preceding e recents =
     map ae_trace_id (filter (\<lambda>prev.
       (let delta = delta_ms (ae_timestamp e) (ae_timestamp prev) in
        \<not> (delta < 0 \<or> of_int CORRELATION_WINDOW_MS < delta)
        \<and> (is_model prev \<and> ae_event_type e \<in> {COMMAND_RUN, COMMAND, TOOL_CALL}
           \<or> is_command prev \<and> ae_event_type e = FILE_CHANGE
           \<or> is_command prev \<and> is_verification e))) (rev recents))"

section \<open>Building the timeline\<close>

text \<open>The loop that makes the nodes, with the two windows as its state.\<close>

fun scan_nodes :: "recent_events \<Rightarrow> recent_events \<Rightarrow> (string \<times> audit_event) list \<Rightarrow> timeline_node list" where
  "scan_nodes rcmd rmodel [] = []"
| "scan_nodes rcmd rmodel ((nid, e) # rest) =
     (let t = ae_timestamp e; some = (\<lambda>p. case p of None \<Rightarrow> [] | Some x \<Rightarrow> [x]) in
      if is_command e then
        let (p, rmodel') = latest_within_window t rmodel
        in make_node nid e (some p) [] # scan_nodes (push nid t rcmd) rmodel' rest
      else if ae_event_type e = FILE_CHANGE then
        let (p, rcmd') = latest_within_window t rcmd
        in make_node nid e (some p) [] # scan_nodes rcmd' rmodel rest
      else if is_verification e then
        let (p, rcmd') = latest_within_window t rcmd
        in make_node nid e (some p) (if p \<noteq> None then ''verify'' else []) # scan_nodes rcmd' rmodel rest
      else if is_model e then make_node nid e [] [] # scan_nodes rcmd (push nid t rmodel) rest
      else if ae_event_type e = TOOL_CALL then
        let (p, rmodel') = latest_within_window t rmodel
        in make_node nid e (some p) [] # scan_nodes rcmd rmodel' rest
      else make_node nid e [] [] # scan_nodes rcmd rmodel rest)"

text \<open>The dictionary is keyed by the assigned id.\<close>

type_synonym node_dict = "(string, timeline_node) dict"

definition nodes_by_id :: "(string \<times> audit_event) list \<Rightarrow> node_dict" where
  "nodes_by_id identified =
     (let r = \<lparr>window_ms = CORRELATION_WINDOW_MS, recent_entries = []\<rparr>
      in fold (\<lambda>(nid, n). dict_set nid n) (zip (map fst identified) (scan_nodes r r identified)) [])"

definition add_child :: "string \<Rightarrow> string \<Rightarrow> node_dict \<Rightarrow> node_dict" where
  "add_child child pid d =
     (case dict_get d pid of None \<Rightarrow> d | Some p \<Rightarrow> dict_set pid (p\<lparr>child_ids := child_ids p @ [child]\<rparr>) d)"

definition wire_children :: "node_dict \<Rightarrow> node_dict" where
  "wire_children d = fold (\<lambda>n. fold (add_child (node_id n)) (parent_ids n)) (dict_values d) d"

text \<open>\<open>walk_chain\<close>: the collected nodes and the visited ids. The top of the stack is the head.\<close>

function walk_chain :: "node_dict \<Rightarrow> string list \<Rightarrow> string list \<Rightarrow> timeline_node list \<times> string list" where
  "walk_chain d visited [] = ([], visited)"
| "walk_chain d visited (nid # stack) =
     (if nid \<in> set visited then walk_chain d visited stack
      else case dict_get d nid of
             None \<Rightarrow> walk_chain d (nid # visited) stack
           | Some node \<Rightarrow>
               (let (ns, v) = walk_chain d (nid # visited) (child_ids node @ stack) in (node # ns, v)))"
  by pat_completeness auto
termination
proof (relation "measures [\<lambda>(d, visited, stack). card (set (dict_keys d) - set visited), \<lambda>(d, visited, stack). length stack]",
    goal_cases)
  case (3 d visited nid stack)
  then have "nid \<notin> set (dict_keys d)" by (simp add: dict_get_None_iff)
  then have "set (dict_keys d) - set (nid # visited) = set (dict_keys d) - set visited" by auto
  then show ?case by simp
next
  case (4 d visited nid stack node)
  then have "nid \<in> set (dict_keys d) - set visited" by (metis DiffI dict_get_None_iff option.distinct(1))
  then have "set (dict_keys d) - set (nid # visited) \<subset> set (dict_keys d) - set visited" by auto
  then show ?case by (simp add: psubset_card_mono)
qed auto

definition make_chain :: "nat \<Rightarrow> timeline_node list \<Rightarrow> timeline_chain" where
  "make_chain idx ns =
     \<lparr>chain_id = ''chain-'' @ zfill 3 (int idx), chain_nodes = ns, started_at = Some (ae_timestamp (tn_event (hd ns))),
      completed_at = Some (ae_timestamp (tn_event (last ns))), self_heal_round = 0\<rparr>"

fun build_chains :: "node_dict \<Rightarrow> timeline_node list \<Rightarrow> nat \<Rightarrow> string list \<Rightarrow> timeline_chain list \<times> string list" where
  "build_chains d [] idx visited = ([], visited)"
| "build_chains d (n # ns) idx visited =
     (if parent_ids n = [] \<and> node_id n \<notin> set visited then
        let (cn, visited') = walk_chain d visited [node_id n] in
        if cn \<noteq> [] then
          let (cs, v) = build_chains d ns (idx + 1) visited' in (make_chain (idx + 1) cn # cs, v)
        else build_chains d ns idx visited'
      else build_chains d ns idx visited)"

text \<open>\<open>sum\<close> of floats is compensated (Neumaier) in Python 3.12.\<close>

fun neumaier :: "rat \<Rightarrow> rat \<Rightarrow> rat list \<Rightarrow> rat" where
  "neumaier acc c [] = (if c \<noteq> 0 then fl (acc + c) else acc)"
| "neumaier acc c (x # xs) =
     (let t = fl (acc + x);
          c' = (if \<bar>x\<bar> \<le> \<bar>acc\<bar> then fl (c + fl (fl (acc - t) + x)) else fl (c + fl (fl (x - t) + acc)))
      in neumaier t c' xs)"

definition py_sum :: "rat list \<Rightarrow> rat" where
  "py_sum xs = (case xs of [] \<Rightarrow> 0 | y # ys \<Rightarrow> neumaier y 0 ys)"

definition some_values :: "'a option list \<Rightarrow> 'a list" where
  "some_values xs = map the (filter (\<lambda>x. x \<noteq> None) xs)"

definition event_counts :: "audit_event list \<Rightarrow> (string, int) dict" where
  "event_counts es =
     fold (\<lambda>e d. let k = audit_event_type_value (ae_event_type e) in dict_set k (dict_get_default d k 0 + 1) d) es []"

definition timeline_of :: "(string \<times> audit_event) list \<Rightarrow> audit_timeline" where
  "timeline_of identified =
     (if identified = [] then
        \<lparr>at_task_id = [], chains = [], orphan_nodes = [], at_total_cost_usd = 0, at_total_duration_ms = 0,
         at_summary = ''No events recorded.''\<rparr>
      else
        let es = map snd identified;
            d = wire_children (nodes_by_id identified);
            (cs, visited) = build_chains d (dict_values d) 0 []
        in \<lparr>at_task_id = str_or_empty (ae_task_id (hd es)), chains = cs,
            orphan_nodes = filter (\<lambda>n. node_id n \<notin> set visited) (dict_values d),
            at_total_cost_usd = py_sum (some_values (map ae_cost_usd es)),
            at_total_duration_ms = sum_list (some_values (map ae_duration_ms es)),
            at_summary = int_str (int (length cs)) @ '' chains: ''
              @ join '', '' (map (\<lambda>(k, v). int_str v @ '' '' @ k) (event_counts es))\<rparr>)"

definition build_timeline :: "audit_event list \<Rightarrow> audit_timeline res" where
  "build_timeline es = (case assign_unique_node_ids es of Inl x \<Rightarrow> Inl x | Inr ids \<Rightarrow> Inr (timeline_of ids))"

section \<open>The window in microseconds\<close>

definition in_window :: "timestamp \<Rightarrow> string \<times> timestamp \<Rightarrow> bool" where
  "in_window now x \<longleftrightarrow> ts_micros now - ts_micros (snd x) \<le> 5000000"

text \<open>Rounding twice does not move the edge of the window: the floating-point test is the exact one.\<close>

lemma delta_le_window: "delta_ms now t \<le> 5000 \<longleftrightarrow> ts_micros now - ts_micros t \<le> 5000000"
proof -
  define d where "d = ts_micros now - ts_micros t"
  define f where "f = (\<lambda>k :: int. fl (fl (of_int k / 1000000) * 1000))"
  have mono: "f a \<le> f b" if "a \<le> b" for a b
    unfolding f_def using that by (intro fl_mono mult_right_mono divide_right_mono) simp_all
  have "f 5000000 = 5000" unfolding f_def by code_simp
  moreover have "5000 < f 5000001" unfolding f_def by code_simp
  ultimately have "f d \<le> 5000 \<longleftrightarrow> d \<le> 5000000"
    using mono [of d 5000000] mono [of 5000001 d] by (cases "d \<le> 5000000") auto
  then show ?thesis by (simp add: delta_ms_def d_def f_def)
qed

lemma prune_entries_eq: "prune_entries 5000 now xs = dropWhile (\<lambda>x. \<not> in_window now x) xs"
proof (induction xs)
  case (Cons x xs)
  have "delta_ms now (snd x) < 0 \<or> delta_ms now (snd x) \<le> 5000 \<longleftrightarrow> in_window now x"
    using delta_le_window [of now "snd x"] by (auto simp: in_window_def)
  with Cons show ?case by simp
qed simp

lemma dropWhile_sorted:
  "sorted (map (ts_micros \<circ> snd) xs) \<Longrightarrow> dropWhile (\<lambda>x. \<not> in_window now x) xs = filter (in_window now) xs"
proof (induction xs)
  case (Cons x xs)
  then show ?case by (auto simp: in_window_def intro!: filter_True [symmetric])
qed simp

section \<open>The window against a scan of the whole history\<close>

text \<open>The reference: among all earlier events of a kind, the last one not more than five seconds old.\<close>

definition ref_latest :: "(audit_event \<Rightarrow> bool) \<Rightarrow> (string \<times> audit_event) list \<Rightarrow> timestamp \<Rightarrow> string option" where
  "ref_latest P hist t =
     (case rev (filter (\<lambda>(i, e). P e \<and> ts_micros t - ts_micros (ae_timestamp e) \<le> 5000000) hist) of
        [] \<Rightarrow> None | (i, e) # _ \<Rightarrow> Some i)"

definition ref_parent :: "(string \<times> audit_event) list \<Rightarrow> audit_event \<Rightarrow> string option" where
  "ref_parent hist e =
     (if is_command e \<or> ae_event_type e = TOOL_CALL then ref_latest is_model hist (ae_timestamp e)
      else if ae_event_type e = FILE_CHANGE \<or> is_verification e then ref_latest is_command hist (ae_timestamp e)
      else None)"

fun ref_nodes :: "(string \<times> audit_event) list \<Rightarrow> (string \<times> audit_event) list \<Rightarrow> timeline_node list" where
  "ref_nodes hist [] = []"
| "ref_nodes hist ((nid, e) # rest) =
     make_node nid e (case ref_parent hist e of None \<Rightarrow> [] | Some p \<Rightarrow> [p])
       (if is_verification e \<and> ref_parent hist e \<noteq> None then ''verify'' else [])
     # ref_nodes (hist @ [(nid, e)]) rest"

definition stamped :: "(audit_event \<Rightarrow> bool) \<Rightarrow> (string \<times> audit_event) list \<Rightarrow> (string \<times> timestamp) list" where
  "stamped P hist = map (\<lambda>(i, e). (i, ae_timestamp e)) (filter (P \<circ> snd) hist)"

lemma stamped_snoc: "stamped P (hist @ [(i, e)]) = stamped P hist @ (if P e then [(i, ae_timestamp e)] else [])"
  by (simp add: stamped_def)

lemma ref_latest_eq:
  "ref_latest P hist t = (if filter (in_window t) (stamped P hist) = [] then None
     else Some (fst (last (filter (in_window t) (stamped P hist)))))"
proof -
  have "filter (in_window t) (stamped P hist) = map (\<lambda>(i, e). (i, ae_timestamp e))
      (filter (\<lambda>(i, e). P e \<and> ts_micros t - ts_micros (ae_timestamp e) \<le> 5000000) hist)"
    unfolding stamped_def filter_map filter_filter
    by (intro arg_cong [where f = "map _"] filter_cong) (auto simp: in_window_def)
  then show ?thesis
    unfolding ref_latest_def
    by (auto simp: last_map rev_swap last_rev [symmetric] hd_rev split: list.splits prod.splits)
qed

text \<open>What a window holds: for every time from now on it answers as the whole history does.\<close>

definition window_ok :: "(audit_event \<Rightarrow> bool) \<Rightarrow> (string \<times> audit_event) list \<Rightarrow> int \<Rightarrow> recent_events \<Rightarrow> bool" where
  "window_ok P hist now r \<longleftrightarrow>
     window_ms r = 5000 \<and> sorted (map (ts_micros \<circ> snd) (recent_entries r))
     \<and> (\<forall>x \<in> set (recent_entries r). ts_micros (snd x) \<le> now)
     \<and> (\<forall>t. now \<le> ts_micros t \<longrightarrow> filter (in_window t) (recent_entries r) = filter (in_window t) (stamped P hist))"

lemma window_later: "window_ok P hist now r \<Longrightarrow> now \<le> now' \<Longrightarrow> window_ok P hist now' r"
  by (force simp: window_ok_def)

lemma window_prune:
  assumes "window_ok P hist now r" and "now \<le> ts_micros t"
  shows "window_ok P hist (ts_micros t) (recent_prune t r)"
    and "recent_entries (recent_prune t r) = filter (in_window t) (stamped P hist)"
proof -
  have e: "recent_entries (recent_prune t r) = filter (in_window t) (recent_entries r)"
    using assms by (simp add: recent_prune_def window_ok_def prune_entries_eq dropWhile_sorted)
  then show "recent_entries (recent_prune t r) = filter (in_window t) (stamped P hist)"
    using assms by (simp add: window_ok_def)
  have "filter (in_window u) (filter (in_window t) (recent_entries r)) = filter (in_window u) (recent_entries r)"
    if "ts_micros t \<le> ts_micros u" for u
    unfolding filter_filter using that by (intro filter_cong) (auto simp: in_window_def)
  with assms have ans: "filter (in_window u) (filter (in_window t) (recent_entries r)) = filter (in_window u) (stamped P hist)"
    if "ts_micros t \<le> ts_micros u" for u using that by (simp add: window_ok_def)
  have srt: "sorted (map (ts_micros \<circ> snd) (filter (in_window t) (recent_entries r)))"
    using assms by (intro sorted_filter) (simp add: window_ok_def)
  have "\<forall>x \<in> set (filter (in_window t) (recent_entries r)). ts_micros (snd x) \<le> ts_micros t"
  proof
    fix x assume "x \<in> set (filter (in_window t) (recent_entries r))"
    with assms(1) have "ts_micros (snd x) \<le> now" by (simp add: window_ok_def)
    with assms(2) show "ts_micros (snd x) \<le> ts_micros t" by simp
  qed
  with assms ans srt show "window_ok P hist (ts_micros t) (recent_prune t r)"
    unfolding window_ok_def e by (simp add: recent_prune_def)
qed

lemma window_latest:
  assumes "window_ok P hist now r" and "now \<le> ts_micros t"
  shows "fst (latest_within_window t r) = ref_latest P hist t"
    and "window_ok P hist (ts_micros t) (snd (latest_within_window t r))"
  using window_prune [OF assms] by (simp_all add: latest_within_window_def Let_def ref_latest_eq)

lemma window_push:
  assumes "window_ok P hist now r" and "now \<le> ts_micros (ae_timestamp e)" and "P e"
  shows "window_ok P (hist @ [(i, e)]) (ts_micros (ae_timestamp e)) (push i (ae_timestamp e) r)"
  using window_prune [OF assms(1,2)] assms(3)
  by (auto simp: window_ok_def push_def Let_def stamped_snoc sorted_append)

lemma window_skip:
  assumes "window_ok P hist now r" and "now \<le> ts_micros (ae_timestamp e)" and "\<not> P e"
  shows "window_ok P (hist @ [(i, e)]) (ts_micros (ae_timestamp e)) r"
  using window_later [OF assms(1,2)] assms(3) by (simp add: window_ok_def stamped_snoc)

lemmas kind_defs = is_command_def is_model_def is_verification_def

lemma scan_nodes_ref:
  assumes "window_ok is_command hist now rc" and "window_ok is_model hist now rm"
    and "sorted (map (\<lambda>x. ts_micros (ae_timestamp (snd x))) rest)" and "\<forall>x \<in> set rest. now \<le> ts_micros (ae_timestamp (snd x))"
  shows "scan_nodes rc rm rest = ref_nodes hist rest"
  using assms
proof (induction rest arbitrary: hist now rc rm)
  case Nil
  then show ?case by simp
next
  case (Cons x rest)
  obtain i e where x: "x = (i, e)" by fastforce
  let ?t = "ae_timestamp e" and ?h = "hist @ [(i, e)]"
  have now: "now \<le> ts_micros ?t" and rest: "sorted (map (\<lambda>x. ts_micros (ae_timestamp (snd x))) rest)"
      "\<forall>x \<in> set rest. ts_micros ?t \<le> ts_micros (ae_timestamp (snd x))"
    using Cons.prems x by auto
  note IH = Cons.IH [OF _ _ rest, of ?h]
  note wc = Cons.prems(1) and wm = Cons.prems(2)
  obtain pc rc' where c: "latest_within_window ?t rc = (pc, rc')" by fastforce
  obtain pm rm' where m: "latest_within_window ?t rm = (pm, rm')" by fastforce
  from window_latest [OF wc now] c have lc: "pc = ref_latest is_command hist ?t"
    "window_ok is_command hist (ts_micros ?t) rc'" by simp_all
  from window_latest [OF wm now] m have lm: "pm = ref_latest is_model hist ?t"
    "window_ok is_model hist (ts_micros ?t) rm'" by simp_all
  consider (c_cmd) "is_command e" | (c_model) "is_model e" | (c_file) "ae_event_type e = FILE_CHANGE"
    | (c_verify) "is_verification e" | (c_tool) "ae_event_type e = TOOL_CALL"
    | (c_other) "\<not> is_command e" "\<not> is_model e" "ae_event_type e \<noteq> FILE_CHANGE" "\<not> is_verification e" "ae_event_type e \<noteq> TOOL_CALL"
    by blast
  then show ?case
  proof cases
    case c_cmd
    then have k: "\<not> is_model e" by (auto simp: kind_defs)
    have "scan_nodes (push i ?t rc) rm' rest = ref_nodes ?h rest"
      by (rule IH [OF window_push [where P = is_command, OF wc now c_cmd] window_skip [OF lm(2) order_refl k]])
    with x m lm c_cmd show ?thesis by (auto simp: ref_parent_def Let_def kind_defs)
  next
    case c_model
    then have k: "\<not> is_command e" by (auto simp: kind_defs)
    have "scan_nodes rc (push i ?t rm) rest = ref_nodes ?h rest"
      by (rule IH [OF window_skip [where P = is_command, OF wc now k] window_push [OF wm now c_model]])
    with x c_model show ?thesis by (auto simp: ref_parent_def Let_def kind_defs)
  next
    case c_file
    then have k: "\<not> is_command e" "\<not> is_model e" by (auto simp: kind_defs)
    have "scan_nodes rc' rm rest = ref_nodes ?h rest"
      by (rule IH [OF window_skip [where P = is_command, OF lc(2) order_refl k(1)] window_skip [OF wm now k(2)]])
    with x c lc c_file show ?thesis by (auto simp: ref_parent_def Let_def kind_defs)
  next
    case c_verify
    then have k: "\<not> is_command e" "\<not> is_model e" by (auto simp: kind_defs)
    have "scan_nodes rc' rm rest = ref_nodes ?h rest"
      by (rule IH [OF window_skip [where P = is_command, OF lc(2) order_refl k(1)] window_skip [OF wm now k(2)]])
    with x c lc c_verify show ?thesis by (auto simp: ref_parent_def Let_def kind_defs)
  next
    case c_tool
    then have k: "\<not> is_command e" "\<not> is_model e" by (auto simp: kind_defs)
    have "scan_nodes rc rm' rest = ref_nodes ?h rest"
      by (rule IH [OF window_skip [where P = is_command, OF wc now k(1)] window_skip [OF lm(2) order_refl k(2)]])
    with x m lm c_tool show ?thesis by (auto simp: ref_parent_def Let_def kind_defs)
  next
    case c_other
    have "scan_nodes rc rm rest = ref_nodes ?h rest"
      by (rule IH [OF window_skip [where P = is_command, OF wc now c_other(1)] window_skip [OF wm now c_other(2)]])
    with x c_other show ?thesis by (auto simp: ref_parent_def Let_def)
  qed
qed

lemma window_ok_init: "window_ok P [] now \<lparr>window_ms = CORRELATION_WINDOW_MS, recent_entries = []\<rparr>"
  by (simp add: window_ok_def CORRELATION_WINDOW_MS_def stamped_def)

section \<open>Unique ids\<close>

definition numbered :: "string \<Rightarrow> int \<Rightarrow> string" where
  "numbered t n = (if n = 1 then t else t @ ''#'' @ int_str n)"

lemma int_str_no_hash: "CHR ''#'' \<notin> set (int_str i)"
  by (auto simp: int_str_def is_digit_def code_def dest: nat_str_digits)

lemma hash_split: "CHR ''#'' \<notin> set s \<Longrightarrow> CHR ''#'' \<notin> set t \<Longrightarrow> s @ CHR ''#'' # u = t @ CHR ''#'' # v \<Longrightarrow> s = t \<and> u = v"
  by (metis list.inject split_char_append join_split)

lemma numbered_inj:
  assumes "CHR ''#'' \<notin> set s" and "CHR ''#'' \<notin> set t" and "numbered s m = numbered t n"
  shows "s = t \<and> m = n"
proof (cases "m = 1 \<or> n = 1")
  case True
  with assms show ?thesis by (auto simp: numbered_def split: if_splits)
next
  case False
  with assms have "s @ CHR ''#'' # int_str m = t @ CHR ''#'' # int_str n" by (simp add: numbered_def)
  from hash_split [OF assms(1,2) this] show ?thesis by (simp add: int_str_inj)
qed

lemma number_events_ids:
  assumes "(i, e) \<in> set (number_events occ es)" and "\<forall>t. 0 \<le> dict_get_default occ t 0"
  shows "e \<in> set es \<and> (\<exists>n > dict_get_default occ (ae_trace_id e) 0. i = numbered (ae_trace_id e) n)"
  using assms
proof (induction es arbitrary: occ)
  case Nil
  then show ?case by simp
next
  case (Cons x es)
  let ?c = "dict_get_default occ (ae_trace_id x) 0 + 1" and ?occ = "dict_set (ae_trace_id x) (dict_get_default occ (ae_trace_id x) 0 + 1) occ"
  have ge: "\<forall>t. 0 \<le> dict_get_default ?occ t 0" and le: "dict_get_default occ t 0 \<le> dict_get_default ?occ t 0" for t
    using Cons.prems(2) by (auto simp: dict_get_default_def split: option.splits)
  show ?case
  proof (cases "(i, e) \<in> set (number_events ?occ es)")
    case True
    from Cons.IH [OF True ge] le show ?thesis by (auto intro: order.strict_trans1)
  next
    case False
    with Cons.prems(1) have "e = x" "i = numbered (ae_trace_id x) ?c" by (auto simp: numbered_def Let_def)
    then show ?thesis by (auto intro!: exI [of _ ?c])
  qed
qed

lemma number_events_distinct:
  assumes "\<forall>e \<in> set es. CHR ''#'' \<notin> set (ae_trace_id e)" and "\<forall>t. 0 \<le> dict_get_default occ t 0"
  shows "distinct (map fst (number_events occ es))"
  using assms
proof (induction es arbitrary: occ)
  case Nil
  then show ?case by simp
next
  case (Cons x es)
  let ?c = "dict_get_default occ (ae_trace_id x) 0 + 1" and ?occ = "dict_set (ae_trace_id x) (dict_get_default occ (ae_trace_id x) 0 + 1) occ"
  have ge: "\<forall>t. 0 \<le> dict_get_default ?occ t 0"
    using Cons.prems(2) by (auto simp: dict_get_default_def split: option.splits)
  have "numbered (ae_trace_id x) ?c \<notin> fst ` set (number_events ?occ es)"
  proof
    assume "numbered (ae_trace_id x) ?c \<in> fst ` set (number_events ?occ es)"
    then obtain e where "(numbered (ae_trace_id x) ?c, e) \<in> set (number_events ?occ es)" by auto
    from number_events_ids [OF this ge] obtain n where "e \<in> set es" "dict_get_default ?occ (ae_trace_id e) 0 < n"
      "numbered (ae_trace_id x) ?c = numbered (ae_trace_id e) n" by blast
    with Cons.prems(1) have "ae_trace_id x = ae_trace_id e \<and> ?c = n" by (intro numbered_inj) auto
    with \<open>_ < n\<close> show False by (auto simp: dict_get_default_def)
  qed
  with Cons ge show ?case by (auto simp: Let_def numbered_def)
qed

lemma map_snd_number_events: "map snd (number_events occ es) = es"
  by (induction es arbitrary: occ) (simp_all add: Let_def)

lemma number_events_nonempty_id: "(i, e) \<in> set (number_events occ es) \<Longrightarrow> i = [] \<Longrightarrow> ae_trace_id e = []"
  by (induction es arbitrary: occ) (auto simp: Let_def split: if_splits)

section \<open>The dictionary of nodes\<close>

lemma scan_nodes_fields:
  "map (\<lambda>n. (tn_event n, child_ids n, node_id n)) (scan_nodes rc rm ids)
     = map (\<lambda>(i, e). (e, [], if i = [] then ae_trace_id e else i)) ids"
  by (induction rc rm ids rule: scan_nodes.induct) (auto simp: make_node_def Let_def split: prod.splits)

lemma length_scan_nodes [simp]: "length (scan_nodes rc rm ids) = length ids"
  using arg_cong [OF scan_nodes_fields, of length] by simp

definition nodes_ok :: "node_dict \<Rightarrow> bool" where
  "nodes_ok d \<longleftrightarrow> dict_ok d \<and> (\<forall>(k, n) \<in> set d. node_id n = k)"

lemma nodes_ok_get: "nodes_ok d \<Longrightarrow> dict_get d k = Some n \<Longrightarrow> node_id n = k"
  by (auto simp: nodes_ok_def dest: map_of_SomeD)

lemma fold_set_pairs_ok: "dict_ok d \<Longrightarrow> dict_ok (fold (\<lambda>(k, v). dict_set k v) xs d)"
  by (induction xs arbitrary: d) auto

lemma fold_set_pairs_keys: "fst ` set (fold (\<lambda>(k, v). dict_set k v) xs d) = fst ` set d \<union> fst ` set xs"
  by (induction xs arbitrary: d) (simp_all add: keys_set case_prod_unfold)

lemma fold_set_pairs_items:
  "dict_ok d \<Longrightarrow> set (fold (\<lambda>(k, v). dict_set k v) xs d) \<subseteq> set d \<union> set xs"
proof (induction xs arbitrary: d)
  case (Cons x xs)
  obtain k v where x: "x = (k, v)" by fastforce
  have "set (dict_set k v d) \<subseteq> insert (k, v) (set d)"
    using Cons.prems by (auto simp: dict_items_set split: if_splits)
  with Cons.IH [of "dict_set k v d"] Cons.prems x show ?case by auto
qed simp

lemma fold_set_pairs_distinct:
  "distinct (map fst (d @ xs)) \<Longrightarrow> fold (\<lambda>(k, v). dict_set k v) xs d = d @ xs"
  by (induction xs arbitrary: d) (auto simp: dict_set_fresh)

lemma nodes_by_id_ok:
  assumes "\<forall>(i, e) \<in> set ids. i = [] \<longrightarrow> ae_trace_id e = []"
  shows "nodes_ok (nodes_by_id ids)" and "set (dict_keys (nodes_by_id ids)) = fst ` set ids"
proof -
  let ?r = "\<lparr>window_ms = CORRELATION_WINDOW_MS, recent_entries = []\<rparr>"
  let ?xs = "zip (map fst ids) (scan_nodes ?r ?r ids)"
  have "node_id n = k" if "(k, n) \<in> set ?xs" for k n
  proof -
    from that obtain j where j: "j < length ids" "k = fst (ids ! j)" "n = scan_nodes ?r ?r ids ! j"
      by (auto simp: set_zip)
    from arg_cong [OF scan_nodes_fields, of "\<lambda>l. l ! j" ?r ?r ids] j
    have "node_id n = (if k = [] then ae_trace_id (snd (ids ! j)) else k)" by (auto split: prod.splits)
    moreover have "(k, snd (ids ! j)) \<in> set ids" using j by (metis nth_mem prod.collapse)
    ultimately show ?thesis using assms by auto
  qed
  then show "nodes_ok (nodes_by_id ids)"
    using fold_set_pairs_items [of "[]" ?xs] fold_set_pairs_ok [of "[]" ?xs]
    by (auto simp: nodes_ok_def nodes_by_id_def Let_def)
  show "set (dict_keys (nodes_by_id ids)) = fst ` set ids"
    using fold_set_pairs_keys [of ?xs "[]"]
    by (simp add: nodes_by_id_def Let_def) (metis length_map length_scan_nodes list.set_map map_fst_zip)
qed

lemma nodes_by_id_distinct:
  assumes "distinct (map fst ids)"
  shows "nodes_by_id ids = zip (map fst ids)
     (scan_nodes \<lparr>window_ms = CORRELATION_WINDOW_MS, recent_entries = []\<rparr> \<lparr>window_ms = CORRELATION_WINDOW_MS, recent_entries = []\<rparr> ids)"
  unfolding nodes_by_id_def Let_def using assms by (subst fold_set_pairs_distinct) simp_all

text \<open>Wiring the children changes nothing but the children.\<close>

definition childless :: "node_dict \<Rightarrow> node_dict" where
  "childless d = map (\<lambda>(k, n). (k, n\<lparr>child_ids := []\<rparr>)) d"

lemma childless_set: "dict_get d k = Some n \<Longrightarrow> childless (dict_set k (n\<lparr>child_ids := cs\<rparr>) d) = childless d"
  by (induction d) (auto simp: childless_def)

lemma childless_add_child: "childless (add_child c p d) = childless d"
  by (simp add: add_child_def childless_set split: option.splits)

lemma wire_children_eq:
  "wire_children d = fold (\<lambda>(c, p). add_child c p)
     (concat (map (\<lambda>n. map (Pair (node_id n)) (parent_ids n)) (dict_values d))) d"
proof -
  have "fold (\<lambda>n. fold (add_child (node_id n)) (parent_ids n)) ns x
      = fold (\<lambda>(c, p). add_child c p) (concat (map (\<lambda>n. map (Pair (node_id n)) (parent_ids n)) ns)) x" for ns x
    by (induction ns arbitrary: x) (simp_all add: fold_map o_def)
  then show ?thesis unfolding wire_children_def .
qed

lemma childless_wire: "childless (wire_children d) = childless d"
proof -
  have "childless (fold (\<lambda>(c, p). add_child c p) xs x) = childless x" for xs x
    by (induction xs arbitrary: x) (auto simp: childless_add_child)
  then show ?thesis by (simp add: wire_children_eq)
qed

lemma get_add_child:
  "dict_get (add_child c p d) q =
     map_option (\<lambda>n. n\<lparr>child_ids := child_ids n @ (if q = p then [c] else [])\<rparr>) (dict_get d q)"
  by (auto simp: add_child_def option.map_ident split: option.splits)

lemma get_add_children:
  "dict_get (fold (\<lambda>(c, p). add_child c p) xs d) q =
     map_option (\<lambda>n. n\<lparr>child_ids := child_ids n @ map fst (filter (\<lambda>(c, p). p = q) xs)\<rparr>) (dict_get d q)"
  by (induction xs arbitrary: d) (auto simp: get_add_child option.map_comp o_def option.map_ident)

definition children :: "node_dict \<Rightarrow> string \<Rightarrow> string list" where
  "children d x = (case dict_get d x of None \<Rightarrow> [] | Some n \<Rightarrow> child_ids n)"

lemma wired_child:
  assumes "n \<in> set (dict_values d)" and "p \<in> set (parent_ids n)" and "p \<in> set (dict_keys d)"
  shows "node_id n \<in> set (children (wire_children d) p)"
proof -
  from assms(3) obtain m where "dict_get d p = Some m" by (metis dict_get_None_iff not_None_eq)
  with assms(1,2) show ?thesis
    by (force simp: children_def wire_children_eq get_add_children image_iff)
qed

lemma childless_map:
  assumes "childless d = childless d'" and "\<And>n cs. f (n\<lparr>child_ids := cs\<rparr>) = f n"
  shows "map f (dict_values d) = map f (dict_values d')"
  using arg_cong [OF assms(1), of "map (f \<circ> snd)"] assms(2) by (simp add: childless_def o_def case_prod_unfold)

lemma childless_keys: "childless d = childless d' \<Longrightarrow> dict_keys d = dict_keys d'"
  by (drule arg_cong [where f = "map fst"]) (simp add: childless_def o_def case_prod_unfold)

lemma wire_keys [simp]: "dict_keys (wire_children d) = dict_keys d"
  by (rule childless_keys) (rule childless_wire)

lemmas wire_map = childless_map [OF childless_wire]

lemma nodes_ok_alt: "nodes_ok d \<longleftrightarrow> dict_ok d \<and> map node_id (dict_values d) = dict_keys d"
  by (auto simp: nodes_ok_def map_eq_conv)

lemma nodes_ok_wire: "nodes_ok d \<Longrightarrow> nodes_ok (wire_children d)"
  using wire_map [of node_id d] unfolding nodes_ok_alt wire_keys by simp

section \<open>Walking the chains\<close>

definition closed :: "node_dict \<Rightarrow> string set \<Rightarrow> string set \<Rightarrow> bool" where
  "closed d V S \<longleftrightarrow> (\<forall>x \<in> V. set (children d x) \<subseteq> V \<union> S)"

text \<open>A walk collects each node it newly visits once, visits all of its stack, and leaves no child
  behind.\<close>

definition walked :: "node_dict \<Rightarrow> string set \<Rightarrow> timeline_node list \<Rightarrow> string set \<Rightarrow> bool" where
  "walked d V ns V' \<longleftrightarrow> V \<subseteq> V' \<and> distinct (map node_id ns) \<and> node_id ` set ns = V' \<inter> set (dict_keys d) - V
     \<and> (\<forall>n \<in> set ns. dict_get d (node_id n) = Some n)"

lemma walked_trans:
  assumes "walked d V ns V'" and "walked d V' ms V''"
  shows "walked d V (ns @ ms) V''"
proof -
  from assms have "V \<subseteq> V'" "V' \<subseteq> V''" "node_id ` set ns = V' \<inter> set (dict_keys d) - V"
    "node_id ` set ms = V'' \<inter> set (dict_keys d) - V'" by (simp_all add: walked_def)
  then have "node_id ` set (ns @ ms) = V'' \<inter> set (dict_keys d) - V" "node_id ` set ns \<inter> node_id ` set ms = {}" "V \<subseteq> V''"
    unfolding set_append image_Un by blast+
  with assms show ?thesis by (auto simp: walked_def)
qed

lemma walked_refl [simp]: "walked d V [] V' \<longleftrightarrow> V \<subseteq> V' \<and> V' \<inter> set (dict_keys d) \<subseteq> V"
  by (auto simp: walked_def)

lemma walked_step:
  assumes "nodes_ok d" and "x \<notin> V" and "dict_get d x = Some n"
  shows "walked d V [n] (insert x V)"
proof -
  have "node_id n = x" using assms nodes_ok_get by blast
  moreover have "x \<in> set (dict_keys d)" using assms(3) by (metis dict_get_None_iff option.distinct(1))
  ultimately show ?thesis using assms by (auto simp: walked_def)
qed

lemma walk_chain_spec:
  assumes "nodes_ok d" and "walk_chain d v st = (ns, v')"
  shows "walked d (set v) ns (set v') \<and> set st \<subseteq> set v'
     \<and> (closed d (set v) (set st) \<longrightarrow> closed d (set v') {})"
  using assms
proof (induction d v st arbitrary: ns v' rule: walk_chain.induct)
  case (1 d v)
  then show ?case by (auto simp: closed_def)
next
  case (2 d v nid st)
  show ?case
  proof (cases "nid \<in> set v")
    case True
    with "2.prems" have "walk_chain d v st = (ns, v')" by simp
    from "2.IH"(1) [OF True "2.prems"(1) this] True show ?thesis
      by (auto simp: walked_def closed_def)
  next
    case new: False
    show ?thesis
    proof (cases "dict_get d nid")
      case None
      with new "2.prems" have "walk_chain d (nid # v) st = (ns, v')" by simp
      from "2.IH"(2) [OF new None "2.prems"(1) this] None
      have w: "walked d (set (nid # v)) ns (set v')" "set st \<subseteq> set v'"
        "closed d (set (nid # v)) (set st) \<longrightarrow> closed d (set v') {}" by blast+
      have "walked d (set v) [] (set (nid # v))" using None by (auto simp: dict_get_None_iff)
      from walked_trans [OF this w(1)] have "walked d (set v) ns (set v')" by simp
      moreover have "closed d (set (nid # v)) (set st)" if "closed d (set v) (set (nid # st))"
        using that None by (auto simp: closed_def children_def)
      moreover from w(1) have "nid \<in> set v'" by (auto simp: walked_def)
      ultimately show ?thesis using w by auto
    next
      case (Some node)
      obtain ms u where rec: "walk_chain d (nid # v) (child_ids node @ st) = (ms, u)" by fastforce
      with new Some "2.prems" have eq: "ns = node # ms" "v' = u" by simp_all
      from "2.IH"(3) [OF new Some "2.prems"(1) rec]
      have w: "walked d (set (nid # v)) ms (set u)" "set st \<subseteq> set u"
        "closed d (set (nid # v)) (set (child_ids node @ st)) \<longrightarrow> closed d (set u) {}" by auto
      from walked_step [OF "2.prems"(1) new Some] w(1) have "walked d (set v) ([node] @ ms) (set u)"
        by (intro walked_trans) simp_all
      moreover have "closed d (set (nid # v)) (set (child_ids node @ st))" if "closed d (set v) (set (nid # st))"
        using that Some by (auto simp: closed_def children_def)
      moreover from w(1) have "nid \<in> set u" by (auto simp: walked_def)
      ultimately show ?thesis using w eq by auto
    qed
  qed
qed

definition nodes_of :: "timeline_chain list \<Rightarrow> timeline_node list" where
  "nodes_of cs = concat (map chain_nodes cs)"

lemma build_chains_spec:
  assumes "nodes_ok d" and "build_chains d ns idx v = (cs, v')"
  shows "walked d (set v) (nodes_of cs) (set v')
     \<and> (\<forall>n \<in> set ns. parent_ids n = [] \<longrightarrow> node_id n \<in> set v')
     \<and> (closed d (set v) {} \<longrightarrow> closed d (set v') {})"
  using assms(2)
proof (induction ns arbitrary: idx v cs v')
  case Nil
  then show ?case by (simp add: nodes_of_def)
next
  case (Cons n ns)
  show ?case
  proof (cases "parent_ids n = [] \<and> node_id n \<notin> set v")
    case False
    with Cons.prems have "build_chains d ns idx v = (cs, v')" by auto
    from Cons.IH [OF this] False show ?thesis by (auto simp: walked_def)
  next
    case True
    obtain cn u where w: "walk_chain d v [node_id n] = (cn, u)" by fastforce
    note ws = walk_chain_spec [OF assms(1) w]
    show ?thesis
    proof (cases "cn = []")
      case nil: True
      with Cons.prems True w have "build_chains d ns idx u = (cs, v')" by simp
      from Cons.IH [OF this] ws nil show ?thesis
        using walked_trans [of d "set v" "[]" "set u" "nodes_of cs" "set v'"]
        by (auto simp: walked_def [of d "set u"] closed_def)
    next
      case False
      obtain cs1 v1 where r: "build_chains d ns (idx + 1) u = (cs1, v1)" by fastforce
      with Cons.prems True w False have eq: "cs = make_chain (idx + 1) cn # cs1" "v' = v1" by simp_all
      from Cons.IH [OF r] ws eq show ?thesis
        using walked_trans [of d "set v" cn "set u" "nodes_of cs1" "set v1"]
        by (auto simp: nodes_of_def make_chain_def walked_def [of d "set u"] closed_def)
    qed
  qed
qed

section \<open>No event is lost\<close>

lemma ref_parent_earlier: "ref_parent hist e = Some p \<Longrightarrow> p \<in> fst ` set hist"
proof -
  have "ref_latest P hist t = Some p \<Longrightarrow> p \<in> fst ` set hist" for P t
  proof -
    assume "ref_latest P hist t = Some p"
    then obtain e xs where "rev (filter (\<lambda>(i, e). P e \<and> ts_micros t - ts_micros (ae_timestamp e) \<le> 5000000) hist) = (p, e) # xs"
      by (auto simp: ref_latest_def split: list.splits)
    then have "(p, e) \<in> set (rev (filter (\<lambda>(i, e). P e \<and> ts_micros t - ts_micros (ae_timestamp e) \<le> 5000000) hist))"
      by simp
    then show ?thesis by force
  qed
  then show "ref_parent hist e = Some p \<Longrightarrow> p \<in> fst ` set hist"
    by (auto simp: ref_parent_def split: if_splits)
qed

lemma ref_nodes_parents:
  "j < length ids \<Longrightarrow> p \<in> set (parent_ids (ref_nodes hist ids ! j)) \<Longrightarrow> p \<in> fst ` set (hist @ take j ids)"
proof (induction ids arbitrary: hist j)
  case Nil
  then show ?case by simp
next
  case (Cons x ids)
  obtain i e where x: "x = (i, e)" by fastforce
  show ?case
  proof (cases j)
    case 0
    with Cons.prems x show ?thesis
      by (auto simp: make_node_def dest: ref_parent_earlier dest!: sym [of "Some p"] split: option.splits)
  next
    case (Suc k)
    with Cons.IH [of k "hist @ [(i, e)]"] Cons.prems x show ?thesis by simp
  qed
qed

abbreviation fresh_window :: recent_events where
  "fresh_window \<equiv> \<lparr>window_ms = CORRELATION_WINDOW_MS, recent_entries = []\<rparr>"

lemma scan_fresh:
  assumes "sorted (map (\<lambda>x. ts_micros (ae_timestamp (snd x))) ids)"
  shows "scan_nodes fresh_window fresh_window ids = ref_nodes [] ids"
proof (cases ids)
  case Nil
  then show ?thesis by simp
next
  case (Cons x xs)
  with assms show ?thesis
    by (intro scan_nodes_ref [where now = "ts_micros (ae_timestamp (snd x))"] window_ok_init) auto
qed

text \<open>With distinct ids every node is reached from a root: its parent comes earlier.\<close>

lemma all_visited:
  assumes ids: "distinct (map fst ids)" "sorted (map (\<lambda>x. ts_micros (ae_timestamp (snd x))) ids)"
    and tr: "\<forall>(i, e) \<in> set ids. i = [] \<longrightarrow> ae_trace_id e = []"
    and b: "build_chains (wire_children (nodes_by_id ids)) (dict_values (wire_children (nodes_by_id ids))) 0 [] = (cs, v)"
  shows "j < length ids \<Longrightarrow> fst (ids ! j) \<in> set v"
proof (induction j rule: less_induct)
  case (less j)
  let ?base = "nodes_by_id ids" and ?d = "wire_children (nodes_by_id ids)"
  let ?n = "ref_nodes [] ids ! j"
  have d0: "?base = zip (map fst ids) (ref_nodes [] ids)" using nodes_by_id_distinct [OF ids(1)] scan_fresh [OF ids(2)] by simp
  have len: "length (ref_nodes [] ids) = length ids" using scan_fresh [OF ids(2)] length_scan_nodes by metis
  have ok: "nodes_ok ?base" and keys: "set (dict_keys ?base) = fst ` set ids" using nodes_by_id_ok [OF tr] by blast+
  have vals: "dict_values ?base = ref_nodes [] ids" using d0 len by simp
  have nid: "node_id ?n = fst (ids ! j)"
    using ok less.prems len by (simp add: nodes_ok_alt d0) (metis length_map nth_map)
  have spec: "\<forall>n \<in> set (dict_values ?d). parent_ids n = [] \<longrightarrow> node_id n \<in> set v" "closed ?d (set v) {}"
    using build_chains_spec [OF nodes_ok_wire [OF ok] b] by (auto simp: closed_def)
  show ?case
  proof (cases "parent_ids ?n")
    case Nil
    have "(node_id ?n, parent_ids ?n) \<in> set (map (\<lambda>n. (node_id n, parent_ids n)) (dict_values ?base))"
      using less.prems len vals by (auto intro!: image_eqI [of _ _ ?n] simp del: list.set_map simp: set_map)
    then have "(node_id ?n, []) \<in> set (map (\<lambda>n. (node_id n, parent_ids n)) (dict_values ?d))"
      using wire_map [of "\<lambda>n. (node_id n, parent_ids n)" ?base] Nil by simp
    with spec(1) nid show ?thesis by auto
  next
    case (Cons p ps)
    then have "p \<in> fst ` set (take j ids)" using ref_nodes_parents [OF less.prems, of p "[]"] by simp
    then obtain k where k: "k < j" "p = fst (ids ! k)" using less.prems by (auto simp: in_set_conv_nth)
    with less have "p \<in> set v" by simp
    moreover have "node_id ?n \<in> set (children ?d p)"
    proof (rule wired_child)
      show "?n \<in> set (dict_values ?base)" using vals less.prems len by simp
      show "p \<in> set (parent_ids ?n)" using Cons by simp
      show "p \<in> set (dict_keys ?base)" using keys k less.prems by auto
    qed
    ultimately show ?thesis using spec(2) nid by (auto simp: closed_def)
  qed
qed

text \<open>What \<open>build_timeline\<close> works on.\<close>

lemma identified_facts:
  assumes "assign_unique_node_ids es = Inr ids"
  shows "sorted (map (\<lambda>x. ts_micros (ae_timestamp (snd x))) ids)"
    and "\<forall>(i, e) \<in> set ids. i = [] \<longrightarrow> ae_trace_id e = []"
    and "map snd ids = sort_key (ts_micros \<circ> ae_timestamp) es"
proof -
  from assms have ids: "ids = number_events [] (sort_key (ts_micros \<circ> ae_timestamp) es)"
    by (auto simp: assign_unique_node_ids_def ordered_timeline_def split: sum.splits if_splits)
  show sn: "map snd ids = sort_key (ts_micros \<circ> ae_timestamp) es" by (simp add: ids map_snd_number_events)
  have "map (\<lambda>x. ts_micros (ae_timestamp (snd x))) ids
      = map (ts_micros \<circ> ae_timestamp) (sort_key (ts_micros \<circ> ae_timestamp) es)"
    using arg_cong [OF sn, of "map (ts_micros \<circ> ae_timestamp)"] by (simp add: o_def)
  then show "sorted (map (\<lambda>x. ts_micros (ae_timestamp (snd x))) ids)" by (simp del: map_map)
  show "\<forall>(i, e) \<in> set ids. i = [] \<longrightarrow> ae_trace_id e = []"
    using number_events_nonempty_id ids by blast
qed

lemma identified_distinct:
  assumes "assign_unique_node_ids es = Inr ids" and "\<forall>e \<in> set es. CHR ''#'' \<notin> set (ae_trace_id e)"
  shows "distinct (map fst ids)"
  using assms
  by (auto simp: assign_unique_node_ids_def ordered_timeline_def dict_get_default_def
      split: sum.splits if_splits intro!: number_events_distinct)

lemma timeline_parts:
  assumes "build_timeline es = Inr tline" and "assign_unique_node_ids es = Inr ids" and "ids \<noteq> []"
  obtains v where "build_chains (wire_children (nodes_by_id ids)) (dict_values (wire_children (nodes_by_id ids))) 0 []
      = (chains tline, v)"
    and "orphan_nodes tline = filter (\<lambda>n. node_id n \<notin> set v) (dict_values (wire_children (nodes_by_id ids)))"
  using assms by (auto simp: build_timeline_def timeline_of_def Let_def split: prod.splits)

lemma distinct_values:
  assumes "nodes_ok d"
  shows "distinct (dict_values d)" and "\<And>n. n \<in> set (dict_values d) \<longleftrightarrow> dict_get d (node_id n) = Some n"
proof -
  show "distinct (dict_values d)" using assms by (metis distinct_map nodes_ok_alt)
  show "n \<in> set (dict_values d) \<longleftrightarrow> dict_get d (node_id n) = Some n" for n
    using assms by (force simp: nodes_ok_def dict_mem_iff [symmetric])
qed

lemma timeline_partition:
  assumes "build_timeline es = Inr tline" and "assign_unique_node_ids es = Inr ids"
  shows "distinct (map node_id (nodes_of (chains tline) @ orphan_nodes tline))
    \<and> set (map node_id (nodes_of (chains tline) @ orphan_nodes tline)) = fst ` set ids"
proof (cases "ids = []")
  case True
  with assms show ?thesis by (auto simp: build_timeline_def timeline_of_def nodes_of_def)
next
  case False
  let ?d = "wire_children (nodes_by_id ids)"
  have ok: "nodes_ok ?d" and keys: "set (dict_keys ?d) = fst ` set ids"
    using nodes_by_id_ok [OF identified_facts(2) [OF assms(2)]] by (simp_all only: nodes_ok_wire wire_keys)
  obtain v where b: "build_chains ?d (dict_values ?d) 0 [] = (chains tline, v)"
    and o: "orphan_nodes tline = filter (\<lambda>n. node_id n \<notin> set v) (dict_values ?d)"
    using timeline_parts [OF assms False] .
  have w: "distinct (map node_id (nodes_of (chains tline)))"
    "node_id ` set (nodes_of (chains tline)) = set v \<inter> set (dict_keys ?d)"
    using build_chains_spec [OF ok b] by (simp_all add: walked_def)
  have on: "map node_id (orphan_nodes tline) = filter (\<lambda>k. k \<notin> set v) (dict_keys ?d)"
    using ok unfolding o nodes_ok_alt by (metis (no_types, lifting) comp_apply filter_cong filter_map)
  have "dict_ok ?d" using ok by (simp add: nodes_ok_def)
  with w on have "distinct (map node_id (nodes_of (chains tline)) @ map node_id (orphan_nodes tline))"
    "set (map node_id (nodes_of (chains tline)) @ map node_id (orphan_nodes tline)) = set (dict_keys ?d)"
    by (auto simp del: wire_keys)
  with keys show ?thesis by simp
qed

section \<open>Properties\<close>

text \<open>C27. The pruned windows find exactly the parents a scan of the whole history would find: for
  every event the latest earlier event of the causing kind that is at most five seconds older,
  although the age is computed with two rounding steps.\<close>

theorem window_equals_history_scan:
  assumes "assign_unique_node_ids es = Inr ids"
  shows "scan_nodes fresh_window fresh_window ids = ref_nodes [] ids"
  using identified_facts(1) [OF assms] by (rule scan_fresh)

text \<open>Every node of the timeline is in exactly one chain or is an orphan, exactly once, whatever
  the trace ids are.\<close>

theorem chains_partition_nodes:
  assumes "build_timeline es = Inr tline" and "assign_unique_node_ids es = Inr ids"
  shows "distinct (map node_id (nodes_of (chains tline) @ orphan_nodes tline))
    \<and> set (map node_id (nodes_of (chains tline) @ orphan_nodes tline)) = fst ` set ids"
  by (rule timeline_partition [OF assms])

text \<open>C26. When no trace id contains the mark \<open>#\<close>, node ids are unique, there are no orphans, and every
  audit event is in exactly one chain.\<close>

theorem every_event_in_one_chain:
  assumes "build_timeline es = Inr tline" and "\<forall>e \<in> set es. CHR ''#'' \<notin> set (ae_trace_id e)"
  shows "orphan_nodes tline = [] \<and> mset (map tn_event (nodes_of (chains tline))) = mset es"
proof -
  from assms(1) obtain ids where ids: "assign_unique_node_ids es = Inr ids"
    by (auto simp: build_timeline_def split: sum.splits)
  note facts = identified_facts [OF ids] and dist = identified_distinct [OF ids assms(2)]
  show ?thesis
  proof (cases "ids = []")
    case True
    with facts(3) have "es = []" by (metis length_0_conv length_map length_sort)
    with True assms ids show ?thesis by (auto simp: build_timeline_def timeline_of_def nodes_of_def)
  next
    case False
    let ?d = "wire_children (nodes_by_id ids)"
    have ok: "nodes_ok ?d" and keys: "set (dict_keys ?d) = fst ` set ids"
      using nodes_by_id_ok [OF facts(2)] by (simp_all only: nodes_ok_wire wire_keys)
    obtain v where b: "build_chains ?d (dict_values ?d) 0 [] = (chains tline, v)"
      and o: "orphan_nodes tline = filter (\<lambda>n. node_id n \<notin> set v) (dict_values ?d)"
      using timeline_parts [OF assms(1) ids False] .
    have "fst ` set ids \<subseteq> set v"
      using all_visited [OF dist facts(1,2) b] by (metis image_subsetI in_set_conv_nth)
    then have "set (dict_keys ?d) \<subseteq> set v" using keys by simp
    then have all: "node_id n \<in> set v" if "n \<in> set (dict_values ?d)" for n
      using that ok by (metis image_eqI list.set_map nodes_ok_alt subsetD)
    with build_chains_spec [OF ok b] \<open>set (dict_keys ?d) \<subseteq> set v\<close>
    have w: "distinct (map node_id (nodes_of (chains tline)))"
      "node_id ` set (nodes_of (chains tline)) = set (dict_keys ?d)"
      "\<forall>n \<in> set (nodes_of (chains tline)). dict_get ?d (node_id n) = Some n" by (auto simp: walked_def simp del: wire_keys)
    have "set (nodes_of (chains tline)) = set (dict_values ?d)"
    proof
      show "set (nodes_of (chains tline)) \<subseteq> set (dict_values ?d)" using w(3) distinct_values(2) [OF ok] by blast
      show "set (dict_values ?d) \<subseteq> set (nodes_of (chains tline))"
      proof
        fix n assume n: "n \<in> set (dict_values ?d)"
        with ok have "node_id n \<in> node_id ` set (nodes_of (chains tline))" using w(2) by (metis imageI list.set_map nodes_ok_alt)
        then obtain m where "m \<in> set (nodes_of (chains tline))" "node_id m = node_id n" by auto
        with n w(3) distinct_values(2) [OF ok] show "n \<in> set (nodes_of (chains tline))" by (metis option.inject)
      qed
    qed
    then have "mset (nodes_of (chains tline)) = mset (dict_values ?d)"
      using w(1) distinct_values(1) [OF ok] by (metis distinct_map set_eq_iff_mset_eq_distinct)
    then have "mset (map tn_event (nodes_of (chains tline))) = mset (map tn_event (dict_values ?d))" by (simp del: map_map)
    also have "map tn_event (dict_values ?d) = map tn_event (dict_values (nodes_by_id ids))" by (rule wire_map) simp
    also have "\<dots> = map snd ids"
      using arg_cong [OF scan_nodes_fields, of "map fst" fresh_window fresh_window ids]
      by (simp add: nodes_by_id_distinct [OF dist] o_def case_prod_unfold del: map_map)
        (simp add: o_def)
    finally show ?thesis using facts(3) all o by (simp add: filter_empty_conv)
  qed
qed

definition demo_events :: "audit_event list" where
  "demo_events = [(demo_event 9000000 ''c'')\<lparr>ae_event_type := COMMAND_RUN\<rparr>,
     (demo_event 4000000 ''m'')\<lparr>ae_event_type := MODEL_RESPONSE\<rparr>, demo_event 0 ''x'']"

theorem window_equals_history_scan_witness:
  "scan_nodes fresh_window fresh_window (case assign_unique_node_ids demo_events of Inr ids \<Rightarrow> ids)
     = ref_nodes [] (case assign_unique_node_ids demo_events of Inr ids \<Rightarrow> ids)"
  by (rule window_equals_history_scan [of demo_events])
    (simp add: assign_unique_node_ids_def ordered_timeline_def demo_events_def demo_event_def ts_aware_def)

theorem chains_partition_nodes_witness:
  "\<exists>tline ids. build_timeline demo_events = Inr tline \<and> assign_unique_node_ids demo_events = Inr ids
     \<and> distinct (map node_id (nodes_of (chains tline) @ orphan_nodes tline))
     \<and> set (map node_id (nodes_of (chains tline) @ orphan_nodes tline)) = fst ` set ids"
proof -
  have "\<exists>ids. assign_unique_node_ids demo_events = Inr ids"
    by (simp add: assign_unique_node_ids_def ordered_timeline_def demo_events_def demo_event_def ts_aware_def)
  then obtain ids where ids: "assign_unique_node_ids demo_events = Inr ids" by blast
  then have "build_timeline demo_events = Inr (timeline_of ids)" by (simp add: build_timeline_def)
  with chains_partition_nodes [OF this ids] ids show ?thesis by blast
qed

theorem every_event_in_one_chain_witness:
  "\<exists>tline. build_timeline demo_events = Inr tline \<and> orphan_nodes tline = []
     \<and> mset (map tn_event (nodes_of (chains tline))) = mset demo_events"
proof -
  have "\<exists>tline. build_timeline demo_events = Inr tline"
    by (simp add: build_timeline_def assign_unique_node_ids_def ordered_timeline_def demo_events_def demo_event_def ts_aware_def)
  then obtain tline where t: "build_timeline demo_events = Inr tline" by blast
  have "\<forall>e \<in> set demo_events. CHR ''#'' \<notin> set (ae_trace_id e)" by (simp add: demo_events_def demo_event_def)
  from every_event_in_one_chain [OF t this] t show ?thesis by blast
qed

text \<open>Node ids are not unique in general: a trace id that already looks numbered collides with a
  numbered one, and the earlier event disappears from the timeline.\<close>

theorem numbered_trace_id_collides:
  "case build_timeline (map (\<lambda>(t, i). (demo_event t [])\<lparr>ae_trace_id := i\<rparr>) [(0, ''a#2''), (1, ''a''), (2, ''a'')]) of
     Inr tline \<Rightarrow> map (ts_micros \<circ> ae_timestamp \<circ> tn_event) (nodes_of (chains tline) @ orphan_nodes tline) = [2, 1]
   | Inl _ \<Rightarrow> False"
  by code_simp

end
