(* ===== verification/Event_Stream.thy ===== *)
theory Event_Stream
  imports Audit_Schema
begin

text \<open>
  \<open>audit/event_stream.py\<close>: audit events from the agent's event stream. A stream event is an object of
  any class with its attributes; an attribute is a plain value or an enum member. Reading a missing
  attribute raises \<open>AttributeError\<close>, and a text field that is not a text raises \<open>TypeError\<close>. The parser
  \<open>datetime.fromisoformat\<close> is an argument (\<open>fromiso\<close>).
\<close>

datatype attr = Val pyval | EnumMember string pyval

record stream_event =
  se_class :: string
  se_attrs :: "(string, attr) dict"
  se_metadata :: "payload option"
  se_object_id :: int

definition TEST_COMMAND_MARKERS :: "string list" where
  "TEST_COMMAND_MARKERS = [''pytest'', ''pre-commit'', ''npm test'', ''npm run test'', ''npm run build'',
     ''mvn test'', ''gradle test'', ''go test'', ''cargo test'']"

section \<open>Reading an event\<close>

fun enum_value :: "attr \<Rightarrow> pyval" where
  "enum_value (Val v) = v"
| "enum_value (EnumMember n v) = v"

text \<open>\<open>getattr(event, name, default)\<close>, with an enum member replaced by its value.\<close>

definition ev_attr :: "stream_event \<Rightarrow> string \<Rightarrow> pyval \<Rightarrow> pyval" where
  "ev_attr e k d = (case dict_get (se_attrs e) k of None \<Rightarrow> d | Some a \<Rightarrow> enum_value a)"

text \<open>\<open>event.name\<close> where the code needs a text.\<close>

definition ev_text :: "stream_event \<Rightarrow> string \<Rightarrow> string res" where
  "ev_text e k =
     (case dict_get (se_attrs e) k of
        None \<Rightarrow> Inl (OtherError ''AttributeError'' k)
      | Some a \<Rightarrow> (case enum_value a of PStr s \<Rightarrow> Inr s | _ \<Rightarrow> Inl (TypeError k)))"

definition ev_value :: "stream_event \<Rightarrow> string \<Rightarrow> pyval res" where
  "ev_value e k =
     (case dict_get (se_attrs e) k of None \<Rightarrow> Inl (OtherError ''AttributeError'' k) | Some a \<Rightarrow> Inr (enum_value a))"

definition metadata_attr :: "stream_event \<Rightarrow> string \<Rightarrow> pyval" where
  "metadata_attr e k = (case se_metadata e of None \<Rightarrow> PNone | Some m \<Rightarrow> dict_get_default m k PNone)"

definition event_trace_id :: "(pyval \<Rightarrow> string) \<Rightarrow> stream_event \<Rightarrow> string" where
  "event_trace_id rp e =
     (let response_id = ev_attr e ''response_id'' PNone; event_id = ev_attr e ''id'' (PInt (-1)) in
      if py_truthy response_id then py_str rp response_id
      else if event_id \<noteq> PInt (-1) then ''event-'' @ py_str rp event_id
      else ''event-'' @ int_str (se_object_id e))"

definition event_timestamp :: "(string \<Rightarrow> timestamp res) \<Rightarrow> timestamp \<Rightarrow> stream_event \<Rightarrow> timestamp res" where
  "event_timestamp fromiso now e =
     (let t = ev_attr e ''timestamp'' PNone in
      if py_truthy t then (case t of PStr s \<Rightarrow> fromiso s | _ \<Rightarrow> Inl (TypeError ''fromisoformat: argument must be str''))
      else Inr now)"

definition truncate_text :: "string \<Rightarrow> nat \<Rightarrow> string" where
  "truncate_text v max_chars =
     (if length v \<le> max_chars then v
      else let keep = max_chars div 2 in take keep v @ [nl] @ ''...'' @ [nl] @ last_slice keep v)"

definition looks_like_test_command :: "string \<Rightarrow> bool" where
  "looks_like_test_command command = list_ex (\<lambda>m. contains m (lower command)) TEST_COMMAND_MARKERS"

section \<open>One event\<close>

text \<open>The fields every audit event of one stream event shares.\<close>

record event_head =
  eh_trace_id :: string
  eh_task_id :: "string option"
  eh_timestamp :: timestamp

definition make_event ::
  "event_head \<Rightarrow> audit_event_type \<Rightarrow> string \<Rightarrow> string \<Rightarrow> payload \<Rightarrow> audit_event" where
  "make_event h ty ph summary pl =
     \<lparr>ae_trace_id = eh_trace_id h, ae_task_id = eh_task_id h, ae_event_type = ty, ae_phase = Some ph,
      ae_timestamp = eh_timestamp h, ae_summary = summary, ae_payload = pl, ae_duration_ms = None, ae_cost_usd = None\<rparr>"

text \<open>A message: the new value of \<open>first_user_message_seen\<close> and the events.\<close>

definition message_events :: "event_head \<Rightarrow> bool \<Rightarrow> stream_event \<Rightarrow> (bool \<times> audit_event list) res" where
  "message_events h seen e =
     (let source = ev_attr e ''source'' PNone in
      if source = PStr ''user'' then
        res_map (\<lambda>content. (True,
          (if seen then [] else [make_event h TASK_CREATED ''plan'' (truncate_text content 300) [(''source'', PStr ''user'')]])
          @ [make_event h USER_MESSAGE ''plan'' (truncate_text content 300) [(''source'', PStr ''user'')]])) (ev_text e ''content'')
      else if source = PStr ''agent'' then
        res_map (\<lambda>content. (seen, [make_event h MODEL_RESPONSE ''execute'' (truncate_text content 300) [(''source'', PStr ''agent'')]]))
          (ev_text e ''content'')
      else Inr (seen, []))"

definition command_events :: "event_head \<Rightarrow> stream_event \<Rightarrow> audit_event list res" where
  "command_events h e =
     res_map (\<lambda>command.
       [make_event h COMMAND_RUN ''execute'' command
          [(''command'', PStr command), (''cwd'', ev_attr e ''cwd'' PNone),
           (''blocking'', ev_attr e ''blocking'' (PBool False)),
           (''security_risk'', ev_attr e ''security_risk'' PNone),
           (''confirmation_state'', ev_attr e ''confirmation_state'' PNone)]]
       @ (if ev_attr e ''confirmation_state'' PNone = PStr ''awaiting_confirmation''
          then [make_event (h\<lparr>eh_trace_id := eh_trace_id h @ '':approval''\<rparr>) APPROVAL_REQUESTED ''execute''
                  (''Approval requested for command: '' @ command)
                  [(''subject_type'', PStr ''command''), (''command'', PStr command),
                   (''security_risk'', ev_attr e ''security_risk'' PNone)]]
          else [])) (ev_text e ''command'')"

definition command_output_events :: "event_head \<Rightarrow> stream_event \<Rightarrow> audit_event list res" where
  "command_output_events h e =
     res_bind (ev_text e ''command'') (\<lambda>command. res_map (\<lambda>content.
       let ty = (if looks_like_test_command command then TEST_RESULT else COMMAND_RUN) in
       [make_event h ty (if ty = TEST_RESULT then ''verify'' else ''execute'') command
          [(''command'', PStr command), (''exit_code'', metadata_attr e ''exit_code''),
           (''working_dir'', metadata_attr e ''working_dir''), (''output'', PStr (truncate_text content 1200))]])
       (ev_text e ''content''))"

definition file_request_events :: "event_head \<Rightarrow> stream_event \<Rightarrow> audit_event list res" where
  "file_request_events h e =
     res_map (\<lambda>path. [make_event h FILE_CHANGE ''execute'' (''Change requested for '' @ path)
        [(''path'', PStr path), (''action'', ev_attr e ''action'' (PStr ''file_change'')),
         (''security_risk'', ev_attr e ''security_risk'' PNone)]]) (ev_text e ''path'')"

definition file_changed_events :: "event_head \<Rightarrow> stream_event \<Rightarrow> audit_event list res" where
  "file_changed_events h e =
     res_bind (ev_text e ''path'') (\<lambda>path. res_map (\<lambda>content.
       [make_event h FILE_CHANGE ''execute'' (''Changed '' @ path)
          [(''path'', PStr path), (''diff'', ev_attr e ''diff'' PNone), (''content'', PStr (truncate_text content 1200))]])
       (ev_text e ''content''))"

definition mcp_action_events :: "event_head \<Rightarrow> stream_event \<Rightarrow> audit_event list res" where
  "mcp_action_events h e =
     res_bind (ev_text e ''name'') (\<lambda>name. res_map (\<lambda>args.
       [make_event h TOOL_CALL ''execute'' (''MCP tool call: '' @ name) [(''tool'', PStr name), (''arguments'', args)]])
       (ev_value e ''arguments''))"

definition mcp_observation_events :: "event_head \<Rightarrow> stream_event \<Rightarrow> audit_event list res" where
  "mcp_observation_events h e =
     res_bind (ev_text e ''name'') (\<lambda>name. res_bind (ev_value e ''arguments'') (\<lambda>args. res_map (\<lambda>content.
       [make_event h TOOL_CALL ''execute'' (''MCP tool result: '' @ name)
          [(''tool'', PStr name), (''arguments'', args), (''output'', PStr (truncate_text content 1200))]])
       (ev_text e ''content'')))"

definition rejection_events :: "event_head \<Rightarrow> stream_event \<Rightarrow> audit_event list res" where
  "rejection_events h e =
     Inr [make_event h APPROVAL_DECISION ''execute'' ''Approval rejected by user''
            [(''decision'', PStr ''rejected''), (''message'', ev_attr e ''content'' (PStr []))]]"

section \<open>The stream\<close>

definition convert_event :: "event_head \<Rightarrow> bool \<Rightarrow> stream_event \<Rightarrow> (bool \<times> audit_event list) res" where
  "convert_event h seen e =
     (let k = se_class e; keep = res_map (Pair seen) in
      if k = ''MessageAction'' then message_events h seen e
      else if k = ''CmdRunAction'' then keep (command_events h e)
      else if k = ''CmdOutputObservation'' then keep (command_output_events h e)
      else if k = ''FileEditAction'' \<or> k = ''FileWriteAction'' then keep (file_request_events h e)
      else if k = ''FileEditObservation'' \<or> k = ''FileWriteObservation'' then keep (file_changed_events h e)
      else if k = ''MCPAction'' then keep (mcp_action_events h e)
      else if k = ''MCPObservation'' then keep (mcp_observation_events h e)
      else if k = ''UserRejectObservation'' then keep (rejection_events h e)
      else Inr (seen, []))"

fun convert_stream ::
  "(pyval \<Rightarrow> string) \<Rightarrow> (string \<Rightarrow> timestamp res) \<Rightarrow> timestamp \<Rightarrow> string option \<Rightarrow> bool \<Rightarrow> stream_event list \<Rightarrow> audit_event list res" where
  "convert_stream rp fromiso now task_id seen [] = Inr []"
| "convert_stream rp fromiso now task_id seen (e # es) =
     res_bind (event_timestamp fromiso now e) (\<lambda>t.
       res_bind (convert_event \<lparr>eh_trace_id = event_trace_id rp e, eh_task_id = task_id, eh_timestamp = t\<rparr> seen e) (\<lambda>(seen', out).
         res_map (\<lambda>rest. out @ rest) (convert_stream rp fromiso now task_id seen' es)))"

definition audit_events_from_event_stream ::
  "(pyval \<Rightarrow> string) \<Rightarrow> (string \<Rightarrow> timestamp res) \<Rightarrow> timestamp \<Rightarrow> stream_event list \<Rightarrow> string option \<Rightarrow> audit_event list res" where
  "audit_events_from_event_stream rp fromiso now es task_id = convert_stream rp fromiso now task_id False es"

section \<open>Lemmas\<close>

lemma make_event_fields [simp]:
  "ae_event_type (make_event h ty ph s pl) = ty" "ae_summary (make_event h ty ph s pl) = s"
  "ae_payload (make_event h ty ph s pl) = pl" "ae_trace_id (make_event h ty ph s pl) = eh_trace_id h"
  by (simp_all add: make_event_def)

lemmas kind_events_defs = command_events_def command_output_events_def file_request_events_def file_changed_events_def
  mcp_action_events_def mcp_observation_events_def rejection_events_def

text \<open>A message of the user.\<close>

definition user_message :: "stream_event \<Rightarrow> bool" where
  "user_message e \<longleftrightarrow> se_class e = ''MessageAction'' \<and> ev_attr e ''source'' PNone = PStr ''user''"

text \<open>What one event contributes to the record of user input.\<close>

lemma convert_event_user:
  assumes "convert_event h seen e = Inr (seen', out)" and "user_message e"
  shows "\<exists>c. ev_text e ''content'' = Inr c \<and> seen'
     \<and> filter (\<lambda>a. ae_event_type a = TASK_CREATED) out
         = (if seen then [] else [make_event h TASK_CREATED ''plan'' (truncate_text c 300) [(''source'', PStr ''user'')]])
     \<and> filter (\<lambda>a. ae_event_type a = USER_MESSAGE) out
         = [make_event h USER_MESSAGE ''plan'' (truncate_text c 300) [(''source'', PStr ''user'')]]"
  using assms by (auto simp: convert_event_def user_message_def message_events_def Let_def)

lemma convert_event_other:
  assumes "convert_event h seen e = Inr (seen', out)" and "\<not> user_message e"
  shows "seen' = seen \<and> (\<forall>a \<in> set out. ae_event_type a \<noteq> TASK_CREATED \<and> ae_event_type a \<noteq> USER_MESSAGE)"
  using assms
  by (auto simp: convert_event_def user_message_def message_events_def kind_events_defs Let_def split: if_splits)

lemma convert_stream_user:
  assumes "convert_stream rp fi now task seen es = Inr out"
  shows "length (filter (\<lambda>a. ae_event_type a = TASK_CREATED) out) = (if \<not> seen \<and> list_ex user_message es then 1 else 0)
     \<and> map (Inr \<circ> ae_summary) (filter (\<lambda>a. ae_event_type a = USER_MESSAGE) out)
       = map (\<lambda>e. res_map (\<lambda>c. truncate_text c 300) (ev_text e ''content'')) (filter user_message es)"
  using assms
proof (induction es arbitrary: seen out)
  case Nil
  then show ?case by simp
next
  case (Cons e es)
  then obtain t seen' o1 o2 where
    c: "convert_event \<lparr>eh_trace_id = event_trace_id rp e, eh_task_id = task, eh_timestamp = t\<rparr> seen e = Inr (seen', o1)"
    and r: "convert_stream rp fi now task seen' es = Inr o2" and out: "out = o1 @ o2" by auto
  show ?case
  proof (cases "user_message e")
    case True
    from convert_event_user [OF c True] Cons.IH [OF r] True out show ?thesis
      by (auto simp: res_map_def)
  next
    case False
    from convert_event_other [OF c False]
    have "filter (\<lambda>a. ae_event_type a = TASK_CREATED) o1 = []" "filter (\<lambda>a. ae_event_type a = USER_MESSAGE) o1 = []"
      "seen' = seen" by (auto simp: filter_empty_conv)
    with Cons.IH [OF r] False out show ?thesis by simp
  qed
qed

section \<open>Properties\<close>

text \<open>Converting an event stream creates the task exactly once, if the user said anything, and
  records every user message, in order, not only the first.\<close>

theorem user_input_recorded:
  assumes "audit_events_from_event_stream rp fromiso now es task = Inr out"
  shows "length (filter (\<lambda>a. ae_event_type a = TASK_CREATED) out) = (if list_ex user_message es then 1 else 0)
     \<and> map (Inr \<circ> ae_summary) (filter (\<lambda>a. ae_event_type a = USER_MESSAGE) out)
       = map (\<lambda>e. res_map (\<lambda>c. truncate_text c 300) (ev_text e ''content'')) (filter user_message es)"
  using convert_stream_user [OF assms [unfolded audit_events_from_event_stream_def]] by simp

definition demo_message :: "string \<Rightarrow> string \<Rightarrow> stream_event" where
  "demo_message src s = \<lparr>se_class = ''MessageAction'',
     se_attrs = [(''source'', EnumMember ''SRC'' (PStr src)), (''content'', Val (PStr s)), (''id'', Val (PInt 4))],
     se_metadata = None, se_object_id = 0\<rparr>"

definition demo_stream_audit :: "audit_event list" where
  "demo_stream_audit = (case audit_events_from_event_stream (\<lambda>_. []) (\<lambda>_. Inl (ValueError [])) \<lparr>ts_micros = 0, ts_offset = Some 0\<rparr>
     [demo_message ''user'' ''one'', demo_message ''agent'' ''two'', demo_message ''user'' ''three''] None of Inr es \<Rightarrow> es)"

theorem user_input_recorded_witness:
  "length (filter (\<lambda>a. ae_event_type a = TASK_CREATED) demo_stream_audit)
     = (if list_ex user_message [demo_message ''user'' ''one'', demo_message ''agent'' ''two'', demo_message ''user'' ''three''] then 1 else 0)
   \<and> map (Inr \<circ> ae_summary) (filter (\<lambda>a. ae_event_type a = USER_MESSAGE) demo_stream_audit)
     = map (\<lambda>e. res_map (\<lambda>c. truncate_text c 300) (ev_text e ''content''))
         (filter user_message [demo_message ''user'' ''one'', demo_message ''agent'' ''two'', demo_message ''user'' ''three''])"
proof (rule user_input_recorded)
  have "\<not> isl (audit_events_from_event_stream (\<lambda>_. []) (\<lambda>_. Inl (ValueError [])) \<lparr>ts_micros = 0, ts_offset = Some 0\<rparr>
     [demo_message ''user'' ''one'', demo_message ''agent'' ''two'', demo_message ''user'' ''three''] None)" by code_simp
  then show "audit_events_from_event_stream (\<lambda>_. []) (\<lambda>_. Inl (ValueError [])) \<lparr>ts_micros = 0, ts_offset = Some 0\<rparr>
     [demo_message ''user'' ''one'', demo_message ''agent'' ''two'', demo_message ''user'' ''three''] None = Inr demo_stream_audit"
    unfolding demo_stream_audit_def by (auto split: sum.splits)
qed

end
