(* ===== verification/Audit_Replay.thy ===== *)
theory Audit_Replay
  imports Audit_Timeline Event_Stream
begin

text \<open>
  \<open>audit/replay.py\<close>: the risk queues and the replay summary, over the timeline and the evidence pack;
  and what the summary shows of events that came from the event stream.
\<close>

section \<open>Data\<close>

record replay_risk_queue =
  rq_name :: string
  rq_event_ids :: "string list"
  rq_reason :: string

record audit_replay_summary =
  rs_task_id :: string
  rs_event_count :: int
  rs_chain_count :: int
  rs_total_cost_usd :: rat
  rs_total_duration_ms :: int
  rs_event_types :: "string list"
  rs_risk_queues :: "replay_risk_queue list"
  rs_timeline :: audit_timeline
  rs_audit_jsonl :: string

section \<open>Rendering\<close>

text \<open>\<open>{x:.6f}\<close>: exact decimal rounding, ties to even.\<close>

definition format_6f :: "rat \<Rightarrow> string" where
  "format_6f x =
     (let n = \<bar>round_he (x * 1000000)\<bar>
      in (if x < 0 then ''-'' else []) @ int_str (n div 1000000) @ ''.'' @ zfill 6 (n mod 1000000))"

definition backticked :: "string \<Rightarrow> string" where
  "backticked s = [CHR 0x60] @ s @ [CHR 0x60]"

definition queue_line :: "replay_risk_queue \<Rightarrow> string" where
  "queue_line q = ''- '' @ backticked (rq_name q) @ '': '' @ rq_reason q @ '' (''
     @ (if rq_event_ids q \<noteq> [] then join '', '' (rq_event_ids q) else ''-'') @ '')''"

definition chain_line :: "timeline_chain \<Rightarrow> string" where
  "chain_line c = ''- '' @ backticked (chain_id c) @ '': ''
     @ join '' -> '' (map (\<lambda>n. audit_event_type_value (ae_event_type (tn_event n))) (chain_nodes c))"

definition render_markdown :: "audit_replay_summary \<Rightarrow> string" where
  "render_markdown s = join [nl]
     ([''# ForgePilot Audit Replay'', [], ''- Task ID: '' @ backticked (rs_task_id s),
       ''- Events: '' @ int_str (rs_event_count s), ''- Chains: '' @ int_str (rs_chain_count s),
       ''- Total Cost USD: '' @ format_6f (rs_total_cost_usd s),
       ''- Total Duration MS: '' @ int_str (rs_total_duration_ms s), [], ''## Event Types'', []]
      @ map (\<lambda>t. ''- '' @ backticked t) (rs_event_types s)
      @ [[], ''## Risk Queues'', []]
      @ (if rs_risk_queues s = [] then [''No risk queues.''] else [])
      @ map queue_line (rs_risk_queues s)
      @ [[], ''## Chains'', []]
      @ map chain_line (chains (rs_timeline s)) @ [[]])"

section \<open>Risk queues\<close>

definition FAILED_STATUSES :: "string list" where
  "FAILED_STATUSES = [''failed'', ''fail'', ''error'']"

definition is_failed_verification :: "(pyval \<Rightarrow> string) \<Rightarrow> audit_event \<Rightarrow> bool" where
  "is_failed_verification rp e =
     (if lower (py_str rp (dict_get_default (ae_payload e) ''status'' (PStr []))) \<in> set FAILED_STATUSES then True
      else case dict_get_default (ae_payload e) ''exit_code'' PNone of
             PNone \<Rightarrow> False | v \<Rightarrow> py_str rp v \<noteq> ''0'')"

definition is_high_risk_command_event :: "(pyval \<Rightarrow> string) \<Rightarrow> audit_event \<Rightarrow> bool" where
  "is_high_risk_command_event rp e =
     (let risk = dict_get_default (ae_payload e) ''security_risk'' (dict_get_default (ae_payload e) ''risk'' (PStr []))
      in lower (py_str rp risk) = ''high'')"

definition queue_if :: "string \<Rightarrow> string \<Rightarrow> string list \<Rightarrow> replay_risk_queue list" where
  "queue_if nm reason ids = (if ids = [] then [] else [\<lparr>rq_name = nm, rq_event_ids = ids, rq_reason = reason\<rparr>])"

definition risk_queues :: "(pyval \<Rightarrow> string) \<Rightarrow> audit_event list \<Rightarrow> replay_risk_queue list res" where
  "risk_queues rp es =
     res_map (\<lambda>identified.
       let pick = (\<lambda>P. map fst (filter (\<lambda>(i, e). P e) identified)) in
       queue_if ''approval_required'' ''Task requested human approval before continuing.''
         (pick (\<lambda>e. ae_event_type e = APPROVAL_REQUESTED))
       @ queue_if ''failed_verification'' ''Verification or test events reported failure.''
         (pick (\<lambda>e. is_verification e \<and> is_failed_verification rp e))
       @ queue_if ''high_risk_command'' ''Command events were marked high risk by policy.''
         (pick (\<lambda>e. is_command e \<and> is_high_risk_command_event rp e)))
     (assign_unique_node_ids es)"

definition build_audit_replay_summary ::
  "(pyval \<Rightarrow> string) \<Rightarrow> timestamp \<Rightarrow> audit_event list \<Rightarrow> audit_replay_summary res" where
  "build_audit_replay_summary rp now es =
     res_bind (build_task_evidence_pack rp now es None) (\<lambda>evidence.
       res_bind (build_timeline es) (\<lambda>timeline.
         res_map (\<lambda>queues.
           \<lparr>rs_task_id = ep_task_id evidence, rs_event_count = event_count evidence,
            rs_chain_count = int (length (chains timeline)), rs_total_cost_usd = at_total_cost_usd timeline,
            rs_total_duration_ms = at_total_duration_ms timeline, rs_event_types = event_types evidence,
            rs_risk_queues = queues, rs_timeline = timeline, rs_audit_jsonl = audit_jsonl evidence\<rparr>)
         (risk_queues rp es)))"

section \<open>Lemmas\<close>

lemma queue_ids_identified:
  assumes "risk_queues rp es = Inr qs" and "assign_unique_node_ids es = Inr ids" and "q \<in> set qs"
  shows "set (rq_event_ids q) \<subseteq> fst ` set ids"
  using assms by (auto simp: risk_queues_def Let_def queue_if_def split: if_splits) (force+)

lemma int_str_not_high: "lower (int_str n) \<noteq> ''high''"
proof -
  have "CHR ''h'' \<notin> set (lower (int_str n))"
  proof
    assume "CHR ''h'' \<in> set (lower (int_str n))"
    then obtain c where c: "c \<in> set (int_str n)" "CHR ''h'' = lower_char c" by (auto simp: lower_def)
    then have "c = CHR ''-'' \<or> is_digit c" by (auto simp: int_str_def split: if_splits dest: nat_str_digits)
    then have "lower_char c = c" by (auto simp: lower_char_def is_digit_def Let_def code_def)
    with c \<open>c = CHR ''-'' \<or> is_digit c\<close> show False by (auto simp: is_digit_def code_def)
  qed
  then show ?thesis by auto
qed

section \<open>Properties\<close>

text \<open>Every id in a risk queue names a node of the summary's own timeline, in exactly one chain or
  among the orphans.\<close>

theorem risk_queue_ids_resolve:
  assumes "build_audit_replay_summary rp now es = Inr s" and "q \<in> set (rs_risk_queues s)" and "i \<in> set (rq_event_ids q)"
  shows "\<exists>!n. n \<in> set (nodes_of (chains (rs_timeline s)) @ orphan_nodes (rs_timeline s)) \<and> node_id n = i"
proof -
  from assms(1) have t: "build_timeline es = Inr (rs_timeline s)" and r: "risk_queues rp es = Inr (rs_risk_queues s)"
    by (auto simp: build_audit_replay_summary_def)
  from t obtain ids where ids: "assign_unique_node_ids es = Inr ids" by (auto simp: build_timeline_def split: sum.splits)
  have "i \<in> fst ` set ids" using queue_ids_identified [OF r ids assms(2)] assms(3) by blast
  with timeline_partition [OF t ids]
  have "i \<in> node_id ` set (nodes_of (chains (rs_timeline s)) @ orphan_nodes (rs_timeline s))"
    and "inj_on node_id (set (nodes_of (chains (rs_timeline s)) @ orphan_nodes (rs_timeline s)))"
    unfolding distinct_map set_map by simp_all
  then show ?thesis by (auto simp: inj_on_def)
qed

definition demo_request :: audit_event where
  "demo_request = (demo_event 0 [])\<lparr>ae_event_type := APPROVAL_REQUESTED\<rparr>"

theorem risk_queue_ids_resolve_witness:
  "\<exists>s. build_audit_replay_summary (\<lambda>_. []) \<lparr>ts_micros = 0, ts_offset = Some 0\<rparr> [demo_request] = Inr s
     \<and> (\<exists>!n. n \<in> set (nodes_of (chains (rs_timeline s)) @ orphan_nodes (rs_timeline s)) \<and> node_id n = ''t1'')"
proof -
  have o: "ordered_timeline [demo_request] = Inr [demo_request]"
    by (simp add: ordered_timeline_def demo_request_def demo_event_def ts_aware_def)
  then have a: "assign_unique_node_ids [demo_request] = Inr [(''t1'', demo_request)]"
    by (simp add: assign_unique_node_ids_def dict_get_default_def demo_request_def demo_event_def)
  then have q: "risk_queues (\<lambda>_. []) [demo_request] = Inr [\<lparr>rq_name = ''approval_required'', rq_event_ids = [''t1''],
      rq_reason = ''Task requested human approval before continuing.''\<rparr>]"
    by (simp add: risk_queues_def res_map_def queue_if_def demo_request_def is_verification_def is_command_def)
  obtain s where s: "build_audit_replay_summary (\<lambda>_. []) \<lparr>ts_micros = 0, ts_offset = Some 0\<rparr> [demo_request] = Inr s"
    using pack_Inr [OF o, of "\<lambda>_. []" "\<lparr>ts_micros = 0, ts_offset = Some 0\<rparr>" None] a q
    by (auto simp: build_audit_replay_summary_def build_timeline_def res_bind_def res_map_def)
  with q have "rs_risk_queues s = [\<lparr>rq_name = ''approval_required'', rq_event_ids = [''t1''],
      rq_reason = ''Task requested human approval before continuing.''\<rparr>]"
    by (auto simp: build_audit_replay_summary_def)
  with risk_queue_ids_resolve [OF s, of "hd (rs_risk_queues s)" "''t1''"] s show ?thesis by simp
qed

text \<open>A command event from the live stream never reaches the high-risk queue: the stream writes
  the numeric value of the risk level, and the queue looks for the word \<open>high\<close>.\<close>

theorem live_risk_level_not_queued:
  assumes "command_events h e = Inr out" and "ev_attr e ''security_risk'' PNone = PInt level" and "a \<in> set out"
  shows "\<not> is_high_risk_command_event rp a"
  using assms int_str_not_high [of level]
  by (auto simp: command_events_def is_high_risk_command_event_def Let_def dict_get_default_def split: if_splits)

definition demo_risky :: stream_event where
  "demo_risky = \<lparr>se_class = ''CmdRunAction'',
     se_attrs = [(''command'', Val (PStr ''rm -rf /'')), (''security_risk'', EnumMember ''HIGH'' (PInt 2))],
     se_metadata = None, se_object_id = 0\<rparr>"

theorem live_risk_level_not_queued_witness:
  "\<not> is_high_risk_command_event (\<lambda>_. []) (hd (case command_events \<lparr>eh_trace_id = ''t'', eh_task_id = None,
      eh_timestamp = \<lparr>ts_micros = 0, ts_offset = None\<rparr>\<rparr> demo_risky of Inr out \<Rightarrow> out))"
  by (rule live_risk_level_not_queued [of "\<lparr>eh_trace_id = ''t'', eh_task_id = None,
      eh_timestamp = \<lparr>ts_micros = 0, ts_offset = None\<rparr>\<rparr>" demo_risky _ 2])
    (auto simp: command_events_def ev_text_def ev_attr_def demo_risky_def res_map_def)

end
