(* ===== verification/Delivery.thy ===== *)
theory Delivery
  imports Audit_Replay
begin

text \<open>
  \<open>delivery/__init__.py\<close>: file changes, test report, commit message and pull-request text of a finished
  task. Line counters are added as Python adds numbers, so a fractional count turns the sum into a float
  and a count that is no number raises. The conversions pydantic applies to the fields \<open>passed\<close> and
  \<open>duration_ms\<close> of a test are the parameter \<open>pydantic\<close>; its text fields take texts only.
\<close>

section \<open>Data\<close>

record file_change_summary =
  fc_path :: string
  fc_action :: string
  lines_added :: pyval
  lines_removed :: pyval
  fc_description :: string

record test_result =
  tr_name :: string
  tr_passed :: bool
  tr_duration_ms :: int
  tr_output :: string
  tr_error :: string

record test_report =
  rep_total :: int
  rep_passed :: int
  rep_failed :: int
  rep_skipped :: int
  rep_duration_ms :: int
  results :: "test_result list"

definition empty_report :: test_report where
  "empty_report = \<lparr>rep_total = 0, rep_passed = 0, rep_failed = 0, rep_skipped = 0, rep_duration_ms = 0, results = []\<rparr>"

definition pass_rate :: "test_report \<Rightarrow> rat" where
  "pass_rate r = (if rep_total r = 0 then 1 else fl (of_int (rep_passed r) / of_int (rep_total r)))"

record pr_description =
  pr_title :: string
  pr_body :: string
  pr_labels :: "string list"
  pr_reviewers :: "string list"

record replay_link =
  rl_url :: string
  rl_task_id :: string
  rl_expires_at :: "timestamp option"

record delivery_artifact =
  da_task_id :: string
  da_task_title :: string
  da_generated_at :: timestamp
  da_pr_description :: "pr_description option"
  da_test_report :: "test_report option"
  da_replay_link :: "replay_link option"
  da_file_changes :: "file_change_summary list"
  da_commit_message :: string
  da_summary :: string

section \<open>Reading payloads\<close>

text \<open>pydantic's validators for \<open>int\<close> and \<open>bool\<close> fields.\<close>

record pydantic =
  pd_int :: "pyval \<Rightarrow> int res"
  pd_bool :: "pyval \<Rightarrow> bool res"

fun as_text :: "pyval \<Rightarrow> string res" where
  "as_text (PStr s) = Inr s"
| "as_text v = Inl (ValueError ''str'')"

text \<open>Whether a value can be looked up in a dictionary, and the sum of two numbers.\<close>

fun hashable :: "pyval \<Rightarrow> bool" where
  "hashable (PList vs) = False"
| "hashable (PDict d) = False"
| "hashable (PTuple vs) = list_all hashable vs"
| "hashable v = True"

fun int_of :: "pyval \<Rightarrow> int option" where
  "int_of (PInt i) = Some i"
| "int_of (PBool b) = Some (if b then 1 else 0)"
| "int_of v = None"

fun float_of :: "pyval \<Rightarrow> rat option" where
  "float_of (PFloat x) = Some x"
| "float_of v = map_option (\<lambda>i. fl (of_int i)) (int_of v)"

definition py_add :: "pyval \<Rightarrow> pyval \<Rightarrow> pyval res" where
  "py_add v w =
     (case (int_of v, int_of w) of
        (Some i, Some j) \<Rightarrow> Inr (PInt (i + j))
      | _ \<Rightarrow> (case (float_of v, float_of w) of
                (Some x, Some y) \<Rightarrow> Inr (PFloat (fl (x + y)))
              | _ \<Rightarrow> Inl (TypeError ''unsupported operand'')))"

definition payload_get :: "payload \<Rightarrow> string \<Rightarrow> pyval \<Rightarrow> pyval" where
  "payload_get d k v = dict_get_default d k v"

section \<open>File changes\<close>

definition count_change :: "audit_event \<Rightarrow> file_change_summary \<Rightarrow> file_change_summary res" where
  "count_change e c =
     res_bind (py_add (lines_added c) (payload_get (ae_payload e) ''lines_added'' (PInt 0))) (\<lambda>a.
       res_map (\<lambda>r. c\<lparr>lines_added := a, lines_removed := r\<rparr>)
         (py_add (lines_removed c) (payload_get (ae_payload e) ''lines_removed'' (PInt 0))))"

definition add_change :: "audit_event \<Rightarrow> (string, file_change_summary) dict \<Rightarrow> (string, file_change_summary) dict res" where
  "add_change e changes =
     (let path = payload_get (ae_payload e) ''path'' (PStr []) in
      if ae_event_type e \<noteq> FILE_CHANGE \<or> \<not> py_truthy path then Inr changes
      else if \<not> hashable path then Inl (TypeError ''unhashable'')
      else res_bind (as_text path) (\<lambda>p.
        res_bind (case dict_get changes p of
                    Some c \<Rightarrow> Inr c
                  | None \<Rightarrow> res_map (\<lambda>act. \<lparr>fc_path = p, fc_action = act, lines_added = PInt 0, lines_removed = PInt 0,
                                          fc_description = ae_summary e\<rparr>)
                              (as_text (payload_get (ae_payload e) ''action'' (PStr ''modified''))))
          (\<lambda>c. res_map (\<lambda>c'. dict_set p c' changes) (count_change e c))))"

fun fold_changes :: "audit_event list \<Rightarrow> (string, file_change_summary) dict \<Rightarrow> (string, file_change_summary) dict res" where
  "fold_changes [] changes = Inr changes"
| "fold_changes (e # es) changes = res_bind (add_change e changes) (fold_changes es)"

definition extract_file_changes :: "audit_event list \<Rightarrow> file_change_summary list res" where
  "extract_file_changes es = res_map dict_values (fold_changes es [])"

section \<open>Test results\<close>

fun read_test :: "pydantic \<Rightarrow> pyval \<Rightarrow> test_result res" where
  "read_test pd (PDict t) =
     res_bind (as_text (payload_get t ''name'' (PStr ''unnamed''))) (\<lambda>nm.
     res_bind (pd_bool pd (payload_get t ''passed'' (PBool True))) (\<lambda>ok.
     res_bind (pd_int pd (payload_get t ''duration_ms'' (PInt 0))) (\<lambda>d.
     res_bind (as_text (payload_get t ''output'' (PStr []))) (\<lambda>out.
     res_map (\<lambda>err. \<lparr>tr_name = nm, tr_passed = ok, tr_duration_ms = d, tr_output = out, tr_error = err\<rparr>)
       (as_text (payload_get t ''error'' (PStr [])))))))"
| "read_test pd v = Inl (OtherError ''AttributeError'' ''get'')"

definition add_result :: "test_result \<Rightarrow> test_report \<Rightarrow> test_report" where
  "add_result t r =
     (let r' = r\<lparr>results := results r @ [t], rep_total := rep_total r + 1\<rparr>
      in if tr_passed t then r'\<lparr>rep_passed := rep_passed r' + 1\<rparr> else r'\<lparr>rep_failed := rep_failed r' + 1\<rparr>)"

fun add_tests :: "pydantic \<Rightarrow> pyval list \<Rightarrow> test_report \<Rightarrow> test_report res" where
  "add_tests pd [] r = Inr r"
| "add_tests pd (t # ts) r = res_bind (read_test pd t) (\<lambda>x. add_tests pd ts (add_result x r))"

definition add_verification :: "pydantic \<Rightarrow> audit_event \<Rightarrow> test_report \<Rightarrow> test_report res" where
  "add_verification pd e r =
     (if ae_event_type e \<noteq> VERIFICATION then Inr r
      else res_map (\<lambda>r'. r'\<lparr>rep_duration_ms := rep_duration_ms r' + (case ae_duration_ms e of None \<Rightarrow> 0 | Some d \<Rightarrow> d)\<rparr>)
        (case payload_get (ae_payload e) ''tests'' (PList []) of PList ts \<Rightarrow> add_tests pd ts r | _ \<Rightarrow> Inr r))"

fun fold_results :: "pydantic \<Rightarrow> audit_event list \<Rightarrow> test_report \<Rightarrow> test_report res" where
  "fold_results pd [] r = Inr r"
| "fold_results pd (e # es) r = res_bind (add_verification pd e r) (fold_results pd es)"

definition extract_test_results :: "pydantic \<Rightarrow> audit_event list \<Rightarrow> test_report res" where
  "extract_test_results pd es = fold_results pd es empty_report"

section \<open>Texts\<close>

definition generate_commit_message :: "string \<Rightarrow> file_change_summary list \<Rightarrow> string" where
  "generate_commit_message title changes =
     (let scope = join '', '' (map fc_path (take 3 changes))
            @ (if 3 < length changes then '' (+'' @ int_str (int (length changes) - 3) @ '' more)'' else [])
      in ''forgepilot: '' @ title @ [nl, nl] @ ''Affected: '' @ scope)"

definition change_mark :: "string \<Rightarrow> string" where
  "change_mark act = dict_get_default [(''added'', ''+''), (''modified'', ''~''), (''deleted'', ''-''),
     (''renamed'', [CHR 0xE2, CHR 0x86, CHR 0x92])] act ''?''"

text \<open>\<open>{x:.4f}\<close> and \<open>{x:.0%}\<close>; the latter multiplies by 100 in floating point.\<close>

definition format_4f :: "rat \<Rightarrow> string" where
  "format_4f x =
     (let n = \<bar>round_he (x * 10000)\<bar>
      in (if x < 0 then ''-'' else []) @ int_str (n div 10000) @ ''.'' @ zfill 4 (n mod 10000))"

definition format_percent :: "rat \<Rightarrow> string" where
  "format_percent x = int_str (round_he (fl (x * 100))) @ ''%''"

definition verification_lines :: "test_report \<Rightarrow> string list" where
  "verification_lines rep =
     (if 0 < rep_total rep then
        (''**'' @ int_str (rep_passed rep) @ ''/'' @ int_str (rep_total rep) @ '' tests passed** (''
           @ format_percent (pass_rate rep) @ '' pass rate)'')
        # map (\<lambda>r. ''- FAIL: '' @ backticked (tr_name r) @ '' '' @ [CHR 0xE2, CHR 0x80, CHR 0x94] @ '' '' @ tr_error r)
            (filter (\<lambda>r. \<not> tr_passed r) (results rep))
      else [''Verification commands ran successfully (see audit replay).''])"

definition generate_pr_body :: "string \<Rightarrow> file_change_summary list \<Rightarrow> test_report \<Rightarrow> audit_timeline \<Rightarrow> string" where
  "generate_pr_body objective changes rep timeline = join [nl]
     ([''## Summary'', [], objective, [], ''## Changes'', []]
      @ map (\<lambda>c. ''- '' @ backticked (change_mark (fc_action c)) @ '' '' @ backticked (fc_path c) @ '' - '' @ fc_description c) changes
      @ [[], ''## Verification'', []] @ verification_lines rep
      @ [[], ''## Audit Replay'', [], ''Full execution trace: '' @ at_summary timeline,
         ''Cost: $'' @ format_4f (at_total_cost_usd timeline) @ '' | Duration: '' @ int_str (at_total_duration_ms timeline) @ ''ms'',
         [], ''---'', ''Generated by ForgePilot Studio''])"

definition generate_delivery_artifact ::
  "pydantic \<Rightarrow> timestamp \<Rightarrow> string \<Rightarrow> string \<Rightarrow> string \<Rightarrow> audit_event list \<Rightarrow> string \<Rightarrow> string list \<Rightarrow> string list \<Rightarrow> delivery_artifact res" where
  "generate_delivery_artifact pd now task_id title objective events base_url labels reviewers =
     res_bind (ordered_timeline events) (\<lambda>sorted_events.
     res_bind (build_timeline sorted_events) (\<lambda>timeline.
     res_bind (extract_file_changes sorted_events) (\<lambda>changes.
     res_map (\<lambda>rep.
       \<lparr>da_task_id = task_id, da_task_title = title, da_generated_at = now,
        da_pr_description = Some \<lparr>pr_title = ''forgepilot: '' @ title,
          pr_body = generate_pr_body objective changes rep timeline, pr_labels = labels, pr_reviewers = reviewers\<rparr>,
        da_test_report = Some rep,
        da_replay_link = Some \<lparr>rl_url = base_url @ ''/'' @ task_id, rl_task_id = task_id, rl_expires_at = None\<rparr>,
        da_file_changes = changes, da_commit_message = generate_commit_message title changes,
        da_summary = at_summary timeline\<rparr>)
     (extract_test_results pd sorted_events))))"

section \<open>Lemmas\<close>

definition report_ok :: "test_report \<Rightarrow> bool" where
  "report_ok r \<longleftrightarrow> rep_total r = int (length (results r))
     \<and> rep_passed r = int (length (filter tr_passed (results r)))
     \<and> rep_failed r = int (length (filter (\<lambda>t. \<not> tr_passed t) (results r)))"

lemma add_result_ok: "report_ok r \<Longrightarrow> report_ok (add_result t r)"
  by (auto simp: report_ok_def add_result_def Let_def)

lemma add_tests_ok: "add_tests pd ts r = Inr r' \<Longrightarrow> report_ok r \<Longrightarrow> report_ok r'"
  by (induction ts arbitrary: r) (auto intro: add_result_ok)

lemma report_ok_duration [simp]: "report_ok (r\<lparr>rep_duration_ms := d\<rparr>) = report_ok r"
  by (simp add: report_ok_def)

lemma add_verification_ok: "add_verification pd e r = Inr r' \<Longrightarrow> report_ok r \<Longrightarrow> report_ok r'"
  by (auto simp: add_verification_def intro: add_tests_ok split: if_splits pyval.splits)

lemma fold_results_ok: "fold_results pd es r = Inr r' \<Longrightarrow> report_ok r \<Longrightarrow> report_ok r'"
  by (induction es arbitrary: r) (auto dest: add_verification_ok)

lemma no_verification_no_tests:
  "\<forall>e \<in> set es. ae_event_type e \<noteq> VERIFICATION \<Longrightarrow> fold_results pd es r = Inr r"
  by (induction es) (auto simp: add_verification_def res_bind_def)

text \<open>The lines a path is charged with.\<close>

definition change_of :: "string \<Rightarrow> audit_event \<Rightarrow> bool" where
  "change_of p e \<longleftrightarrow> ae_event_type e = FILE_CHANGE \<and> payload_get (ae_payload e) ''path'' (PStr []) = PStr p"

definition added_by :: "audit_event \<Rightarrow> pyval" where
  "added_by e = payload_get (ae_payload e) ''lines_added'' (PInt 0)"

definition removed_by :: "audit_event \<Rightarrow> pyval" where
  "removed_by e = payload_get (ae_payload e) ''lines_removed'' (PInt 0)"

text \<open>Python's \<open>sum\<close> from a start value.\<close>

fun py_total :: "pyval \<Rightarrow> pyval list \<Rightarrow> pyval res" where
  "py_total acc [] = Inr acc"
| "py_total acc (v # vs) = res_bind (py_add acc v) (\<lambda>a. py_total a vs)"

lemma py_total_ints: "py_total (PInt i) (map PInt ns) = Inr (PInt (i + sum_list ns))"
  by (induction ns arbitrary: i) (auto simp: py_add_def res_bind_def)

definition added_to :: "(string, file_change_summary) dict \<Rightarrow> string \<Rightarrow> pyval" where
  "added_to d p = (case dict_get d p of None \<Rightarrow> PInt 0 | Some c \<Rightarrow> lines_added c)"

definition removed_from :: "(string, file_change_summary) dict \<Rightarrow> string \<Rightarrow> pyval" where
  "removed_from d p = (case dict_get d p of None \<Rightarrow> PInt 0 | Some c \<Rightarrow> lines_removed c)"

definition changes_ok :: "(string, file_change_summary) dict \<Rightarrow> bool" where
  "changes_ok d \<longleftrightarrow> dict_ok d \<and> (\<forall>(k, c) \<in> set d. fc_path c = k)"

text \<open>One event: it leaves the dictionary alone or charges its lines to its path.\<close>

lemma add_change_cases:
  assumes "add_change e d = Inr d'" and "changes_ok d"
  obtains (none) "d' = d" "\<And>p. p \<noteq> [] \<Longrightarrow> \<not> change_of p e"
  | (path) p and c' :: file_change_summary where "p \<noteq> []" "change_of p e" "d' = dict_set p c' d" "fc_path c' = p"
      "py_add (added_to d p) (added_by e) = Inr (lines_added c')"
      "py_add (removed_from d p) (removed_by e) = Inr (lines_removed c')"
proof (cases "ae_event_type e \<noteq> FILE_CHANGE \<or> \<not> py_truthy (payload_get (ae_payload e) ''path'' (PStr []))")
  case True
  with assms(1) have "d' = d" by (auto simp: add_change_def Let_def)
  moreover have "\<not> change_of p e" if "p \<noteq> []" for p using True that by (auto simp: change_of_def)
  ultimately show ?thesis using none by blast
next
  case False
  with assms(1) obtain p c c' where p: "as_text (payload_get (ae_payload e) ''path'' (PStr [])) = Inr p"
    and c: "(case dict_get d p of Some c \<Rightarrow> Inr c
             | None \<Rightarrow> res_map (\<lambda>act. \<lparr>fc_path = p, fc_action = act, lines_added = PInt 0, lines_removed = PInt 0,
                 fc_description = ae_summary e\<rparr>) (as_text (payload_get (ae_payload e) ''action'' (PStr ''modified'')))) = Inr c"
    and c': "count_change e c = Inr c'" and d': "d' = dict_set p c' d"
    by (auto simp: add_change_def Let_def split: if_splits)
  from p have pp: "payload_get (ae_payload e) ''path'' (PStr []) = PStr p"
    by (cases "payload_get (ae_payload e) ''path'' (PStr [])") auto
  with False have "p \<noteq> []" "change_of p e" by (auto simp: change_of_def)
  moreover have "fc_path c = p" using c assms(2) by (auto simp: changes_ok_def split: option.splits dest: map_of_SomeD)
  moreover have "added_to d p = lines_added c" "removed_from d p = lines_removed c"
    using c by (auto simp: added_to_def removed_from_def split: option.splits)
  moreover from c' have "fc_path c' = fc_path c" "py_add (lines_added c) (added_by e) = Inr (lines_added c')"
      "py_add (lines_removed c) (removed_by e) = Inr (lines_removed c')"
    by (auto simp: count_change_def added_by_def removed_by_def)
  ultimately show ?thesis using path [of p c'] d' by simp
qed

lemma add_change_spec:
  assumes "add_change e d = Inr d'" and "changes_ok d"
  shows "changes_ok d'"
    and "p \<noteq> [] \<Longrightarrow> if change_of p e
           then py_add (added_to d p) (added_by e) = Inr (added_to d' p)
              \<and> py_add (removed_from d p) (removed_by e) = Inr (removed_from d' p)
           else added_to d' p = added_to d p \<and> removed_from d' p = removed_from d p"
    and "p \<noteq> [] \<Longrightarrow> p \<in> set (dict_keys d') \<longleftrightarrow> p \<in> set (dict_keys d) \<or> change_of p e"
    and "[] \<notin> set (dict_keys d) \<Longrightarrow> [] \<notin> set (dict_keys d')"
proof -
  have uniq: "change_of p e \<Longrightarrow> change_of q e \<Longrightarrow> p = q" for p q by (simp add: change_of_def)
  note cs = add_change_cases [OF assms]
  show "changes_ok d'"
    using assms(2) by (cases rule: cs) (auto simp: changes_ok_def dict_items_set split: if_splits)
  show "p \<noteq> [] \<Longrightarrow> if change_of p e
           then py_add (added_to d p) (added_by e) = Inr (added_to d' p)
              \<and> py_add (removed_from d p) (removed_by e) = Inr (removed_from d' p)
           else added_to d' p = added_to d p \<and> removed_from d' p = removed_from d p"
    by (cases rule: cs) (auto simp: added_to_def removed_from_def dest: uniq split: option.splits)
  show "p \<noteq> [] \<Longrightarrow> p \<in> set (dict_keys d') \<longleftrightarrow> p \<in> set (dict_keys d) \<or> change_of p e"
    by (cases rule: cs) (auto simp: keys_set dest: uniq)
  show "[] \<notin> set (dict_keys d) \<Longrightarrow> [] \<notin> set (dict_keys d')"
    by (cases rule: cs) (auto simp: keys_set)
qed

lemma fold_changes_spec:
  assumes "fold_changes es d = Inr d'" and "changes_ok d" and "[] \<notin> set (dict_keys d)"
  shows "changes_ok d' \<and> [] \<notin> set (dict_keys d')
    \<and> (\<forall>p. p \<noteq> [] \<longrightarrow> py_total (added_to d p) (map added_by (filter (change_of p) es)) = Inr (added_to d' p)
        \<and> py_total (removed_from d p) (map removed_by (filter (change_of p) es)) = Inr (removed_from d' p)
        \<and> (p \<in> set (dict_keys d') \<longleftrightarrow> p \<in> set (dict_keys d) \<or> list_ex (change_of p) es))"
  using assms
proof (induction es arbitrary: d)
  case Nil
  then show ?case by simp
next
  case (Cons e es)
  then obtain d1 where d1: "add_change e d = Inr d1" and r: "fold_changes es d1 = Inr d'" by auto
  note s = add_change_spec [OF d1 Cons.prems(2)]
  from Cons.IH [OF r s(1) s(4) [OF Cons.prems(3)]] s(2,3) show ?case by (auto split: if_splits)
qed

section \<open>Properties\<close>

text \<open>The file list of a delivery names every changed path exactly once, in no matter how many
  events it changed, with the Python sums of the line counts those events carry.\<close>

theorem file_changes_spec:
  assumes "extract_file_changes es = Inr cs"
  shows "distinct (map fc_path cs)
    \<and> (\<forall>p. p \<in> fc_path ` set cs \<longleftrightarrow> p \<noteq> [] \<and> list_ex (change_of p) es)
    \<and> (\<forall>c. c \<in> set cs \<longrightarrow> py_total (PInt 0) (map added_by (filter (change_of (fc_path c)) es)) = Inr (lines_added c)
         \<and> py_total (PInt 0) (map removed_by (filter (change_of (fc_path c)) es)) = Inr (lines_removed c))"
proof -
  from assms obtain d where d: "fold_changes es [] = Inr d" and cs: "cs = dict_values d"
    by (auto simp: extract_file_changes_def)
  from fold_changes_spec [OF d]
  have ok: "changes_ok d" "[] \<notin> set (dict_keys d)"
    and l: "\<And>p. p \<noteq> [] \<Longrightarrow> py_total (PInt 0) (map added_by (filter (change_of p) es)) = Inr (added_to d p)"
      "\<And>p. p \<noteq> [] \<Longrightarrow> py_total (PInt 0) (map removed_by (filter (change_of p) es)) = Inr (removed_from d p)"
    and k: "\<And>p. p \<noteq> [] \<Longrightarrow> p \<in> set (dict_keys d) \<longleftrightarrow> list_ex (change_of p) es"
    by (auto simp: changes_ok_def added_to_def removed_from_def)
  have paths: "map fc_path cs = dict_keys d" using ok(1) unfolding cs by (auto simp: changes_ok_def)
  moreover have "py_total (PInt 0) (map added_by (filter (change_of (fc_path c)) es)) = Inr (lines_added c)
      \<and> py_total (PInt 0) (map removed_by (filter (change_of (fc_path c)) es)) = Inr (lines_removed c)" if "c \<in> set cs" for c
  proof -
    from that cs obtain q where "(q, c) \<in> set d" by auto
    with ok(1) have "dict_get d (fc_path c) = Some c" by (auto simp: changes_ok_def)
    moreover from this have "fc_path c \<noteq> []" using ok(2) by (metis dict_get_None_iff option.distinct(1))
    ultimately show ?thesis using l [of "fc_path c"] by (simp add: added_to_def removed_from_def)
  qed
  moreover have "p \<in> fc_path ` set cs \<longleftrightarrow> p \<noteq> [] \<and> list_ex (change_of p) es" for p
    using ok(2) k [of p] paths by (cases "p = []") (metis list.set_map)+
  ultimately show ?thesis using ok(1) by (simp add: changes_ok_def)
qed

definition demo_change :: "string \<Rightarrow> int \<Rightarrow> audit_event" where
  "demo_change p n = (demo_event 0 ''edit'')\<lparr>ae_event_type := FILE_CHANGE, ae_payload := [(''path'', PStr p), (''lines_added'', PInt n)]\<rparr>"

theorem file_changes_spec_witness:
  "\<exists>cs. extract_file_changes [demo_change ''a'' 2, demo_change ''b'' 1, demo_change ''a'' 3] = Inr cs
     \<and> distinct (map fc_path cs) \<and> ''a'' \<in> fc_path ` set cs"
proof -
  let ?es = "[demo_change ''a'' 2, demo_change ''b'' 1, demo_change ''a'' 3]"
  have "\<not> isl (extract_file_changes ?es)" by code_simp
  then obtain cs where cs: "extract_file_changes ?es = Inr cs" by (metis sum.collapse(2))
  have "list_ex (change_of ''a'') ?es" by code_simp
  with file_changes_spec [OF cs] cs show ?thesis by simp
qed

text \<open>The test report adds up: it counts every test result of every verification event, and the
  passed and failed ones are counted apart.\<close>

theorem test_report_adds_up:
  assumes "extract_test_results pd es = Inr r"
  shows "rep_total r = int (length (results r)) \<and> rep_total r = rep_passed r + rep_failed r
    \<and> rep_passed r = int (length (filter tr_passed (results r)))"
proof -
  have "report_ok r"
    using fold_results_ok [OF assms [unfolded extract_test_results_def]] by (simp add: report_ok_def empty_report_def)
  then show ?thesis using sum_length_filter_compl [of tr_passed "results r"] by (simp add: report_ok_def)
qed

text \<open>Validators that take integers and booleans only.\<close>

definition strict_pydantic :: pydantic where
  "strict_pydantic =
     \<lparr>pd_int = (\<lambda>v. case int_of v of Some i \<Rightarrow> Inr i | None \<Rightarrow> Inl (ValueError ''int'')),
      pd_bool = (\<lambda>v. case v of PBool b \<Rightarrow> Inr b | _ \<Rightarrow> Inl (ValueError ''bool''))\<rparr>"

definition demo_verification :: audit_event where
  "demo_verification = (demo_event 0 ''v'')\<lparr>ae_event_type := VERIFICATION,
     ae_payload := [(''tests'', PList [PDict [(''passed'', PBool False)], PDict []])]\<rparr>"

theorem test_report_adds_up_witness:
  "\<exists>r. extract_test_results strict_pydantic [demo_verification] = Inr r
     \<and> rep_total r = int (length (results r)) \<and> rep_total r = rep_passed r + rep_failed r
     \<and> rep_passed r = int (length (filter tr_passed (results r)))"
proof -
  have "\<not> isl (extract_test_results strict_pydantic [demo_verification])" by code_simp
  then obtain r where "extract_test_results strict_pydantic [demo_verification] = Inr r" by (metis sum.collapse(2))
  with test_report_adds_up [OF this] show ?thesis by blast
qed

lemma stream_no_verification:
  "convert_stream rp fi now task seen es = Inr out \<Longrightarrow> a \<in> set out \<Longrightarrow> ae_event_type a \<noteq> VERIFICATION"
proof (induction es arbitrary: seen out)
  case (Cons e es)
  then obtain t seen' o1 o2 where
    c: "convert_event \<lparr>eh_trace_id = event_trace_id rp e, eh_task_id = task, eh_timestamp = t\<rparr> seen e = Inr (seen', o1)"
    and r: "convert_stream rp fi now task seen' es = Inr o2" and out: "out = o1 @ o2" by auto
  have "ae_event_type a \<noteq> VERIFICATION" if "a \<in> set o1"
    using c that by (auto simp: convert_event_def message_events_def kind_events_defs Let_def split: if_splits)
  with Cons.IH [OF r] Cons.prems(2) out show ?case by auto
qed simp

text \<open>For a task recorded from the live event stream the delivery never reports a test: the stream
  writes test results, the report reads only verification events, and the pull-request text then
  says that verification succeeded, failed tests included.\<close>

theorem live_tests_never_reported:
  assumes "audit_events_from_event_stream rp fromiso now es task = Inr events"
    and "generate_delivery_artifact pd t0 tid title objective events url labels reviewers = Inr art"
  shows "da_test_report art = Some empty_report
    \<and> verification_lines empty_report = [''Verification commands ran successfully (see audit replay).'']"
proof -
  from assms(2) obtain ts rep where ts: "ordered_timeline events = Inr ts" "extract_test_results pd ts = Inr rep"
    and art: "da_test_report art = Some rep" by (auto simp: generate_delivery_artifact_def)
  have "\<forall>e \<in> set ts. ae_event_type e \<noteq> VERIFICATION"
    using stream_no_verification [OF assms(1) [unfolded audit_events_from_event_stream_def]] ts(1)
    by (auto simp: ordered_timeline_def split: if_splits)
  from no_verification_no_tests [OF this, of pd empty_report] ts(2) have "rep = empty_report"
    by (simp add: extract_test_results_def)
  with art show ?thesis by (simp add: verification_lines_def empty_report_def)
qed

definition demo_failed_test :: stream_event where
  "demo_failed_test = \<lparr>se_class = ''CmdOutputObservation'',
     se_attrs = [(''command'', Val (PStr ''pytest'')), (''content'', Val (PStr ''1 failed'')), (''id'', Val (PInt 7))],
     se_metadata = Some [(''exit_code'', PInt 1)], se_object_id = 0\<rparr>"

theorem live_tests_never_reported_witness:
  "\<exists>events art. audit_events_from_event_stream (\<lambda>_. []) (\<lambda>_. Inl (ValueError [])) \<lparr>ts_micros = 0, ts_offset = Some 0\<rparr> [demo_failed_test] None = Inr events
     \<and> generate_delivery_artifact strict_pydantic \<lparr>ts_micros = 0, ts_offset = Some 0\<rparr> ''t'' ''T'' ''O'' events ''u'' [] [] = Inr art
     \<and> da_test_report art = Some empty_report
     \<and> verification_lines empty_report = [''Verification commands ran successfully (see audit replay).'']"
proof -
  define a where "a = make_event \<lparr>eh_trace_id = ''event-7'', eh_task_id = None, eh_timestamp = \<lparr>ts_micros = 0, ts_offset = Some 0\<rparr>\<rparr>
    TEST_RESULT ''verify'' ''pytest'' [(''command'', PStr ''pytest''), (''exit_code'', PInt 1), (''working_dir'', PNone), (''output'', PStr ''1 failed'')]"
  have e: "audit_events_from_event_stream (\<lambda>_. []) (\<lambda>_. Inl (ValueError [])) \<lparr>ts_micros = 0, ts_offset = Some 0\<rparr> [demo_failed_test] None = Inr [a]"
    unfolding a_def by code_simp
  have o: "ordered_timeline [a] = Inr [a]" by (simp add: ordered_timeline_def a_def make_event_def ts_aware_def)
  then have i: "\<exists>ids. assign_unique_node_ids [a] = Inr ids" by (simp add: assign_unique_node_ids_def)
  have "\<exists>art. generate_delivery_artifact strict_pydantic \<lparr>ts_micros = 0, ts_offset = Some 0\<rparr> ''t'' ''T'' ''O'' [a] ''u'' [] [] = Inr art"
    using o i by (auto simp: generate_delivery_artifact_def build_timeline_def extract_file_changes_def add_change_def
        extract_test_results_def add_verification_def a_def)
  then obtain art where art: "generate_delivery_artifact strict_pydantic \<lparr>ts_micros = 0, ts_offset = Some 0\<rparr> ''t'' ''T'' ''O'' [a] ''u'' [] [] = Inr art" by blast
  from live_tests_never_reported [OF e art] e art show ?thesis by blast
qed

end
