(* ===== verification/Platform.thy ===== *)
theory Platform
  imports Audit_Schema
begin

text \<open>
  \<open>platform/__init__.py\<close>: trace contexts and structured logging, the audit export job, billing plans
  and tenant quotas. Fresh identifiers are arguments. A log handler is a function that may raise;
  the failures reported to the standard logger are part of the result.
\<close>

section \<open>Structured logging\<close>

datatype log_level = DEBUG | INFO | WARN | LOG_ERROR

record structured_log_entry =
  le_trace_id :: string
  le_span_id :: string
  le_parent_span_id :: "string option"
  le_timestamp :: timestamp
  le_level :: log_level
  le_service :: string
  le_component :: string
  le_message :: string
  le_context :: payload
  le_duration_ms :: "int option"
  le_error :: "string option"
  le_user_id :: "string option"
  le_space_id :: "string option"
  le_task_id :: "string option"

record trace_context =
  tc_trace_id :: "string option"
  tc_span_id :: "string option"
  tc_task_id :: "string option"
  tc_space_id :: "string option"

definition new_trace_context ::
  "string \<Rightarrow> string \<Rightarrow> string option \<Rightarrow> string option \<Rightarrow> string option \<Rightarrow> trace_context" where
  "new_trace_context uuid1 uuid2 trace task space =
     \<lparr>tc_trace_id = Some (if str_or_empty trace = [] then uuid1 else str_or_empty trace),
      tc_span_id = Some (take 16 uuid2), tc_task_id = task, tc_space_id = space\<rparr>"

definition ctx_trace_id :: "trace_context \<Rightarrow> string" where "ctx_trace_id c = str_or_empty (tc_trace_id c)"
definition ctx_span_id :: "trace_context \<Rightarrow> string" where "ctx_span_id c = str_or_empty (tc_span_id c)"

definition opt_pyval :: "string option \<Rightarrow> pyval" where
  "opt_pyval s = (case s of None \<Rightarrow> PNone | Some t \<Rightarrow> PStr t)"

definition dict_update :: "('k, 'v) dict \<Rightarrow> ('k, 'v) dict \<Rightarrow> ('k, 'v) dict" where
  "dict_update d extra = fold (\<lambda>(k, v). dict_set k v) extra d"

definition augment :: "trace_context \<Rightarrow> payload \<Rightarrow> payload" where
  "augment c extra =
     dict_update
       ([(''trace_id'', opt_pyval (tc_trace_id c)), (''span_id'', opt_pyval (tc_span_id c))]
        @ (if str_or_empty (tc_task_id c) \<noteq> [] then [(''task_id'', opt_pyval (tc_task_id c))] else [])
        @ (if str_or_empty (tc_space_id c) \<noteq> [] then [(''space_id'', opt_pyval (tc_space_id c))] else [])) extra"

definition child_span :: "string \<Rightarrow> string" where
  "child_span uuid = take 16 uuid"

type_synonym log_handler = "structured_log_entry \<Rightarrow> py_exn option"

record structured_logger =
  sl_service :: string
  sl_handlers :: "log_handler list"

text \<open>The entry, and the trace id reported for each handler that raised.\<close>

definition log_entry ::
  "string \<Rightarrow> string \<Rightarrow> timestamp \<Rightarrow> structured_logger \<Rightarrow> log_level \<Rightarrow> string \<Rightarrow> trace_context option \<Rightarrow> string \<Rightarrow> payload
    \<Rightarrow> structured_log_entry \<times> string list" where
  "log_entry uuid1 uuid2 now lg level msg trace component context =
     (let ctx = (case trace of None \<Rightarrow> new_trace_context uuid1 uuid2 None None None | Some c \<Rightarrow> c);
          entry = \<lparr>le_trace_id = ctx_trace_id ctx, le_span_id = ctx_span_id ctx, le_parent_span_id = None,
                   le_timestamp = now, le_level = level, le_service = sl_service lg, le_component = component,
                   le_message = msg, le_context = context, le_duration_ms = None, le_error = None,
                   le_user_id = None, le_space_id = tc_space_id ctx, le_task_id = tc_task_id ctx\<rparr>
      in (entry, map (\<lambda>_. le_trace_id entry) (filter (\<lambda>h. h entry \<noteq> None) (sl_handlers lg))))"

definition log_debug :: "string \<Rightarrow> string \<Rightarrow> timestamp \<Rightarrow> structured_logger \<Rightarrow> string \<Rightarrow> trace_context option \<Rightarrow> string \<Rightarrow> payload \<Rightarrow> structured_log_entry \<times> string list" where
  "log_debug u1 u2 now lg = log_entry u1 u2 now lg DEBUG"

definition log_info :: "string \<Rightarrow> string \<Rightarrow> timestamp \<Rightarrow> structured_logger \<Rightarrow> string \<Rightarrow> trace_context option \<Rightarrow> string \<Rightarrow> payload \<Rightarrow> structured_log_entry \<times> string list" where
  "log_info u1 u2 now lg = log_entry u1 u2 now lg INFO"

definition log_warn :: "string \<Rightarrow> string \<Rightarrow> timestamp \<Rightarrow> structured_logger \<Rightarrow> string \<Rightarrow> trace_context option \<Rightarrow> string \<Rightarrow> payload \<Rightarrow> structured_log_entry \<times> string list" where
  "log_warn u1 u2 now lg = log_entry u1 u2 now lg WARN"

definition log_error :: "string \<Rightarrow> string \<Rightarrow> timestamp \<Rightarrow> structured_logger \<Rightarrow> string \<Rightarrow> trace_context option \<Rightarrow> string \<Rightarrow> payload \<Rightarrow> structured_log_entry \<times> string list" where
  "log_error u1 u2 now lg = log_entry u1 u2 now lg LOG_ERROR"

section \<open>Audit export\<close>

datatype export_format = JSONL | CSV | PARQUET

record object_storage_config =
  endpoint :: string
  bucket :: string
  region :: string
  access_key :: string
  secret_key :: string
  os_prefix :: string

record audit_export_job =
  job_id :: string
  ej_space_id :: string
  ej_started_at :: timestamp
  ej_completed_at :: "timestamp option"
  ej_format :: export_format
  ej_event_count :: int
  object_key :: string
  ej_status :: string
  ej_error :: "string option"

record audit_archival_policy =
  ap_space_id :: string
  retention_days :: int
  ap_export_format :: export_format
  auto_archive :: bool
  archive_after_days :: int
  destination :: "object_storage_config option"

definition export_warning :: string where
  "export_warning = ''AuditExporter does not implement object-storage upload yet; ''
     @ ''events were NOT archived. Integrate a real S3 client before ''
     @ ''treating audit archives as durable.''"

text \<open>The job, and the entry given to the platform logger (which has no handlers).\<close>

definition export_audit ::
  "string \<Rightarrow> string \<Rightarrow> string \<Rightarrow> timestamp \<Rightarrow> string \<Rightarrow> string \<Rightarrow> export_format \<Rightarrow> audit_export_job \<times> structured_log_entry" where
  "export_audit uuid uuid1 uuid2 now events_jsonl space fmt =
     (let count = (if events_jsonl \<noteq> [] then int (count_list events_jsonl nl) + 1 else 0);
          job = \<lparr>job_id = uuid, ej_space_id = space, ej_started_at = now, ej_completed_at = None, ej_format = fmt,
                 ej_event_count = count, object_key = [], ej_status = ''not_implemented'',
                 ej_error = Some export_warning\<rparr>
      in (job, fst (log_warn uuid1 uuid2 now \<lparr>sl_service = ''forgepilot'', sl_handlers = []\<rparr>
             ''audit_export_not_implemented'' None ''audit_exporter''
             [(''job_id'', PStr uuid), (''space_id'', PStr space), (''event_count'', PInt count)])))"

definition archive_events ::
  "string \<Rightarrow> string \<Rightarrow> string \<Rightarrow> timestamp \<Rightarrow> string \<Rightarrow> audit_archival_policy \<Rightarrow> (audit_export_job \<times> structured_log_entry) option" where
  "archive_events uuid uuid1 uuid2 now events_jsonl pol =
     (if \<not> auto_archive pol \<or> destination pol = None then None
      else Some (export_audit uuid uuid1 uuid2 now events_jsonl (ap_space_id pol) (ap_export_format pol)))"

section \<open>Billing\<close>

datatype billing_tier = FREE | STARTER | TEAM | BUSINESS | ENTERPRISE

datatype tenant_role = TENANT_OWNER | TENANT_ADMIN | BILLING_ADMIN | SPACE_ADMIN | TENANT_MEMBER | TENANT_VIEWER

record billing_plan =
  tier :: billing_tier
  max_spaces :: int
  max_members :: int
  max_tasks_per_month :: int
  max_cost_per_month_usd :: rat
  model_access :: "string list"
  audit_retention_days :: int
  mcp_enabled :: bool
  team_spaces_enabled :: bool
  delivery_reports_enabled :: bool

definition default_plan :: billing_plan where
  "default_plan = \<lparr>tier = FREE, max_spaces = 1, max_members = 5, max_tasks_per_month = 100,
     max_cost_per_month_usd = 50, model_access = [''openai/gpt-4.1''], audit_retention_days = 30,
     mcp_enabled = True, team_spaces_enabled = False, delivery_reports_enabled = False\<rparr>"

fun PLANS :: "billing_tier \<Rightarrow> billing_plan" where
  "PLANS FREE = default_plan"
| "PLANS STARTER = default_plan\<lparr>tier := STARTER, max_spaces := 3, max_members := 10, max_tasks_per_month := 500,
     max_cost_per_month_usd := 200, model_access := [''openai/gpt-4.1'', ''anthropic/claude-sonnet-4-6''],
     audit_retention_days := 90\<rparr>"
| "PLANS TEAM = default_plan\<lparr>tier := TEAM, max_spaces := 10, max_members := 50, max_tasks_per_month := 2000,
     max_cost_per_month_usd := 1000,
     model_access := [''openai/gpt-4.1'', ''anthropic/claude-sonnet-4-6'', ''anthropic/claude-opus-4-7''],
     audit_retention_days := 180, team_spaces_enabled := True, delivery_reports_enabled := True\<rparr>"
| "PLANS BUSINESS = default_plan\<lparr>tier := BUSINESS, max_spaces := 50, max_members := 200, max_tasks_per_month := 10000,
     max_cost_per_month_usd := 5000, audit_retention_days := 365, team_spaces_enabled := True,
     delivery_reports_enabled := True\<rparr>"
| "PLANS ENTERPRISE = default_plan\<lparr>tier := ENTERPRISE, max_spaces := -1, max_members := -1, max_tasks_per_month := -1,
     max_cost_per_month_usd := -1, audit_retention_days := 2555, team_spaces_enabled := True,
     delivery_reports_enabled := True\<rparr>"

record tenant =
  tenant_id :: string
  tn_name :: string
  billing_tier :: billing_tier
  tn_created_at :: timestamp
  tn_members :: "(string, tenant_role) dict"
  tn_spaces :: "string list"
  cost_current_month_usd :: rat
  tasks_this_month :: int

definition plan :: "tenant \<Rightarrow> billing_plan" where
  "plan t = PLANS (billing_tier t)"

definition can_create_space :: "tenant \<Rightarrow> bool" where
  "can_create_space t = (if max_spaces (plan t) < 0 then True else int (length (tn_spaces t)) < max_spaces (plan t))"

definition can_add_member :: "tenant \<Rightarrow> bool" where
  "can_add_member t = (if max_members (plan t) < 0 then True else int (length (tn_members t)) < max_members (plan t))"

definition is_over_budget :: "tenant \<Rightarrow> bool" where
  "is_over_budget t = (if max_cost_per_month_usd (plan t) < 0 then False
     else max_cost_per_month_usd (plan t) \<le> cost_current_month_usd t)"

definition is_over_task_limit :: "tenant \<Rightarrow> bool" where
  "is_over_task_limit t = (if max_tasks_per_month (plan t) < 0 then False
     else max_tasks_per_month (plan t) \<le> tasks_this_month t)"

definition record_task_cost :: "rat \<Rightarrow> tenant \<Rightarrow> tenant" where
  "record_task_cost cost t = t\<lparr>cost_current_month_usd := fl (cost_current_month_usd t + cost),
     tasks_this_month := tasks_this_month t + 1\<rparr>"

type_synonym tenant_registry = "(string, tenant) dict"

definition create_tenant ::
  "timestamp \<Rightarrow> string \<Rightarrow> string \<Rightarrow> billing_tier \<Rightarrow> string \<Rightarrow> tenant_registry \<Rightarrow> tenant \<times> tenant_registry" where
  "create_tenant now tid nm bt owner r =
     (let t = \<lparr>tenant_id = tid, tn_name = nm, billing_tier = bt, tn_created_at = now,
               tn_members = (if owner \<noteq> [] then [(owner, TENANT_OWNER)] else []), tn_spaces = [],
               cost_current_month_usd = 0, tasks_this_month = 0\<rparr>
      in (t, dict_set tid t r))"

definition get_tenant :: "tenant_registry \<Rightarrow> string \<Rightarrow> tenant option" where
  "get_tenant r tid = dict_get r tid"

definition check_task_quota :: "tenant_registry \<Rightarrow> string \<Rightarrow> bool" where
  "check_task_quota r tid =
     (case get_tenant r tid of
        None \<Rightarrow> False
      | Some t \<Rightarrow> if is_over_budget t then False else if is_over_task_limit t then False else True)"

section \<open>Running tasks under the quota\<close>

text \<open>A task is run when the quota check passes, and its cost is recorded.\<close>

definition run_task :: "string \<Rightarrow> rat \<Rightarrow> tenant_registry \<Rightarrow> tenant_registry" where
  "run_task tid cost r =
     (if check_task_quota r tid then dict_set tid (record_task_cost cost (the (get_tenant r tid))) r else r)"

datatype tenant_op = CreateTenant timestamp string string billing_tier string | RunTask string rat

fun tenant_step :: "tenant_op \<Rightarrow> tenant_registry \<Rightarrow> tenant_registry" where
  "tenant_step (CreateTenant now tid nm bt owner) r = snd (create_tenant now tid nm bt owner r)"
| "tenant_step (RunTask tid cost) r = run_task tid cost r"

definition within_quota :: "tenant \<Rightarrow> bool" where
  "within_quota t \<longleftrightarrow> 0 \<le> tasks_this_month t \<and> (max_tasks_per_month (plan t) < 0 \<or> tasks_this_month t \<le> max_tasks_per_month (plan t))"

definition tenants_ok :: "tenant_registry \<Rightarrow> bool" where
  "tenants_ok r \<longleftrightarrow> (\<forall>tid t. dict_get r tid = Some t \<longrightarrow> within_quota t)"

lemma run_task_quota:
  "dict_get r tid = Some t \<Longrightarrow> within_quota t \<Longrightarrow> check_task_quota r tid \<Longrightarrow> within_quota (record_task_cost c t)"
  by (auto simp: check_task_quota_def get_tenant_def is_over_task_limit_def within_quota_def record_task_cost_def
      plan_def split: if_splits)

lemma tenant_step_ok: "tenants_ok r \<Longrightarrow> tenants_ok (tenant_step x r)"
proof (cases x)
  case (CreateTenant now tid nm bt owner)
  assume "tenants_ok r"
  with CreateTenant show ?thesis
    by (auto simp: tenants_ok_def create_tenant_def Let_def within_quota_def plan_def split: if_splits)
next
  case (RunTask tid cost)
  assume ok: "tenants_ok r"
  show ?thesis
  proof (cases "check_task_quota r tid")
    case True
    then obtain t where t: "dict_get r tid = Some t" by (auto simp: check_task_quota_def get_tenant_def split: option.splits)
    with ok True have "within_quota (record_task_cost cost t)" by (intro run_task_quota) (auto simp: tenants_ok_def)
    with ok RunTask True t show ?thesis by (auto simp: tenants_ok_def run_task_def get_tenant_def)
  next
    case False
    with ok RunTask show ?thesis by (simp add: run_task_def)
  qed
qed

interpretation tenants: guarded_steps tenant_step tenants_ok
  by unfold_locales (rule tenant_step_ok)

text \<open>Limits are compared with the negative ones as unlimited.\<close>

definition limit_le :: "'a::linordered_idom \<Rightarrow> 'a \<Rightarrow> bool" where
  "limit_le a b \<longleftrightarrow> b < 0 \<or> (0 \<le> a \<and> a \<le> b)"

fun tier_rank :: "billing_tier \<Rightarrow> nat" where
  "tier_rank FREE = 0"
| "tier_rank STARTER = 1"
| "tier_rank TEAM = 2"
| "tier_rank BUSINESS = 3"
| "tier_rank ENTERPRISE = 4"

definition plan_le :: "billing_plan \<Rightarrow> billing_plan \<Rightarrow> bool" where
  "plan_le p q \<longleftrightarrow> limit_le (max_spaces p) (max_spaces q) \<and> limit_le (max_members p) (max_members q)
     \<and> limit_le (max_tasks_per_month p) (max_tasks_per_month q)
     \<and> limit_le (max_cost_per_month_usd p) (max_cost_per_month_usd q)
     \<and> audit_retention_days p \<le> audit_retention_days q
     \<and> (team_spaces_enabled p \<longrightarrow> team_spaces_enabled q) \<and> (delivery_reports_enabled p \<longrightarrow> delivery_reports_enabled q)"

lemma count_nl_join:
  "xs \<noteq> [] \<Longrightarrow> \<forall>x \<in> set xs. nl \<notin> set x \<Longrightarrow> count_list (join [nl] xs) nl = length xs - 1"
proof (induction xs)
  case (Cons x xs)
  then show ?case by (cases xs) (auto simp: count_list_append)
qed simp

section \<open>Properties\<close>


definition demo_tenants :: "tenant_op list" where
  "demo_tenants = [CreateTenant \<lparr>ts_micros = 0, ts_offset = Some 0\<rparr> ''acme'' ''Acme'' FREE ''u'', RunTask ''acme'' 30,
     RunTask ''acme'' 30, RunTask ''acme'' 30]"


text \<open>Limits grow with the billing tier: every limit, the retention time and the enabled features
  of a tier are at least those of the tiers below it, negative limits counting as unlimited.\<close>

theorem plans_monotone:
  assumes "tier_rank a \<le> tier_rank b"
  shows "plan_le (PLANS a) (PLANS b)"
  using assms by (cases a; cases b) (simp_all add: plan_le_def limit_le_def default_plan_def)

theorem plans_monotone_witness: "plan_le (PLANS TEAM) (PLANS ENTERPRISE)"
  by (rule plans_monotone) simp

text \<open>The models do not: the two highest tiers fall back to the default list.\<close>

lemma model_access_shrinks:
  "set (model_access (PLANS ENTERPRISE)) \<subset> set (model_access (PLANS TEAM))
   \<and> set (model_access (PLANS BUSINESS)) \<subset> set (model_access (PLANS TEAM))"
  by (auto simp: default_plan_def)

text \<open>The export job counts exactly the audit events of the JSONL text it is given.\<close>

theorem export_counts_events:
  assumes "one_line_repr rp" and "export_audit_events_jsonl rp es = Inr text"
  shows "ej_event_count (fst (export_audit u u1 u2 now text space fmt)) = int (length es)"
proof (cases "es = []")
  case True
  with assms show ?thesis by (auto simp: export_audit_events_jsonl_def ordered_timeline_def export_audit_def Let_def)
next
  case False
  let ?ls = "map (\<lambda>e. json_dumps rp (PDict (event_dump_for_export e))) (sort_key (ts_micros \<circ> ae_timestamp) es)"
  have eq: "text = join [nl] ?ls"
    using assms(2) by (auto simp: export_audit_events_jsonl_def ordered_timeline_def split: if_splits)
  have len: "length ?ls = length es" by simp
  then have ne: "?ls \<noteq> []" using False by (metis length_0_conv)
  have "\<forall>x \<in> set ?ls. nl \<notin> set x" using json_dumps_no_nl [OF assms(1)] by (auto simp del: json_dumps.simps)
  from count_nl_join [OF ne this] len have c: "count_list text nl = length es - 1" by (simp only: eq)
  have "text \<noteq> []" using ne by (cases ?ls; cases "List.tl ?ls") (auto simp: eq)
  with c False show ?thesis by (simp add: export_audit_def Let_def) (simp add: Suc_leI of_nat_diff)
qed

theorem export_counts_events_witness:
  "ej_event_count (fst (export_audit ''u'' ''v'' ''w'' \<lparr>ts_micros = 0, ts_offset = Some 0\<rparr>
      (case export_audit_events_jsonl (\<lambda>_. ''1.5'') [demo_event 5 [nl], demo_event 0 ''x''] of Inr s \<Rightarrow> s) ''s'' JSONL))
   = int (length [demo_event 5 [nl], demo_event 0 ''x''])"
  by (rule export_counts_events [of "\<lambda>_. ''1.5''"])
    (auto simp: one_line_repr_def export_audit_events_jsonl_def ordered_timeline_def demo_event_def ts_aware_def)

end
