(* ===== verification/Orchestration.thy ===== *)
theory Orchestration
  imports Py_Str
begin

text \<open>
  \<open>orchestration/__init__.py\<close>: the agent templates, the hand-off from one agent to the next, and the
  knowledge injected into the prompt. The file system is an argument (\<open>read_file\<close>); the loader's
  cache is state. Characters outside Latin-1 are written as their UTF-8 bytes.
\<close>

section \<open>Templates\<close>

datatype agent_role = EXPLORER | IMPLEMENTER | VERIFIER | REPORTER | ORCHESTRATOR

record agent_capability =
  ac_role :: agent_role
  allowed_tools :: "string list"
  allowed_paths :: "string list"
  read_only :: bool
  max_self_heal :: int
  ac_priority :: int

record orchestration_template =
  ot_template_id :: string
  ot_name :: string
  ot_description :: string
  agents :: "agent_capability list"
  handoff_strategy :: string
  ot_requires_confirmation :: bool
  knowledge_injection :: bool

definition arrow :: string where
  "arrow = '' '' @ [CHR 0xE2, CHR 0x86, CHR 0x92] @ '' ''"

definition agent :: "agent_role \<Rightarrow> string list \<Rightarrow> string list \<Rightarrow> bool \<Rightarrow> int \<Rightarrow> int \<Rightarrow> agent_capability" where
  "agent r tools paths ro heal prio = \<lparr>ac_role = r, allowed_tools = tools, allowed_paths = paths,
     read_only = ro, max_self_heal = heal, ac_priority = prio\<rparr>"

definition bugfix_template :: orchestration_template where
  "bugfix_template = \<lparr>ot_template_id = ''bugfix'', ot_name = ''Bugfix'',
     ot_description = join arrow [''Reproduce'', ''locate'', ''fix'', ''verify'', ''report''],
     agents =
       [agent EXPLORER [''cmd.run'', ''file.read'', ''mcp.sentry''] [''*''] True 1 0,
        agent IMPLEMENTER [''cmd.run'', ''file.edit'', ''file.create'', ''git.commit''] [''src/'', ''tests/''] False 2 1,
        agent VERIFIER [''cmd.run'', ''file.read''] [''*''] True 1 2,
        agent REPORTER [''file.read'', ''delivery.generate''] [''*''] True 1 3],
     handoff_strategy = ''sequential'', ot_requires_confirmation = False, knowledge_injection = True\<rparr>"

definition review_template :: orchestration_template where
  "review_template = \<lparr>ot_template_id = ''code-review'', ot_name = ''Code Review'',
     ot_description = join arrow [''Analyze diff'', ''check for bugs/security/style'', ''report findings''],
     agents =
       [agent EXPLORER [''file.read'', ''git.diff'', ''git.log''] [''*''] True 1 0,
        agent REPORTER [''file.read'', ''delivery.generate''] [''*''] True 1 0],
     handoff_strategy = ''sequential'', ot_requires_confirmation = False, knowledge_injection = True\<rparr>"

definition docs_template :: orchestration_template where
  "docs_template = \<lparr>ot_template_id = ''docs'', ot_name = ''Documentation'',
     ot_description = join arrow [''Analyze code'', ''generate/update docs'', ''verify links''],
     agents =
       [agent EXPLORER [''file.read'', ''cmd.run''] [''*''] True 1 0,
        agent IMPLEMENTER [''file.edit'', ''file.create''] [''docs/'', ''*.md''] False 1 0,
        agent VERIFIER [''cmd.run''] [''docs/''] True 1 0],
     handoff_strategy = ''sequential'', ot_requires_confirmation = True, knowledge_injection = True\<rparr>"

definition BUILTIN_TEMPLATES :: "(string, orchestration_template) dict" where
  "BUILTIN_TEMPLATES = [(''bugfix'', bugfix_template), (''code-review'', review_template), (''docs'', docs_template)]"

section \<open>Registry and hand-off\<close>

type_synonym orchestration_registry = "(string, orchestration_template) dict"

definition register_template :: "orchestration_template \<Rightarrow> orchestration_registry \<Rightarrow> orchestration_registry" where
  "register_template t r = dict_set (ot_template_id t) t r"

definition get_template :: "orchestration_registry \<Rightarrow> string \<Rightarrow> orchestration_template option" where
  "get_template r i = dict_get r i"

definition list_templates :: "orchestration_registry \<Rightarrow> orchestration_template list" where
  "list_templates r = dict_values r"

definition get_priority :: "orchestration_template \<Rightarrow> agent_role \<Rightarrow> int" where
  "get_priority t role = (case find (\<lambda>a. ac_role a = role) (agents t) of None \<Rightarrow> -1 | Some a \<Rightarrow> ac_priority a)"

definition next_agent :: "orchestration_template \<Rightarrow> agent_role option \<Rightarrow> agent_capability option" where
  "next_agent t completed =
     (let ordered = py_sorted ac_priority (agents t) in
      case completed of
        None \<Rightarrow> (case ordered of [] \<Rightarrow> None | a # _ \<Rightarrow> Some a)
      | Some role \<Rightarrow> find (\<lambda>a. get_priority t role < ac_priority a) ordered)"

section \<open>Knowledge\<close>

record knowledge_source =
  ks_source_type :: string
  ks_path :: string
  ks_content :: string
  ks_priority :: int

record knowledge_context =
  kc_task_id :: string
  kc_sources :: "knowledge_source list"
  kc_injected_at :: int

definition assemble_system_prompt_fragment :: "knowledge_context \<Rightarrow> string" where
  "assemble_system_prompt_fragment c =
     (if kc_sources c = [] then []
      else join [CHR 0x0A] ([CHR 0x0A # ''## Project Knowledge (injected)'', []]
        @ concat (map (\<lambda>src. [''### '' @ ks_source_type src @ '': '' @ ks_path src, strip (ks_content src), []])
            (py_sorted (\<lambda>s. - ks_priority s) (kc_sources c)))))"

type_synonym file_reader = "string \<Rightarrow> string res"

text \<open>\<open>FileNotFoundError\<close> is a missing source; any other error is raised.\<close>

definition load_knowledge ::
  "file_reader \<Rightarrow> string \<Rightarrow> (string, string) dict \<Rightarrow> string option res \<times> (string, string) dict" where
  "load_knowledge read_file path cache =
     (case dict_get cache path of
        Some c \<Rightarrow> (Inr (Some c), cache)
      | None \<Rightarrow> (case read_file path of
                   Inr content \<Rightarrow> (Inr (Some content), dict_set path content cache)
                 | Inl (FileNotFoundError m) \<Rightarrow> (Inr None, cache)
                 | Inl e \<Rightarrow> (Inl e, cache)))"

definition sources_to_check :: "string \<Rightarrow> (string \<times> string \<times> int) list" where
  "sources_to_check wroot =
     [(''repo_md'', wroot @ ''/.forgepilot/microagents/repo.md'', 3),
      (''glossary'', wroot @ ''/.forgepilot/microagents/glossary.md'', 2),
      (''setup_sh'', wroot @ ''/.forgepilot/setup.sh'', 1),
      (''conventions'', wroot @ ''/.forgepilot/conventions.md'', 2),
      (''knowledge'', wroot @ ''/.forgepilot/knowledge.md'', 2)]"

fun collect_sources ::
  "file_reader \<Rightarrow> (string \<times> string \<times> int) list \<Rightarrow> knowledge_source list \<Rightarrow> (string, string) dict
    \<Rightarrow> knowledge_source list res \<times> (string, string) dict" where
  "collect_sources rd [] acc cache = (Inr acc, cache)"
| "collect_sources rd ((ty, path, prio) # rest) acc cache =
     (case load_knowledge rd path cache of
        (Inl e, cache') \<Rightarrow> (Inl e, cache')
      | (Inr content, cache') \<Rightarrow>
          collect_sources rd rest
            (acc @ (case content of
                      None \<Rightarrow> []
                    | Some c \<Rightarrow> if c = [] then []
                                else [\<lparr>ks_source_type = ty, ks_path = path, ks_content = c, ks_priority = prio\<rparr>])) cache')"

definition build_context ::
  "file_reader \<Rightarrow> int \<Rightarrow> string \<Rightarrow> string \<Rightarrow> (string, string) dict \<Rightarrow> knowledge_context res \<times> (string, string) dict" where
  "build_context rd now task_id wroot cache =
     (case collect_sources rd (sources_to_check wroot) [] cache of
        (Inl e, cache') \<Rightarrow> (Inl e, cache')
      | (Inr srcs, cache') \<Rightarrow> (Inr \<lparr>kc_task_id = task_id, kc_sources = srcs, kc_injected_at = now\<rparr>, cache'))"

section \<open>The hand-off as a run\<close>

text \<open>The agents dispatched one after the other, each after the role before it has completed; the
  number bounds the length of the run.\<close>

fun handoff_run :: "orchestration_template \<Rightarrow> agent_role option \<Rightarrow> nat \<Rightarrow> agent_capability list" where
  "handoff_run t completed 0 = []"
| "handoff_run t completed (Suc n) =
     (case next_agent t completed of None \<Rightarrow> [] | Some a \<Rightarrow> a # handoff_run t (Some (ac_role a)) n)"

lemma find_distinct_role:
  "distinct (map ac_role as) \<Longrightarrow> a \<in> set as \<Longrightarrow> find (\<lambda>b. ac_role b = ac_role a) as = Some a"
  by (induction as) (auto dest: sym)

lemma get_priority_role:
  "distinct (map ac_role (agents t)) \<Longrightarrow> a \<in> set (agents t) \<Longrightarrow> get_priority t (ac_role a) = ac_priority a"
  by (simp add: get_priority_def find_distinct_role)

lemma find_above:
  assumes "sorted_wrt (<) (map ac_priority (us @ a # vs))"
  shows "find (\<lambda>b. ac_priority a < ac_priority b) (us @ a # vs) = (case vs of [] \<Rightarrow> None | v # _ \<Rightarrow> Some v)"
proof -
  have "find (\<lambda>b. ac_priority a < ac_priority b) us = None"
    using assms by (fastforce simp: find_None_iff sorted_wrt_append)
  then have "find (\<lambda>b. ac_priority a < ac_priority b) (us @ xs) = find (\<lambda>b. ac_priority a < ac_priority b) xs" for xs
    by (induction us) auto
  moreover have "vs = v # ws \<Longrightarrow> ac_priority a < ac_priority v" for v ws
    using assms by (auto simp: sorted_wrt_append)
  ultimately show ?thesis by (cases vs) auto
qed

lemma handoff_from:
  assumes "distinct (map ac_role (agents t))" and "sorted_wrt (<) (map ac_priority (us @ a # vs))"
    and "sort_key ac_priority (agents t) = us @ a # vs" and "length vs < n"
  shows "handoff_run t (Some (ac_role a)) n = vs"
  using assms(2-)
proof (induction vs arbitrary: us a n)
  case Nil
  have "a \<in> set (agents t)" using arg_cong [OF Nil.prems(2), of set] by auto
  then have "next_agent t (Some (ac_role a)) = None"
    using find_above [OF Nil.prems(1)] assms(1) Nil.prems(2) by (simp add: next_agent_def Let_def get_priority_role)
  then show ?case by (cases n) simp_all
next
  case (Cons v vs)
  have "a \<in> set (agents t)" using arg_cong [OF Cons.prems(2), of set] by auto
  then have "next_agent t (Some (ac_role a)) = Some v"
    using find_above [OF Cons.prems(1)] assms(1) Cons.prems(2) by (simp add: next_agent_def Let_def get_priority_role)
  moreover have "handoff_run t (Some (ac_role v)) (n - 1) = vs"
    using Cons.prems by (intro Cons.IH [of "us @ [a]"]) simp_all
  ultimately show ?case using Cons.prems by (cases n) simp_all
qed

lemma strict_sorted_priority:
  assumes "distinct (map ac_priority as)"
  shows "sorted_wrt (<) (map ac_priority (sort_key ac_priority as))"
proof -
  have "mset (map ac_priority (sort_key ac_priority as)) = mset (map ac_priority as)" by simp
  then have "distinct (map ac_priority (sort_key ac_priority as))" using assms by (metis mset_eq_imp_distinct_iff)
  then show ?thesis by (simp add: strict_sorted_iff)
qed

section \<open>The cache\<close>

lemma load_cached: "load_knowledge rd path cache = (Inr (Some c), cache') \<Longrightarrow> dict_get cache' path = Some c"
  by (auto simp: load_knowledge_def split: option.splits sum.splits py_exn.splits)

lemma load_extends: "load_knowledge rd p cache = (x, cache') \<Longrightarrow> dict_get cache q = Some c \<Longrightarrow> dict_get cache' q = Some c"
  by (auto simp: load_knowledge_def split: option.splits sum.splits py_exn.splits)

lemma load_other: "load_knowledge rd p cache = (x, cache') \<Longrightarrow> q \<noteq> p \<Longrightarrow> dict_get cache' q = dict_get cache q"
  by (auto simp: load_knowledge_def split: option.splits sum.splits py_exn.splits)

lemma load_None: "load_knowledge rd p cache = (Inr None, cache') \<Longrightarrow> dict_get cache p = None \<and> cache' = cache"
  by (auto simp: load_knowledge_def split: option.splits sum.splits py_exn.splits)

lemma collect_extends:
  "collect_sources rd l acc cache = (x, cache') \<Longrightarrow> dict_get cache q = Some c \<Longrightarrow> dict_get cache' q = Some c"
  by (induction rd l acc cache rule: collect_sources.induct) (auto split: prod.splits sum.splits dest: load_extends)

lemma collect_other:
  "collect_sources rd l acc cache = (x, cache') \<Longrightarrow> q \<notin> (fst \<circ> snd) ` set l \<Longrightarrow> dict_get cache' q = dict_get cache q"
  by (induction rd l acc cache rule: collect_sources.induct) (auto split: prod.splits sum.splits simp: load_other)

lemma collect_again:
  assumes "collect_sources rd l acc cache = (Inr srcs, cache')" and "distinct (map (fst \<circ> snd) l)"
    and "\<And>p. dict_get cache' p = None \<Longrightarrow> \<exists>m. rd' p = Inl (FileNotFoundError m)"
  shows "collect_sources rd' l acc cache' = (Inr srcs, cache')"
  using assms
proof (induction rd l acc cache rule: collect_sources.induct)
  case (1 rd acc cache)
  then show ?case by simp
next
  case (2 rd ty p prio rest acc cache)
  from "2.prems"(1) obtain content cache1 where l: "load_knowledge rd p cache = (Inr content, cache1)"
    by (auto split: prod.splits sum.splits)
  let ?new = "case content of None \<Rightarrow> [] | Some c \<Rightarrow> if c = [] then []
      else [\<lparr>ks_source_type = ty, ks_path = p, ks_content = c, ks_priority = prio\<rparr>]"
  from l "2.prems"(1) have rest: "collect_sources rd rest (acc @ ?new) cache1 = (Inr srcs, cache')" by simp
  have "load_knowledge rd' p cache' = (Inr content, cache')"
  proof (cases content)
    case (Some c)
    then have "dict_get cache' p = Some c" using load_cached [of rd p cache c cache1] l collect_extends [OF rest] by blast
    then show ?thesis by (simp add: load_knowledge_def Some)
  next
    case None
    then have "dict_get cache' p = None" using load_None l collect_other [OF rest, of p] "2.prems"(2) by auto
    moreover from "2.prems"(3) [OF this] obtain m where "rd' p = Inl (FileNotFoundError m)" by blast
    ultimately show ?thesis using None by (simp add: load_knowledge_def)
  qed
  then show ?case using "2.IH" [OF l [symmetric] refl rest] "2.prems"(2,3) by simp
qed

lemma distinct_source_paths: "distinct (map (fst \<circ> snd) (sources_to_check w))"
  by (simp add: sources_to_check_def)

section \<open>Properties\<close>

text \<open>In a template whose roles and priorities are all different, the hand-off dispatches every
  agent exactly once, in order of priority, and then ends.\<close>

theorem handoff_visits_all:
  assumes "distinct (map ac_role (agents t))" and "distinct (map ac_priority (agents t))"
    and "length (agents t) \<le> n"
  shows "handoff_run t None (Suc n) = sort_key ac_priority (agents t)"
proof (cases "sort_key ac_priority (agents t)")
  case Nil
  then show ?thesis by (simp add: next_agent_def Let_def)
next
  case (Cons a vs)
  have "length (a # vs) = length (agents t)" using Cons by (metis length_sort)
  then have "handoff_run t (Some (ac_role a)) n = vs"
    using assms Cons strict_sorted_priority [OF assms(2)] by (intro handoff_from [of t "[]"]) simp_all
  with Cons show ?thesis by (simp add: next_agent_def Let_def)
qed

theorem handoff_visits_all_witness:
  "handoff_run bugfix_template None 5 = sort_key ac_priority (agents bugfix_template)"
  using handoff_visits_all [of bugfix_template 4] by (simp add: bugfix_template_def agent_def)

text \<open>In the built-in review and documentation templates all priorities are equal, so the
  hand-off ends after the first agent: no finding is reported and no documentation written.\<close>

theorem equal_priorities_stop_handoff:
  "map ac_role (handoff_run review_template None n) = (if n = 0 then [] else [EXPLORER])
   \<and> map ac_role (handoff_run docs_template None n) = (if n = 0 then [] else [EXPLORER])"
proof -
  have next1: "next_agent review_template None = Some (hd (agents review_template))"
    "next_agent docs_template None = Some (hd (agents docs_template))"
    "next_agent review_template (Some EXPLORER) = None" "next_agent docs_template (Some EXPLORER) = None" by code_simp+
  have "ac_role (hd (agents review_template)) = EXPLORER" "ac_role (hd (agents docs_template)) = EXPLORER" by code_simp+
  moreover have "handoff_run t (Some EXPLORER) m = []" if "next_agent t (Some EXPLORER) = None" for t m
    using that by (cases m) simp_all
  ultimately show ?thesis using next1 by (cases n) simp_all
qed

text \<open>Once a context has been built, building it again gives the same sources and reads no file
  that was found: what was loaded is kept, whatever has become of the file since.\<close>

theorem knowledge_context_cached:
  assumes "build_context rd now task w cache = (Inr c, cache')"
    and "\<And>p. dict_get cache' p = None \<Longrightarrow> \<exists>m. rd' p = Inl (FileNotFoundError m)"
  shows "build_context rd' now' task w cache' = (Inr (c\<lparr>kc_injected_at := now'\<rparr>), cache')"
proof -
  from assms(1) obtain srcs where s: "collect_sources rd (sources_to_check w) [] cache = (Inr srcs, cache')"
    and c: "c = \<lparr>kc_task_id = task, kc_sources = srcs, kc_injected_at = now\<rparr>"
    by (auto simp: build_context_def split: prod.splits sum.splits)
  from collect_again [OF s distinct_source_paths assms(2)] c show ?thesis by (simp add: build_context_def)
qed

definition demo_files :: file_reader where
  "demo_files p = (if p = ''./.forgepilot/setup.sh'' then Inr ''make'' else Inl (FileNotFoundError p))"

theorem knowledge_context_cached_witness:
  "\<exists>c. build_context (\<lambda>p. Inl (FileNotFoundError p)) 9 ''t'' ''.'' [(''./.forgepilot/setup.sh'', ''make'')]
     = (Inr c, [(''./.forgepilot/setup.sh'', ''make'')]) \<and> map ks_content (kc_sources c) = [''make'']"
proof -
  have b: "build_context demo_files 0 ''t'' ''.'' [] =
    (Inr \<lparr>kc_task_id = ''t'', kc_sources = [\<lparr>ks_source_type = ''setup_sh'', ks_path = ''./.forgepilot/setup.sh'',
        ks_content = ''make'', ks_priority = 1\<rparr>], kc_injected_at = 0\<rparr>, [(''./.forgepilot/setup.sh'', ''make'')])"
    by code_simp
  from knowledge_context_cached [OF b, of "\<lambda>p. Inl (FileNotFoundError p)" 9] show ?thesis by simp
qed

end
