(* ===== verification/Providers.thy ===== *)
theory Providers
  imports Py_Str
begin

text \<open>
  \<open>llm_gateway/provider_registry.py\<close> and \<open>runtime_providers/registry.py\<close>: the fixed tables of model
  gateways and runtimes and the lookups in them.
\<close>

section \<open>Model gateways\<close>

record llm_gateway_provider =
  provider_id :: string
  lp_display_name :: string
  default_base_url :: string

definition gateway :: "string \<Rightarrow> string \<Rightarrow> string \<Rightarrow> llm_gateway_provider" where
  "gateway i nm url = \<lparr>provider_id = i, lp_display_name = nm, default_base_url = url\<rparr>"

definition GATEWAY_PROVIDERS :: "llm_gateway_provider list" where
  "GATEWAY_PROVIDERS =
    [gateway ''openai'' ''OpenAI'' ''https://api.openai.com/v1'',
     gateway ''anthropic'' ''Anthropic'' ''https://api.anthropic.com'',
     gateway ''ollama'' ''Ollama'' ''http://localhost:11434/v1'',
     gateway ''litellm'' ''LiteLLM'' ''http://localhost:4000/v1'',
     gateway ''forgepilot'' ''ForgePilot Gateway'' ''https://llm.forgepilot.local/v1'']"

definition list_gateway_providers :: "llm_gateway_provider list" where
  "list_gateway_providers = GATEWAY_PROVIDERS"

definition detect_provider :: "string \<Rightarrow> llm_gateway_provider option" where
  "detect_provider model_identifier =
     (case split_once ''/'' model_identifier of
        None \<Rightarrow> None
      | Some (pre, _) \<Rightarrow> find (\<lambda>p. provider_id p = lower (strip pre)) GATEWAY_PROVIDERS)"

definition normalize_model_identifier :: "string \<Rightarrow> string" where
  "normalize_model_identifier model_identifier =
     (case split_once ''/'' model_identifier of None \<Rightarrow> strip model_identifier | Some (_, rest) \<Rightarrow> strip rest)"

section \<open>Runtimes\<close>

record runtime_provider_spec =
  rp_name :: string
  runtime_class :: string
  supports_network_policy :: bool
  supports_resource_quota :: bool

definition runtime_spec :: "string \<Rightarrow> string \<Rightarrow> bool \<Rightarrow> bool \<Rightarrow> runtime_provider_spec" where
  "runtime_spec nm cls net quota = \<lparr>rp_name = nm, runtime_class = cls, supports_network_policy = net,
     supports_resource_quota = quota\<rparr>"

definition RUNTIME_PROVIDERS :: "runtime_provider_spec list" where
  "RUNTIME_PROVIDERS =
    [runtime_spec ''local'' ''CLIRuntime'' False False,
     runtime_spec ''docker'' ''DockerRuntime'' True True,
     runtime_spec ''kubernetes'' ''KubernetesRuntime'' True True,
     runtime_spec ''remote'' ''RemoteRuntime'' True True]"

definition list_runtime_providers :: "runtime_provider_spec list" where
  "list_runtime_providers = RUNTIME_PROVIDERS"

definition get_runtime_provider :: "string \<Rightarrow> runtime_provider_spec option" where
  "get_runtime_provider name =
     (let normalized = lower (strip name) in find (\<lambda>p. rp_name p = normalized) RUNTIME_PROVIDERS)"

section \<open>Lemmas\<close>

text \<open>Both tables are searched by a key; with distinct keys the search inverts the key.\<close>

locale keyed_table =
  fixes key :: "'a \<Rightarrow> string" and table :: "'a list"
  assumes keys_distinct: "distinct (map key table)"
begin

lemma find_key_iff: "find (\<lambda>p. key p = k) table = Some p \<longleftrightarrow> p \<in> set table \<and> key p = k"
proof -
  have "find (\<lambda>p. key p = k) xs = Some p \<longleftrightarrow> p \<in> set xs \<and> key p = k" if "distinct (map key xs)" for xs
    using that by (induction xs) auto
  then show ?thesis using keys_distinct .
qed

lemma find_key_None: "find (\<lambda>p. key p = k) table = None \<longleftrightarrow> k \<notin> key ` set table"
  by (auto simp: find_None_iff)

end

interpretation gateways: keyed_table provider_id GATEWAY_PROVIDERS
  by unfold_locales (simp add: GATEWAY_PROVIDERS_def gateway_def)

interpretation runtimes: keyed_table rp_name RUNTIME_PROVIDERS
  by unfold_locales (simp add: RUNTIME_PROVIDERS_def runtime_spec_def)

lemma split_once_slash: "CHR ''/'' \<notin> set a \<Longrightarrow> split_once ''/'' (a @ ''/'' @ b) = Some (a, b)"
  by (induction a) auto

section \<open>Properties\<close>

text \<open>A model identifier \<open>prefix/model\<close> is routed to a gateway exactly when the prefix is that
  gateway's id up to case and surrounding blanks, and the routed name is everything after the first
  slash; an identifier without a slash has no gateway.\<close>

theorem detect_provider_iff:
  assumes "CHR ''/'' \<notin> set pre"
  shows "(detect_provider (pre @ ''/'' @ model) = Some p \<longleftrightarrow> p \<in> set list_gateway_providers \<and> provider_id p = lower (strip pre))
    \<and> normalize_model_identifier (pre @ ''/'' @ model) = strip model
    \<and> detect_provider pre = None \<and> normalize_model_identifier pre = strip pre"
proof -
  have "split_once ''/'' pre = None"
    using assms by (subst split_once_None) (auto simp: contains_iff)
  then show ?thesis
    using assms split_once_slash [of pre model] gateways.find_key_iff [of "lower (strip pre)" p]
    by (simp add: detect_provider_def normalize_model_identifier_def list_gateway_providers_def)
qed

theorem detect_provider_iff_witness:
  "(detect_provider ('' OpenAI'' @ ''/'' @ ''gpt-4.1'') = Some (hd GATEWAY_PROVIDERS)
      \<longleftrightarrow> hd GATEWAY_PROVIDERS \<in> set list_gateway_providers \<and> provider_id (hd GATEWAY_PROVIDERS) = lower (strip '' OpenAI''))
    \<and> normalize_model_identifier ('' OpenAI'' @ ''/'' @ ''gpt-4.1'') = strip ''gpt-4.1''
    \<and> detect_provider '' OpenAI'' = None \<and> normalize_model_identifier '' OpenAI'' = strip '' OpenAI''"
  by (rule detect_provider_iff) simp

text \<open>A runtime is found by its name in any case and with any surrounding blanks, and by nothing
  else.\<close>

theorem get_runtime_provider_iff:
  "get_runtime_provider name = Some p \<longleftrightarrow> p \<in> set list_runtime_providers \<and> rp_name p = lower (strip name)"
  using runtimes.find_key_iff [of "lower (strip name)" p]
  by (simp add: get_runtime_provider_def list_runtime_providers_def)

end
