(* ===== verification/Router.thy ===== *)
theory Router
  imports Audit_Replay Tool_Registry
begin

text \<open>
  \<open>app_server/forgepilot/forgepilot_router.py\<close>: the two HTTP endpoints. Loading the events of a
  conversation (\<open>EventStore.search_events\<close>) is an argument: it returns the events or raises. A
  refused request is an exception \<open>HTTPException\<close> with its status code as text.
\<close>

record conversation_metadata =
  cm_conversation_id :: string
  cm_user_id :: "string option"

record text_response =
  rsp_body :: string
  rsp_media_type :: string
  rsp_headers :: "(string, string) dict"

definition MAX_AUDIT_EXPORT_EVENTS :: int where
  "MAX_AUDIT_EXPORT_EVENTS = 10000"

definition http_error :: "string \<Rightarrow> py_exn" where
  "http_error status = OtherError ''HTTPException'' status"

text \<open>\<open>load sid user_id limit\<close> is \<open>_load_events\<close>.\<close>

type_synonym event_loader = "string \<Rightarrow> string option \<Rightarrow> int \<Rightarrow> stream_event list res"

definition export_task_id :: "conversation_metadata \<Rightarrow> string option \<Rightarrow> string" where
  "export_task_id metadata task_id =
     (if str_or_empty task_id \<noteq> [] then str_or_empty task_id else cm_conversation_id metadata)"

definition export_audit_jsonl ::
  "(pyval \<Rightarrow> string) \<Rightarrow> (string \<Rightarrow> timestamp res) \<Rightarrow> timestamp \<Rightarrow> event_loader \<Rightarrow> conversation_metadata
    \<Rightarrow> string option \<Rightarrow> int \<Rightarrow> text_response res" where
  "export_audit_jsonl rp fromiso now load metadata task_id limit =
     (if limit < 1 \<or> MAX_AUDIT_EXPORT_EVENTS < limit then Inl (http_error ''422'')
      else case load (cm_conversation_id metadata) (cm_user_id metadata) limit of
        Inl (FileNotFoundError _) \<Rightarrow> Inl (http_error ''404'')
      | Inl e \<Rightarrow> Inl e
      | Inr events \<Rightarrow>
          let tid = export_task_id metadata task_id in
          res_bind (audit_events_from_event_stream rp fromiso now events (Some tid)) (\<lambda>audit_events.
            res_map (\<lambda>pack.
              \<lparr>rsp_body = audit_jsonl pack, rsp_media_type = ''application/x-ndjson'',
               rsp_headers = [(''Content-Disposition'',
                 ''attachment; filename='' @ [CHR 0x22] @ cm_conversation_id metadata @ ''-audit.jsonl'' @ [CHR 0x22])]\<rparr>)
            (build_task_evidence_pack rp now audit_events (Some tid))))"

fun res_all :: "'a res list \<Rightarrow> 'a list res" where
  "res_all [] = Inr []"
| "res_all (r # rs) = res_bind r (\<lambda>x. res_map (Cons x) (res_all rs))"

definition list_tool_registry :: "pyval list res" where
  "list_tool_registry =
     (let registry = from_builtin_templates
      in res_all (map (\<lambda>entry. preview_schema registry (tool_id entry)) (list_entries registry)))"

section \<open>Lemmas\<close>

lemma res_all_Inr: "(\<And>r. r \<in> set rs \<Longrightarrow> \<exists>x. r = Inr x) \<Longrightarrow> \<exists>xs. res_all rs = Inr xs \<and> map Inr xs = rs"
proof (induction rs)
  case (Cons r rs)
  then obtain x xs where "r = Inr x" "res_all rs = Inr xs" "map Inr xs = rs" by fastforce
  then show ?case by (simp add: res_bind_def res_map_def)
qed simp

lemma preview_of_entry:
  assumes "dict_get (entries r) t = Some e"
  shows "\<exists>v. preview_schema r t = Inr (PDict v) \<and> dict_get v ''tool_id'' = Some (PStr (tool_id e))"
  using assms by (auto simp: preview_schema_def get_entry_def)

end
