(* ===== verification/Spec2Isabelle.thy ===== *)
theory Spec2Isabelle
  imports Condensers Control_Flags Runtime_Gate Recall_Memory Fn_Call Code_Act Git_Patch Task_Protocol Budget_Policy Team_Space Approval_Policy Shell_Tools Harness_Service
    Delivery Platform Orchestration Providers Router Conversation_Stream History_View
begin

text \<open>
  \<^bold>\<open>ForgePilot Studio: a verification of the governance layer and the agent core\<close>

  ForgePilot Studio is an agent platform. Its own core, in \<open>src/openhands/forgepilot\<close>, decides what an
  agent may do, runs tools behind permission checks, and keeps the audit trail from which reports
  are made. This development models that core and the HTTP endpoints in front of it
  (\<open>src/openhands/app_server/forgepilot\<close>), and the agent core it stands on: events and their stream
  (\<open>src/openhands/events\<close>), the agent's memory (\<open>src/openhands/memory\<close>), the controller
  (\<open>src/openhands/controller\<close>), the agent and the text form of its tool calls
  (\<open>src/openhands/agenthub/codeact_agent\<close>, \<open>src/openhands/llm\<close>), the gate through which the runtime takes actions
  (\<open>src/openhands/runtime/base.py\<close>), and the application of patches
  (\<open>src/openhands/resolver\<close>). It proves the properties that make them trustworthy.

  \<^bold>\<open>The parts and how they interact\<close>

  \<^item> \<open>control_plane\<close>: the order of task phases (theory \<open>Task_Protocol\<close>), the cost thresholds
    (\<open>Budget_Policy\<close>) and the detection of commands and file changes that need approval
    (\<open>Approval_Policy\<close>).
  \<^item> \<open>teamspace\<close>: spaces, members and roles (\<open>Team_Space\<close>).
  \<^item> \<open>tool_registry\<close>: registered tools and the output summary (\<open>Tool_Schema\<close>), the registry with
    its call history, mocks, health checks and costs (\<open>Tool_Registry\<close>), the access guard and the
    schema diagrams (\<open>Tool_Enforcement\<close>), and shell tools (\<open>Shell_Tools\<close>).
  \<^item> \<open>harness\<close>: single-use confirmation tokens (\<open>Confirmation\<close>); runtime actions, policy, redaction
    and audit events (\<open>Harness_Action\<close>); the execution harness (\<open>Harness_Service\<close>).
  \<^item> \<open>audit\<close>: events, ordering and exports (\<open>Audit_Schema\<close>), the causal timeline (\<open>Audit_Timeline\<close>),
    conversion of the agent's event stream (\<open>Event_Stream\<close>), risk queues and replay summary
    (\<open>Audit_Replay\<close>).
  \<^item> \<open>delivery\<close>, \<open>platform\<close>, \<open>orchestration\<close>, \<open>llm_gateway\<close>, \<open>runtime_providers\<close>: theories \<open>Delivery\<close>,
    \<open>Platform\<close>, \<open>Orchestration\<close>, \<open>Providers\<close>; the endpoints are in \<open>Router\<close>.
  \<^item> \<open>events\<close>: every action and observation class with its fields, defaults and message (\<open>Events\<close>), events to
    and from dictionaries (\<open>Event_Serial\<close>), the search filter (\<open>Event_Filter\<close>), files, ids and cache pages
    of a conversation (\<open>Event_Store\<close>), adding, hiding of secrets, subscribers and delivery
    (\<open>Conversation_Stream\<close>).
  \<^item> \<open>memory\<close>: the view of a history under its condensations (\<open>History_View\<close>), the condensers (\<open>Condensers\<close>), how a
    view becomes the messages for the language model (\<open>Messages\<close> for \<open>core/message.py\<close>, \<open>Conversation_Memory\<close>), and
    the memory that answers recall actions from its microagents (\<open>Recall_Memory\<close>, with \<open>src/openhands/microagent\<close>).
  \<^item> \<open>controller\<close>: iteration and budget limits (\<open>Control_Flags\<close>), detection of loops (\<open>Stuck_Detector\<close>),
    replay of trajectories (\<open>Replay\<close>), the state of an agent, its saving and its history (\<open>State_Tracker\<close>), and
    the controller with its delegates (\<open>Agent_Controller\<close>).
  \<^item> \<open>agenthub/codeact_agent\<close>: the tools the agent offers, how a response of the model becomes actions, and the step of the
    agent (\<open>Code_Act\<close>).
  \<^item> \<open>llm/fn_call_converter.py\<close>: tool calls as text for models without function calling, the reader of that text, and the
    splitting of messages with several calls (\<open>Fn_Call\<close>, with the texts of the prompts in \<open>Fn_Call_Prompts\<close>).
  \<^item> \<open>runtime/base.py\<close>: what the runtime does with an action of the stream (\<open>Runtime_Gate\<close>).
  \<^item> \<open>resolver/patching\<close> and \<open>apply_patch\<close> of \<open>resolver/send_pull_request.py\<close>: headers and changes of a patch in every format
    and their application (\<open>Patching\<close>, over the line patterns of \<open>Line_Patterns\<close>), edit scripts and the formats that print them
    (\<open>Patch_Scripts\<close>), and git patches applied to a repository (\<open>Git_Patch\<close>).

  A runtime action goes through the harness: it is given a permission, the policy and the
  confirmation gate decide, the executor runs or not, and one audit event is written. A tool call
  goes through the guard to the registry, which logs one record. Audit events, from the harness or
  from the event stream, are ordered, linked into chains, exported, and turned into delivery texts.

  In the agent core everything passes through the stream. The controller receives each event, keeps the
  history, and on a step asks the agent for an action, within the limits and unless the history is
  a loop; it marks risky actions as waiting for the user and adds the action to the stream, which
  stores it, hides secrets and hands a copy to the subscribers. The runtime is one of them: it executes
  the action or not and adds an observation. The memory is another: it answers the recall that the controller adds for a message of the
  user. The agent sees a view of the history, which the condensers shorten and the conversation memory turns into messages; it asks the
  model with these messages, where need be as plain text, makes one action of each tool call of the response and hands out one at each step. The
  controllers of a conversation, the root and its chain of delegates, are the list \<open>w_ctls\<close> of the \<open>world\<close>, which also
  holds the stream, the shared limits, the saved sessions and the reported status; a handler is an operation
  on the world that returns or raises (\<open>op_bind\<close>).

  \<^bold>\<open>How the model is written\<close>

  Objects are records, enums are datatypes, and every method is one definition that takes the state
  and returns what the method returns or raises together with the new state; an exception is \<open>Inl\<close>
  of a \<open>py_exn\<close>, and a call into foreign code may also diverge (\<open>outcome\<close>). Dictionaries are
  association lists in insertion order. What Python provides is modelled once: strings over Latin-1
  (\<open>Py_Str\<close>; a character outside it in a literal is its UTF-8 bytes), IEEE doubles as rationals with
  the rounding written out (\<open>Py_Float\<close>), \<open>shlex\<close> (\<open>Py_Shlex\<close>), backtracking regular expressions and
  \<open>fnmatch\<close> (\<open>Py_Regex\<close>), POSIX paths (\<open>Py_Path\<close>), payload values and JSON (\<open>Py_Json\<close>); the \<open>csv\<close> writer
  and \<open>datetime\<close> ordering are in \<open>Audit_Schema\<close>. What a call reads from outside is an argument: the
  clock, fresh identifiers, elapsed time, the text of a float, executors, subprocesses, the file
  system behind \<open>Path.resolve\<close> and \<open>open\<close>, the event store, and the parser of ISO timestamps.
  Theorems hold for all of these arguments unless a named hypothesis says otherwise
  (\<open>one_line_repr\<close>: the text of a float has no line break; \<open>path_clean\<close>: a path's components are
  those of a \<open>pathlib\<close> path; distinct fresh tokens). In the agent core the arguments are the agent, the language model of a
  condenser, the security analyzer, the exception classes of the client library (\<open>en_isinstance\<close>), pydantic's validators and
  \<open>ast.literal_eval\<close> (\<open>codec\<close>), the prompt templates, the printed form of an event and the accessors of a model response (fields of
  \<open>memory_config\<close>), the front-matter parser and the metadata validation of microagents (\<open>parse\<close> and \<open>validate\<close> of
  \<open>load_microagent\<close>), the model and its client (\<open>code_act_env\<close>), JSON, numbers and printed sets in the converter (\<open>fn_env\<close>), the
  program \<open>patch\<close>, \<open>zlib\<close> with base85 and the printed form of bytes for patches, and what a runtime does when it executes. A handler runs to its end before the next event is taken, as
  \<open>run_until_complete\<close> does; a stored file is the value its JSON text stands for.

  Loops are structural recursion or functions with a termination proof (\<open>walk_chain\<close>,
  \<open>segments_match\<close>, the readers of \<open>Py_Str\<close> and \<open>Audit_Schema\<close>), so no fuel is used in the model; only
  \<open>handoff_run\<close> and \<open>replay_run\<close>, which are specifications, take a bound, and \<open>handoff_visits_all\<close> shows that the
  number of agents is enough.

  \<^bold>\<open>What is shown\<close>

  \<^item> Safety of execution: an action that is not cleared, a tool call the guard denies, a CONFIRM tool
    without confirmation and a refused shell tool never reach their executor; a path the guard
    accepts lies in the workspace; a token is accepted at most once.
  \<^item> Completeness of the record: each harness call, registry call and shell call leaves exactly one
    record; every audit event is in exactly one chain, one CSV row and one JSONL line.
  \<^item> Invariants of the registries (spaces, tools, tenants, confirmation gate) over all sequences of
    operations, through the locale \<open>guarded_steps\<close>.
  \<^item> Refinements and equivalences: guard over registry, asynchronous over synchronous execution, the
    pruned correlation window over a scan of the whole history, floating-point budget and window
    tests over exact ones, exported text over a reader of it; paged searches over reading file by file, a reopened
    store over the stream that wrote it.
  \<^item> Events: the round trip through dictionaries, the shape of everything that is read, delivery once and in order, and secrets
    hidden from stored texts.
  \<^item> Memory: a view holds what is not forgotten; a condenser that answers leaves a view within its bound (one proof in the locale
    \<open>rolling_condenser\<close>, interpreted on four condensers). In the conversation every message with tool calls is followed by the results of
    exactly these calls; it begins with the system message and the task, carries at most two cache marks, and processing a history again
    gives the same. The collections of microagents stay typed and keyed (\<open>guarded_steps\<close> again), and the answer of the memory
    ends the waiting of the controller.
  \<^item> Agent: a response becomes one action for each call, the actions are handed out in their order, the conversation memory accepts
    them, and under the controller the model is asked within the limit. A conversation written as plain text is read back, and every
    conversation can be split into messages with one call each.
  \<^item> Patches: the locales \<open>edit_format\<close> and \<open>reversible_format\<close> say that a printed diff is parsed into the changes of its
    script; unified, default and RCS diffs satisfy them, so each turns old lines into new ones (and back, where removed lines
    are shown), and on other files edits or raises. A git patch of several files turns a repository it fits into the patched one.
  \<^item> Control: agents are asked within the limit whatever arrives, a stopped agent stays idle, state changes are
    saved and restored, loops of one or two steps are found, finished delegations are folded, and an action
    that waits or was rejected is not executed by the runtime. These go through the locales \<open>world_frame\<close> and
    \<open>world_invariant\<close>, whose laws are shown once for every operation.
  \<^item> Where the code departs from its documentation or intent, the departure is a theorem as well
    (\<open>add_member_demotes_owner\<close>, \<open>budget_pause_needs_approval_flag\<close>, \<open>glued_separator_not_reported\<close>,
    \<open>bearer_credential_kept\<close>, \<open>live_risk_level_not_queued\<close>, \<open>live_tests_never_reported\<close>,
    \<open>equal_priorities_stop_handoff\<close>, \<open>numbered_trace_id_collides\<close>, \<open>tool_id_breaks_graph\<close>,
    \<open>model_access_shrinks\<close>; in the agent core \<open>waiting_mark_lost\<close> and \<open>unmarked_write_is_executed\<close>,
    \<open>mcp_call_ignores_mark\<close>, \<open>delegate_never_asks\<close>, \<open>nested_delegate_starves\<close>, \<open>budget_stop_ends_delegate\<close>,
    \<open>recovery_fixes_end\<close>, \<open>recovery_point_off\<close>, \<open>stale_view_after_truncation\<close>, \<open>nested_delegation_repeats_events\<close>,
    \<open>loop_start_is_first_equal\<close>, \<open>context_window_loop_never_found\<close>, \<open>stored_message_keeps_secret\<close>, \<open>gap_shifts_page\<close>,
    \<open>truncate_content_tiny\<close>, \<open>non_ascii_query_finds_nothing\<close>, \<open>summary_of_nothing_raises\<close>,
    \<open>small_view_request_raises\<close>, \<open>recent_events_grow\<close>; in the agent \<open>thought_lost_or_repeated\<close> and \<open>value_with_end_mark_is_cut\<close>; the
    section of \<open>Git_Patch\<close> on where patches go wrong holds thirteen of them, from \<open>ed_change_misplaced\<close> to
    \<open>binary_patch_writes_printed_bytes\<close>).

  \<^bold>\<open>What is not modelled\<close>

  Pydantic's serialisation to JSON (\<open>model_dump_json\<close>) and its conversions between types, the unused
  class \<open>SchemaNode\<close>, values of arbitrary classes inside payloads, daemon threads beyond their
  effect on the caller. Of the agent core: threads and the asynchronous loop, logging, metrics and response ids,
  the printed forms of events, the nested and remote event stores, and pickling itself. For patches: directories, the
  program \<open>patch\<close> and errors of the file system other than a missing file. Outside these packages nothing of what
  the platform inherits is modelled: the other agents, tool descriptions and prompt templates, language-model clients, the runtimes
  behind the gate, servers, integrations, storage clients and the front end, whose code is input and output around services that
  are not part of the repository.
\<close>

section \<open>The harness and the audit exports\<close>

definition harness_step :: "harness_call \<Rightarrow> execution_harness \<Rightarrow> execution_harness" where
  "harness_step c h = snd (perform c h)"

definition log_aware :: "execution_harness \<Rightarrow> bool" where
  "log_aware h \<longleftrightarrow> (\<forall>e \<in> set (h_audit_events h). ts_aware (ae_timestamp e))"

lemma record_result_aware: "log_aware h \<Longrightarrow> log_aware (snd (record_result ev act st lat out err res task h))"
  by (auto simp: log_aware_def record_result_def Let_def audit_event_from_observation_def utc_now_def ts_aware_def)

lemma log_aware_gate [simp]: "log_aware (h\<lparr>h_gate := g\<rparr>) = log_aware h"
  by (simp add: log_aware_def)

lemma preflight_aware: "log_aware h \<Longrightarrow> log_aware (snd (preflight_result ev a act d token task h))"
  by (cases "consume (env_now ev) (str_or_empty token) (Some (confirmation_subject act)) (h_gate h)")
    (auto simp: preflight_result_def Let_def intro: record_result_aware split: bool.splits)

lemma finish_aware: "log_aware h \<Longrightarrow> log_aware (snd (finish ev act out task h))"
  by (cases out) (auto simp: finish_def intro: record_result_aware)

lemma harness_step_aware: "log_aware h \<Longrightarrow> log_aware (harness_step c h)"
proof (cases c)
  case (HCall ev a ex token task perms)
  assume h: "log_aware h"
  have "log_aware (snd (preflight_result ev a (the_action ev a perms h) (the_decision ev a perms h) token task h))"
    using h by (rule preflight_aware)
  with HCall show ?thesis
    by (auto simp: harness_step_def execute_def Let_def split: prod.splits option.splits intro: finish_aware)
qed

interpretation harness: guarded_steps harness_step log_aware
  by unfold_locales (rule harness_step_aware)

section \<open>Properties\<close>

text \<open>The audit log a harness keeps can always be exported: after any sequence of calls, building
  the evidence pack succeeds and counts every logged event.\<close>

theorem harness_log_exportable:
  "\<exists>p. build_task_evidence_pack rp now (h_audit_events (fold harness_step calls (new_harness pol gate task perms))) tid = Inr p
     \<and> event_count p = int (length (h_audit_events (fold harness_step calls (new_harness pol gate task perms))))"
proof -
  let ?es = "h_audit_events (fold harness_step calls (new_harness pol gate task perms))"
  have "log_aware (fold harness_step calls (new_harness pol gate task perms))"
    by (rule harness.run_inv) (simp add: log_aware_def new_harness_def)
  then have "ordered_timeline ?es = Inr (sort_key (ts_micros \<circ> ae_timestamp) ?es)"
    by (auto simp: ordered_timeline_def log_aware_def list_ex_iff)
  from pack_Inr [OF this, of rp now tid] show ?thesis by auto
qed

text \<open>The export endpoint refuses a limit outside 1 to 10000, answers 404 when the conversation is
  not found, and otherwise returns one line for each audit event of the loaded stream.\<close>

theorem audit_export_endpoint:
  assumes "one_line_repr rp"
  shows "case export_audit_jsonl rp fromiso now load md task limit of
     Inr rsp \<Rightarrow> 1 \<le> limit \<and> limit \<le> 10000 \<and> (\<exists>events audit.
        load (cm_conversation_id md) (cm_user_id md) limit = Inr events
        \<and> audit_events_from_event_stream rp fromiso now events (Some (export_task_id md task)) = Inr audit
        \<and> (if audit = [] then rsp_body rsp = [] else length (split_char nl (rsp_body rsp)) = length audit))
   | Inl e \<Rightarrow> limit < 1 \<or> 10000 < limit \<or> (\<forall>m. load (cm_conversation_id md) (cm_user_id md) limit = Inl (FileNotFoundError m) \<longrightarrow> e = http_error ''404'')"
proof (cases "export_audit_jsonl rp fromiso now load md task limit")
  case (Inl e)
  then show ?thesis
    by (auto simp: export_audit_jsonl_def MAX_AUDIT_EXPORT_EVENTS_def split: if_splits)
next
  case (Inr rsp)
  let ?t = "export_task_id md task"
  from Inr obtain events audit pack where lim: "1 \<le> limit" "limit \<le> 10000"
    and load: "load (cm_conversation_id md) (cm_user_id md) limit = Inr events"
    and audit: "audit_events_from_event_stream rp fromiso now events (Some ?t) = Inr audit"
    and pack: "build_task_evidence_pack rp now audit (Some ?t) = Inr pack" and body: "rsp_body rsp = audit_jsonl pack"
    by (auto simp: export_audit_jsonl_def MAX_AUDIT_EXPORT_EVENTS_def Let_def split: if_splits sum.splits py_exn.splits)
  obtain ts where ts: "ordered_timeline audit = Inr ts"
    using pack by (auto simp: build_task_evidence_pack_def split: sum.splits)
  with pack_Inr [OF ts, of rp now "Some ?t"] pack
  have j: "export_audit_events_jsonl rp audit = Inr (audit_jsonl pack)" by auto
  have "if audit = [] then rsp_body rsp = [] else length (split_char nl (rsp_body rsp)) = length audit"
  proof (cases "audit = []")
    case True
    with j body show ?thesis by (simp add: export_audit_events_jsonl_def ordered_timeline_def)
  next
    case False
    from jsonl_lines [OF assms j False] body show ?thesis using False by simp
  qed
  with load audit have "\<exists>events audit. load (cm_conversation_id md) (cm_user_id md) limit = Inr events
      \<and> audit_events_from_event_stream rp fromiso now events (Some ?t) = Inr audit
      \<and> (if audit = [] then rsp_body rsp = [] else length (split_char nl (rsp_body rsp)) = length audit)" by blast
  with Inr lim show ?thesis by simp
qed

definition demo_metadata :: conversation_metadata where
  "demo_metadata = \<lparr>cm_conversation_id = ''c1'', cm_user_id = None\<rparr>"

theorem audit_export_endpoint_witness:
  "case export_audit_jsonl (\<lambda>_. ''1.5'') (\<lambda>_. Inl (ValueError [])) \<lparr>ts_micros = 0, ts_offset = Some 0\<rparr>
       (\<lambda>_ _ _. Inr [demo_message ''user'' ''hi'']) demo_metadata None 5 of
     Inr rsp \<Rightarrow> 1 \<le> (5::int) \<and> (5::int) \<le> 10000 \<and> (\<exists>events audit.
        (Inr [demo_message ''user'' ''hi''] :: stream_event list res) = Inr events
        \<and> audit_events_from_event_stream (\<lambda>_. ''1.5'') (\<lambda>_. Inl (ValueError [])) \<lparr>ts_micros = 0, ts_offset = Some 0\<rparr> events (Some (export_task_id demo_metadata None)) = Inr audit
        \<and> (if audit = [] then rsp_body rsp = [] else length (split_char nl (rsp_body rsp)) = length audit))
   | Inl e \<Rightarrow> (5::int) < 1 \<or> 10000 < (5::int)
        \<or> (\<forall>m. (Inr [demo_message ''user'' ''hi''] :: stream_event list res) = Inl (FileNotFoundError m) \<longrightarrow> e = http_error ''404'')"
  by (rule audit_export_endpoint) (simp add: one_line_repr_def)

lemma not_isl_eq: "\<not> isl x \<Longrightarrow> x = Inr (case x of Inl _ \<Rightarrow> [] | Inr v \<Rightarrow> v)"
  by (cases x) simp_all

text \<open>The tool-listing endpoint never fails: it returns the preview of every built-in connector,
  in order of the tool ids.\<close>

theorem tool_listing_endpoint:
  "\<exists>vs. list_tool_registry = Inr vs \<and> length vs = 7
     \<and> map (\<lambda>v. case v of PDict d \<Rightarrow> dict_get d ''tool_id'' | _ \<Rightarrow> None) vs
       = map (Some \<circ> PStr \<circ> tool_id) (list_entries from_builtin_templates)"
proof (intro exI conjI)
  let ?vs = "case list_tool_registry of Inl _ \<Rightarrow> [] | Inr vs \<Rightarrow> vs"
  have "\<not> isl list_tool_registry" by code_simp
  then show "list_tool_registry = Inr ?vs" by (rule not_isl_eq)
  show "length ?vs = 7" by code_simp
  show "map (\<lambda>v. case v of PDict d \<Rightarrow> dict_get d ''tool_id'' | _ \<Rightarrow> None) ?vs
     = map (Some \<circ> PStr \<circ> tool_id) (list_entries from_builtin_templates)" by code_simp
qed

end
